(* ===== verification/CMOS_Prelude.thy ===== *)
theory CMOS_Prelude
  imports Main
begin

text \<open>Shared vocabulary of the development. Text values are HOL strings (a Python
string is a list of characters, here code points up to 255), instants are
integers in microseconds since the epoch, and database-generated identifiers
are natural numbers. The theory holds the result type of the request
handlers, the SQL idiom ORDER BY ... LIMIT 1 as a total function on lists,
keyed rows, and the Python string helpers the services use.\<close>

named_theorems handler_simps \<open>unfolding rules of request handlers\<close>
named_theorems table_simps \<open>facts about tables kept as lists of rows\<close>

type_synonym instant = int
type_synonym row_id = nat
type_synonym bytes = "nat list"

section \<open>Outcome of a request handler\<close>

text \<open>A handler either returns a body, raises HTTPException with a text detail or
with a structured detail, or lets an exception escape, which the framework
answers with status 500.\<close>

datatype 'd failure =
    Refused nat string
  | RefusedWith nat 'd
  | Crashed string

type_synonym ('d, 'a) reply = "'d failure + 'a"

fun status_of :: "('d, 'a) reply \<Rightarrow> nat" where
  "status_of (Inr _) = 200"
| "status_of (Inl (Refused n _)) = n"
| "status_of (Inl (RefusedWith n _)) = n"
| "status_of (Inl (Crashed _)) = 500"

section \<open>SQL idioms over tables kept as lists of rows\<close>

text \<open>\<open>first_by before rows\<close> is ORDER BY ... LIMIT 1 for the strict order
\<open>before\<close>: among rows that tie, the earliest of the table.\<close>

fun first_by :: "('r \<Rightarrow> 'r \<Rightarrow> bool) \<Rightarrow> 'r list \<Rightarrow> 'r option" where
  "first_by before [] = None"
| "first_by before (r # rs) =
    (case first_by before rs of
       None \<Rightarrow> Some r
     | Some r' \<Rightarrow> if before r' r then Some r' else Some r)"

lemma first_by_None [simp, table_simps]: "first_by before rs = None \<longleftrightarrow> rs = []"
  by (cases rs) (auto split: option.splits)

lemma first_by_mem: "first_by before rs = Some r \<Longrightarrow> r \<in> set rs"
  by (induction rs arbitrary: r) (auto split: option.splits if_splits)

lemma first_by_Some_iff: "(\<exists>r. first_by before rs = Some r) \<longleftrightarrow> rs \<noteq> []"
  by (metis first_by_None not_Some_eq)

lemma first_by_least:
  assumes "first_by before rs = Some r"
      and "\<And>a b. before a b \<Longrightarrow> \<not> before b a"
      and "\<And>a b c. before a b \<Longrightarrow> before a c \<or> before c b"
      and "s \<in> set rs"
  shows "\<not> before s r"
  using assms(1,4)
proof (induction rs arbitrary: r)
  case (Cons x xs)
  note asym = assms(2) and neg_trans = assms(3)
  have irrefl: "\<not> before a a" for a using asym by blast
  show ?case
  proof (cases "first_by before xs")
    case None
    with Cons.prems irrefl show ?thesis by auto
  next
    case (Some m)
    note least = Cons.IH[OF Some]
    show ?thesis
    proof (cases "before m x")
      case True
      with Some Cons.prems have "r = m" by simp
      with least Cons.prems(2) True asym show ?thesis by auto
    next
      case False
      with Some Cons.prems have "r = x" by simp
      with least Cons.prems(2) False neg_trans irrefl show ?thesis by (metis set_ConsD)
    qed
  qed
qed simp

text \<open>\<open>update_where p f rows\<close> is UPDATE ... SET f WHERE p.\<close>

definition update_where :: "('r \<Rightarrow> bool) \<Rightarrow> ('r \<Rightarrow> 'r) \<Rightarrow> 'r list \<Rightarrow> 'r list" where
  "update_where p f rows = map (\<lambda>r. if p r then f r else r) rows"

lemma length_update_where [simp, table_simps]: "length (update_where p f rs) = length rs"
  by (simp add: update_where_def)

lemma update_where_id [table_simps]: "\<forall>r\<in>set rs. \<not> p r \<Longrightarrow> update_where p f rs = rs"
  by (simp add: update_where_def map_idI)

lemma map_update_where [table_simps]:
  "(\<And>r. g (f r) = g r) \<Longrightarrow> map g (update_where p f rs) = map g rs"
  by (simp add: update_where_def)

lemma set_update_where [table_simps]:
  "set (update_where p f rs) = (\<lambda>r. if p r then f r else r) ` set rs"
  by (simp add: update_where_def)

section \<open>Python text helpers\<close>

definition py_space :: "char \<Rightarrow> bool" where
  "py_space c \<longleftrightarrow> (let n = (of_char c :: nat) in
     (9 \<le> n \<and> n \<le> 13) \<or> (28 \<le> n \<and> n \<le> 32) \<or> n = 133 \<or> n = 160)"

definition py_lstrip :: "string \<Rightarrow> string" where
  "py_lstrip s = dropWhile py_space s"

definition py_strip :: "string \<Rightarrow> string" where
  "py_strip s = rev (dropWhile py_space (rev (dropWhile py_space s)))"

definition lower_char :: "char \<Rightarrow> char" where
  "lower_char c = (let n = (of_char c :: nat) in
     if (65 \<le> n \<and> n \<le> 90) \<or> (192 \<le> n \<and> n \<le> 222 \<and> n \<noteq> 215)
     then char_of (n + 32) else c)"

definition py_lower :: "string \<Rightarrow> string" where
  "py_lower s = map lower_char s"

definition is_ascii :: "string \<Rightarrow> bool" where
  "is_ascii s \<longleftrightarrow> (\<forall>c\<in>set s. (of_char c :: nat) < 128)"

text \<open>Python truth of an optional string: None and the empty string are false.
\<open>or_else\<close> is the expression x or y for such an x.\<close>

fun truthy :: "string option \<Rightarrow> bool" where
  "truthy None = False"
| "truthy (Some s) = (s \<noteq> [])"

fun or_else :: "string option \<Rightarrow> string \<Rightarrow> string" where
  "or_else None d = d"
| "or_else (Some s) d = (if s = [] then d else s)"

lemma truthy_iff: "truthy x \<longleftrightarrow> (\<exists>s. x = Some s \<and> s \<noteq> [])"
  by (cases x) auto

lemma or_else_empty [simp]: "or_else x [] = [] \<longleftrightarrow> \<not> truthy x"
  by (cases x) auto

lemma or_else_eq [simp]: "s \<noteq> [] \<Longrightarrow> or_else (Some s) d = s"
  by simp

section \<open>Decimal rendering of numbers\<close>

definition digit_char :: "nat \<Rightarrow> char" where
  "digit_char d = char_of (48 + d)"

fun nat_str :: "nat \<Rightarrow> string" where
  "nat_str n = (if n < 10 then [digit_char n] else nat_str (n div 10) @ [digit_char (n mod 10)])"

declare nat_str.simps [simp del]

definition int_str :: "int \<Rightarrow> string" where
  "int_str i = (if i < 0 then CHR ''-'' # nat_str (nat (- i)) else nat_str (nat i))"

fun digits_val :: "nat \<Rightarrow> string \<Rightarrow> nat" where
  "digits_val acc [] = acc"
| "digits_val acc (c # cs) = digits_val (acc * 10 + (of_char c - 48)) cs"

definition is_digit :: "char \<Rightarrow> bool" where
  "is_digit c \<longleftrightarrow> (let n = (of_char c :: nat) in 48 \<le> n \<and> n \<le> 57)"

lemma of_digit_char [simp]: "d < 10 \<Longrightarrow> (of_char (digit_char d) :: nat) = 48 + d"
  by (simp add: digit_char_def)

lemma is_digit_digit_char [simp]: "d < 10 \<Longrightarrow> is_digit (digit_char d)"
  by (simp add: is_digit_def)

lemma digits_val_append:
  "digits_val acc (xs @ [c]) = digits_val acc xs * 10 + (of_char c - 48)"
  by (induction xs arbitrary: acc) simp_all

lemma digits_val_nat_str [simp]: "digits_val 0 (nat_str n) = n"
proof (induction n rule: nat_str.induct)
  case (1 n)
  then show ?case
    by (cases "n < 10") (simp_all add: nat_str.simps[of n] digits_val_append)
qed

lemma nat_str_digits: "\<forall>c\<in>set (nat_str n). is_digit c"
proof (induction n rule: nat_str.induct)
  case (1 n)
  then show ?case
    by (cases "n < 10") (auto simp: nat_str.simps[of n])
qed

lemma nat_str_nonempty [simp]: "nat_str n \<noteq> []"
  by (simp add: nat_str.simps[of n])

lemma nat_str_inj: "nat_str a = nat_str b \<longleftrightarrow> a = b"
  by (metis digits_val_nat_str)

text \<open>No leading zero: a rendering of more than one digit does not start with 0.\<close>

lemma hd_nat_str: "n \<ge> 1 \<Longrightarrow> hd (nat_str n) \<noteq> CHR ''0''"
proof (induction n rule: nat_str.induct)
  case (1 n)
  show ?case
  proof (cases "n < 10")
    case True
    have "(of_char (digit_char n) :: nat) = 48 + n" "(of_char (CHR ''0'') :: nat) = 48"
      using True by simp_all
    with "1.prems" have "digit_char n \<noteq> CHR ''0''" by auto
    with True show ?thesis by (simp add: nat_str.simps[of n])
  next
    case False
    then have "n div 10 \<ge> 1" by simp
    with 1 False show ?thesis by (simp add: nat_str.simps[of n])
  qed
qed

end
