(* ===== verification/Gatekeeper_Policy.thy ===== *)
theory Gatekeeper_Policy
  imports CMOS_Prelude
begin

text \<open>services/gatekeeper/app/policy_loader.py: validation of the autonomy policy
document and the level lookup. The YAML parser is not under src/: its result
for the policy file is the argument of \<open>load_policy\<close> (None when the file does
not exist).\<close>

text \<open>The values yaml.safe_load builds; YOther stands for dates and other scalars.\<close>

datatype yaml =
    YNull
  | YBool bool
  | YInt int
  | YFloat string
  | YStr string
  | YOther string
  | YList "yaml list"
  | YMap "(yaml \<times> yaml) list"

definition MIN_LEVEL :: int where "MIN_LEVEL = 0"
definition MAX_LEVEL :: int where "MAX_LEVEL = 4"
definition FALLBACK_DEFAULT_LEVEL :: int where "FALLBACK_DEFAULT_LEVEL = 0"

definition REQUIRED_ENTRY_KEYS :: "string list" where
  "REQUIRED_ENTRY_KEYS = [''function_id'', ''action_class'', ''level'']"

text \<open>PolicyError, by the check that raised it; entry checks carry the index.\<close>

datatype policy_error =
    Policy_Missing
  | Top_Level_Not_Mapping
  | Version_Missing
  | Version_Not_Integer
  | Default_Level_Bad
  | Entries_Not_A_List
  | Entry_Not_Mapping nat
  | Entry_Missing_Keys nat "string list"
  | Entry_Function_Id nat
  | Entry_Action_Class nat
  | Entry_Level nat
  | Entry_Duplicate nat
  | Entry_Description nat
  | Entry_Unknown_Keys nat

record policy_entry =
  pe_function_id :: string
  pe_action_class :: string
  pe_level :: int
  pe_description :: "string option"

record autonomy_policy =
  pol_version :: int
  pol_default_level :: int
  pol_entries :: "policy_entry list"

fun first_entry :: "policy_entry list \<Rightarrow> string \<Rightarrow> string \<Rightarrow> policy_entry option" where
  "first_entry [] f a = None"
| "first_entry (e # es) f a =
    (if pe_function_id e = f \<and> pe_action_class e = a then Some e else first_entry es f a)"

definition level_for :: "autonomy_policy \<Rightarrow> string \<Rightarrow> string \<Rightarrow> int" where
  "level_for p f a =
    (case first_entry (pol_entries p) f a of Some e \<Rightarrow> pe_level e | None \<Rightarrow> pol_default_level p)"

definition entry_for :: "autonomy_policy \<Rightarrow> string \<Rightarrow> string \<Rightarrow> policy_entry option" where
  "entry_for p f a = first_entry (pol_entries p) f a"

fun validate_level :: "yaml \<Rightarrow> int option" where
  "validate_level (YInt l) = (if l < MIN_LEVEL \<or> l > MAX_LEVEL then None else Some l)"
| "validate_level _ = None"

abbreviation yget :: "(yaml \<times> yaml) list \<Rightarrow> string \<Rightarrow> yaml option" where
  "yget m k \<equiv> map_of m (YStr k)"

definition load_entry ::
    "nat \<Rightarrow> (string \<times> string) list \<Rightarrow> yaml \<Rightarrow> policy_error + policy_entry" where
  "load_entry i seen raw =
    (case raw of
       YMap m \<Rightarrow>
         (let missing = filter (\<lambda>k. yget m k = None) REQUIRED_ENTRY_KEYS in
          if missing \<noteq> [] then Inl (Entry_Missing_Keys i missing)
          else (case yget m ''function_id'' of
            Some (YStr f) \<Rightarrow>
              if f = [] then Inl (Entry_Function_Id i)
              else (case yget m ''action_class'' of
                Some (YStr a) \<Rightarrow>
                  if a = [] then Inl (Entry_Action_Class i)
                  else (case validate_level (the (yget m ''level'')) of
                    None \<Rightarrow> Inl (Entry_Level i)
                  | Some l \<Rightarrow>
                      if (f, a) \<in> set seen then Inl (Entry_Duplicate i)
                      else (case yget m ''description'' of
                          Some (YStr d) \<Rightarrow>
                            if set (map fst m) \<subseteq> YStr ` set (''description'' # REQUIRED_ENTRY_KEYS)
                            then Inr \<lparr>pe_function_id = f, pe_action_class = a, pe_level = l, pe_description = Some d\<rparr>
                            else Inl (Entry_Unknown_Keys i)
                        | Some YNull \<Rightarrow>
                            if set (map fst m) \<subseteq> YStr ` set (''description'' # REQUIRED_ENTRY_KEYS)
                            then Inr \<lparr>pe_function_id = f, pe_action_class = a, pe_level = l, pe_description = None\<rparr>
                            else Inl (Entry_Unknown_Keys i)
                        | None \<Rightarrow>
                            if set (map fst m) \<subseteq> YStr ` set (''description'' # REQUIRED_ENTRY_KEYS)
                            then Inr \<lparr>pe_function_id = f, pe_action_class = a, pe_level = l, pe_description = None\<rparr>
                            else Inl (Entry_Unknown_Keys i)
                        | Some _ \<Rightarrow> Inl (Entry_Description i)))
              | _ \<Rightarrow> Inl (Entry_Action_Class i))
          | _ \<Rightarrow> Inl (Entry_Function_Id i)))
     | _ \<Rightarrow> Inl (Entry_Not_Mapping i))"

fun load_entries ::
    "nat \<Rightarrow> (string \<times> string) list \<Rightarrow> yaml list \<Rightarrow> policy_error + policy_entry list" where
  "load_entries i seen [] = Inr []"
| "load_entries i seen (raw # raws) =
    (case load_entry i seen raw of
       Inl e \<Rightarrow> Inl e
     | Inr en \<Rightarrow>
         (case load_entries (Suc i) ((pe_function_id en, pe_action_class en) # seen) raws of
            Inl e \<Rightarrow> Inl e
          | Inr ens \<Rightarrow> Inr (en # ens)))"

definition load_policy :: "yaml option \<Rightarrow> policy_error + autonomy_policy" where
  "load_policy doc =
    (case doc of
       None \<Rightarrow> Inl Policy_Missing
     | Some (YMap m) \<Rightarrow>
         (case yget m ''version'' of
            None \<Rightarrow> Inl Version_Missing
          | Some (YInt v) \<Rightarrow>
              (case validate_level (case yget m ''default_level'' of
                                      Some l \<Rightarrow> l | None \<Rightarrow> YInt FALLBACK_DEFAULT_LEVEL) of
                 None \<Rightarrow> Inl Default_Level_Bad
               | Some d \<Rightarrow>
                   (case yget m ''entries'' of
                      Some (YList raws) \<Rightarrow>
                        if raws = [] then Inl Entries_Not_A_List
                        else (case load_entries 0 [] raws of
                                Inl e \<Rightarrow> Inl e
                              | Inr es \<Rightarrow> Inr \<lparr>pol_version = v, pol_default_level = d, pol_entries = es\<rparr>)
                    | _ \<Rightarrow> Inl Entries_Not_A_List))
          | Some _ \<Rightarrow> Inl Version_Not_Integer)
     | Some _ \<Rightarrow> Inl Top_Level_Not_Mapping)"

section \<open>What a loaded policy guarantees\<close>

definition entry_key :: "policy_entry \<Rightarrow> string \<times> string" where
  "entry_key e = (pe_function_id e, pe_action_class e)"

definition wf_entry :: "policy_entry \<Rightarrow> bool" where
  "wf_entry e \<longleftrightarrow> pe_function_id e \<noteq> [] \<and> pe_action_class e \<noteq> [] \<and> 0 \<le> pe_level e \<and> pe_level e \<le> 4"

definition wf_policy :: "autonomy_policy \<Rightarrow> bool" where
  "wf_policy p \<longleftrightarrow> pol_entries p \<noteq> [] \<and> distinct (map entry_key (pol_entries p)) \<and>
     (\<forall>e\<in>set (pol_entries p). wf_entry e) \<and> 0 \<le> pol_default_level p \<and> pol_default_level p \<le> 4"

lemma validate_level_range: "validate_level y = Some l \<Longrightarrow> 0 \<le> l \<and> l \<le> 4 \<and> y = YInt l"
  by (cases y) (auto simp: MIN_LEVEL_def MAX_LEVEL_def split: if_splits)

lemma load_entry_wf:
  "load_entry i seen raw = Inr e \<Longrightarrow> wf_entry e \<and> entry_key e \<notin> set seen"
  by (auto simp: load_entry_def wf_entry_def entry_key_def Let_def dest: validate_level_range
      split: yaml.splits option.splits if_splits)

lemma load_entries_wf:
  "load_entries i seen raws = Inr es \<Longrightarrow>
     (\<forall>e\<in>set es. wf_entry e) \<and> distinct (map entry_key es) \<and> set (map entry_key es) \<inter> set seen = {} \<and>
     length es = length raws"
proof (induction raws arbitrary: i seen es)
  case (Cons raw raws)
  then obtain en ens where en: "load_entry i seen raw = Inr en"
    and ens: "load_entries (Suc i) (entry_key en # seen) raws = Inr ens" "es = en # ens"
    by (auto simp: entry_key_def split: sum.splits)
  from load_entry_wf[OF en] Cons.IH[OF ens(1)] ens(2) show ?case by auto
qed simp

lemma load_policy_wf: "load_policy doc = Inr p \<Longrightarrow> wf_policy p"
  by (auto simp: load_policy_def wf_policy_def FALLBACK_DEFAULT_LEVEL_def dest!: validate_level_range load_entries_wf
      split: option.splits yaml.splits sum.splits if_splits)

lemma first_entry_mem: "first_entry es f a = Some e \<Longrightarrow> e \<in> set es \<and> entry_key e = (f, a)"
  by (induction es) (auto simp: entry_key_def split: if_splits)

lemma first_entry_unique:
  "distinct (map entry_key es) \<Longrightarrow> e \<in> set es \<Longrightarrow> first_entry es (pe_function_id e) (pe_action_class e) = Some e"
  by (induction es) (auto simp: entry_key_def image_iff)

lemma level_for_range: "wf_policy p \<Longrightarrow> 0 \<le> level_for p f a \<and> level_for p f a \<le> 4"
  by (auto simp: wf_policy_def wf_entry_def level_for_def dest: first_entry_mem split: option.splits)

lemma level_for_entry:
  "wf_policy p \<Longrightarrow> e \<in> set (pol_entries p) \<Longrightarrow> level_for p (pe_function_id e) (pe_action_class e) = pe_level e"
  by (simp add: level_for_def wf_policy_def first_entry_unique)

lemma level_for_default:
  "(f, a) \<notin> entry_key ` set (pol_entries p) \<Longrightarrow> level_for p f a = pol_default_level p"
  using first_entry_mem by (fastforce simp: level_for_def image_iff split: option.splits)

end
