(* ===== verification/Py_Json.thy ===== *)
theory Py_Json
  imports CMOS_Prelude
begin

text \<open>The part of Python's standard json module the services rely on: JSON values,
json.dumps (ensure_ascii, the separators "," and ":", optionally sort_keys) and
json.loads, for text whose code points are below 256. A floating point value is
kept as its lexeme and printed through a parameter \<open>fr\<close> that stands for
float.__repr__ of float(lexeme); underflow of a lexeme to zero is not modelled.
The last section proves that loads inverts dumps.\<close>

section \<open>Values\<close>

datatype json =
    JNull
  | JBool bool
  | JInt int
  | JFloat string
  | JStr string
  | JArr "json list"
  | JObj "(string \<times> json) list"

text \<open>Python truth of a parsed value.\<close>

fun jtruth :: "json \<Rightarrow> bool" where
  "jtruth JNull = False"
| "jtruth (JBool b) = b"
| "jtruth (JInt i) = (i \<noteq> 0)"
| "jtruth (JFloat l) = (l \<in> {''NaN'', ''Infinity'', ''-Infinity''} \<or>
    (\<exists>c\<in>set (takeWhile (\<lambda>c. c \<noteq> CHR ''e'' \<and> c \<noteq> CHR ''E'') l). is_digit c \<and> c \<noteq> CHR ''0''))"
| "jtruth (JStr s) = (s \<noteq> [])"
| "jtruth (JArr xs) = (xs \<noteq> [])"
| "jtruth (JObj kvs) = (kvs \<noteq> [])"

text \<open>A dict keeps the position of the first insertion of a key and the value of
the last.\<close>

fun dict_set :: "string \<Rightarrow> 'v \<Rightarrow> (string \<times> 'v) list \<Rightarrow> (string \<times> 'v) list" where
  "dict_set k v [] = [(k, v)]"
| "dict_set k v ((k', v') # kvs) = (if k' = k then (k, v) # kvs else (k', v') # dict_set k v kvs)"

definition dict_of :: "(string \<times> 'v) list \<Rightarrow> (string \<times> 'v) list" where
  "dict_of kvs = foldl (\<lambda>d (k, v). dict_set k v d) [] kvs"

abbreviation jget :: "(string \<times> json) list \<Rightarrow> string \<Rightarrow> json option" where
  "jget kvs k \<equiv> map_of kvs k"

text \<open>Code point order of strings and the insertion sort that sort_keys amounts to.\<close>

fun str_le :: "string \<Rightarrow> string \<Rightarrow> bool" where
  "str_le [] _ = True"
| "str_le (_ # _) [] = False"
| "str_le (a # as) (b # bs) =
    ((of_char a :: nat) < of_char b \<or> (a = b \<and> str_le as bs))"

fun insort_kv :: "string \<times> 'v \<Rightarrow> (string \<times> 'v) list \<Rightarrow> (string \<times> 'v) list" where
  "insort_kv kv [] = [kv]"
| "insort_kv kv (x # xs) = (if str_le (fst kv) (fst x) then kv # x # xs else x # insort_kv kv xs)"

definition sort_kvs :: "(string \<times> 'v) list \<Rightarrow> (string \<times> 'v) list" where
  "sort_kvs kvs = foldr insort_kv kvs []"

section \<open>json.dumps\<close>

definition hex_digit :: "nat \<Rightarrow> char" where
  "hex_digit d = (if d < 10 then char_of (48 + d) else char_of (87 + d))"

definition esc_char :: "char \<Rightarrow> string" where
  "esc_char c = (let n = (of_char c :: nat) in
     if n = 34 then [CHR 0x5C, CHR 0x22]
     else if n = 92 then [CHR 0x5C, CHR 0x5C]
     else if n = 10 then [CHR 0x5C, CHR ''n'']
     else if n = 13 then [CHR 0x5C, CHR ''r'']
     else if n = 9 then [CHR 0x5C, CHR ''t'']
     else if n = 12 then [CHR 0x5C, CHR ''f'']
     else if n = 8 then [CHR 0x5C, CHR ''b'']
     else if n < 32 \<or> 126 < n
     then [CHR 0x5C, CHR ''u'', CHR ''0'', CHR ''0'', hex_digit (n div 16), hex_digit (n mod 16)]
     else [c])"

definition dump_str :: "string \<Rightarrow> string" where
  "dump_str s = CHR 0x22 # concat (map esc_char s) @ [CHR 0x22]"

fun join_with :: "string \<Rightarrow> string list \<Rightarrow> string" where
  "join_with sep [] = []"
| "join_with sep [x] = x"
| "join_with sep (x # y # zs) = x @ sep @ join_with sep (y # zs)"

fun dumps :: "(string \<Rightarrow> string) \<Rightarrow> json \<Rightarrow> string"
and dump_elems :: "(string \<Rightarrow> string) \<Rightarrow> json list \<Rightarrow> string"
and dump_pairs :: "(string \<Rightarrow> string) \<Rightarrow> (string \<times> json) list \<Rightarrow> string" where
  "dumps fr JNull = ''null''"
| "dumps fr (JBool b) = (if b then ''true'' else ''false'')"
| "dumps fr (JInt i) = int_str i"
| "dumps fr (JFloat l) = fr l"
| "dumps fr (JStr s) = dump_str s"
| "dumps fr (JArr xs) = CHR ''['' # dump_elems fr xs @ '']''"
| "dumps fr (JObj kvs) = CHR 0x7B # dump_pairs fr kvs @ [CHR 0x7D]"
| "dump_elems fr [] = []"
| "dump_elems fr (x # xs) = dumps fr x @ (if xs = [] then [] else CHR '','' # dump_elems fr xs)"
| "dump_pairs fr [] = []"
| "dump_pairs fr ((k, v) # kvs) =
    dump_str k @ CHR '':'' # dumps fr v @ (if kvs = [] then [] else CHR '','' # dump_pairs fr kvs)"

text \<open>sort_keys sorts the keys of every object of the value.\<close>

fun sort_deep :: "json \<Rightarrow> json" where
  "sort_deep (JArr xs) = JArr (map sort_deep xs)"
| "sort_deep (JObj kvs) = JObj (sort_kvs (map (\<lambda>(k, v). (k, sort_deep v)) kvs))"
| "sort_deep j = j"

definition dumps_sorted :: "(string \<Rightarrow> string) \<Rightarrow> json \<Rightarrow> string" where
  "dumps_sorted fr j = dumps fr (sort_deep j)"

section \<open>json.loads\<close>

definition json_ws :: "char \<Rightarrow> bool" where
  "json_ws c \<longleftrightarrow> c \<in> {CHR '' '', CHR 0x09, CHR 0x0A, CHR 0x0D}"

abbreviation skip_ws :: "string \<Rightarrow> string" where
  "skip_ws s \<equiv> dropWhile json_ws s"

definition hex_val :: "char \<Rightarrow> nat option" where
  "hex_val c = (let n = (of_char c :: nat) in
     if 48 \<le> n \<and> n \<le> 57 then Some (n - 48)
     else if 97 \<le> n \<and> n \<le> 102 then Some (n - 87)
     else if 65 \<le> n \<and> n \<le> 70 then Some (n - 55)
     else None)"

definition unescape :: "char \<Rightarrow> char option" where
  "unescape c = (let n = (of_char c :: nat) in
     if n = 34 \<or> n = 92 \<or> n = 47 then Some c
     else if c = CHR ''b'' then Some (CHR 0x08)
     else if c = CHR ''f'' then Some (CHR 0x0C)
     else if c = CHR ''n'' then Some (CHR 0x0A)
     else if c = CHR ''r'' then Some (CHR 0x0D)
     else if c = CHR ''t'' then Some (CHR 0x09)
     else None)"

definition unicode_char :: "char \<Rightarrow> char \<Rightarrow> char \<Rightarrow> char \<Rightarrow> char option" where
  "unicode_char a b c d =
    (case (hex_val a, hex_val b, hex_val c, hex_val d) of
       (Some 0, Some 0, Some h, Some l) \<Rightarrow> Some (char_of (16 * h + l))
     | _ \<Rightarrow> None)"

text \<open>Scans the rest of a string literal after its opening quote (strict mode:
control characters are refused).\<close>

fun scan_str :: "string \<Rightarrow> (string \<times> string) option" where
  "scan_str [] = None"
| "scan_str (c # r) =
    (if c = CHR 0x22 then Some ([], r)
     else if c = CHR 0x5C then
       (case r of
          [] \<Rightarrow> None
        | e # r' \<Rightarrow>
            (if e = CHR ''u'' then
               (case r' of
                  h1 # h2 # h3 # h4 # r'' \<Rightarrow>
                    (case (unicode_char h1 h2 h3 h4, scan_str r'') of
                       (Some u, Some (s, rest)) \<Rightarrow> Some (u # s, rest)
                     | _ \<Rightarrow> None)
                | _ \<Rightarrow> None)
             else
               (case (unescape e, scan_str r') of
                  (Some u, Some (s, rest)) \<Rightarrow> Some (u # s, rest)
                | _ \<Rightarrow> None)))
     else if (of_char c :: nat) < 32 then None
     else (case scan_str r of Some (s, rest) \<Rightarrow> Some (c # s, rest) | None \<Rightarrow> None))"

text \<open>The number grammar -?(0|[1-9][0-9]*)(\.[0-9]+)?([eE][-+]?[0-9]+)?: an integer when
fraction and exponent are absent.\<close>

definition scan_frac :: "string \<Rightarrow> string \<times> string" where
  "scan_frac s =
    (case s of
       c # r \<Rightarrow> if c = CHR ''.'' \<and> takeWhile is_digit r \<noteq> []
                then (c # takeWhile is_digit r, dropWhile is_digit r) else ([], s)
     | [] \<Rightarrow> ([], s))"

definition scan_exp :: "string \<Rightarrow> string \<times> string" where
  "scan_exp s =
    (case s of
       [] \<Rightarrow> ([], s)
     | c # r \<Rightarrow>
         if c = CHR ''e'' \<or> c = CHR ''E'' then
           (let (sg, r') = (case r of g # r'' \<Rightarrow> if g = CHR ''-'' \<or> g = CHR ''+'' then ([g], r'') else ([], r)
                                    | [] \<Rightarrow> ([], r))
            in if takeWhile is_digit r' \<noteq> []
               then (c # sg @ takeWhile is_digit r', dropWhile is_digit r') else ([], s))
         else ([], s))"

definition scan_digits :: "string \<Rightarrow> string" where
  "scan_digits s =
    (case s of c # r \<Rightarrow> if c = CHR ''0'' then [c] else takeWhile is_digit s | [] \<Rightarrow> [])"

definition scan_num :: "string \<Rightarrow> (json \<times> string) option" where
  "scan_num s =
    (let (neg, s1) = (case s of c # r \<Rightarrow> if c = CHR ''-'' then (True, r) else (False, s) | [] \<Rightarrow> (False, s));
         digs = scan_digits s1;
         s2 = drop (length digs) s1;
         (frac, s3) = scan_frac s2;
         (ex, s4) = scan_exp s3
     in if digs = [] then None
        else if frac = [] \<and> ex = []
        then Some (JInt (if neg then - int (digits_val 0 digs) else int (digits_val 0 digs)), s2)
        else Some (JFloat ((if neg then [CHR ''-''] else []) @ digs @ frac @ ex), s4))"

fun strip_prefix :: "string \<Rightarrow> string \<Rightarrow> string option" where
  "strip_prefix [] s = Some s"
| "strip_prefix (p # ps) [] = None"
| "strip_prefix (p # ps) (c # cs) = (if p = c then strip_prefix ps cs else None)"

definition scan_const :: "string \<Rightarrow> (json \<times> string) option" where
  "scan_const s =
    (case strip_prefix ''null'' s of Some r \<Rightarrow> Some (JNull, r) | None \<Rightarrow>
     (case strip_prefix ''true'' s of Some r \<Rightarrow> Some (JBool True, r) | None \<Rightarrow>
     (case strip_prefix ''false'' s of Some r \<Rightarrow> Some (JBool False, r) | None \<Rightarrow>
     (case strip_prefix ''NaN'' s of Some r \<Rightarrow> Some (JFloat ''NaN'', r) | None \<Rightarrow>
     (case strip_prefix ''Infinity'' s of Some r \<Rightarrow> Some (JFloat ''Infinity'', r) | None \<Rightarrow>
     (case strip_prefix ''-Infinity'' s of Some r \<Rightarrow> Some (JFloat ''-Infinity'', r) | None \<Rightarrow>
      scan_num s))))))"

text \<open>The recursive scanner. Every recursive call consumes a character, so a fuel of
one more than the length of the text is enough.\<close>

fun p_value :: "nat \<Rightarrow> string \<Rightarrow> (json \<times> string) option"
and p_elems :: "nat \<Rightarrow> string \<Rightarrow> (json list \<times> string) option"
and p_pairs :: "nat \<Rightarrow> string \<Rightarrow> ((string \<times> json) list \<times> string) option" where
  "p_value 0 s = None"
| "p_value (Suc n) s =
    (case s of
       [] \<Rightarrow> None
     | c # r \<Rightarrow>
         if c = CHR 0x22 then
           (case scan_str r of Some (t, rest) \<Rightarrow> Some (JStr t, rest) | None \<Rightarrow> None)
         else if c = CHR ''['' then
           (case skip_ws r of
              [] \<Rightarrow> None
            | d # r' \<Rightarrow> if d = CHR '']'' then Some (JArr [], r')
                        else (case p_elems n (d # r') of Some (xs, rest) \<Rightarrow> Some (JArr xs, rest) | None \<Rightarrow> None))
         else if c = CHR 0x7B then
           (case skip_ws r of
              [] \<Rightarrow> None
            | d # r' \<Rightarrow> if d = CHR 0x7D then Some (JObj [], r')
                        else (case p_pairs n (d # r') of Some (kvs, rest) \<Rightarrow> Some (JObj (dict_of kvs), rest) | None \<Rightarrow> None))
         else scan_const s)"
| "p_elems 0 s = None"
| "p_elems (Suc n) s =
    (case p_value n s of
       None \<Rightarrow> None
     | Some (v, r) \<Rightarrow>
         (case skip_ws r of
            [] \<Rightarrow> None
          | d # r' \<Rightarrow>
              if d = CHR '']'' then Some ([v], r')
              else if d = CHR '','' then
                (case p_elems n (skip_ws r') of Some (vs, rest) \<Rightarrow> Some (v # vs, rest) | None \<Rightarrow> None)
              else None))"
| "p_pairs 0 s = None"
| "p_pairs (Suc n) s =
    (case s of
       [] \<Rightarrow> None
     | q # s1 \<Rightarrow>
         if q \<noteq> CHR 0x22 then None
         else (case scan_str s1 of
            None \<Rightarrow> None
          | Some (k, s2) \<Rightarrow>
              (case skip_ws s2 of
                 [] \<Rightarrow> None
               | c # s3 \<Rightarrow>
                   if c \<noteq> CHR '':'' then None
                   else (case p_value n (skip_ws s3) of
                      None \<Rightarrow> None
                    | Some (v, r) \<Rightarrow>
                        (case skip_ws r of
                           [] \<Rightarrow> None
                         | d # r' \<Rightarrow>
                             if d = CHR 0x7D then Some ([(k, v)], r')
                             else if d = CHR '','' then
                               (case p_pairs n (skip_ws r') of Some (kvs, rest) \<Rightarrow> Some ((k, v) # kvs, rest) | None \<Rightarrow> None)
                             else None)))))"

definition loads :: "string \<Rightarrow> json option" where
  "loads s =
    (case p_value (2 * length s + 2) (skip_ws s) of
       Some (j, rest) \<Rightarrow> if skip_ws rest = [] then Some j else None
     | None \<Rightarrow> None)"

section \<open>loads inverts dumps\<close>

text \<open>The values a program builds from text, integers, booleans, lists and dicts: no
float, and no key twice in a dict.\<close>

fun wf_json :: "json \<Rightarrow> bool" where
  "wf_json (JFloat _) = False"
| "wf_json (JArr xs) = (\<forall>x\<in>set xs. wf_json x)"
| "wf_json (JObj kvs) = (distinct (map fst kvs) \<and> (\<forall>(k, v)\<in>set kvs. wf_json v))"
| "wf_json _ = True"

lemma dict_set_fresh: "k \<notin> fst ` set kvs \<Longrightarrow> dict_set k v kvs = kvs @ [(k, v)]"
  by (induction kvs) auto

lemma dict_of_distinct: "distinct (map fst kvs) \<Longrightarrow> dict_of kvs = kvs"
proof -
  have "distinct (map fst (d @ kvs)) \<Longrightarrow> foldl (\<lambda>d (k, v). dict_set k v d) d kvs = d @ kvs" for d
    by (induction kvs arbitrary: d) (auto simp: dict_set_fresh)
  from this[of "[]"] show "distinct (map fst kvs) \<Longrightarrow> dict_of kvs = kvs"
    by (simp add: dict_of_def)
qed

lemma hex_val_digit: "d < 16 \<Longrightarrow> hex_val (hex_digit d) = Some d"
  by (auto simp: hex_digit_def hex_val_def)

lemma hex_val_zero: "hex_val (CHR ''0'') = Some 0"
  by (simp add: hex_val_def)

lemma char_iff_code: "c = d \<longleftrightarrow> (of_char c :: nat) = of_char d"
  by (metis char_of_char)

lemma of_char_eqD: "(of_char c :: nat) = n \<Longrightarrow> c = char_of n"
  by (metis char_of_char)

lemma char_codes:
  "char_of (34 :: nat) = CHR 0x22" "char_of (92 :: nat) = CHR 0x5C" "char_of (10 :: nat) = CHR 0x0A"
  "char_of (13 :: nat) = CHR 0x0D" "char_of (9 :: nat) = CHR 0x09" "char_of (12 :: nat) = CHR 0x0C"
  "char_of (8 :: nat) = CHR 0x08"
  by (rule of_char_eqD [symmetric], simp)+

lemma scan_str_esc:
  assumes "scan_str t = Some (s, rest)"
  shows "scan_str (esc_char c @ t) = Some (c # s, rest)"
proof -
  let ?n = "of_char c :: nat"
  have quote: "c = CHR 0x22 \<longleftrightarrow> ?n = 34" "c = CHR 0x5C \<longleftrightarrow> ?n = 92"
    by (simp_all add: char_iff_code)
  consider "?n = 34" | "?n = 92" | "?n = 10" | "?n = 13" | "?n = 9" | "?n = 12" | "?n = 8"
    | "(?n < 32 \<or> 126 < ?n) \<and> ?n \<notin> {8, 9, 10, 12, 13}"
    | "\<not> ?n < 32" "\<not> 126 < ?n" "?n \<noteq> 34" "?n \<noteq> 92" by fastforce
  then show ?thesis
  proof cases
    case 8
    have d: "?n div 16 < 16" by (rule less_mult_imp_div_less) simp
    have "char_of (16 * (?n div 16) + ?n mod 16) = c" by simp
    then have "unicode_char (CHR ''0'') (CHR ''0'') (hex_digit (?n div 16)) (hex_digit (?n mod 16)) = Some c"
      by (simp add: unicode_char_def hex_val_digit d hex_val_zero)
    with 8 assms show ?thesis by (auto simp: esc_char_def Let_def)
  next
    case 9
    with assms quote show ?thesis by (simp add: esc_char_def)
  qed (use assms in \<open>auto simp: esc_char_def unescape_def char_codes dest!: of_char_eqD\<close>)
qed

lemma scan_str_dump [simp]:
  "scan_str (concat (map esc_char s) @ CHR 0x22 # rest) = Some (s, rest)"
  by (induction s) (simp_all add: scan_str_esc)

text \<open>What may follow a value inside a printed text.\<close>

definition stops :: "string \<Rightarrow> bool" where
  "stops rest \<longleftrightarrow> rest = [] \<or> hd rest \<in> {CHR '','', CHR '']'', CHR 0x7D}"

lemma stops_simps [simp]: "stops []" "stops (CHR '','' # r)" "stops (CHR '']'' # r)" "stops (CHR 0x7D # r)"
  by (simp_all add: stops_def)

lemma stops_hd:
  assumes "stops rest" "rest \<noteq> []"
  shows "\<not> is_digit (hd rest)" "hd rest \<noteq> CHR ''.''" "hd rest \<noteq> CHR ''e''" "hd rest \<noteq> CHR ''E''"
  using assms by (auto simp: stops_def is_digit_def)

lemma takeWhile_digits [simp]:
  "stops rest \<Longrightarrow> takeWhile is_digit (nat_str k @ rest) = nat_str k"
  using nat_str_digits[of k] by (cases rest) (auto simp: takeWhile_append2 dest: stops_hd)

lemma nat_str_zero: "nat_str k = CHR ''0'' # r \<Longrightarrow> r = [] \<and> k = 0"
  by (metis digits_val_nat_str digit_char_def hd_nat_str less_one linorder_not_le list.sel(1)
      nat_str.simps list.inject zero_less_numeral)

lemma scan_digits_nat:
  assumes "stops rest"
  shows "scan_digits (nat_str k @ rest) = nat_str k"
proof -
  obtain c r where cr: "nat_str k = c # r" by (cases "nat_str k") auto
  show ?thesis
  proof (cases "c = CHR ''0''")
    case True
    with nat_str_zero[of k r] cr show ?thesis by (simp add: scan_digits_def)
  next
    case False
    with takeWhile_digits[OF assms, of k] cr show ?thesis by (simp add: scan_digits_def)
  qed
qed

lemma scan_num_nat:
  assumes "stops rest"
  shows "scan_num (nat_str k @ rest) = Some (JInt (int k), rest)"
    and "scan_num (CHR ''-'' # nat_str k @ rest) = Some (JInt (- int k), rest)"
proof -
  have tail: "scan_frac rest = ([], rest)" "scan_exp rest = ([], rest)"
    using assms by (cases rest; auto simp: scan_frac_def scan_exp_def dest: stops_hd)+
  obtain c r where cr: "nat_str k = c # r" by (cases "nat_str k") auto
  have "is_digit c" using nat_str_digits[of k] cr by simp
  then have nm: "c \<noteq> CHR ''-''" by (auto simp: is_digit_def)
  have sign: "(case nat_str k @ rest of c # r \<Rightarrow> if c = CHR ''-'' then (True, r) else (False, nat_str k @ rest)
               | [] \<Rightarrow> (False, nat_str k @ rest)) = (False, nat_str k @ rest)"
    using cr nm by simp
  show "scan_num (nat_str k @ rest) = Some (JInt (int k), rest)"
    unfolding scan_num_def sign by (simp add: Let_def scan_digits_nat[OF assms] tail)
  show "scan_num (CHR ''-'' # nat_str k @ rest) = Some (JInt (- int k), rest)"
    unfolding scan_num_def by (simp add: Let_def scan_digits_nat[OF assms] tail)
qed

lemma strip_prefix_neq: "p \<noteq> c \<Longrightarrow> strip_prefix (p # ps) (c # cs) = None"
  by simp

lemma scan_const_num:
  assumes "is_digit c \<or> c = CHR ''-'' \<and> r \<noteq> [] \<and> is_digit (hd r)"
  shows "scan_const (c # r) = scan_num (c # r)"
proof -
  have letters: "\<not> is_digit (CHR ''n'')" "\<not> is_digit (CHR ''t'')" "\<not> is_digit (CHR ''f'')"
    "\<not> is_digit (CHR ''N'')" "\<not> is_digit (CHR ''I'')" "\<not> is_digit (CHR ''-'')"
    by (simp_all add: is_digit_def)
  from assms consider "is_digit c" | d r' where "c = CHR ''-''" "r = d # r'" "is_digit d"
    by (cases r) auto
  then show ?thesis
  proof cases
    case 1
    with letters have "c \<noteq> CHR ''n''" "c \<noteq> CHR ''t''" "c \<noteq> CHR ''f''"
      "c \<noteq> CHR ''N''" "c \<noteq> CHR ''I''" "c \<noteq> CHR ''-''" by blast+
    then show ?thesis by (simp add: scan_const_def)
  next
    case 2
    with letters have "d \<noteq> CHR ''I''" by blast
    with 2 show ?thesis by (simp add: scan_const_def)
  qed
qed

lemma scan_const_int:
  assumes "stops rest"
  shows "scan_const (int_str i @ rest) = Some (JInt i, rest)"
proof -
  obtain c r where cr: "nat_str (nat \<bar>i\<bar>) = c # r" by (metis list.exhaust nat_str_nonempty)
  have c: "is_digit c" using nat_str_digits[of "nat \<bar>i\<bar>"] cr by simp
  show ?thesis
  proof (cases "i < 0")
    case True
    then have "int_str i = CHR ''-'' # c # r" using cr by (simp add: int_str_def)
    then have "scan_const (int_str i @ rest) = scan_num (CHR ''-'' # nat_str (nat \<bar>i\<bar>) @ rest)"
      using cr c by (simp add: scan_const_num)
    with True scan_num_nat(2)[OF assms] show ?thesis by simp
  next
    case False
    then have "int_str i = c # r" using cr by (simp add: int_str_def)
    then have "scan_const (int_str i @ rest) = scan_num (nat_str (nat \<bar>i\<bar>) @ rest)"
      using cr c by (simp add: scan_const_num)
    with False scan_num_nat(1)[OF assms] show ?thesis by simp
  qed
qed

text \<open>The first character of a printed value: never white space, never a closing
bracket, and the character that selects the branch of the scanner.\<close>

lemma int_str_hd: "\<exists>c r. int_str i = c # r \<and> (is_digit c \<or> c = CHR ''-'')"
proof -
  have "\<exists>c r. nat_str k = c # r \<and> is_digit c" for k
    using nat_str_digits[of k] by (cases "nat_str k") auto
  then show ?thesis unfolding int_str_def by fastforce
qed

lemma dumps_hd:
  assumes "wf_json j"
  shows "\<exists>c r. dumps fr j = c # r \<and> \<not> json_ws c \<and> c \<noteq> CHR '']'' \<and> c \<noteq> CHR 0x7D"
proof (cases j)
  case (JInt i)
  with int_str_hd[of i] show ?thesis by (auto simp: json_ws_def is_digit_def)
qed (use assms in \<open>auto simp: json_ws_def dump_str_def\<close>)

lemma skip_ws_dumps: "wf_json j \<Longrightarrow> skip_ws (dumps fr j @ rest) = dumps fr j @ rest"
  using dumps_hd[of j fr] by auto

lemma dump_elems_hd:
  assumes "\<forall>x\<in>set xs. wf_json x" "xs \<noteq> []"
  shows "\<exists>c r. dump_elems fr xs = c # r \<and> \<not> json_ws c \<and> c \<noteq> CHR '']''"
proof -
  obtain x ys where xs: "xs = x # ys" "wf_json x" using assms by (cases xs) auto
  from dumps_hd[OF this(2), of fr] obtain c r where
    "dumps fr x = c # r" "\<not> json_ws c" "c \<noteq> CHR '']''" by blast
  with xs show ?thesis by simp
qed

lemma dump_pairs_hd: "kvs \<noteq> [] \<Longrightarrow> \<exists>r. dump_pairs fr kvs = CHR 0x22 # r"
  by (cases kvs) (auto simp: dump_str_def)

lemma p_value_int:
  assumes "stops rest"
  shows "p_value (Suc n) (int_str i @ rest) = Some (JInt i, rest)"
proof -
  obtain c r where cr: "int_str i = c # r" "is_digit c \<or> c = CHR ''-''" using int_str_hd by blast
  then have "c \<noteq> CHR 0x22" "c \<noteq> CHR ''[''" "c \<noteq> CHR 0x7B" by (auto simp: is_digit_def)
  with cr scan_const_int[OF assms, of i] show ?thesis by simp
qed

lemma json_ws_simps [simp]:
  "\<not> json_ws (CHR '','')" "\<not> json_ws (CHR '':'')" "\<not> json_ws (CHR '']'')" "\<not> json_ws (CHR 0x7D)"
  "\<not> json_ws (CHR 0x22)"
  by (simp_all add: json_ws_def)

text \<open>The scanner inverts the printer on a value, on the elements of a list and on
the members of a dict, each followed by any text that may follow it.\<close>

lemma parse_dump:
  "wf_json j \<Longrightarrow> stops rest \<Longrightarrow> n \<ge> 2 * length (dumps fr j) \<Longrightarrow>
     p_value n (dumps fr j @ rest) = Some (j, rest)"
  "\<forall>x\<in>set xs. wf_json x \<Longrightarrow> xs \<noteq> [] \<Longrightarrow> n \<ge> 2 * length (dump_elems fr xs) + 1 \<Longrightarrow>
     p_elems n (dump_elems fr xs @ CHR '']'' # rest) = Some (xs, rest)"
  "\<forall>(k, v)\<in>set kvs. wf_json v \<Longrightarrow> kvs \<noteq> [] \<Longrightarrow> n \<ge> 2 * length (dump_pairs fr kvs) + 1 \<Longrightarrow>
     p_pairs n (dump_pairs fr kvs @ CHR 0x7D # rest) = Some (kvs, rest)"
proof (induction fr j and fr xs and fr kvs arbitrary: n rest and n rest and n rest
       rule: dumps_dump_elems_dump_pairs.induct)
  case (1 fr)
  then show ?case by (cases n) (simp_all add: scan_const_def)
next
  case (2 fr b)
  then show ?case by (cases n; cases b) (simp_all add: scan_const_def)
next
  case (3 fr i)
  moreover obtain m where "n = Suc m" using 3 int_str_hd[of i] by (cases n) auto
  ultimately show ?case by (simp add: p_value_int del: p_value.simps)
next
  case (5 fr s)
  then show ?case by (cases n) (simp_all add: dump_str_def)
next
  case (6 fr xs)
  then obtain m where n: "n = Suc m" by (cases n) auto
  show ?case
  proof (cases "xs = []")
    case False
    have wf: "\<forall>x\<in>set xs. wf_json x" using "6.prems"(1) by simp
    from dump_elems_hd[OF this False] obtain c r where
      cr: "dump_elems fr xs = c # r" "\<not> json_ws c" "c \<noteq> CHR '']''" by blast
    from 6 False n have "p_elems m (dump_elems fr xs @ CHR '']'' # rest) = Some (xs, rest)" by simp
    with n cr show ?thesis by simp
  qed (use n in simp)
next
  case (7 fr kvs)
  then obtain m where n: "n = Suc m" by (cases n) auto
  show ?case
  proof (cases "kvs = []")
    case False
    from dump_pairs_hd[OF False] obtain r where r: "dump_pairs fr kvs = CHR 0x22 # r" by blast
    from 7 False n have "p_pairs m (dump_pairs fr kvs @ CHR 0x7D # rest) = Some (kvs, rest)" by auto
    with n r 7 show ?thesis by (simp add: dict_of_distinct)
  qed (use n in \<open>simp add: dict_of_def\<close>)
next
  case (9 fr x xs)
  then obtain m where n: "n = Suc m" by (cases n) auto
  show ?case
  proof (cases "xs = []")
    case True
    with 9 n show ?thesis by simp
  next
    case False
    have wf: "\<forall>x\<in>set xs. wf_json x" using "9.prems"(1) by simp
    from dump_elems_hd[OF this False] obtain c r where
      cr: "dump_elems fr xs = c # r" "\<not> json_ws c" by blast
    have "p_value m (dumps fr x @ CHR '','' # dump_elems fr xs @ CHR '']'' # rest)
        = Some (x, CHR '','' # dump_elems fr xs @ CHR '']'' # rest)"
      using 9 n False by simp
    moreover have "p_elems m (dump_elems fr xs @ CHR '']'' # rest) = Some (xs, rest)"
      using 9 n False by simp
    ultimately show ?thesis using n False cr by simp
  qed
next
  case (11 fr k v kvs)
  then obtain m where n: "n = Suc m" by (cases n) auto
  have ws: "skip_ws (dumps fr v @ t) = dumps fr v @ t" for t
    using 11 by (simp add: skip_ws_dumps)
  show ?case
  proof (cases "kvs = []")
    case True
    with 11 n ws show ?thesis by (simp add: dump_str_def)
  next
    case False
    from dump_pairs_hd[OF False] obtain r where r: "dump_pairs fr kvs = CHR 0x22 # r" by blast
    have "p_value m (dumps fr v @ CHR '','' # dump_pairs fr kvs @ CHR 0x7D # rest)
        = Some (v, CHR '','' # dump_pairs fr kvs @ CHR 0x7D # rest)"
      using 11 n False by (simp add: dump_str_def)
    moreover have "p_pairs m (dump_pairs fr kvs @ CHR 0x7D # rest) = Some (kvs, rest)"
      using 11 n False by (simp add: dump_str_def)
    ultimately show ?thesis using n False ws r by (simp add: dump_str_def)
  qed
qed auto

theorem loads_dumps: "wf_json j \<Longrightarrow> loads (dumps fr j) = Some j"
  using parse_dump(1)[of j "[]" fr "2 * length (dumps fr j) + 2"] skip_ws_dumps[of j fr "[]"]
  by (simp add: loads_def)

text \<open>str() of a value, with a parameter for the containers and floats.\<close>

fun str_of :: "(json \<Rightarrow> string) \<Rightarrow> json \<Rightarrow> string" where
  "str_of p (JStr s) = s"
| "str_of p (JInt i) = int_str i"
| "str_of p (JBool b) = (if b then ''True'' else ''False'')"
| "str_of p JNull = ''None''"
| "str_of p j = p j"

end
