(* ===== verification/Governance_Lib.thy ===== *)
theory Governance_Lib
  imports CMOS_Prelude Py_Json
begin

text \<open>The Postgres tables that Gatekeeper and Publisher share
(infra/modules/governance/migrations, gate_decisions and agent_runs of
contracts/vault-schema, option_cards and approval_decisions of
services/vault/migrations), one record per row type and one list per table in
insertion order. Connections run with autocommit, so each statement is one
atomic step and a failing handler keeps the statements it already executed.\<close>

datatype ks_scope = GlobalScope | FunctionScope

record kill_switch_row =
  ks_id :: row_id
  ks_scope :: ks_scope
  ks_function :: "string option"
  ks_active :: bool
  ks_reason :: "string option"
  ks_decided_by :: "string option"
  ks_created :: instant
  ks_updated :: instant

record gate_decision =
  gd_id :: row_id
  gd_agent_run :: nat
  gd_decided_by :: string
  gd_outcome :: string
  gd_reason :: "string option"
  gd_decided_at :: instant

record approval_row =
  ap_id :: row_id
  ap_decision :: "row_id option"
  ap_agent_run :: nat
  ap_function :: string
  ap_action :: string
  ap_level :: int
  ap_content_hash :: "string option"
  ap_title :: string
  ap_reference :: "string option"
  ap_evidence :: string
  ap_status :: string
  ap_link :: string
  ap_consumed :: "instant option"
  ap_decided_by :: "string option"
  ap_decided_at :: "instant option"
  ap_expires :: instant
  ap_created :: instant

record approval_action_row =
  aa_inbox :: "row_id option"
  aa_decision :: "row_id option"
  aa_outcome :: string
  aa_reason :: string
  aa_principal_id :: "string option"
  aa_principal_name :: "string option"

record publish_attempt =
  pa_id :: row_id
  pa_agent_run :: "nat option"
  pa_decision :: "nat option"
  pa_function :: "string option"
  pa_jti :: "string option"
  pa_hash :: "string option"
  pa_outcome :: string
  pa_reason :: string

record jti_row =
  jl_jti :: string
  jl_decision :: "nat option"
  jl_consumed :: instant

record option_card_row =
  oc_id :: nat
  oc_card :: "(string \<times> json) list"
  oc_created :: instant
  oc_expires :: instant

record card_decision =
  cd_card :: nat
  cd_outcome :: string
  cd_chosen :: "string option"
  cd_recommended :: "bool option"
  cd_rejection :: "string option"
  cd_by :: string
  cd_at :: instant
  cd_latency :: "int option"
  cd_signature :: string
  cd_channel :: string

record gov_db =
  db_agent_runs :: "nat list"
  db_decisions :: "gate_decision list"
  db_switches :: "kill_switch_row list"
  db_inbox :: "approval_row list"
  db_actions :: "approval_action_row list"
  db_attempts :: "publish_attempt list"
  db_jtis :: "jti_row list"
  db_cards :: "option_card_row list"
  db_card_decisions :: "card_decision list"

definition empty_gov :: "nat list \<Rightarrow> gov_db" where
  "empty_gov runs = \<lparr>db_agent_runs = runs, db_decisions = [], db_switches = [], db_inbox = [],
     db_actions = [], db_attempts = [], db_jtis = [], db_cards = [], db_card_decisions = []\<rparr>"

section \<open>Append-only audit tables\<close>

text \<open>Two databases related by appending rows to the audit tables.\<close>

definition appended :: "'r list \<Rightarrow> 'r list \<Rightarrow> bool" where
  "appended old new \<longleftrightarrow> (\<exists>more. new = old @ more)"

lemma appended_refl [simp, intro]: "appended xs xs"
  by (simp add: appended_def)

lemma appended_snoc [simp, intro]: "appended xs (xs @ ys)"
  by (simp add: appended_def)

lemma appended_trans [trans]: "appended xs ys \<Longrightarrow> appended ys zs \<Longrightarrow> appended xs zs"
  by (auto simp: appended_def)

lemma appended_subset: "appended xs ys \<Longrightarrow> set xs \<subseteq> set ys"
  by (auto simp: appended_def)

lemma appended_length: "appended xs ys \<Longrightarrow> length xs \<le> length ys"
  by (auto simp: appended_def)

text \<open>The interface of an append-only log: every operation of the provider keeps all
rows in place. The client fact is that a whole history of operations does.\<close>

locale append_log =
  fixes rows :: "'s \<Rightarrow> 'r list"
    and op :: "'s \<Rightarrow> 's \<Rightarrow> bool"
  assumes op_appends: "op s t \<Longrightarrow> appended (rows s) (rows t)"
begin

lemma history_appends: "op\<^sup>*\<^sup>* s t \<Longrightarrow> appended (rows s) (rows t)"
proof (induction rule: rtranclp_induct)
  case (step y z)
  then show ?case using op_appends appended_trans by blast
qed simp

lemma row_survives: "op\<^sup>*\<^sup>* s t \<Longrightarrow> i < length (rows s) \<Longrightarrow> rows t ! i = rows s ! i \<and> i < length (rows t)"
  using history_appends[of s t] by (auto simp: appended_def nth_append)

end

section \<open>A token that can be claimed once\<close>

text \<open>The interface of a claim-once register: claiming returns whether this call won,
a claim marks the token, marks are never removed, and a marked token cannot be
claimed again. The client fact is that along any sequence of claims each token
is won at most once.\<close>

locale claim_once =
  fixes claim :: "'k \<Rightarrow> 'x \<Rightarrow> 's \<Rightarrow> bool \<times> 's"
    and taken :: "'k \<Rightarrow> 's \<Rightarrow> bool"
  assumes claim_taken: "fst (claim k x s) \<Longrightarrow> taken k (snd (claim k x s))"
    and claim_refused: "taken k s \<Longrightarrow> \<not> fst (claim k x s)"
    and taken_kept: "taken k s \<Longrightarrow> taken k (snd (claim k' x s))"
begin

fun wins :: "('k \<times> 'x) list \<Rightarrow> 's \<Rightarrow> 'k list" where
  "wins [] s = []"
| "wins ((k, x) # ks) s =
    (if fst (claim k x s) then k # wins ks (snd (claim k x s)) else wins ks (snd (claim k x s)))"

lemma taken_never_wins: "taken k s \<Longrightarrow> k \<notin> set (wins ks s)"
proof (induction ks arbitrary: s)
  case (Cons kx ks)
  then show ?case using claim_refused taken_kept by (cases kx) auto
qed simp

lemma wins_distinct: "distinct (wins ks s)"
proof (induction ks arbitrary: s)
  case (Cons kx ks)
  then show ?case by (cases kx) (auto dest: taken_never_wins[OF claim_taken])
qed simp

lemma second_claim_fails: "fst (claim k x s) \<Longrightarrow> \<not> fst (claim k y (snd (claim k x s)))"
  using claim_taken claim_refused by blast

end

text \<open>services/governance-lib: the live kill-switch read shared by both services
(kill_switch.py) and the gate-token binding claims in both contract versions
(resource_claim.py, constants.py).\<close>

section \<open>Kill switch\<close>

record kill_switch_status =
  kst_blocked :: bool
  kst_scope :: "ks_scope option"
  kst_function :: "string option"
  kst_reason :: "string option"

definition scope_text :: "ks_scope \<Rightarrow> string" where
  "scope_text sc = (case sc of GlobalScope \<Rightarrow> ''global'' | FunctionScope \<Rightarrow> ''function'')"

definition audit_reason :: "kill_switch_status \<Rightarrow> string option" where
  "audit_reason st =
    (if \<not> kst_blocked st then None
     else
       let d = ''kill_switch_active:'' @ (case kst_scope st of Some sc \<Rightarrow> scope_text sc | None \<Rightarrow> ''None'');
           d = (if truthy (kst_function st) then d @ '':'' @ the (kst_function st) else d);
           d = (if truthy (kst_reason st) then d @ '' ('' @ the (kst_reason st) @ '')'' else d)
       in Some d)"

text \<open>_SELECT_ACTIVE_SWITCHES: the WHERE clause and the ORDER BY.\<close>

definition switch_matches :: "string option \<Rightarrow> kill_switch_row \<Rightarrow> bool" where
  "switch_matches fid r \<longleftrightarrow> ks_active r \<and>
     (ks_scope r = GlobalScope \<or>
      (ks_scope r = FunctionScope \<and> fid \<noteq> None \<and> ks_function r = fid))"

definition switch_before :: "kill_switch_row \<Rightarrow> kill_switch_row \<Rightarrow> bool" where
  "switch_before a b \<longleftrightarrow>
     (ks_scope a = GlobalScope \<and> ks_scope b \<noteq> GlobalScope) \<or>
     ((ks_scope a = GlobalScope) = (ks_scope b = GlobalScope) \<and> ks_created a < ks_created b)"

definition is_blocked :: "gov_db \<Rightarrow> string option \<Rightarrow> kill_switch_status" where
  "is_blocked db fid =
    (case first_by switch_before (filter (switch_matches fid) (db_switches db)) of
       None \<Rightarrow> \<lparr>kst_blocked = False, kst_scope = None, kst_function = None, kst_reason = None\<rparr>
     | Some r \<Rightarrow> \<lparr>kst_blocked = True, kst_scope = Some (ks_scope r), kst_function = ks_function r,
                 kst_reason = ks_reason r\<rparr>)"

lemma is_blocked_iff:
  "kst_blocked (is_blocked db fid) \<longleftrightarrow> (\<exists>r\<in>set (db_switches db). switch_matches fid r)"
proof (cases "first_by switch_before (filter (switch_matches fid) (db_switches db))")
  case None
  then show ?thesis by (simp add: is_blocked_def filter_empty_conv)
next
  case (Some r)
  with first_by_mem[OF Some] show ?thesis by (auto simp: is_blocked_def)
qed

lemma not_blocked_reason: "audit_reason (is_blocked db fid) = None \<longleftrightarrow> \<not> kst_blocked (is_blocked db fid)"
  by (simp add: audit_reason_def Let_def)

lemma is_blocked_global:
  assumes "\<exists>r\<in>set (db_switches db). ks_active r \<and> ks_scope r = GlobalScope"
  shows "kst_scope (is_blocked db fid) = Some GlobalScope"
proof -
  obtain g where g: "g \<in> set (filter (switch_matches fid) (db_switches db))" "ks_scope g = GlobalScope"
    using assms by (auto simp: switch_matches_def)
  then obtain r where r: "first_by switch_before (filter (switch_matches fid) (db_switches db)) = Some r"
    by (metis first_by_None list.set(1) emptyE not_Some_eq)
  have "\<not> switch_before g r"
    by (rule first_by_least[OF r _ _ g(1)]) (auto simp: switch_before_def)
  with g(2) have "ks_scope r = GlobalScope" by (auto simp: switch_before_def)
  with r show ?thesis by (simp add: is_blocked_def)
qed

section \<open>Binding claims of a gate token\<close>

definition canonicalize_resource_claim :: "string \<Rightarrow> string \<Rightarrow> string" where
  "canonicalize_resource_claim content_hash function_id =
    dumps_sorted id (JObj [(''content_hash'', JStr content_hash), (''function_id'', JStr function_id)])"

text \<open>The ways parse_resource_claim and its caller raise ValueError.\<close>

datatype claim_error = Not_Json | Not_Object | Wrong_Keys | Not_Canonical | One_Claim_Only | No_Binding

definition parse_resource_claim ::
    "(string \<Rightarrow> string) \<Rightarrow> string \<Rightarrow> claim_error + (string \<times> json) list" where
  "parse_resource_claim fr resource =
    (case loads resource of
       None \<Rightarrow> Inl Not_Json
     | Some (JObj parsed) \<Rightarrow>
         if set (map fst parsed) \<noteq> {''content_hash'', ''function_id''} then Inl Wrong_Keys
         else if dumps_sorted fr (JObj parsed) \<noteq> resource then Inl Not_Canonical
         else Inr parsed
     | Some _ \<Rightarrow> Inl Not_Object)"

text \<open>The resource claim reaches json.loads, which raises TypeError on anything but
text; that is the second failure of the result.\<close>

datatype binding_error = BindingValueError claim_error | BindingTypeError

record binding =
  bd_content_hash :: json
  bd_function_id :: json

definition extract_function_id_and_content_hash ::
    "(string \<Rightarrow> string) \<Rightarrow> (string \<times> json) list \<Rightarrow> binding_error + binding" where
  "extract_function_id_and_content_hash fr claims =
    (case (jget claims ''function_id'', jget claims ''content_hash'') of
       (Some f, Some h) \<Rightarrow> Inr \<lparr>bd_content_hash = h, bd_function_id = f\<rparr>
     | (None, None) \<Rightarrow>
         (case jget claims ''resource'' of
            Some (JStr r) \<Rightarrow>
              (case parse_resource_claim fr r of
                 Inl e \<Rightarrow> Inl (BindingValueError e)
               | Inr parsed \<Rightarrow> Inr \<lparr>bd_content_hash = the (jget parsed ''content_hash''),
                                   bd_function_id = the (jget parsed ''function_id'')\<rparr>)
          | Some _ \<Rightarrow> Inl BindingTypeError
          | None \<Rightarrow> Inl (BindingValueError No_Binding))
     | _ \<Rightarrow> Inl (BindingValueError One_Claim_Only))"

definition AGENT_NAME_LOOP_PROOF :: string where
  "AGENT_NAME_LOOP_PROOF = ''loop-proof-circuit''"

text \<open>The canonical resource claim is read back as the pair it was built from.\<close>

lemma sorted_pair:
  "sort_deep (JObj [(''content_hash'', JStr h), (''function_id'', JStr f)])
     = JObj [(''content_hash'', JStr h), (''function_id'', JStr f)]"
  by (simp add: sort_kvs_def)

lemma parse_canonical:
  "parse_resource_claim id (canonicalize_resource_claim h f)
     = Inr [(''content_hash'', JStr h), (''function_id'', JStr f)]"
proof -
  let ?j = "JObj [(''content_hash'', JStr h), (''function_id'', JStr f)]"
  have "wf_json ?j" by simp
  then have loads: "loads (dumps id ?j) = Some ?j" by (rule loads_dumps)
  have canon: "canonicalize_resource_claim h f = dumps id ?j"
    unfolding canonicalize_resource_claim_def dumps_sorted_def sorted_pair ..
  have again: "dumps_sorted id ?j = dumps id ?j"
    unfolding dumps_sorted_def sorted_pair ..
  have keys: "set (map fst [(''content_hash'', JStr h), (''function_id'', JStr f)])
      = {''content_hash'', ''function_id''}" by simp
  show ?thesis
    unfolding parse_resource_claim_def canon loads
    by (simp only: option.case json.case keys again) simp
qed

text \<open>Byte equality: a resource text the parser accepts is the canonical text of the
pair it returns, so two texts that parse to the same pair are equal.\<close>

lemma parse_is_canonical:
  "parse_resource_claim fr r = Inr kvs \<Longrightarrow> r = dumps_sorted fr (JObj kvs) \<and>
     set (map fst kvs) = {''content_hash'', ''function_id''}"
  by (auto simp: parse_resource_claim_def split: option.splits json.splits if_splits)

end
