(* ===== verification/Py_Bytes.thy ===== *)
theory Py_Bytes
  imports CMOS_Prelude "HOL-Library.Word"
begin

unbundle bit_operations_syntax

text \<open>Byte level standard library routines: base64 (strict and lenient decoding,
base64url without padding), UTF-8, SHA-256 on 32-bit words, and the text forms
of UUIDs accepted by Python's uuid.UUID. Bytes are natural numbers below 256.\<close>

section \<open>base64\<close>

definition b64_val :: "char \<Rightarrow> nat option" where
  "b64_val c = (let n = (of_char c :: nat) in
     if 65 \<le> n \<and> n \<le> 90 then Some (n - 65)
     else if 97 \<le> n \<and> n \<le> 122 then Some (n - 71)
     else if 48 \<le> n \<and> n \<le> 57 then Some (n + 4)
     else if n = 43 then Some 62
     else if n = 47 then Some 63
     else None)"

text \<open>base64.b64decode with validate=True: groups of four alphabet characters, padding
only at the very end, nothing after it.\<close>

fun b64decode_strict :: "string \<Rightarrow> bytes option" where
  "b64decode_strict [] = Some []"
| "b64decode_strict (a # b # c # d # r) =
    (case (b64_val a, b64_val b) of
       (Some x, Some y) \<Rightarrow>
         if d = CHR ''='' \<and> r = [] then
           (if c = CHR ''='' then Some [x * 4 + y div 16]
            else (case b64_val c of
                    Some z \<Rightarrow> Some [x * 4 + y div 16, (y mod 16) * 16 + z div 4]
                  | None \<Rightarrow> None))
         else (case (b64_val c, b64_val d, b64decode_strict r) of
                 (Some z, Some w, Some out) \<Rightarrow>
                   Some ((x * 4 + y div 16) # ((y mod 16) * 16 + z div 4) # ((z mod 4) * 64 + w) # out)
               | _ \<Rightarrow> None)
     | _ \<Rightarrow> None)"
| "b64decode_strict _ = None"

definition b64_char :: "nat \<Rightarrow> char" where
  "b64_char v = (if v < 26 then char_of (65 + v) else if v < 52 then char_of (71 + v)
     else if v < 62 then char_of (v - 4) else if v = 62 then CHR ''+'' else CHR ''/'')"

fun b64encode :: "bytes \<Rightarrow> string" where
  "b64encode [] = []"
| "b64encode [x] = [b64_char (x div 4), b64_char ((x mod 4) * 16), CHR ''='', CHR ''='']"
| "b64encode [x, y] =
    [b64_char (x div 4), b64_char ((x mod 4) * 16 + y div 16), b64_char ((y mod 16) * 4), CHR ''='']"
| "b64encode (x # y # z # r) =
    b64_char (x div 4) # b64_char ((x mod 4) * 16 + y div 16) #
    b64_char ((y mod 16) * 4 + z div 64) # b64_char (z mod 64) # b64encode r"

text \<open>base64.urlsafe_b64encode followed by rstrip of the padding.\<close>

definition url_char :: "char \<Rightarrow> char" where
  "url_char c = (if c = CHR ''+'' then CHR ''-'' else if c = CHR ''/'' then CHR ''_'' else c)"

definition b64url :: "bytes \<Rightarrow> string" where
  "b64url raw = map url_char (filter (\<lambda>c. c \<noteq> CHR ''='') (b64encode raw))"

text \<open>The lenient decoder (binascii.a2b_base64, strict_mode false): characters
outside the alphabet are skipped, a complete padding sequence ends the input,
an incomplete quantum at the end is an error. The state is the position in the
quantum, the left-over bits, the pads seen and the output in reverse.\<close>

fun a2b_lenient :: "nat \<Rightarrow> nat \<Rightarrow> nat \<Rightarrow> bytes \<Rightarrow> string \<Rightarrow> bytes option" where
  "a2b_lenient q left pads out [] = (if q = 0 then Some (rev out) else None)"
| "a2b_lenient q left pads out (c # r) =
    (if c = CHR ''='' then
       (if q \<ge> 2 \<and> q + (pads + 1) \<ge> 4 then Some (rev out)
        else a2b_lenient q left (if q \<ge> 2 then pads + 1 else pads) out r)
     else (case b64_val c of
       None \<Rightarrow> a2b_lenient q left pads out r
     | Some v \<Rightarrow>
         if q = 0 then a2b_lenient 1 v 0 out r
         else if q = 1 then a2b_lenient 2 (v mod 16) 0 ((left * 4 + v div 16) # out) r
         else if q = 2 then a2b_lenient 3 (v mod 4) 0 ((left * 16 + v div 4) # out) r
         else a2b_lenient 0 0 0 ((left * 64 + v) # out) r))"

definition pad4 :: "string \<Rightarrow> string" where
  "pad4 s = s @ replicate ((4 - length s mod 4) mod 4) (CHR ''='')"

definition unurl_char :: "char \<Rightarrow> char" where
  "unurl_char c = (if c = CHR ''-'' then CHR ''+'' else if c = CHR ''_'' then CHR ''/'' else c)"

definition b64url_decode :: "string \<Rightarrow> bytes option" where
  "b64url_decode s = (if is_ascii s then a2b_lenient 0 0 0 [] (map unurl_char (pad4 s)) else None)"

definition b64decode_padded :: "string \<Rightarrow> bytes option" where
  "b64decode_padded s = (if is_ascii s then a2b_lenient 0 0 0 [] (pad4 s) else None)"

lemma b64_val_char [simp]: "v < 64 \<Longrightarrow> b64_val (b64_char v) = Some v"
  by (auto simp: b64_char_def b64_val_def Let_def)

lemma b64_char_neq_pad [simp]: "v < 64 \<Longrightarrow> b64_char v \<noteq> CHR ''=''"
proof
  assume "v < 64" "b64_char v = CHR ''=''"
  then have "b64_val (CHR ''='') = Some v" by (metis b64_val_char)
  then show False by (simp add: b64_val_def)
qed

lemma b64_round_trip: "\<forall>x\<in>set bs. x < 256 \<Longrightarrow> b64decode_strict (b64encode bs) = Some bs"
proof (induction bs rule: b64encode.induct)
  case (2 x)
  then have "x div 4 < 64" by simp
  then show ?case by simp
next
  case (3 x y)
  then have "x div 4 < 64" "y div 16 < 16" by auto
  then have "x div 4 < 64" "(x mod 4) * 16 + y div 16 < 64" "(y mod 16) * 4 < 64" by auto
  moreover have "((x mod 4) * 16 + y div 16) div 16 = x mod 4" "((x mod 4) * 16 + y div 16) mod 16 = y div 16"
    using \<open>y div 16 < 16\<close> by simp_all
  ultimately show ?case by simp
next
  case (4 x y z r)
  let ?a = "x div 4" and ?b = "(x mod 4) * 16 + y div 16"
    and ?c = "(y mod 16) * 4 + z div 64" and ?d = "z mod 64"
  have lt: "y div 16 < 16" "z div 64 < 4" using "4.prems" by auto
  then have "?a < 64" "?b < 64" "?c < 64" "?d < 64" using "4.prems" by auto
  moreover have "?b div 16 = x mod 4" "?b mod 16 = y div 16" "?c div 4 = y mod 16" "?c mod 4 = z div 64"
    using lt by simp_all
  ultimately show ?case using 4 by simp
qed simp

section \<open>UTF-8\<close>

text \<open>Decoded text is a list of code points, since it may leave the range of the
model's strings.\<close>

definition utf8_cp :: "nat \<Rightarrow> bytes" where
  "utf8_cp p =
    (if p < 128 then [p]
     else if p < 2048 then [192 + p div 64, 128 + p mod 64]
     else if p < 65536 then [224 + p div 4096, 128 + (p div 64) mod 64, 128 + p mod 64]
     else [240 + p div 262144, 128 + (p div 4096) mod 64, 128 + (p div 64) mod 64, 128 + p mod 64])"

definition utf8_encode :: "string \<Rightarrow> bytes" where
  "utf8_encode s = concat (map (\<lambda>c. utf8_cp (of_char c)) s)"

definition scalar_value :: "nat \<Rightarrow> bool" where
  "scalar_value p \<longleftrightarrow> p < 55296 \<or> (57343 < p \<and> p < 1114112)"

definition cont :: "nat \<Rightarrow> bool" where
  "cont b \<longleftrightarrow> 128 \<le> b \<and> b < 192"

text \<open>Strict decoding: continuation bytes present, no overlong form, no surrogate,
nothing above 0x10FFFF.\<close>

fun utf8_decode :: "bytes \<Rightarrow> nat list option" where
  "utf8_decode [] = Some []"
| "utf8_decode (a # r) =
    (if a < 128 then map_option ((#) a) (utf8_decode r)
     else if 194 \<le> a \<and> a < 224 then
       (case r of b # r' \<Rightarrow>
          if cont b then map_option ((#) ((a - 192) * 64 + (b - 128))) (utf8_decode r') else None
        | _ \<Rightarrow> None)
     else if 224 \<le> a \<and> a < 240 then
       (case r of b # c # r' \<Rightarrow>
          (let p = (a - 224) * 4096 + (b - 128) * 64 + (c - 128) in
           if cont b \<and> cont c \<and> 2048 \<le> p \<and> scalar_value p
           then map_option ((#) p) (utf8_decode r') else None)
        | _ \<Rightarrow> None)
     else if 240 \<le> a \<and> a < 245 then
       (case r of b # c # d # r' \<Rightarrow>
          (let p = (a - 240) * 262144 + (b - 128) * 4096 + (c - 128) * 64 + (d - 128) in
           if cont b \<and> cont c \<and> cont d \<and> 65536 \<le> p \<and> scalar_value p
           then map_option ((#) p) (utf8_decode r') else None)
        | _ \<Rightarrow> None)
     else None)"

lemma split64:
  fixes p :: nat
  shows "p div 4096 * 4096 + p div 64 mod 64 * 64 + p mod 64 = p"
    and "p div 262144 * 262144 + p div 4096 mod 64 * 4096 + p div 64 mod 64 * 64 + p mod 64 = p"
proof -
  have step: "(q div 64 * 64 + q mod 64) = q" for q :: nat by (rule div_mult_mod_eq)
  have d: "p div 4096 = p div 64 div 64" "p div 262144 = p div 4096 div 64"
    by (simp_all add: div_mult2_eq [symmetric])
  have "p div 4096 * 4096 + p div 64 mod 64 * 64 + p mod 64
      = (p div 64 div 64 * 64 + p div 64 mod 64) * 64 + p mod 64"
    unfolding d by (simp only: distrib_right mult.assoc; simp)
  then show *: "p div 4096 * 4096 + p div 64 mod 64 * 64 + p mod 64 = p"
    by (simp only: step)
  have "p div 262144 * 262144 + p div 4096 mod 64 * 4096
      = (p div 4096 div 64 * 64 + p div 4096 mod 64) * 4096"
    unfolding d(2) by (simp only: distrib_right mult.assoc; simp)
  with * show "p div 262144 * 262144 + p div 4096 mod 64 * 4096 + p div 64 mod 64 * 64 + p mod 64 = p"
    by (simp only: step)
qed

lemma utf8_decode_cp:
  assumes "scalar_value p"
  shows "utf8_decode (utf8_cp p @ r) = map_option ((#) p) (utf8_decode r)"
proof -
  consider "p < 128" | "128 \<le> p" "p < 2048" | "2048 \<le> p" "p < 65536" | "65536 \<le> p" by linarith
  then show ?thesis
  proof cases
    case 2
    then have "2 \<le> p div 64" "p div 64 < 32" by auto
    with 2 show ?thesis by (simp add: utf8_cp_def cont_def)
  next
    case 3
    then have hi: "p div 4096 < 16" by simp
    have "p div 4096 * 4096 + p div 64 mod 64 * 64 + p mod 64 = p"
      by (rule split64)
    with 3 hi assms show ?thesis by (simp add: utf8_cp_def cont_def Let_def)
  next
    case 4
    have lt: "p < 1114112" using assms 4 by (simp add: scalar_value_def)
    then have hi: "p div 262144 < 5" by simp
    have "p div 262144 * 262144 + p div 4096 mod 64 * 4096 + p div 64 mod 64 * 64 + p mod 64 = p"
      by (rule split64)
    with 4 hi assms show ?thesis by (simp add: utf8_cp_def cont_def Let_def)
  qed (simp add: utf8_cp_def)
qed

lemma utf8_round_trip:
  "\<forall>p\<in>set ps. scalar_value p \<Longrightarrow> utf8_decode (concat (map utf8_cp ps)) = Some ps"
  by (induction ps) (simp_all add: utf8_decode_cp)

lemma utf8_encode_decode: "utf8_decode (utf8_encode s) = Some (map of_char s)"
proof -
  have "scalar_value (of_char c)" for c
    using nat_of_char_less_256[of c] by (simp add: scalar_value_def del: nat_of_char_less_256)
  then show ?thesis
    using utf8_round_trip[of "map of_char s"] by (simp add: utf8_encode_def comp_def)
qed

section \<open>SHA-256\<close>

definition sha_K :: "32 word list" where
  "sha_K =
    [1116352408, 1899447441, 3049323471, 3921009573, 961987163, 1508970993, 2453635748,
     2870763221, 3624381080, 310598401, 607225278, 1426881987, 1925078388, 2162078206,
     2614888103, 3248222580, 3835390401, 4022224774, 264347078, 604807628, 770255983,
     1249150122, 1555081692, 1996064986, 2554220882, 2821834349, 2952996808, 3210313671,
     3336571891, 3584528711, 113926993, 338241895, 666307205, 773529912, 1294757372,
     1396182291, 1695183700, 1986661051, 2177026350, 2456956037, 2730485921, 2820302411,
     3259730800, 3345764771, 3516065817, 3600352804, 4094571909, 275423344, 430227734,
     506948616, 659060556, 883997877, 958139571, 1322822218, 1537002063, 1747873779,
     1955562222, 2024104815, 2227730452, 2361852424, 2428436474, 2756734187, 3204031479,
     3329325298]"

definition sha_H0 :: "32 word list" where
  "sha_H0 = [1779033703, 3144134277, 1013904242, 2773480762, 1359893119, 2600822924, 528734635, 1541459225]"

definition rotr :: "nat \<Rightarrow> 32 word \<Rightarrow> 32 word" where
  "rotr n x = drop_bit n x OR push_bit (32 - n) x"

fun be_words :: "bytes \<Rightarrow> 32 word list" where
  "be_words (a # b # c # d # r) =
    word_of_nat (((a * 256 + b) * 256 + c) * 256 + d) # be_words r"
| "be_words _ = []"

fun be_bytes :: "nat \<Rightarrow> nat \<Rightarrow> bytes" where
  "be_bytes 0 v = []"
| "be_bytes (Suc n) v = (v div 256 ^ n) mod 256 # be_bytes n v"

definition sha_pad :: "bytes \<Rightarrow> bytes" where
  "sha_pad m = m @ 128 # replicate ((119 - length m mod 64) mod 64) 0 @ be_bytes 8 (8 * length m)"

text \<open>The schedule is kept newest word first: word t is built from the words at
distance 2, 7, 15 and 16.\<close>

fun sha_extend :: "nat \<Rightarrow> 32 word list \<Rightarrow> 32 word list" where
  "sha_extend 0 ws = ws"
| "sha_extend (Suc n) ws =
    (let w15 = ws ! 14; w2 = ws ! 1;
         s0 = rotr 7 w15 XOR rotr 18 w15 XOR drop_bit 3 w15;
         s1 = rotr 17 w2 XOR rotr 19 w2 XOR drop_bit 10 w2
     in sha_extend n ((ws ! 15 + s0 + ws ! 6 + s1) # ws))"

definition sha_schedule :: "32 word list \<Rightarrow> 32 word list" where
  "sha_schedule blk = rev (sha_extend 48 (rev blk))"

fun sha_round :: "32 word list \<Rightarrow> 32 word \<times> 32 word \<Rightarrow> 32 word list" where
  "sha_round [a, b, c, d, e, f, g, h] (k, w) =
    (let s1 = rotr 6 e XOR rotr 11 e XOR rotr 25 e;
         ch = (e AND f) XOR ((NOT e) AND g);
         t1 = h + s1 + ch + k + w;
         s0 = rotr 2 a XOR rotr 13 a XOR rotr 22 a;
         maj = (a AND b) XOR (a AND c) XOR (b AND c);
         t2 = s0 + maj
     in [t1 + t2, a, b, c, d + t1, e, f, g])"
| "sha_round st _ = st"

definition sha_block :: "32 word list \<Rightarrow> 32 word list \<Rightarrow> 32 word list" where
  "sha_block hs blk =
    map2 (+) hs (foldl sha_round hs (zip sha_K (sha_schedule blk)))"

fun sha_blocks :: "nat \<Rightarrow> 32 word list \<Rightarrow> 32 word list \<Rightarrow> 32 word list" where
  "sha_blocks 0 hs ws = hs"
| "sha_blocks (Suc n) hs ws = sha_blocks n (sha_block hs (take 16 ws)) (drop 16 ws)"

definition hex_char :: "nat \<Rightarrow> char" where
  "hex_char d = (if d < 10 then char_of (48 + d) else char_of (87 + d))"

definition word_hex :: "32 word \<Rightarrow> string" where
  "word_hex w = map (\<lambda>i. hex_char ((unat w div 16 ^ i) mod 16)) [7, 6, 5, 4, 3, 2, 1, 0]"

definition sha256_words :: "bytes \<Rightarrow> 32 word list" where
  "sha256_words m = (let ws = be_words (sha_pad m) in sha_blocks (length ws div 16) sha_H0 ws)"

definition sha256_hexdigest :: "bytes \<Rightarrow> string" where
  "sha256_hexdigest m = concat (map word_hex (sha256_words m))"

lemma length_sha_round: "length st = 8 \<Longrightarrow> length (sha_round st kw) = 8"
  by (induction st kw rule: sha_round.induct) (simp_all add: Let_def)

lemma length_sha_block: "length hs = 8 \<Longrightarrow> length (sha_block hs blk) = 8"
proof -
  assume "length hs = 8"
  moreover have "length st = 8 \<Longrightarrow> length (foldl sha_round st kws) = 8" for st kws
    by (induction kws arbitrary: st) (simp_all add: length_sha_round)
  ultimately show ?thesis by (simp add: sha_block_def)
qed

lemma length_sha256_words: "length (sha256_words m) = 8"
proof -
  have "length hs = 8 \<Longrightarrow> length (sha_blocks n hs ws) = 8" for n hs ws
    by (induction n arbitrary: hs ws) (simp_all add: length_sha_block)
  then show ?thesis by (simp add: sha256_words_def sha_H0_def Let_def)
qed

definition hex_digest :: "string \<Rightarrow> bool" where
  "hex_digest s \<longleftrightarrow> length s = 64 \<and>
     (\<forall>c\<in>set s. let n = (of_char c :: nat) in (48 \<le> n \<and> n \<le> 57) \<or> (97 \<le> n \<and> n \<le> 102))"

lemma hex_char_range:
  "d < 16 \<Longrightarrow> let n = (of_char (hex_char d) :: nat) in (48 \<le> n \<and> n \<le> 57) \<or> (97 \<le> n \<and> n \<le> 102)"
  by (auto simp: hex_char_def Let_def)

lemma sha256_hex_digest: "hex_digest (sha256_hexdigest m)"
proof -
  have len: "length (concat (map word_hex ws)) = 8 * length ws" for ws
    by (induction ws) (simp_all add: word_hex_def)
  have "\<forall>c\<in>set (word_hex w). let n = (of_char c :: nat) in (48 \<le> n \<and> n \<le> 57) \<or> (97 \<le> n \<and> n \<le> 102)" for w
    by (auto simp: word_hex_def intro!: hex_char_range)
  then show ?thesis
    by (simp add: hex_digest_def sha256_hexdigest_def len length_sha256_words)
qed

text \<open>Stripping and lowering leave a lower-case digest as it is.\<close>

lemma hex_digest_ascii: "hex_digest s \<Longrightarrow> is_ascii s"
  by (force simp: hex_digest_def is_ascii_def Let_def)

lemma hex_digest_no_space: "hex_digest s \<Longrightarrow> c \<in> set s \<Longrightarrow> \<not> py_space c"
  by (force simp: hex_digest_def py_space_def Let_def)

lemma hex_digest_normal: "hex_digest s \<Longrightarrow> py_lower (py_strip s) = s"
proof -
  assume d: "hex_digest s"
  have "dropWhile py_space s = s" "dropWhile py_space (rev s) = rev s"
    using d hex_digest_no_space[OF d] by (simp_all add: dropWhile_eq_self_iff) (metis hd_in_set set_rev rev_is_Nil_conv)+
  moreover have "map lower_char s = s"
    using d by (intro map_idI) (force simp: hex_digest_def lower_char_def Let_def)
  ultimately show ?thesis by (simp add: py_strip_def py_lower_def)
qed

section \<open>Text forms of UUIDs\<close>

text \<open>uuid.UUID(text): the marks urn: and uuid: are removed, then braces at both ends,
then every hyphen; 32 characters must remain, which int(_, 16) reads as a number
of 128 bits. int accepts surrounding white space, a sign, a 0x prefix and single
underscores between digits.\<close>

fun starts_with :: "string \<Rightarrow> string \<Rightarrow> bool" where
  "starts_with [] _ = True"
| "starts_with (p # ps) [] = False"
| "starts_with (p # ps) (c # cs) = (p = c \<and> starts_with ps cs)"

fun remove_sub :: "nat \<Rightarrow> string \<Rightarrow> string \<Rightarrow> string" where
  "remove_sub 0 p s = s"
| "remove_sub (Suc n) p [] = []"
| "remove_sub (Suc n) p (c # cs) =
    (if starts_with p (c # cs) then remove_sub n p (drop (length p) (c # cs))
     else c # remove_sub n p cs)"

definition strip_braces :: "string \<Rightarrow> string" where
  "strip_braces s = (let br = (\<lambda>c. c = CHR 0x7B \<or> c = CHR 0x7D) in
     rev (dropWhile br (rev (dropWhile br s))))"

definition hexd :: "char \<Rightarrow> nat option" where
  "hexd c = (let n = (of_char c :: nat) in
     if 48 \<le> n \<and> n \<le> 57 then Some (n - 48)
     else if 97 \<le> n \<and> n \<le> 102 then Some (n - 87)
     else if 65 \<le> n \<and> n \<le> 70 then Some (n - 55)
     else None)"

text \<open>Digits with single underscores between them; \<open>us\<close> tells that an underscore may
come next.\<close>

fun hex_digits :: "bool \<Rightarrow> nat \<Rightarrow> string \<Rightarrow> nat option" where
  "hex_digits us acc [] = (if us then Some acc else None)"
| "hex_digits us acc (c # cs) =
    (if c = CHR ''_'' then (if us \<and> cs \<noteq> [] \<and> hd cs \<noteq> CHR ''_'' then hex_digits False acc cs else None)
     else (case hexd c of Some d \<Rightarrow> hex_digits True (acc * 16 + d) cs | None \<Rightarrow> None))"

definition py_int16 :: "string \<Rightarrow> int option" where
  "py_int16 s =
    (let t = py_strip s;
         (neg, u) = (case t of c # r \<Rightarrow> if c = CHR ''-'' then (True, r)
                                        else if c = CHR ''+'' then (False, r) else (False, t)
                     | [] \<Rightarrow> (False, t));
         v = (if starts_with ''0x'' u \<or> starts_with ''0X'' u
              then (if starts_with ''_'' (drop 2 u) then drop 3 u else drop 2 u) else u)
     in case hex_digits False 0 v of
          Some n \<Rightarrow> Some (if neg then - int n else int n)
        | None \<Rightarrow> None)"

definition py_uuid :: "string \<Rightarrow> nat option" where
  "py_uuid s =
    (let h = filter (\<lambda>c. c \<noteq> CHR ''-'')
               (strip_braces (remove_sub (length s) ''uuid:'' (remove_sub (length s) ''urn:'' s)))
     in if length h \<noteq> 32 then None
        else (case py_int16 h of
                Some i \<Rightarrow> if 0 \<le> i \<and> i < 2 ^ 128 then Some (nat i) else None
              | None \<Rightarrow> None))"

text \<open>str(uuid): 32 lower-case digits in groups of 8, 4, 4, 4 and 12.\<close>

fun hex_fixed :: "nat \<Rightarrow> nat \<Rightarrow> string" where
  "hex_fixed 0 v = []"
| "hex_fixed (Suc n) v = hex_char ((v div 16 ^ n) mod 16) # hex_fixed n v"

definition uuid_str :: "nat \<Rightarrow> string" where
  "uuid_str v = (let h = hex_fixed 32 v in
     take 8 h @ ''-'' @ take 4 (drop 8 h) @ ''-'' @ take 4 (drop 12 h) @ ''-'' @
     take 4 (drop 16 h) @ ''-'' @ drop 20 h)"

text \<open>The printed form of a 128-bit number is read back as that number.\<close>

lemma hexd_hex_char [simp]: "d < 16 \<Longrightarrow> hexd (hex_char d) = Some d"
  by (auto simp: hex_char_def hexd_def Let_def)

lemma hex_char_neq:
  assumes "d < 16" "hexd c = None" shows "hex_char d \<noteq> c"
  using assms by auto

lemma hexd_None: "hexd (CHR ''-'') = None" "hexd (CHR ''+'') = None" "hexd (CHR ''_'') = None"
  "hexd (CHR ''x'') = None" "hexd (CHR ''X'') = None" "hexd (CHR ''u'') = None"
  "hexd (CHR 0x7B) = None" "hexd (CHR 0x7D) = None"
  by (simp_all add: hexd_def)

lemma hexd_space: "py_space c \<Longrightarrow> hexd c = None"
  by (auto simp: py_space_def hexd_def Let_def)

lemma hex_fixed_hexd: "c \<in> set (hex_fixed n v) \<Longrightarrow> hexd c \<noteq> None"
  by (induction n v rule: hex_fixed.induct) auto

lemma length_hex_fixed [simp]: "length (hex_fixed n v) = n"
  by (induction n v rule: hex_fixed.induct) auto

lemma hex_digits_fixed: "hex_digits us acc (hex_fixed n v) =
    (if n = 0 \<and> \<not> us then None else Some (acc * 16 ^ n + v mod 16 ^ n))"
proof (induction n arbitrary: us acc)
  case (Suc n)
  have "v mod 16 ^ Suc n = (v div 16 ^ n) mod 16 * 16 ^ n + v mod 16 ^ n"
    by (simp add: mod_mult2_eq mult.commute[of 16])
  with Suc show ?case
    using hex_char_neq[OF _ hexd_None(3), of "(v div 16 ^ n) mod 16"] by (simp add: algebra_simps)
qed simp

lemma remove_sub_absent: "p \<noteq> [] \<Longrightarrow> hd p \<notin> set s \<Longrightarrow> remove_sub n p s = s"
  by (induction n p s rule: remove_sub.induct) (auto simp: neq_Nil_conv)

lemma strip_ends:
  assumes "\<And>c. c \<in> set s \<Longrightarrow> \<not> P c"
  shows "rev (dropWhile P (rev (dropWhile P s))) = s"
proof -
  have "dropWhile P t = t" if "set t = set s" for t
    using assms that by (cases t) auto
  from this[of s] this[of "rev s"] show ?thesis by simp
qed

lemma set_uuid_str: "c \<in> set (uuid_str v) \<Longrightarrow> hexd c \<noteq> None \<or> c = CHR ''-''"
  by (auto simp: uuid_str_def Let_def dest!: in_set_takeD in_set_dropD hex_fixed_hexd)

lemma uuid_str_digits: "filter (\<lambda>c. c \<noteq> CHR ''-'') (uuid_str v) = hex_fixed 32 v"
proof -
  let ?h = "hex_fixed 32 v"
  have keep: "filter (\<lambda>c. c \<noteq> CHR ''-'') t = t" if "set t \<subseteq> set ?h" for t
    using that hex_fixed_hexd[of _ 32 v] hexd_None(1) by (intro filter_True) (metis subsetD)
  have sub: "set (take i (drop j ?h)) \<subseteq> set ?h" "set (take i ?h) \<subseteq> set ?h" "set (drop i ?h) \<subseteq> set ?h" for i j
    by (auto dest: in_set_takeD in_set_dropD)
  have "take 8 ?h @ take 4 (drop 8 ?h) @ take 4 (drop 12 ?h) @ take 4 (drop 16 ?h) @ drop 20 ?h = ?h"
    using append_take_drop_id[of 8 ?h] append_take_drop_id[of 4 "drop 8 ?h"]
      append_take_drop_id[of 4 "drop 12 ?h"] append_take_drop_id[of 4 "drop 16 ?h"]
    by (simp del: hex_fixed.simps append_take_drop_id)
  then show ?thesis
    by (simp add: uuid_str_def Let_def keep sub)
qed

theorem py_uuid_str:
  assumes "v < 2 ^ 128"
  shows "py_uuid (uuid_str v) = Some v"
proof -
  let ?h = "hex_fixed 32 v"
  have chars: "c \<in> set (uuid_str v) \<Longrightarrow> c \<noteq> CHR ''u'' \<and> c \<noteq> CHR 0x7B \<and> c \<noteq> CHR 0x7D" for c
    using set_uuid_str[of c v] hexd_None(6-8) by auto
  have removed: "remove_sub n ''urn:'' (uuid_str v) = uuid_str v"
    "remove_sub n ''uuid:'' (uuid_str v) = uuid_str v" for n
    using chars[of "CHR ''u''"] by (auto intro!: remove_sub_absent)
  have braces: "strip_braces (uuid_str v) = uuid_str v"
    unfolding strip_braces_def Let_def using chars by (intro strip_ends) blast
  have lower: "c \<in> set ?h \<Longrightarrow> hexd c \<noteq> None" for c by (rule hex_fixed_hexd)
  have spaces: "py_strip ?h = ?h"
    unfolding py_strip_def using lower hexd_space by (intro strip_ends) blast
  have "length ?h = Suc (Suc 30)" by (simp only: length_hex_fixed)
  then obtain a b r where h: "?h = a # b # r" unfolding length_Suc_conv by blast
  with lower[of a] lower[of b] have "hexd a \<noteq> None" "hexd b \<noteq> None" by simp_all
  then have ab: "a \<noteq> CHR ''-''" "a \<noteq> CHR ''+''" "b \<noteq> CHR ''x''" "b \<noteq> CHR ''X''"
    using hexd_None(1,2,4,5) by auto
  have "v mod 16 ^ 32 = v" using assms by simp
  then have "hex_digits False 0 ?h = Some v" by (simp add: hex_digits_fixed del: hex_fixed.simps)
  then have "py_int16 ?h = Some (int v)"
    using ab by (simp add: py_int16_def Let_def spaces) (simp add: h)
  with assms show ?thesis
    by (simp add: py_uuid_def Let_def removed braces uuid_str_digits del: hex_fixed.simps)
qed

end
