(* ===== verification/Gatekeeper_Auth.thy ===== *)
theory Gatekeeper_Auth
  imports Governance_Lib Py_Bytes
begin

text \<open>services/gatekeeper/app/auth.py (the approver is the principal that Easy Auth put
into the headers of this request), app/tokens.py (claim set and compact JWS of a
gate token) and app/option_link_sig.py (signature of a card link). The signing
key is not under src/: its algorithm name, sign and verify functions are
parameters.\<close>

section \<open>The authenticated principal\<close>

type_synonym headers = "(string \<times> string) list"

record principal =
  pr_id :: string
  pr_name :: "string option"
  pr_idp :: "string option"

definition decided_by :: "principal \<Rightarrow> string" where
  "decided_by p = (if truthy (pr_name p) then the (pr_name p) @ '' ('' @ pr_id p @ '')'' else pr_id p)"

text \<open>The blob is base64 of UTF-8 JSON; anything else, and any JSON value but an
object, counts as no blob. Text outside the model's code points is refused.\<close>

definition text_of_bytes :: "bytes \<Rightarrow> string option" where
  "text_of_bytes raw =
    (case utf8_decode raw of
       Some ps \<Rightarrow> if \<forall>p\<in>set ps. p < 256 then Some (map char_of ps) else None
     | None \<Rightarrow> None)"

definition decode_principal_blob :: "string \<Rightarrow> (string \<times> json) list option" where
  "decode_principal_blob raw =
    (case b64decode_padded raw of
       None \<Rightarrow> None
     | Some decoded \<Rightarrow>
         (case text_of_bytes decoded of
            None \<Rightarrow> None
          | Some t \<Rightarrow> (case loads t of Some (JObj kvs) \<Rightarrow> Some kvs | _ \<Rightarrow> None)))"

definition json_or :: "json option \<Rightarrow> json option \<Rightarrow> json option" where
  "json_or a b = (case a of Some v \<Rightarrow> if jtruth v then a else b | None \<Rightarrow> b)"

fun add_claim :: "json \<Rightarrow> (string \<times> string) list \<Rightarrow> (string \<times> string) list" where
  "add_claim (JObj c) acc =
    (case (json_or (jget c ''typ'') (jget c ''type''), json_or (jget c ''val'') (jget c ''value'')) of
       (Some (JStr t), Some (JStr v)) \<Rightarrow> if map_of acc t = None then acc @ [(t, v)] else acc
     | _ \<Rightarrow> acc)"
| "add_claim _ acc = acc"

text \<open>A claims value that is a true number or boolean is not iterable: the TypeError is
None here. Iterating a string or an object yields strings, which are skipped.\<close>

definition claims_map :: "(string \<times> json) list \<Rightarrow> (string \<times> string) list option" where
  "claims_map blob =
    (case jget blob ''claims'' of
       None \<Rightarrow> Some []
     | Some v \<Rightarrow>
         if \<not> jtruth v then Some []
         else (case v of
                 JArr cs \<Rightarrow> Some (foldl (\<lambda>acc c. add_claim c acc) [] cs)
               | JObj _ \<Rightarrow> Some []
               | JStr _ \<Rightarrow> Some []
               | _ \<Rightarrow> None))"

definition ID_CLAIM_TYPES :: "string list" where
  "ID_CLAIM_TYPES =
    [''http://schemas.microsoft.com/identity/claims/objectidentifier'', ''oid'', ''sub'']"

definition NAME_CLAIM_TYPES :: "string list" where
  "NAME_CLAIM_TYPES =
    [''preferred_username'',
     ''http://schemas.xmlsoap.org/ws/2005/05/identity/claims/upn'',
     ''http://schemas.xmlsoap.org/ws/2005/05/identity/claims/name'',
     ''name'', ''upn'']"

fun first_claim :: "(string \<times> string) list \<Rightarrow> string list \<Rightarrow> string option" where
  "first_claim claims [] = None"
| "first_claim claims (t # ts) =
    (if truthy (map_of claims t) then map_of claims t else first_claim claims ts)"

definition lowered :: "headers \<Rightarrow> headers" where
  "lowered hs = rev (map (\<lambda>(k, v). (py_lower k, v)) hs)"

definition header :: "headers \<Rightarrow> string \<Rightarrow> string" where
  "header hs k = py_strip (or_else (map_of (lowered hs) k) [])"

definition none_if_empty :: "string \<Rightarrow> string option" where
  "none_if_empty s = (if s = [] then None else Some s)"

definition principal_from_headers :: "headers \<Rightarrow> string + principal option" where
  "principal_from_headers hs =
    (let pid = header hs ''x-ms-client-principal-id'';
         name = none_if_empty (header hs ''x-ms-client-principal-name'');
         idp = none_if_empty (header hs ''x-ms-client-principal-idp'');
         raw = or_else (map_of (lowered hs) ''x-ms-client-principal'') []
     in case (if raw = [] then None else decode_principal_blob raw) of
          None \<Rightarrow> Inr (if pid = [] then None else Some \<lparr>pr_id = pid, pr_name = name, pr_idp = idp\<rparr>)
        | Some [] \<Rightarrow> Inr (if pid = [] then None else Some \<lparr>pr_id = pid, pr_name = name, pr_idp = idp\<rparr>)
        | Some blob \<Rightarrow>
            (case claims_map blob of
               None \<Rightarrow> Inl ''claims is not iterable''
             | Some claims \<Rightarrow>
                 let pid' = (if pid = [] then or_else (first_claim claims ID_CLAIM_TYPES) [] else pid);
                     name' = (if name = None then first_claim claims NAME_CLAIM_TYPES else name);
                     idp' = (if idp = None
                             then (case json_or (jget blob ''auth_typ'') (jget blob ''identityProvider'') of
                                     Some (JStr s) \<Rightarrow> Some s | _ \<Rightarrow> None)
                             else idp)
                 in Inr (if pid' = [] then None else Some \<lparr>pr_id = pid', pr_name = name', pr_idp = idp'\<rparr>)))"

lemma principal_id_nonempty: "principal_from_headers hs = Inr (Some p) \<Longrightarrow> pr_id p \<noteq> []"
  by (auto simp: principal_from_headers_def Let_def split: if_splits option.splits list.splits)

lemma decided_by_nonempty: "pr_id p \<noteq> [] \<Longrightarrow> decided_by p \<noteq> []"
  by (simp add: decided_by_def)

text \<open>The dedicated id header wins over every claim of the blob.\<close>

lemma header_id_wins:
  assumes "header hs ''x-ms-client-principal-id'' \<noteq> []"
      and "principal_from_headers hs = Inr (Some p)"
  shows "pr_id p = header hs ''x-ms-client-principal-id''"
  using assms by (auto simp: principal_from_headers_def Let_def split: if_splits option.splits list.splits)

lemma no_identity_headers:
  assumes "header hs ''x-ms-client-principal-id'' = []"
      and "or_else (map_of (lowered hs) ''x-ms-client-principal'') [] = []"
  shows "principal_from_headers hs = Inr None"
  using assms by (simp add: principal_from_headers_def)

section \<open>Gate tokens\<close>

definition build_claims ::
    "string \<Rightarrow> string \<Rightarrow> int \<Rightarrow> nat \<Rightarrow> string \<Rightarrow> string \<Rightarrow> string \<Rightarrow> int \<Rightarrow> string \<Rightarrow> (string \<times> json) list" where
  "build_claims issuer audience ttl gate_decision_id subject content_hash function_id now jti =
    [(''iss'', JStr issuer), (''sub'', JStr subject), (''aud'', JStr audience),
     (''iat'', JInt now), (''exp'', JInt (now + ttl)), (''jti'', JStr jti),
     (''gate_decision_id'', JStr (uuid_str gate_decision_id)),
     (''function_id'', JStr function_id), (''content_hash'', JStr content_hash)]"

definition sign_claims :: "string \<Rightarrow> (bytes \<Rightarrow> bytes) \<Rightarrow> (string \<times> json) list \<Rightarrow> string" where
  "sign_claims alg sign claims =
    (let header_segment = b64url (utf8_encode (dumps id (JObj [(''alg'', JStr alg), (''typ'', JStr ''JWT'')])));
         payload_segment = b64url (utf8_encode (dumps id (JObj claims)));
         signing_input = utf8_encode (header_segment @ ''.'' @ payload_segment)
     in header_segment @ ''.'' @ payload_segment @ ''.'' @ b64url (sign signing_input))"

definition issue_gate_token ::
    "string \<Rightarrow> (bytes \<Rightarrow> bytes) \<Rightarrow> string \<Rightarrow> string \<Rightarrow> int \<Rightarrow> nat \<Rightarrow> string \<Rightarrow> string \<Rightarrow> string \<Rightarrow> int \<Rightarrow> string \<Rightarrow>
     string \<times> (string \<times> json) list" where
  "issue_gate_token alg sign issuer audience ttl gate_decision_id subject content_hash function_id now jti =
    (let claims = build_claims issuer audience ttl gate_decision_id subject content_hash function_id now jti
     in (sign_claims alg sign claims, claims))"

section \<open>Signed card links\<close>

definition sign_card_link :: "(bytes \<Rightarrow> bytes) \<Rightarrow> string \<Rightarrow> string" where
  "sign_card_link sign card_id = b64url (sign (utf8_encode card_id))"

definition verify_card_link :: "(bytes \<Rightarrow> bytes \<Rightarrow> bool) \<Rightarrow> string \<Rightarrow> string \<Rightarrow> bool" where
  "verify_card_link verify card_id sig =
    (case b64url_decode sig of
       None \<Rightarrow> False
     | Some raw_sig \<Rightarrow> verify raw_sig (utf8_encode card_id))"

text \<open>base64url without padding is undone by the lenient decoder of verify_card_link.\<close>

lemma b64url_chars: "v < 64 \<Longrightarrow> b64_val (unurl_char (url_char (b64_char v))) = Some v"
proof -
  assume v: "v < 64"
  have "unurl_char (url_char c) = c" if "c \<noteq> CHR ''-''" "c \<noteq> CHR ''_''" for c
    using that by (simp add: url_char_def unurl_char_def)
  moreover have "b64_char v \<noteq> CHR ''-''" "b64_char v \<noteq> CHR ''_''"
    using v b64_val_char[OF v] by (auto simp: b64_val_def)
  ultimately show ?thesis using v by simp
qed

end
