(* ===== verification/Gatekeeper_Inbox.thy ===== *)
theory Gatekeeper_Inbox
  imports Governance_Lib Py_Bytes
begin

text \<open>services/gatekeeper/app/approval_inbox.py (the approval queue and the life cycle
of an approval link), the INSERT helper of app/routers/decisions.py and the read
endpoints over both tables. Identifiers and link tokens the database and the
secrets module generate are arguments, as is the instant a statement runs at.\<close>

section \<open>gate_decisions\<close>

definition VALID_OUTCOMES :: "string list" where
  "VALID_OUTCOMES = [''approved'', ''rejected'', ''escalated'']"

text \<open>The insert fails with ValueError on an unknown outcome, and in the database when
the text of the run is not a uuid of Postgres (\<open>None\<close>) or names no agent run.\<close>

definition insert_gate_decision ::
    "row_id \<Rightarrow> instant \<Rightarrow> nat option \<Rightarrow> string \<Rightarrow> string \<Rightarrow> string option \<Rightarrow> gov_db \<Rightarrow>
     string + (gate_decision \<times> gov_db)" where
  "insert_gate_decision new_id now agent_run who outcome reason db =
    (if outcome \<notin> set VALID_OUTCOMES then Inl ''ValueError''
     else (case agent_run of
       None \<Rightarrow> Inl ''InvalidTextRepresentation''
     | Some run \<Rightarrow>
         if run \<notin> set (db_agent_runs db) then Inl ''ForeignKeyViolation''
         else (let row = \<lparr>gd_id = new_id, gd_agent_run = run, gd_decided_by = who, gd_outcome = outcome,
                          gd_reason = reason, gd_decided_at = now\<rparr>
               in Inr (row, db\<lparr>db_decisions := db_decisions db @ [row]\<rparr>))))"

definition fetch_gate_decision :: "gov_db \<Rightarrow> nat \<Rightarrow> gate_decision option" where
  "fetch_gate_decision db did = List.find (\<lambda>r. gd_id r = did) (db_decisions db)"

record decision_body =
  db_id :: nat
  db_agent_run :: nat
  db_decided_by :: string
  db_outcome :: string
  db_reason :: "string option"
  db_at :: instant

definition serialise_decision :: "gate_decision \<Rightarrow> decision_body" where
  "serialise_decision row = \<lparr>db_id = gd_id row, db_agent_run = gd_agent_run row,
     db_decided_by = gd_decided_by row, db_outcome = gd_outcome row, db_reason = gd_reason row,
     db_at = gd_decided_at row\<rparr>"

text \<open>\<open>pg\<close> is Postgres's cast of a text to uuid, which is stricter than uuid.UUID.\<close>

definition get_decision ::
    "(string \<Rightarrow> nat option) \<Rightarrow> string \<Rightarrow> gov_db \<Rightarrow> (unit, decision_body) reply" where
  "get_decision pg decision_id db =
    (if py_uuid decision_id = None then Inl (Refused 400 ''decision_id must be a uuid'')
     else (case pg decision_id of
       None \<Rightarrow> Inl (Crashed ''InvalidTextRepresentation'')
     | Some did \<Rightarrow>
         (case fetch_gate_decision db did of
            None \<Rightarrow> Inl (Refused 404 ''decision not found'')
          | Some row \<Rightarrow> Inr (serialise_decision row))))"

section \<open>approval_inbox\<close>

definition STATUS_PENDING :: string where "STATUS_PENDING = ''pending''"
definition STATUS_APPROVED :: string where "STATUS_APPROVED = ''approved''"
definition STATUS_REJECTED :: string where "STATUS_REJECTED = ''rejected''"
definition STATUS_EXPIRED :: string where "STATUS_EXPIRED = ''expired''"

definition APPROVAL_LINK_TTL_SECONDS :: int where
  "APPROVAL_LINK_TTL_SECONDS = 30 * 24 * 60 * 60"

definition seconds :: "int \<Rightarrow> instant" where
  "seconds n = n * 1000000"

text \<open>INSERT of a pending row: refused by the level check and the unique link token.\<close>

definition create_approval_request ::
    "row_id \<Rightarrow> string \<Rightarrow> instant \<Rightarrow> int \<Rightarrow> row_id option \<Rightarrow> nat \<Rightarrow> string \<Rightarrow> string \<Rightarrow> int \<Rightarrow>
     string option \<Rightarrow> string \<Rightarrow> string option \<Rightarrow> string \<Rightarrow> gov_db \<Rightarrow> string + (approval_row \<times> gov_db)" where
  "create_approval_request new_id link_token now ttl gate_decision_id agent_run function_id action_class
       level content_hash preview_title preview_reference evidence_summary db =
    (let row = \<lparr>ap_id = new_id, ap_decision = gate_decision_id, ap_agent_run = agent_run,
         ap_function = function_id, ap_action = action_class, ap_level = level,
         ap_content_hash = content_hash, ap_title = preview_title, ap_reference = preview_reference,
         ap_evidence = evidence_summary, ap_status = STATUS_PENDING, ap_link = link_token,
         ap_consumed = None, ap_decided_by = None, ap_decided_at = None,
         ap_expires = now + seconds ttl, ap_created = now\<rparr>
     in if level < 0 \<or> 4 < level then Inl ''CheckViolation''
        else if link_token \<in> ap_link ` set (db_inbox db) then Inl ''UniqueViolation''
        else Inr (row, db\<lparr>db_inbox := db_inbox db @ [row]\<rparr>))"

definition get_by_link_token :: "gov_db \<Rightarrow> string \<Rightarrow> approval_row option" where
  "get_by_link_token db link_token = List.find (\<lambda>r. ap_link r = link_token) (db_inbox db)"

text \<open>ORDER BY decided_at DESC NULLS LAST, created_at DESC.\<close>

definition later_decided :: "approval_row \<Rightarrow> approval_row \<Rightarrow> bool" where
  "later_decided a b =
    (case (ap_decided_at a, ap_decided_at b) of
       (Some x, Some y) \<Rightarrow> y < x \<or> (x = y \<and> ap_created b < ap_created a)
     | (Some _, None) \<Rightarrow> True
     | (None, Some _) \<Rightarrow> False
     | (None, None) \<Rightarrow> ap_created b < ap_created a)"

definition request_matches :: "nat \<Rightarrow> string \<Rightarrow> string option \<Rightarrow> approval_row \<Rightarrow> bool" where
  "request_matches run f h r \<longleftrightarrow>
     ap_agent_run r = run \<and> ap_function r = f \<and> ap_content_hash r = h"

definition latest_approved ::
    "gov_db \<Rightarrow> nat \<Rightarrow> string \<Rightarrow> string option \<Rightarrow> approval_row option" where
  "latest_approved db run f h =
    first_by later_decided
      (filter (\<lambda>r. request_matches run f h r \<and> ap_status r = STATUS_APPROVED) (db_inbox db))"

definition newer :: "approval_row \<Rightarrow> approval_row \<Rightarrow> bool" where
  "newer a b \<longleftrightarrow> ap_created b < ap_created a"

definition latest_status ::
    "gov_db \<Rightarrow> nat \<Rightarrow> string \<Rightarrow> string option \<Rightarrow> approval_row option" where
  "latest_status db run f h = first_by newer (filter (request_matches run f h) (db_inbox db))"

text \<open>The list view selects every column but link_token and link_consumed_at.\<close>

record inbox_item =
  ii_id :: row_id
  ii_decision :: "row_id option"
  ii_agent_run :: nat
  ii_function :: string
  ii_action :: string
  ii_level :: int
  ii_content_hash :: "string option"
  ii_title :: string
  ii_reference :: "string option"
  ii_evidence :: string
  ii_status :: string
  ii_decided_by :: "string option"
  ii_decided_at :: "instant option"
  ii_expires :: instant
  ii_created :: instant

definition inbox_item_of :: "approval_row \<Rightarrow> inbox_item" where
  "inbox_item_of r = \<lparr>ii_id = ap_id r, ii_decision = ap_decision r, ii_agent_run = ap_agent_run r,
     ii_function = ap_function r, ii_action = ap_action r, ii_level = ap_level r,
     ii_content_hash = ap_content_hash r, ii_title = ap_title r, ii_reference = ap_reference r,
     ii_evidence = ap_evidence r, ii_status = ap_status r, ii_decided_by = ap_decided_by r,
     ii_decided_at = ap_decided_at r, ii_expires = ap_expires r, ii_created = ap_created r\<rparr>"

fun insort_newest :: "approval_row \<Rightarrow> approval_row list \<Rightarrow> approval_row list" where
  "insort_newest r [] = [r]"
| "insort_newest r (x # xs) = (if newer x r then x # insort_newest r xs else r # x # xs)"

definition newest_first :: "approval_row list \<Rightarrow> approval_row list" where
  "newest_first rs = foldr insort_newest rs []"

definition list_inbox :: "gov_db \<Rightarrow> string option \<Rightarrow> nat \<Rightarrow> inbox_item list" where
  "list_inbox db status limit =
    map inbox_item_of (take limit (newest_first
      (filter (\<lambda>r. status = None \<or> status = Some (ap_status r)) (db_inbox db))))"

definition get_approval_inbox :: "string option \<Rightarrow> nat \<Rightarrow> gov_db \<Rightarrow> (unit, inbox_item list) reply" where
  "get_approval_inbox status limit db =
    (if limit < 1 \<or> 200 < limit then Inl (Refused 422 ''limit'')
     else if status \<noteq> None \<and> the status \<notin> {STATUS_PENDING, STATUS_APPROVED, STATUS_REJECTED, STATUS_EXPIRED}
     then Inl (Refused 400 ''status must be one of pending, approved, rejected, expired'')
     else Inr (list_inbox db status limit))"

record status_body =
  sb_status :: string
  sb_decided_by :: "string option"
  sb_decided_at :: "instant option"
  sb_inbox_id :: "row_id option"
  sb_decision_id :: "row_id option"

definition get_approval_status ::
    "(string \<Rightarrow> nat option) \<Rightarrow> string \<Rightarrow> string \<Rightarrow> string option \<Rightarrow> gov_db \<Rightarrow> (unit, status_body) reply" where
  "get_approval_status pg agent_run_id function_id content_hash db =
    (if py_uuid agent_run_id = None then Inl (Refused 400 ''agent_run_id must be a uuid'')
     else (case pg agent_run_id of
       None \<Rightarrow> Inl (Crashed ''InvalidTextRepresentation'')
     | Some run \<Rightarrow>
         (case latest_status db run function_id content_hash of
            None \<Rightarrow> Inr \<lparr>sb_status = ''not_found'', sb_decided_by = None, sb_decided_at = None,
                       sb_inbox_id = None, sb_decision_id = None\<rparr>
          | Some row \<Rightarrow> Inr \<lparr>sb_status = ap_status row, sb_decided_by = ap_decided_by row,
                       sb_decided_at = ap_decided_at row, sb_inbox_id = Some (ap_id row),
                       sb_decision_id = ap_decision row\<rparr>)))"

section \<open>Consuming and expiring a link\<close>

definition consumable :: "row_id \<Rightarrow> approval_row \<Rightarrow> bool" where
  "consumable i r \<longleftrightarrow> ap_id r = i \<and> ap_consumed r = None"

definition consume_link ::
    "row_id \<Rightarrow> string \<Rightarrow> string \<Rightarrow> row_id option \<Rightarrow> instant \<Rightarrow> gov_db \<Rightarrow> approval_row option \<times> gov_db" where
  "consume_link inbox_id status who gate_decision_id now db =
    (let f = (\<lambda>r. r\<lparr>ap_status := status, ap_decided_by := Some who, ap_decided_at := Some now,
                    ap_consumed := Some now,
                    ap_decision := (if gate_decision_id = None then ap_decision r else gate_decision_id)\<rparr>)
     in (map_option f (List.find (consumable inbox_id) (db_inbox db)),
         db\<lparr>db_inbox := update_where (consumable inbox_id) f (db_inbox db)\<rparr>))"

definition mark_expired :: "row_id \<Rightarrow> gov_db \<Rightarrow> approval_row option \<times> gov_db" where
  "mark_expired inbox_id db =
    (let p = (\<lambda>r. ap_id r = inbox_id \<and> ap_status r = STATUS_PENDING);
         f = (\<lambda>r. r\<lparr>ap_status := STATUS_EXPIRED\<rparr>)
     in (map_option f (List.find p (db_inbox db)),
         db\<lparr>db_inbox := update_where p f (db_inbox db)\<rparr>))"

definition link_decision :: "row_id \<Rightarrow> row_id \<Rightarrow> gov_db \<Rightarrow> gov_db" where
  "link_decision inbox_id decision_id db =
    db\<lparr>db_inbox := update_where (\<lambda>r. ap_id r = inbox_id) (\<lambda>r. r\<lparr>ap_decision := Some decision_id\<rparr>) (db_inbox db)\<rparr>"

text \<open>approval_actions: the outcome check and the reference to the inbox row.\<close>

definition record_approval_action ::
    "row_id option \<Rightarrow> row_id option \<Rightarrow> string \<Rightarrow> string \<Rightarrow> string option \<Rightarrow> string option \<Rightarrow> gov_db \<Rightarrow> gov_db" where
  "record_approval_action inbox_id gate_decision_id outcome reason principal_id principal_name db =
    db\<lparr>db_actions := db_actions db @
      [\<lparr>aa_inbox = inbox_id, aa_decision = gate_decision_id, aa_outcome = outcome, aa_reason = reason,
        aa_principal_id = principal_id, aa_principal_name = principal_name\<rparr>]\<rparr>"

end
