(* ===== verification/Gatekeeper.thy ===== *)
theory Gatekeeper
  imports Gatekeeper_Policy Gatekeeper_Auth Gatekeeper_Inbox
begin

text \<open>The state-changing routes of services/gatekeeper: POST /gate-check
(routers/gate_check.py), GET /approval-action (routers/approval_action.py), the
kill-switch routes (routers/kill_switch.py), with the Teams card
(teams_client.py) an approval request is delivered with. Signing key, webhook
call and Postgres's uuid cast are parameters kept in \<open>gk_env\<close>.\<close>

record gk_env =
  ge_policy :: autonomy_policy
  ge_pg_uuid :: "string \<Rightarrow> nat option"
  ge_issuer :: string
  ge_audience :: string
  ge_token_ttl :: int
  ge_link_ttl :: int
  ge_alg :: string
  ge_sign :: "bytes \<Rightarrow> bytes"
  ge_base_url :: string
  ge_webhook :: "string option"
  ge_post :: "string \<Rightarrow> json \<Rightarrow> bool"
  ge_iso :: "instant \<Rightarrow> string"

text \<open>What the database, uuid4 and the secrets module generate for one request.\<close>

record fresh_ids =
  fr_decision :: row_id
  fr_inbox :: row_id
  fr_link :: string
  fr_jti :: string

section \<open>Delivery of an approval request\<close>

definition unreserved :: "char \<Rightarrow> bool" where
  "unreserved c \<longleftrightarrow> (let n = (of_char c :: nat) in
     (48 \<le> n \<and> n \<le> 57) \<or> (65 \<le> n \<and> n \<le> 90) \<or> (97 \<le> n \<and> n \<le> 122) \<or> n \<in> {45, 46, 95, 126})"

definition upper_hex :: "nat \<Rightarrow> char" where
  "upper_hex d = (if d < 10 then char_of (48 + d) else char_of (55 + d))"

definition py_quote :: "string \<Rightarrow> string" where
  "py_quote s = concat (map (\<lambda>c. if unreserved c then [c]
     else concat (map (\<lambda>b. [CHR ''%'', upper_hex (b div 16), upper_hex (b mod 16)]) (utf8_cp (of_char c)))) s)"

definition rstrip_slash :: "string \<Rightarrow> string" where
  "rstrip_slash s = rev (dropWhile (\<lambda>c. c = CHR ''/'') (rev s))"

definition approval_action_url :: "string \<Rightarrow> string \<Rightarrow> string \<Rightarrow> string" where
  "approval_action_url base link_token choice =
    rstrip_slash base @ ''/approval-action/'' @ py_quote link_token @ ''?choice='' @ choice"

definition jobj_text :: "(string \<times> string) list \<Rightarrow> json" where
  "jobj_text kvs = JObj (map (\<lambda>(k, v). (k, JStr v)) kvs)"

definition build_adaptive_card ::
    "string \<Rightarrow> string \<Rightarrow> int \<Rightarrow> string \<Rightarrow> string option \<Rightarrow> string \<Rightarrow> string \<Rightarrow> string \<Rightarrow> string \<Rightarrow> json" where
  "build_adaptive_card function_id action_class level title reference evidence approve_url reject_url expires =
    (let fact = (\<lambda>t v. jobj_text [(''title'', t), (''value'', v)]);
         body =
          [JObj [(''type'', JStr ''TextBlock''), (''size'', JStr ''Medium''), (''weight'', JStr ''Bolder''),
                 (''wrap'', JBool True), (''text'', JStr (''Approval required: '' @ title))],
           JObj [(''type'', JStr ''FactSet''),
                 (''facts'', JArr [fact ''Function'' function_id, fact ''Action class'' action_class,
                    fact ''Autonomy level'' (int_str level),
                    fact ''Preview reference'' (or_else reference ''(none)''),
                    fact ''Link expires'' expires])],
           JObj [(''type'', JStr ''TextBlock''), (''id'', JStr ''preview''), (''wrap'', JBool True),
                 (''text'', JStr (''Preview: '' @ title @
                    (if truthy reference then '' ('' @ the reference @ '')'' else '''')))],
           JObj [(''type'', JStr ''TextBlock''), (''id'', JStr ''evidence-summary''), (''wrap'', JBool True),
                 (''text'', JStr (''Evidence: '' @ evidence))],
           JObj [(''type'', JStr ''TextBlock''), (''isSubtle'', JBool True), (''wrap'', JBool True),
                 (''text'', JStr (''These links are single-use and expire within 24h. You will be '' @
                    ''asked to sign in; the approver recorded is the signed-in '' @
                    ''identity, not whoever holds this link.''))]];
         action = (\<lambda>t u. jobj_text [(''type'', ''Action.OpenUrl''), (''title'', t), (''url'', u)])
     in JObj [(''type'', JStr ''message''),
              (''attachments'', JArr [JObj
                 [(''contentType'', JStr ''application/vnd.microsoft.card.adaptive''),
                  (''contentUrl'', JNull),
                  (''content'', JObj
                     [(''$schema'', JStr ''http://adaptivecards.io/schemas/adaptive-card.json''),
                      (''type'', JStr ''AdaptiveCard''), (''version'', JStr ''1.4''),
                      (''body'', JArr body),
                      (''actions'', JArr [action ''Approve'' approve_url, action ''Reject'' reject_url])])]])])"

text \<open>Inl when the call to the webhook raises.\<close>

definition dispatch_approval_request :: "gk_env \<Rightarrow> approval_row \<Rightarrow> string + string" where
  "dispatch_approval_request env ap =
    (if \<not> truthy (ge_webhook env) then Inr ''inbox''
     else
       let card = build_adaptive_card (ap_function ap) (ap_action ap) (ap_level ap) (ap_title ap)
                    (ap_reference ap) (ap_evidence ap)
                    (approval_action_url (ge_base_url env) (ap_link ap) ''approve'')
                    (approval_action_url (ge_base_url env) (ap_link ap) ''reject'')
                    (ge_iso env (ap_expires ap))
       in if ge_post env (the (ge_webhook env)) card then Inr ''teams'' else Inl ''HTTPError'')"

section \<open>POST /gate-check\<close>

record gate_check_request =
  gr_agent_run_id :: string
  gr_function_id :: string
  gr_action_class :: string
  gr_content_hash :: "string option"
  gr_preview_title :: "string option"
  gr_preview_reference :: "string option"
  gr_evidence_summary :: "string option"
  gr_subject :: "string option"

record gate_check_response =
  gc_decision :: row_id
  gc_agent_run :: nat
  gc_outcome :: string
  gc_reason :: "string option"
  gc_level :: int
  gc_function :: string
  gc_action :: string
  gc_token :: "string option"
  gc_route :: "string option"
  gc_approval :: "row_id option"
  gc_approve_url :: "string option"
  gc_reject_url :: "string option"
  gc_expires :: "instant option"

definition preview_title :: "gate_check_request \<Rightarrow> string" where
  "preview_title rq = or_else (gr_preview_title rq)
     (gr_function_id rq @ '' ('' @ gr_action_class rq @ '')'')"

definition evidence_summary :: "gate_check_request \<Rightarrow> string" where
  "evidence_summary rq = or_else (gr_evidence_summary rq)
     (''Autonomy policy requires human approval for '' @ gr_function_id rq @ '' / '' @
      gr_action_class rq @ ''. Bound content hash: '' @
      or_else (gr_content_hash rq) ''(none supplied)'' @ ''.'')"

definition decision_response ::
    "gk_env \<Rightarrow> gate_decision \<Rightarrow> int \<Rightarrow> gate_check_request \<Rightarrow> string option \<Rightarrow>
     (approval_row \<times> string) option \<Rightarrow> gate_check_response" where
  "decision_response env d level rq token approval =
    \<lparr>gc_decision = gd_id d, gc_agent_run = gd_agent_run d, gc_outcome = gd_outcome d,
     gc_reason = gd_reason d, gc_level = level, gc_function = gr_function_id rq,
     gc_action = gr_action_class rq, gc_token = token, gc_route = map_option snd approval,
     gc_approval = map_option (ap_id \<circ> fst) approval,
     gc_approve_url = map_option (\<lambda>(a, _). approval_action_url (ge_base_url env) (ap_link a) ''approve'') approval,
     gc_reject_url = map_option (\<lambda>(a, _). approval_action_url (ge_base_url env) (ap_link a) ''reject'') approval,
     gc_expires = map_option (ap_expires \<circ> fst) approval\<rparr>"

definition approval_required_reason :: "int \<Rightarrow> string option" where
  "approval_required_reason level =
    (if level = 1 then Some ''level_1_requires_approval''
     else if level = 2 then Some ''level_2_requires_approval'' else None)"

text \<open>The approving tail: one approved row, then the token.\<close>

definition approve_and_issue ::
    "gk_env \<Rightarrow> fresh_ids \<Rightarrow> instant \<Rightarrow> gate_check_request \<Rightarrow> int \<Rightarrow> string \<Rightarrow> string \<Rightarrow> gov_db \<Rightarrow>
     (unit, gate_check_response) reply \<times> gov_db" where
  "approve_and_issue env fr now rq level who reason db =
    (case insert_gate_decision (fr_decision fr) now (ge_pg_uuid env (gr_agent_run_id rq)) who
            ''approved'' (Some reason) db of
       Inl e \<Rightarrow> (Inl (Crashed e), db)
     | Inr (d, db') \<Rightarrow>
         (let (token, _) = issue_gate_token (ge_alg env) (ge_sign env) (ge_issuer env) (ge_audience env)
                 (ge_token_ttl env) (gd_id d) (or_else (gr_subject rq) (gr_agent_run_id rq))
                 (or_else (gr_content_hash rq) []) (gr_function_id rq) (now div 1000000) (fr_jti fr)
          in (Inr (decision_response env d level rq (Some token) None), db')))"

text \<open>The refusing branches: one rejected row and no token.\<close>

definition reject_with ::
    "gk_env \<Rightarrow> fresh_ids \<Rightarrow> instant \<Rightarrow> gate_check_request \<Rightarrow> int \<Rightarrow> string \<Rightarrow> string option \<Rightarrow> gov_db \<Rightarrow>
     (unit, gate_check_response) reply \<times> gov_db" where
  "reject_with env fr now rq level who reason db =
    (case insert_gate_decision (fr_decision fr) now (ge_pg_uuid env (gr_agent_run_id rq)) who
            ''rejected'' reason db of
       Inl e \<Rightarrow> (Inl (Crashed e), db)
     | Inr (d, db') \<Rightarrow> (Inr (decision_response env d level rq None None), db'))"

text \<open>The escalating branch: one escalated row, one inbox row, then the delivery.\<close>

definition escalate ::
    "gk_env \<Rightarrow> fresh_ids \<Rightarrow> instant \<Rightarrow> gate_check_request \<Rightarrow> int \<Rightarrow> string \<Rightarrow> gov_db \<Rightarrow>
     (unit, gate_check_response) reply \<times> gov_db" where
  "escalate env fr now rq level reason db =
    (case insert_gate_decision (fr_decision fr) now (ge_pg_uuid env (gr_agent_run_id rq))
            ''gatekeeper:policy'' ''escalated'' (Some reason) db of
       Inl e \<Rightarrow> (Inl (Crashed e), db)
     | Inr (d, db1) \<Rightarrow>
         (case create_approval_request (fr_inbox fr) (fr_link fr) now (ge_link_ttl env) (Some (gd_id d))
                 (gd_agent_run d) (gr_function_id rq) (gr_action_class rq) level (gr_content_hash rq)
                 (preview_title rq) (gr_preview_reference rq) (evidence_summary rq) db1 of
            Inl e \<Rightarrow> (Inl (Crashed e), db1)
          | Inr (ap, db2) \<Rightarrow>
              (case dispatch_approval_request env ap of
                 Inl e \<Rightarrow> (Inl (Crashed e), db2)
               | Inr route \<Rightarrow> (Inr (decision_response env d level rq None (Some (ap, route))), db2))))"

definition gate_check ::
    "gk_env \<Rightarrow> fresh_ids \<Rightarrow> instant \<Rightarrow> gate_check_request \<Rightarrow> gov_db \<Rightarrow>
     (unit, gate_check_response) reply \<times> gov_db" where
  "gate_check env fr now rq db =
    (if py_uuid (gr_agent_run_id rq) = None then (Inl (Refused 400 ''agent_run_id must be a uuid''), db)
     else
       let level = level_for (ge_policy env) (gr_function_id rq) (gr_action_class rq);
           status = is_blocked db (Some (gr_function_id rq))
       in if kst_blocked status
          then reject_with env fr now rq level ''gatekeeper:kill-switch'' (audit_reason status) db
          else if level = 0
          then reject_with env fr now rq level ''gatekeeper:policy'' (Some ''level_0_blocked'') db
          else (case approval_required_reason level of
            Some reason \<Rightarrow>
              (case ge_pg_uuid env (gr_agent_run_id rq) of
                 None \<Rightarrow> (Inl (Crashed ''InvalidTextRepresentation''), db)
               | Some run \<Rightarrow>
                   (case latest_approved db run (gr_function_id rq) (gr_content_hash rq) of
                      None \<Rightarrow> escalate env fr now rq level reason db
                    | Some prior \<Rightarrow>
                        approve_and_issue env fr now rq level (or_else (ap_decided_by prior) ''unknown'')
                          (''level_'' @ int_str level @ ''_approved_by_human'') db))
          | None \<Rightarrow>
              if level = 3
              then approve_and_issue env fr now rq level ''gatekeeper:policy'' ''level_3_auto_approved'' db
              else if level = 4
              then approve_and_issue env fr now rq level ''gatekeeper:policy''
                     ''level_4_autonomous_passthrough'' db
              else (Inl (Refused 500 ''unhandled autonomy level''), db)))"

end
