(* ===== verification/Gatekeeper_Actions.thy ===== *)
theory Gatekeeper_Actions
  imports Gatekeeper
begin

text \<open>The externally reachable route GET /approval-action/{link_token}
(routers/approval_action.py) and the kill-switch routes
(routers/kill_switch.py) of services/gatekeeper. The approval route is split at
the point where another request can run in between: \<open>approval_read\<close> looks the
link up, \<open>approval_decide\<close> acts on the row as it was read.\<close>

section \<open>GET /approval-action\<close>

record approval_body =
  ab_outcome :: string
  ab_reason :: string
  ab_approval :: "row_id option"
  ab_decision :: "row_id option"
  ab_decided_by :: "string option"

definition require_principal :: "headers \<Rightarrow> (approval_body, principal) reply" where
  "require_principal hs =
    (case principal_from_headers hs of
       Inl e \<Rightarrow> Inl (Crashed e)
     | Inr None \<Rightarrow> Inl (Refused 401 ''no authenticated principal on this request'')
     | Inr (Some p) \<Rightarrow> Inr p)"

definition approval_read ::
    "headers \<Rightarrow> string \<Rightarrow> gov_db \<Rightarrow> (approval_body, principal \<times> approval_row) reply" where
  "approval_read hs link_token db =
    (case require_principal hs of
       Inl e \<Rightarrow> Inl e
     | Inr p \<Rightarrow>
         (case get_by_link_token db link_token of
            None \<Rightarrow> Inl (Refused 404 ''approval link not found'')
          | Some ap \<Rightarrow> Inr (p, ap)))"

definition link_refusal ::
    "principal \<Rightarrow> approval_row \<Rightarrow> nat \<Rightarrow> string \<Rightarrow> row_id option \<Rightarrow> string option \<Rightarrow> gov_db \<Rightarrow>
     (approval_body, approval_body) reply \<times> gov_db" where
  "link_refusal p ap code outcome decision who db =
    (Inl (RefusedWith code \<lparr>ab_outcome = outcome, ab_reason = outcome, ab_approval = Some (ap_id ap),
            ab_decision = decision, ab_decided_by = who\<rparr>),
     record_approval_action (Some (ap_id ap)) (ap_decision ap) outcome outcome
       (Some (pr_id p)) (pr_name p) db)"

definition approval_decide ::
    "(row_id \<times> instant) \<Rightarrow> principal \<Rightarrow> approval_row \<Rightarrow> bool \<Rightarrow> gov_db \<Rightarrow>
     (approval_body, approval_body) reply \<times> gov_db" where
  "approval_decide idn p ap approve db =
    (let (new_id, now) = idn;
         outcome = (if approve then ''approved'' else ''rejected'');
         reason = (if approve then ''approval_link_approved'' else ''approval_link_rejected'')
     in if ap_consumed ap \<noteq> None
        then link_refusal p ap 409 ''link_already_used'' (ap_decision ap) (ap_decided_by ap) db
        else if ap_expires ap \<le> now
        then link_refusal p ap 410 ''link_expired'' None None (snd (mark_expired (ap_id ap) db))
        else
          (case consume_link (ap_id ap) (if approve then STATUS_APPROVED else STATUS_REJECTED)
                  (decided_by p) None now db of
             (None, db1) \<Rightarrow> link_refusal p ap 409 ''link_already_used'' None None db1
           | (Some _, db1) \<Rightarrow>
               (case insert_gate_decision new_id now (Some (ap_agent_run ap)) (decided_by p) outcome
                       (Some reason) db1 of
                  Inl e \<Rightarrow> (Inl (Crashed e), db1)
                | Inr (d, db2) \<Rightarrow>
                    (Inr \<lparr>ab_outcome = outcome, ab_reason = reason, ab_approval = Some (ap_id ap),
                          ab_decision = Some (gd_id d), ab_decided_by = Some (decided_by p)\<rparr>,
                     record_approval_action (Some (ap_id ap)) (Some (gd_id d)) outcome reason
                       (Some (pr_id p)) (pr_name p) (link_decision (ap_id ap) (gd_id d) db2)))))"

text \<open>The whole request with nothing in between; the query pattern admits the two
choices only.\<close>

definition approval_action ::
    "(row_id \<times> instant) \<Rightarrow> headers \<Rightarrow> string \<Rightarrow> string \<Rightarrow> gov_db \<Rightarrow>
     (approval_body, approval_body) reply \<times> gov_db" where
  "approval_action idn hs link_token choice db =
    (if choice \<noteq> ''approve'' \<and> choice \<noteq> ''reject'' then (Inl (Refused 422 ''choice''), db)
     else (case approval_read hs link_token db of
       Inl e \<Rightarrow> (Inl e, db)
     | Inr (p, ap) \<Rightarrow> approval_decide idn p ap (choice = ''approve'') db))"

section \<open>Kill-switch routes\<close>

record switch_state =
  sw_active :: bool
  sw_reason :: "string option"
  sw_scope :: string

record switch_audit =
  sa_id :: row_id
  sa_active :: bool
  sa_reason :: "string option"
  sa_operator :: "string option"
  sa_decided_at :: instant

definition newest_global :: "kill_switch_row \<Rightarrow> kill_switch_row \<Rightarrow> bool" where
  "newest_global a b \<longleftrightarrow> ks_created b < ks_created a"

definition get_global_state :: "gov_db \<Rightarrow> kill_switch_row option" where
  "get_global_state db =
    first_by newest_global (filter (\<lambda>r. ks_scope r = GlobalScope) (db_switches db))"

text \<open>The toggle reads the id and then writes, in two statements: \<open>toggle_write\<close> takes
the id as it was read.\<close>

definition toggle_write ::
    "(row_id \<times> instant) \<Rightarrow> row_id option \<Rightarrow> bool \<Rightarrow> string \<Rightarrow> string \<Rightarrow> gov_db \<Rightarrow> gov_db" where
  "toggle_write idn existing active reason who db =
    (case existing of
       Some i \<Rightarrow>
         db\<lparr>db_switches := update_where (\<lambda>r. ks_id r = i)
             (\<lambda>r. r\<lparr>ks_active := active, ks_reason := Some reason, ks_decided_by := Some who,
                    ks_updated := snd idn\<rparr>) (db_switches db)\<rparr>
     | None \<Rightarrow>
         db\<lparr>db_switches := db_switches db @
             [\<lparr>ks_id = fst idn, ks_scope = GlobalScope, ks_function = None, ks_active = active,
               ks_reason = Some reason, ks_decided_by = Some who, ks_created = snd idn,
               ks_updated = snd idn\<rparr>]\<rparr>)"

definition toggle_global ::
    "(row_id \<times> instant) \<Rightarrow> bool \<Rightarrow> string \<Rightarrow> string \<Rightarrow> gov_db \<Rightarrow> gov_db" where
  "toggle_global idn active reason who db =
    toggle_write idn (map_option ks_id (get_global_state db)) active reason who db"

definition state_body :: "kill_switch_row option \<Rightarrow> switch_state" where
  "state_body row =
    (case row of
       None \<Rightarrow> \<lparr>sw_active = False, sw_reason = None, sw_scope = ''global''\<rparr>
     | Some r \<Rightarrow> \<lparr>sw_active = ks_active r, sw_reason = ks_reason r, sw_scope = ''global''\<rparr>)"

definition get_kill_switch :: "gov_db \<Rightarrow> switch_state" where
  "get_kill_switch db = state_body (get_global_state db)"

definition post_kill_switch_toggle ::
    "(row_id \<times> instant) \<Rightarrow> bool \<Rightarrow> string \<Rightarrow> string \<Rightarrow> gov_db \<Rightarrow> switch_state \<times> gov_db" where
  "post_kill_switch_toggle idn active reason operator db =
    (\<lparr>sw_active = active, sw_reason = Some reason, sw_scope = ''global''\<rparr>,
     toggle_global idn active reason operator db)"

definition get_kill_switch_audit_last :: "gov_db \<Rightarrow> (unit, switch_audit) reply" where
  "get_kill_switch_audit_last db =
    (case get_global_state db of
       Some r \<Rightarrow>
         if ks_decided_by r = None then Inl (Refused 404 ''the global kill switch has never been toggled'')
         else Inr \<lparr>sa_id = ks_id r, sa_active = ks_active r, sa_reason = ks_reason r,
                   sa_operator = ks_decided_by r, sa_decided_at = ks_updated r\<rparr>
     | None \<Rightarrow> Inl (Refused 404 ''the global kill switch has never been toggled''))"

end
