(* ===== verification/Gatekeeper_Props.thy ===== *)
theory Gatekeeper_Props
  imports Gatekeeper_Actions
begin

text \<open>Lemmas about the Gatekeeper operations: what each statement does to the tables,
which tables a route may touch, and which rows it appends.\<close>

section \<open>Effects of single statements\<close>

lemma insert_decision_result:
  "insert_gate_decision i now run who oc reason db = Inr (d, db') \<Longrightarrow>
     \<exists>r. run = Some r \<and> r \<in> set (db_agent_runs db) \<and> oc \<in> set VALID_OUTCOMES \<and>
       d = \<lparr>gd_id = i, gd_agent_run = r, gd_decided_by = who, gd_outcome = oc, gd_reason = reason,
            gd_decided_at = now\<rparr> \<and>
       db' = db\<lparr>db_decisions := db_decisions db @ [d]\<rparr>"
  by (auto simp: insert_gate_decision_def Let_def split: if_splits option.splits)

lemma insert_decision_error:
  "insert_gate_decision i now run who oc reason db = Inl e \<Longrightarrow> oc \<in> set VALID_OUTCOMES \<Longrightarrow>
     run = None \<or> (\<exists>r. run = Some r \<and> r \<notin> set (db_agent_runs db))"
  by (auto simp: insert_gate_decision_def Let_def split: if_splits option.splits)

lemma insert_decision_ok:
  "run \<in> set (db_agent_runs db) \<Longrightarrow> oc \<in> set VALID_OUTCOMES \<Longrightarrow>
   insert_gate_decision i now (Some run) who oc reason db =
     Inr (\<lparr>gd_id = i, gd_agent_run = run, gd_decided_by = who, gd_outcome = oc, gd_reason = reason,
           gd_decided_at = now\<rparr>,
          db\<lparr>db_decisions := db_decisions db @ [\<lparr>gd_id = i, gd_agent_run = run, gd_decided_by = who,
            gd_outcome = oc, gd_reason = reason, gd_decided_at = now\<rparr>]\<rparr>)"
  by (simp add: insert_gate_decision_def Let_def)

lemma create_request_result:
  "create_approval_request i link now ttl gd run f a level h t rf ev db = Inr (ap, db') \<Longrightarrow>
     ap_id ap = i \<and> ap_link ap = link \<and> ap_status ap = STATUS_PENDING \<and> ap_consumed ap = None \<and>
     ap_agent_run ap = run \<and> ap_function ap = f \<and> ap_action ap = a \<and> ap_content_hash ap = h \<and>
     ap_expires ap = now + seconds ttl \<and> ap_created ap = now \<and> ap_decision ap = gd \<and>
     link \<notin> ap_link ` set (db_inbox db) \<and> db' = db\<lparr>db_inbox := db_inbox db @ [ap]\<rparr>"
  by (auto simp: create_approval_request_def Let_def split: if_splits)

lemma latest_approved_sound:
  "latest_approved db run f h = Some r \<Longrightarrow>
     r \<in> set (db_inbox db) \<and> request_matches run f h r \<and> ap_status r = STATUS_APPROVED"
  unfolding latest_approved_def by (drule first_by_mem) simp

lemma latest_approved_None:
  "latest_approved db run f h = None \<longleftrightarrow>
     (\<forall>r\<in>set (db_inbox db). request_matches run f h r \<longrightarrow> ap_status r \<noteq> STATUS_APPROVED)"
  by (auto simp: latest_approved_def filter_empty_conv)

section \<open>gate_check, branch by branch\<close>

lemma outcome_texts [simp]:
  "''approved'' \<in> set VALID_OUTCOMES" "''rejected'' \<in> set VALID_OUTCOMES" "''escalated'' \<in> set VALID_OUTCOMES"
  by (simp_all add: VALID_OUTCOMES_def)

lemma gate_check_bad_uuid:
  "py_uuid (gr_agent_run_id rq) = None \<Longrightarrow>
   gate_check env fr now rq db = (Inl (Refused 400 ''agent_run_id must be a uuid''), db)"
  by (simp add: gate_check_def)

lemma gate_check_blocked:
  "py_uuid (gr_agent_run_id rq) \<noteq> None \<Longrightarrow> kst_blocked (is_blocked db (Some (gr_function_id rq))) \<Longrightarrow>
   gate_check env fr now rq db =
     reject_with env fr now rq (level_for (ge_policy env) (gr_function_id rq) (gr_action_class rq))
       ''gatekeeper:kill-switch'' (audit_reason (is_blocked db (Some (gr_function_id rq)))) db"
  by (auto simp: gate_check_def Let_def)

text \<open>What a successful approving tail did.\<close>

lemma approve_and_issue_ok:
  "approve_and_issue env fr now rq level who reason db = (Inr resp, db') \<Longrightarrow>
   \<exists>run d. ge_pg_uuid env (gr_agent_run_id rq) = Some run \<and> run \<in> set (db_agent_runs db) \<and>
     d = \<lparr>gd_id = fr_decision fr, gd_agent_run = run, gd_decided_by = who, gd_outcome = ''approved'',
          gd_reason = Some reason, gd_decided_at = now\<rparr> \<and>
     db' = db\<lparr>db_decisions := db_decisions db @ [d]\<rparr> \<and>
     gc_outcome resp = ''approved'' \<and> gc_reason resp = Some reason \<and> gc_decision resp = fr_decision fr \<and>
     gc_token resp = Some (sign_claims (ge_alg env) (ge_sign env)
       (build_claims (ge_issuer env) (ge_audience env) (ge_token_ttl env) (fr_decision fr)
          (or_else (gr_subject rq) (gr_agent_run_id rq)) (or_else (gr_content_hash rq) [])
          (gr_function_id rq) (now div 1000000) (fr_jti fr)))"
  by (auto simp: approve_and_issue_def issue_gate_token_def decision_response_def Let_def
      split: sum.splits dest!: insert_decision_result)

lemma approve_and_issue_crash:
  "approve_and_issue env fr now rq level who reason db = (Inl e, db') \<Longrightarrow> db' = db \<and> (\<exists>t. e = Crashed t)"
  by (auto simp: approve_and_issue_def issue_gate_token_def Let_def split: sum.splits)

lemma reject_with_ok:
  "reject_with env fr now rq level who reason db = (Inr resp, db') \<Longrightarrow>
   \<exists>run d. ge_pg_uuid env (gr_agent_run_id rq) = Some run \<and> run \<in> set (db_agent_runs db) \<and>
     d = \<lparr>gd_id = fr_decision fr, gd_agent_run = run, gd_decided_by = who, gd_outcome = ''rejected'',
          gd_reason = reason, gd_decided_at = now\<rparr> \<and>
     db' = db\<lparr>db_decisions := db_decisions db @ [d]\<rparr> \<and>
     gc_outcome resp = ''rejected'' \<and> gc_reason resp = reason \<and> gc_token resp = None"
  by (auto simp: reject_with_def decision_response_def split: sum.splits dest!: insert_decision_result)

lemma reject_with_crash:
  "reject_with env fr now rq level who reason db = (Inl e, db') \<Longrightarrow> db' = db \<and> (\<exists>t. e = Crashed t)"
  by (auto simp: reject_with_def split: sum.splits)

text \<open>The escalating branch: nothing, an escalated row alone (the inbox insert failed),
or an escalated row and a pending row; the reply is a body only in the last case.\<close>

definition escalated_row :: "gate_check_request \<Rightarrow> fresh_ids \<Rightarrow> instant \<Rightarrow> string \<Rightarrow> nat \<Rightarrow> gate_decision" where
  "escalated_row rq fr now reason run = \<lparr>gd_id = fr_decision fr, gd_agent_run = run,
     gd_decided_by = ''gatekeeper:policy'', gd_outcome = ''escalated'', gd_reason = Some reason,
     gd_decided_at = now\<rparr>"

definition pending_row :: "gk_env \<Rightarrow> gate_check_request \<Rightarrow> fresh_ids \<Rightarrow> instant \<Rightarrow> nat \<Rightarrow> approval_row \<Rightarrow> bool" where
  "pending_row env rq fr now run ap \<longleftrightarrow>
     ap_id ap = fr_inbox fr \<and> ap_link ap = fr_link fr \<and> ap_status ap = STATUS_PENDING \<and>
     ap_consumed ap = None \<and> ap_agent_run ap = run \<and> ap_function ap = gr_function_id rq \<and>
     ap_action ap = gr_action_class rq \<and> ap_content_hash ap = gr_content_hash rq \<and>
     ap_expires ap = now + seconds (ge_link_ttl env) \<and> ap_created ap = now \<and>
     ap_decision ap = Some (fr_decision fr)"

lemma escalate_cases:
  assumes "escalate env fr now rq level reason db = (rep, db')"
  obtains
    (nothing) e where "rep = Inl (Crashed e)" "db' = db"
  | (half) e run where "rep = Inl (Crashed e)" "ge_pg_uuid env (gr_agent_run_id rq) = Some run"
      "run \<in> set (db_agent_runs db)"
      "db' = db\<lparr>db_decisions := db_decisions db @ [escalated_row rq fr now reason run]\<rparr>"
  | (full) run ap where "ge_pg_uuid env (gr_agent_run_id rq) = Some run" "run \<in> set (db_agent_runs db)"
      "pending_row env rq fr now run ap" "fr_link fr \<notin> ap_link ` set (db_inbox db)"
      "db' = db\<lparr>db_decisions := db_decisions db @ [escalated_row rq fr now reason run],
               db_inbox := db_inbox db @ [ap]\<rparr>"
      "(\<exists>e. rep = Inl (Crashed e)) \<or>
       (\<exists>resp. rep = Inr resp \<and> gc_outcome resp = ''escalated'' \<and> gc_reason resp = Some reason \<and>
               gc_token resp = None \<and> gc_approval resp = Some (fr_inbox fr))"
proof -
  let ?ins = "insert_gate_decision (fr_decision fr) now (ge_pg_uuid env (gr_agent_run_id rq))
      ''gatekeeper:policy'' ''escalated'' (Some reason) db"
  show ?thesis
  proof (cases ?ins)
    case (Inl e)
    with assms have "rep = Inl (Crashed e)" "db' = db" by (simp_all add: escalate_def)
    then show ?thesis by (rule nothing)
  next
    case (Inr r)
    obtain d db1 where r: "r = (d, db1)" by (cases r)
    from insert_decision_result[OF Inr[unfolded r]] obtain run where
      run: "ge_pg_uuid env (gr_agent_run_id rq) = Some run" "run \<in> set (db_agent_runs db)"
      and d: "d = escalated_row rq fr now reason run"
      and db1: "db1 = db\<lparr>db_decisions := db_decisions db @ [d]\<rparr>"
      by (auto simp: escalated_row_def)
    let ?cr = "create_approval_request (fr_inbox fr) (fr_link fr) now (ge_link_ttl env) (Some (gd_id d))
                 (gd_agent_run d) (gr_function_id rq) (gr_action_class rq) level (gr_content_hash rq)
                 (preview_title rq) (gr_preview_reference rq) (evidence_summary rq) db1"
    show ?thesis
    proof (cases ?cr)
      case (Inl e)
      with assms \<open>?ins = Inr r\<close> r d db1 have "rep = Inl (Crashed e)"
        "db' = db\<lparr>db_decisions := db_decisions db @ [escalated_row rq fr now reason run]\<rparr>"
        by (simp_all add: escalate_def)
      with run show ?thesis by (intro half)
    next
      case cr: (Inr q)
      obtain ap db2 where q: "q = (ap, db2)" by (cases q)
      note created = create_request_result[OF cr[unfolded q]]
      have ap: "pending_row env rq fr now run ap" "fr_link fr \<notin> ap_link ` set (db_inbox db)"
        using created d db1 by (auto simp: pending_row_def escalated_row_def)
      have db2: "db2 = db\<lparr>db_decisions := db_decisions db @ [escalated_row rq fr now reason run],
               db_inbox := db_inbox db @ [ap]\<rparr>"
        using created d db1 by simp
      have rep: "(rep, db') = (case dispatch_approval_request env ap of
                 Inl e \<Rightarrow> (Inl (Crashed e), db2)
               | Inr route \<Rightarrow> (Inr (decision_response env d level rq None (Some (ap, route))), db2))"
        using assms \<open>?ins = Inr r\<close> r cr q by (simp add: escalate_def)
      then have "db' = db2" "(\<exists>e. rep = Inl (Crashed e)) \<or>
         (\<exists>resp. rep = Inr resp \<and> gc_outcome resp = ''escalated'' \<and> gc_reason resp = Some reason \<and>
                 gc_token resp = None \<and> gc_approval resp = Some (fr_inbox fr))"
        using d created by (auto simp: decision_response_def escalated_row_def split: sum.splits)
      with run ap db2 show ?thesis by (intro full) simp_all
    qed
  qed
qed

section \<open>The decision table\<close>

text \<open>The contract of /gate-check: outcome and reason as a function of the kill-switch
status, the level and whether a human approved this run, function and content.\<close>

definition gate_spec :: "kill_switch_status \<Rightarrow> int \<Rightarrow> bool \<Rightarrow> string \<times> string option" where
  "gate_spec status level approved =
    (if kst_blocked status then (''rejected'', audit_reason status)
     else if level = 0 then (''rejected'', Some ''level_0_blocked'')
     else if level = 1 \<or> level = 2 then
       (if approved then (''approved'', Some (''level_'' @ int_str level @ ''_approved_by_human''))
        else (''escalated'', Some (''level_'' @ int_str level @ ''_requires_approval'')))
     else if level = 3 then (''approved'', Some ''level_3_auto_approved'')
     else (''approved'', Some ''level_4_autonomous_passthrough''))"

definition gate_level :: "gk_env \<Rightarrow> gate_check_request \<Rightarrow> int" where
  "gate_level env rq = level_for (ge_policy env) (gr_function_id rq) (gr_action_class rq)"

definition gate_status :: "gov_db \<Rightarrow> gate_check_request \<Rightarrow> kill_switch_status" where
  "gate_status db rq = is_blocked db (Some (gr_function_id rq))"

lemma int_str_12: "int_str 1 = ''1''" "int_str 2 = ''2''"
proof -
  have "char_of (49 :: nat) = CHR ''1''" "char_of (50 :: nat) = CHR ''2''"
    by (rule of_char_eqD [symmetric], simp)+
  then show "int_str 1 = ''1''" "int_str 2 = ''2''"
    by (simp_all add: int_str_def nat_str.simps digit_char_def)
qed

text \<open>A request the database accepts: the run's uuid is known to both parsers and
names an agent run, the fresh link token is unused and the delivery succeeds.\<close>

definition accepted_request :: "gk_env \<Rightarrow> fresh_ids \<Rightarrow> nat \<Rightarrow> gate_check_request \<Rightarrow> gov_db \<Rightarrow> bool" where
  "accepted_request env fr run rq db \<longleftrightarrow>
     py_uuid (gr_agent_run_id rq) \<noteq> None \<and> ge_pg_uuid env (gr_agent_run_id rq) = Some run \<and>
     run \<in> set (db_agent_runs db) \<and> fr_link fr \<notin> ap_link ` set (db_inbox db) \<and>
     (truthy (ge_webhook env) \<longrightarrow> (\<forall>card. ge_post env (the (ge_webhook env)) card))"

lemma reject_with_total:
  "ge_pg_uuid env (gr_agent_run_id rq) = Some run \<Longrightarrow> run \<in> set (db_agent_runs db) \<Longrightarrow>
   \<exists>resp db'. reject_with env fr now rq level who reason db = (Inr resp, db') \<and>
     gc_outcome resp = ''rejected'' \<and> gc_reason resp = reason \<and> gc_token resp = None"
  by (simp add: reject_with_def insert_decision_ok decision_response_def)

lemma approve_and_issue_total:
  "ge_pg_uuid env (gr_agent_run_id rq) = Some run \<Longrightarrow> run \<in> set (db_agent_runs db) \<Longrightarrow>
   \<exists>resp db' t. approve_and_issue env fr now rq level who reason db = (Inr resp, db') \<and>
     gc_outcome resp = ''approved'' \<and> gc_reason resp = Some reason \<and> gc_token resp = Some t"
  by (simp add: approve_and_issue_def insert_decision_ok decision_response_def issue_gate_token_def Let_def)

lemma escalate_total:
  assumes "accepted_request env fr run rq db" "0 \<le> level" "level \<le> 4"
  shows "\<exists>resp db'. escalate env fr now rq level reason db = (Inr resp, db') \<and>
     gc_outcome resp = ''escalated'' \<and> gc_reason resp = Some reason \<and> gc_token resp = None"
  using assms
  by (auto simp: accepted_request_def escalate_def insert_decision_ok create_approval_request_def
      dispatch_approval_request_def decision_response_def Let_def)

text \<open>C4: Refinement of the decision contract. For every request the database accepts, under
any validated policy, /gate-check answers with exactly the outcome and reason of the
decision table gate_spec, computed from the live kill-switch status, the policy level
and whether the inbox holds a human approval for this run, function and content; a
gate token accompanies the answer exactly when the outcome is approved.\<close>

theorem gate_check_refines_spec:
  assumes "accepted_request env fr run rq db" and "wf_policy (ge_policy env)"
  shows "\<exists>resp db'. gate_check env fr now rq db = (Inr resp, db') \<and>
    (gc_outcome resp, gc_reason resp) =
      gate_spec (gate_status db rq) (gate_level env rq)
        (latest_approved db run (gr_function_id rq) (gr_content_hash rq) \<noteq> None) \<and>
    (gc_token resp \<noteq> None \<longleftrightarrow> gc_outcome resp = ''approved'')"
proof -
  let ?l = "gate_level env rq" and ?ap = "latest_approved db run (gr_function_id rq) (gr_content_hash rq)"
  note acc = assms(1)[unfolded accepted_request_def]
  have range: "0 \<le> ?l" "?l \<le> 4"
    using level_for_range[OF assms(2)] by (simp_all add: gate_level_def)
  have pg: "ge_pg_uuid env (gr_agent_run_id rq) = Some run" "run \<in> set (db_agent_runs db)"
    and py: "\<exists>u. py_uuid (gr_agent_run_id rq) = Some u" using acc by auto
  note unf = gate_check_def Let_def gate_spec_def gate_level_def[symmetric] gate_status_def[symmetric]
    approval_required_reason_def
  consider "kst_blocked (gate_status db rq)" | "\<not> kst_blocked (gate_status db rq)" "?l = 0"
    | "\<not> kst_blocked (gate_status db rq)" "?l = 1 \<or> ?l = 2" "?ap = None"
    | p where "\<not> kst_blocked (gate_status db rq)" "?l = 1 \<or> ?l = 2" "?ap = Some p"
    | "\<not> kst_blocked (gate_status db rq)" "?l = 3 \<or> ?l = 4"
    using range by fastforce
  then show ?thesis
  proof cases
    case 1
    then have "gate_check env fr now rq db =
        reject_with env fr now rq ?l ''gatekeeper:kill-switch'' (audit_reason (gate_status db rq)) db"
      using py by (auto simp: unf)
    moreover from reject_with_total[OF pg] obtain resp db' where
      "reject_with env fr now rq ?l ''gatekeeper:kill-switch'' (audit_reason (gate_status db rq)) db = (Inr resp, db')"
      "gc_outcome resp = ''rejected''" "gc_reason resp = audit_reason (gate_status db rq)" "gc_token resp = None"
      by blast
    ultimately show ?thesis using 1 by (simp add: gate_spec_def)
  next
    case 2
    then have "gate_check env fr now rq db =
        reject_with env fr now rq ?l ''gatekeeper:policy'' (Some ''level_0_blocked'') db"
      using py by (auto simp: unf)
    moreover from reject_with_total[OF pg] obtain resp db' where
      "reject_with env fr now rq ?l ''gatekeeper:policy'' (Some ''level_0_blocked'') db = (Inr resp, db')"
      "gc_outcome resp = ''rejected''" "gc_reason resp = Some ''level_0_blocked''" "gc_token resp = None"
      by blast
    ultimately show ?thesis using 2 by (simp add: gate_spec_def)
  next
    case 3
    then have "gate_check env fr now rq db =
        escalate env fr now rq ?l (''level_'' @ int_str ?l @ ''_requires_approval'') db"
      using py pg by (auto simp: unf int_str_12)
    with 3 escalate_total[OF assms(1) range] show ?thesis by (fastforce simp: gate_spec_def)
  next
    case 4
    then have "gate_check env fr now rq db =
        approve_and_issue env fr now rq ?l (or_else (ap_decided_by p) ''unknown'')
          (''level_'' @ int_str ?l @ ''_approved_by_human'') db"
      using py pg by (auto simp: unf)
    with 4 approve_and_issue_total[OF pg] show ?thesis by (fastforce simp: gate_spec_def)
  next
    case 5
    then have "gate_check env fr now rq db =
        approve_and_issue env fr now rq ?l ''gatekeeper:policy''
          (if ?l = 3 then ''level_3_auto_approved'' else ''level_4_autonomous_passthrough'') db"
      using py pg by (auto simp: unf)
    with 5 approve_and_issue_total[OF pg] show ?thesis by (fastforce simp: gate_spec_def)
  qed
qed

section \<open>What a gate check may change\<close>

text \<open>The three ways a gate check leaves the database: unchanged, one more decision, or
one more decision and one more pending approval. No other table is touched.\<close>

lemma gate_check_effect:
  assumes "gate_check env fr now rq db = (rep, db')"
  obtains
    (same) "db' = db"
  | (one) d where "db' = db\<lparr>db_decisions := db_decisions db @ [d]\<rparr>" "gd_agent_run d \<in> set (db_agent_runs db)"
      "gd_outcome d \<in> set VALID_OUTCOMES"
  | (asked) d run ap where "db' = db\<lparr>db_decisions := db_decisions db @ [d], db_inbox := db_inbox db @ [ap]\<rparr>"
      "gd_outcome d = ''escalated''" "pending_row env rq fr now run ap" "run \<in> set (db_agent_runs db)"
      "gd_agent_run d = run" "fr_link fr \<notin> ap_link ` set (db_inbox db)"
proof -
  let ?l = "gate_level env rq" and ?st = "gate_status db rq"
  have rej: thesis if "reject_with env fr now rq l who r db = (rep, db')" for l who r
    using that reject_with_crash[of env fr now rq l who r db _ db'] same one
      reject_with_ok[of env fr now rq l who r db _ db']
    by (cases rep) fastforce+
  have app: thesis if "approve_and_issue env fr now rq l who r db = (rep, db')" for l who r
    using that approve_and_issue_crash[of env fr now rq l who r db _ db'] same one
      approve_and_issue_ok[of env fr now rq l who r db _ db']
    by (cases rep) fastforce+
  have esc: thesis if "escalate env fr now rq l r db = (rep, db')" for l r
    using that
  proof (cases rule: escalate_cases)
    case (half e run)
    then show ?thesis by (intro one[of "escalated_row rq fr now r run"]) (simp_all add: escalated_row_def)
  next
    case (full run ap)
    then show ?thesis by (intro asked[where d = "escalated_row rq fr now r run" and run = run and ap = ap]) (simp_all add: escalated_row_def)
  qed (use same in simp)
  show ?thesis
  proof (cases "py_uuid (gr_agent_run_id rq) = None")
    case True
    with assms same show ?thesis by (simp add: gate_check_bad_uuid)
  next
    case False
    then have gc: "gate_check env fr now rq db = (if kst_blocked ?st then
        reject_with env fr now rq ?l ''gatekeeper:kill-switch'' (audit_reason ?st) db
      else if ?l = 0 then reject_with env fr now rq ?l ''gatekeeper:policy'' (Some ''level_0_blocked'') db
      else (case approval_required_reason ?l of
            Some reason \<Rightarrow>
              (case ge_pg_uuid env (gr_agent_run_id rq) of
                 None \<Rightarrow> (Inl (Crashed ''InvalidTextRepresentation''), db)
               | Some run \<Rightarrow>
                   (case latest_approved db run (gr_function_id rq) (gr_content_hash rq) of
                      None \<Rightarrow> escalate env fr now rq ?l reason db
                    | Some prior \<Rightarrow>
                        approve_and_issue env fr now rq ?l (or_else (ap_decided_by prior) ''unknown'')
                          (''level_'' @ int_str ?l @ ''_approved_by_human'') db))
          | None \<Rightarrow>
              if ?l = 3 then approve_and_issue env fr now rq ?l ''gatekeeper:policy'' ''level_3_auto_approved'' db
              else if ?l = 4 then approve_and_issue env fr now rq ?l ''gatekeeper:policy''
                     ''level_4_autonomous_passthrough'' db
              else (Inl (Refused 500 ''unhandled autonomy level''), db)))"
      unfolding gate_check_def Let_def gate_level_def gate_status_def by (simp only: False if_False)
    from assms show ?thesis
      unfolding gc by (auto split: if_splits option.splits intro: rej app esc same)
  qed
qed

lemma gate_check_token:
  assumes "gate_check env fr now rq db = (Inr resp, db')" and "gc_token resp = Some t"
  shows "\<exists>run d. ge_pg_uuid env (gr_agent_run_id rq) = Some run \<and>
     \<not> kst_blocked (gate_status db rq) \<and> gate_level env rq \<noteq> 0 \<and>
     (gate_level env rq \<in> {3, 4} \<or>
      gate_level env rq \<in> {1, 2} \<and>
      (\<exists>ap\<in>set (db_inbox db). ap_status ap = STATUS_APPROVED \<and>
         request_matches run (gr_function_id rq) (gr_content_hash rq) ap)) \<and>
     gd_outcome d = ''approved'' \<and> gd_agent_run d = run \<and> gd_id d = fr_decision fr \<and>
     db' = db\<lparr>db_decisions := db_decisions db @ [d]\<rparr> \<and>
     t = sign_claims (ge_alg env) (ge_sign env)
       (build_claims (ge_issuer env) (ge_audience env) (ge_token_ttl env) (gd_id d)
          (or_else (gr_subject rq) (gr_agent_run_id rq)) (or_else (gr_content_hash rq) [])
          (gr_function_id rq) (now div 1000000) (fr_jti fr))"
proof -
  let ?l = "gate_level env rq"
  have no_rej: "reject_with env fr now rq l who r db \<noteq> (Inr resp, db')" for l who r
    using assms(2) reject_with_ok[of env fr now rq l who r db resp db'] by auto
  have no_esc: "escalate env fr now rq l r db \<noteq> (Inr resp, db')" for l r
    using assms(2) by (auto elim!: escalate_cases)
  obtain run who reason where app: "approve_and_issue env fr now rq ?l who reason db = (Inr resp, db')"
    and st: "\<not> kst_blocked (gate_status db rq)" and l0: "?l \<noteq> 0"
    and auth: "?l \<in> {3, 4} \<or> ?l \<in> {1, 2} \<and> ge_pg_uuid env (gr_agent_run_id rq) = Some run \<and>
       latest_approved db run (gr_function_id rq) (gr_content_hash rq) \<noteq> None"
    using assms(1) no_rej no_esc
    by (auto simp: gate_check_def Let_def gate_level_def gate_status_def approval_required_reason_def
        split: if_splits option.splits)
  from approve_and_issue_ok[OF app] obtain run' where
    run': "ge_pg_uuid env (gr_agent_run_id rq) = Some run'" and
    db': "db' = db\<lparr>db_decisions := db_decisions db @ [\<lparr>gd_id = fr_decision fr, gd_agent_run = run',
       gd_decided_by = who, gd_outcome = ''approved'', gd_reason = Some reason, gd_decided_at = now\<rparr>]\<rparr>"
    "gc_token resp = Some (sign_claims (ge_alg env) (ge_sign env)
       (build_claims (ge_issuer env) (ge_audience env) (ge_token_ttl env) (fr_decision fr)
          (or_else (gr_subject rq) (gr_agent_run_id rq)) (or_else (gr_content_hash rq) [])
          (gr_function_id rq) (now div 1000000) (fr_jti fr)))" by blast
  have "?l \<in> {3, 4} \<or> ?l \<in> {1, 2} \<and> (\<exists>ap\<in>set (db_inbox db). ap_status ap = STATUS_APPROVED \<and>
         request_matches run' (gr_function_id rq) (gr_content_hash rq) ap)"
    using auth run' latest_approved_sound by fastforce
  then show ?thesis using run' db' assms(2) st l0
    by (intro exI[of _ run'] exI[of _ "\<lparr>gd_id = fr_decision fr, gd_agent_run = run',
       gd_decided_by = who, gd_outcome = ''approved'', gd_reason = Some reason, gd_decided_at = now\<rparr>"]) simp
qed

text \<open>Gate tokens are issued only with authority. When /gate-check answers with a
token, no kill switch was active for the function, the policy level is not 0, and
either the level is 3 or 4 or the level is 1 or 2 and the inbox holds an approved
row for this run, function and content hash; the decision row appended for it is an
approved one, and the token is the signature over claims that bind the requested
function and content and name that very row.\<close>

theorem gate_token_authorised:
  assumes "gate_check env fr now rq db = (Inr resp, db')" and "gc_token resp = Some t"
  shows "\<exists>run d. ge_pg_uuid env (gr_agent_run_id rq) = Some run \<and>
     \<not> kst_blocked (gate_status db rq) \<and> gate_level env rq \<noteq> 0 \<and>
     (gate_level env rq \<in> {3, 4} \<or>
      gate_level env rq \<in> {1, 2} \<and>
      (\<exists>ap\<in>set (db_inbox db). ap_status ap = STATUS_APPROVED \<and>
         request_matches run (gr_function_id rq) (gr_content_hash rq) ap)) \<and>
     gd_outcome d = ''approved'' \<and> gd_agent_run d = run \<and> gd_id d = fr_decision fr \<and>
     db' = db\<lparr>db_decisions := db_decisions db @ [d]\<rparr> \<and>
     t = sign_claims (ge_alg env) (ge_sign env)
       (build_claims (ge_issuer env) (ge_audience env) (ge_token_ttl env) (gd_id d)
          (or_else (gr_subject rq) (gr_agent_run_id rq)) (or_else (gr_content_hash rq) [])
          (gr_function_id rq) (now div 1000000) (fr_jti fr))"
  by (rule gate_check_token[OF assms])

end
