(* ===== verification/Approval_Props.thy ===== *)
theory Approval_Props
  imports Gatekeeper_Props
begin

text \<open>The approval link life cycle and the kill-switch toggle: single use under any
interleaving, expiry, the audit row of every click, the authenticated approver,
and what a toggle means for the live kill-switch read.\<close>

section \<open>Links are claimed once\<close>

definition link_taken :: "row_id \<Rightarrow> gov_db \<Rightarrow> bool" where
  "link_taken i db \<longleftrightarrow> (\<forall>r\<in>set (db_inbox db). ap_id r = i \<longrightarrow> ap_consumed r \<noteq> None)"

definition consume_claim :: "row_id \<Rightarrow> string \<times> string \<times> instant \<Rightarrow> gov_db \<Rightarrow> bool \<times> gov_db" where
  "consume_claim i x db = (case x of (status, who, now) \<Rightarrow>
     (fst (consume_link i status who None now db) \<noteq> None, snd (consume_link i status who None now db)))"

lemma find_consumable_None: "List.find (consumable i) rs = None \<longleftrightarrow> (\<forall>r\<in>set rs. ap_id r = i \<longrightarrow> ap_consumed r \<noteq> None)"
  by (auto simp: find_None_iff consumable_def)

lemma taken_cong: "db_inbox db' = db_inbox db \<Longrightarrow> link_taken i db' = link_taken i db"
  by (simp add: link_taken_def)

lemma taken_update:
  assumes "link_taken i db" "\<And>r. ap_id (f r) = ap_id r" "\<And>r. ap_consumed r \<noteq> None \<Longrightarrow> ap_consumed (f r) \<noteq> None"
  shows "link_taken i (db\<lparr>db_inbox := update_where p f (db_inbox db)\<rparr>)"
  unfolding link_taken_def
proof (intro ballI impI)
  fix r assume "r \<in> set (db_inbox (db\<lparr>db_inbox := update_where p f (db_inbox db)\<rparr>))" "ap_id r = i"
  then obtain r0 where "r0 \<in> set (db_inbox db)" "r = (if p r0 then f r0 else r0)"
    by (auto simp: set_update_where)
  moreover from this have "ap_id r0 = i" using assms(2) \<open>ap_id r = i\<close> by (auto split: if_splits)
  ultimately show "ap_consumed r \<noteq> None" using assms(1,3) by (simp add: link_taken_def)
qed

lemma consume_takes: "link_taken i (snd (consume_link i st who gd now db))"
  unfolding link_taken_def
proof (intro ballI impI)
  fix r assume "r \<in> set (db_inbox (snd (consume_link i st who gd now db)))" "ap_id r = i"
  then obtain r0 where "r0 \<in> set (db_inbox db)" "ap_id r0 = i"
    "ap_consumed r = (if consumable i r0 then Some now else ap_consumed r0)"
    by (auto simp: consume_link_def Let_def set_update_where)
  then show "ap_consumed r \<noteq> None" by (auto simp: consumable_def)
qed

lemma consume_keeps: "link_taken i db \<Longrightarrow> link_taken i (snd (consume_link j st who gd now db))"
  unfolding consume_link_def Let_def snd_conv by (erule taken_update) simp_all

interpretation link: claim_once consume_claim link_taken
proof
  fix k k' :: row_id and x :: "string \<times> string \<times> instant" and s
  obtain st who now where x: "x = (st, who, now)" by (cases x)
  show "link_taken k (snd (consume_claim k x s))"
    by (simp add: x consume_claim_def consume_takes)
  show "link_taken k s \<Longrightarrow> \<not> fst (consume_claim k x s)"
    using find_consumable_None[of k "db_inbox s"]
    by (simp add: x consume_claim_def consume_link_def link_taken_def Let_def)
  show "link_taken k s \<Longrightarrow> link_taken k (snd (consume_claim k' x s))"
    by (simp add: x consume_claim_def consume_keeps)
qed

text \<open>Only the decision of a link consumes it; every other statement on the inbox keeps
the consumption mark.\<close>

lemma mark_expired_keeps: "link_taken i db \<Longrightarrow> link_taken i (snd (mark_expired j db))"
  unfolding mark_expired_def Let_def snd_conv by (erule taken_update) simp_all

lemma link_decision_keeps: "link_taken i db \<Longrightarrow> link_taken i (link_decision j d db)"
  unfolding link_decision_def by (erule taken_update) simp_all

lemma record_action_keeps: "link_taken i (record_approval_action a b c d e f db) \<longleftrightarrow> link_taken i db"
  by (simp add: record_approval_action_def link_taken_def)

lemma insert_decision_keeps:
  "insert_gate_decision a b c d e f db = Inr (g, db') \<Longrightarrow> db_inbox db' = db_inbox db"
  by (auto dest!: insert_decision_result)

lemma consume_link_None:
  "consume_link i st who gd now db = (None, db') \<Longrightarrow> db' = db \<and> link_taken i db"
proof -
  assume c: "consume_link i st who gd now db = (None, db')"
  then have none: "List.find (consumable i) (db_inbox db) = None" by (auto simp: consume_link_def Let_def)
  then have "\<forall>r\<in>set (db_inbox db). \<not> consumable i r" by (auto simp: find_None_iff)
  with c none show ?thesis
    by (auto simp: consume_link_def Let_def update_where_id link_taken_def find_consumable_None)
qed

section \<open>One click\<close>

text \<open>The replies of the deciding phase, with the database each leaves.\<close>

lemma decide_ok:
  assumes "approval_decide (i, now) p ap b db = (Inr body, db')"
  shows "ap_consumed ap = None" "now < ap_expires ap" "\<not> link_taken (ap_id ap) db" "link_taken (ap_id ap) db'"
    "\<exists>d. db_decisions db' = db_decisions db @ [d] \<and> gd_id d = i \<and> gd_decided_by d = decided_by p \<and>
       gd_agent_run d = ap_agent_run ap \<and> gd_outcome d = (if b then ''approved'' else ''rejected'')"
    "db_actions db' = db_actions db @ [\<lparr>aa_inbox = Some (ap_id ap), aa_decision = Some i,
       aa_outcome = (if b then ''approved'' else ''rejected''),
       aa_reason = (if b then ''approval_link_approved'' else ''approval_link_rejected''),
       aa_principal_id = Some (pr_id p), aa_principal_name = pr_name p\<rparr>]"
    "ab_decided_by body = Some (decided_by p)" "ab_outcome body = (if b then ''approved'' else ''rejected'')"
proof -
  let ?st = "if b then STATUS_APPROVED else STATUS_REJECTED"
  let ?oc = "if b then ''approved'' else ''rejected''"
  let ?rs = "if b then ''approval_link_approved'' else ''approval_link_rejected''"
  have guards: "ap_consumed ap = None" "now < ap_expires ap"
    using assms by (auto simp: approval_decide_def link_refusal_def Let_def split: if_splits)
  obtain r db1 where c: "consume_link (ap_id ap) ?st (decided_by p) None now db = (Some r, db1)"
    using assms guards by (auto simp: approval_decide_def link_refusal_def Let_def split: if_splits prod.splits option.splits)
  obtain d db2 where ins: "insert_gate_decision i now (Some (ap_agent_run ap)) (decided_by p) ?oc (Some ?rs) db1 = Inr (d, db2)"
    and body: "body = \<lparr>ab_outcome = ?oc, ab_reason = ?rs, ab_approval = Some (ap_id ap),
                          ab_decision = Some (gd_id d), ab_decided_by = Some (decided_by p)\<rparr>"
    and db': "db' = record_approval_action (Some (ap_id ap)) (Some (gd_id d)) ?oc ?rs
                       (Some (pr_id p)) (pr_name p) (link_decision (ap_id ap) (gd_id d) db2)"
    using assms guards c by (cases b) (auto simp: approval_decide_def Let_def split: sum.splits)
  have fst: "fst (consume_claim (ap_id ap) (?st, decided_by p, now) db)" "snd (consume_claim (ap_id ap) (?st, decided_by p, now) db) = db1"
    using c by (simp_all add: consume_claim_def)
  have db1: "db_decisions db1 = db_decisions db" "db_actions db1 = db_actions db"
    using c by (auto simp: consume_link_def Let_def)
  note res = insert_decision_result[OF ins]
  show "\<not> link_taken (ap_id ap) db" using link.claim_refused fst(1) by blast
  have "link_taken (ap_id ap) db1" using link.claim_taken[OF fst(1)] fst(2) by simp
  then have "link_taken (ap_id ap) db2" using taken_cong[OF insert_decision_keeps[OF ins]] by simp
  then show "link_taken (ap_id ap) db'"
    unfolding db' record_action_keeps by (rule link_decision_keeps)
  show "ap_consumed ap = None" "now < ap_expires ap" by (fact guards)+
  show "\<exists>d. db_decisions db' = db_decisions db @ [d] \<and> gd_id d = i \<and> gd_decided_by d = decided_by p \<and>
       gd_agent_run d = ap_agent_run ap \<and> gd_outcome d = ?oc"
    using res db1 by (auto simp: db' record_approval_action_def link_decision_def)
  show "db_actions db' = db_actions db @ [\<lparr>aa_inbox = Some (ap_id ap), aa_decision = Some i,
       aa_outcome = ?oc, aa_reason = ?rs, aa_principal_id = Some (pr_id p), aa_principal_name = pr_name p\<rparr>]"
    using res db1 by (auto simp: db' record_approval_action_def link_decision_def)
  show "ab_decided_by body = Some (decided_by p)" "ab_outcome body = ?oc" using body by simp_all
qed

lemma decide_keeps_taken:
  assumes "link_taken j db"
  shows "link_taken j (snd (approval_decide idn p ap b db))"
proof -
  obtain i now where idn: "idn = (i, now)" by (cases idn)
  let ?st = "if b then STATUS_APPROVED else STATUS_REJECTED"
  obtain c db1 where c: "consume_link (ap_id ap) ?st (decided_by p) None now db = (c, db1)" by fastforce
  have t1: "link_taken j db1" using consume_keeps[OF assms] c by (metis snd_conv)
  have ins: "link_taken j db2" if "insert_gate_decision i now r who oc rs db1 = Inr (d, db2)" for r who oc rs d db2
    using taken_cong[OF insert_decision_keeps[OF that]] t1 by simp
  show ?thesis
    using assms t1
    by (auto simp: idn approval_decide_def link_refusal_def Let_def record_action_keeps c
        intro!: mark_expired_keeps link_decision_keeps intro: ins split: option.splits sum.splits)
qed

text \<open>C5: Approval links are single use under every interleaving. Two clicks on the same
link, each with its own principal and its own choice and each acting on the row as it
read it at any earlier moment, cannot both succeed: once one deciding phase has
succeeded, any later one on that row is refused with link_already_used or link_expired,
whatever other deciding phases ran in between.\<close>

theorem approval_link_single_use:
  assumes "approval_decide idn1 p1 ap1 b1 db = (Inr body, db1)"
      and "ap_id ap2 = ap_id ap1"
      and "db2 = foldl (\<lambda>s (idn, p, ap, b). snd (approval_decide idn p ap b s)) db1 between"
  shows "\<exists>body2 db3. approval_decide idn2 p2 ap2 b2 db2 = (Inl body2, db3) \<and> status_of (Inl body2 :: (approval_body, approval_body) reply) \<in> {409, 410}"
proof -
  obtain i1 n1 where idn1: "idn1 = (i1, n1)" by (cases idn1)
  obtain i2 n2 where idn2: "idn2 = (i2, n2)" by (cases idn2)
  have "link_taken (ap_id ap1) db1" using decide_ok(4) assms(1) idn1 by blast
  then have "link_taken (ap_id ap1) db2"
    unfolding assms(3)
    by (induction between arbitrary: db1) (auto simp: decide_keeps_taken)
  with assms(2) have none: "List.find (consumable (ap_id ap2)) (db_inbox db2) = None"
    by (simp add: find_consumable_None link_taken_def)
  then have "consume_link (ap_id ap2) st who None n2 db2 =
      (None, snd (consume_link (ap_id ap2) st who None n2 db2))" for st who
    by (intro prod_eqI) (simp_all add: consume_link_def Let_def)
  then obtain db4 where lost: "consume_link (ap_id ap2) (if b2 then STATUS_APPROVED else STATUS_REJECTED)
      (decided_by p2) None n2 db2 = (None, db4)" by meson
  show ?thesis
    unfolding approval_decide_def idn2 Let_def prod.case lost option.case link_refusal_def
    by simp
qed

section \<open>A whole click\<close>

definition click_outcome :: "approval_row \<Rightarrow> instant \<Rightarrow> string \<Rightarrow> string" where
  "click_outcome ap now choice =
    (if ap_consumed ap \<noteq> None then ''link_already_used''
     else if ap_expires ap \<le> now then ''link_expired''
     else if choice = ''approve'' then ''approved'' else ''rejected'')"

definition click_status :: "string \<Rightarrow> nat" where
  "click_status outcome =
    (if outcome = ''link_already_used'' then 409 else if outcome = ''link_expired'' then 410 else 200)"

lemma approval_action_known:
  assumes "principal_from_headers hs = Inr (Some p)" "get_by_link_token db tok = Some ap"
      "choice = ''approve'' \<or> choice = ''reject''"
  shows "approval_action idn hs tok choice db = approval_decide idn p ap (choice = ''approve'') db"
  using assms by (auto simp: approval_action_def approval_read_def require_principal_def)

lemma decide_consumes:
  assumes "ap \<in> set (db_inbox db)" "ap_consumed ap = None" "now < ap_expires ap"
      "ap_agent_run ap \<in> set (db_agent_runs db)"
  shows "\<exists>body db'. approval_decide (i, now) p ap b db = (Inr body, db')"
proof -
  let ?st = "if b then STATUS_APPROVED else STATUS_REJECTED"
  let ?oc = "if b then ''approved'' else ''rejected''"
  let ?rs = "if b then ''approval_link_approved'' else ''approval_link_rejected''"
  have "List.find (consumable (ap_id ap)) (db_inbox db) \<noteq> None"
    using assms(1,2) by (auto simp: find_consumable_None)
  then obtain r db1 where c: "consume_link (ap_id ap) ?st (decided_by p) None now db = (Some r, db1)"
    by (auto simp: consume_link_def Let_def)
  then have "db_agent_runs db1 = db_agent_runs db" by (auto simp: consume_link_def Let_def)
  then have run: "ap_agent_run ap \<in> set (db_agent_runs db1)" using assms(4) by simp
  have "?oc \<in> set VALID_OUTCOMES" by (cases b) simp_all
  from insert_decision_ok[OF run this, of i now "decided_by p" "Some ?rs"] obtain d db2 where
    "insert_gate_decision i now (Some (ap_agent_run ap)) (decided_by p) ?oc (Some ?rs) db1 = Inr (d, db2)" by blast
  with assms(2,3) c show ?thesis by (simp add: approval_decide_def Let_def)
qed

lemma decide_refuses:
  assumes "ap_consumed ap \<noteq> None \<or> ap_expires ap \<le> now"
  shows "\<exists>body db' a. approval_decide (i, now) p ap b db = (Inl (RefusedWith (click_status (click_outcome ap now c)) body), db') \<and>
     db_actions db' = db_actions db @ [a] \<and> aa_inbox a = Some (ap_id ap) \<and>
     aa_outcome a = click_outcome ap now c \<and> aa_principal_id a = Some (pr_id p) \<and>
     db_decisions db' = db_decisions db"
proof (cases "ap_consumed ap")
  case None
  with assms show ?thesis
    by (simp add: approval_decide_def link_refusal_def record_approval_action_def mark_expired_def
        click_outcome_def click_status_def Let_def)
next
  case (Some t)
  then show ?thesis
    by (simp add: approval_decide_def link_refusal_def record_approval_action_def
        click_outcome_def click_status_def Let_def)
qed

text \<open>Every click on a known link by a signed-in principal appends exactly one audit
row with the outcome that the row's state, the clock and the choice determine (one of
approved, rejected, link_expired, link_already_used) and the principal of this request,
answers 200, 409 or 410 accordingly, and appends a gate decision exactly when the
outcome is approved or rejected.\<close>

theorem approval_click_audited:
  assumes "principal_from_headers hs = Inr (Some p)" and "get_by_link_token db tok = Some ap"
      and "choice = ''approve'' \<or> choice = ''reject''"
      and "ap_agent_run ap \<in> set (db_agent_runs db)"
  shows "\<exists>rep db' a. approval_action (i, now) hs tok choice db = (rep, db') \<and>
     db_actions db' = db_actions db @ [a] \<and> aa_inbox a = Some (ap_id ap) \<and>
     aa_outcome a = click_outcome ap now choice \<and> aa_principal_id a = Some (pr_id p) \<and>
     status_of rep = click_status (click_outcome ap now choice) \<and>
     length (db_decisions db') = length (db_decisions db) +
       (if click_outcome ap now choice \<in> {''approved'', ''rejected''} then 1 else 0)"
proof (cases "ap_consumed ap \<noteq> None \<or> ap_expires ap \<le> now")
  case True
  then have "click_outcome ap now choice \<notin> {''approved'', ''rejected''}" by (auto simp: click_outcome_def)
  moreover obtain body db' a where
    "approval_decide (i, now) p ap (choice = ''approve'') db
       = (Inl (RefusedWith (click_status (click_outcome ap now choice)) body), db')"
    "db_actions db' = db_actions db @ [a]" "aa_inbox a = Some (ap_id ap)"
    "aa_outcome a = click_outcome ap now choice" "aa_principal_id a = Some (pr_id p)"
    "db_decisions db' = db_decisions db"
    using decide_refuses[OF True] by blast
  ultimately show ?thesis unfolding approval_action_known[OF assms(1-3)] by simp
next
  case False
  have mem: "ap \<in> set (db_inbox db)"
    using assms(2) by (auto simp: get_by_link_token_def find_Some_iff)
  from False have "ap_consumed ap = None" "now < ap_expires ap" by auto
  from decide_consumes[OF mem this assms(4)] obtain body db' where
    ok: "approval_decide (i, now) p ap (choice = ''approve'') db = (Inr body, db')" by blast
  have "click_outcome ap now choice = (if choice = ''approve'' then ''approved'' else ''rejected'')"
    using False by (simp add: click_outcome_def)
  with decide_ok(5,6)[OF ok] ok assms(3) show ?thesis
    unfolding approval_action_known[OF assms(1-3)] by (elim disjE; clarsimp simp: click_status_def)
qed

text \<open>C6: The recorded approver is the authenticated principal of the request and never
the holder of the link. A successful click had a principal in its own headers; that
principal is what the reply, the appended gate decision and the audit row carry; the
link was known, unused and not expired.\<close>

theorem approver_is_authenticated:
  assumes "approval_action (i, now) hs tok choice db = (Inr body, db')"
  shows "\<exists>p ap d. principal_from_headers hs = Inr (Some p) \<and> pr_id p \<noteq> [] \<and>
     ab_decided_by body = Some (decided_by p) \<and> decided_by p \<noteq> [] \<and>
     db_decisions db' = db_decisions db @ [d] \<and> gd_decided_by d = decided_by p \<and>
     gd_outcome d = (if choice = ''approve'' then ''approved'' else ''rejected'') \<and>
     get_by_link_token db tok = Some ap \<and> gd_agent_run d = ap_agent_run ap \<and>
     ap_consumed ap = None \<and> now < ap_expires ap"
proof -
  obtain p ap where p: "principal_from_headers hs = Inr (Some p)" "get_by_link_token db tok = Some ap"
    and c: "choice = ''approve'' \<or> choice = ''reject''"
    using assms
    by (auto simp: approval_action_def approval_read_def require_principal_def
        split: if_splits sum.splits option.splits)
  then have "approval_decide (i, now) p ap (choice = ''approve'') db = (Inr body, db')"
    using assms approval_action_known by simp
  from decide_ok[OF this] p principal_id_nonempty[OF p(1)] decided_by_nonempty show ?thesis by fastforce
qed

section \<open>Kill-switch toggles\<close>

definition global_rows :: "gov_db \<Rightarrow> kill_switch_row list" where
  "global_rows db = filter (\<lambda>r. ks_scope r = GlobalScope) (db_switches db)"

definition one_global :: "gov_db \<Rightarrow> bool" where
  "one_global db \<longleftrightarrow> length (global_rows db) \<le> 1 \<and> distinct (map ks_id (db_switches db))"

definition function_switch_on :: "gov_db \<Rightarrow> string option \<Rightarrow> bool" where
  "function_switch_on db fid \<longleftrightarrow> (\<exists>r\<in>set (db_switches db).
     ks_active r \<and> ks_scope r = FunctionScope \<and> fid \<noteq> None \<and> ks_function r = fid)"

lemma get_global_single: "length (global_rows db) \<le> 1 \<Longrightarrow>
   get_global_state db = (case global_rows db of [] \<Rightarrow> None | r # _ \<Rightarrow> Some r)"
  by (cases "global_rows db" rule: list.exhaust; cases "tl (global_rows db)")
     (simp_all add: get_global_state_def global_rows_def)

lemma toggle_insert:
  assumes "global_rows db = []"
  shows "toggle_global idn active reason who db = db\<lparr>db_switches := db_switches db @
     [\<lparr>ks_id = fst idn, ks_scope = GlobalScope, ks_function = None, ks_active = active,
       ks_reason = Some reason, ks_decided_by = Some who, ks_created = snd idn, ks_updated = snd idn\<rparr>]\<rparr>"
  using get_global_single[of db] assms by (simp add: toggle_global_def toggle_write_def)

lemma toggle_update:
  assumes "global_rows db = [g]" "distinct (map ks_id (db_switches db))"
  obtains xs ys where "db_switches db = xs @ g # ys" "ks_scope g = GlobalScope"
    "\<forall>r\<in>set (xs @ ys). ks_scope r = FunctionScope"
    "toggle_global idn active reason who db = db\<lparr>db_switches :=
       xs @ g\<lparr>ks_active := active, ks_reason := Some reason, ks_decided_by := Some who, ks_updated := snd idn\<rparr> # ys\<rparr>"
proof -
  from assms(1) obtain xs ys where sw: "db_switches db = xs @ g # ys" "ks_scope g = GlobalScope"
    and fs: "\<forall>r\<in>set xs. ks_scope r \<noteq> GlobalScope" "filter (\<lambda>r. ks_scope r = GlobalScope) ys = []"
    unfolding global_rows_def filter_eq_Cons_iff by auto
  then have fun_only: "\<forall>r\<in>set (xs @ ys). ks_scope r = FunctionScope"
    by (auto simp: filter_empty_conv) (metis ks_scope.exhaust)+
  have "\<forall>r\<in>set (xs @ ys). ks_id r \<noteq> ks_id g" using assms(2) sw by (force simp: image_iff)
  then have "update_where (\<lambda>r. ks_id r = ks_id g) f xs = xs" "update_where (\<lambda>r. ks_id r = ks_id g) f ys = ys" for f
    by (auto intro!: update_where_id)
  moreover have "get_global_state db = Some g" using get_global_single[of db] assms(1) by simp
  ultimately have "toggle_global idn active reason who db = db\<lparr>db_switches :=
       xs @ g\<lparr>ks_active := active, ks_reason := Some reason, ks_decided_by := Some who, ks_updated := snd idn\<rparr> # ys\<rparr>"
    by (simp add: toggle_global_def toggle_write_def sw(1) update_where_def)
  with sw fun_only that show thesis by blast
qed

lemma one_global_cases:
  assumes "one_global db"
  obtains "global_rows db = []" | g where "global_rows db = [g]"
  using assms by (cases "global_rows db" rule: list.exhaust; cases "tl (global_rows db)")
    (auto simp: one_global_def)

text \<open>A toggle of the global kill switch takes effect on the very next decision or
publish attempt. While the table holds at most one global row (which a toggle
preserves), after a toggle every function is blocked exactly when the switch was turned
on or a function switch of its own is active, and the state route reports that value.\<close>

theorem toggle_takes_effect:
  assumes "one_global db" and "fst idn \<notin> ks_id ` set (db_switches db)"
  shows "one_global (toggle_global idn active reason who db) \<and>
    (kst_blocked (is_blocked (toggle_global idn active reason who db) fid)
           \<longleftrightarrow> active \<or> function_switch_on db fid) \<and>
    sw_active (get_kill_switch (toggle_global idn active reason who db)) = active"
  using assms(1)
proof (cases rule: one_global_cases)
  case 1
  then have "\<forall>r\<in>set (db_switches db). ks_scope r = FunctionScope"
    by (auto simp: global_rows_def filter_empty_conv) (metis ks_scope.exhaust)
  moreover have one: "one_global (toggle_global idn active reason who db)"
    "global_rows (toggle_global idn active reason who db) =
       [\<lparr>ks_id = fst idn, ks_scope = GlobalScope, ks_function = None, ks_active = active,
       ks_reason = Some reason, ks_decided_by = Some who, ks_created = snd idn, ks_updated = snd idn\<rparr>]"
    using 1 assms by (auto simp: toggle_insert[OF 1] one_global_def global_rows_def)
  ultimately show ?thesis using get_global_single[of "toggle_global idn active reason who db"]
    by (auto simp: is_blocked_iff toggle_insert[OF 1] switch_matches_def function_switch_on_def
        get_kill_switch_def state_body_def)
next
  case (2 g)
  have dist: "distinct (map ks_id (db_switches db))" using assms(1) by (simp add: one_global_def)
  obtain xs ys where sw: "db_switches db = xs @ g # ys" "ks_scope g = GlobalScope"
    "\<forall>r\<in>set (xs @ ys). ks_scope r = FunctionScope"
    and t: "toggle_global idn active reason who db = db\<lparr>db_switches :=
       xs @ g\<lparr>ks_active := active, ks_reason := Some reason, ks_decided_by := Some who, ks_updated := snd idn\<rparr> # ys\<rparr>"
    using toggle_update[OF 2 dist] .
  have none: "filter (\<lambda>r. ks_scope r = GlobalScope) xs = []" "filter (\<lambda>r. ks_scope r = GlobalScope) ys = []"
    using sw(3) by (auto simp: filter_empty_conv)
  have one: "one_global (toggle_global idn active reason who db)"
    "global_rows (toggle_global idn active reason who db) =
       [g\<lparr>ks_active := active, ks_reason := Some reason, ks_decided_by := Some who, ks_updated := snd idn\<rparr>]"
    using dist sw none by (auto simp: t one_global_def global_rows_def)
  then show ?thesis using get_global_single[of "toggle_global idn active reason who db"] sw
    by (auto simp: is_blocked_iff t switch_matches_def function_switch_on_def
        get_kill_switch_def state_body_def)
qed

text \<open>Racing first toggles. The toggle reads the row id and writes in two statements
without a lock: when two requests both read that there is no global row and both turn
the switch on, two global rows exist, and turning the switch off afterwards makes the
state route report it as inactive while every function is still blocked.\<close>

theorem racing_toggles_stay_blocked:
  assumes "global_rows db = []" and "t1 < t2" and "i1 \<noteq> i2"
      and "db2 = toggle_write (i2, t2) None True r2 w2 (toggle_write (i1, t1) None True r1 w1 db)"
      and "db3 = toggle_global idn False r3 w3 db2"
  shows "sw_active (get_kill_switch db3) = False \<and> kst_blocked (is_blocked db3 fid)"
proof -
  let ?a = "\<lparr>ks_id = i1, ks_scope = GlobalScope, ks_function = None, ks_active = True,
       ks_reason = Some r1, ks_decided_by = Some w1, ks_created = t1, ks_updated = t1\<rparr>"
  let ?b = "\<lparr>ks_id = i2, ks_scope = GlobalScope, ks_function = None, ks_active = True,
       ks_reason = Some r2, ks_decided_by = Some w2, ks_created = t2, ks_updated = t2\<rparr>"
  have sw: "db_switches db2 = db_switches db @ [?a, ?b]"
    by (simp add: assms(4) toggle_write_def)
  have f: "filter (\<lambda>r. ks_scope r = GlobalScope) (db_switches db) = []"
    using assms(1) by (simp add: global_rows_def)
  have "get_global_state db2 = Some ?b"
    using assms(2) by (simp add: get_global_state_def sw f newest_global_def)
  then have sw3: "db_switches db3 = update_where (\<lambda>r. ks_id r = i2)
     (\<lambda>r. r\<lparr>ks_active := False, ks_reason := Some r3, ks_decided_by := Some w3, ks_updated := snd idn\<rparr>) (db_switches db2)"
    by (simp add: assms(5) toggle_global_def toggle_write_def)
  have fun_only: "\<forall>r\<in>set (db_switches db). ks_scope r \<noteq> GlobalScope"
    using f by (simp add: filter_empty_conv)
  then have f3: "filter (\<lambda>r. ks_scope r = GlobalScope) (db_switches db3) =
      [?a, ?b\<lparr>ks_active := False, ks_reason := Some r3, ks_decided_by := Some w3, ks_updated := snd idn\<rparr>]"
    using assms(3) by (auto simp: sw3 sw update_where_def filter_empty_conv)
  then have "?a \<in> set (db_switches db3)" by (metis filter_is_subset list.set_intros(1) subsetD)
  then have "kst_blocked (is_blocked db3 fid)"
    unfolding is_blocked_iff by (rule bexI[rotated]) (simp add: switch_matches_def)
  with f3 assms(2) show ?thesis
    by (simp add: get_kill_switch_def get_global_state_def newest_global_def state_body_def)
qed

end
