(* ===== verification/Publisher.thy ===== *)
theory Publisher
  imports Governance_Lib Py_Bytes
begin

text \<open>services/publisher: the gate-token verifier (verifier.py), the replay ledger
(jti_ledger.py), content hashing (hashing.py), the Vault lookup and recording
adapters (vault_lookup.py, vault_adapter.py), the Buffer client (buffer_client.py)
and POST /publish (routers/publish.py). PyJWT, the driver's adaptation of claim
values to SQL text and the answers of the Vault and Buffer services are
parameters; every call to such a service is logged in order.\<close>

section \<open>Outside the program\<close>

datatype http_reply = NetError | Reply nat "json option"

datatype ext_call =
    VaultGet string
  | VaultPost "(string \<times> json) list"
  | BufferListQueue string
  | BufferCreateDraft string "nat list" "string option" "string option"

datatype jwt_error = ExpiredSignature | InvalidAlgorithm | OtherJwtError

type_synonym claims = "(string \<times> json) list"

record pub_env =
  pv_header_alg :: "string \<Rightarrow> json option option"
  pv_decode :: "string \<Rightarrow> instant \<Rightarrow> jwt_error + claims"
  pv_algorithms :: "string list"
  pv_float_repr :: "string \<Rightarrow> string"
  pv_str :: "json \<Rightarrow> string"
  pv_adapt :: "json \<Rightarrow> string option option"
  pv_reply :: "ext_call list \<Rightarrow> ext_call \<Rightarrow> http_reply"
  pv_vault_configured :: bool
  pv_buffer_url :: "string option"
  pv_channel :: string
  pv_dry_run_var :: "string option"

record pub_state =
  ps_db :: gov_db
  ps_calls :: "ext_call list"

definition call_ext :: "pub_env \<Rightarrow> ext_call \<Rightarrow> ext_call list \<Rightarrow> http_reply \<times> ext_call list" where
  "call_ext env c calls = (pv_reply env calls c, calls @ [c])"

text \<open>str() of a parsed value; containers and floats print through the parameter.\<close>

fun py_str :: "pub_env \<Rightarrow> json \<Rightarrow> string" where
  "py_str env (JStr s) = s"
| "py_str env (JInt i) = int_str i"
| "py_str env (JBool b) = (if b then ''True'' else ''False'')"
| "py_str env JNull = ''None''"
| "py_str env j = pv_str env j"

definition truthy_json :: "json option \<Rightarrow> bool" where
  "truthy_json v = (case v of Some j \<Rightarrow> jtruth j | None \<Rightarrow> False)"

text \<open>PUBLISHER_DRY_RUN: anything but false, 0 or no means dry run.\<close>

definition publisher_dry_run :: "pub_env \<Rightarrow> bool" where
  "publisher_dry_run env =
    (py_lower (py_strip (case pv_dry_run_var env of Some v \<Rightarrow> v | None \<Rightarrow> ''true'')) \<notin> {''false'', ''0'', ''no''})"

section \<open>Verification of a gate token\<close>

datatype verify_error = Verification string | VerifyCrash string

definition token_header_ok :: "pub_env \<Rightarrow> string \<Rightarrow> string option" where
  "token_header_ok env token =
    (case pv_header_alg env token of
       None \<Rightarrow> Some ''token_invalid''
     | Some None \<Rightarrow> Some ''invalid_alg''
     | Some (Some (JStr alg)) \<Rightarrow> if alg \<in> set (pv_algorithms env) then None else Some ''invalid_alg''
     | Some (Some _) \<Rightarrow> Some ''invalid_alg'')"

definition bound_claims :: "pub_env \<Rightarrow> claims \<Rightarrow> verify_error + binding" where
  "bound_claims env cl =
    (case extract_function_id_and_content_hash (pv_float_repr env) cl of
       Inr b \<Rightarrow> Inr b
     | Inl (BindingValueError _) \<Rightarrow> Inl (Verification ''token_invalid'')
     | Inl BindingTypeError \<Rightarrow> Inl (VerifyCrash ''TypeError''))"

definition verify_token :: "pub_env \<Rightarrow> instant \<Rightarrow> string option \<Rightarrow> verify_error + claims" where
  "verify_token env now token =
    (if \<not> truthy token \<or> py_strip (the token) = [] then Inl (Verification ''token_absent'')
     else (case token_header_ok env (the token) of
       Some reason \<Rightarrow> Inl (Verification reason)
     | None \<Rightarrow>
         (case pv_decode env (the token) now of
            Inl ExpiredSignature \<Rightarrow> Inl (Verification ''token_expired'')
          | Inl InvalidAlgorithm \<Rightarrow> Inl (Verification ''invalid_alg'')
          | Inl OtherJwtError \<Rightarrow> Inl (Verification ''token_invalid'')
          | Inr cl \<Rightarrow> (case bound_claims env cl of Inl e \<Rightarrow> Inl e | Inr _ \<Rightarrow> Inr cl))))"

section \<open>Hashing and the replay ledger\<close>

definition sha256_hex :: "bytes \<Rightarrow> string" where
  "sha256_hex data = sha256_hexdigest data"

text \<open>The comparison of digests; compare_digest refuses non-ASCII text and a claim that
is true but no text has no strip method: both exceptions are None.\<close>

definition hashes_match :: "json \<Rightarrow> string \<Rightarrow> bool option" where
  "hashes_match expected actual =
    (if \<not> jtruth expected then Some False
     else (case expected of
       JStr s \<Rightarrow>
         (let e = py_lower (py_strip s); a = py_lower (py_strip actual) in
          if is_ascii e \<and> is_ascii a then Some (e = a) else None)
     | _ \<Rightarrow> None))"

definition jti_seen :: "string \<Rightarrow> gov_db \<Rightarrow> bool" where
  "jti_seen jti db \<longleftrightarrow> jti \<in> jl_jti ` set (db_jtis db)"

definition consume_jti :: "string \<Rightarrow> nat option \<times> instant \<Rightarrow> gov_db \<Rightarrow> bool \<times> gov_db" where
  "consume_jti jti x db =
    (if jti_seen jti db then (False, db)
     else (True, db\<lparr>db_jtis := db_jtis db @ [\<lparr>jl_jti = jti, jl_decision = fst x, jl_consumed = snd x\<rparr>]\<rparr>))"

text \<open>The ledger satisfies the claim-once interface.\<close>

interpretation jtis: claim_once consume_jti jti_seen
  by unfold_locales (auto simp: consume_jti_def jti_seen_def split: if_splits)

section \<open>Vault lookup of an asset\<close>

text \<open>\<open>Failed\<close> is the module's own error class, \<open>Escaped\<close> any other exception.\<close>

datatype ext_error = Failed | Escaped string

record asset_lookup =
  al_content_hash :: string
  al_agent_name :: string
  al_agent_run_id :: string
  al_asset_type :: "string option"
  al_campaign :: "string option"

definition http_get :: "pub_env \<Rightarrow> string \<Rightarrow> ext_call list \<Rightarrow> (ext_error + (string \<times> json) list) \<times> ext_call list" where
  "http_get env path calls =
    (case call_ext env (VaultGet path) calls of
       (NetError, calls') \<Rightarrow> (Inl Failed, calls')
     | (Reply st body, calls') \<Rightarrow>
         (if st \<noteq> 200 then (Inl Failed, calls')
          else (case body of
            None \<Rightarrow> (Inl (Escaped ''JSONDecodeError''), calls')
          | Some (JObj kvs) \<Rightarrow> (Inr kvs, calls')
          | Some _ \<Rightarrow> (Inl (Escaped ''AttributeError''), calls'))))"

definition label :: "pub_env \<Rightarrow> json option \<Rightarrow> string option" where
  "label env v = (if truthy_json v then Some (py_str env (the v)) else None)"

definition fetch_asset_and_agent_name ::
    "pub_env \<Rightarrow> string \<Rightarrow> ext_call list \<Rightarrow> (ext_error + asset_lookup) \<times> ext_call list" where
  "fetch_asset_and_agent_name env asset_id calls =
    (if \<not> pv_vault_configured env then (Inl Failed, calls)
     else (case http_get env (''/assets/'' @ asset_id) calls of
       (Inl e, calls1) \<Rightarrow> (Inl e, calls1)
     | (Inr asset, calls1) \<Rightarrow>
         (if \<not> truthy_json (jget asset ''content_hash'') \<or> \<not> truthy_json (jget asset ''agent_run_id'')
          then (Inl Failed, calls1)
          else
            (let run = py_str env (the (jget asset ''agent_run_id'')) in
             case http_get env (''/agent-runs/'' @ run) calls1 of
               (Inl e, calls2) \<Rightarrow> (Inl e, calls2)
             | (Inr agent_run, calls2) \<Rightarrow>
                 (if \<not> truthy_json (jget agent_run ''agent_name'') then (Inl Failed, calls2)
                  else (Inr \<lparr>al_content_hash = py_str env (the (jget asset ''content_hash'')),
                             al_agent_name = py_str env (the (jget agent_run ''agent_name'')),
                             al_agent_run_id = run,
                             al_asset_type = label env (jget asset ''asset_type''),
                             al_campaign = label env (jget asset ''campaign'')\<rparr>, calls2))))))"

section \<open>Recording a publish in the Vault\<close>

definition TAXONOMY_FIELDS :: "string list" where
  "TAXONOMY_FIELDS = [''vertical'', ''campaign'', ''evidence_grade'', ''consent_status'', ''retention_class'']"

text \<open>A missing field, an error status or an unreachable Vault raise VaultWriteError, a
body that is no JSON object another exception; nothing catches either, so both are
the text of the exception.\<close>

definition write_gate_decision ::
    "pub_env \<Rightarrow> string \<Rightarrow> json \<Rightarrow> string \<Rightarrow> string \<Rightarrow> ext_call list \<Rightarrow> (string + string) \<times> ext_call list" where
  "write_gate_decision env agent_run_id function_id reason source_id calls =
    (if \<not> pv_vault_configured env then (Inl ''VaultWriteError'', calls)
     else (case http_get env (''/gate-decisions/'' @ source_id) calls of
       (Inl Failed, calls1) \<Rightarrow> (Inl ''VaultWriteError'', calls1)
     | (Inl (Escaped e), calls1) \<Rightarrow> (Inl e, calls1)
     | (Inr source, calls1) \<Rightarrow>
         (let taxonomy = map (\<lambda>n. (n, case jget source n of Some v \<Rightarrow> v | None \<Rightarrow> JNull)) TAXONOMY_FIELDS in
          if \<exists>(n, v)\<in>set taxonomy. \<not> jtruth v then (Inl ''VaultWriteError'', calls1)
          else (case call_ext env (VaultPost
                   ([(''agent_run_id'', JStr agent_run_id), (''decided_by'', JStr ''service:publisher''),
                     (''outcome'', JStr ''approved''), (''reason'', JStr reason),
                     (''function_id'', function_id)] @ taxonomy)) calls1 of
             (NetError, calls2) \<Rightarrow> (Inl ''VaultWriteError'', calls2)
           | (Reply st body, calls2) \<Rightarrow>
               (if st \<noteq> 200 \<and> st \<noteq> 201 then (Inl ''VaultWriteError'', calls2)
                else (case body of
                  Some (JObj created) \<Rightarrow>
                    (if truthy_json (jget created ''id'')
                     then (Inr (py_str env (the (jget created ''id''))), calls2)
                     else (Inl ''VaultWriteError'', calls2))
                | Some _ \<Rightarrow> (Inl ''AttributeError'', calls2)
                | None \<Rightarrow> (Inl ''JSONDecodeError'', calls2)))))))"

section \<open>Buffer\<close>

definition BUFFER_FREE_TIER_QUEUE_CAP :: nat where "BUFFER_FREE_TIER_QUEUE_CAP = 10"
definition BUFFER_QUEUE_DEPTH_WARN_AT :: nat where "BUFFER_QUEUE_DEPTH_WARN_AT = 6"

text \<open>The JSON-RPC envelope: \<open>Failed\<close> is BufferClientError.\<close>

definition call_tool ::
    "pub_env \<Rightarrow> ext_call \<Rightarrow> ext_call list \<Rightarrow> (ext_error + json) \<times> ext_call list" where
  "call_tool env c calls =
    (case call_ext env c calls of
       (NetError, calls') \<Rightarrow> (Inl (Escaped ''HTTPError''), calls')
     | (Reply st body, calls') \<Rightarrow>
         (if st \<noteq> 200 then (Inl Failed, calls')
          else (case body of
            None \<Rightarrow> (Inl (Escaped ''JSONDecodeError''), calls')
          | Some (JObj envelope) \<Rightarrow>
              (if jget envelope ''error'' \<notin> {None, Some JNull} then (Inl Failed, calls')
               else (case (if truthy_json (jget envelope ''result'') then the (jget envelope ''result'') else JObj []) of
                 JObj result \<Rightarrow>
                   (case jget result ''structuredContent'' of
                      None \<Rightarrow> (Inl Failed, calls')
                    | Some JNull \<Rightarrow> (Inl Failed, calls')
                    | Some v \<Rightarrow> (Inr v, calls'))
               | _ \<Rightarrow> (Inl (Escaped ''AttributeError''), calls')))
          | Some _ \<Rightarrow> (Inl (Escaped ''AttributeError''), calls'))))"

text \<open>The number of queued posts in either answer shape; None when a .get meets a value
that is no object.\<close>

definition posts_count :: "json option \<Rightarrow> nat" where
  "posts_count v = (case v of Some (JArr ps) \<Rightarrow> length ps | _ \<Rightarrow> 0)"

definition queue_length :: "json \<Rightarrow> nat option" where
  "queue_length structured =
    (case structured of
       JObj result \<Rightarrow>
         (if jget result ''posts'' \<notin> {None, Some JNull} then Some (posts_count (jget result ''posts''))
          else (case jget result ''result'' of
            Some (JObj inner) \<Rightarrow>
              (case jget inner ''data'' of
                 None \<Rightarrow> Some 0
               | Some (JObj d) \<Rightarrow> Some (posts_count (jget d ''posts''))
               | Some _ \<Rightarrow> None)
          | _ \<Rightarrow> Some 0))
     | _ \<Rightarrow> None)"

definition list_queue_count :: "pub_env \<Rightarrow> ext_call list \<Rightarrow> (ext_error + nat) \<times> ext_call list" where
  "list_queue_count env calls =
    (case call_tool env (BufferListQueue (pv_channel env)) calls of
       (Inl e, calls') \<Rightarrow> (Inl e, calls')
     | (Inr v, calls') \<Rightarrow>
         (case queue_length v of
            None \<Rightarrow> (Inl (Escaped ''AttributeError''), calls')
          | Some n \<Rightarrow> (Inr n, calls')))"

definition create_draft ::
    "pub_env \<Rightarrow> nat list \<Rightarrow> string option \<Rightarrow> string option \<Rightarrow> ext_call list \<Rightarrow> (ext_error + json) \<times> ext_call list" where
  "create_draft env text utm_campaign post_archetype calls =
    call_tool env (BufferCreateDraft (pv_channel env) text
      (if truthy utm_campaign then utm_campaign else None)
      (if truthy post_archetype then post_archetype else None)) calls"

end
