(* ===== verification/Publish_Route.thy ===== *)
theory Publish_Route
  imports Publisher
begin

text \<open>POST /publish (services/publisher/app/routers/publish.py) in the order of the
code: token, kill switch, recomputed hash, Vault cross-check, replay ledger, Buffer
queue cap and draft, Vault record, published row. Each stage is one definition that
calls the next.\<close>

record publish_request =
  pq_agent_run_id :: string
  pq_function_id :: string
  pq_asset_b64 :: string
  pq_token :: "string option"
  pq_asset_id :: "string option"

record publish_response =
  pp_attempt :: row_id
  pp_outcome :: string
  pp_reason :: string
  pp_function :: "string option"
  pp_hash :: "string option"
  pp_decision :: "nat option"
  pp_jti :: "string option"
  pp_record :: "string option"

type_synonym publish_reply = "(publish_response, publish_response) reply"

definition safe_uuid :: "pub_env \<Rightarrow> json option \<Rightarrow> nat option" where
  "safe_uuid env v = (if truthy_json v then py_uuid (py_str env (the v)) else None)"

definition attempt_row ::
    "row_id \<Rightarrow> nat \<Rightarrow> nat option \<Rightarrow> string option \<Rightarrow> string option \<Rightarrow> string option \<Rightarrow> string \<Rightarrow> string \<Rightarrow> publish_attempt" where
  "attempt_row i run gd f jti h oc reason =
    \<lparr>pa_id = i, pa_agent_run = Some run, pa_decision = gd, pa_function = f, pa_jti = jti, pa_hash = h,
     pa_outcome = oc, pa_reason = reason\<rparr>"

definition record_attempt :: "publish_attempt \<Rightarrow> pub_state \<Rightarrow> pub_state" where
  "record_attempt row st = st\<lparr>ps_db := (ps_db st)\<lparr>db_attempts := db_attempts (ps_db st) @ [row]\<rparr>\<rparr>"

definition publish_body :: "publish_attempt \<Rightarrow> string option \<Rightarrow> publish_response" where
  "publish_body a vault_record =
    \<lparr>pp_attempt = pa_id a, pp_outcome = pa_outcome a, pp_reason = pa_reason a, pp_function = pa_function a,
     pp_hash = pa_hash a, pp_decision = pa_decision a, pp_jti = pa_jti a, pp_record = vault_record\<rparr>"

text \<open>Every refusal appends its row and answers 403 with it.\<close>

definition refuse :: "publish_attempt \<Rightarrow> pub_state \<Rightarrow> publish_reply \<times> pub_state" where
  "refuse a st = (Inl (RefusedWith 403 (publish_body a None)), record_attempt a st)"

text \<open>What the verified request carries from stage to stage: the run, the decision, the
bound function and hash and the jti as the driver writes them, the bytes.\<close>

record bound_request =
  bq_id :: row_id
  bq_run :: nat
  bq_decision :: "nat option"
  bq_function :: json
  bq_function_text :: "string option"
  bq_jti :: json
  bq_jti_text :: "string option"
  bq_bytes :: bytes

definition bound_row :: "bound_request \<Rightarrow> string option \<Rightarrow> string \<Rightarrow> string \<Rightarrow> publish_attempt" where
  "bound_row b h oc reason =
    attempt_row (bq_id b) (bq_run b) (bq_decision b) (bq_function_text b) (bq_jti_text b) h oc reason"

abbreviation actual_hash :: "bound_request \<Rightarrow> string" where
  "actual_hash b \<equiv> sha256_hex (bq_bytes b)"

text \<open>(5) the Vault record and the published row.\<close>

definition publish_note :: "pub_env \<Rightarrow> bound_request \<Rightarrow> string" where
  "publish_note env b =
    ''published (content_hash='' @ actual_hash b @ '', jti='' @ py_str env (bq_jti b) @ '')''"

definition decision_text :: "bound_request \<Rightarrow> string" where
  "decision_text b = (case bq_decision b of Some d \<Rightarrow> uuid_str d | None \<Rightarrow> ''None'')"

definition publish_record :: "pub_env \<Rightarrow> bound_request \<Rightarrow> bool \<Rightarrow> pub_state \<Rightarrow> publish_reply \<times> pub_state" where
  "publish_record env b dry st =
    (case write_gate_decision env (uuid_str (bq_run b)) (bq_function b) (publish_note env b)
            (decision_text b) (ps_calls st) of
       (Inl e, calls) \<Rightarrow> (Inl (Crashed e), st\<lparr>ps_calls := calls\<rparr>)
     | (Inr record_id, calls) \<Rightarrow>
         (let row = bound_row b (Some (actual_hash b)) ''published'' (if dry then ''published_dry_run'' else ''published'')
          in (Inr (publish_body row (Some record_id)), record_attempt row (st\<lparr>ps_calls := calls\<rparr>))))"

text \<open>(4.5) live mode only: queue cap, then the draft.\<close>

definition publish_live ::
    "pub_env \<Rightarrow> bound_request \<Rightarrow> asset_lookup option \<Rightarrow> pub_state \<Rightarrow> publish_reply \<times> pub_state" where
  "publish_live env b lookup st =
    (if \<not> truthy (pv_buffer_url env) then (Inl (Crashed ''BufferClientError''), st)
     else (case list_queue_count env (ps_calls st) of
       (Inl Failed, calls) \<Rightarrow>
         refuse (bound_row b (Some (actual_hash b)) ''rejected'' ''buffer_queue_cap_exceeded'') (st\<lparr>ps_calls := calls\<rparr>)
     | (Inl (Escaped e), calls) \<Rightarrow> (Inl (Crashed e), st\<lparr>ps_calls := calls\<rparr>)
     | (Inr queue_count, calls) \<Rightarrow>
         (if queue_count \<ge> BUFFER_FREE_TIER_QUEUE_CAP
          then refuse (bound_row b (Some (actual_hash b)) ''rejected'' ''buffer_queue_cap_exceeded'') (st\<lparr>ps_calls := calls\<rparr>)
          else (case utf8_decode (bq_bytes b) of
            None \<Rightarrow> (Inl (Crashed ''UnicodeDecodeError''), st\<lparr>ps_calls := calls\<rparr>)
          | Some text \<Rightarrow>
              (case create_draft env text (Option.bind lookup al_campaign) (Option.bind lookup al_asset_type) calls of
                 (Inl Failed, calls') \<Rightarrow> (Inl (Crashed ''BufferClientError''), st\<lparr>ps_calls := calls'\<rparr>)
               | (Inl (Escaped e), calls') \<Rightarrow> (Inl (Crashed e), st\<lparr>ps_calls := calls'\<rparr>)
               | (Inr _, calls') \<Rightarrow> publish_record env b False (st\<lparr>ps_calls := calls'\<rparr>))))))"

text \<open>(4) the jti is claimed; an empty jti is a ValueError.\<close>

definition publish_claim ::
    "pub_env \<Rightarrow> instant \<Rightarrow> bound_request \<Rightarrow> asset_lookup option \<Rightarrow> bool \<Rightarrow> pub_state \<Rightarrow> publish_reply \<times> pub_state" where
  "publish_claim env now b lookup dry st =
    (if \<not> jtruth (bq_jti b) then (Inl (Crashed ''ValueError''), st)
     else (case bq_jti_text b of
       None \<Rightarrow> (Inl (Crashed ''NotNullViolation''), st)
     | Some jti \<Rightarrow>
         (case consume_jti jti (bq_decision b, now) (ps_db st) of
            (False, _) \<Rightarrow> refuse (bound_row b (Some (actual_hash b)) ''rejected'' ''token_replayed'') st
          | (True, db') \<Rightarrow>
              (if dry then publish_record env b True (st\<lparr>ps_db := db'\<rparr>)
               else publish_live env b lookup (st\<lparr>ps_db := db'\<rparr>)))))"

text \<open>(3.5) the Vault cross-check when an asset id was supplied.\<close>

definition publish_checked ::
    "pub_env \<Rightarrow> instant \<Rightarrow> bound_request \<Rightarrow> string option \<Rightarrow> pub_state \<Rightarrow> publish_reply \<times> pub_state" where
  "publish_checked env now b asset_id st =
    (if \<not> truthy asset_id then publish_claim env now b None (publisher_dry_run env) st
     else (case fetch_asset_and_agent_name env (the asset_id) (ps_calls st) of
       (Inl Failed, calls) \<Rightarrow>
         refuse (bound_row b (Some (actual_hash b)) ''rejected'' ''vault_lookup_failed'') (st\<lparr>ps_calls := calls\<rparr>)
     | (Inl (Escaped e), calls) \<Rightarrow> (Inl (Crashed e), st\<lparr>ps_calls := calls\<rparr>)
     | (Inr lookup, calls) \<Rightarrow>
         (case hashes_match (JStr (al_content_hash lookup)) (actual_hash b) of
            None \<Rightarrow> (Inl (Crashed ''TypeError''), st\<lparr>ps_calls := calls\<rparr>)
          | Some False \<Rightarrow>
              refuse (bound_row b (Some (actual_hash b)) ''rejected'' ''content_hash_mismatch'') (st\<lparr>ps_calls := calls\<rparr>)
          | Some True \<Rightarrow>
              publish_claim env now b (Some lookup)
                (al_agent_name lookup = AGENT_NAME_LOOP_PROOF \<or> publisher_dry_run env) (st\<lparr>ps_calls := calls\<rparr>))))"

text \<open>(2) kill switch and (3) recomputed hash.\<close>

definition publish_bound ::
    "pub_env \<Rightarrow> instant \<Rightarrow> bound_request \<Rightarrow> binding \<Rightarrow> string option \<Rightarrow> pub_state \<Rightarrow> publish_reply \<times> pub_state" where
  "publish_bound env now b bind asset_id st =
    (let status = is_blocked (ps_db st) (bq_function_text b) in
     if kst_blocked status
     then (case pv_adapt env (bd_content_hash bind) of
             None \<Rightarrow> (Inl (Crashed ''ProgrammingError''), st)
           | Some h \<Rightarrow> refuse (bound_row b h ''rejected'' (the (audit_reason status))) st)
     else (case hashes_match (bd_content_hash bind) (actual_hash b) of
             None \<Rightarrow> (Inl (Crashed ''TypeError''), st)
           | Some False \<Rightarrow> refuse (bound_row b (Some (actual_hash b)) ''rejected'' ''content_hash_mismatch'') st
           | Some True \<Rightarrow> publish_checked env now b asset_id st))"

text \<open>The whole route. PyJWT refuses a token whose jti is no text, so the branch for a
jti the driver cannot write is there for totality only.\<close>

definition publish ::
    "pub_env \<Rightarrow> row_id \<Rightarrow> instant \<Rightarrow> publish_request \<Rightarrow> pub_state \<Rightarrow> publish_reply \<times> pub_state" where
  "publish env i now rq st =
    (case (if pq_agent_run_id rq = [] then None else py_uuid (pq_agent_run_id rq)) of
       None \<Rightarrow> (Inl (Refused 400 ''agent_run_id must be a uuid''), st)
     | Some run \<Rightarrow>
         (case b64decode_strict (pq_asset_b64 rq) of
            None \<Rightarrow> (Inl (Refused 400 ''asset_bytes_b64 is not base64''), st)
          | Some asset_bytes \<Rightarrow>
              (case verify_token env now (pq_token rq) of
                 Inl (VerifyCrash e) \<Rightarrow> (Inl (Crashed e), st)
               | Inl (Verification reason) \<Rightarrow>
                   refuse (attempt_row i run None (Some (pq_function_id rq)) None None ''rejected'' reason) st
               | Inr cl \<Rightarrow>
                   (case jget cl ''jti'' of
                      None \<Rightarrow> (Inl (Crashed ''KeyError''), st)
                    | Some jti \<Rightarrow>
                        (case (bound_claims env cl, pv_adapt env jti) of
                           (Inr bind, Some jti_text) \<Rightarrow>
                             (case pv_adapt env (bd_function_id bind) of
                                None \<Rightarrow> (Inl (Crashed ''ProgrammingError''), st)
                              | Some f \<Rightarrow>
                                  publish_bound env now
                                    \<lparr>bq_id = i, bq_run = run,
                                     bq_decision = safe_uuid env (jget cl ''gate_decision_id''),
                                     bq_function = bd_function_id bind, bq_function_text = f,
                                     bq_jti = jti, bq_jti_text = jti_text, bq_bytes = asset_bytes\<rparr>
                                    bind (pq_asset_id rq) st)
                         | (Inl (VerifyCrash e), _) \<Rightarrow> (Inl (Crashed e), st)
                         | (Inl (Verification _), Some jti_text) \<Rightarrow>
                             refuse (attempt_row i run (safe_uuid env (jget cl ''gate_decision_id''))
                               (Some (pq_function_id rq)) jti_text None ''rejected'' ''token_invalid'') st
                         | (_, None) \<Rightarrow> (Inl (Crashed ''ProgrammingError''), st))))))"

text \<open>GET /publish-attempts/{attempt_id}.\<close>

definition get_publish_attempt ::
    "(string \<Rightarrow> nat option) \<Rightarrow> string \<Rightarrow> gov_db \<Rightarrow> (unit, publish_attempt) reply" where
  "get_publish_attempt pg attempt_id db =
    (if py_uuid attempt_id = None then Inl (Refused 400 ''attempt_id must be a uuid'')
     else (case pg attempt_id of
       None \<Rightarrow> Inl (Crashed ''InvalidTextRepresentation'')
     | Some a \<Rightarrow>
         (case List.find (\<lambda>r. pa_id r = a) (db_attempts db) of
            None \<Rightarrow> Inl (Refused 404 ''publish attempt not found'')
          | Some row \<Rightarrow> Inr row)))"

end
