(* ===== verification/Publisher_Props.thy ===== *)
theory Publisher_Props
  imports Publish_Route
begin

text \<open>What POST /publish may change, which rows it appends on every branch, and what a
published row guarantees.\<close>

section \<open>External calls only ever append to the log\<close>

lemma http_get_log: "http_get env path calls = (r, calls') \<Longrightarrow> calls' = calls @ [VaultGet path]"
  by (auto simp: http_get_def call_ext_def split: http_reply.splits if_splits option.splits json.splits)

lemma call_tool_log: "call_tool env c calls = (r, calls') \<Longrightarrow> calls' = calls @ [c]"
  by (auto simp: call_tool_def call_ext_def split: http_reply.splits if_splits option.splits json.splits)

lemma list_queue_log: "list_queue_count env calls = (r, calls') \<Longrightarrow> calls' = calls @ [BufferListQueue (pv_channel env)]"
  by (auto simp: list_queue_count_def split: prod.splits sum.splits option.splits dest: call_tool_log)

lemma create_draft_log:
  "create_draft env text u a calls = (r, calls') \<Longrightarrow>
   calls' = calls @ [BufferCreateDraft (pv_channel env) text (if truthy u then u else None) (if truthy a then a else None)]"
  by (auto simp: create_draft_def dest: call_tool_log)

definition vault_only :: "ext_call list \<Rightarrow> bool" where
  "vault_only cs \<longleftrightarrow> (\<forall>c\<in>set cs. (\<exists>p. c = VaultGet p) \<or> (\<exists>b. c = VaultPost b))"

lemma vault_only_simps [simp]:
  "vault_only []" "vault_only (VaultGet p # xs) \<longleftrightarrow> vault_only xs"
  "vault_only (VaultPost b # xs) \<longleftrightarrow> vault_only xs"
  "vault_only (xs @ ys) \<longleftrightarrow> vault_only xs \<and> vault_only ys"
  by (auto simp: vault_only_def)

lemma http_get_log2:
  "http_get env p calls = (r1, c1) \<Longrightarrow> http_get env q c1 = (r2, c2) \<Longrightarrow> c2 = calls @ [VaultGet p, VaultGet q]"
  by (drule http_get_log)+ simp

lemma fetch_log:
  assumes "fetch_asset_and_agent_name env a calls = (r, calls')"
  shows "\<exists>cs. calls' = calls @ cs \<and> vault_only cs"
proof -
  have "calls' = calls \<or> (\<exists>p. calls' = calls @ [VaultGet p]) \<or> (\<exists>p q. calls' = calls @ [VaultGet p, VaultGet q])"
    using assms unfolding fetch_asset_and_agent_name_def Let_def
    by (auto split: if_splits prod.splits sum.splits dest: http_get_log http_get_log2)
  then show ?thesis by (elim disjE exE) (auto intro: exI[of _ "[]"])
qed

lemma write_log:
  assumes "write_gate_decision env run f rs src calls = (r, calls')"
  shows "\<exists>cs. calls' = calls @ cs \<and> vault_only cs"
proof -
  have "calls' = calls \<or> (\<exists>p. calls' = calls @ [VaultGet p]) \<or> (\<exists>p b. calls' = calls @ [VaultGet p, VaultPost b])"
    using assms unfolding write_gate_decision_def Let_def
    by (auto simp: call_ext_def split: if_splits prod.splits sum.splits ext_error.splits http_reply.splits
        option.splits json.splits dest!: http_get_log)
  then show ?thesis by (elim disjE exE) (auto intro: exI[of _ "[]"])
qed

section \<open>The shape of an answer and of the state it leaves\<close>

definition grown :: "pub_state \<Rightarrow> publish_attempt list \<Rightarrow> jti_row list \<Rightarrow> ext_call list \<Rightarrow> pub_state" where
  "grown st att jt cs = \<lparr>ps_db = (ps_db st)\<lparr>db_attempts := db_attempts (ps_db st) @ att,
     db_jtis := db_jtis (ps_db st) @ jt\<rparr>, ps_calls = ps_calls st @ cs\<rparr>"

lemma grown_nil: "grown st [] [] [] = st"
  by (simp add: grown_def)

lemma grown_calls: "ps_calls st' = ps_calls st @ cs \<Longrightarrow> ps_db st' = ps_db st \<Longrightarrow> st' = grown st [] [] cs"
  by (simp add: grown_def)

lemma set_calls_grown: "st\<lparr>ps_calls := ps_calls st @ cs\<rparr> = grown st [] [] cs"
  by (simp add: grown_def)

lemma grown_grown: "grown (grown st a1 j1 c1) a2 j2 c2 = grown st (a1 @ a2) (j1 @ j2) (c1 @ c2)"
  by (simp add: grown_def)

lemma record_grown: "record_attempt a (grown st att jt cs) = grown st (att @ [a]) jt cs"
  by (simp add: record_attempt_def grown_def)

text \<open>The audit contract: an answered publish appended one published row, a 403 one
rejected row, and every other failure no row at all.\<close>

definition audit_ok :: "row_id \<Rightarrow> publish_reply \<Rightarrow> publish_attempt list \<Rightarrow> bool" where
  "audit_ok i rep att \<longleftrightarrow>
    (case rep of
       Inr body \<Rightarrow> \<exists>a r. att = [a] \<and> pa_id a = i \<and> pa_outcome a = ''published'' \<and> body = publish_body a (Some r)
     | Inl (RefusedWith n body) \<Rightarrow>
         n = 403 \<and> (\<exists>a. att = [a] \<and> pa_id a = i \<and> pa_outcome a = ''rejected'' \<and> body = publish_body a None)
     | Inl _ \<Rightarrow> att = [])"

lemma bound_row_sel [simp]: "pa_id (bound_row b h oc r) = bq_id b" "pa_outcome (bound_row b h oc r) = oc"
  "pa_hash (bound_row b h oc r) = h" "pa_reason (bound_row b h oc r) = r" "pa_jti (bound_row b h oc r) = bq_jti_text b"
  "pa_function (bound_row b h oc r) = bq_function_text b" "pa_decision (bound_row b h oc r) = bq_decision b"
  by (simp_all add: bound_row_def attempt_row_def)

lemma refuse_ok:
  "pa_outcome a = ''rejected'' \<Longrightarrow> refuse a (grown st [] jt cs) = (rep, st') \<Longrightarrow>
   st' = grown st [a] jt cs \<and> audit_ok (pa_id a) rep [a]"
  by (auto simp: refuse_def record_grown audit_ok_def)

lemma publish_record_result:
  assumes "publish_record env b dry st = (rep, st')"
  shows "\<exists>att cs. st' = grown st att [] cs \<and> audit_ok (bq_id b) rep att \<and> vault_only cs \<and>
    (\<forall>body. rep = Inr body \<longrightarrow> att = [bound_row b (Some (actual_hash b)) ''published''
        (if dry then ''published_dry_run'' else ''published'')]) \<and>
    (\<forall>n body. rep \<noteq> Inl (RefusedWith n body))"
proof -
  obtain r calls where w: "write_gate_decision env (uuid_str (bq_run b)) (bq_function b)
            (publish_note env b) (decision_text b) (ps_calls st) = (r, calls)"
    by fastforce
  from write_log[OF w] obtain cs where cs: "calls = ps_calls st @ cs" "vault_only cs" by blast
  show ?thesis
  proof (cases r)
    case (Inl e)
    with assms w cs have "rep = Inl (Crashed e)" "st' = grown st [] [] cs"
      by (simp_all add: publish_record_def set_calls_grown)
    with cs(2) show ?thesis by - (rule exI[of _ "[]"], rule exI[of _ cs], simp add: audit_ok_def)
  next
    case (Inr rid)
    let ?row = "bound_row b (Some (actual_hash b)) ''published'' (if dry then ''published_dry_run'' else ''published'')"
    from assms w Inr cs have "rep = Inr (publish_body ?row (Some rid))" "st' = grown st [?row] [] cs"
      by (simp_all add: publish_record_def Let_def set_calls_grown record_grown)
    with cs(2) show ?thesis by - (rule exI[of _ "[?row]"], rule exI[of _ cs], auto simp: audit_ok_def)
  qed
qed

text \<open>The live branch logs at most one draft, and exactly one before a published row.\<close>

definition drafts :: "ext_call list \<Rightarrow> ext_call list" where
  "drafts cs = filter (\<lambda>c. case c of BufferCreateDraft _ _ _ _ \<Rightarrow> True | _ \<Rightarrow> False) cs"

lemma drafts_append [simp]: "drafts (xs @ ys) = drafts xs @ drafts ys"
  by (simp add: drafts_def)

lemma drafts_vault: "vault_only cs \<Longrightarrow> drafts cs = []"
  by (auto simp: drafts_def vault_only_def filter_empty_conv)

text \<open>What the live branch established before a published row.\<close>

definition live_ok :: "pub_env \<Rightarrow> bytes \<Rightarrow> ext_call list \<Rightarrow> bool" where
  "live_ok env bs cs \<longleftrightarrow> (\<exists>calls0 cps n u a. utf8_decode bs = Some cps \<and> n < BUFFER_FREE_TIER_QUEUE_CAP \<and>
     fst (list_queue_count env calls0) = Inr n \<and> drafts cs = [BufferCreateDraft (pv_channel env) cps u a])"

lemma live_ok_prepend: "drafts cs = [] \<Longrightarrow> live_ok env bs ds \<Longrightarrow> live_ok env bs (cs @ ds)"
  by (simp add: live_ok_def)

lemma publish_live_result:
  assumes "publish_live env b lookup st = (rep, st')"
  shows "\<exists>att cs. st' = grown st att [] cs \<and> audit_ok (bq_id b) rep att \<and>
    (\<forall>body. rep = Inr body \<longrightarrow> att = [bound_row b (Some (actual_hash b)) ''published'' ''published''] \<and>
       live_ok env (bq_bytes b) cs) \<and>
    length (drafts cs) \<le> 1"
proof (cases "truthy (pv_buffer_url env)")
  case False
  with assms show ?thesis
    by (intro exI[of _ "[]"]) (auto simp: publish_live_def grown_nil audit_ok_def drafts_def)
next
  case url: True
  obtain q calls where lq: "list_queue_count env (ps_calls st) = (q, calls)" by fastforce
  let ?lq = "BufferListQueue (pv_channel env)"
  let ?cap = "bound_row b (Some (actual_hash b)) ''rejected'' ''buffer_queue_cap_exceeded''"
  from list_queue_log[OF lq] have st1: "st\<lparr>ps_calls := calls\<rparr> = grown st [] [] [?lq]"
    by (simp add: set_calls_grown)
  have no_draft: "drafts [?lq] = []" by (simp add: drafts_def)
  have capped: ?thesis if "refuse ?cap (grown st [] [] [?lq]) = (rep, st')"
    using refuse_ok[OF _ that] that no_draft
    by - (rule exI[of _ "[?cap]"], rule exI[of _ "[?lq]"], auto simp: refuse_def)
  have crashed: ?thesis if "rep = Inl (Crashed e)" "st' = grown st [] [] cs" "length (drafts cs) \<le> 1" for e cs
    using that by - (rule exI[of _ "[]"], rule exI[of _ cs], simp add: audit_ok_def)
  show ?thesis
  proof (cases q)
    case (Inl e)
    with assms url lq st1 capped crashed[of _ "[?lq]"] no_draft show ?thesis
      by (cases e) (auto simp: publish_live_def)
  next
    case (Inr n)
    show ?thesis
    proof (cases "n \<ge> BUFFER_FREE_TIER_QUEUE_CAP \<or> utf8_decode (bq_bytes b) = None")
      case True
      with assms url lq Inr st1 capped crashed[of _ "[?lq]"] no_draft show ?thesis
        by (auto simp: publish_live_def split: if_splits)
    next
      case False
      then obtain cps where cps: "utf8_decode (bq_bytes b) = Some cps" and n: "n < BUFFER_FREE_TIER_QUEUE_CAP"
        by auto
      let ?u = "Option.bind lookup al_campaign" and ?a = "Option.bind lookup al_asset_type"
      let ?d = "BufferCreateDraft (pv_channel env) cps (if truthy ?u then ?u else None) (if truthy ?a then ?a else None)"
      obtain r calls' where cd: "create_draft env cps ?u ?a calls = (r, calls')" by fastforce
      have st2: "st\<lparr>ps_calls := calls'\<rparr> = grown st [] [] [?lq, ?d]"
        using create_draft_log[OF cd] list_queue_log[OF lq] by (simp add: grown_def)
      have d1: "drafts [?lq, ?d] = [?d]" by (simp add: drafts_def)
      show ?thesis
      proof (cases r)
        case (Inl e)
        with assms url lq Inr n cps cd st2 crashed[of _ "[?lq, ?d]"] d1 show ?thesis
          by (cases e) (auto simp: publish_live_def)
      next
        case ok: (Inr v)
        with assms url lq Inr n cps cd st2 have "publish_record env b False (grown st [] [] [?lq, ?d]) = (rep, st')"
          by (simp add: publish_live_def)
        from publish_record_result[OF this] obtain att cs where
          "st' = grown (grown st [] [] [?lq, ?d]) att [] cs" "audit_ok (bq_id b) rep att" "vault_only cs"
          "\<forall>body. rep = Inr body \<longrightarrow> att = [bound_row b (Some (actual_hash b)) ''published'' ''published'']" by auto
        moreover from this have "drafts ([?lq, ?d] @ cs) = [?d]"
          by (simp only: drafts_append d1 drafts_vault append_Nil2)
        moreover from this have "live_ok env (bq_bytes b) ([?lq, ?d] @ cs)"
          unfolding live_ok_def using lq Inr cps n fst_conv by metis
        ultimately show ?thesis
          by - (rule exI[of _ att], rule exI[of _ "[?lq, ?d] @ cs"], simp only: grown_grown, simp)
      qed
    qed
  qed
qed

text \<open>The claiming stage on top of both branches.\<close>

definition claim_ok :: "bound_request \<Rightarrow> gov_db \<Rightarrow> jti_row list \<Rightarrow> bool" where
  "claim_ok b db jt \<longleftrightarrow> jt = [] \<or>
     (\<exists>j row. jt = [row] \<and> jl_jti row = j \<and> bq_jti_text b = Some j \<and> \<not> jti_seen j db)"

definition answer_ok :: "pub_env \<Rightarrow> bound_request \<Rightarrow> bool \<Rightarrow> publish_reply \<Rightarrow> publish_attempt list \<Rightarrow> jti_row list \<Rightarrow> ext_call list \<Rightarrow> bool" where
  "answer_ok env b dry rep att jt cs \<longleftrightarrow>
     (\<forall>body. rep = Inr body \<longrightarrow>
        att = [bound_row b (Some (actual_hash b)) ''published'' (if dry then ''published_dry_run'' else ''published'')] \<and>
        jt \<noteq> [] \<and> (\<not> dry \<longrightarrow> live_ok env (bq_bytes b) cs))"

definition stage_ok :: "pub_env \<Rightarrow> bound_request \<Rightarrow> bool \<Rightarrow> pub_state \<Rightarrow> publish_reply \<Rightarrow> pub_state \<Rightarrow> bool" where
  "stage_ok env b dry st rep st' \<longleftrightarrow>
    (\<exists>att jt cs. st' = grown st att jt cs \<and> audit_ok (bq_id b) rep att \<and> claim_ok b (ps_db st) jt \<and>
       answer_ok env b dry rep att jt cs \<and> (if dry then vault_only cs else length (drafts cs) \<le> 1))"

lemma stage_crash: "rep = Inl (Crashed e) \<Longrightarrow> st' = grown st [] [] cs \<Longrightarrow> vault_only cs \<Longrightarrow> stage_ok env b dry st rep st'"
  unfolding stage_ok_def
  by (rule exI[of _ "[]"], rule exI[of _ "[]"], rule exI[of _ cs])
    (simp add: audit_ok_def claim_ok_def answer_ok_def drafts_vault)

lemma stage_refuse:
  assumes "refuse (bound_row b h ''rejected'' r) (grown st [] [] cs) = (rep, st')" "vault_only cs"
  shows "stage_ok env b dry st rep st'"
proof -
  from refuse_ok[OF _ assms(1)] have "st' = grown st [bound_row b h ''rejected'' r] [] cs"
    "audit_ok (bq_id b) rep [bound_row b h ''rejected'' r]" by simp_all
  moreover have "answer_ok env b dry rep att [] cs" for att
    using assms(1) by (auto simp: refuse_def answer_ok_def)
  ultimately show ?thesis unfolding stage_ok_def claim_ok_def using assms(2) drafts_vault
    by - (rule exI[of _ "[bound_row b h ''rejected'' r]"], rule exI[of _ "[]"], rule exI[of _ cs], simp)
qed

lemma publish_claim_result:
  assumes "publish_claim env now b lookup dry st = (rep, st')"
  shows "stage_ok env b dry st rep st'"
proof (cases "jtruth (bq_jti b) \<and> bq_jti_text b \<noteq> None")
  case False
  then have "publish_claim env now b lookup dry st =
      (Inl (Crashed (if jtruth (bq_jti b) then ''NotNullViolation'' else ''ValueError'')), st)"
    by (auto simp: publish_claim_def)
  with assms have "rep = Inl (Crashed (if jtruth (bq_jti b) then ''NotNullViolation'' else ''ValueError''))"
    "st' = grown st [] [] []" unfolding grown_nil by (metis Pair_inject)+
  then show ?thesis by (rule stage_crash) simp
next
  case True
  then obtain j where j: "bq_jti_text b = Some j" by auto
  show ?thesis
  proof (cases "jti_seen j (ps_db st)")
    case True
    with assms \<open>jtruth (bq_jti b) \<and> _\<close> j
    have "refuse (bound_row b (Some (actual_hash b)) ''rejected'' ''token_replayed'') (grown st [] [] []) = (rep, st')"
      by (simp add: publish_claim_def consume_jti_def grown_nil)
    then show ?thesis by (rule stage_refuse) simp
  next
    case fresh: False
    let ?row = "\<lparr>jl_jti = j, jl_decision = bq_decision b, jl_consumed = now\<rparr>"
    let ?st = "grown st [] [?row] []"
    have st: "st\<lparr>ps_db := (ps_db st)\<lparr>db_jtis := db_jtis (ps_db st) @ [?row]\<rparr>\<rparr> = ?st"
      by (simp add: grown_def)
    have claim: "claim_ok b (ps_db st) [?row]" using fresh j by (simp add: claim_ok_def)
    show ?thesis
    proof (cases dry)
      case True
      with assms \<open>jtruth (bq_jti b) \<and> _\<close> j fresh have "publish_record env b True ?st = (rep, st')"
        by (simp add: publish_claim_def consume_jti_def st)
      from publish_record_result[OF this] obtain att cs where
        "st' = grown ?st att [] cs" "audit_ok (bq_id b) rep att" "vault_only cs"
        "\<forall>body. rep = Inr body \<longrightarrow> att = [bound_row b (Some (actual_hash b)) ''published'' ''published_dry_run'']" by auto
      with claim True show ?thesis unfolding stage_ok_def
        by - (rule exI[of _ att], rule exI[of _ "[?row]"], rule exI[of _ cs], simp add: grown_grown answer_ok_def)
    next
      case False
      with assms \<open>jtruth (bq_jti b) \<and> _\<close> j fresh have "publish_live env b lookup ?st = (rep, st')"
        by (simp add: publish_claim_def consume_jti_def st)
      from publish_live_result[OF this] obtain att cs where
        "st' = grown ?st att [] cs" "audit_ok (bq_id b) rep att" "length (drafts cs) \<le> 1"
        "\<forall>body. rep = Inr body \<longrightarrow> att = [bound_row b (Some (actual_hash b)) ''published'' ''published''] \<and>
           live_ok env (bq_bytes b) cs" by auto
      with claim False show ?thesis unfolding stage_ok_def
        by - (rule exI[of _ att], rule exI[of _ "[?row]"], rule exI[of _ cs], simp add: grown_grown answer_ok_def)
    qed
  qed
qed

text \<open>The stages before the claim.\<close>

lemma stage_after_calls:
  assumes "stage_ok env b dry (grown st [] [] cs0) rep st'" "vault_only cs0"
  shows "stage_ok env b dry st rep st'"
proof -
  obtain att jt cs where s: "st' = grown (grown st [] [] cs0) att jt cs" "audit_ok (bq_id b) rep att"
    "claim_ok b (ps_db st) jt" "answer_ok env b dry rep att jt cs" "if dry then vault_only cs else length (drafts cs) \<le> 1"
    using assms(1) by (auto simp: stage_ok_def grown_def claim_ok_def jti_seen_def)
  moreover have "answer_ok env b dry rep att jt (cs0 @ cs)"
    using s(4) drafts_vault[OF assms(2)] by (auto simp: answer_ok_def live_ok_prepend)
  moreover have "if dry then vault_only (cs0 @ cs) else length (drafts (cs0 @ cs)) \<le> 1"
    using s(5) drafts_vault[OF assms(2)] assms(2) by (auto split: if_splits)
  ultimately show ?thesis unfolding stage_ok_def
    by - (rule exI[of _ att], rule exI[of _ jt], rule exI[of _ "cs0 @ cs"], simp add: grown_grown)
qed

text \<open>Whether the request is a forced or configured dry run, as the route computes it.\<close>

definition effective_dry :: "pub_env \<Rightarrow> asset_lookup option \<Rightarrow> bool" where
  "effective_dry env lookup \<longleftrightarrow>
     (case lookup of Some l \<Rightarrow> al_agent_name l = AGENT_NAME_LOOP_PROOF | None \<Rightarrow> False) \<or> publisher_dry_run env"

definition vault_checked :: "pub_env \<Rightarrow> bound_request \<Rightarrow> string option \<Rightarrow> asset_lookup option \<Rightarrow> ext_call list \<Rightarrow> bool" where
  "vault_checked env b asset_id lookup calls \<longleftrightarrow>
    (if truthy asset_id
     then (\<exists>l. lookup = Some l \<and> fst (fetch_asset_and_agent_name env (the asset_id) calls) = Inr l \<and>
               hashes_match (JStr (al_content_hash l)) (actual_hash b) = Some True)
     else lookup = None)"

lemma publish_checked_result:
  assumes "publish_checked env now b asset_id st = (rep, st')"
  shows "\<exists>lookup. stage_ok env b (effective_dry env lookup) st rep st' \<and>
    (\<forall>body. rep = Inr body \<longrightarrow> vault_checked env b asset_id lookup (ps_calls st))"
proof (cases "truthy asset_id")
  case False
  with assms have "publish_claim env now b None (effective_dry env None) st = (rep, st')"
    by (simp add: publish_checked_def effective_dry_def)
  from publish_claim_result[OF this] False show ?thesis
    by (intro exI[of _ None]) (simp add: vault_checked_def)
next
  case True
  obtain r calls where f: "fetch_asset_and_agent_name env (the asset_id) (ps_calls st) = (r, calls)" by fastforce
  from fetch_log[OF f] obtain cs where cs: "calls = ps_calls st @ cs" "vault_only cs" by blast
  have st1: "st\<lparr>ps_calls := calls\<rparr> = grown st [] [] cs" by (simp add: cs(1) set_calls_grown)
  have crashed: ?thesis if "rep = Inl (Crashed e)" "st' = grown st [] [] cs" for e
    using that stage_crash[OF that cs(2)] by (intro exI[of _ None]) simp
  have refused: ?thesis if "refuse (bound_row b (Some (actual_hash b)) ''rejected'' rs) (grown st [] [] cs) = (rep, st')" for rs
    using that stage_refuse[OF that cs(2)] by (intro exI[of _ None]) (auto simp: refuse_def)
  show ?thesis
  proof (cases r)
    case (Inl e)
    with assms True f st1 refused[of "''vault_lookup_failed''"] crashed show ?thesis
      by (cases e) (auto simp: publish_checked_def)
  next
    case (Inr l)
    show ?thesis
    proof (cases "hashes_match (JStr (al_content_hash l)) (actual_hash b) = Some True")
      case False
      with assms True f st1 Inr refused[of "''content_hash_mismatch''"] crashed show ?thesis
        by (auto simp: publish_checked_def split: option.splits bool.splits)
    next
      case hash: True
      with assms True f st1 Inr
      have "publish_claim env now b (Some l) (effective_dry env (Some l)) (grown st [] [] cs) = (rep, st')"
        by (simp add: publish_checked_def effective_dry_def)
      from stage_after_calls[OF publish_claim_result[OF this] cs(2)] True hash f Inr show ?thesis
        by (intro exI[of _ "Some l"]) (simp add: vault_checked_def)
    qed
  qed
qed

lemma publish_bound_result:
  assumes "publish_bound env now b bind asset_id st = (rep, st')"
  shows "\<exists>lookup. stage_ok env b (effective_dry env lookup) st rep st' \<and>
    (\<forall>body. rep = Inr body \<longrightarrow> vault_checked env b asset_id lookup (ps_calls st) \<and>
       \<not> kst_blocked (is_blocked (ps_db st) (bq_function_text b)) \<and>
       hashes_match (bd_content_hash bind) (actual_hash b) = Some True)"
proof -
  have crashed: ?thesis if "rep = Inl (Crashed e)" "st' = st" for e
    using that stage_crash[OF that(1), of st' st "[]"] by (intro exI[of _ None]) (simp add: grown_nil)
  have refused: ?thesis if "refuse (bound_row b h ''rejected'' rs) st = (rep, st')" for h rs
    using that stage_refuse[of b h rs st "[]"] by (intro exI[of _ None]) (auto simp: refuse_def grown_nil)
  show ?thesis
  proof (cases "kst_blocked (is_blocked (ps_db st) (bq_function_text b))")
    case True
    with assms crashed refused show ?thesis
      by (auto simp: publish_bound_def split: option.splits)
  next
    case False
    show ?thesis
    proof (cases "hashes_match (bd_content_hash bind) (actual_hash b) = Some True")
      case False
      with assms \<open>\<not> kst_blocked _\<close> crashed refused[of "Some (actual_hash b)" "''content_hash_mismatch''"] show ?thesis
        by (auto simp: publish_bound_def split: option.splits bool.splits)
    next
      case True
      with assms False have "publish_checked env now b asset_id st = (rep, st')"
        by (simp add: publish_bound_def)
      from publish_checked_result[OF this] True False show ?thesis by blast
    qed
  qed
qed

section \<open>The whole route\<close>

text \<open>A request whose token was verified, with the claims it carries.\<close>

definition admitted ::
    "pub_env \<Rightarrow> row_id \<Rightarrow> instant \<Rightarrow> publish_request \<Rightarrow> claims \<Rightarrow> binding \<Rightarrow> bound_request \<Rightarrow> bool" where
  "admitted env i now rq cl bind b \<longleftrightarrow>
     bq_id b = i \<and> py_uuid (pq_agent_run_id rq) = Some (bq_run b) \<and>
     b64decode_strict (pq_asset_b64 rq) = Some (bq_bytes b) \<and>
     verify_token env now (pq_token rq) = Inr cl \<and> bound_claims env cl = Inr bind \<and>
     jget cl ''jti'' = Some (bq_jti b) \<and> pv_adapt env (bq_jti b) = Some (bq_jti_text b) \<and>
     bq_function b = bd_function_id bind \<and> pv_adapt env (bd_function_id bind) = Some (bq_function_text b) \<and>
     bq_decision b = safe_uuid env (jget cl ''gate_decision_id'')"

lemma publish_cases:
  assumes "publish env i now rq st = (rep, st')"
  obtains
    (early) att where "st' = grown st att [] []" "audit_ok i rep att" "\<And>body. rep \<noteq> Inr body"
  | (bound) cl bind b where "admitted env i now rq cl bind b"
      "publish_bound env now b bind (pq_asset_id rq) st = (rep, st')"
proof -
  have stop: thesis if "(Inl (Refused n d), st) = (rep, st')" for n d
    using early[of "[]"] that by (auto simp: grown_nil audit_ok_def)
  have crash: thesis if "(Inl (Crashed e), st) = (rep, st')" for e
    using early[of "[]"] that by (auto simp: grown_nil audit_ok_def)
  have refused: thesis if "refuse (attempt_row i run gd f j h ''rejected'' rs) st = (rep, st')" for run gd f j h rs
    using early[of "[attempt_row i run gd f j h ''rejected'' rs]"] that
      refuse_ok[of "attempt_row i run gd f j h ''rejected'' rs" st "[]" "[]" rep st']
    by (auto simp: refuse_def grown_nil attempt_row_def)
  show thesis
  proof (cases "if pq_agent_run_id rq = [] then None else py_uuid (pq_agent_run_id rq)")
    case None
    with assms have "(Inl (Refused 400 ''agent_run_id must be a uuid''), st) = (rep, st')"
      by (simp add: publish_def)
    then show thesis by (rule stop)
  next
    case run: (Some run)
    show thesis
    proof (cases "b64decode_strict (pq_asset_b64 rq)")
      case None
      with assms run have "(Inl (Refused 400 ''asset_bytes_b64 is not base64''), st) = (rep, st')"
        by (simp add: publish_def)
      then show thesis by (rule stop)
    next
      case bs: (Some bs)
      show thesis
      proof (cases "verify_token env now (pq_token rq)")
        case (Inl e)
        show thesis
        proof (cases e)
          case (Verification rs)
          with assms run bs Inl show thesis by (intro refused) (simp add: publish_def)
        next
          case (VerifyCrash c)
          with assms run bs Inl show thesis by (intro crash[of c]) (simp add: publish_def)
        qed
      next
        case cl: (Inr cl)
        show thesis
        proof (cases "jget cl ''jti''")
          case None
          with assms run bs cl have "(Inl (Crashed ''KeyError''), st) = (rep, st')"
            by (simp add: publish_def)
          then show thesis by (rule crash)
        next
          case j: (Some j)
          show thesis
          proof (cases "\<exists>bind jt f. bound_claims env cl = Inr bind \<and> pv_adapt env j = Some jt \<and>
                 pv_adapt env (bd_function_id bind) = Some f")
            case False
            with assms run bs cl j have "(\<exists>e. (Inl (Crashed e), st) = (rep, st')) \<or>
               (\<exists>run gd f j h rs. refuse (attempt_row i run gd f j h ''rejected'' rs) st = (rep, st'))"
              by (cases "bound_claims env cl"; cases "pv_adapt env j")
                (auto simp: publish_def split: option.splits verify_error.splits)
            then show thesis using crash refused by blast
          next
            case True
            then obtain bind jt f where b: "bound_claims env cl = Inr bind" "pv_adapt env j = Some jt"
              "pv_adapt env (bd_function_id bind) = Some f" by blast
            let ?b = "\<lparr>bq_id = i, bq_run = run, bq_decision = safe_uuid env (jget cl ''gate_decision_id''),
               bq_function = bd_function_id bind, bq_function_text = f, bq_jti = j, bq_jti_text = jt, bq_bytes = bs\<rparr>"
            have "admitted env i now rq cl bind ?b"
              using run bs cl j b by (simp add: admitted_def split: if_splits)
            moreover have "publish_bound env now ?b bind (pq_asset_id rq) st = (rep, st')"
              using assms run bs cl j b by (simp add: publish_def)
            ultimately show thesis by (rule bound)
          qed
        qed
      qed
    qed
  qed
qed

lemma publish_earned:
  assumes "publish env i now rq st = (Inr body, st')"
  shows "\<exists>cl bind b lookup jt j cs.
     admitted env i now rq cl bind b \<and>
     \<not> kst_blocked (is_blocked (ps_db st) (bq_function_text b)) \<and>
     hashes_match (bd_content_hash bind) (sha256_hex (bq_bytes b)) = Some True \<and>
     vault_checked env b (pq_asset_id rq) lookup (ps_calls st) \<and>
     bq_jti_text b = Some j \<and> \<not> jti_seen j (ps_db st) \<and> jl_jti jt = j \<and>
     st' = grown st [bound_row b (Some (sha256_hex (bq_bytes b))) ''published''
       (if effective_dry env lookup then ''published_dry_run'' else ''published'')] [jt] cs \<and>
     (if effective_dry env lookup then vault_only cs else live_ok env (bq_bytes b) cs)"
  using assms
proof (cases rule: publish_cases)
  case (bound cl bind b)
  from publish_bound_result[OF bound(2)] obtain lookup where
    s: "stage_ok env b (effective_dry env lookup) st (Inr body) st'" and
    v: "vault_checked env b (pq_asset_id rq) lookup (ps_calls st)"
       "\<not> kst_blocked (is_blocked (ps_db st) (bq_function_text b))"
       "hashes_match (bd_content_hash bind) (sha256_hex (bq_bytes b)) = Some True" by auto
  from s obtain att jt cs where g: "st' = grown st att jt cs" "claim_ok b (ps_db st) jt"
    "answer_ok env b (effective_dry env lookup) (Inr body) att jt cs"
    "if effective_dry env lookup then vault_only cs else length (drafts cs) \<le> 1"
    by (auto simp: stage_ok_def)
  then obtain j row where "jt = [row]" "jl_jti row = j" "bq_jti_text b = Some j" "\<not> jti_seen j (ps_db st)"
    by (auto simp: claim_ok_def answer_ok_def)
  with bound(1) v g show ?thesis
    by (intro exI[of _ cl] exI[of _ bind] exI[of _ b] exI[of _ lookup] exI[of _ row] exI[of _ j] exI[of _ cs])
       (simp add: answer_ok_def)
next
  case (early att)
  from early(3)[of body] show ?thesis by simp
qed

text \<open>C3: A published row is earned. When POST /publish answers, a gate token was verified
for this request, no kill switch was active for the function the token binds, the hash
the token binds equals the digest recomputed over exactly the decoded bytes (and so does
the Vault's own hash when an asset id was given), the token's jti had never been claimed
and is claimed now, and exactly one row was appended, published, with that digest, jti
and function; a row that is not a dry run was preceded by exactly one draft of the
decoded text with the queue under its cap.\<close>

theorem published_is_earned:
  assumes "publish env i now rq st = (Inr body, st')"
  shows "\<exists>cl bind b lookup jt j cs.
     admitted env i now rq cl bind b \<and>
     \<not> kst_blocked (is_blocked (ps_db st) (bq_function_text b)) \<and>
     hashes_match (bd_content_hash bind) (sha256_hex (bq_bytes b)) = Some True \<and>
     vault_checked env b (pq_asset_id rq) lookup (ps_calls st) \<and>
     bq_jti_text b = Some j \<and> \<not> jti_seen j (ps_db st) \<and> jl_jti jt = j \<and>
     st' = grown st [bound_row b (Some (sha256_hex (bq_bytes b))) ''published''
       (if effective_dry env lookup then ''published_dry_run'' else ''published'')] [jt] cs \<and>
     (if effective_dry env lookup then vault_only cs else live_ok env (bq_bytes b) cs)"
  by (rule publish_earned[OF assms])

lemma publish_frame:
  assumes "publish env i now rq st = (rep, st')"
  shows "\<exists>att jt cs. st' = grown st att jt cs \<and> audit_ok i rep att \<and> length jt \<le> 1 \<and>
     (\<forall>row\<in>set jt. \<not> jti_seen (jl_jti row) (ps_db st)) \<and> length (drafts cs) \<le> 1"
  using assms
proof (cases rule: publish_cases)
  case (early att)
  then show ?thesis by - (rule exI[of _ att], rule exI[of _ "[]"], rule exI[of _ "[]"], simp add: drafts_def)
next
  case (bound cl bind b)
  then have i: "bq_id b = i" by (simp add: admitted_def)
  from publish_bound_result[OF bound(2)] obtain lookup where
    "stage_ok env b (effective_dry env lookup) st rep st'" by auto
  then obtain att jt cs where g: "st' = grown st att jt cs" "audit_ok i rep att" "claim_ok b (ps_db st) jt"
    "if effective_dry env lookup then vault_only cs else length (drafts cs) \<le> 1"
    by (auto simp: stage_ok_def i)
  moreover have "length (drafts cs) \<le> 1" using g(4) drafts_vault[of cs] by (auto split: if_splits)
  ultimately show ?thesis
    by - (rule exI[of _ att], rule exI[of _ jt], rule exI[of _ cs], auto simp: claim_ok_def)
qed

lemma py_uuid_empty [simp]: "py_uuid [] = None"
  by (simp add: py_uuid_def strip_braces_def)

lemma publish_admitted:
  "admitted env i now rq cl bind b \<Longrightarrow> publish env i now rq st = publish_bound env now b bind (pq_asset_id rq) st"
  by (cases b) (auto simp: admitted_def publish_def)

text \<open>C7: One audit row per answered request. An answer appends exactly one published row
and a 403 exactly one rejected row, each the row its body describes, while a 400 and an
uncaught exception append none; besides publish attempts and at most one new ledger
entry no table changes, and no request drafts more than one post.\<close>

theorem publish_audit_trail:
  assumes "publish env i now rq st = (rep, st')"
  shows "\<exists>att jt cs. st' = \<lparr>ps_db = (ps_db st)\<lparr>db_attempts := db_attempts (ps_db st) @ att,
       db_jtis := db_jtis (ps_db st) @ jt\<rparr>, ps_calls = ps_calls st @ cs\<rparr> \<and>
     audit_ok i rep att \<and> length jt \<le> 1 \<and> length (drafts cs) \<le> 1"
  using publish_frame[OF assms] unfolding grown_def by blast

lemma stage_dry_calls:
  "stage_ok env b True st rep st' \<Longrightarrow> \<exists>cs. ps_calls st' = ps_calls st @ cs \<and> vault_only cs"
  by (auto simp: stage_ok_def grown_def)

lemma publish_bound_loop_proof:
  assumes "publish_bound env now b bind asset_id st = (rep, st')" "truthy asset_id"
    "fst (fetch_asset_and_agent_name env (the asset_id) (ps_calls st)) = Inr l" "al_agent_name l = AGENT_NAME_LOOP_PROOF"
  shows "stage_ok env b True st rep st'"
proof -
  obtain calls where f: "fetch_asset_and_agent_name env (the asset_id) (ps_calls st) = (Inr l, calls)"
    using assms(3) by (metis prod.collapse)
  from fetch_log[OF f] obtain cs where cs: "calls = ps_calls st @ cs" "vault_only cs" by blast
  have st1: "st\<lparr>ps_calls := calls\<rparr> = grown st [] [] cs" by (simp add: cs(1) set_calls_grown)
  have crash: "stage_ok env b True st rep st'" if "(Inl (Crashed e), grown st [] [] ds) = (rep, st')" "vault_only ds" for e ds
    using that stage_crash[of rep e st' st ds] by auto
  have refused: "stage_ok env b True st rep st'"
    if "refuse (bound_row b h ''rejected'' rs) (grown st [] [] ds) = (rep, st')" "vault_only ds" for h rs ds
    using stage_refuse that by blast
  show ?thesis
  proof (cases "kst_blocked (is_blocked (ps_db st) (bq_function_text b))")
    case True
    with assms(1) crash[of _ "[]"] refused[of _ _ "[]"] show ?thesis
      by (auto simp: publish_bound_def grown_nil split: option.splits)
  next
    case False
    show ?thesis
    proof (cases "hashes_match (bd_content_hash bind) (actual_hash b) = Some True")
      case hash: False
      with assms(1) False crash[of _ "[]"] refused[of _ _ "[]"] show ?thesis
        by (auto simp: publish_bound_def grown_nil split: option.splits bool.splits)
    next
      case True
      with assms(1) False have ch: "publish_checked env now b asset_id st = (rep, st')"
        by (simp add: publish_bound_def)
      show ?thesis
      proof (cases "hashes_match (JStr (al_content_hash l)) (actual_hash b) = Some True")
        case False
        with ch assms(2) f st1 crash[of _ cs] refused[of _ _ cs] cs(2) show ?thesis
          by (auto simp: publish_checked_def split: option.splits bool.splits)
      next
        case True
        with ch assms(2,4) f st1 have "publish_claim env now b (Some l) True (grown st [] [] cs) = (rep, st')"
          by (simp add: publish_checked_def)
        from stage_after_calls[OF publish_claim_result[OF this] cs(2)] show ?thesis .
      qed
    qed
  qed
qed

text \<open>Dry runs never reach Buffer. When PUBLISHER_DRY_RUN is in its dry setting, or
when the asset of the request resolves to an agent run of the loop proof circuit, every
external call of the request goes to the Vault, on every branch and for every token, so
a proof-circuit asset is never drafted whatever the flag says.\<close>

theorem dry_run_never_drafts:
  assumes "publish env i now rq st = (rep, st')"
    and "publisher_dry_run env \<or>
      (truthy (pq_asset_id rq) \<and>
       (\<exists>l. fst (fetch_asset_and_agent_name env (the (pq_asset_id rq)) (ps_calls st)) = Inr l \<and>
            al_agent_name l = AGENT_NAME_LOOP_PROOF))"
  shows "\<exists>cs. ps_calls st' = ps_calls st @ cs \<and> vault_only cs"
  using assms(1)
proof (cases rule: publish_cases)
  case (early att)
  then show ?thesis by (intro exI[of _ "[]"]) (simp add: grown_def)
next
  case (bound cl bind b)
  from assms(2) consider "publisher_dry_run env" | l where "truthy (pq_asset_id rq)"
    "fst (fetch_asset_and_agent_name env (the (pq_asset_id rq)) (ps_calls st)) = Inr l"
    "al_agent_name l = AGENT_NAME_LOOP_PROOF" by blast
  then have "stage_ok env b True st rep st'"
  proof cases
    case 1
    then have "effective_dry env lookup" for lookup by (simp add: effective_dry_def)
    with publish_bound_result[OF bound(2)] show ?thesis by auto
  next
    case 2
    then show ?thesis using publish_bound_loop_proof[OF bound(2)] by blast
  qed
  then show ?thesis by (rule stage_dry_calls)
qed

text \<open>A live request that passed every check up to the claim.\<close>

definition cleared ::
    "pub_env \<Rightarrow> row_id \<Rightarrow> instant \<Rightarrow> publish_request \<Rightarrow> pub_state \<Rightarrow> bound_request \<Rightarrow> string \<Rightarrow> bool" where
  "cleared env i now rq st b j \<longleftrightarrow>
     (\<exists>cl bind. admitted env i now rq cl bind b \<and>
        hashes_match (bd_content_hash bind) (sha256_hex (bq_bytes b)) = Some True) \<and>
     \<not> kst_blocked (is_blocked (ps_db st) (bq_function_text b)) \<and>
     \<not> truthy (pq_asset_id rq) \<and> \<not> publisher_dry_run env \<and> truthy (pv_buffer_url env) \<and>
     jtruth (bq_jti b) \<and> bq_jti_text b = Some j \<and> \<not> jti_seen j (ps_db st)"

lemma is_blocked_grown: "is_blocked (ps_db (grown st att jt cs)) f = is_blocked (ps_db st) f"
  by (simp add: is_blocked_def grown_def)

lemma publish_cleared:
  "cleared env i now rq st b j \<Longrightarrow>
   publish env i now rq st = publish_live env b None (grown st [] [\<lparr>jl_jti = j, jl_decision = bq_decision b, jl_consumed = now\<rparr>] [])"
proof -
  have g: "st\<lparr>ps_db := (ps_db st)\<lparr>db_jtis := db_jtis (ps_db st) @ [x]\<rparr>\<rparr> = grown st [] [x] []" for x
    by (simp add: grown_def)
  assume "cleared env i now rq st b j"
  then show ?thesis
    by (auto simp: cleared_def publish_admitted publish_bound_def publish_checked_def publish_claim_def
        consume_jti_def g)
qed

text \<open>Some failures leave no trace but a burned token. A live request that passed every
check and whose bytes are not UTF-8 ends in an uncaught UnicodeDecodeError after its jti
was claimed: the answer is a 500, no publish attempt is recorded on that branch, and
presenting the same token again is refused as a replay.\<close>

theorem undecodable_asset_burns_token:
  assumes "cleared env i now rq st b j"
    and "fst (list_queue_count env (ps_calls st)) = Inr n" and "n < BUFFER_FREE_TIER_QUEUE_CAP"
    and "utf8_decode (bq_bytes b) = None"
  shows "\<exists>st'. publish env i now rq st = (Inl (Crashed ''UnicodeDecodeError''), st') \<and>
     db_attempts (ps_db st') = db_attempts (ps_db st) \<and> jti_seen j (ps_db st') \<and>
     (\<exists>body st2. publish env i2 now rq st' = (Inl (RefusedWith 403 body), st2) \<and>
        pp_reason body = ''token_replayed'')"
proof -
  obtain calls where lq: "list_queue_count env (ps_calls st) = (Inr n, calls)"
    using assms(2) by (metis prod.collapse)
  let ?jt = "\<lparr>jl_jti = j, jl_decision = bq_decision b, jl_consumed = now\<rparr>"
  let ?st = "grown st [] [?jt] [BufferListQueue (pv_channel env)]"
  have url: "truthy (pv_buffer_url env)" using assms(1) by (simp add: cleared_def)
  have pub: "publish env i now rq st = (Inl (Crashed ''UnicodeDecodeError''), ?st)"
    using assms(3,4) lq list_queue_log[OF lq] url
    by (auto simp: publish_cleared[OF assms(1)] publish_live_def grown_def)
  have seen: "jti_seen j (ps_db ?st)" by (simp add: grown_def jti_seen_def)
  obtain cl bind where adm: "admitted env i now rq cl bind b"
    and h: "hashes_match (bd_content_hash bind) (sha256_hex (bq_bytes b)) = Some True"
    using assms(1) by (auto simp: cleared_def)
  have cl: "\<not> kst_blocked (is_blocked (ps_db st) (bq_function_text b))" "\<not> truthy (pq_asset_id rq)"
    "jtruth (bq_jti b)" "bq_jti_text b = Some j" using assms(1) by (simp_all add: cleared_def)
  from adm have "admitted env i2 now rq cl bind (b\<lparr>bq_id := i2\<rparr>)" by (simp add: admitted_def)
  then have "publish env i2 now rq ?st =
      refuse (bound_row (b\<lparr>bq_id := i2\<rparr>) (Some (sha256_hex (bq_bytes b))) ''rejected'' ''token_replayed'') ?st"
    using cl h seen
    by (simp add: publish_admitted publish_bound_def publish_checked_def publish_claim_def
        consume_jti_def is_blocked_grown)
  with pub seen show ?thesis
    by (auto simp: refuse_def publish_body_def grown_def)
qed

text \<open>A refusal at the queue cap burns the token as well. The jti is claimed before the
Buffer queue is read, so a live request refused because the queue is full, or because
mcp-buffer reports an error, has its row and its 403, and its token can never publish.\<close>

theorem queue_cap_burns_token:
  assumes "cleared env i now rq st b j"
    and "fst (list_queue_count env (ps_calls st)) = Inr n \<and> BUFFER_FREE_TIER_QUEUE_CAP \<le> n \<or>
         fst (list_queue_count env (ps_calls st)) = Inl Failed"
  shows "\<exists>body st' a. publish env i now rq st = (Inl (RefusedWith 403 body), st') \<and>
     db_attempts (ps_db st') = db_attempts (ps_db st) @ [a] \<and>
     pa_reason a = ''buffer_queue_cap_exceeded'' \<and> jti_seen j (ps_db st')"
proof -
  obtain r calls where lq: "list_queue_count env (ps_calls st) = (r, calls)" by fastforce
  let ?jt = "\<lparr>jl_jti = j, jl_decision = bq_decision b, jl_consumed = now\<rparr>"
  let ?row = "bound_row b (Some (sha256_hex (bq_bytes b))) ''rejected'' ''buffer_queue_cap_exceeded''"
  have url: "truthy (pv_buffer_url env)" using assms(1) by (simp add: cleared_def)
  have "publish env i now rq st = refuse ?row (grown st [] [?jt] [BufferListQueue (pv_channel env)])"
    using assms(2) lq list_queue_log[OF lq] url
    by (auto simp: publish_cleared[OF assms(1)] publish_live_def grown_def)
  then show ?thesis
    by (auto simp: refuse_def record_attempt_def grown_def jti_seen_def)
qed

end
