(* ===== verification/Governance_System.thy ===== *)
theory Governance_System
  imports Approval_Props Publisher_Props
begin

text \<open>Gatekeeper and Publisher working on one database: every request of both services
is a step, in any order, with approval clicks split into their reading and their
deciding phase and kill-switch toggles into read and write. Safety of what gets
published is proved over all reachable states.\<close>

section \<open>States and steps\<close>

record issued =
  is_claims :: claims
  is_request :: gate_check_request
  is_decision :: gate_decision

record gov_sys =
  sy_state :: pub_state
  sy_issued :: "issued list"
  sy_reads :: "(principal \<times> approval_row) list"

abbreviation sys_db :: "gov_sys \<Rightarrow> gov_db" where
  "sys_db s \<equiv> ps_db (sy_state s)"

definition with_db :: "gov_sys \<Rightarrow> gov_db \<Rightarrow> gov_sys" where
  "with_db s db = s\<lparr>sy_state := (sy_state s)\<lparr>ps_db := db\<rparr>\<rparr>"

definition claims_for :: "gk_env \<Rightarrow> fresh_ids \<Rightarrow> instant \<Rightarrow> gate_check_request \<Rightarrow> claims" where
  "claims_for g fr now rq = build_claims (ge_issuer g) (ge_audience g) (ge_token_ttl g) (fr_decision fr)
     (or_else (gr_subject rq) (gr_agent_run_id rq)) (or_else (gr_content_hash rq) [])
     (gr_function_id rq) (now div 1000000) (fr_jti fr)"

text \<open>The claims a gate check signed, when it answered with a token.\<close>

definition issued_by :: "gk_env \<Rightarrow> fresh_ids \<Rightarrow> instant \<Rightarrow> gate_check_request \<Rightarrow> (unit, gate_check_response) reply \<Rightarrow> gov_db \<Rightarrow> issued list" where
  "issued_by g fr now rq rep db' =
    (case rep of
       Inr resp \<Rightarrow> if gc_token resp = None then []
                   else [\<lparr>is_claims = claims_for g fr now rq, is_request = rq, is_decision = last (db_decisions db')\<rparr>]
     | Inl _ \<Rightarrow> [])"

text \<open>Unforgeability of the signature, as the verifier uses it: claims that decode from a
presented token are claims Gatekeeper signed.\<close>

definition genuine :: "pub_env \<Rightarrow> gov_sys \<Rightarrow> publish_request \<Rightarrow> instant \<Rightarrow> bool" where
  "genuine p s rq now \<longleftrightarrow> (\<forall>t cl. pq_token rq = Some t \<longrightarrow> pv_decode p t now = Inr cl \<longrightarrow>
     cl \<in> is_claims ` set (sy_issued s))"

inductive gov_step :: "gk_env \<Rightarrow> pub_env \<Rightarrow> gov_sys \<Rightarrow> gov_sys \<Rightarrow> bool"
  for g :: gk_env and p :: pub_env where
  gate: "gate_check g fr now rq (sys_db s) = (rep, db') \<Longrightarrow>
    gov_step g p s ((with_db s db')\<lparr>sy_issued := sy_issued s @ issued_by g fr now rq rep db'\<rparr>)"
| read: "approval_read hs tok (sys_db s) = Inr (pr, ap) \<Longrightarrow>
    gov_step g p s (s\<lparr>sy_reads := sy_reads s @ [(pr, ap)]\<rparr>)"
| decide: "(pr, ap) \<in> set (sy_reads s) \<Longrightarrow> approval_decide idn pr ap b (sys_db s) = (rep, db') \<Longrightarrow>
    gov_step g p s (with_db s db')"
| toggle: "gov_step g p s (with_db s (toggle_write idn existing active reason who (sys_db s)))"
| publish_step: "genuine p s rq now \<Longrightarrow> publish p i now rq (sy_state s) = (rep, st') \<Longrightarrow>
    gov_step g p s (s\<lparr>sy_state := st'\<rparr>)"

inductive_cases gov_stepE: "gov_step g p s t"

definition initial_sys :: "nat list \<Rightarrow> gov_sys" where
  "initial_sys runs = \<lparr>sy_state = \<lparr>ps_db = empty_gov runs, ps_calls = []\<rparr>, sy_issued = [], sy_reads = []\<rparr>"

definition reachable :: "gk_env \<Rightarrow> pub_env \<Rightarrow> nat list \<Rightarrow> gov_sys \<Rightarrow> bool" where
  "reachable g p runs s \<longleftrightarrow> (gov_step g p)\<^sup>*\<^sup>* (initial_sys runs) s"

lemma reachable_induct [consumes 1, case_names init step]:
  assumes "reachable g p runs s" "P (initial_sys runs)"
    "\<And>s t. reachable g p runs s \<Longrightarrow> P s \<Longrightarrow> gov_step g p s t \<Longrightarrow> P t"
  shows "P s"
  using assms(1) unfolding reachable_def
proof (induction rule: rtranclp_induct)
  case base
  show ?case by (rule assms(2))
next
  case (step y z)
  then show ?case using assms(3) unfolding reachable_def by blast
qed

section \<open>What each request leaves alone\<close>

lemma with_db_sel [simp]: "sys_db (with_db s db) = db" "sy_issued (with_db s db) = sy_issued s"
  "sy_reads (with_db s db) = sy_reads s"
  by (simp_all add: with_db_def)

text \<open>How an inbox row may evolve: identity and request columns stay; a decided row keeps
its status and its decider.\<close>

definition row_evolves :: "approval_row \<Rightarrow> approval_row \<Rightarrow> bool" where
  "row_evolves r r' \<longleftrightarrow> ap_id r' = ap_id r \<and> ap_agent_run r' = ap_agent_run r \<and> ap_function r' = ap_function r \<and>
     ap_content_hash r' = ap_content_hash r \<and> ap_link r' = ap_link r \<and>
     (ap_consumed r \<noteq> None \<longrightarrow> ap_consumed r' = ap_consumed r \<and> ap_decided_by r' = ap_decided_by r \<and>
        (ap_status r \<noteq> STATUS_PENDING \<longrightarrow> ap_status r' = ap_status r))"

lemma row_evolves_refl [simp]: "row_evolves r r"
  by (simp add: row_evolves_def)

text \<open>A row that is approved after a deciding phase was approved before, or was consumed
by that phase for its principal.\<close>

definition row_decided :: "principal \<Rightarrow> approval_row \<Rightarrow> approval_row \<Rightarrow> bool" where
  "row_decided pr r r' \<longleftrightarrow> row_evolves r r' \<and>
     (ap_status r' = STATUS_APPROVED \<longrightarrow>
        ap_status r = STATUS_APPROVED \<and> ap_consumed r' = ap_consumed r \<and> ap_decided_by r' = ap_decided_by r \<or>
        ap_consumed r = None \<and> ap_consumed r' \<noteq> None \<and> ap_decided_by r' = Some (decided_by pr))"

lemma row_decided_refl [simp]: "row_decided pr r r"
  by (simp add: row_decided_def)

lemma statuses [simp]: "STATUS_EXPIRED \<noteq> STATUS_APPROVED" "STATUS_PENDING \<noteq> STATUS_APPROVED"
  "STATUS_REJECTED \<noteq> STATUS_APPROVED" "STATUS_APPROVED \<noteq> STATUS_PENDING"
  by (simp_all add: STATUS_EXPIRED_def STATUS_APPROVED_def STATUS_PENDING_def STATUS_REJECTED_def)

lemma decide_inbox:
  assumes "approval_decide idn pr ap b db = (rep, db')"
  shows "\<exists>F. db_inbox db' = map F (db_inbox db) \<and> (\<forall>r. row_decided pr r (F r))"
proof -
  obtain i now where idn: "idn = (i, now)" by (cases idn)
  let ?st = "if b then STATUS_APPROVED else STATUS_REJECTED"
  let ?c = "\<lambda>r. r\<lparr>ap_status := ?st, ap_decided_by := Some (decided_by pr), ap_decided_at := Some now,
     ap_consumed := Some now, ap_decision := ap_decision r\<rparr>"
  let ?C = "\<lambda>r. if consumable (ap_id ap) r then ?c r else r"
  let ?L = "\<lambda>r. if ap_id r = ap_id ap then r\<lparr>ap_decision := Some i\<rparr> else r"
  let ?E = "\<lambda>r. if ap_id r = ap_id ap \<and> ap_status r = STATUS_PENDING then r\<lparr>ap_status := STATUS_EXPIRED\<rparr> else r"
  have good: "row_decided pr r (?C r)" "row_decided pr r (?L (?C r))" "row_decided pr r (?E r)" for r
    by (auto simp: row_decided_def row_evolves_def consumable_def)
  have cases: "db_inbox db' = db_inbox db \<or> db_inbox db' = map ?E (db_inbox db) \<or>
      db_inbox db' = map ?C (db_inbox db) \<or> db_inbox db' = map (\<lambda>r. ?L (?C r)) (db_inbox db)"
  proof (cases "ap_consumed ap \<noteq> None \<or> ap_expires ap \<le> now")
    case True
    with assms show ?thesis
      by (auto simp: approval_decide_def idn link_refusal_def record_approval_action_def mark_expired_def
          update_where_def Let_def split: if_splits)
  next
    case False
    obtain c db1 where c: "consume_link (ap_id ap) ?st (decided_by pr) None now db = (c, db1)" by fastforce
    then have db1: "db_inbox db1 = map ?C (db_inbox db)"
      by (auto simp: consume_link_def Let_def update_where_def)
    have ins: "db_inbox db2 = map ?C (db_inbox db) \<and> gd_id d = i"
      if "insert_gate_decision i now r who oc rs db1 = Inr (d, db2)" for r who oc rs d db2
      using insert_decision_result[OF that] db1 by auto
    have "db_inbox db' = db_inbox db1 \<or> db_inbox db' = map ?L (db_inbox db1)"
      using assms False c ins db1
      by (auto simp: approval_decide_def idn link_refusal_def record_approval_action_def link_decision_def
          update_where_def Let_def split: option.splits sum.splits)
    with db1 show ?thesis by (auto simp: comp_def)
  qed
  then show ?thesis
  proof (elim disjE)
    assume "db_inbox db' = db_inbox db"
    then show ?thesis by (intro exI[of _ "\<lambda>r. r"]) simp
  next
    assume "db_inbox db' = map ?E (db_inbox db)"
    with good(3) show ?thesis by blast
  next
    assume "db_inbox db' = map ?C (db_inbox db)"
    with good(1) show ?thesis by blast
  next
    assume "db_inbox db' = map (\<lambda>r. ?L (?C r)) (db_inbox db)"
    with good(2) show ?thesis by blast
  qed
qed

lemma decide_frame:
  assumes "approval_decide idn pr ap b db = (rep, db')"
  shows "db_agent_runs db' = db_agent_runs db" "db_attempts db' = db_attempts db" "db_jtis db' = db_jtis db"
    "db_switches db' = db_switches db" "appended (db_decisions db) (db_decisions db')"
    "appended (db_actions db) (db_actions db')"
  using assms
  by (auto simp: approval_decide_def link_refusal_def record_approval_action_def mark_expired_def consume_link_def
      link_decision_def Let_def split: prod.splits if_splits option.splits sum.splits dest!: insert_decision_result)

section \<open>Invariants\<close>

definition reads_ok :: "gov_sys \<Rightarrow> bool" where
  "reads_ok s \<longleftrightarrow> (\<forall>(pr, ap)\<in>set (sy_reads s). pr_id pr \<noteq> [])"

text \<open>An approved row was consumed by a signed-in principal.\<close>

definition inbox_ok :: "gov_sys \<Rightarrow> bool" where
  "inbox_ok s \<longleftrightarrow> (\<forall>r\<in>set (db_inbox (sys_db s)). ap_status r = STATUS_APPROVED \<longrightarrow>
     ap_consumed r \<noteq> None \<and> (\<exists>(pr, ap)\<in>set (sy_reads s). ap_decided_by r = Some (decided_by pr)))"

text \<open>What entitles a request to a token.\<close>

definition entitled :: "gk_env \<Rightarrow> gov_db \<Rightarrow> nat \<Rightarrow> gate_check_request \<Rightarrow> bool" where
  "entitled g db run rq \<longleftrightarrow> gate_level g rq \<in> {3, 4} \<or>
     gate_level g rq \<in> {1, 2} \<and> (\<exists>ap\<in>set (db_inbox db). ap_status ap = STATUS_APPROVED \<and>
       request_matches run (gr_function_id rq) (gr_content_hash rq) ap)"

definition issued_ok :: "gk_env \<Rightarrow> gov_sys \<Rightarrow> bool" where
  "issued_ok g s \<longleftrightarrow> (\<forall>x\<in>set (sy_issued s). is_decision x \<in> set (db_decisions (sys_db s)) \<and>
     gd_outcome (is_decision x) = ''approved'' \<and>
     entitled g (sys_db s) (gd_agent_run (is_decision x)) (is_request x) \<and>
     (\<exists>fr now. is_claims x = claims_for g fr now (is_request x) \<and> fr_decision fr = gd_id (is_decision x)))"

definition sys_inv :: "gk_env \<Rightarrow> gov_sys \<Rightarrow> bool" where
  "sys_inv g s \<longleftrightarrow> reads_ok s \<and> inbox_ok s \<and> issued_ok g s"

text \<open>Entitlement survives any evolution of the inbox rows.\<close>

lemma entitled_map:
  assumes "entitled g db run rq" "db_inbox db' = map F (db_inbox db)" "\<And>r. row_evolves r (F r)"
    "\<forall>r\<in>set (db_inbox db). ap_status r = STATUS_APPROVED \<longrightarrow> ap_consumed r \<noteq> None"
  shows "entitled g db' run rq"
proof -
  have "ap_status (F r) = STATUS_APPROVED \<and> request_matches run f h (F r)"
    if "r \<in> set (db_inbox db)" "ap_status r = STATUS_APPROVED" "request_matches run f h r" for r f h
    using that assms(3)[of r] assms(4) by (auto simp: row_evolves_def request_matches_def)
  with assms(1,2) show ?thesis unfolding entitled_def by auto
qed

lemma entitled_append: "entitled g db run rq \<Longrightarrow> db_inbox db' = db_inbox db @ xs \<Longrightarrow> entitled g db' run rq"
  by (auto simp: entitled_def)

lemma issued_ok_mono:
  assumes "issued_ok g s" "sy_issued t = sy_issued s"
    "set (db_decisions (sys_db s)) \<subseteq> set (db_decisions (sys_db t))"
    "\<And>run rq. entitled g (sys_db s) run rq \<Longrightarrow> entitled g (sys_db t) run rq"
  shows "issued_ok g t"
  using assms by (fastforce simp: issued_ok_def)

lemma inv_gate:
  assumes "sys_inv g s" "gate_check g fr now rq (sys_db s) = (rep, db')"
  shows "sys_inv g ((with_db s db')\<lparr>sy_issued := sy_issued s @ issued_by g fr now rq rep db'\<rparr>)" (is "sys_inv g ?t")
proof -
  have t: "sys_db ?t = db'" "sy_reads ?t = sy_reads s" by (simp_all add: with_db_def)
  have eff: "\<exists>ds aps. db_decisions db' = db_decisions (sys_db s) @ ds \<and> db_inbox db' = db_inbox (sys_db s) @ aps \<and>
      (\<forall>ap\<in>set aps. ap_status ap = STATUS_PENDING)"
    using assms(2) by (cases rule: gate_check_effect) (auto simp: pending_row_def)
  then obtain ds aps where ds: "db_decisions db' = db_decisions (sys_db s) @ ds"
    and aps: "db_inbox db' = db_inbox (sys_db s) @ aps" by blast
  have old: "issued_ok g (with_db s db')"
  proof (rule issued_ok_mono[of g s])
    show "issued_ok g s" using assms(1) by (simp add: sys_inv_def)
  qed (use ds entitled_append[OF _ aps] in simp_all)
  have new: "is_decision x \<in> set (db_decisions db') \<and> gd_outcome (is_decision x) = ''approved'' \<and>
     entitled g db' (gd_agent_run (is_decision x)) (is_request x) \<and>
     (\<exists>fr now. is_claims x = claims_for g fr now (is_request x) \<and> fr_decision fr = gd_id (is_decision x))"
    if "x \<in> set (issued_by g fr now rq rep db')" for x
  proof -
    from that obtain resp tk where r: "rep = Inr resp" "gc_token resp = Some tk"
      and x: "x = \<lparr>is_claims = claims_for g fr now rq, is_request = rq, is_decision = last (db_decisions db')\<rparr>"
      by (auto simp: issued_by_def split: sum.splits if_splits)
    from gate_check_token[OF assms(2)[unfolded r(1)] r(2)] obtain run d where
      d: "gate_level g rq \<in> {3, 4} \<or> gate_level g rq \<in> {1, 2} \<and> (\<exists>ap\<in>set (db_inbox (sys_db s)).
          ap_status ap = STATUS_APPROVED \<and> request_matches run (gr_function_id rq) (gr_content_hash rq) ap)"
        "gd_outcome d = ''approved''" "gd_agent_run d = run" "gd_id d = fr_decision fr"
        "db' = (sys_db s)\<lparr>db_decisions := db_decisions (sys_db s) @ [d]\<rparr>" by blast
    then show ?thesis by (auto simp: x entitled_def)
  qed
  have "issued_ok g ?t" using old new by (auto simp: issued_ok_def with_db_def)
  moreover have "inbox_ok ?t" using assms(1) eff by (auto simp: sys_inv_def inbox_ok_def t)
  moreover have "reads_ok ?t" using assms(1) by (simp add: sys_inv_def reads_ok_def t)
  ultimately show ?thesis by (simp add: sys_inv_def)
qed

lemma inv_decide:
  assumes "sys_inv g s" "(pr, ap) \<in> set (sy_reads s)" "approval_decide idn pr ap b (sys_db s) = (rep, db')"
  shows "sys_inv g (with_db s db')"
proof -
  obtain F where F: "db_inbox db' = map F (db_inbox (sys_db s))" "\<And>r. row_decided pr r (F r)"
    using decide_inbox[OF assms(3)] by blast
  have approved: "\<forall>r\<in>set (db_inbox (sys_db s)). ap_status r = STATUS_APPROVED \<longrightarrow> ap_consumed r \<noteq> None"
    using assms(1) by (auto simp: sys_inv_def inbox_ok_def)
  have ev: "row_evolves r (F r)" for r using F(2) by (simp add: row_decided_def)
  have "issued_ok g (with_db s db')"
  proof (rule issued_ok_mono[of g s])
    show "issued_ok g s" using assms(1) by (simp add: sys_inv_def)
    show "set (db_decisions (sys_db s)) \<subseteq> set (db_decisions (sys_db (with_db s db')))"
      using appended_subset[OF decide_frame(5)[OF assms(3)]] by simp
    show "entitled g (sys_db (with_db s db')) run rq" if "entitled g (sys_db s) run rq" for run rq
      using entitled_map[OF that F(1) ev approved] by simp
  qed simp
  moreover have "inbox_ok (with_db s db')"
  proof -
    have "ap_consumed (F r) \<noteq> None \<and> (\<exists>(pr, ap)\<in>set (sy_reads s). ap_decided_by (F r) = Some (decided_by pr))"
      if "r \<in> set (db_inbox (sys_db s))" "ap_status (F r) = STATUS_APPROVED" for r
    proof -
      from F(2)[of r] that(2) consider
        "ap_status r = STATUS_APPROVED" "ap_consumed (F r) = ap_consumed r" "ap_decided_by (F r) = ap_decided_by r"
        | "ap_consumed (F r) \<noteq> None" "ap_decided_by (F r) = Some (decided_by pr)"
        unfolding row_decided_def by blast
      then show ?thesis
      proof cases
        case 1
        with assms(1) that(1) show ?thesis by (simp add: sys_inv_def inbox_ok_def)
      next
        case 2
        with assms(2) show ?thesis by blast
      qed
    qed
    then show ?thesis using F(1) by (auto simp: inbox_ok_def)
  qed
  ultimately show ?thesis using assms(1) by (simp add: sys_inv_def reads_ok_def)
qed

lemma inv_step: "gov_step g p s t \<Longrightarrow> sys_inv g s \<Longrightarrow> sys_inv g t"
proof (induction rule: gov_step.cases)
  case (gate fr now rq s rep db')
  then show ?case using inv_gate by blast
next
  case (read hs tok s pr ap)
  then have "pr_id pr \<noteq> []"
    by (auto simp: approval_read_def require_principal_def split: sum.splits option.splits dest: principal_id_nonempty)
  with read show ?case by (auto simp: sys_inv_def reads_ok_def inbox_ok_def issued_ok_def)
next
  case (decide pr ap s idn b rep db')
  then show ?case using inv_decide by blast
next
  case (toggle s idn existing active reason who)
  then show ?case
    by (auto simp: sys_inv_def reads_ok_def inbox_ok_def issued_ok_def entitled_def toggle_write_def split: option.splits)
next
  case (publish_step s rq now i rep st')
  from publish_frame[OF this(4)] obtain att jt cs where "st' = grown (sy_state s) att jt cs" by blast
  with publish_step show ?case
    by (auto simp: sys_inv_def reads_ok_def inbox_ok_def issued_ok_def entitled_def grown_def)
qed

lemma inv_reachable: "reachable g p runs s \<Longrightarrow> sys_inv g s"
proof (induction rule: reachable_induct)
  case init
  show ?case by (simp add: initial_sys_def sys_inv_def reads_ok_def inbox_ok_def issued_ok_def empty_gov_def)
next
  case (step s t)
  then show ?case using inv_step by blast
qed

section \<open>Audit tables only grow\<close>

lemma step_appends:
  assumes "gov_step g p s t"
  shows "appended (db_decisions (sys_db s)) (db_decisions (sys_db t)) \<and>
    appended (db_attempts (sys_db s)) (db_attempts (sys_db t)) \<and>
    appended (db_actions (sys_db s)) (db_actions (sys_db t)) \<and>
    appended (db_jtis (sys_db s)) (db_jtis (sys_db t))"
  using assms
proof (cases rule: gov_step.cases)
  case (gate fr now rq rep db')
  have "sys_db t = db'" by (simp add: gate(1) with_db_def)
  with gate(2) show ?thesis by (cases rule: gate_check_effect) auto
next
  case (decide pr ap idn b rep db')
  with decide_frame[OF decide(3)] show ?thesis by simp
next
  case (toggle idn existing active reason who)
  then show ?thesis by (simp add: toggle_write_def split: option.split)
next
  case (publish_step rq now i rep st')
  from publish_frame[OF this(3)] obtain att jt cs where "st' = grown (sy_state s) att jt cs" by blast
  with publish_step show ?thesis by (simp add: grown_def)
qed simp

interpretation decision_log: append_log "\<lambda>s. db_decisions (sys_db s)" "gov_step g p"
  by unfold_locales (simp add: step_appends)

interpretation attempt_log: append_log "\<lambda>s. db_attempts (sys_db s)" "gov_step g p"
  by unfold_locales (simp add: step_appends)

interpretation action_log: append_log "\<lambda>s. db_actions (sys_db s)" "gov_step g p"
  by unfold_locales (simp add: step_appends)

section \<open>What gets published\<close>

text \<open>The driver writes text as that text.\<close>

definition adapts_text :: "pub_env \<Rightarrow> bool" where
  "adapts_text p \<longleftrightarrow> (\<forall>t. pv_adapt p (JStr t) = Some (Some t))"

definition published_rows :: "gov_db \<Rightarrow> publish_attempt list" where
  "published_rows db = filter (\<lambda>a. pa_outcome a = ''published'') (db_attempts db)"

definition normal_hash :: "gate_check_request \<Rightarrow> string" where
  "normal_hash rq = py_lower (py_strip (or_else (gr_content_hash rq) []))"

definition authorises :: "issued \<Rightarrow> publish_attempt \<Rightarrow> bool" where
  "authorises x a \<longleftrightarrow> truthy (gr_content_hash (is_request x)) \<and>
     pa_function a = Some (gr_function_id (is_request x)) \<and>
     pa_hash a = Some (normal_hash (is_request x)) \<and>
     (\<exists>j. jget (is_claims x) ''jti'' = Some (JStr j) \<and> pa_jti a = Some j)"

definition pub_inv :: "gov_sys \<Rightarrow> bool" where
  "pub_inv s \<longleftrightarrow> distinct (map pa_jti (published_rows (sys_db s))) \<and>
     (\<forall>a\<in>set (published_rows (sys_db s)). (\<exists>j. pa_jti a = Some j \<and> jti_seen j (sys_db s)) \<and>
        (\<exists>x\<in>set (sy_issued s). authorises x a))"

lemma bound_claims_for:
  "bound_claims p (claims_for g fr now rq) =
     Inr \<lparr>bd_content_hash = JStr (or_else (gr_content_hash rq) []), bd_function_id = JStr (gr_function_id rq)\<rparr>"
  by (simp add: bound_claims_def extract_function_id_and_content_hash_def claims_for_def build_claims_def)

lemma jti_claims_for: "jget (claims_for g fr now rq) ''jti'' = Some (JStr (fr_jti fr))"
  by (simp add: claims_for_def build_claims_def)

lemma hashes_match_text:
  assumes "hashes_match (JStr h) (sha256_hex bs) = Some True"
  shows "h \<noteq> []" "py_lower (py_strip h) = sha256_hex bs"
  using assms hex_digest_normal[OF sha256_hex_digest[of bs]]
  by (auto simp: hashes_match_def sha256_hex_def Let_def split: if_splits)

lemma verify_token_decodes: "verify_token p now tok = Inr cl \<Longrightarrow> \<exists>t. tok = Some t \<and> pv_decode p t now = Inr cl"
  by (cases tok) (auto simp: verify_token_def split: if_splits option.splits sum.splits jwt_error.splits)

lemma publish_authorised:
  assumes "issued_ok g s" "adapts_text p" "genuine p s rq now" "publish p i now rq (sy_state s) = (Inr body, st')"
  shows "\<exists>a x jt cs. st' = grown (sy_state s) [a] [jt] cs \<and> x \<in> set (sy_issued s) \<and> authorises x a \<and>
     pa_outcome a = ''published'' \<and> pa_jti a = Some (jl_jti jt) \<and> \<not> jti_seen (jl_jti jt) (sys_db s)"
proof -
  from publish_earned[OF assms(4)] obtain cl bind b lookup jt j cs where
    adm: "admitted p i now rq cl bind b" and
    h: "hashes_match (bd_content_hash bind) (sha256_hex (bq_bytes b)) = Some True" and
    j: "bq_jti_text b = Some j" "\<not> jti_seen j (sys_db s)" "jl_jti jt = j" and
    st': "st' = grown (sy_state s) [bound_row b (Some (sha256_hex (bq_bytes b))) ''published''
       (if effective_dry p lookup then ''published_dry_run'' else ''published'')] [jt] cs" by blast
  obtain t where "pq_token rq = Some t" "pv_decode p t now = Inr cl"
    using adm verify_token_decodes[of p now "pq_token rq" cl] by (auto simp: admitted_def)
  with assms(3) obtain x where x: "x \<in> set (sy_issued s)" "is_claims x = cl" by (auto simp: genuine_def)
  with assms(1) obtain fr now' where cl: "cl = claims_for g fr now' (is_request x)" by (auto simp: issued_ok_def)
  have bind: "bind = \<lparr>bd_content_hash = JStr (or_else (gr_content_hash (is_request x)) []),
      bd_function_id = JStr (gr_function_id (is_request x))\<rparr>"
    using adm by (simp add: admitted_def cl bound_claims_for)
  have jt: "bq_jti b = JStr (fr_jti fr)" using adm by (simp add: admitted_def cl jti_claims_for)
  have written: "bq_function_text b = Some (gr_function_id (is_request x))" "bq_jti_text b = Some (fr_jti fr)"
    using adm assms(2) by (simp_all add: admitted_def bind jt adapts_text_def)
  from hashes_match_text[of "or_else (gr_content_hash (is_request x)) []" "bq_bytes b"] h
  have "truthy (gr_content_hash (is_request x))" "normal_hash (is_request x) = sha256_hex (bq_bytes b)"
    by (simp_all add: bind normal_hash_def)
  then have "authorises x (bound_row b (Some (sha256_hex (bq_bytes b))) ''published''
       (if effective_dry p lookup then ''published_dry_run'' else ''published''))"
    using written by (simp add: authorises_def x(2) cl jti_claims_for)
  with st' x j show ?thesis by (intro exI conjI) (assumption | simp)+
qed

lemma pub_inv_frame:
  assumes "pub_inv s" "db_attempts (sys_db t) = db_attempts (sys_db s)" "db_jtis (sys_db t) = db_jtis (sys_db s)"
    "set (sy_issued s) \<subseteq> set (sy_issued t)"
  shows "pub_inv t"
proof -
  have "published_rows (sys_db t) = published_rows (sys_db s)" "jti_seen j (sys_db t) = jti_seen j (sys_db s)" for j
    using assms(2,3) by (simp_all add: published_rows_def jti_seen_def)
  with assms(1,4) show ?thesis unfolding pub_inv_def by (metis subsetD)
qed

lemma pub_inv_step:
  assumes "gov_step g p s t" "issued_ok g s" "adapts_text p" "pub_inv s"
  shows "pub_inv t"
  using assms(1)
proof (cases rule: gov_step.cases)
  case (gate fr now rq rep db')
  have db: "sys_db t = db'" by (simp add: gate(1) with_db_def)
  have "db_attempts db' = db_attempts (sys_db s) \<and> db_jtis db' = db_jtis (sys_db s)"
    using gate(2) by (cases rule: gate_check_effect) auto
  then show ?thesis
    using pub_inv_frame[OF assms(4), of t] by (simp add: db) (simp add: gate(1))
next
  case (read hs tok pr ap)
  then show ?thesis using pub_inv_frame[OF assms(4), of t] by simp
next
  case (decide pr ap idn b rep db')
  with decide_frame[OF decide(3)] show ?thesis using pub_inv_frame[OF assms(4), of t] by simp
next
  case (toggle idn existing active reason who)
  then show ?thesis using pub_inv_frame[OF assms(4), of t] by (simp add: toggle_write_def split: option.splits)
next
  case (publish_step rq now i rep st')
  show ?thesis
  proof (cases rep)
    case (Inl e)
    from publish_frame[OF publish_step(3)] obtain att jt cs where
      f: "st' = grown (sy_state s) att jt cs" "audit_ok i rep att" by blast
    then have "filter (\<lambda>a. pa_outcome a = ''published'') att = []"
      by (auto simp: audit_ok_def Inl split: failure.splits)
    then have rows: "published_rows (sys_db t) = published_rows (sys_db s)"
      by (simp add: publish_step(1) f(1) grown_def published_rows_def)
    have seen: "jti_seen j (sys_db s) \<Longrightarrow> jti_seen j (sys_db t)" for j
      by (auto simp: publish_step(1) f(1) grown_def jti_seen_def)
    have iss: "sy_issued t = sy_issued s" by (simp add: publish_step(1))
    from assms(4) seen show ?thesis unfolding pub_inv_def rows iss by blast
  next
    case (Inr body)
    from publish_authorised[OF assms(2,3) publish_step(2) publish_step(3)[unfolded Inr]] obtain a x jt cs where
      a: "st' = grown (sy_state s) [a] [jt] cs" "x \<in> set (sy_issued s)" "authorises x a"
        "pa_outcome a = ''published''" "pa_jti a = Some (jl_jti jt)" "\<not> jti_seen (jl_jti jt) (sys_db s)" by blast
    have rows: "published_rows (sys_db t) = published_rows (sys_db s) @ [a]"
      by (simp add: publish_step(1) a(1,4) grown_def published_rows_def)
    have seen: "jti_seen j (sys_db t) \<longleftrightarrow> jti_seen j (sys_db s) \<or> j = jl_jti jt" for j
      by (auto simp: publish_step(1) a(1) grown_def jti_seen_def)
    have iss: "sy_issued t = sy_issued s" by (simp add: publish_step(1))
    have "pa_jti a \<notin> pa_jti ` set (published_rows (sys_db s))"
      using assms(4) a(5,6) by (fastforce simp: pub_inv_def)
    with assms(4) a(2,3,5) show ?thesis
      unfolding pub_inv_def rows seen iss by auto
  qed
qed

lemma pub_inv_reachable: "reachable g p runs s \<Longrightarrow> adapts_text p \<Longrightarrow> pub_inv s"
proof (induction rule: reachable_induct)
  case init
  show ?case by (simp add: initial_sys_def pub_inv_def published_rows_def empty_gov_def)
next
  case (step s t)
  from inv_reachable[OF step(1)] have "issued_ok g s" by (simp add: sys_inv_def)
  with step pub_inv_step show ?case by blast
qed


text \<open>C2: A gate token publishes at most once. In every reachable state the published rows
carry pairwise different jtis, each recorded in the replay ledger, whatever happened to
the services in between, because replay state lives in the table alone.\<close>

theorem token_publishes_once:
  assumes "reachable g p runs s" and "adapts_text p"
  shows "distinct (map pa_jti (published_rows (sys_db s))) \<and>
    (\<forall>a\<in>set (published_rows (sys_db s)). \<exists>j. pa_jti a = Some j \<and> j \<in> jl_jti ` set (db_jtis (sys_db s)))"
  using pub_inv_reachable[OF assms] by (auto simp: pub_inv_def jti_seen_def)

text \<open>C8: The audit tables are append-only. Along any run of requests of both services no
gate decision, publish attempt or approval action is ever changed or removed: every row
keeps its place and its content.\<close>

theorem audit_tables_append_only:
  assumes "(gov_step g p)\<^sup>*\<^sup>* s t"
  shows "appended (db_decisions (sys_db s)) (db_decisions (sys_db t)) \<and>
    appended (db_attempts (sys_db s)) (db_attempts (sys_db t)) \<and>
    appended (db_actions (sys_db s)) (db_actions (sys_db t))"
  using decision_log.history_appends[OF assms] attempt_log.history_appends[OF assms]
    action_log.history_appends[OF assms] by simp

end
