(* ===== verification/Governance_Witness.thy ===== *)
theory Governance_Witness
  imports Governance_System
begin

text \<open>Concrete instances of the governance theorems: a small policy, database,
principal and token under which the hypotheses hold, with the parameters
instantiated by concrete functions.\<close>

section \<open>Gatekeeper\<close>

definition demo_policy :: autonomy_policy where
  "demo_policy = \<lparr>pol_version = 1, pol_default_level = 0, pol_entries =
    [\<lparr>pe_function_id = ''fn-a'', pe_action_class = ''publish'', pe_level = 3, pe_description = None\<rparr>,
     \<lparr>pe_function_id = ''fn-b'', pe_action_class = ''publish'', pe_level = 1, pe_description = None\<rparr>]\<rparr>"

definition demo_gk :: gk_env where
  "demo_gk = \<lparr>ge_policy = demo_policy, ge_pg_uuid = py_uuid, ge_issuer = ''cmos-gatekeeper'',
     ge_audience = ''cmos-publisher'', ge_token_ttl = 900, ge_link_ttl = APPROVAL_LINK_TTL_SECONDS,
     ge_alg = ''RS256'', ge_sign = (\<lambda>b. b), ge_base_url = ''https://approval.invalid'', ge_webhook = None,
     ge_post = (\<lambda>_ _. True), ge_iso = (\<lambda>_. [])\<rparr>"

definition demo_fresh :: fresh_ids where
  "demo_fresh = \<lparr>fr_decision = 1, fr_inbox = 2, fr_link = ''link'', fr_jti = ''jti''\<rparr>"

definition demo_request :: "string \<Rightarrow> gate_check_request" where
  "demo_request f = \<lparr>gr_agent_run_id = uuid_str 7, gr_function_id = f, gr_action_class = ''publish'',
     gr_content_hash = Some ''h'', gr_preview_title = None, gr_preview_reference = None,
     gr_evidence_summary = None, gr_subject = None\<rparr>"

lemma demo_uuid [simp]: "py_uuid (uuid_str 7) = Some 7"
  by (rule py_uuid_str) simp

lemma demo_accepted: "accepted_request demo_gk demo_fresh 7 (demo_request f) (empty_gov [7])"
  by (simp add: accepted_request_def demo_gk_def demo_fresh_def demo_request_def empty_gov_def)

lemma demo_wf: "wf_policy (ge_policy demo_gk)"
  by (simp add: demo_gk_def demo_policy_def wf_policy_def wf_entry_def entry_key_def)

lemma demo_levels: "gate_level demo_gk (demo_request ''fn-a'') = 3" "gate_level demo_gk (demo_request ''fn-b'') = 1"
  by (simp_all add: gate_level_def demo_gk_def demo_policy_def demo_request_def level_for_def)

lemma demo_unblocked: "gate_status (empty_gov [7]) rq =
   \<lparr>kst_blocked = False, kst_scope = None, kst_function = None, kst_reason = None\<rparr>"
  by (simp add: gate_status_def is_blocked_def empty_gov_def)

lemma demo_no_approval: "latest_approved (empty_gov [7]) run f h = None"
  by (simp add: latest_approved_def empty_gov_def)

theorem gate_check_refines_spec_witness:
  "\<exists>resp db'. gate_check demo_gk demo_fresh 5 (demo_request ''fn-b'') (empty_gov [7]) = (Inr resp, db') \<and>
     gc_outcome resp = ''escalated'' \<and> gc_token resp = None"
  using gate_check_refines_spec[OF demo_accepted[of "''fn-b''"] demo_wf, of 5]
  by (auto simp: demo_unblocked demo_levels demo_no_approval gate_spec_def)

theorem gate_token_authorised_witness:
  "\<exists>resp db' t d. gate_check demo_gk demo_fresh 5 (demo_request ''fn-a'') (empty_gov [7]) = (Inr resp, db') \<and>
     gc_token resp = Some t \<and> gd_outcome d = ''approved'' \<and>
     db' = (empty_gov [7])\<lparr>db_decisions := db_decisions (empty_gov [7]) @ [d]\<rparr>"
proof -
  have "gate_check demo_gk demo_fresh 5 (demo_request ''fn-a'') (empty_gov [7]) =
      approve_and_issue demo_gk demo_fresh 5 (demo_request ''fn-a'') 3 ''gatekeeper:policy''
        ''level_3_auto_approved'' (empty_gov [7])"
    by (simp add: gate_check_def demo_levels[unfolded gate_level_def] demo_unblocked[unfolded gate_status_def]
        approval_required_reason_def) (simp add: demo_request_def)
  then obtain resp db' t where r: "gate_check demo_gk demo_fresh 5 (demo_request ''fn-a'') (empty_gov [7]) = (Inr resp, db')"
    "gc_token resp = Some t"
    using approve_and_issue_total[of demo_gk "demo_request ''fn-a''" 7 "empty_gov [7]" demo_fresh 5 3
        "''gatekeeper:policy''" "''level_3_auto_approved''"]
    by (auto simp: demo_gk_def demo_request_def empty_gov_def)
  with gate_token_authorised[OF r] show ?thesis by blast
qed

section \<open>Approval links\<close>

definition demo_row :: approval_row where
  "demo_row = \<lparr>ap_id = 2, ap_decision = Some 1, ap_agent_run = 7, ap_function = ''fn-b'', ap_action = ''publish'',
     ap_level = 1, ap_content_hash = Some ''h'', ap_title = ''t'', ap_reference = None, ap_evidence = ''e'',
     ap_status = STATUS_PENDING, ap_link = ''link'', ap_consumed = None, ap_decided_by = None,
     ap_decided_at = None, ap_expires = 100, ap_created = 0\<rparr>"

definition demo_inbox_db :: gov_db where
  "demo_inbox_db = (empty_gov [7])\<lparr>db_inbox := [demo_row]\<rparr>"

definition demo_headers :: headers where
  "demo_headers = [(''x-ms-client-principal-id'', ''oid1'')]"

definition demo_principal :: principal where
  "demo_principal = \<lparr>pr_id = ''oid1'', pr_name = None, pr_idp = None\<rparr>"

lemma demo_principal_read: "principal_from_headers demo_headers = Inr (Some demo_principal)"
  by (simp add: principal_from_headers_def demo_headers_def demo_principal_def header_def lowered_def
      py_lower_def lower_char_def py_strip_def py_space_def none_if_empty_def Let_def)

lemma demo_link: "get_by_link_token demo_inbox_db ''link'' = Some demo_row"
  by (simp add: get_by_link_token_def demo_inbox_db_def demo_row_def)

lemma demo_decides: "\<exists>body db'. approval_decide (3, 50) demo_principal demo_row True demo_inbox_db = (Inr body, db')"
  by (rule decide_consumes) (simp_all add: demo_inbox_db_def demo_row_def empty_gov_def)

theorem approval_link_single_use_witness:
  "\<exists>body db1 body2 db3. approval_decide (3, 50) demo_principal demo_row True demo_inbox_db = (Inr body, db1) \<and>
     approval_decide (4, 51) demo_principal demo_row False db1 = (Inl body2, db3)"
proof -
  obtain body db1 where d: "approval_decide (3, 50) demo_principal demo_row True demo_inbox_db = (Inr body, db1)"
    using demo_decides by blast
  from approval_link_single_use[OF d refl, of db1 "[]" "(4, 51)" demo_principal False] d show ?thesis by auto
qed

theorem approval_click_audited_witness:
  "\<exists>rep db' a. approval_action (3, 50) demo_headers ''link'' ''approve'' demo_inbox_db = (rep, db') \<and>
     db_actions db' = [a] \<and> aa_outcome a = ''approved'' \<and> status_of rep = 200"
  using approval_click_audited[OF demo_principal_read demo_link, of "''approve''" 3 50]
  by (fastforce simp: demo_inbox_db_def demo_row_def empty_gov_def click_outcome_def click_status_def)

theorem approver_is_authenticated_witness:
  "\<exists>body db'. approval_action (3, 50) demo_headers ''link'' ''approve'' demo_inbox_db = (Inr body, db') \<and>
     ab_decided_by body = Some ''oid1''"
proof -
  obtain body db' where "approval_decide (3, 50) demo_principal demo_row True demo_inbox_db = (Inr body, db')"
    using demo_decides by blast
  then have a: "approval_action (3, 50) demo_headers ''link'' ''approve'' demo_inbox_db = (Inr body, db')"
    using approval_action_known[OF demo_principal_read demo_link, of "''approve''" "(3, 50)"] by simp
  from approver_is_authenticated[OF a] demo_principal_read have "ab_decided_by body = Some (decided_by demo_principal)"
    by auto
  with a show ?thesis by (simp add: demo_principal_def decided_by_def)
qed

theorem toggle_takes_effect_witness:
  "kst_blocked (is_blocked (toggle_global (1, 10) True ''stop'' ''op'' (empty_gov [])) (Some ''fn-a''))"
  using toggle_takes_effect[of "empty_gov []" "(1, 10)" True "''stop''" "''op''" "Some ''fn-a''"]
  by (simp add: one_global_def global_rows_def empty_gov_def)

theorem racing_toggles_stay_blocked_witness:
  "kst_blocked (is_blocked (toggle_global (3, 30) False ''go'' ''op''
     (toggle_write (2, 20) None True ''b'' ''op'' (toggle_write (1, 10) None True ''a'' ''op'' (empty_gov [])))) None)"
  using racing_toggles_stay_blocked[of "empty_gov []" 10 20 1 2 _ "''b''" "''op''" "''a''" "''op''" _ "(3, 30)" "''go''" "''op''" None]
  by (simp add: global_rows_def empty_gov_def)

section \<open>Publisher\<close>

lemma hashes_match_self: "hashes_match (JStr (sha256_hex bs)) (sha256_hex bs) = Some True"
proof -
  have d: "hex_digest (sha256_hex bs)" unfolding sha256_hex_def by (rule sha256_hex_digest)
  then have "sha256_hex bs \<noteq> []" by (auto simp: hex_digest_def)
  with d show ?thesis by (simp add: hashes_match_def hex_digest_normal hex_digest_ascii)
qed

definition demo_fresh2 :: fresh_ids where
  "demo_fresh2 = \<lparr>fr_decision = 7, fr_inbox = 2, fr_link = ''link'', fr_jti = ''j1''\<rparr>"

definition demo_request2 :: "bytes \<Rightarrow> gate_check_request" where
  "demo_request2 bs = (demo_request ''fn-a'')\<lparr>gr_content_hash := Some (sha256_hex bs)\<rparr>"

definition demo_claims :: "bytes \<Rightarrow> claims" where
  "demo_claims bs = claims_for demo_gk demo_fresh2 5 (demo_request2 bs)"

lemma sha256_hex_nonempty: "sha256_hex bs \<noteq> []"
  using sha256_hex_digest[of bs] by (auto simp: sha256_hex_def hex_digest_def)

definition demo_adapt :: "json \<Rightarrow> string option option" where
  "demo_adapt j = (case j of JStr s \<Rightarrow> Some (Some s) | JNull \<Rightarrow> Some None | _ \<Rightarrow> None)"

text \<open>The Vault answers with a taxonomy and an id, Buffer with a queue of n posts.\<close>

definition demo_taxonomy :: "(string \<times> json) list" where
  "demo_taxonomy = map (\<lambda>n. (n, JStr ''x'')) TAXONOMY_FIELDS"

definition demo_reply :: "nat \<Rightarrow> ext_call list \<Rightarrow> ext_call \<Rightarrow> http_reply" where
  "demo_reply n calls c = (case c of
     VaultGet _ \<Rightarrow> Reply 200 (Some (JObj demo_taxonomy))
   | VaultPost _ \<Rightarrow> Reply 201 (Some (JObj [(''id'', JStr ''r1'')]))
   | BufferListQueue _ \<Rightarrow> Reply 200 (Some (JObj [(''result'', JObj [(''structuredContent'',
        JObj [(''posts'', JArr (replicate n JNull))])])]))
   | BufferCreateDraft _ _ _ _ \<Rightarrow> Reply 200 (Some (JObj [(''result'', JObj [(''structuredContent'', JObj [])])])))"

definition demo_pub :: "string \<Rightarrow> nat \<Rightarrow> bytes \<Rightarrow> pub_env" where
  "demo_pub dry n bs = \<lparr>pv_header_alg = (\<lambda>_. Some (Some (JStr ''RS256''))),
     pv_decode = (\<lambda>_ _. Inr (demo_claims bs)), pv_algorithms = [''RS256''], pv_float_repr = (\<lambda>l. l),
     pv_str = (\<lambda>_. []), pv_adapt = demo_adapt, pv_reply = demo_reply n, pv_vault_configured = True,
     pv_buffer_url = Some ''http://b'', pv_channel = ''ch'', pv_dry_run_var = Some dry\<rparr>"

definition demo_publish :: "bytes \<Rightarrow> publish_request" where
  "demo_publish bs = \<lparr>pq_agent_run_id = uuid_str 7, pq_function_id = ''fn-a'', pq_asset_b64 = b64encode bs,
     pq_token = Some ''t'', pq_asset_id = None\<rparr>"

definition demo_bound :: "row_id \<Rightarrow> bytes \<Rightarrow> bound_request" where
  "demo_bound i bs = \<lparr>bq_id = i, bq_run = 7, bq_decision = Some 7, bq_function = JStr ''fn-a'',
     bq_function_text = Some ''fn-a'', bq_jti = JStr ''j1'', bq_jti_text = Some ''j1'', bq_bytes = bs\<rparr>"

definition demo_binding :: "bytes \<Rightarrow> binding" where
  "demo_binding bs = \<lparr>bd_content_hash = JStr (sha256_hex bs), bd_function_id = JStr ''fn-a''\<rparr>"

definition demo_state :: pub_state where
  "demo_state = \<lparr>ps_db = empty_gov [7], ps_calls = []\<rparr>"

lemma demo_uuid_text: "uuid_str 7 \<noteq> []"
proof
  assume "uuid_str 7 = []"
  with demo_uuid show False by simp
qed

lemma demo_admitted:
  assumes "\<forall>x\<in>set bs. x < 256"
  shows "admitted (demo_pub dry n bs) i now (demo_publish bs) (demo_claims bs) (demo_binding bs) (demo_bound i bs)"
proof -
  have bc: "bound_claims (demo_pub dry n bs) (demo_claims bs) = Inr (demo_binding bs)"
    using sha256_hex_nonempty
    by (simp add: demo_claims_def bound_claims_for demo_binding_def demo_request2_def demo_request_def)
  have "py_strip ''t'' = ''t''" by (simp add: py_strip_def py_space_def)
  then have "verify_token (demo_pub dry n bs) now (Some ''t'') = Inr (demo_claims bs)"
    using bc by (simp add: verify_token_def token_header_ok_def) (simp add: demo_pub_def)
  moreover have "jget (demo_claims bs) ''gate_decision_id'' = Some (JStr (uuid_str 7))"
    "jget (demo_claims bs) ''jti'' = Some (JStr ''j1'')"
    by (simp_all add: demo_claims_def claims_for_def build_claims_def demo_fresh2_def)
  ultimately show ?thesis using bc b64_round_trip[OF assms]
    by (simp add: admitted_def demo_publish_def demo_bound_def demo_binding_def safe_uuid_def truthy_json_def
        demo_uuid_text) (simp add: demo_pub_def demo_adapt_def)
qed

lemma demo_dry: "publisher_dry_run (demo_pub ''true'' n bs)" "\<not> publisher_dry_run (demo_pub ''false'' n bs)"
  by (simp_all add: publisher_dry_run_def demo_pub_def py_lower_def lower_char_def py_strip_def py_space_def)

lemma demo_not_blocked: "\<not> kst_blocked (is_blocked (empty_gov [7]) f)"
  by (simp add: is_blocked_iff empty_gov_def)

lemma demo_cleared:
  "\<forall>x\<in>set bs. x < 256 \<Longrightarrow> cleared (demo_pub ''false'' n bs) i now (demo_publish bs) demo_state (demo_bound i bs) ''j1''"
proof -
  assume bs: "\<forall>x\<in>set bs. x < 256"
  have "pq_asset_id (demo_publish bs) = None" "bq_bytes (demo_bound i bs) = bs"
    "bq_jti (demo_bound i bs) = JStr ''j1''" "bq_jti_text (demo_bound i bs) = Some ''j1''"
    "bd_content_hash (demo_binding bs) = JStr (sha256_hex bs)"
    "pv_buffer_url (demo_pub ''false'' n bs) = Some ''http://b''" "ps_db demo_state = empty_gov [7]"
    by (simp_all add: demo_publish_def demo_bound_def demo_binding_def demo_pub_def demo_state_def)
  moreover have "\<not> jti_seen ''j1'' (empty_gov [7])" by (simp add: jti_seen_def empty_gov_def)
  moreover have "\<exists>cl bind. admitted (demo_pub ''false'' n bs) i now (demo_publish bs) cl bind (demo_bound i bs) \<and>
      hashes_match (bd_content_hash bind) (sha256_hex bs) = Some True"
    using demo_admitted[OF bs, of "''false''" n i now] hashes_match_self[of bs] calculation(5)
    by (intro exI[of _ "demo_claims bs"] exI[of _ "demo_binding bs"]) simp
  ultimately show ?thesis
    unfolding cleared_def using demo_dry(2)[of n bs] demo_not_blocked by simp
qed

lemma demo_write: "\<exists>calls. write_gate_decision (demo_pub dry n bs) run f rs src cs = (Inr ''r1'', calls)"
  by (simp add: write_gate_decision_def http_get_def call_ext_def demo_pub_def demo_reply_def demo_taxonomy_def
      TAXONOMY_FIELDS_def truthy_json_def)

lemma demo_recorded: "\<exists>body st'. publish_record (demo_pub dry n bs) b d st = (Inr body, st')"
proof -
  obtain calls where "write_gate_decision (demo_pub dry n bs) (uuid_str (bq_run b)) (bq_function b)
      (publish_note (demo_pub dry n bs) b) (decision_text b) (ps_calls st) = (Inr ''r1'', calls)"
    using demo_write by blast
  then show ?thesis by (simp add: publish_record_def Let_def)
qed

lemma demo_publishes:
  assumes "\<And>f. \<not> kst_blocked (is_blocked (ps_db st) f)" "\<not> jti_seen ''j1'' (ps_db st)"
  shows "\<exists>body st'. publish (demo_pub ''true'' 0 [104, 105]) 9 now (demo_publish [104, 105]) st = (Inr body, st')"
proof -
  let ?bs = "[104, 105] :: bytes"
  let ?b = "demo_bound 9 ?bs" and ?env = "demo_pub ''true'' 0 [104, 105]"
  have adm: "admitted ?env 9 now (demo_publish ?bs) (demo_claims ?bs) (demo_binding ?bs) ?b"
    by (rule demo_admitted) simp
  have asset: "pq_asset_id (demo_publish ?bs) = None" by (simp add: demo_publish_def)
  have "publish ?env 9 now (demo_publish ?bs) st = publish_claim ?env now ?b None True st"
    using hashes_match_self[of ?bs] assms(1) demo_dry(1)[of 0 ?bs]
    by (simp add: publish_admitted[OF adm] publish_bound_def publish_checked_def asset
        demo_binding_def demo_bound_def)
  also have "\<dots> = publish_record ?env ?b True (st\<lparr>ps_db := (ps_db st)\<lparr>db_jtis := db_jtis (ps_db st) @
      [\<lparr>jl_jti = ''j1'', jl_decision = Some 7, jl_consumed = now\<rparr>]\<rparr>\<rparr>)"
    using assms(2) by (simp add: publish_claim_def consume_jti_def demo_bound_def)
  finally show ?thesis using demo_recorded by simp
qed

lemma demo_published:
  "\<exists>body st'. publish (demo_pub ''true'' 0 [104, 105]) 9 now (demo_publish [104, 105]) demo_state = (Inr body, st')"
  using demo_not_blocked by (intro demo_publishes) (simp_all add: demo_state_def jti_seen_def empty_gov_def)

theorem published_is_earned_witness:
  "\<exists>body st' (b :: bound_request). publish (demo_pub ''true'' 0 [104, 105]) 9 1 (demo_publish [104, 105]) demo_state = (Inr body, st') \<and>
     hashes_match (JStr (sha256_hex [104, 105])) (sha256_hex (bq_bytes b)) = Some True"
proof -
  obtain body st' where p: "publish (demo_pub ''true'' 0 [104, 105]) 9 1 (demo_publish [104, 105]) demo_state = (Inr body, st')"
    using demo_published by blast
  from published_is_earned[OF p] obtain cl bind b where
    b: "admitted (demo_pub ''true'' 0 [104, 105]) 9 1 (demo_publish [104, 105]) cl bind b" by blast
  then have "b64decode_strict (pq_asset_b64 (demo_publish [104, 105])) = Some (bq_bytes b)"
    unfolding admitted_def by blast
  then have "b64decode_strict (b64encode [104, 105]) = Some (bq_bytes b)"
    unfolding demo_publish_def publish_request.simps .
  then have "bq_bytes b = [104, 105]" using b64_round_trip[of "[104, 105]"] by simp
  with p hashes_match_self[of "[104, 105]"] show ?thesis
    by - (rule exI[of _ body], rule exI[of _ st'], rule exI[of _ b], rule conjI, assumption, simp)
qed

theorem publish_audit_trail_witness:
  "\<exists>rep st' att. publish (demo_pub ''true'' 0 [104, 105]) 9 1 (demo_publish [104, 105]) demo_state = (rep, st') \<and>
     db_attempts (ps_db st') = att \<and> audit_ok 9 rep att"
proof -
  obtain body st' where p: "publish (demo_pub ''true'' 0 [104, 105]) 9 1 (demo_publish [104, 105]) demo_state = (Inr body, st')"
    using demo_published by blast
  from publish_audit_trail[OF p] p show ?thesis by (auto simp: demo_state_def empty_gov_def)
qed

theorem dry_run_never_drafts_witness:
  "\<exists>rep st'. publish (demo_pub ''true'' 0 [104, 105]) 9 1 (demo_publish [104, 105]) demo_state = (rep, st') \<and>
     vault_only (ps_calls st')"
proof -
  obtain rep st' where p: "publish (demo_pub ''true'' 0 [104, 105]) 9 1 (demo_publish [104, 105]) demo_state = (rep, st')"
    by fastforce
  from dry_run_never_drafts[OF p] demo_dry(1) p show ?thesis by (auto simp: demo_state_def)
qed

lemma demo_queue: "fst (list_queue_count (demo_pub dry n bs) cs) = Inr n"
  by (simp add: list_queue_count_def call_tool_def call_ext_def demo_pub_def demo_reply_def truthy_json_def
      queue_length_def posts_count_def)

theorem undecodable_asset_burns_token_witness:
  "\<exists>st'. publish (demo_pub ''false'' 0 [255]) 9 1 (demo_publish [255]) demo_state = (Inl (Crashed ''UnicodeDecodeError''), st') \<and>
     db_attempts (ps_db st') = [] \<and> jti_seen ''j1'' (ps_db st')"
proof -
  have c: "cleared (demo_pub ''false'' 0 [255]) 9 1 (demo_publish [255]) demo_state (demo_bound 9 [255]) ''j1''"
    by (rule demo_cleared) simp
  have "db_attempts (ps_db demo_state) = []" by (simp add: demo_state_def empty_gov_def)
  with undecodable_asset_burns_token[OF c demo_queue, of 10] show ?thesis
    by (auto simp: BUFFER_FREE_TIER_QUEUE_CAP_def demo_bound_def)
qed

theorem queue_cap_burns_token_witness:
  "\<exists>body st'. publish (demo_pub ''false'' 10 [104]) 9 1 (demo_publish [104]) demo_state = (Inl (RefusedWith 403 body), st') \<and>
     jti_seen ''j1'' (ps_db st')"
proof -
  have c: "cleared (demo_pub ''false'' 10 [104]) 9 1 (demo_publish [104]) demo_state (demo_bound 9 [104]) ''j1''"
    by (rule demo_cleared) simp
  from queue_cap_burns_token[OF c] demo_queue show ?thesis
    by (auto simp: BUFFER_FREE_TIER_QUEUE_CAP_def)
qed

section \<open>Both services\<close>

lemma demo_gate2:
  "\<exists>resp db' t. gate_check demo_gk demo_fresh2 5 (demo_request2 bs) (empty_gov [7]) = (Inr resp, db') \<and> gc_token resp = Some t"
proof -
  have l: "gate_level demo_gk (demo_request2 bs) = 3"
    by (simp add: gate_level_def demo_gk_def demo_policy_def demo_request2_def demo_request_def level_for_def)
  have "gate_check demo_gk demo_fresh2 5 (demo_request2 bs) (empty_gov [7]) =
      approve_and_issue demo_gk demo_fresh2 5 (demo_request2 bs) 3 ''gatekeeper:policy''
        ''level_3_auto_approved'' (empty_gov [7])"
    by (simp add: gate_check_def l[unfolded gate_level_def] demo_unblocked[unfolded gate_status_def]
        approval_required_reason_def) (simp add: demo_request2_def demo_request_def)
  then show ?thesis
    using approve_and_issue_total[of demo_gk "demo_request2 bs" 7 "empty_gov [7]" demo_fresh2 5 3
        "''gatekeeper:policy''" "''level_3_auto_approved''"]
    by (auto simp: demo_gk_def demo_request2_def demo_request_def empty_gov_def)
qed

abbreviation demo_p :: pub_env where
  "demo_p \<equiv> demo_pub ''true'' 0 [104, 105]"

lemma demo_adapts: "adapts_text (demo_pub dry n bs)"
  by (simp add: adapts_text_def demo_pub_def demo_adapt_def)

lemma demo_run:
  "\<exists>s a. reachable demo_gk demo_p [7] s \<and> a \<in> set (db_attempts (sys_db s)) \<and> pa_outcome a = ''published''"
proof -
  let ?s0 = "initial_sys [7]" and ?rq = "demo_request2 [104, 105]"
  obtain resp db' t where g: "gate_check demo_gk demo_fresh2 5 ?rq (empty_gov [7]) = (Inr resp, db')" "gc_token resp = Some t"
    using demo_gate2 by blast
  let ?s1 = "(with_db ?s0 db')\<lparr>sy_issued := sy_issued ?s0 @ issued_by demo_gk demo_fresh2 5 ?rq (Inr resp) db'\<rparr>"
  have s0: "sys_db ?s0 = empty_gov [7]" by (simp add: initial_sys_def)
  have step1: "gov_step demo_gk demo_p ?s0 ?s1" by (rule gov_step.gate) (simp add: g s0)
  have db': "db_switches db' = [] \<and> db_jtis db' = []"
    using g(1) by (cases rule: gate_check_effect) (auto simp: empty_gov_def)
  have s1: "ps_db (sy_state ?s1) = db'" by (simp add: with_db_def)
  have gen: "genuine demo_p ?s1 (demo_publish [104, 105]) 6"
    using g(2) by (simp add: genuine_def issued_by_def demo_pub_def demo_claims_def)
  obtain body st' where pub: "publish demo_p 9 6 (demo_publish [104, 105]) (sy_state ?s1) = (Inr body, st')"
    using demo_publishes[of "sy_state ?s1" 6] db' unfolding s1 by (auto simp: is_blocked_iff jti_seen_def)
  have step2: "gov_step demo_gk demo_p ?s1 (?s1\<lparr>sy_state := st'\<rparr>)"
    by (rule gov_step.publish_step[OF gen pub])
  from publish_frame[OF pub] obtain att jt cs where st': "st' = grown (sy_state ?s1) att jt cs" "audit_ok 9 (Inr body) att"
    by blast
  then obtain a where a: "att = [a]" "pa_outcome a = ''published''"
    by (auto simp: audit_ok_def)
  then have "a \<in> set (db_attempts (ps_db st'))" "pa_outcome a = ''published''"
    using st'(1) by (simp_all add: grown_def)
  moreover have "reachable demo_gk demo_p [7] (?s1\<lparr>sy_state := st'\<rparr>)"
    unfolding reachable_def using step1 step2 by (meson rtranclp.rtrancl_into_rtrancl rtranclp.rtrancl_refl)
  ultimately show ?thesis by (intro exI[of _ "?s1\<lparr>sy_state := st'\<rparr>"] exI[of _ a]) simp
qed


theorem token_publishes_once_witness:
  "\<exists>s. reachable demo_gk demo_p [7] s \<and> published_rows (sys_db s) \<noteq> [] \<and>
     distinct (map pa_jti (published_rows (sys_db s)))"
proof -
  obtain s a where s: "reachable demo_gk demo_p [7] s" "a \<in> set (db_attempts (sys_db s))" "pa_outcome a = ''published''"
    using demo_run by blast
  then have "a \<in> set (published_rows (sys_db s))" by (simp add: published_rows_def)
  with token_publishes_once[OF s(1) demo_adapts] s(1) show ?thesis by fastforce
qed

theorem audit_tables_append_only_witness:
  "\<exists>s. db_attempts (sys_db s) \<noteq> [] \<and> appended (db_attempts (sys_db (initial_sys [7]))) (db_attempts (sys_db s))"
proof -
  obtain s a where s: "reachable demo_gk demo_p [7] s" "a \<in> set (db_attempts (sys_db s))"
    using demo_run by blast
  from audit_tables_append_only[OF s(1)[unfolded reachable_def]] s(2) show ?thesis
    by (intro exI[of _ s]) auto
qed

end
