(* ===== verification/Task_Store.thy ===== *)
theory Task_Store
  imports CMOS_Prelude Py_Json Governance_Lib
begin

text \<open>The orchestrator's own schema (services/orchestrator/migrations, db.py and the
enums of models.py): task_state, task_transitions and the agent-run ledger. Every
function of db.py opens its own transaction, so it is one atomic step; an error
rolls it back. Task ids are uuids; each text form the code passes around is
str(uuid), so the model uses the uuid itself. The clock is the start time of the
next transaction: transactions of one worker start at different instants.\<close>

type_synonym tid = nat

datatype task_state_enum =
    PENDING | DISPATCHABLE | DISPATCHED | RUNNING | COMPLETED | RETRY_PENDING | DEAD_LETTERED | FAILED

datatype transition_reason =
    CREATED_R | DEPENDENCY_SATISFIED_R | DISPATCHED_R | COMPLETED_R | FAILED_ATTEMPT_1_R
  | FAILED_ATTEMPT_2_R | DEAD_LETTERED_R | DEPENDENCY_DEAD_LETTERED_R | VAULT_WRITE_FAILED_R
  | QA_BLOCKED_R

fun state_value :: "task_state_enum \<Rightarrow> string" where
  "state_value PENDING = ''pending''"
| "state_value DISPATCHABLE = ''dispatchable''"
| "state_value DISPATCHED = ''dispatched''"
| "state_value RUNNING = ''running''"
| "state_value COMPLETED = ''completed''"
| "state_value RETRY_PENDING = ''retry_pending''"
| "state_value DEAD_LETTERED = ''dead_lettered''"
| "state_value FAILED = ''failed''"

text \<open>Exceptions that cross function borders: the four of dispatch_errors.py, the
RuntimeError of db.py, the foreign key of task_transitions, a failed send, and any
other exception of a handler.\<close>

datatype orch_error =
    DispatchError string
  | TaskNotReadyError
  | TaskAlreadyTerminalError task_state_enum
  | DependencyDeadLetteredError tid string
  | RuntimeError string
  | ForeignKeyViolation
  | SendFailed
  | OtherError string

record task_row =
  tk_id :: tid
  tk_loop :: string
  tk_type :: string
  tk_state :: task_state_enum
  tk_retry :: nat
  tk_vault_failed :: nat
  tk_depends :: "tid list"
  tk_result :: "json option"
  tk_created :: instant

record transition_row =
  tr_task :: tid
  tr_from :: "task_state_enum option"
  tr_to :: task_state_enum
  tr_reason :: transition_reason
  tr_at :: instant

record ledger_row =
  lg_key :: nat
  lg_task :: tid
  lg_run :: nat

record orch_db =
  od_tasks :: "task_row list"
  od_transitions :: "transition_row list"
  od_ledger :: "ledger_row list"
  od_clock :: instant

definition empty_orch :: orch_db where
  "empty_orch = \<lparr>od_tasks = [], od_transitions = [], od_ledger = [], od_clock = 0\<rparr>"

text \<open>A transaction either raises, leaving the database as it was, or commits.\<close>

type_synonym 'a txn = "orch_db \<Rightarrow> (orch_error + 'a) \<times> orch_db"

definition and_then :: "'a txn \<Rightarrow> ('a \<Rightarrow> 'b txn) \<Rightarrow> 'b txn" where
  "and_then m f db = (case m db of (Inl e, db') \<Rightarrow> (Inl e, db') | (Inr a, db') \<Rightarrow> f a db')"

lemma and_then_simps [simp]:
  "m db = (Inl e, db') \<Longrightarrow> and_then m f db = (Inl e, db')"
  "m db = (Inr a, db') \<Longrightarrow> and_then m f db = f a db'"
  by (simp_all add: and_then_def)

section \<open>Reading tasks\<close>

definition get_task :: "tid \<Rightarrow> orch_db \<Rightarrow> task_row option" where
  "get_task i db = List.find (\<lambda>r. tk_id r = i) (od_tasks db)"

definition get_tasks :: "tid list \<Rightarrow> orch_db \<Rightarrow> task_row list" where
  "get_tasks ids db = (if ids = [] then [] else filter (\<lambda>r. tk_id r \<in> set ids) (od_tasks db))"

definition find_dependent_tasks :: "tid \<Rightarrow> orch_db \<Rightarrow> task_row list" where
  "find_dependent_tasks i db = filter (\<lambda>r. i \<in> set (tk_depends r)) (od_tasks db)"

definition get_result_ref :: "tid \<Rightarrow> orch_db \<Rightarrow> json option" where
  "get_result_ref i db = Option.bind (get_task i db) tk_result"

section \<open>Writing tasks\<close>

record new_task =
  nt_id :: tid
  nt_type :: string
  nt_depends :: "tid list"
  nt_loop :: string
  nt_source :: string
  nt_params :: "json option"

definition insert_task :: "orch_db \<Rightarrow> new_task \<Rightarrow> orch_db" where
  "insert_task db t =
    (if get_task (nt_id t) db \<noteq> None then db
     else let s = (if nt_depends t = [] then DISPATCHABLE else PENDING) in
       db\<lparr>od_tasks := od_tasks db @
            [\<lparr>tk_id = nt_id t, tk_loop = nt_loop t, tk_type = nt_type t, tk_state = s, tk_retry = 0,
              tk_vault_failed = 0, tk_depends = nt_depends t, tk_result = None, tk_created = od_clock db\<rparr>],
          od_transitions := od_transitions db @
            [\<lparr>tr_task = nt_id t, tr_from = None, tr_to = s, tr_reason = CREATED_R, tr_at = od_clock db\<rparr>]\<rparr>)"

definition tick :: "orch_db \<Rightarrow> orch_db" where
  "tick db = db\<lparr>od_clock := od_clock db + 1\<rparr>"

definition insert_task_batch :: "new_task list \<Rightarrow> orch_db \<Rightarrow> orch_db" where
  "insert_task_batch ts db = tick (foldl insert_task db ts)"

definition set_state :: "tid \<Rightarrow> task_state_enum \<Rightarrow> task_row list \<Rightarrow> task_row list" where
  "set_state i s = update_where (\<lambda>r. tk_id r = i) (\<lambda>r. r\<lparr>tk_state := s\<rparr>)"

text \<open>The row is read FOR UPDATE, updated and logged. For an unknown task the insert
breaks the foreign key and nothing is committed.\<close>

definition transition :: "tid \<Rightarrow> task_state_enum \<Rightarrow> transition_reason \<Rightarrow> unit txn" where
  "transition i s why db =
    (case get_task i db of
       None \<Rightarrow> (Inl ForeignKeyViolation, db)
     | Some row \<Rightarrow>
         (Inr (), tick (db\<lparr>od_tasks := set_state i s (od_tasks db),
            od_transitions := od_transitions db @
              [\<lparr>tr_task = i, tr_from = Some (tk_state row), tr_to = s, tr_reason = why, tr_at = od_clock db\<rparr>]\<rparr>)))"

text \<open>count( * ) over rows that match ANY of the ids and are completed: an id that is
listed twice still matches one row.\<close>

definition completed_count :: "tid list \<Rightarrow> orch_db \<Rightarrow> nat" where
  "completed_count ids db =
    length (filter (\<lambda>r. tk_id r \<in> set ids \<and> tk_state r = COMPLETED) (od_tasks db))"

text \<open>advance_dependents reads its candidates in one transaction and transitions each
of them in a transaction of its own; the two parts are separate definitions.\<close>

definition advance_candidates :: "tid \<Rightarrow> orch_db \<Rightarrow> tid list" where
  "advance_candidates done_id db =
    map tk_id (filter (\<lambda>r. done_id \<in> set (tk_depends r) \<and> tk_state r = PENDING \<and> tk_depends r \<noteq> [] \<and>
                           completed_count (tk_depends r) db = length (tk_depends r)) (od_tasks db))"

fun advance_each :: "tid list \<Rightarrow> unit txn" where
  "advance_each [] db = (Inr (), db)"
| "advance_each (i # is) db =
    and_then (transition i DISPATCHABLE DEPENDENCY_SATISFIED_R) (\<lambda>_. advance_each is) db"

definition advance_dependents :: "tid \<Rightarrow> tid list txn" where
  "advance_dependents done_id db =
    (let advanced = advance_candidates done_id db
     in and_then (advance_each advanced) (\<lambda>_ d. (Inr advanced, d)) db)"

definition increment_retry :: "tid \<Rightarrow> nat txn" where
  "increment_retry i db =
    (case get_task i db of
       None \<Rightarrow> (Inl (RuntimeError ''task not found''), db)
     | Some row \<Rightarrow>
         (Inr (tk_retry row + 1),
          tick (db\<lparr>od_tasks := update_where (\<lambda>r. tk_id r = i) (\<lambda>r. r\<lparr>tk_retry := tk_retry r + 1\<rparr>) (od_tasks db)\<rparr>)))"

definition increment_vault_write_failure :: "tid \<Rightarrow> nat txn" where
  "increment_vault_write_failure i db =
    (case get_task i db of
       None \<Rightarrow> (Inl (RuntimeError ''task not found''), db)
     | Some row \<Rightarrow>
         (Inr (tk_vault_failed row + 1),
          tick (db\<lparr>od_tasks := update_where (\<lambda>r. tk_id r = i)
                     (\<lambda>r. r\<lparr>tk_vault_failed := tk_vault_failed r + 1\<rparr>) (od_tasks db),
            od_transitions := od_transitions db @
              [\<lparr>tr_task = i, tr_from = Some (tk_state row), tr_to = tk_state row,
                tr_reason = VAULT_WRITE_FAILED_R, tr_at = od_clock db\<rparr>]\<rparr>)))"

definition set_result_ref :: "tid \<Rightarrow> json \<Rightarrow> unit txn" where
  "set_result_ref i v db =
    (Inr (), tick (db\<lparr>od_tasks := update_where (\<lambda>r. tk_id r = i) (\<lambda>r. r\<lparr>tk_result := Some v\<rparr>) (od_tasks db)\<rparr>))"

section \<open>The agent-run ledger\<close>

definition get_ledgered_agent_run :: "nat \<Rightarrow> orch_db \<Rightarrow> nat option" where
  "get_ledgered_agent_run k db = map_option lg_run (List.find (\<lambda>r. lg_key r = k) (od_ledger db))"

definition record_ledgered_agent_run :: "nat \<Rightarrow> tid \<Rightarrow> nat \<Rightarrow> unit txn" where
  "record_ledgered_agent_run k i run db =
    (Inr (), tick (if get_ledgered_agent_run k db \<noteq> None then db
       else db\<lparr>od_ledger := od_ledger db @ [\<lparr>lg_key = k, lg_task = i, lg_run = run\<rparr>]\<rparr>))"

section \<open>History\<close>

definition later_transition :: "transition_row \<Rightarrow> transition_row \<Rightarrow> bool" where
  "later_transition a b \<longleftrightarrow> tr_at b < tr_at a"

definition get_dead_letter_reason :: "tid \<Rightarrow> orch_db \<Rightarrow> transition_reason option" where
  "get_dead_letter_reason i db = map_option tr_reason
    (first_by later_transition (filter (\<lambda>t. tr_task t = i \<and> tr_to t = DEAD_LETTERED) (od_transitions db)))"

record task_status =
  ts_id :: tid
  ts_loop :: string
  ts_type :: string
  ts_state :: task_state_enum
  ts_retry :: nat
  ts_vault_failed :: nat
  ts_history :: "transition_row list"

definition fetch_all_task_status :: "orch_db \<Rightarrow> task_status list" where
  "fetch_all_task_status db =
    map (\<lambda>r. \<lparr>ts_id = tk_id r, ts_loop = tk_loop r, ts_type = tk_type r, ts_state = tk_state r,
              ts_retry = tk_retry r, ts_vault_failed = tk_vault_failed r,
              ts_history = sort_key tr_at (filter (\<lambda>t. tr_task t = tk_id r) (od_transitions db))\<rparr>)
        (sort_key tk_created (od_tasks db))"

text \<open>The publish sweep's query; \<open>?\<close> asks for a top-level key of the jsonb object.\<close>

definition has_key :: "string \<Rightarrow> json option \<Rightarrow> bool" where
  "has_key k v = (case v of Some (JObj kvs) \<Rightarrow> map_of kvs k \<noteq> None | _ \<Rightarrow> False)"

definition find_awaiting_publication :: "string list \<Rightarrow> orch_db \<Rightarrow> task_row list" where
  "find_awaiting_publication types db =
    (if types = [] then []
     else sort_key tk_created
       (filter (\<lambda>r. tk_type r \<in> set types \<and> tk_state r = COMPLETED \<and>
                    has_key ''approval_id'' (tk_result r) \<and> \<not> has_key ''publish_attempt_id'' (tk_result r))
          (od_tasks db)))"

end
