(* ===== verification/Task_Machine.thy ===== *)
theory Task_Machine
  imports Complex_Main Task_Store
begin

text \<open>The retry and dead-letter state machine (state_machine.py, dead_letter.py), the
dispatch gate (dispatch/gating.py) and the two queues. A handler of the dispatch
table is an argument of the model: it receives its task id, the envelope and the
database, and either returns or raises, with the transactions it committed. What
the models, the Vault and the gateway answer it is part of the argument. A send
succeeds or fails as the environment says for its position among all sends. Log
lines and the pause between two attempts have no effect in the model.\<close>

record task_envelope =
  te_task :: tid
  te_type :: string
  te_run :: nat
  te_campaign :: nat
  te_created :: instant
  te_retry :: nat
  te_metadata :: "(string \<times> string) list option"

record dead_letter_alert =
  dl_task :: tid
  dl_type :: string
  dl_loop :: string
  dl_failures :: nat
  dl_at :: instant

record heartbeat_event =
  hb_event :: nat
  hb_loop :: string
  hb_fired :: instant
  hb_source :: string

text \<open>A body of the event queue; \<open>Malformed\<close> is one that satisfies neither contract.\<close>

datatype event_body = Heartbeat heartbeat_event | Alert dead_letter_alert | Malformed

record orch_state =
  os_db :: orch_db
  os_taskq :: "task_envelope list"
  os_eventq :: "event_body list"
  os_sends :: nat

type_synonym handler = "tid \<Rightarrow> task_envelope \<Rightarrow> unit txn"

record orch_env =
  oe_table :: "string \<Rightarrow> handler option"
  oe_send_ok :: "nat \<Rightarrow> bool"

text \<open>A step of the worker that can raise.\<close>

type_synonym 'a action = "orch_state \<Rightarrow> (orch_error + 'a) \<times> orch_state"

definition on_db :: "'a txn \<Rightarrow> 'a action" where
  "on_db m st = (case m (os_db st) of (r, db') \<Rightarrow> (r, st\<lparr>os_db := db'\<rparr>))"

lemma on_db_eq: "on_db m st = (fst (m (os_db st)), st\<lparr>os_db := snd (m (os_db st))\<rparr>)"
  by (simp add: on_db_def split: prod.split)

section \<open>Sending\<close>

definition publish_task :: "orch_env \<Rightarrow> task_envelope \<Rightarrow> unit action" where
  "publish_task env e st =
    (if oe_send_ok env (os_sends st)
     then (Inr (), st\<lparr>os_taskq := os_taskq st @ [e], os_sends := os_sends st + 1\<rparr>)
     else (Inl SendFailed, st\<lparr>os_sends := os_sends st + 1\<rparr>))"

text \<open>The alert is validated against its schema before it is sent: the two names must
not be empty.\<close>

definition publish_alert :: "orch_env \<Rightarrow> dead_letter_alert \<Rightarrow> unit action" where
  "publish_alert env a st =
    (if dl_type a = [] \<or> dl_loop a = [] then (Inl (OtherError ''EnvelopeValidationError''), st)
     else if oe_send_ok env (os_sends st)
     then (Inr (), st\<lparr>os_eventq := os_eventq st @ [Alert a], os_sends := os_sends st + 1\<rparr>)
     else (Inl SendFailed, st\<lparr>os_sends := os_sends st + 1\<rparr>))"

section \<open>Dead letters\<close>

definition emit_alert :: "orch_env \<Rightarrow> tid \<Rightarrow> unit action" where
  "emit_alert env i st =
    (case get_task i (os_db st) of
       None \<Rightarrow> (Inl (RuntimeError ''cannot emit dead-letter alert''), st)
     | Some row \<Rightarrow>
         publish_alert env \<lparr>dl_task = tk_id row, dl_type = tk_type row, dl_loop = tk_loop row,
           dl_failures = 3, dl_at = od_clock (os_db st)\<rparr> st)"

definition TERMINAL_STATES :: "task_state_enum set" where
  "TERMINAL_STATES = {DEAD_LETTERED, COMPLETED, FAILED}"

lemma terminal_iff [simp]:
  "PENDING \<notin> TERMINAL_STATES" "DISPATCHABLE \<notin> TERMINAL_STATES" "DISPATCHED \<notin> TERMINAL_STATES"
  "RUNNING \<notin> TERMINAL_STATES" "RETRY_PENDING \<notin> TERMINAL_STATES"
  "COMPLETED \<in> TERMINAL_STATES" "DEAD_LETTERED \<in> TERMINAL_STATES" "FAILED \<in> TERMINAL_STATES"
  by (simp_all add: TERMINAL_STATES_def)

text \<open>Seconds before attempt n + 1; the jitter is the value random.uniform returned.\<close>

definition compute_backoff :: "nat \<Rightarrow> rat \<Rightarrow> rat \<Rightarrow> rat" where
  "compute_backoff attempt base jitter = base * 2 ^ (attempt - 1) + jitter"

definition record_failure :: "orch_env \<Rightarrow> tid \<Rightarrow> task_state_enum action" where
  "record_failure env i st =
    (case get_task i (os_db st) of
       Some row \<Rightarrow>
         (if tk_state row \<in> TERMINAL_STATES then (Inr (tk_state row), st)
          else (case on_db (increment_retry i) st of
                  (Inl x, st1) \<Rightarrow> (Inl x, st1)
                | (Inr n, st1) \<Rightarrow>
                    (if n < 3
                     then (case on_db (transition i RETRY_PENDING
                                   (if n = 1 then FAILED_ATTEMPT_1_R else FAILED_ATTEMPT_2_R)) st1 of
                             (Inl x, st2) \<Rightarrow> (Inl x, st2)
                           | (Inr _, st2) \<Rightarrow> (Inr RETRY_PENDING, st2))
                     else (case on_db (transition i DEAD_LETTERED DEAD_LETTERED_R) st1 of
                             (Inl x, st2) \<Rightarrow> (Inl x, st2)
                           | (Inr _, st2) \<Rightarrow>
                               (case emit_alert env i st2 of
                                  (Inl x, st3) \<Rightarrow> (Inl x, st3)
                                | (Inr _, st3) \<Rightarrow> (Inr DEAD_LETTERED, st3))))))
     | None \<Rightarrow> (Inl (RuntimeError ''task not found''), st))"

definition cascade_dead_letter :: "orch_env \<Rightarrow> tid \<Rightarrow> tid \<Rightarrow> task_state_enum action" where
  "cascade_dead_letter env i blocking st =
    (if map_option tk_state (get_task i (os_db st)) = Some DEAD_LETTERED then (Inr DEAD_LETTERED, st)
     else (case on_db (transition i DEAD_LETTERED DEPENDENCY_DEAD_LETTERED_R) st of
             (Inl x, st1) \<Rightarrow> (Inl x, st1)
           | (Inr _, st1) \<Rightarrow>
               (case emit_alert env i st1 of
                  (Inl x, st2) \<Rightarrow> (Inl x, st2)
                | (Inr _, st2) \<Rightarrow> (Inr DEAD_LETTERED, st2))))"

section \<open>The dispatch gate\<close>

definition PERMANENTLY_BLOCKED_STATES :: "task_state_enum set" where
  "PERMANENTLY_BLOCKED_STATES = {DEAD_LETTERED, FAILED}"

definition find_dead_lettered_dependency :: "task_row \<Rightarrow> orch_db \<Rightarrow> task_row option" where
  "find_dead_lettered_dependency current db =
    (if tk_depends current = [] then None
     else List.find (\<lambda>d. tk_state d \<in> PERMANENTLY_BLOCKED_STATES) (get_tasks (tk_depends current) db))"

definition legacy_task_pass_through :: "tid \<Rightarrow> unit txn" where
  "legacy_task_pass_through i =
    and_then (transition i RUNNING DISPATCHED_R) (\<lambda>_.
    and_then (transition i COMPLETED COMPLETED_R) (\<lambda>_.
    and_then (advance_dependents i) (\<lambda>_ db. (Inr (), db))))"

text \<open>The gate: the refusal for a task that is not dispatchable, or None.\<close>

definition dispatch_refusal :: "tid \<Rightarrow> orch_db \<Rightarrow> orch_error option" where
  "dispatch_refusal i db =
    (case get_task i db of
       None \<Rightarrow> Some TaskNotReadyError
     | Some current \<Rightarrow>
         (if tk_state current = DISPATCHABLE then None
          else if tk_state current \<in> TERMINAL_STATES
          then Some (TaskAlreadyTerminalError (tk_state current))
          else (case find_dead_lettered_dependency current db of
                  Some d \<Rightarrow> Some (DependencyDeadLetteredError (tk_id d) (tk_type d))
                | None \<Rightarrow> Some TaskNotReadyError)))"

definition dispatch_task :: "orch_env \<Rightarrow> task_envelope \<Rightarrow> unit txn" where
  "dispatch_task env e db =
    (case dispatch_refusal (te_task e) db of
       Some x \<Rightarrow> (Inl x, db)
     | None \<Rightarrow>
         (case oe_table env (te_type e) of
            None \<Rightarrow> legacy_task_pass_through (te_task e) db
          | Some h \<Rightarrow>
              and_then (transition (te_task e) RUNNING DISPATCHED_R) (\<lambda>_. h (te_task e) e) db))"

text \<open>What a retry runs: the handler itself, past the gate.\<close>

definition retry_run :: "orch_env \<Rightarrow> task_envelope \<Rightarrow> unit txn" where
  "retry_run env e =
    (case oe_table env (te_type e) of
       None \<Rightarrow> legacy_task_pass_through (te_task e)
     | Some h \<Rightarrow> h (te_task e) e)"

end
