(* ===== verification/Py_Uuid5.thy ===== *)
theory Py_Uuid5
  imports Py_Bytes
begin

unbundle bit_operations_syntax

text \<open>uuid.uuid5 of the Python standard library: the first 16 bytes of SHA-1 over the
namespace's bytes and the name's UTF-8, with the variant and version bits set. A UUID
is its 128-bit number.\<close>

definition rotl :: "nat \<Rightarrow> 32 word \<Rightarrow> 32 word" where
  "rotl n x = rotr (32 - n) x"

fun sha1_extend :: "nat \<Rightarrow> 32 word list \<Rightarrow> 32 word list" where
  "sha1_extend 0 ws = ws"
| "sha1_extend (Suc n) ws =
    sha1_extend n (rotl 1 (ws ! 2 XOR ws ! 7 XOR ws ! 13 XOR ws ! 15) # ws)"

definition sha1_schedule :: "32 word list \<Rightarrow> 32 word list" where
  "sha1_schedule blk = rev (sha1_extend 64 (rev blk))"

text \<open>The function and the constant of the round's quarter.\<close>

definition sha1_mix :: "nat \<Rightarrow> 32 word \<Rightarrow> 32 word \<Rightarrow> 32 word \<Rightarrow> 32 word" where
  "sha1_mix q b c d =
    (if q = 0 then ((b AND c) OR (NOT b AND d)) + 1518500249
     else if q = 1 then (b XOR c XOR d) + 1859775393
     else if q = 2 then ((b AND c) OR (b AND d) OR (c AND d)) + 2400959708
     else (b XOR c XOR d) + 3395469782)"

fun sha1_round :: "32 word list \<Rightarrow> nat \<times> 32 word \<Rightarrow> 32 word list" where
  "sha1_round [a, b, c, d, e] (q, w) =
    [rotl 5 a + sha1_mix q b c d + e + w, a, rotl 30 b, c, d]"
| "sha1_round st _ = st"

definition sha1_block :: "32 word list \<Rightarrow> 32 word list \<Rightarrow> 32 word list" where
  "sha1_block hs blk =
    map2 (+) hs (foldl sha1_round hs
      (zip (replicate 20 0 @ replicate 20 1 @ replicate 20 2 @ replicate 20 3) (sha1_schedule blk)))"

fun sha1_blocks :: "nat \<Rightarrow> 32 word list \<Rightarrow> 32 word list \<Rightarrow> 32 word list" where
  "sha1_blocks 0 hs ws = hs"
| "sha1_blocks (Suc n) hs ws = sha1_blocks n (sha1_block hs (take 16 ws)) (drop 16 ws)"

definition sha1_words :: "bytes \<Rightarrow> 32 word list" where
  "sha1_words m = (let ws = be_words (sha_pad m) in
     sha1_blocks (length ws div 16) [1732584193, 4023233417, 2562383102, 271733878, 3285377520] ws)"

definition uuid5 :: "nat \<Rightarrow> string \<Rightarrow> nat" where
  "uuid5 ns name =
    (let v = foldl (\<lambda>acc w. acc * 2 ^ 32 + unat w) 0 (take 4 (sha1_words (be_bytes 16 ns @ utf8_encode name)));
         hi = v div 2 ^ 64; lo = v mod 2 ^ 64
     in ((hi div 2 ^ 16) * 2 ^ 16 + 5 * 2 ^ 12 + hi mod 2 ^ 12) * 2 ^ 64 + 2 ^ 63 + lo mod 2 ^ 62)"

section \<open>Evaluation at numerals\<close>

lemma be_bytes_numeral: "be_bytes (numeral k) v = (v div 256 ^ pred_numeral k) mod 256 # be_bytes (pred_numeral k) v"
  unfolding numeral_eq_Suc[of k] by simp

lemma replicate_at_numeral: "replicate (numeral k) v = v # replicate (pred_numeral k) v"
  unfolding numeral_eq_Suc[of k] by simp

lemma sha1_extend_numeral:
  "sha1_extend (numeral k) ws = sha1_extend (pred_numeral k) (rotl 1 (ws ! 2 XOR ws ! 7 XOR ws ! 13 XOR ws ! 15) # ws)"
  unfolding numeral_eq_Suc[of k] by simp

lemma sha1_blocks_numeral:
  "sha1_blocks (numeral k) hs ws = sha1_blocks (pred_numeral k) (sha1_block hs (take 16 ws)) (drop 16 ws)"
  unfolding numeral_eq_Suc[of k] by simp

lemmas uuid5_eval = uuid5_def sha1_words_def sha1_block_def sha1_schedule_def rotl_def rotr_def sha1_mix_def
  sha1_extend_numeral sha1_blocks_numeral be_bytes_numeral replicate_at_numeral sha_pad_def utf8_encode_def utf8_cp_def

text \<open>Two values the standard library returns for the namespace with number 3.\<close>

lemma uuid5_of_a: "uuid5 3 ''a'' = 105737735483586837948828588501420163672"
  by (simp add: uuid5_eval)

lemma uuid5_of_b: "uuid5 3 ''b'' = 56052245739600217798756569043577474399"
  by (simp add: uuid5_eval)

end
