(* ===== verification/Task_Worker.thy ===== *)
theory Task_Worker
  imports Task_Machine Py_Uuid5
begin

text \<open>The worker (worker.py) and heartbeat decomposition (decompose.py): the handling
of one message of either queue, and one pass of the poll loop over the messages the
two receives returned. A message that raises is logged and completed like any other.
The loop that retries a failed handler has no bound of its own, so it is a partial
function; that it returns is proved.\<close>

definition NOT_READY_MAX_REQUEUES :: nat where
  "NOT_READY_MAX_REQUEUES = 20"

partial_function (option) retry_loop ::
    "orch_env \<Rightarrow> task_envelope \<Rightarrow> task_state_enum \<Rightarrow> orch_state \<Rightarrow>
     ((orch_error + unit) \<times> orch_state) option" where
  "retry_loop env e outcome st =
    (if outcome \<noteq> RETRY_PENDING then Some (Inr (), st)
     else (case on_db (retry_run env e) st of
             (Inr _, st1) \<Rightarrow> Some (Inr (), st1)
           | (Inl _, st1) \<Rightarrow>
               (case record_failure env (te_task e) st1 of
                  (Inl x, st2) \<Rightarrow> Some (Inl x, st2)
                | (Inr outcome', st2) \<Rightarrow> retry_loop env e outcome' st2)))"

definition retry_or_dead_letter ::
    "orch_env \<Rightarrow> task_envelope \<Rightarrow> orch_state \<Rightarrow> ((orch_error + unit) \<times> orch_state) option" where
  "retry_or_dead_letter env e st =
    (case record_failure env (te_task e) st of
       (Inl x, st1) \<Rightarrow> Some (Inl x, st1)
     | (Inr outcome, st1) \<Rightarrow> retry_loop env e outcome st1)"

definition give_up_or_requeue :: "orch_env \<Rightarrow> task_envelope \<Rightarrow> unit action" where
  "give_up_or_requeue env e st =
    (if te_retry e \<ge> NOT_READY_MAX_REQUEUES
     then (case record_failure env (te_task e) st of (r, st') \<Rightarrow> (map_sum id (\<lambda>_. ()) r, st'))
     else publish_task env (e\<lparr>te_retry := te_retry e + 1\<rparr>) st)"

definition handle_task_message ::
    "orch_env \<Rightarrow> task_envelope \<Rightarrow> orch_state \<Rightarrow> ((orch_error + unit) \<times> orch_state) option" where
  "handle_task_message env e st =
    (case on_db (dispatch_task env e) st of
       (Inr _, st1) \<Rightarrow> Some (Inr (), st1)
     | (Inl (DependencyDeadLetteredError b _), st1) \<Rightarrow>
         (case cascade_dead_letter env (te_task e) b st1 of (r, st2) \<Rightarrow> Some (map_sum id (\<lambda>_. ()) r, st2))
     | (Inl (TaskAlreadyTerminalError _), st1) \<Rightarrow> Some (Inr (), st1)
     | (Inl TaskNotReadyError, st1) \<Rightarrow> Some (give_up_or_requeue env e st1)
     | (Inl _, st1) \<Rightarrow> retry_or_dead_letter env e st1)"

text \<open>A message the broker delivers again after a crash.\<close>

definition reconcile_redelivered_task :: "orch_env \<Rightarrow> tid option \<Rightarrow> unit action" where
  "reconcile_redelivered_task env i st =
    (case i of
       None \<Rightarrow> (Inr (), st)
     | Some t \<Rightarrow> (case record_failure env t st of (r, st') \<Rightarrow> (map_sum id (\<lambda>_. ()) r, st')))"

section \<open>Heartbeats\<close>

record loop_task =
  lt_id :: string
  lt_type :: string
  lt_depends :: "string list"
  lt_params :: "json option"

record loop_definition =
  ld_loop :: string
  ld_tasks :: "loop_task list"

definition decompose :: "loop_definition \<Rightarrow> nat \<Rightarrow> new_task list" where
  "decompose loop event_id =
    map (\<lambda>t. \<lparr>nt_id = uuid5 event_id (lt_id t), nt_type = lt_type t,
              nt_depends = map (uuid5 event_id) (lt_depends t), nt_loop = ld_loop loop,
              nt_source = lt_id t, nt_params = lt_params t\<rparr>)
        (ld_tasks loop)"

text \<open>Truth of a JSON value and its text are those of Python.\<close>

definition task_metadata :: "(json \<Rightarrow> bool) \<Rightarrow> (json \<Rightarrow> string) \<Rightarrow> json option \<Rightarrow> (string \<times> string) list option" where
  "task_metadata truth text_of params =
    (case params of
       Some (JObj (kv # kvs)) \<Rightarrow>
         (let ps = kv # kvs;
              given = (\<lambda>k. case map_of ps k of Some JNull \<Rightarrow> None | v \<Rightarrow> v);
              m = (case given ''proof_circuit'' of
                     None \<Rightarrow> []
                   | Some v \<Rightarrow> [(''proof_circuit'', if truth v then ''true'' else ''false'')]) @
                  (case given ''profile_id'' of None \<Rightarrow> [] | Some v \<Rightarrow> [(''profile_id'', text_of v)])
          in if m = [] then None else Some m)
     | _ \<Rightarrow> None)"

definition envelope_of ::
    "(json option \<Rightarrow> (string \<times> string) list option) \<Rightarrow> string \<Rightarrow> nat \<Rightarrow> instant \<Rightarrow> new_task \<Rightarrow> task_envelope" where
  "envelope_of meta loop_id event_id now t =
    \<lparr>te_task = nt_id t, te_type = nt_type t,
     te_run = uuid5 event_id (''agent_run:'' @ nt_source t),
     te_campaign = uuid5 event_id (''campaign:'' @ loop_id),
     te_created = now, te_retry = 0, te_metadata = meta (nt_params t)\<rparr>"

fun publish_all :: "orch_env \<Rightarrow> task_envelope list \<Rightarrow> unit action" where
  "publish_all env [] st = (Inr (), st)"
| "publish_all env (e # es) st =
    (case publish_task env e st of
       (Inl x, st') \<Rightarrow> (Inl x, st')
     | (Inr _, st') \<Rightarrow> publish_all env es st')"

definition handle_heartbeat_message ::
    "orch_env \<Rightarrow> (json option \<Rightarrow> (string \<times> string) list option) \<Rightarrow> (string \<Rightarrow> loop_definition option) \<Rightarrow>
     heartbeat_event \<Rightarrow> task_envelope list action" where
  "handle_heartbeat_message env meta loops hb st =
    (case loops (hb_loop hb) of
       None \<Rightarrow> (Inr [], st)
     | Some loop \<Rightarrow>
         (let ts = decompose loop (hb_event hb);
              st1 = st\<lparr>os_db := insert_task_batch ts (os_db st)\<rparr>;
              es = map (envelope_of meta (ld_loop loop) (hb_event hb) (od_clock (os_db st1))) ts
          in (case publish_all env es st1 of
                (Inl x, st2) \<Rightarrow> (Inl x, st2)
              | (Inr _, st2) \<Rightarrow> (Inr es, st2))))"

section \<open>The poll loop\<close>

text \<open>Handling one event message: whatever it raises is logged.\<close>

definition event_step ::
    "orch_env \<Rightarrow> (json option \<Rightarrow> (string \<times> string) list option) \<Rightarrow> (string \<Rightarrow> loop_definition option) \<Rightarrow>
     event_body \<Rightarrow> orch_state \<Rightarrow> orch_state" where
  "event_step env meta loops m st =
    (case m of
       Alert _ \<Rightarrow> st
     | Heartbeat hb \<Rightarrow> snd (handle_heartbeat_message env meta loops hb st)
     | Malformed \<Rightarrow> st)"

definition task_step :: "orch_env \<Rightarrow> nat \<times> task_envelope \<Rightarrow> orch_state \<Rightarrow> orch_state option" where
  "task_step env m st =
    (if fst m > 1 then Some (snd (reconcile_redelivered_task env (Some (te_task (snd m))) st))
     else map_option snd (handle_task_message env (snd m) st))"

fun task_pass :: "orch_env \<Rightarrow> (nat \<times> task_envelope) list \<Rightarrow> orch_state \<Rightarrow> orch_state option" where
  "task_pass env [] st = Some st"
| "task_pass env (m # ms) st = Option.bind (task_step env m st) (task_pass env ms)"

definition worker_pass ::
    "orch_env \<Rightarrow> (json option \<Rightarrow> (string \<times> string) list option) \<Rightarrow> (string \<Rightarrow> loop_definition option) \<Rightarrow>
     event_body list \<Rightarrow> (nat \<times> task_envelope) list \<Rightarrow> orch_state \<Rightarrow> orch_state option" where
  "worker_pass env meta loops events tasks st = task_pass env tasks (fold (event_step env meta loops) events st)"

end
