(* ===== verification/Task_Inv.thy ===== *)
theory Task_Inv
  imports Task_Worker
begin

text \<open>The invariant of the orchestrator's schema and the order in which it may change,
with their preservation by each transaction of db.py. Tasks are seen through
\<open>get_task\<close>, a partial map from ids to rows.\<close>

named_theorems task_simps \<open>how each transaction changes the task map\<close>

section \<open>The task map under updates\<close>

lemma get_task_frame [simp]:
  "get_task j (db\<lparr>od_transitions := x\<rparr>) = get_task j db"
  "get_task j (db\<lparr>od_ledger := y\<rparr>) = get_task j db"
  "get_task j (db\<lparr>od_clock := z\<rparr>) = get_task j db"
  "get_task j (tick db) = get_task j db"
  by (simp_all add: get_task_def tick_def)

lemma find_update_where:
  "(\<And>r. tk_id (f r) = tk_id r) \<Longrightarrow>
   List.find (\<lambda>r. tk_id r = j) (update_where (\<lambda>r. tk_id r = i) f rows) =
   (if j = i then map_option f (List.find (\<lambda>r. tk_id r = j) rows) else List.find (\<lambda>r. tk_id r = j) rows)"
  by (induction rows) (auto simp: update_where_def)

lemma get_task_update [simp]:
  "(\<And>r. tk_id (f r) = tk_id r) \<Longrightarrow>
   get_task j (db\<lparr>od_tasks := update_where (\<lambda>r. tk_id r = i) f (od_tasks db)\<rparr>) =
   (if j = i then map_option f (get_task j db) else get_task j db)"
  by (simp add: get_task_def find_update_where)

lemma get_task_set_state [simp]:
  "get_task j (db\<lparr>od_tasks := set_state i s (od_tasks db)\<rparr>) =
   (if j = i then map_option (\<lambda>r. r\<lparr>tk_state := s\<rparr>) (get_task j db) else get_task j db)"
  by (simp add: set_state_def)

lemma get_task_id: "get_task i db = Some r \<Longrightarrow> tk_id r = i \<and> r \<in> set (od_tasks db)"
  by (auto simp: get_task_def find_Some_iff)

lemma get_task_mem:
  assumes "distinct (map tk_id (od_tasks db))" and "r \<in> set (od_tasks db)"
  shows "get_task (tk_id r) db = Some r"
proof -
  have "distinct (map tk_id rows) \<Longrightarrow> r \<in> set rows \<Longrightarrow> List.find (\<lambda>x. tk_id x = tk_id r) rows = Some r"
    for rows by (induction rows) (auto intro: rev_image_eqI)
  with assms show ?thesis by (simp add: get_task_def)
qed

definition task_state :: "tid \<Rightarrow> orch_db \<Rightarrow> task_state_enum option" where
  "task_state i db = map_option tk_state (get_task i db)"

definition deps_done :: "tid list \<Rightarrow> orch_db \<Rightarrow> bool" where
  "deps_done ids db \<longleftrightarrow> (\<forall>d\<in>set ids. task_state d db = Some COMPLETED)"

lemma task_state_Some: "task_state i db = Some s \<longleftrightarrow> (\<exists>r. get_task i db = Some r \<and> tk_state r = s)"
  by (auto simp: task_state_def)

section \<open>The invariant\<close>

text \<open>The audit rows of a task form a chain: each starts where the previous ended.\<close>

fun follows :: "task_state_enum option \<Rightarrow> transition_row list \<Rightarrow> task_state_enum option \<Rightarrow> bool" where
  "follows s [] s' \<longleftrightarrow> s = s'"
| "follows s (t # ts) s' \<longleftrightarrow> tr_from t = s \<and> follows (Some (tr_to t)) ts s'"

lemma follows_snoc:
  "follows s (ts @ [t]) s' \<longleftrightarrow> (\<exists>m. follows s ts m \<and> tr_from t = m \<and> s' = Some (tr_to t))"
  by (induction ts arbitrary: s) auto

definition trail :: "tid \<Rightarrow> orch_db \<Rightarrow> transition_row list" where
  "trail i db = filter (\<lambda>t. tr_task t = i) (od_transitions db)"

definition trail_inv :: "orch_db \<Rightarrow> bool" where
  "trail_inv db \<longleftrightarrow> (\<forall>i. follows None (trail i db) (task_state i db))"

definition clock_inv :: "orch_db \<Rightarrow> bool" where
  "clock_inv db \<longleftrightarrow>
     (\<forall>t\<in>set (od_transitions db). tr_at t < od_clock db) \<and>
     sorted_wrt (\<lambda>a b. tr_at a \<le> tr_at b \<and> (tr_task a = tr_task b \<longrightarrow> tr_at a < tr_at b)) (od_transitions db)"

definition row_ok :: "orch_db \<Rightarrow> task_row \<Rightarrow> bool" where
  "row_ok db r \<longleftrightarrow>
     tk_retry r \<le> 3 \<and>
     (tk_state r \<in> {DISPATCHABLE, RUNNING, COMPLETED} \<longrightarrow> deps_done (tk_depends r) db \<and> distinct (tk_depends r))"

definition store_inv :: "orch_db \<Rightarrow> bool" where
  "store_inv db \<longleftrightarrow> distinct (map tk_id (od_tasks db)) \<and> trail_inv db \<and> clock_inv db \<and>
     (\<forall>i r. get_task i db = Some r \<longrightarrow> row_ok db r)"

lemma store_inv_empty: "store_inv empty_orch"
  by (simp add: store_inv_def empty_orch_def trail_inv_def clock_inv_def trail_def task_state_def get_task_def)

lemma store_inv_row: "store_inv db \<Longrightarrow> get_task i db = Some r \<Longrightarrow> row_ok db r"
  by (simp add: store_inv_def)

text \<open>How the tasks may change: rows are never removed, their fixed columns stay, the
retry count never falls, a terminal state is final, audit rows are only added.\<close>

definition task_evolves :: "task_row \<Rightarrow> task_row \<Rightarrow> bool" where
  "task_evolves r r' \<longleftrightarrow> tk_id r' = tk_id r \<and> tk_loop r' = tk_loop r \<and> tk_type r' = tk_type r \<and>
     tk_depends r' = tk_depends r \<and> tk_created r' = tk_created r \<and> tk_retry r \<le> tk_retry r' \<and>
     (tk_state r \<in> TERMINAL_STATES \<longrightarrow> tk_state r' = tk_state r)"

definition evolves :: "orch_db \<Rightarrow> orch_db \<Rightarrow> bool" where
  "evolves db db' \<longleftrightarrow>
     (\<forall>i r. get_task i db = Some r \<longrightarrow> (\<exists>r'. get_task i db' = Some r' \<and> task_evolves r r')) \<and>
     appended (od_transitions db) (od_transitions db') \<and> od_clock db \<le> od_clock db'"

lemma task_evolves_refl [simp]: "task_evolves r r"
  by (simp add: task_evolves_def)

lemma task_evolves_trans: "task_evolves a b \<Longrightarrow> task_evolves b c \<Longrightarrow> task_evolves a c"
  by (auto simp: task_evolves_def)

lemma evolves_refl [simp, intro]: "evolves db db"
  by (auto simp: evolves_def)

lemma evolves_trans [trans]: "evolves a b \<Longrightarrow> evolves b c \<Longrightarrow> evolves a c"
  unfolding evolves_def by (meson appended_trans order_trans task_evolves_trans)

lemma evolves_completed: "evolves db db' \<Longrightarrow> task_state i db = Some COMPLETED \<Longrightarrow> task_state i db' = Some COMPLETED"
  unfolding evolves_def task_state_Some task_evolves_def by (metis terminal_iff(6))

lemma evolves_deps: "evolves db db' \<Longrightarrow> deps_done ids db \<Longrightarrow> deps_done ids db'"
  by (auto simp: deps_done_def intro: evolves_completed)

section \<open>One row changes\<close>

text \<open>The shared core of the writers: the row of one task is replaced, and audit rows
for that task that continue its chain are added at the current instant.\<close>

lemma sorted_trail:
  assumes "clock_inv db" and "\<forall>t\<in>set new. tr_at t = od_clock db" and "length new \<le> 1"
  shows "clock_inv (tick (db\<lparr>od_tasks := ts, od_transitions := od_transitions db @ new\<rparr>))"
  using assms by (cases new) (auto simp: clock_inv_def tick_def sorted_wrt_append intro: less_imp_le)

lemma row_change:
  assumes inv: "store_inv db" and row: "get_task i db = Some r"
    and f: "\<And>r. tk_id (f r) = tk_id r"
    and ev: "task_evolves r (f r)"
    and ok: "row_ok db (f r)"
    and new: "length new \<le> 1" "\<forall>t\<in>set new. tr_task t = i \<and> tr_at t = od_clock db"
    and chain: "follows (Some (tk_state r)) new (Some (tk_state (f r)))"
  defines "db' \<equiv> tick (db\<lparr>od_tasks := update_where (\<lambda>r. tk_id r = i) f (od_tasks db),
                          od_transitions := od_transitions db @ new\<rparr>)"
  shows "store_inv db' \<and> evolves db db'"
proof -
  have get: "get_task j db' = (if j = i then Some (f r) else get_task j db)" for j
    using row f by (simp add: db'_def get_task_def find_update_where tick_def)
  have ev': "evolves db db'"
    using ev row by (auto simp: evolves_def get) (simp_all add: db'_def tick_def)
  have clock: "clock_inv db'"
    unfolding db'_def using inv new by (intro sorted_trail) (auto simp: store_inv_def)
  have ids: "map tk_id (od_tasks db') = map tk_id (od_tasks db)"
    using f by (simp add: db'_def map_update_where tick_def)
  have tr: "trail j db' = trail j db @ (if j = i then new else [])" for j
    using new(2) by (auto simp: trail_def db'_def tick_def filter_id_conv filter_empty_conv)
  have "follows None (trail j db') (task_state j db')" for j
  proof (cases "j = i")
    case True
    have "follows None (trail i db) (Some (tk_state r))"
      using inv row by (auto simp: store_inv_def trail_inv_def task_state_def dest: spec[of _ i])
    then show ?thesis using True chain new(1)
      by (cases new) (auto simp: tr task_state_def get follows_snoc)
  next
    case False
    then show ?thesis using inv by (simp add: tr task_state_def get store_inv_def trail_inv_def)
  qed
  moreover have "row_ok db' r'" if "get_task j db' = Some r'" for j r'
  proof -
    have "row_ok db r'" using that ok inv by (auto simp: get store_inv_def split: if_splits)
    then show ?thesis using evolves_deps[OF ev'] by (auto simp: row_ok_def)
  qed
  ultimately show ?thesis using ev' clock inv ids by (simp add: store_inv_def trail_inv_def)
qed

lemma transition_ok:
  assumes "store_inv db" and "get_task i db = Some r"
    and "tk_state r \<notin> TERMINAL_STATES"
    and "s \<in> {DISPATCHABLE, RUNNING, COMPLETED} \<Longrightarrow> deps_done (tk_depends r) db \<and> distinct (tk_depends r)"
  shows "store_inv (snd (transition i s why db)) \<and> evolves db (snd (transition i s why db))"
proof -
  have ok: "row_ok db r" using assms(1,2) by (rule store_inv_row)
  have "row_ok db (r\<lparr>tk_state := s\<rparr>)" using ok assms(3,4) by (auto simp: row_ok_def)
  moreover have "task_evolves r (r\<lparr>tk_state := s\<rparr>)" using assms(3) by (simp add: task_evolves_def)
  ultimately show ?thesis
    using row_change[OF assms(1,2), of "\<lambda>r. r\<lparr>tk_state := s\<rparr>"
        "[\<lparr>tr_task = i, tr_from = Some (tk_state r), tr_to = s, tr_reason = why, tr_at = od_clock db\<rparr>]"] assms(2)
    by (simp add: transition_def set_state_def)
qed

lemma transition_get [task_simps]:
  "get_task i db = Some r \<Longrightarrow>
   get_task j (snd (transition i s why db)) = (if j = i then Some (r\<lparr>tk_state := s\<rparr>) else get_task j db)"
  by (simp add: transition_def get_task_def find_update_where set_state_def tick_def)

lemma transition_result:
  "get_task i db = Some r \<Longrightarrow> transition i s why db = (Inr (), snd (transition i s why db))"
  by (simp add: transition_def)

lemma and_then_eq:
  "and_then m f db = (case fst (m db) of Inl e \<Rightarrow> (Inl e, snd (m db)) | Inr a \<Rightarrow> f a (snd (m db)))"
  by (cases "m db") (simp add: and_then_def split: sum.split)

lemma transition_fst: "get_task i db = Some r \<Longrightarrow> fst (transition i s why db) = Inr ()"
  by (simp add: transition_def)

lemma increment_retry_get [task_simps]:
  "get_task i db = Some r \<Longrightarrow>
   get_task j (snd (increment_retry i db)) = (if j = i then Some (r\<lparr>tk_retry := tk_retry r + 1\<rparr>) else get_task j db)"
  by (simp add: increment_retry_def)

lemma increment_retry_result:
  "get_task i db = Some r \<Longrightarrow> increment_retry i db = (Inr (tk_retry r + 1), snd (increment_retry i db))"
  by (simp add: increment_retry_def)

lemma increment_retry_ok:
  assumes "store_inv db" and "get_task i db = Some r" and "tk_retry r \<le> 2"
  shows "store_inv (snd (increment_retry i db)) \<and> evolves db (snd (increment_retry i db))"
proof -
  have "row_ok db (r\<lparr>tk_retry := tk_retry r + 1\<rparr>)"
    using store_inv_row[OF assms(1,2)] assms(3) by (simp add: row_ok_def)
  moreover have "task_evolves r (r\<lparr>tk_retry := tk_retry r + 1\<rparr>)" by (simp add: task_evolves_def)
  ultimately show ?thesis
    using row_change[OF assms(1,2), of "\<lambda>r. r\<lparr>tk_retry := tk_retry r + 1\<rparr>" "[]"] assms(2)
    by (simp add: increment_retry_def)
qed

text \<open>Writes that touch neither the state nor the counters of a task.\<close>

lemma result_ref_ok:
  assumes "store_inv db"
  shows "store_inv (snd (set_result_ref i v db)) \<and> evolves db (snd (set_result_ref i v db))"
proof (cases "get_task i db")
  case None
  then have "r \<in> set (od_tasks db) \<Longrightarrow> tk_id r \<noteq> i" for r
    by (auto simp: get_task_def find_None_iff)
  then have "update_where (\<lambda>r. tk_id r = i) f (od_tasks db) = od_tasks db" for f
    by (intro update_where_id) auto
  then have "snd (set_result_ref i v db) = tick db" by (simp add: set_result_ref_def)
  moreover have "store_inv (tick db) \<and> evolves db (tick db)"
    using assms by (auto simp: store_inv_def trail_inv_def clock_inv_def trail_def task_state_def tick_def
        get_task_def evolves_def row_ok_def deps_done_def intro: less_trans)
  ultimately show ?thesis by simp
next
  case (Some r)
  have "row_ok db (r\<lparr>tk_result := Some v\<rparr>)" using store_inv_row[OF assms Some] by (simp add: row_ok_def)
  moreover have "task_evolves r (r\<lparr>tk_result := Some v\<rparr>)" by (simp add: task_evolves_def)
  ultimately show ?thesis
    using row_change[OF assms Some, of "\<lambda>r. r\<lparr>tk_result := Some v\<rparr>" "[]"] by (simp add: set_result_ref_def)
qed

lemma vault_failure_ok:
  assumes "store_inv db"
  shows "store_inv (snd (increment_vault_write_failure i db)) \<and>
         evolves db (snd (increment_vault_write_failure i db))"
proof (cases "get_task i db")
  case None
  then show ?thesis using assms by (simp add: increment_vault_write_failure_def)
next
  case (Some r)
  let ?f = "\<lambda>r. r\<lparr>tk_vault_failed := tk_vault_failed r + 1\<rparr>"
  have "row_ok db (?f r)" using store_inv_row[OF assms Some] by (simp add: row_ok_def)
  moreover have "task_evolves r (?f r)" by (simp add: task_evolves_def)
  ultimately show ?thesis
    using row_change[OF assms Some, of ?f
        "[\<lparr>tr_task = i, tr_from = Some (tk_state r), tr_to = tk_state r, tr_reason = VAULT_WRITE_FAILED_R, tr_at = od_clock db\<rparr>]"]
      Some by (simp add: increment_vault_write_failure_def)
qed

lemma ledger_get [simp]: "get_task j (snd (record_ledgered_agent_run k i run db)) = get_task j db"
  by (simp add: record_ledgered_agent_run_def)

lemma ledger_ok:
  assumes "store_inv db"
  shows "store_inv (snd (record_ledgered_agent_run k i run db)) \<and>
         evolves db (snd (record_ledgered_agent_run k i run db))"
  using assms by (auto simp: store_inv_def trail_inv_def clock_inv_def trail_def task_state_def tick_def
      get_task_def evolves_def row_ok_def deps_done_def record_ledgered_agent_run_def intro: less_trans)

section \<open>Advancing the dependents\<close>

lemma count_done:
  assumes dist: "distinct (map tk_id (od_tasks db))"
  shows "completed_count ids db = length ids \<longleftrightarrow> deps_done ids db \<and> distinct ids"
proof -
  let ?rows = "filter (\<lambda>r. tk_id r \<in> set ids \<and> tk_state r = COMPLETED) (od_tasks db)"
  let ?done = "{d \<in> set ids. task_state d db = Some COMPLETED}"
  have "distinct (map tk_id ?rows)" using dist by (simp add: distinct_map_filter)
  moreover have "set (map tk_id ?rows) = ?done"
  proof (intro equalityI subsetI)
    fix d assume "d \<in> set (map tk_id ?rows)"
    then show "d \<in> ?done" using get_task_mem[OF dist] by (auto simp: task_state_def)
  next
    fix d assume "d \<in> ?done"
    then obtain r where "get_task d db = Some r" "tk_state r = COMPLETED" "d \<in> set ids"
      by (auto simp: task_state_Some)
    then show "d \<in> set (map tk_id ?rows)" using get_task_id[of d db r] by auto
  qed
  ultimately have "length (map tk_id ?rows) = card ?done"
    using distinct_card[of "map tk_id ?rows"] by simp
  then have "completed_count ids db = card ?done" by (simp add: completed_count_def)
  moreover have "card ?done \<le> card (set ids)" "card (set ids) \<le> length ids"
    by (auto intro: card_mono card_length)
  moreover have "card ?done = card (set ids) \<longleftrightarrow> ?done = set ids"
    using card_subset_eq[of "set ids" ?done] by fastforce
  moreover have "?done = set ids \<longleftrightarrow> deps_done ids db" by (auto simp: deps_done_def)
  moreover have "card (set ids) = length ids \<longleftrightarrow> distinct ids"
    using card_distinct distinct_card by blast
  ultimately show ?thesis by linarith
qed

text \<open>What advancing does to each task: a pending one with every dependency completed
may become dispatchable, every other row stays as it is.\<close>

definition only_advances :: "orch_db \<Rightarrow> orch_db \<Rightarrow> bool" where
  "only_advances db db' \<longleftrightarrow>
     (\<forall>j. get_task j db' = get_task j db \<or>
        (\<exists>r. get_task j db = Some r \<and> tk_state r = PENDING \<and>
             get_task j db' = Some (r\<lparr>tk_state := DISPATCHABLE\<rparr>)))"

lemma advance_each_ok:
  assumes "store_inv db" and "distinct is"
    and "\<forall>i\<in>set is. \<exists>r. get_task i db = Some r \<and> tk_state r = PENDING \<and>
                 deps_done (tk_depends r) db \<and> distinct (tk_depends r)"
  shows "fst (advance_each is db) = Inr () \<and> store_inv (snd (advance_each is db)) \<and>
         evolves db (snd (advance_each is db)) \<and>
         (\<forall>j. get_task j (snd (advance_each is db)) =
            (if j \<in> set is then map_option (\<lambda>r. r\<lparr>tk_state := DISPATCHABLE\<rparr>) (get_task j db) else get_task j db))"
  using assms
proof (induction "is" arbitrary: db)
  case (Cons i "is")
  then obtain r where r: "get_task i db = Some r" "tk_state r = PENDING" "deps_done (tk_depends r) db"
      "distinct (tk_depends r)" by auto
  let ?db = "snd (transition i DISPATCHABLE DEPENDENCY_SATISFIED_R db)"
  have ok: "store_inv ?db" "evolves db ?db"
    using transition_ok[OF Cons.prems(1) r(1), of DISPATCHABLE] r by auto
  have "\<forall>j\<in>set is. \<exists>r. get_task j ?db = Some r \<and> tk_state r = PENDING \<and>
                 deps_done (tk_depends r) ?db \<and> distinct (tk_depends r)"
    using Cons.prems(2,3) evolves_deps[OF ok(2)] by (auto simp: transition_get[OF r(1)])
  from Cons.IH[OF ok(1) _ this] Cons.prems(2)
  have IH: "fst (advance_each is ?db) = Inr ()" "store_inv (snd (advance_each is ?db))"
      "evolves ?db (snd (advance_each is ?db))"
      "\<And>j. get_task j (snd (advance_each is ?db)) =
         (if j \<in> set is then map_option (\<lambda>r. r\<lparr>tk_state := DISPATCHABLE\<rparr>) (get_task j ?db) else get_task j ?db)"
    by auto
  have "advance_each (i # is) db = advance_each is ?db"
    by (simp add: and_then_eq transition_fst[OF r(1)])
  then show ?case
    using IH evolves_trans[OF ok(2) IH(3)] r(1) Cons.prems(2) by (auto simp: transition_get[OF r(1)])
qed (simp add: evolves_refl)

lemma advance_candidates_iff:
  assumes "distinct (map tk_id (od_tasks db))"
  shows "j \<in> set (advance_candidates i db) \<longleftrightarrow>
    (\<exists>r. get_task j db = Some r \<and> i \<in> set (tk_depends r) \<and> tk_state r = PENDING \<and>
         deps_done (tk_depends r) db \<and> distinct (tk_depends r))"
proof
  assume "j \<in> set (advance_candidates i db)"
  then show "\<exists>r. get_task j db = Some r \<and> i \<in> set (tk_depends r) \<and> tk_state r = PENDING \<and>
         deps_done (tk_depends r) db \<and> distinct (tk_depends r)"
    using get_task_mem[OF assms] by (auto simp: advance_candidates_def count_done[OF assms])
next
  assume "\<exists>r. get_task j db = Some r \<and> i \<in> set (tk_depends r) \<and> tk_state r = PENDING \<and>
         deps_done (tk_depends r) db \<and> distinct (tk_depends r)"
  then obtain r where "get_task j db = Some r" "i \<in> set (tk_depends r)" "tk_state r = PENDING"
    "deps_done (tk_depends r) db" "distinct (tk_depends r)" by blast
  then show "j \<in> set (advance_candidates i db)"
    using get_task_id[of j db r] by (auto simp: advance_candidates_def count_done[OF assms])
qed

lemma advance_dependents_ok:
  assumes inv: "store_inv db"
    and db': "db' = snd (advance_dependents i db)"
  shows "fst (advance_dependents i db) = Inr (advance_candidates i db)"
    and "store_inv db'" and "evolves db db'" and "only_advances db db'"
    and "get_task j db' = (if j \<in> set (advance_candidates i db)
           then map_option (\<lambda>r. r\<lparr>tk_state := DISPATCHABLE\<rparr>) (get_task j db) else get_task j db)"
proof -
  let ?is = "advance_candidates i db"
  have dist: "distinct (map tk_id (od_tasks db))" using inv by (simp add: store_inv_def)
  have "distinct ?is" using dist by (simp add: advance_candidates_def distinct_map_filter)
  note facts = advance_each_ok[OF inv this]
  have ok: "fst (advance_each ?is db) = Inr () \<and> store_inv (snd (advance_each ?is db)) \<and>
         evolves db (snd (advance_each ?is db)) \<and>
         (\<forall>j. get_task j (snd (advance_each ?is db)) =
            (if j \<in> set ?is then map_option (\<lambda>r. r\<lparr>tk_state := DISPATCHABLE\<rparr>) (get_task j db) else get_task j db))"
    by (rule facts) (auto simp: advance_candidates_iff[OF dist])
  have eq: "advance_dependents i db = (Inr ?is, snd (advance_each ?is db))"
    using ok by (cases "advance_each ?is db") (simp add: advance_dependents_def and_then_def)
  show "fst (advance_dependents i db) = Inr ?is" "store_inv db'" "evolves db db'"
    "get_task j db' = (if j \<in> set ?is then map_option (\<lambda>r. r\<lparr>tk_state := DISPATCHABLE\<rparr>) (get_task j db) else get_task j db)"
    using ok by (auto simp: db' eq)
  show "only_advances db db'"
    using ok unfolding only_advances_def db' eq by (auto simp: advance_candidates_iff[OF dist])
qed

end
