(* ===== verification/Task_Handler.thy ===== *)
theory Task_Handler
  imports Task_Inv
begin

text \<open>The contract between the worker and the handlers of the dispatch table: while a
handler runs for an open task it commits only transactions of its own kind, and when
it returns its task is settled. The worker's facts about any handler are proved once
from it. The pass-through of gating.py satisfies it.\<close>

definition task_open :: "tid \<Rightarrow> orch_db \<Rightarrow> bool" where
  "task_open i db \<longleftrightarrow> (\<exists>r. get_task i db = Some r \<and> tk_state r \<notin> TERMINAL_STATES \<and>
     deps_done (tk_depends r) db \<and> distinct (tk_depends r))"

definition task_settled :: "tid \<Rightarrow> orch_db \<Rightarrow> bool" where
  "task_settled i db \<longleftrightarrow> task_state i db \<in> {Some COMPLETED, Some FAILED}"

definition complete_task :: "tid \<Rightarrow> unit txn" where
  "complete_task i =
    and_then (transition i COMPLETED COMPLETED_R) (\<lambda>_.
    and_then (advance_dependents i) (\<lambda>_ db. (Inr (), db)))"

inductive handler_step :: "tid \<Rightarrow> orch_db \<Rightarrow> orch_db \<Rightarrow> bool" for i where
  result: "handler_step i db (snd (set_result_ref j v db))"
| ledger: "handler_step i db (snd (record_ledgered_agent_run k j run db))"
| vault: "handler_step i db (snd (increment_vault_write_failure j db))"
| start: "task_open i db \<Longrightarrow> handler_step i db (snd (transition i RUNNING DISPATCHED_R db))"
| complete: "task_open i db \<Longrightarrow> handler_step i db (snd (complete_task i db))"
| block: "task_open i db \<Longrightarrow> handler_step i db (snd (transition i FAILED QA_BLOCKED_R db))"

inductive_cases handler_step_cases: "handler_step i db db'"

section \<open>What a handler's transactions do\<close>

text \<open>Every retry count stays; another task stays as it is or becomes dispatchable; no
task that is pending has all its distinct dependencies completed, if none had before.\<close>

definition ready_inv :: "orch_db \<Rightarrow> bool" where
  "ready_inv db \<longleftrightarrow> (\<forall>i r. get_task i db = Some r \<longrightarrow> tk_state r = PENDING \<longrightarrow> distinct (tk_depends r) \<longrightarrow>
     \<not> deps_done (tk_depends r) db)"

definition same_states :: "orch_db \<Rightarrow> orch_db \<Rightarrow> bool" where
  "same_states db db' \<longleftrightarrow> (\<forall>j. map_option (\<lambda>r. (tk_state r, tk_depends r)) (get_task j db') =
                              map_option (\<lambda>r. (tk_state r, tk_depends r)) (get_task j db))"

definition handler_effect :: "tid \<Rightarrow> orch_db \<Rightarrow> orch_db \<Rightarrow> bool" where
  "handler_effect i db db' \<longleftrightarrow> store_inv db' \<and> evolves db db' \<and>
     (\<forall>j r r'. get_task j db = Some r \<longrightarrow> get_task j db' = Some r' \<longrightarrow>
        tk_retry r' = tk_retry r \<and>
        (tk_state r' = tk_state r \<or> j \<noteq> i \<and> tk_state r = PENDING \<and> tk_state r' = DISPATCHABLE \<or>
         j = i \<and> tk_state r' \<in> {RUNNING, COMPLETED, FAILED})) \<and>
     (\<forall>j. get_task j db = None \<longrightarrow> get_task j db' = None) \<and>
     (ready_inv db \<longrightarrow> ready_inv db')"

lemma handler_effect_row:
  assumes "handler_effect i db db'" and "get_task j db = Some r"
  obtains r' where "get_task j db' = Some r'" and "task_evolves r r'" and "tk_retry r' = tk_retry r"
    and "tk_state r' = tk_state r \<or> j \<noteq> i \<and> tk_state r = PENDING \<and> tk_state r' = DISPATCHABLE \<or>
         j = i \<and> tk_state r' \<in> {RUNNING, COMPLETED, FAILED}"
proof -
  have "evolves db db'" using assms(1) by (simp add: handler_effect_def)
  then have "\<exists>r'. get_task j db' = Some r' \<and> task_evolves r r'" using assms(2) unfolding evolves_def by blast
  then obtain r' where r': "get_task j db' = Some r'" "task_evolves r r'" by blast
  then show thesis using that[OF r'] assms unfolding handler_effect_def by metis
qed

lemma same_states_get:
  "same_states db db' \<Longrightarrow> get_task j db' = Some r' \<Longrightarrow>
   \<exists>r. get_task j db = Some r \<and> tk_state r = tk_state r' \<and> tk_depends r = tk_depends r'"
  unfolding same_states_def by (drule spec[of _ j], cases "get_task j db") auto

lemma same_states_task_state: "same_states db db' \<Longrightarrow> task_state j db' = task_state j db"
proof -
  assume "same_states db db'"
  then have "map_option fst (map_option (\<lambda>r. (tk_state r, tk_depends r)) (get_task j db')) =
      map_option fst (map_option (\<lambda>r. (tk_state r, tk_depends r)) (get_task j db))"
    by (simp add: same_states_def)
  then show ?thesis by (simp add: task_state_def option.map_comp comp_def)
qed

lemma same_states_ready: "same_states db db' \<Longrightarrow> ready_inv db \<Longrightarrow> ready_inv db'"
proof -
  assume s: "same_states db db'" and rdy: "ready_inv db"
  show ?thesis
    unfolding ready_inv_def
  proof (intro allI impI)
    fix i r assume r: "get_task i db' = Some r" "tk_state r = PENDING" "distinct (tk_depends r)"
    from same_states_get[OF s r(1)] obtain q
      where q: "get_task i db = Some q" "tk_state q = tk_state r" "tk_depends q = tk_depends r" by auto
    have "\<not> deps_done (tk_depends q) db" using rdy q r(2,3) unfolding ready_inv_def by metis
    then have "\<not> deps_done (tk_depends r) db" using q(3) by simp
    then show "\<not> deps_done (tk_depends r) db'" by (simp add: deps_done_def same_states_task_state[OF s])
  qed
qed

lemma complete_task_get:
  assumes inv: "store_inv db" and r: "get_task i db = Some r" "tk_state r \<notin> TERMINAL_STATES"
    and deps: "deps_done (tk_depends r) db" "distinct (tk_depends r)"
  defines "db1 \<equiv> snd (transition i COMPLETED COMPLETED_R db)"
  shows "complete_task i db = (Inr (), snd (advance_dependents i db1))"
    and "store_inv db1" and "evolves db db1" and "store_inv (snd (advance_dependents i db1))"
    and "evolves db (snd (advance_dependents i db1))"
    and "i \<notin> set (tk_depends r)"
proof -
  have ok: "store_inv db1 \<and> evolves db db1"
    unfolding db1_def using assms by (intro transition_ok) auto
  then show "store_inv db1" "evolves db db1" by auto
  note adv = advance_dependents_ok[OF conjunct1[OF ok] refl, where i=i]
  show "complete_task i db = (Inr (), snd (advance_dependents i db1))"
    using adv(1) by (simp add: complete_task_def and_then_eq transition_fst[OF r(1)] db1_def)
  show "store_inv (snd (advance_dependents i db1))" by (rule adv(2))
  show "evolves db (snd (advance_dependents i db1))" using evolves_trans[OF conjunct2[OF ok] adv(3)] .
  show "i \<notin> set (tk_depends r)" using deps(1) r by (auto simp: deps_done_def task_state_def)
qed

lemma deps_done_other:
  assumes "\<And>d. d \<in> set ids \<Longrightarrow> task_state d db' = Some COMPLETED \<Longrightarrow> task_state d db = Some COMPLETED"
    and "deps_done ids db'"
  shows "deps_done ids db"
  using assms by (auto simp: deps_done_def)

lemma complete_task_effect:
  assumes inv: "store_inv db" and op: "task_open i db"
  shows "handler_effect i db (snd (complete_task i db))" and "task_state i (snd (complete_task i db)) = Some COMPLETED"
    and "fst (complete_task i db) = Inr ()"
proof -
  from op obtain r where r: "get_task i db = Some r" "tk_state r \<notin> TERMINAL_STATES"
      "deps_done (tk_depends r) db" "distinct (tk_depends r)" by (auto simp: task_open_def)
  let ?d1 = "snd (transition i COMPLETED COMPLETED_R db)"
  let ?d2 = "snd (advance_dependents i ?d1)"
  note c = complete_task_get[OF inv r]
  note adv = advance_dependents_ok[OF c(2) refl, where i=i]
  have dist: "distinct (map tk_id (od_tasks ?d1))" using c(2) by (simp add: store_inv_def)
  have g1: "get_task j ?d1 = (if j = i then Some (r\<lparr>tk_state := COMPLETED\<rparr>) else get_task j db)" for j
    by (rule transition_get[OF r(1)])
  have cand: "j \<in> set (advance_candidates i ?d1) \<Longrightarrow> j \<noteq> i \<and> (\<exists>r. get_task j db = Some r \<and> tk_state r = PENDING)" for j
    by (auto simp: advance_candidates_iff[OF dist] g1 split: if_splits)
  have eq: "snd (complete_task i db) = ?d2" using c(1) by simp
  show "fst (complete_task i db) = Inr ()" using c(1) by simp
  have i2: "get_task i ?d2 = Some (r\<lparr>tk_state := COMPLETED\<rparr>)"
    using cand[of i] by (auto simp: adv(5) g1)
  then show "task_state i (snd (complete_task i db)) = Some COMPLETED" by (simp add: eq task_state_def)
  have rdy: "ready_inv ?d2" if "ready_inv db"
    unfolding ready_inv_def
  proof (intro allI impI)
    fix j q assume q: "get_task j ?d2 = Some q" "tk_state q = PENDING" "distinct (tk_depends q)"
    then have q1: "get_task j ?d1 = Some q" and nc: "j \<notin> set (advance_candidates i ?d1)"
      by (auto simp: adv(5) split: if_splits)
    then have q0: "get_task j db = Some q" and ji: "j \<noteq> i" using q(2) by (auto simp: g1 split: if_splits)
    have same: "task_state d ?d2 = Some COMPLETED \<longleftrightarrow> task_state d ?d1 = Some COMPLETED" for d
      using advance_candidates_iff[OF dist, of d i] by (auto simp: task_state_def adv(5))
    show "\<not> deps_done (tk_depends q) ?d2"
    proof
      assume "deps_done (tk_depends q) ?d2"
      then have d1: "deps_done (tk_depends q) ?d1" by (simp add: deps_done_def same)
      then have "i \<notin> set (tk_depends q)"
        using nc q1 q(2,3) by (auto simp: advance_candidates_iff[OF dist])
      then have "deps_done (tk_depends q) db" using d1
        by (intro deps_done_other[OF _ d1]) (auto simp: task_state_def g1 split: if_splits)
      then show False using that q0 q(2,3) by (auto simp: ready_inv_def)
    qed
  qed
  show "handler_effect i db (snd (complete_task i db))"
    unfolding handler_effect_def eq
  proof (intro conjI allI impI)
    show "store_inv ?d2" "evolves db ?d2" using c(4,5) .
    show "ready_inv db \<Longrightarrow> ready_inv ?d2" by (rule rdy)
    fix j assume "get_task j db = None"
    then show "get_task j ?d2 = None" using r(1) by (auto simp: adv(5) g1)
  next
    fix j q q' assume q: "get_task j db = Some q" "get_task j ?d2 = Some q'"
    show "tk_retry q' = tk_retry q" using q r(1) by (auto simp: adv(5) g1 split: if_splits)
    show "tk_state q' = tk_state q \<or> j \<noteq> i \<and> tk_state q = PENDING \<and> tk_state q' = DISPATCHABLE \<or>
        j = i \<and> tk_state q' \<in> {RUNNING, COMPLETED, FAILED}"
      using q cand[of j] i2 by (auto simp: adv(5) g1 split: if_splits)
  qed
qed

lemma transition_effect:
  assumes inv: "store_inv db" and op: "task_open i db" and s: "s \<in> {RUNNING, FAILED}"
  shows "handler_effect i db (snd (transition i s why db))"
proof -
  from op obtain r where r: "get_task i db = Some r" "tk_state r \<notin> TERMINAL_STATES"
      "deps_done (tk_depends r) db" "distinct (tk_depends r)" by (auto simp: task_open_def)
  let ?d1 = "snd (transition i s why db)"
  have ok: "store_inv ?d1 \<and> evolves db ?d1" using r inv by (intro transition_ok) auto
  have g: "get_task j ?d1 = (if j = i then Some (r\<lparr>tk_state := s\<rparr>) else get_task j db)" for j
    by (rule transition_get[OF r(1)])
  have cs: "task_state d ?d1 = Some COMPLETED \<Longrightarrow> task_state d db = Some COMPLETED" for d
    using s by (auto simp: task_state_def g split: if_splits)
  have "ready_inv ?d1" if "ready_inv db"
    unfolding ready_inv_def
  proof (intro allI impI notI)
    fix j q assume q: "get_task j ?d1 = Some q" "tk_state q = PENDING" "distinct (tk_depends q)"
      "deps_done (tk_depends q) ?d1"
    then have "get_task j db = Some q" using s by (auto simp: g split: if_splits)
    moreover have "deps_done (tk_depends q) db" using q(4) cs by (rule deps_done_other[rotated])
    ultimately show False using that q(2,3) by (auto simp: ready_inv_def)
  qed
  with ok r(1) s show ?thesis by (auto simp: handler_effect_def g)
qed

lemma quiet_effect:
  assumes "store_inv db'" "evolves db db'"
    and "\<And>j. map_option (\<lambda>r. (tk_state r, tk_depends r, tk_retry r)) (get_task j db') =
              map_option (\<lambda>r. (tk_state r, tk_depends r, tk_retry r)) (get_task j db)"
  shows "handler_effect i db db'"
proof -
  have "same_states db db'"
    unfolding same_states_def
  proof
    fix j
    from arg_cong[OF assms(3)[of j], of "map_option (\<lambda>(a, b, c). (a, b))"]
    show "map_option (\<lambda>r. (tk_state r, tk_depends r)) (get_task j db') =
          map_option (\<lambda>r. (tk_state r, tk_depends r)) (get_task j db)"
      by (simp add: option.map_comp comp_def)
  qed
  moreover have "tk_state r' = tk_state r \<and> tk_retry r' = tk_retry r"
    if "get_task j db = Some r" "get_task j db' = Some r'" for j r r'
    using assms(3)[of j] that by simp
  moreover have "get_task j db = None \<Longrightarrow> get_task j db' = None" for j
    using assms(3)[of j] by simp
  ultimately show ?thesis using assms(1,2) same_states_ready by (auto simp: handler_effect_def)
qed

lemma handler_step_effect: "handler_step i db db' \<Longrightarrow> store_inv db \<Longrightarrow> handler_effect i db db'"
proof (induction rule: handler_step.induct)
  case (result db j v)
  then show ?case using result_ref_ok[of db j v]
    by (intro quiet_effect) (auto simp: set_result_ref_def option.map_comp comp_def)
next
  case (ledger db k j run)
  then show ?case using ledger_ok[of db k j run] by (intro quiet_effect) auto
next
  case (vault db j)
  then show ?case using vault_failure_ok[of db j]
    by (intro quiet_effect)
       (auto simp: increment_vault_write_failure_def option.map_comp comp_def split: option.splits)
next
  case (complete db)
  then show ?case by (simp add: complete_task_effect(1))
qed (simp_all add: transition_effect)

lemma handler_effect_trans:
  assumes ab: "handler_effect i a b" and bc: "handler_effect i b c"
  shows "handler_effect i a c"
  unfolding handler_effect_def
proof (intro conjI allI impI)
  show "store_inv c" using bc by (simp add: handler_effect_def)
  show "evolves a c" using ab bc evolves_trans by (auto simp: handler_effect_def)
  show "ready_inv a \<Longrightarrow> ready_inv c" using ab bc by (simp add: handler_effect_def)
  show "get_task j a = None \<Longrightarrow> get_task j c = None" for j using ab bc by (simp add: handler_effect_def)
next
  fix j q q'' assume q: "get_task j a = Some q" "get_task j c = Some q''"
  from handler_effect_row[OF ab q(1)] obtain q' where q': "get_task j b = Some q'"
    and 1: "tk_retry q' = tk_retry q" "tk_state q' = tk_state q \<or> j \<noteq> i \<and> tk_state q = PENDING \<and> tk_state q' = DISPATCHABLE \<or>
        j = i \<and> tk_state q' \<in> {RUNNING, COMPLETED, FAILED}" .
  from handler_effect_row[OF bc q'] q(2)
  have 2: "tk_retry q'' = tk_retry q'" "tk_state q'' = tk_state q' \<or> j \<noteq> i \<and> tk_state q' = PENDING \<and> tk_state q'' = DISPATCHABLE \<or>
        j = i \<and> tk_state q'' \<in> {RUNNING, COMPLETED, FAILED}"
    by (metis option.inject)+
  show "tk_retry q'' = tk_retry q" using 1 2 by simp
  show "tk_state q'' = tk_state q \<or> j \<noteq> i \<and> tk_state q = PENDING \<and> tk_state q'' = DISPATCHABLE \<or>
        j = i \<and> tk_state q'' \<in> {RUNNING, COMPLETED, FAILED}"
    using 1(2) 2(2) by auto
qed

lemma handler_steps_effect: "(handler_step i)\<^sup>*\<^sup>* db db' \<Longrightarrow> store_inv db \<Longrightarrow> handler_effect i db db'"
proof (induction rule: rtranclp_induct)
  case base
  then show ?case by (intro quiet_effect) auto
next
  case (step y z)
  then have "handler_effect i db y" by simp
  moreover from this have "store_inv y" by (simp add: handler_effect_def)
  ultimately show ?case using step handler_step_effect handler_effect_trans by blast
qed

section \<open>The contract\<close>

text \<open>The errors of the gate itself, which no handler raises.\<close>

fun gate_error :: "orch_error \<Rightarrow> bool" where
  "gate_error TaskNotReadyError = True"
| "gate_error (TaskAlreadyTerminalError _) = True"
| "gate_error (DependencyDeadLetteredError _ _) = True"
| "gate_error _ = False"

locale task_handler =
  fixes h :: handler
  assumes commits: "store_inv db \<Longrightarrow> task_open i db \<Longrightarrow> (handler_step i)\<^sup>*\<^sup>* db (snd (h i e db))"
    and settles: "store_inv db \<Longrightarrow> task_open i db \<Longrightarrow> fst (h i e db) = Inr () \<Longrightarrow> task_settled i (snd (h i e db))"
    and raises: "store_inv db \<Longrightarrow> task_open i db \<Longrightarrow> fst (h i e db) = Inl x \<Longrightarrow> \<not> gate_error x"
begin

lemma effect: "store_inv db \<Longrightarrow> task_open i db \<Longrightarrow> handler_effect i db (snd (h i e db))"
  by (rule handler_steps_effect[OF commits])

lemma returns_or_stays:
  assumes "store_inv db" and "get_task i db = Some r" and "task_open i db"
  obtains r' where "get_task i (snd (h i e db)) = Some r'" and "tk_retry r' = tk_retry r"
    and "tk_state r' \<in> {tk_state r, RUNNING, COMPLETED, FAILED}"
    and "fst (h i e db) = Inr () \<Longrightarrow> tk_state r' \<in> {COMPLETED, FAILED}"
    and "tk_depends r' = tk_depends r"
proof -
  have eff: "handler_effect i db (snd (h i e db))" using assms by (intro effect)
  from handler_effect_row[OF this assms(2)] obtain r'
    where r': "get_task i (snd (h i e db)) = Some r'" "task_evolves r r'" "tk_retry r' = tk_retry r"
      "tk_state r' \<in> {tk_state r, RUNNING, COMPLETED, FAILED}" by (metis insertCI insertE)
  moreover have "fst (h i e db) = Inr () \<Longrightarrow> tk_state r' \<in> {COMPLETED, FAILED}"
    using settles[OF assms(1,3), of e] r'(1) by (auto simp: task_settled_def task_state_def)
  ultimately show thesis using that r' by (auto simp: task_evolves_def)
qed

end

text \<open>The pass-through is start followed by complete.\<close>

lemma legacy_is_start_complete:
  "legacy_task_pass_through i = and_then (transition i RUNNING DISPATCHED_R) (\<lambda>_. complete_task i)"
  by (simp add: legacy_task_pass_through_def complete_task_def)

lemma open_after_start:
  assumes "store_inv db" and "task_open i db"
  shows "task_open i (snd (transition i RUNNING DISPATCHED_R db))"
    and "store_inv (snd (transition i RUNNING DISPATCHED_R db))"
    and "fst (transition i RUNNING DISPATCHED_R db) = Inr ()"
proof -
  from assms(2) obtain r where r: "get_task i db = Some r" "tk_state r \<notin> TERMINAL_STATES"
      "deps_done (tk_depends r) db" "distinct (tk_depends r)" by (auto simp: task_open_def)
  have ok: "store_inv (snd (transition i RUNNING DISPATCHED_R db)) \<and> evolves db (snd (transition i RUNNING DISPATCHED_R db))"
    using r assms(1) by (intro transition_ok) auto
  then show "store_inv (snd (transition i RUNNING DISPATCHED_R db))" by simp
  show "fst (transition i RUNNING DISPATCHED_R db) = Inr ()" using r(1) by (rule transition_fst)
  show "task_open i (snd (transition i RUNNING DISPATCHED_R db))"
    using r evolves_deps[OF conjunct2[OF ok]] by (auto simp: task_open_def transition_get[OF r(1)])
qed

lemma legacy_eq:
  assumes "store_inv db" and "task_open i db"
  shows "legacy_task_pass_through i db = complete_task i (snd (transition i RUNNING DISPATCHED_R db))"
  using open_after_start(3)[OF assms] by (simp add: legacy_is_start_complete and_then_eq)

interpretation pass_through: task_handler "\<lambda>i e. legacy_task_pass_through i"
proof (unfold_locales, goal_cases)
  case (1 db i e)
  note o = open_after_start[OF 1]
  have "handler_step i db (snd (transition i RUNNING DISPATCHED_R db))" using 1 by (intro handler_step.start)
  moreover have "handler_step i (snd (transition i RUNNING DISPATCHED_R db)) (snd (legacy_task_pass_through i db))"
    unfolding legacy_eq[OF 1] using o(1) by (rule handler_step.complete)
  ultimately show ?case by (meson converse_rtranclp_into_rtranclp r_into_rtranclp)
next
  case (2 db i e)
  note o = open_after_start[OF 2(1,2)]
  show ?case unfolding legacy_eq[OF 2(1,2)] task_settled_def
    using complete_task_effect(2)[OF o(2,1)] by simp
next
  case (3 db i e x)
  note o = open_after_start[OF 3(1,2)]
  show ?case using 3(3) complete_task_effect(3)[OF o(2,1)] unfolding legacy_eq[OF 3(1,2)] by simp
qed

end
