(* ===== verification/Task_Failure.thy ===== *)
theory Task_Failure
  imports Task_Handler
begin

text \<open>What record_failure, cascade_dead_letter and the retry loop do to the tasks, for
any handlers that keep the contract: the retry loop always returns, with its task in
a terminal state.\<close>

definition retry_inv :: "orch_db \<Rightarrow> bool" where
  "retry_inv db \<longleftrightarrow> (\<forall>i r. get_task i db = Some r \<longrightarrow> tk_state r \<notin> TERMINAL_STATES \<longrightarrow> tk_retry r \<le> 2)"

definition orch_inv :: "orch_db \<Rightarrow> bool" where
  "orch_inv db \<longleftrightarrow> store_inv db \<and> retry_inv db"

definition progress :: "tid \<Rightarrow> orch_db \<Rightarrow> orch_db \<Rightarrow> bool" where
  "progress i db db' \<longleftrightarrow> orch_inv db' \<and> evolves db db' \<and> (ready_inv db \<longrightarrow> ready_inv db') \<and>
     (\<forall>j. get_task j db = None \<longrightarrow> get_task j db' = None) \<and>
     (\<forall>j. j \<noteq> i \<longrightarrow> task_state j db' = task_state j db \<or>
        task_state j db = Some PENDING \<and> task_state j db' = Some DISPATCHABLE)"

lemma progress_refl [simp]: "orch_inv db \<Longrightarrow> progress i db db"
  by (simp add: progress_def)

lemma progress_trans [trans]: "progress i a b \<Longrightarrow> progress i b c \<Longrightarrow> progress i a c"
  unfolding progress_def using evolves_trans by (smt (verit, best) option.inject task_state_enum.distinct(1))

lemma progress_task: "progress k a b \<Longrightarrow> get_task i a = Some r \<Longrightarrow> \<exists>r'. get_task i b = Some r' \<and> task_evolves r r'"
  unfolding progress_def evolves_def by blast

lemma retry_inv_effect:
  assumes "handler_effect i db db'" and "retry_inv db" and "evolves db db'"
  shows "retry_inv db'"
  unfolding retry_inv_def
proof (intro allI impI)
  fix j r' assume r': "get_task j db' = Some r'" "tk_state r' \<notin> TERMINAL_STATES"
  then obtain r where r: "get_task j db = Some r"
    using assms(1) unfolding handler_effect_def by (metis option.exhaust option.distinct(1))
  from handler_effect_row[OF assms(1) r] r'(1) have e: "task_evolves r r'" "tk_retry r' = tk_retry r"
    by (metis option.inject)+
  then have "tk_state r \<notin> TERMINAL_STATES" using r'(2) by (auto simp: task_evolves_def)
  then show "tk_retry r' \<le> 2" using assms(2) r e(2) by (auto simp: retry_inv_def)
qed

lemma effect_progress:
  assumes "handler_effect i db db'" and "orch_inv db"
  shows "progress i db db'"
proof -
  have "task_state j db' = task_state j db \<or> task_state j db = Some PENDING \<and> task_state j db' = Some DISPATCHABLE"
    if ji: "j \<noteq> i" for j
  proof (cases "get_task j db")
    case None
    then show ?thesis using assms(1) by (simp add: handler_effect_def task_state_def)
  next
    case (Some r)
    from handler_effect_row[OF assms(1) Some] obtain r' where "get_task j db' = Some r'"
      "tk_state r' = tk_state r \<or> tk_state r = PENDING \<and> tk_state r' = DISPATCHABLE"
      by (rule handler_effect_row[OF assms(1) Some]) (use that ji in auto)
    then show ?thesis using Some by (auto simp: task_state_def)
  qed
  then show ?thesis
    using assms retry_inv_effect[OF assms(1)] by (auto simp: progress_def orch_inv_def handler_effect_def)
qed

lemma ready_row_change:
  assumes "\<And>j. get_task j db' = (if j = i then Some r' else get_task j db)"
    and "tk_state r' \<notin> {PENDING, COMPLETED}" and "ready_inv db"
  shows "ready_inv db'"
  unfolding ready_inv_def
proof (intro allI impI notI)
  fix j q assume q: "get_task j db' = Some q" "tk_state q = PENDING" "distinct (tk_depends q)"
    "deps_done (tk_depends q) db'"
  then have "get_task j db = Some q" using assms(1,2) by (auto split: if_splits)
  moreover have "task_state d db' = Some COMPLETED \<Longrightarrow> task_state d db = Some COMPLETED" for d
    using assms(1,2) by (auto simp: task_state_def split: if_splits)
  then have "deps_done (tk_depends q) db" using q(4) by (rule deps_done_other)
  ultimately show False using assms(3) q(2,3) by (auto simp: ready_inv_def)
qed

section \<open>A strike\<close>

definition struck :: "tid \<Rightarrow> task_state_enum \<Rightarrow> transition_reason \<Rightarrow> orch_db \<Rightarrow> orch_db" where
  "struck i s why db = snd (transition i s why (snd (increment_retry i db)))"

lemma struck_facts:
  assumes inv: "orch_inv db" and r: "get_task i db = Some r" "tk_state r \<notin> TERMINAL_STATES"
    and s: "s = RETRY_PENDING \<and> tk_retry r < 2 \<or> s = DEAD_LETTERED"
  shows "get_task j (struck i s why db) =
           (if j = i then Some (r\<lparr>tk_retry := tk_retry r + 1, tk_state := s\<rparr>) else get_task j db)"
    and "progress i db (struck i s why db)"
proof -
  let ?d = "snd (increment_retry i db)"
  have le: "tk_retry r \<le> 2" using inv r by (auto simp: orch_inv_def retry_inv_def)
  have d: "get_task j ?d = (if j = i then Some (r\<lparr>tk_retry := tk_retry r + 1\<rparr>) else get_task j db)" for j
    by (rule increment_retry_get[OF r(1)])
  show g: "get_task j (struck i s why db) =
           (if j = i then Some (r\<lparr>tk_retry := tk_retry r + 1, tk_state := s\<rparr>) else get_task j db)" for j
    unfolding struck_def using transition_get[of i ?d "r\<lparr>tk_retry := tk_retry r + 1\<rparr>"] by (simp add: d)
  have ok1: "store_inv ?d" "evolves db ?d"
    using increment_retry_ok[of db i r] inv r le by (auto simp: orch_inv_def)
  have ok2: "store_inv (struck i s why db) \<and> evolves ?d (struck i s why db)"
    unfolding struck_def using ok1 r(2) s
    by (intro transition_ok[where r = "r\<lparr>tk_retry := tk_retry r + 1\<rparr>"]) (auto simp: d)
  have "retry_inv (struck i s why db)"
    using inv s le by (auto simp: retry_inv_def g orch_inv_def)
  moreover have "ready_inv db \<Longrightarrow> ready_inv (struck i s why db)"
    using s by (intro ready_row_change[OF g]) auto
  ultimately show "progress i db (struck i s why db)"
    using ok1 ok2 evolves_trans r(1) by (auto simp: progress_def orch_inv_def g task_state_def)
qed

lemma struck_results:
  assumes "get_task i db = Some r"
  shows "on_db (increment_retry i) (st\<lparr>os_db := db\<rparr>) = (Inr (tk_retry r + 1), st\<lparr>os_db := snd (increment_retry i db)\<rparr>)"
    and "on_db (transition i s why) (st\<lparr>os_db := snd (increment_retry i db)\<rparr>) = (Inr (), st\<lparr>os_db := struck i s why db\<rparr>)"
proof -
  show "on_db (increment_retry i) (st\<lparr>os_db := db\<rparr>) = (Inr (tk_retry r + 1), st\<lparr>os_db := snd (increment_retry i db)\<rparr>)"
    by (simp add: on_db_eq increment_retry_def assms)
  have "get_task i (snd (increment_retry i db)) = Some (r\<lparr>tk_retry := tk_retry r + 1\<rparr>)"
    by (simp add: increment_retry_get[OF assms])
  from transition_fst[OF this]
  show "on_db (transition i s why) (st\<lparr>os_db := snd (increment_retry i db)\<rparr>) = (Inr (), st\<lparr>os_db := struck i s why db\<rparr>)"
    by (simp add: on_db_eq struck_def)
qed

lemma emit_alert_db [simp]: "os_db (snd (emit_alert env i st)) = os_db st"
  by (simp add: emit_alert_def publish_alert_def split: option.splits)

lemma emit_alert_fst: "fst (emit_alert env i st) = Inr x \<or> (\<exists>e. fst (emit_alert env i st) = Inl e)"
  by (cases "fst (emit_alert env i st)") auto

text \<open>The three outcomes of record_failure on a known task.\<close>

lemma record_failure_terminal:
  "get_task i (os_db st) = Some r \<Longrightarrow> tk_state r \<in> TERMINAL_STATES \<Longrightarrow>
   record_failure env i st = (Inr (tk_state r), st)"
  by (simp add: record_failure_def)

lemma record_failure_retry:
  assumes "get_task i (os_db st) = Some r" and "tk_state r \<notin> TERMINAL_STATES" and "tk_retry r < 2"
  defines "why \<equiv> (if tk_retry r = 0 then FAILED_ATTEMPT_1_R else FAILED_ATTEMPT_2_R)"
  shows "record_failure env i st = (Inr RETRY_PENDING, st\<lparr>os_db := struck i RETRY_PENDING why (os_db st)\<rparr>)"
  using struck_results[OF assms(1), where st = st] assms by (simp add: record_failure_def)

lemma record_failure_dead:
  assumes "get_task i (os_db st) = Some r" and "tk_state r \<notin> TERMINAL_STATES" and "tk_retry r \<ge> 2"
  defines "st' \<equiv> st\<lparr>os_db := struck i DEAD_LETTERED DEAD_LETTERED_R (os_db st)\<rparr>"
  shows "record_failure env i st =
    (case emit_alert env i st' of (Inl x, st3) \<Rightarrow> (Inl x, st3) | (Inr _, st3) \<Rightarrow> (Inr DEAD_LETTERED, st3))"
  using struck_results[OF assms(1), where st = st] assms by (simp add: record_failure_def)

lemma record_failure_progress:
  assumes inv: "orch_inv (os_db st)"
  shows "progress i (os_db st) (os_db (snd (record_failure env i st)))"
proof (cases "get_task i (os_db st)")
  case None
  then show ?thesis using inv by (simp add: record_failure_def)
next
  case (Some r)
  consider "tk_state r \<in> TERMINAL_STATES" | "tk_state r \<notin> TERMINAL_STATES" "tk_retry r < 2"
    | "tk_state r \<notin> TERMINAL_STATES" "tk_retry r \<ge> 2" by linarith
  then show ?thesis
  proof cases
    case 1
    then show ?thesis using inv by (simp add: record_failure_terminal[OF Some])
  next
    case 2
    then show ?thesis using struck_facts(2)[OF inv Some] by (simp add: record_failure_retry[OF Some])
  next
    case 3
    then have "os_db (snd (record_failure env i st)) = struck i DEAD_LETTERED DEAD_LETTERED_R (os_db st)"
      by (simp add: record_failure_dead[OF Some 3] split: prod.split sum.split)
         (metis emit_alert_db orch_state.select_convs(1) orch_state.simps(1) orch_state.surjective orch_state.update_convs(1) snd_conv)
    then show ?thesis using struck_facts(2)[OF inv Some] 3 by simp
  qed
qed

lemma emit_alert_result:
  "(case emit_alert env i st' of (Inl x, st3) \<Rightarrow> (Inl x, st3) | (Inr _, st3) \<Rightarrow> (Inr DEAD_LETTERED, st3)) =
   (map_sum id (\<lambda>_. DEAD_LETTERED) (fst (emit_alert env i st')), snd (emit_alert env i st'))"
  by (cases "emit_alert env i st'") (auto split: sum.split)

lemma cascade_eq:
  assumes "get_task i (os_db st) = Some r" and "tk_state r \<noteq> DEAD_LETTERED"
  defines "st' \<equiv> st\<lparr>os_db := snd (transition i DEAD_LETTERED DEPENDENCY_DEAD_LETTERED_R (os_db st))\<rparr>"
  shows "cascade_dead_letter env i b st =
    (map_sum id (\<lambda>_. DEAD_LETTERED) (fst (emit_alert env i st')), snd (emit_alert env i st'))"
  using assms emit_alert_result[of env i st'] transition_fst[OF assms(1)]
  by (simp add: cascade_dead_letter_def on_db_eq)

lemma cascade_progress:
  assumes inv: "orch_inv (os_db st)" and r: "get_task i (os_db st) = Some r" "tk_state r \<notin> TERMINAL_STATES"
    and st': "st' = snd (cascade_dead_letter env i b st)"
  shows "progress i (os_db st) (os_db st')"
    and "get_task j (os_db st') = (if j = i then Some (r\<lparr>tk_state := DEAD_LETTERED\<rparr>) else get_task j (os_db st))"
proof -
  let ?d = "snd (transition i DEAD_LETTERED DEPENDENCY_DEAD_LETTERED_R (os_db st))"
  have "tk_state r \<noteq> DEAD_LETTERED" using r(2) by auto
  then have eq: "os_db st' = ?d" by (simp add: st' cascade_eq[OF r(1)])
  have g: "get_task j ?d = (if j = i then Some (r\<lparr>tk_state := DEAD_LETTERED\<rparr>) else get_task j (os_db st))" for j
    by (rule transition_get[OF r(1)])
  show "get_task j (os_db st') = (if j = i then Some (r\<lparr>tk_state := DEAD_LETTERED\<rparr>) else get_task j (os_db st))"
    by (simp add: eq g)
  have "store_inv ?d \<and> evolves (os_db st) ?d"
    using inv r by (intro transition_ok) (auto simp: orch_inv_def)
  moreover have "retry_inv ?d" using inv by (auto simp: retry_inv_def g orch_inv_def)
  moreover have "ready_inv (os_db st) \<Longrightarrow> ready_inv ?d" by (intro ready_row_change[OF g]) auto
  ultimately show "progress i (os_db st) (os_db st')"
    using r(1) by (auto simp: progress_def orch_inv_def eq g task_state_def)
qed

section \<open>The retry loop\<close>

definition good_table :: "orch_env \<Rightarrow> bool" where
  "good_table env \<longleftrightarrow> (\<forall>ty h. oe_table env ty = Some h \<longrightarrow> task_handler h)"

lemma run_handler:
  assumes "good_table env"
  obtains h where "task_handler h" and "retry_run env e = h (te_task e) e"
proof (cases "oe_table env (te_type e)")
  case None
  then show thesis using that[OF pass_through.task_handler_axioms] by (simp add: retry_run_def)
next
  case (Some h)
  then show thesis using that[of h] assms by (simp add: good_table_def retry_run_def)
qed

lemma run_row:
  assumes "good_table env" and "store_inv db" and "task_open (te_task e) db" and "get_task (te_task e) db = Some r"
  obtains r' where "get_task (te_task e) (snd (retry_run env e db)) = Some r'" and "tk_retry r' = tk_retry r"
    and "tk_state r' \<in> {tk_state r, RUNNING, COMPLETED, FAILED}"
    and "fst (retry_run env e db) = Inr () \<Longrightarrow> tk_state r' \<in> {COMPLETED, FAILED}"
    and "tk_depends r' = tk_depends r"
proof -
  from run_handler[OF assms(1), of e] obtain h where h: "task_handler h" "retry_run env e = h (te_task e) e" .
  show thesis using that task_handler.returns_or_stays[OF h(1) assms(2,4,3), of e] unfolding h(2) by metis
qed

lemma run_progress:
  assumes "good_table env" and "orch_inv db" and "task_open (te_task e) db"
  shows "progress (te_task e) db (snd (retry_run env e db))"
proof -
  from run_handler[OF assms(1), of e] obtain h where h: "task_handler h" "retry_run env e = h (te_task e) e" .
  show ?thesis
    using effect_progress task_handler.effect[OF h(1)] assms(2,3) unfolding h(2) orch_inv_def by blast
qed

lemma open_kept:
  assumes "progress k db db'" and "task_open i db" and "get_task i db' = Some r'" and "tk_state r' \<notin> TERMINAL_STATES"
  shows "task_open i db'"
proof -
  from assms(2) obtain r where r: "get_task i db = Some r" "deps_done (tk_depends r) db" "distinct (tk_depends r)"
    by (auto simp: task_open_def)
  with progress_task[OF assms(1) r(1)] assms(3) have "tk_depends r' = tk_depends r" by (auto simp: task_evolves_def)
  with r assms show ?thesis using evolves_deps by (auto simp: task_open_def progress_def)
qed

text \<open>The loop returns after at most two more attempts: each raise adds a strike, and
the third one ends in a terminal state.\<close>

lemma retry_loop_settles:
  assumes good: "good_table env" and inv: "orch_inv (os_db st)"
    and r: "get_task (te_task e) (os_db st) = Some r"
    and st: "outcome = RETRY_PENDING \<and> task_open (te_task e) (os_db st) \<or>
             outcome \<in> TERMINAL_STATES \<and> outcome = tk_state r"
  shows "\<exists>res st'. retry_loop env e outcome st = Some (res, st') \<and> progress (te_task e) (os_db st) (os_db st') \<and>
           (\<exists>s\<in>TERMINAL_STATES. task_state (te_task e) (os_db st') = Some s)"
  using inv r st
proof (induction "3 - tk_retry r" arbitrary: st r outcome rule: less_induct)
  case less
  let ?i = "te_task e" and ?run = "retry_run env e (os_db st)"
  show ?case
  proof (cases "outcome = RETRY_PENDING")
    case False
    then have "retry_loop env e outcome st = Some (Inr (), st)" by (simp add: retry_loop.simps)
    moreover have "task_state ?i (os_db st) = Some (tk_state r)" using less.prems(2) by (simp add: task_state_def)
    ultimately show ?thesis using less.prems(1,3) False by auto
  next
    case True
    then have op: "task_open (te_task e) (os_db st)" using less.prems(3) by auto
    have sinv: "store_inv (os_db st)" using less.prems(1) by (simp add: orch_inv_def)
    note prog = run_progress[OF good less.prems(1) op]
    from run_row[OF good sinv op less.prems(2)] obtain r1 where
      r1: "get_task ?i (snd ?run) = Some r1" "tk_retry r1 = tk_retry r"
        "fst ?run = Inr () \<Longrightarrow> tk_state r1 \<in> {COMPLETED, FAILED}" by metis
    let ?st1 = "st\<lparr>os_db := snd ?run\<rparr>"
    have run: "on_db (retry_run env e) st = (fst ?run, ?st1)" by (simp add: on_db_eq)
    have inv1: "orch_inv (snd ?run)" using prog by (simp add: progress_def)
    show ?thesis
    proof (cases "fst ?run")
      case (Inr u)
      then have "retry_loop env e outcome st = Some (Inr (), ?st1)"
        unfolding retry_loop.simps[of env e outcome st] using True run Inr by simp
      moreover have "tk_state r1 \<in> TERMINAL_STATES" using r1(3) Inr by auto
      ultimately show ?thesis using prog r1(1) by (auto simp: task_state_def)
    next
      case (Inl x)
      have step: "retry_loop env e outcome st = (case record_failure env ?i ?st1 of
          (Inl x, st2) \<Rightarrow> Some (Inl x, st2) | (Inr outcome', st2) \<Rightarrow> retry_loop env e outcome' st2)"
        unfolding retry_loop.simps[of env e outcome st] using True run Inl by simp
      have g1: "get_task ?i (os_db ?st1) = Some r1" using r1(1) by simp
      have le: "tk_retry r1 \<le> 2" if "tk_state r1 \<notin> TERMINAL_STATES"
        using inv1 r1(1) that by (auto simp: orch_inv_def retry_inv_def)
      consider (over) "tk_state r1 \<in> TERMINAL_STATES"
        | (again) "tk_state r1 \<notin> TERMINAL_STATES" "tk_retry r1 < 2"
        | (dead) "tk_state r1 \<notin> TERMINAL_STATES" "tk_retry r1 \<ge> 2" by linarith
      then show ?thesis
      proof cases
        case over
        then have "retry_loop env e outcome st = Some (Inr (), ?st1)"
          unfolding step record_failure_terminal[OF g1 over] by (auto simp: retry_loop.simps)
        then show ?thesis using prog r1(1) over by (auto simp: task_state_def)
      next
        case again
        let ?why = "if tk_retry r1 = 0 then FAILED_ATTEMPT_1_R else FAILED_ATTEMPT_2_R"
        let ?st2 = "?st1\<lparr>os_db := struck ?i RETRY_PENDING ?why (snd ?run)\<rparr>"
        let ?r2 = "r1\<lparr>tk_retry := tk_retry r1 + 1, tk_state := RETRY_PENDING\<rparr>"
        have p2: "progress ?i (snd ?run) (os_db ?st2)" using struck_facts(2)[OF inv1 r1(1) again(1)] again(2) by simp
        have g2: "get_task ?i (os_db ?st2) = Some ?r2"
          using struck_facts(1)[OF inv1 r1(1) again(1)] again(2) by simp
        have pp: "progress ?i (os_db st) (os_db ?st2)" using prog p2 by (rule progress_trans)
        have op2: "task_open ?i (os_db ?st2)" by (rule open_kept[OF pp op g2]) simp
        have inv2: "orch_inv (os_db ?st2)" using p2 by (simp add: progress_def)
        have "3 - tk_retry ?r2 < 3 - tk_retry r" using again(2) r1(2) by simp
        from less.hyps[OF this inv2 g2, of RETRY_PENDING] op2
        obtain res st' where l: "retry_loop env e RETRY_PENDING ?st2 = Some (res, st')" "progress ?i (os_db ?st2) (os_db st')"
          "\<exists>s\<in>TERMINAL_STATES. task_state ?i (os_db st') = Some s" by auto
        have "retry_loop env e outcome st = Some (res, st')"
          using l(1) unfolding step record_failure_retry[OF g1 again] by simp
        then show ?thesis using progress_trans[OF pp l(2)] l(3) by blast
      next
        case dead
        let ?st2 = "?st1\<lparr>os_db := struck ?i DEAD_LETTERED DEAD_LETTERED_R (snd ?run)\<rparr>"
        let ?alert = "emit_alert env ?i ?st2"
        have p2: "progress ?i (snd ?run) (os_db ?st2)" using struck_facts(2)[OF inv1 r1(1) dead(1)] by simp
        have g2: "task_state ?i (os_db ?st2) = Some DEAD_LETTERED"
          using struck_facts(1)[OF inv1 r1(1) dead(1)] by (simp add: task_state_def)
        have rf: "record_failure env ?i ?st1 = (map_sum id (\<lambda>_. DEAD_LETTERED) (fst ?alert), snd ?alert)"
          unfolding record_failure_dead[OF g1 dead] emit_alert_result by simp
        have "\<exists>res. retry_loop env e outcome st = Some (res, snd ?alert)"
          unfolding step rf by (cases "fst ?alert") (auto simp: retry_loop.simps)
        moreover have "os_db (snd ?alert) = os_db ?st2" by simp
        ultimately show ?thesis using progress_trans[OF prog] p2 g2 by (metis terminal_iff(7))
      qed
    qed
  qed
qed

end
