(* ===== verification/Task_System.thy ===== *)
theory Task_System
  imports Task_Failure
begin

text \<open>The orchestrator as a step relation: heartbeats, task messages in any order and
any number of copies, redeliveries, a worker that dies right after it started a task,
and whatever the broker does to its queues. One message is handled at a time.\<close>

section \<open>Inserting a batch\<close>

definition batch_inv :: "orch_db \<Rightarrow> bool" where
  "batch_inv db \<longleftrightarrow> distinct (map tk_id (od_tasks db)) \<and> trail_inv db \<and>
     (\<forall>t\<in>set (od_transitions db). tr_at t \<le> od_clock db) \<and>
     sorted_wrt (\<lambda>a b. tr_at a \<le> tr_at b \<and> (tr_task a = tr_task b \<longrightarrow> tr_at a < tr_at b)) (od_transitions db) \<and>
     (\<forall>i r. get_task i db = Some r \<longrightarrow> row_ok db r) \<and> retry_inv db"

lemma insert_task_get:
  "get_task j (insert_task db t) =
   (if get_task (nt_id t) db = None \<and> j = nt_id t
    then Some \<lparr>tk_id = nt_id t, tk_loop = nt_loop t, tk_type = nt_type t,
           tk_state = (if nt_depends t = [] then DISPATCHABLE else PENDING), tk_retry = 0,
           tk_vault_failed = 0, tk_depends = nt_depends t, tk_result = None, tk_created = od_clock db\<rparr>
    else get_task j db)"
proof -
  have find_app: "List.find P (xs @ ys) = (case List.find P xs of None \<Rightarrow> List.find P ys | Some x \<Rightarrow> Some x)"
    for P :: "task_row \<Rightarrow> bool" and xs ys by (induction xs) auto
  show ?thesis
    by (cases "get_task (nt_id t) db") (auto simp: insert_task_def get_task_def find_app Let_def split: option.splits)
qed

lemma no_trail: "trail_inv db \<Longrightarrow> get_task i db = None \<Longrightarrow> trail i db = []"
proof -
  assume "trail_inv db" and "get_task i db = None"
  then have f: "follows None (trail i db) None" by (auto simp: trail_inv_def task_state_def dest: spec[of _ i])
  show "trail i db = []" by (rule rev_exhaust[of "trail i db"]) (use f in \<open>auto simp: follows_snoc\<close>)
qed

lemma insert_task_ok:
  assumes inv: "batch_inv db"
  shows "batch_inv (insert_task db t) \<and> evolves db (insert_task db t) \<and> od_clock (insert_task db t) = od_clock db"
proof (cases "get_task (nt_id t) db")
  case (Some r)
  then show ?thesis using inv by (simp add: insert_task_def)
next
  case None
  let ?d = "insert_task db t"
  have fresh: "nt_id t \<notin> tk_id ` set (od_tasks db)"
    using None by (auto simp: get_task_def find_None_iff)
  have clock: "od_clock ?d = od_clock db" using None by (simp add: insert_task_def Let_def)
  have old: "get_task j db = Some r \<Longrightarrow> get_task j ?d = Some r" for j r
    using None by (auto simp: insert_task_get)
  have ev: "evolves db ?d"
    unfolding evolves_def using old None by (auto simp: clock insert_task_def Let_def)
  have no: "trail (nt_id t) db = []" using inv None by (intro no_trail) (simp_all add: batch_inv_def)
  then have fr: "\<forall>u\<in>set (od_transitions db). tr_task u \<noteq> nt_id t"
    by (auto simp: trail_def filter_empty_conv)
  have "follows None (trail j ?d) (task_state j ?d)" for j
  proof (cases "j = nt_id t")
    case True
    have "task_state (nt_id t) ?d = Some (if nt_depends t = [] then DISPATCHABLE else PENDING)"
      using None by (simp add: task_state_def insert_task_get)
    moreover have "trail (nt_id t) ?d = [\<lparr>tr_task = nt_id t, tr_from = None,
        tr_to = (if nt_depends t = [] then DISPATCHABLE else PENDING), tr_reason = CREATED_R, tr_at = od_clock db\<rparr>]"
      using no None by (simp add: insert_task_def trail_def Let_def)
    ultimately show ?thesis using True by simp
  next
    case False
    have "trail j ?d = trail j db" using False None by (auto simp: insert_task_def trail_def Let_def)
    moreover have "task_state j ?d = task_state j db" using False by (simp add: task_state_def insert_task_get)
    ultimately show ?thesis using inv by (simp add: batch_inv_def trail_inv_def)
  qed
  moreover have "row_ok ?d r" if "get_task j ?d = Some r" for j r
  proof (cases "get_task j db = Some r")
    case True
    then have "row_ok db r" using inv by (simp add: batch_inv_def)
    then show ?thesis using evolves_deps[OF ev] by (auto simp: row_ok_def)
  next
    case False
    then show ?thesis using that by (auto simp: insert_task_get row_ok_def deps_done_def split: if_splits)
  qed
  moreover have "retry_inv ?d" using inv by (auto simp: retry_inv_def insert_task_get batch_inv_def)
  moreover have "distinct (map tk_id (od_tasks ?d))"
    using inv fresh None by (simp add: insert_task_def Let_def batch_inv_def)
  moreover have "(\<forall>u\<in>set (od_transitions ?d). tr_at u \<le> od_clock ?d) \<and>
     sorted_wrt (\<lambda>a b. tr_at a \<le> tr_at b \<and> (tr_task a = tr_task b \<longrightarrow> tr_at a < tr_at b)) (od_transitions ?d)"
    using inv fr None by (auto simp: insert_task_def Let_def batch_inv_def sorted_wrt_append)
  ultimately show ?thesis using ev clock by (simp add: batch_inv_def trail_inv_def)
qed

lemma insert_tasks_ok:
  "batch_inv db \<Longrightarrow> batch_inv (foldl insert_task db ts) \<and> evolves db (foldl insert_task db ts)"
proof (induction ts arbitrary: db)
  case (Cons t ts)
  then show ?case using insert_task_ok[OF Cons.prems, of t] evolves_trans by fastforce
qed simp

lemma insert_batch_ok:
  assumes "orch_inv db"
  shows "orch_inv (insert_task_batch ts db)" and "evolves db (insert_task_batch ts db)"
proof -
  have "batch_inv db" using assms by (auto simp: orch_inv_def store_inv_def clock_inv_def batch_inv_def)
  from insert_tasks_ok[OF this, of ts]
  have b: "batch_inv (foldl insert_task db ts)" "evolves db (foldl insert_task db ts)" by auto
  let ?d = "foldl insert_task db ts"
  have same: "get_task j (tick ?d) = get_task j ?d" for j by simp
  have ts: "task_state j (tick ?d) = task_state j ?d" for j by (simp add: task_state_def)
  show "orch_inv (insert_task_batch ts db)"
    using b(1) unfolding insert_task_batch_def orch_inv_def store_inv_def
    by (auto simp: batch_inv_def clock_inv_def trail_inv_def retry_inv_def row_ok_def deps_done_def ts)
       (auto simp: tick_def trail_def)
  show "evolves db (insert_task_batch ts db)"
    using b(2) unfolding insert_task_batch_def evolves_def by (auto simp: tick_def get_task_def)
qed

section \<open>One message\<close>

lemma requeue_db [simp]: "os_db (snd (publish_task env e st)) = os_db st"
  by (simp add: publish_task_def)

lemma give_up_progress:
  "orch_inv (os_db st) \<Longrightarrow> progress (te_task e) (os_db st) (os_db (snd (give_up_or_requeue env e st)))"
  using record_failure_progress[where st=st and env=env and i="te_task e"]
  by (auto simp: give_up_or_requeue_def case_prod_beta)

lemma dispatchable_open:
  assumes "store_inv db" and "task_state i db = Some DISPATCHABLE"
  shows "task_open i db"
proof -
  from assms(2) obtain r where r: "get_task i db = Some r" "tk_state r = DISPATCHABLE" by (auto simp: task_state_Some)
  with store_inv_row[OF assms(1) r(1)] show ?thesis by (auto simp: task_open_def row_ok_def)
qed

definition started :: "orch_env \<Rightarrow> task_envelope \<Rightarrow> orch_db \<Rightarrow> orch_db" where
  "started env e db = (if oe_table env (te_type e) = None then db
     else snd (transition (te_task e) RUNNING DISPATCHED_R db))"

lemma started_ok:
  assumes "orch_inv db" and "task_open (te_task e) db"
  shows "progress (te_task e) db (started env e db)" and "task_open (te_task e) (started env e db)"
  using assms effect_progress[OF transition_effect[of db "te_task e" RUNNING]]
    open_after_start(1)[of db "te_task e"]
  by (auto simp: started_def orch_inv_def)

lemma dispatch_is_run:
  assumes "store_inv db" and "task_state (te_task e) db = Some DISPATCHABLE"
  shows "dispatch_task env e db = retry_run env e (started env e db)"
proof -
  from assms(2) obtain r where r: "get_task (te_task e) db = Some r" "tk_state r = DISPATCHABLE"
    by (auto simp: task_state_Some)
  then have "dispatch_refusal (te_task e) db = None" by (simp add: dispatch_refusal_def)
  then show ?thesis
    by (cases "oe_table env (te_type e)")
       (simp_all add: dispatch_task_def retry_run_def started_def and_then_eq transition_fst[OF r(1)])
qed

text \<open>For a dispatchable task the handling of its message is the retry loop, entered with
the started task.\<close>

lemma handle_dispatchable:
  assumes good: "good_table env" and inv: "orch_inv (os_db st)"
    and d: "task_state (te_task e) (os_db st) = Some DISPATCHABLE"
  shows "handle_task_message env e st = retry_loop env e RETRY_PENDING (st\<lparr>os_db := started env e (os_db st)\<rparr>)"
proof -
  let ?db0 = "started env e (os_db st)"
  let ?run = "retry_run env e ?db0"
  have sinv: "store_inv (os_db st)" using inv by (simp add: orch_inv_def)
  note so = started_ok[OF inv dispatchable_open[OF sinv d], of env]
  have s0: "store_inv ?db0" using so(1) by (simp add: progress_def orch_inv_def)
  from run_handler[OF good, of e] obtain h where h: "task_handler h" "retry_run env e = h (te_task e) e" .
  have own: "\<not> gate_error x" if "fst ?run = Inl x" for x
    using task_handler.raises[OF h(1) s0 so(2)] that by (simp add: h(2))
  have eq: "on_db (dispatch_task env e) st = (fst ?run, st\<lparr>os_db := snd ?run\<rparr>)"
    by (simp add: on_db_eq dispatch_is_run[OF sinv d])
  have loop: "retry_loop env e RETRY_PENDING (st\<lparr>os_db := ?db0\<rparr>) =
      (case (fst ?run, st\<lparr>os_db := snd ?run\<rparr>) of
         (Inr _, st1) \<Rightarrow> Some (Inr (), st1)
       | (Inl _, st1) \<Rightarrow> retry_or_dead_letter env e st1)"
    unfolding retry_loop.simps[of env e RETRY_PENDING] retry_or_dead_letter_def by (simp add: on_db_eq)
  show ?thesis
  proof (cases "fst ?run")
    case (Inl x)
    then show ?thesis using own[OF Inl] unfolding handle_task_message_def eq loop
      by (cases x) simp_all
  qed (simp add: handle_task_message_def eq loop)
qed

lemma message_settles:
  assumes good: "good_table env" and inv: "orch_inv (os_db st)"
    and d: "task_state (te_task e) (os_db st) = Some DISPATCHABLE"
  shows "\<exists>res st'. handle_task_message env e st = Some (res, st') \<and> progress (te_task e) (os_db st) (os_db st') \<and>
           (\<exists>s\<in>TERMINAL_STATES. task_state (te_task e) (os_db st') = Some s)"
proof -
  have sinv: "store_inv (os_db st)" using inv by (simp add: orch_inv_def)
  note so = started_ok[OF inv dispatchable_open[OF sinv d], of env]
  let ?st0 = "st\<lparr>os_db := started env e (os_db st)\<rparr>"
  from so(2) obtain r where r: "get_task (te_task e) (os_db ?st0) = Some r" by (auto simp: task_open_def)
  have "orch_inv (os_db ?st0)" using so(1) by (simp add: progress_def)
  from retry_loop_settles[OF good this r, of RETRY_PENDING] so(2)
  obtain res st' where "retry_loop env e RETRY_PENDING ?st0 = Some (res, st')"
    "progress (te_task e) (os_db ?st0) (os_db st')" "\<exists>s\<in>TERMINAL_STATES. task_state (te_task e) (os_db st') = Some s" by auto
  then show ?thesis using handle_dispatchable[OF good inv d] progress_trans[OF so(1)] by auto
qed

text \<open>A message for a task that is not dispatchable.\<close>

lemma message_refused:
  assumes "dispatch_refusal (te_task e) (os_db st) = Some x"
  shows "handle_task_message env e st =
    (case x of
       DependencyDeadLetteredError b _ \<Rightarrow>
         (case cascade_dead_letter env (te_task e) b st of (r, st2) \<Rightarrow> Some (map_sum id (\<lambda>_. ()) r, st2))
     | TaskAlreadyTerminalError _ \<Rightarrow> Some (Inr (), st)
     | _ \<Rightarrow> Some (give_up_or_requeue env e st))"
proof -
  have eq: "on_db (dispatch_task env e) st = (Inl x, st)"
    by (simp add: on_db_eq dispatch_task_def assms)
  have "x = TaskNotReadyError \<or> (\<exists>s. x = TaskAlreadyTerminalError s) \<or> (\<exists>b t. x = DependencyDeadLetteredError b t)"
    using assms by (auto simp: dispatch_refusal_def split: option.splits if_splits)
  then show ?thesis by (auto simp: handle_task_message_def eq)
qed

lemma refusal_cases:
  assumes "dispatch_refusal i db = Some x"
  shows "x = TaskNotReadyError \<or> (\<exists>s. x = TaskAlreadyTerminalError s) \<or>
    (\<exists>b t r. x = DependencyDeadLetteredError b t \<and> get_task i db = Some r \<and> tk_state r \<notin> TERMINAL_STATES)"
  using assms by (auto simp: dispatch_refusal_def split: option.splits if_splits)

lemma no_refusal: "dispatch_refusal i db = None \<longleftrightarrow> task_state i db = Some DISPATCHABLE"
  by (auto simp: dispatch_refusal_def task_state_def split: option.splits if_splits)

lemma message_progress:
  assumes good: "good_table env" and inv: "orch_inv (os_db st)"
  shows "\<exists>res st'. handle_task_message env e st = Some (res, st') \<and> progress (te_task e) (os_db st) (os_db st')"
proof (cases "dispatch_refusal (te_task e) (os_db st)")
  case None
  then show ?thesis using message_settles[OF good inv] no_refusal by metis
next
  case (Some x)
  from refusal_cases[OF Some] consider "x = TaskNotReadyError" | s where "x = TaskAlreadyTerminalError s"
    | b t r where "x = DependencyDeadLetteredError b t" "get_task (te_task e) (os_db st) = Some r"
        "tk_state r \<notin> TERMINAL_STATES" by blast
  then show ?thesis
  proof cases
    case 1
    then show ?thesis using message_refused[OF Some, of env] give_up_progress[OF inv, where env=env and e=e]
      by (cases "give_up_or_requeue env e st") auto
  next
    case 2
    then show ?thesis using message_refused[OF Some, of env] inv by auto
  next
    case 3
    then show ?thesis using message_refused[OF Some, of env] cascade_progress(1)[OF inv 3(2,3) refl, where env=env and b=b]
      by (cases "cascade_dead_letter env (te_task e) b st") auto
  qed
qed

section \<open>The step relation\<close>

inductive orch_step :: "orch_env \<Rightarrow> orch_state \<Rightarrow> orch_state \<Rightarrow> bool" for env where
  heartbeat: "orch_step env st (snd (handle_heartbeat_message env meta loops hb st))"
| message: "handle_task_message env e st = Some (r, st') \<Longrightarrow> orch_step env st st'"
| redelivered: "orch_step env st (snd (reconcile_redelivered_task env i st))"
| crashed: "task_state i (os_db st) = Some DISPATCHABLE \<Longrightarrow>
    orch_step env st (st\<lparr>os_db := snd (transition i RUNNING DISPATCHED_R (os_db st))\<rparr>)"
| broker: "orch_step env st (st\<lparr>os_taskq := q, os_eventq := q'\<rparr>)"

definition start_state :: "orch_state" where
  "start_state = \<lparr>os_db = empty_orch, os_taskq = [], os_eventq = [], os_sends = 0\<rparr>"

abbreviation orch_reachable :: "orch_env \<Rightarrow> orch_state \<Rightarrow> bool" where
  "orch_reachable env st \<equiv> (orch_step env)\<^sup>*\<^sup>* start_state st"

lemma publish_all_db [simp]: "os_db (snd (publish_all env es st)) = os_db st"
proof (induction es arbitrary: st)
  case (Cons e es)
  obtain r st' where p: "publish_task env e st = (r, st')" by fastforce
  then have "os_db st' = os_db st" using requeue_db[of env e st] by simp
  then show ?case using Cons.IH[of st'] by (cases r) (simp_all add: p)
qed simp

lemma heartbeat_db:
  "os_db (snd (handle_heartbeat_message env meta loops hb st)) =
   (case loops (hb_loop hb) of None \<Rightarrow> os_db st
    | Some loop \<Rightarrow> insert_task_batch (decompose loop (hb_event hb)) (os_db st))"
proof (cases "loops (hb_loop hb)")
  case (Some loop)
  let ?st1 = "st\<lparr>os_db := insert_task_batch (decompose loop (hb_event hb)) (os_db st)\<rparr>"
  have "os_db (snd (case p of (Inl x, st2) \<Rightarrow> (Inl x, st2) | (Inr _, st2) \<Rightarrow> (Inr es, st2))) = os_db (snd p)"
    for p :: "(orch_error + unit) \<times> orch_state" and es :: "task_envelope list"
    by (cases p) (auto split: sum.split)
  then show ?thesis using Some by (simp add: handle_heartbeat_message_def Let_def)
qed (simp add: handle_heartbeat_message_def)

lemma step_ok:
  assumes "orch_step env st st'" and "good_table env" and "orch_inv (os_db st)"
  shows "orch_inv (os_db st') \<and> evolves (os_db st) (os_db st')"
  using assms
proof (induction rule: orch_step.induct)
  case (heartbeat st meta loops hb)
  then show ?case using insert_batch_ok[of "os_db st"] by (auto simp: heartbeat_db split: option.splits)
next
  case (message e st r st')
  then show ?case using message_progress[of env st e] by (auto simp: progress_def)
next
  case (redelivered st i)
  then show ?case using record_failure_progress[where st=st and env=env]
    by (cases i) (auto simp: reconcile_redelivered_task_def progress_def case_prod_beta)
next
  case (crashed i st)
  then have "progress i (os_db st) (snd (transition i RUNNING DISPATCHED_R (os_db st)))"
    using dispatchable_open[of "os_db st" i]
    by (intro effect_progress[of i] transition_effect) (auto simp: orch_inv_def)
  then show ?case by (simp add: progress_def)
qed simp

lemma orch_inv_start: "orch_inv (os_db start_state)"
  using store_inv_empty by (simp add: start_state_def orch_inv_def retry_inv_def)
    (simp add: empty_orch_def get_task_def)

lemma steps_ok:
  assumes "(orch_step env)\<^sup>*\<^sup>* st st'" and "good_table env" and "orch_inv (os_db st)"
  shows "orch_inv (os_db st') \<and> evolves (os_db st) (os_db st')"
  using assms(1)
proof (induction rule: rtranclp_induct)
  case (step y z)
  then show ?case using step_ok[OF step.hyps(2) assms(2)] evolves_trans by blast
qed (simp add: assms(3))

lemma reachable_inv: "orch_reachable env st \<Longrightarrow> good_table env \<Longrightarrow> orch_inv (os_db st)"
  using steps_ok orch_inv_start by blast

end
