(* ===== verification/Task_Props.thy ===== *)
theory Task_Props
  imports Task_System
begin

text \<open>Properties of the orchestrator's task machine, from the step relation and the
contract of the handlers.\<close>

section \<open>Auxiliary facts\<close>

lemma trail_sorted: "clock_inv db \<Longrightarrow> sorted_wrt (\<lambda>a b. tr_at a < tr_at b) (trail i db)"
proof -
  have "sorted_wrt (\<lambda>a b. tr_at a \<le> tr_at b \<and> (tr_task a = tr_task b \<longrightarrow> tr_at a < tr_at b)) ts \<Longrightarrow>
      sorted_wrt (\<lambda>a b. tr_at a < tr_at b) (filter (\<lambda>t. tr_task t = i) ts)" for ts
    by (induction ts) auto
  then show "clock_inv db \<Longrightarrow> ?thesis" unfolding clock_inv_def trail_def by blast
qed

lemma sort_key_trail: "clock_inv db \<Longrightarrow> sort_key tr_at (trail i db) = trail i db"
proof -
  assume "clock_inv db"
  from trail_sorted[OF this, of i] have "sorted (map tr_at (trail i db))"
    by (auto simp: sorted_map intro: sorted_wrt_mono_rel[of _ "\<lambda>a b. tr_at a < tr_at b"])
  then show ?thesis by (rule sort_key_id_if_sorted)
qed

lemma trail_transition:
  "get_task i db = Some r \<Longrightarrow> map tr_reason (trail j (snd (transition i s why db))) =
     map tr_reason (trail j db) @ (if j = i then [why] else [])"
  by (simp add: transition_def trail_def tick_def)

lemma trail_increment [simp]: "trail j (snd (increment_retry i db)) = trail j db"
  by (simp add: increment_retry_def trail_def tick_def split: option.split)

lemma trail_struck:
  "get_task i db = Some r \<Longrightarrow> map tr_reason (trail i (struck i s why db)) = map tr_reason (trail i db) @ [why]"
  unfolding struck_def by (subst trail_transition[where r = "r\<lparr>tk_retry := tk_retry r + 1\<rparr>"])
    (simp_all add: increment_retry_get)

section \<open>Stranded tasks\<close>

text \<open>Between two messages a task in retry_pending has nothing that runs it again: no
message of its own makes it dispatchable, and advancing skips it.\<close>

abbreviation stranded :: "tid \<Rightarrow> orch_db \<Rightarrow> bool" where
  "stranded i db \<equiv> task_state i db \<in> {Some RETRY_PENDING, Some DEAD_LETTERED}"

lemma stranded_other: "progress k a b \<Longrightarrow> i \<noteq> k \<Longrightarrow> stranded i a \<Longrightarrow> stranded i b"
  unfolding progress_def by (metis insertE insertI1 insertI2 option.inject singletonD task_state_enum.distinct(9,11))

lemma stranded_failure:
  assumes inv: "orch_inv (os_db st)" and s: "stranded i (os_db st)"
  shows "stranded i (os_db (snd (record_failure env k st)))"
proof (cases "k = i")
  case False
  show ?thesis by (rule stranded_other[OF record_failure_progress[OF inv] not_sym[OF False] s])
next
  case True
  from s obtain q where q: "get_task i (os_db st) = Some q" "tk_state q = RETRY_PENDING \<or> tk_state q = DEAD_LETTERED"
    by (auto simp: task_state_Some)
  show ?thesis
  proof (cases "tk_state q = DEAD_LETTERED")
    case dead: True
    then show ?thesis using q(1) by (simp add: record_failure_terminal task_state_def True)
  next
    case False
    then have nt: "tk_state q \<notin> TERMINAL_STATES" using q(2) by auto
    consider "tk_retry q < 2" | "tk_retry q \<ge> 2" by linarith
    then show ?thesis
      unfolding True using struck_facts(1)[OF inv q(1) nt]
      by cases (simp_all add: record_failure_retry[OF q(1) nt] record_failure_dead[OF q(1) nt]
          emit_alert_result task_state_def)
  qed
qed

lemma insert_batch_keeps: "get_task i db \<noteq> None \<Longrightarrow> get_task i (insert_task_batch ts db) = get_task i db"
proof -
  have "get_task i (foldl insert_task db ts) = get_task i db" if "get_task i db \<noteq> None" for db
    using that
  proof (induction ts arbitrary: db)
    case (Cons t ts)
    have "get_task i (insert_task db t) = get_task i db" using Cons.prems by (auto simp: insert_task_get)
    then show ?case using Cons by simp
  qed simp
  then show "get_task i db \<noteq> None \<Longrightarrow> ?thesis" by (simp add: insert_task_batch_def)
qed

lemma stranded_message:
  assumes good: "good_table env" and inv: "orch_inv (os_db st)" and s: "stranded i (os_db st)"
    and m: "handle_task_message env e st = Some (r, st')"
  shows "stranded i (os_db st')"
proof (cases "te_task e = i")
  case False
  then show ?thesis using m message_progress[OF good inv, of e] stranded_other[OF _ _ s] by (metis option.inject prod.inject)
next
  case True
  have "task_state i (os_db st) \<noteq> Some DISPATCHABLE" using s by auto
  then obtain x where x: "dispatch_refusal (te_task e) (os_db st) = Some x"
    using no_refusal[of i "os_db st"] True by auto
  from refusal_cases[OF x] consider "x = TaskNotReadyError" | s where "x = TaskAlreadyTerminalError s"
    | b t r where "x = DependencyDeadLetteredError b t" "get_task (te_task e) (os_db st) = Some r"
        "tk_state r \<notin> TERMINAL_STATES" by blast
  then show ?thesis
  proof cases
    case 1
    then have "st' = snd (give_up_or_requeue env e st)" using m message_refused[OF x, of env] by auto
    moreover have "stranded i (os_db (snd (give_up_or_requeue env e st)))"
      using stranded_failure[OF inv s, of env "te_task e"] s unfolding give_up_or_requeue_def case_prod_beta
      by (cases "NOT_READY_MAX_REQUEUES \<le> te_retry e") (simp_all only: if_True if_False snd_conv requeue_db)
    ultimately show ?thesis by simp
  next
    case 2
    then show ?thesis using m message_refused[OF x, of env] s by auto
  next
    case 3
    then have "st' = snd (cascade_dead_letter env (te_task e) b st)"
      using m message_refused[OF x, of env] by (auto split: prod.splits)
    then show ?thesis using cascade_progress(2)[OF inv 3(2,3) refl, where j=i and env=env and b=b] True
      by (simp add: task_state_def)
  qed
qed

lemma stranded_step:
  assumes step: "orch_step env st st'" and good: "good_table env" and inv: "orch_inv (os_db st)"
    and s: "stranded i (os_db st)"
  shows "stranded i (os_db st')"
  using step
proof cases
  case (heartbeat meta loops hb)
  have "get_task i (os_db st) \<noteq> None" using s by (auto simp: task_state_def)
  from insert_batch_keeps[OF this] show ?thesis
    using s by (simp add: heartbeat heartbeat_db task_state_def split: option.split)
next
  case (message e r)
  then show ?thesis using stranded_message[OF good inv s] by blast
next
  case (redelivered j)
  then show ?thesis using s stranded_failure[OF inv s, of env]
    by (cases j) (simp_all add: reconcile_redelivered_task_def case_prod_beta)
next
  case (crashed j)
  then obtain q where q: "get_task j (os_db st) = Some q" "tk_state q = DISPATCHABLE" by (auto simp: task_state_Some)
  then have "j \<noteq> i" using s by (auto simp: task_state_def)
  then show ?thesis using s by (simp add: crashed task_state_def transition_get[OF q(1)])
next
  case (broker q q')
  then show ?thesis using s by simp
qed

section \<open>Properties\<close>

text \<open>In every reachable state the history GET /status shows for a task is complete and
in order: it begins with the insertion, each entry starts in the state the previous
one ended in, the last one ends in the task's current state, and the times increase.\<close>

theorem status_history_faithful:
  assumes "good_table env" and "orch_reachable env st" and "s \<in> set (fetch_all_task_status (os_db st))"
  shows "follows None (ts_history s) (Some (ts_state s)) \<and> sorted_wrt (\<lambda>a b. tr_at a < tr_at b) (ts_history s)"
proof -
  have inv: "store_inv (os_db st)" using reachable_inv[OF assms(2,1)] by (simp add: orch_inv_def)
  then have c: "clock_inv (os_db st)" by (simp add: store_inv_def)
  from assms(3) obtain r where r: "r \<in> set (od_tasks (os_db st))" "ts_state s = tk_state r"
      "ts_history s = sort_key tr_at (trail (tk_id r) (os_db st))"
    by (auto simp: fetch_all_task_status_def trail_def)
  have "get_task (tk_id r) (os_db st) = Some r" using inv r(1) by (intro get_task_mem) (simp add: store_inv_def)
  then show ?thesis
    using inv r(2) trail_sorted[OF c] unfolding r(3) sort_key_trail[OF c]
    by (auto simp: store_inv_def trail_inv_def task_state_def dest: spec[of _ "tk_id r"])
qed




lemma failing_round:
  assumes h: "oe_table env (te_type e) = Some (\<lambda>i e db. (Inl x, db))"
  shows "retry_loop env e RETRY_PENDING st =
    (case record_failure env (te_task e) st of
       (Inl y, st2) \<Rightarrow> Some (Inl y, st2) | (Inr o', st2) \<Rightarrow> retry_loop env e o' st2)"
  unfolding retry_loop.simps[of env e RETRY_PENDING] using h by (simp add: on_db_eq retry_run_def)

text \<open>A handler that raises at every attempt gets exactly three of them: the task
ends dead-lettered with retry count 3, its history gains the start, two failed
attempts and the dead letter, one alert is sent, and no message is put back.\<close>

theorem three_strikes_dead_letter:
  assumes good: "good_table env" and reach: "orch_reachable env st"
    and h: "oe_table env (te_type e) = Some (\<lambda>i e db. (Inl x, db))"
    and r: "get_task (te_task e) (os_db st) = Some r" "tk_state r = DISPATCHABLE" "tk_retry r = 0"
    and send: "oe_send_ok env (os_sends st)" "tk_type r \<noteq> []" "tk_loop r \<noteq> []"
  shows "\<exists>st' a. handle_task_message env e st = Some (Inr (), st') \<and>
    task_state (te_task e) (os_db st') = Some DEAD_LETTERED \<and>
    map tr_reason (trail (te_task e) (os_db st')) = map tr_reason (trail (te_task e) (os_db st)) @
      [DISPATCHED_R, FAILED_ATTEMPT_1_R, FAILED_ATTEMPT_2_R, DEAD_LETTERED_R] \<and>
    os_eventq st' = os_eventq st @ [Alert a] \<and> dl_task a = te_task e \<and> dl_failures a = 3 \<and>
    os_taskq st' = os_taskq st"
proof -
  let ?i = "te_task e" and ?db = "os_db st"
  have inv: "orch_inv ?db" using reachable_inv[OF reach good] .
  have d: "task_state ?i ?db = Some DISPATCHABLE" using r by (simp add: task_state_def)
  define d0 where "d0 = snd (transition ?i RUNNING DISPATCHED_R ?db)"
  have st0: "started env e ?db = d0" using h by (simp add: started_def d0_def)
  have so: "orch_inv d0"
    using started_ok(1)[OF inv dispatchable_open[OF _ d], of env] inv by (simp add: st0 progress_def orch_inv_def)
  define r0 where "r0 = r\<lparr>tk_state := RUNNING\<rparr>"
  have g0: "get_task ?i d0 = Some r0" by (simp add: d0_def r0_def transition_get[OF r(1)])
  define d1 where "d1 = struck ?i RETRY_PENDING FAILED_ATTEMPT_1_R d0"
  have s1: "get_task ?i d1 = Some (r0\<lparr>tk_retry := 1, tk_state := RETRY_PENDING\<rparr>)" "orch_inv d1"
    using struck_facts[OF so g0, where s=RETRY_PENDING and why=FAILED_ATTEMPT_1_R] r(3)
    by (simp_all add: r0_def d1_def progress_def)
  define d2 where "d2 = struck ?i RETRY_PENDING FAILED_ATTEMPT_2_R d1"
  have s2: "get_task ?i d2 = Some (r0\<lparr>tk_retry := 2, tk_state := RETRY_PENDING\<rparr>)" "orch_inv d2"
    using struck_facts[OF s1(2,1), where s=RETRY_PENDING and why=FAILED_ATTEMPT_2_R]
    by (simp_all add: d2_def progress_def numeral_2_eq_2)
  define d3 where "d3 = struck ?i DEAD_LETTERED DEAD_LETTERED_R d2"
  have s3: "get_task ?i d3 = Some (r0\<lparr>tk_retry := 3, tk_state := DEAD_LETTERED\<rparr>)"
    using struck_facts(1)[OF s2(2,1), where s=DEAD_LETTERED] by (simp add: d3_def)
  let ?a = "\<lparr>dl_task = ?i, dl_type = tk_type r, dl_loop = tk_loop r, dl_failures = 3, dl_at = od_clock d3\<rparr>"
  let ?st' = "st\<lparr>os_db := d3, os_eventq := os_eventq st @ [Alert ?a], os_sends := os_sends st + 1\<rparr>"
  have id: "tk_id r = ?i" using get_task_id[OF r(1)] by simp
  have alert: "emit_alert env ?i (st\<lparr>os_db := d3\<rparr>) = (Inr (), ?st')"
    using send id by (simp add: emit_alert_def publish_alert_def s3 r0_def)
  have f1: "record_failure env ?i (st\<lparr>os_db := d0\<rparr>) = (Inr RETRY_PENDING, st\<lparr>os_db := d1\<rparr>)"
    using g0 r(3) by (subst record_failure_retry[where r=r0]) (simp_all add: r0_def d1_def)
  have f2: "record_failure env ?i (st\<lparr>os_db := d1\<rparr>) = (Inr RETRY_PENDING, st\<lparr>os_db := d2\<rparr>)"
    using s1(1) by (subst record_failure_retry[where r="r0\<lparr>tk_retry := 1, tk_state := RETRY_PENDING\<rparr>"]) (simp_all add: d2_def)
  have f3: "record_failure env ?i (st\<lparr>os_db := d2\<rparr>) = (Inr DEAD_LETTERED, ?st')"
    using s2(1) alert
    by (subst record_failure_dead[where r="r0\<lparr>tk_retry := 2, tk_state := RETRY_PENDING\<rparr>"]) (simp_all add: d3_def)
  have "handle_task_message env e st = Some (Inr (), ?st')"
    unfolding handle_dispatchable[OF good inv d] st0
    by (simp add: failing_round[OF h] f1 f2 f3 retry_loop.simps[of env e DEAD_LETTERED])
  moreover have "map tr_reason (trail ?i d3) = map tr_reason (trail ?i ?db) @
      [DISPATCHED_R, FAILED_ATTEMPT_1_R, FAILED_ATTEMPT_2_R, DEAD_LETTERED_R]"
    using trail_struck[OF s2(1)] trail_struck[OF s1(1)] trail_struck[OF g0] trail_transition[OF r(1), of ?i]
    by (simp add: d3_def d2_def d1_def d0_def)
  ultimately show ?thesis using s3 by (intro exI[of _ ?st'] exI[of _ ?a]) (simp add: task_state_def)
qed

lemma blocked_task_dead_lettered:
  assumes "good_table env" and "orch_reachable env st"
    and r: "get_task (te_task e) (os_db st) = Some r" "tk_state r \<notin> TERMINAL_STATES" "tk_state r \<noteq> DISPATCHABLE"
    and d: "d \<in> set (tk_depends r)" "task_state d (os_db st) \<in> {Some DEAD_LETTERED, Some FAILED}"
  shows "\<exists>res st'. handle_task_message env e st = Some (res, st') \<and>
    get_task (te_task e) (os_db st') = Some (r\<lparr>tk_state := DEAD_LETTERED\<rparr>) \<and> os_taskq st' = os_taskq st \<and>
    get_dead_letter_reason (te_task e) (os_db st') = Some DEPENDENCY_DEAD_LETTERED_R"
proof -
  let ?i = "te_task e" and ?db = "os_db st"
  have inv: "orch_inv ?db" using reachable_inv[OF assms(2,1)] .
  then have sinv: "store_inv ?db" by (simp add: orch_inv_def)
  from d(2) obtain q where q: "get_task d ?db = Some q" "tk_state q \<in> PERMANENTLY_BLOCKED_STATES"
    by (auto simp: task_state_Some PERMANENTLY_BLOCKED_STATES_def)
  have "q \<in> set (get_tasks (tk_depends r) ?db)" using d(1) get_task_id[OF q(1)] by (auto simp: get_tasks_def)
  then have "find_dead_lettered_dependency r ?db \<noteq> None"
    using q(2) d(1) find_None_iff[of "\<lambda>d. tk_state d \<in> PERMANENTLY_BLOCKED_STATES" "get_tasks (tk_depends r) ?db"]
    unfolding find_dead_lettered_dependency_def by (metis empty_iff list.set(1))
  then obtain b where b: "find_dead_lettered_dependency r ?db = Some b" by auto
  have ref: "dispatch_refusal ?i ?db = Some (DependencyDeadLetteredError (tk_id b) (tk_type b))"
    using r b by (simp add: dispatch_refusal_def)
  let ?c = "cascade_dead_letter env ?i (tk_id b) st"
  let ?d1 = "snd (transition ?i DEAD_LETTERED DEPENDENCY_DEAD_LETTERED_R ?db)"
  have nd: "tk_state r \<noteq> DEAD_LETTERED" using r(2) by auto
  have db: "os_db (snd ?c) = ?d1" by (simp add: cascade_eq[OF r(1) nd])
  have q: "os_taskq (snd ?c) = os_taskq st"
    by (simp add: cascade_eq[OF r(1) nd] emit_alert_def publish_alert_def split: option.split)
  have "handle_task_message env e st = Some (map_sum id (\<lambda>_. ()) (fst ?c), snd ?c)"
    using message_refused[OF ref, of env] by (simp add: case_prod_beta)
  moreover have "get_dead_letter_reason ?i ?d1 = Some DEPENDENCY_DEAD_LETTERED_R"
  proof -
    let ?t = "\<lparr>tr_task = ?i, tr_from = Some (tk_state r), tr_to = DEAD_LETTERED,
        tr_reason = DEPENDENCY_DEAD_LETTERED_R, tr_at = od_clock ?db\<rparr>"
    have app: "first_by later_transition (ts @ [?t]) = Some ?t" if "\<forall>t\<in>set ts. tr_at t < od_clock ?db" for ts
      using that by (induction ts) (auto simp: later_transition_def)
    have "\<forall>t\<in>set (od_transitions ?db). tr_at t < od_clock ?db" using sinv by (simp add: store_inv_def clock_inv_def)
    then show ?thesis
      using app[of "filter (\<lambda>t. tr_task t = ?i \<and> tr_to t = DEAD_LETTERED) (od_transitions ?db)"]
      by (simp add: get_dead_letter_reason_def transition_def r(1) tick_def)
  qed
  ultimately show ?thesis using db q by (auto simp: transition_get[OF r(1)])
qed

text \<open>A task blocked on a dependency that failed or was dead-lettered is dead-lettered
by its first message: no requeue, no strike, and the recorded reason is the
cascade's.\<close>

theorem blocked_task_cascades:
  assumes "good_table env" and "orch_reachable env st"
    and r: "get_task (te_task e) (os_db st) = Some r" "tk_state r \<notin> TERMINAL_STATES" "tk_state r \<noteq> DISPATCHABLE"
    and d: "d \<in> set (tk_depends r)" "task_state d (os_db st) \<in> {Some DEAD_LETTERED, Some FAILED}"
  shows "\<exists>res st'. handle_task_message env e st = Some (res, st') \<and>
    get_task (te_task e) (os_db st') = Some (r\<lparr>tk_state := DEAD_LETTERED\<rparr>) \<and> os_taskq st' = os_taskq st \<and>
    get_dead_letter_reason (te_task e) (os_db st') = Some DEPENDENCY_DEAD_LETTERED_R"
  by (rule blocked_task_dead_lettered[OF assms])


text \<open>Giving up after twenty requeues takes one strike and nothing else: the task is
left in retry_pending, no message for it is put back and no alert is sent.\<close>

theorem giving_up_leaves_task_pending:
  assumes "good_table env" and "orch_reachable env st"
    and ref: "dispatch_refusal (te_task e) (os_db st) = Some TaskNotReadyError" "te_retry e \<ge> NOT_READY_MAX_REQUEUES"
    and r: "get_task (te_task e) (os_db st) = Some r" "tk_retry r < 2"
  shows "\<exists>st'. handle_task_message env e st = Some (Inr (), st') \<and>
    task_state (te_task e) (os_db st') = Some RETRY_PENDING \<and>
    os_taskq st' = os_taskq st \<and> os_eventq st' = os_eventq st"
proof -
  have inv: "orch_inv (os_db st)" using reachable_inv[OF assms(2,1)] .
  have nt: "tk_state r \<notin> TERMINAL_STATES"
    using ref(1) r(1) by (auto simp: dispatch_refusal_def split: option.splits if_splits)
  show ?thesis
    using message_refused[OF ref(1), of env] ref(2) struck_facts(1)[OF inv r(1) nt] r(2)
    by (simp add: give_up_or_requeue_def record_failure_retry[OF r(1) nt r(2)] task_state_def)
qed

text \<open>A task whose depends_on lists an id twice never runs: the count of completed rows
cannot reach the length of the list.\<close>

theorem duplicate_dependency_never_runs:
  assumes "good_table env" and "orch_reachable env st" and "get_task i (os_db st) = Some r"
    and "\<not> distinct (tk_depends r)"
  shows "tk_state r \<notin> {DISPATCHABLE, RUNNING, COMPLETED}"
  using store_inv_row[of "os_db st" i r] reachable_inv[OF assms(2,1)] assms
  by (auto simp: orch_inv_def row_ok_def)

lemma advance_each_sets:
  "i \<in> set is \<Longrightarrow> \<forall>j\<in>set is. get_task j db \<noteq> None \<Longrightarrow> task_state i (snd (advance_each is db)) = Some DISPATCHABLE"
proof (induction "is" arbitrary: db)
  case (Cons k ks)
  from Cons.prems(2) obtain q where q: "get_task k db = Some q" by auto
  let ?d = "snd (transition k DISPATCHABLE DEPENDENCY_SATISFIED_R db)"
  have step: "advance_each (k # ks) db = advance_each ks ?d"
    by (simp add: and_then_eq transition_fst[OF q])
  have known: "\<forall>j\<in>set ks. get_task j ?d \<noteq> None" using Cons.prems(2) by (auto simp: transition_get[OF q])
  show ?case
  proof (cases "i \<in> set ks")
    case True
    then show ?thesis using Cons.IH[OF _ known] step by simp
  next
    case False
    have "get_task i (snd (advance_each ks db')) = get_task i db'" if "\<forall>j\<in>set ks. get_task j db' \<noteq> None" for db'
      using that False
    proof (induction ks arbitrary: db')
      case (Cons m ms)
      from Cons.prems obtain u where u: "get_task m db' = Some u" by auto
      have "advance_each (m # ms) db' = advance_each ms (snd (transition m DISPATCHABLE DEPENDENCY_SATISFIED_R db'))"
        by (simp add: and_then_eq transition_fst[OF u])
      then show ?case using Cons by (simp add: transition_get[OF u])
    qed simp
    then show ?thesis using known False Cons.prems(1) step by (simp add: task_state_def transition_get[OF q])
  qed
qed simp

text \<open>advance_dependents reads its candidates before it writes. When another replica
has completed the task in between, the late write takes it from completed back to
dispatchable, so that a copy of its message runs it a second time.\<close>

theorem racing_advance_reopens_task:
  assumes inv: "store_inv db" and cand: "i \<in> set (advance_candidates a db)" "i \<in> set (advance_candidates b db)"
  defines "db1 \<equiv> snd (legacy_task_pass_through i (snd (advance_dependents a db)))"
  shows "task_state i db1 = Some COMPLETED \<and>
    task_state i (snd (advance_each (advance_candidates b db) db1)) = Some DISPATCHABLE"
proof -
  note adv = advance_dependents_ok[OF inv refl, where i=a]
  let ?d = "snd (advance_dependents a db)"
  have dist: "distinct (map tk_id (od_tasks db))" using inv by (simp add: store_inv_def)
  from cand(1) have "task_state i ?d = Some DISPATCHABLE"
    using advance_candidates_iff[OF dist, of i a] adv(5) by (auto simp: task_state_def)
  then have op: "task_open i ?d" by (rule dispatchable_open[OF adv(2)])
  note o = open_after_start[OF adv(2) op]
  have d1: "db1 = snd (complete_task i (snd (transition i RUNNING DISPATCHED_R ?d)))"
    unfolding db1_def legacy_eq[OF adv(2) op] by simp
  have one: "task_state i db1 = Some COMPLETED" unfolding d1 by (rule complete_task_effect(2)[OF o(2,1)])
  have "evolves ?d db1"
    using complete_task_effect(1)[OF o(2,1)] transition_effect[OF adv(2) op, of RUNNING] evolves_trans
    unfolding d1 handler_effect_def by blast
  then have ev: "evolves db db1" using adv(3) evolves_trans by blast
  have "get_task j db1 \<noteq> None" if j: "j \<in> set (advance_candidates b db)" for j
  proof -
    from j obtain q where "get_task j db = Some q" by (auto simp: advance_candidates_iff[OF dist])
    with ev show ?thesis unfolding evolves_def by (metis option.distinct(1))
  qed
  then show ?thesis using one advance_each_sets[OF cand(2), of db1] by blast
qed

end
