(* ===== verification/Loop_Graph.thy ===== *)
theory Loop_Graph
  imports Task_Worker
begin

text \<open>Loading a loop definition (loop_loader.py): the referential checks after the
schema, and Kahn's algorithm over the depends_on edges. A Python set of ids is a list
without repetitions; the algorithm's result does not depend on its order.\<close>

datatype loop_error =
    DuplicateTaskIds
  | UnknownDependency string string
  | CyclicLoopError "string list"

definition loop_ids :: "loop_definition \<Rightarrow> string list" where
  "loop_ids loop = map lt_id (ld_tasks loop)"

definition unknown_dependency :: "string set \<Rightarrow> loop_task list \<Rightarrow> (string \<times> string) option" where
  "unknown_dependency known ts =
    List.find (\<lambda>(t, d). d \<notin> known) (concat (map (\<lambda>t. map (Pair (lt_id t)) (lt_depends t)) ts))"

text \<open>load_loop on a document that satisfies the schema.\<close>

definition load_loop :: "loop_definition \<Rightarrow> loop_error + loop_definition" where
  "load_loop loop =
    (if length (loop_ids loop) \<noteq> length (remdups (loop_ids loop)) then Inl DuplicateTaskIds
     else (case unknown_dependency (set (loop_ids loop)) (ld_tasks loop) of
             Some (t, d) \<Rightarrow> Inl (UnknownDependency t d)
           | None \<Rightarrow> Inr loop))"

section \<open>Kahn's algorithm\<close>

text \<open>The dict of dependency sets; for a repeated id the last task wins.\<close>

definition deps_of :: "loop_definition \<Rightarrow> string \<Rightarrow> string list" where
  "deps_of loop i =
    (case map_of (rev (map (\<lambda>t. (lt_id t, remdups (lt_depends t))) (ld_tasks loop))) i of
       Some ds \<Rightarrow> ds | None \<Rightarrow> [])"

definition dependents_of :: "string list \<Rightarrow> (string \<Rightarrow> string list) \<Rightarrow> string \<Rightarrow> string list" where
  "dependents_of ids deps n = filter (\<lambda>i. n \<in> set (deps i)) (remdups ids)"

text \<open>One dependent: its count falls by one, and at zero it joins the queue.\<close>

definition relax :: "(string \<Rightarrow> int) \<times> string list \<Rightarrow> string \<Rightarrow> (string \<Rightarrow> int) \<times> string list" where
  "relax s d = (let k = fst s d - 1 in ((fst s)(d := k), if k = 0 then snd s @ [d] else snd s))"

definition positives :: "string list \<Rightarrow> (string \<Rightarrow> int) \<Rightarrow> nat" where
  "positives ids deg = card {i \<in> set ids. 0 < deg i}"

lemma positives_drop:
  assumes "d \<in> set ids"
  shows "positives ids (deg(d := deg d - 1)) + (if deg d - 1 = 0 then 1 else 0) = positives ids deg"
proof (cases "deg d = 1")
  case True
  have "{i \<in> set ids. 0 < (deg(d := deg d - 1)) i} = {i \<in> set ids. 0 < deg i} - {d}" using True by auto
  moreover have "d \<in> {i \<in> set ids. 0 < deg i}" using True assms by simp
  moreover have "finite {i \<in> set ids. 0 < deg i}" by simp
  ultimately show ?thesis using True card_Suc_Diff1[of "{i \<in> set ids. 0 < deg i}" d] by (simp add: positives_def)
next
  case False
  have "{i \<in> set ids. 0 < (deg(d := deg d - 1)) i} = {i \<in> set ids. 0 < deg i}" using False by auto
  then show ?thesis using False by (simp add: positives_def)
qed

lemma relax_measure:
  assumes "set ds \<subseteq> set ids"
  shows "positives ids (fst (foldl relax (deg, q) ds)) + length (snd (foldl relax (deg, q) ds)) = positives ids deg + length q"
  using assms
proof (induction ds arbitrary: deg q)
  case (Cons d ds)
  then show ?case using positives_drop[of d ids deg]
    by (auto simp: relax_def Let_def split: if_splits)
qed simp

text \<open>The queue is a Python list used as a stack: pop takes its last element.\<close>

function kahn :: "string list \<Rightarrow> (string \<Rightarrow> string list) \<Rightarrow> (string \<Rightarrow> int) \<Rightarrow> string list \<Rightarrow> string list \<Rightarrow> string list" where
  "kahn ids deps deg queue visited =
    (if queue = [] then visited
     else let s = foldl relax (deg, butlast queue) (dependents_of ids deps (last queue))
          in kahn ids deps (fst s) (snd s) (last queue # visited))"
  by pat_completeness auto

termination
proof (relation "measure (\<lambda>(ids, deps, deg, queue, visited). positives ids deg + length queue)", goal_cases)
  case (2 ids deps deg queue visited s)
  have "set (dependents_of ids deps (last queue)) \<subseteq> set ids" by (auto simp: dependents_of_def)
  from relax_measure[OF this, of deg "butlast queue"] 2 show ?case by simp
qed simp

declare kahn.simps [simp del]

definition check_acyclic :: "loop_definition \<Rightarrow> loop_error + unit" where
  "check_acyclic loop =
    (let ids = loop_ids loop; deps = deps_of loop;
         deg = (\<lambda>i. int (length (deps i)));
         visited = kahn ids deps deg (filter (\<lambda>i. deg i = 0) ids) [];
         remaining = filter (\<lambda>i. i \<notin> set visited) ids
     in if remaining \<noteq> [] then Inl (CyclicLoopError remaining) else Inr ())"

definition validate_loop_file :: "loop_definition \<Rightarrow> loop_error + loop_definition" where
  "validate_loop_file loop =
    (case load_loop loop of
       Inl e \<Rightarrow> Inl e
     | Inr l \<Rightarrow> (case check_acyclic l of Inl e \<Rightarrow> Inl e | Inr _ \<Rightarrow> Inr l))"

section \<open>Correctness\<close>

text \<open>The reference notion: no id reaches itself along depends_on.\<close>

definition loop_edges :: "loop_definition \<Rightarrow> (string \<times> string) set" where
  "loop_edges loop = {(d, lt_id t) | d t. t \<in> set (ld_tasks loop) \<and> d \<in> set (lt_depends t)}"

fun topo :: "(string \<Rightarrow> string list) \<Rightarrow> string list \<Rightarrow> bool" where
  "topo deps [] \<longleftrightarrow> True"
| "topo deps (x # xs) \<longleftrightarrow> set (deps x) \<subseteq> set xs \<and> topo deps xs"

lemma relax_fold:
  "distinct ds \<Longrightarrow> foldl relax (deg, q) ds =
     ((\<lambda>i. if i \<in> set ds then deg i - 1 else deg i), q @ filter (\<lambda>d. deg d = 1) ds)"
proof (induction ds arbitrary: deg q)
  case (Cons d ds)
  have "filter (\<lambda>i. (deg(d := deg d - 1)) i = 1) ds = filter (\<lambda>i. deg i = 1) ds"
    using Cons.prems by (intro filter_cong) auto
  with Cons show ?case by (auto simp: relax_def Let_def fun_eq_iff)
qed simp

definition kahn_inv :: "string list \<Rightarrow> (string \<Rightarrow> string list) \<Rightarrow> (string \<Rightarrow> int) \<Rightarrow> string list \<Rightarrow> string list \<Rightarrow> bool" where
  "kahn_inv ids deps deg queue visited \<longleftrightarrow>
     distinct (visited @ queue) \<and> set (visited @ queue) \<subseteq> set ids \<and>
     (\<forall>i\<in>set ids. deg i = int (card (set (deps i) - set visited)) \<and>
        (deg i = 0 \<longleftrightarrow> i \<in> set (visited @ queue))) \<and>
     topo deps visited"

lemma kahn_inv_step:
  assumes deps: "\<forall>i\<in>set ids. distinct (deps i)" and inv: "kahn_inv ids deps deg queue visited" and q: "queue \<noteq> []"
  defines "s \<equiv> foldl relax (deg, butlast queue) (dependents_of ids deps (last queue))"
  shows "kahn_inv ids deps (fst s) (snd s) (last queue # visited)"
proof -
  let ?n = "last queue" and ?ds = "dependents_of ids deps (last queue)"
  have split: "queue = butlast queue @ [?n]" using q by simp
  then have setq: "set queue = insert ?n (set (butlast queue))"
    by (metis Un_insert_right set_append list.simps(15) sup_bot.right_neutral empty_set)
  have dist: "distinct (visited @ queue)" using inv by (simp add: kahn_inv_def)
  have "?n \<in> set queue" using q by simp
  then have nb: "?n \<notin> set (butlast queue)" "distinct (butlast queue)" "?n \<notin> set visited"
    using dist q by (auto simp: distinct_butlast) (metis append_butlast_last_id disjoint_insert(1) distinct_append list.simps(15))
  have nids: "?n \<in> set ids" using inv q by (auto simp: kahn_inv_def)
  have ds: "distinct ?ds" "i \<in> set ?ds \<longleftrightarrow> i \<in> set ids \<and> ?n \<in> set (deps i)" for i
    by (auto simp: dependents_of_def)
  have s: "s = ((\<lambda>i. if i \<in> set ?ds then deg i - 1 else deg i), butlast queue @ filter (\<lambda>d. deg d = 1) ?ds)"
    unfolding s_def by (rule relax_fold[OF ds(1)])
  have deg: "deg i = int (card (set (deps i) - set visited))" "deg i = 0 \<longleftrightarrow> i \<in> set (visited @ queue)"
    if "i \<in> set ids" for i using inv that unfolding kahn_inv_def by blast+
  have new: "fst s i = int (card (set (deps i) - set (?n # visited)))" if i: "i \<in> set ids" for i
  proof (cases "?n \<in> set (deps i)")
    case True
    let ?S = "set (deps i) - set visited"
    have mem: "?n \<in> ?S" using True nb(3) by simp
    have "set (deps i) - set (?n # visited) = ?S - {?n}" by auto
    then have "card (set (deps i) - set (?n # visited)) = card ?S - 1" using mem by simp
    moreover have "card ?S > 0" using mem by (auto simp: card_gt_0_iff)
    ultimately have "int (card (set (deps i) - set (?n # visited))) = int (card ?S) - 1" by linarith
    then show ?thesis using deg(1)[OF i] True i by (simp add: s ds(2))
  next
    case False
    then have "set (deps i) - set (?n # visited) = set (deps i) - set visited" by auto
    then show ?thesis using deg(1)[OF i] False by (simp add: s ds(2))
  qed
  have pos: "deg i > 0" if "i \<in> set ?ds" for i
  proof -
    have "?n \<in> set (deps i) - set visited" "i \<in> set ids" using that nb(3) by (auto simp: ds(2))
    then show ?thesis using deg(1)[of i] card_gt_0_iff by fastforce
  qed
  have fresh: "i \<notin> set (visited @ queue)" if "i \<in> set ?ds" for i
    using pos[OF that] deg(2)[of i] that by (auto simp: ds(2))
  have zero: "fst s i = 0 \<longleftrightarrow> i \<in> set ((?n # visited) @ snd s)" if i: "i \<in> set ids" for i
  proof (cases "i \<in> set ?ds")
    case True
    have "i \<notin> set (?n # visited) \<and> i \<notin> set (butlast queue)" using fresh[OF True] setq by auto
    then show ?thesis using True by (simp add: s)
  next
    case False
    then show ?thesis using deg(2)[OF i] setq by (auto simp: s)
  qed
  have "set (deps ?n) \<subseteq> set visited"
  proof -
    have "deg ?n = 0" using deg(2)[OF nids] q by simp
    then show ?thesis using deg(1)[OF nids] by simp
  qed
  moreover have "distinct ((?n # visited) @ snd s)"
    using dist nb fresh ds(1) setq by (auto simp: s)
  moreover have "set ((?n # visited) @ snd s) \<subseteq> set ids"
    using inv nids ds(2) setq by (auto simp: s kahn_inv_def)
  ultimately show ?thesis using new zero inv by (simp add: kahn_inv_def)
qed

lemma kahn_result:
  assumes "\<forall>i\<in>set ids. distinct (deps i)" and "kahn_inv ids deps deg queue visited"
  shows "\<exists>deg'. kahn_inv ids deps deg' [] (kahn ids deps deg queue visited)"
  using assms
proof (induction ids deps deg queue visited rule: kahn.induct)
  case (1 ids deps deg queue visited)
  show ?case
  proof (cases "queue = []")
    case True
    then have "kahn ids deps deg queue visited = visited" unfolding kahn.simps[of ids deps deg queue] by simp
    then show ?thesis using 1(3) True by auto
  next
    case False
    from kahn_inv_step[OF 1(2,3) False] 1(1)[OF False refl 1(2)] show ?thesis
      using False by (simp add: kahn.simps[of ids deps deg queue] Let_def)
  qed
qed

lemma topo_acyclic:
  assumes "topo deps xs" and "distinct xs"
  shows "acyclic {(d, t). t \<in> set xs \<and> d \<in> set (deps t)}"
proof -
  define rank where "rank = (\<lambda>x. length (dropWhile (\<lambda>y. y \<noteq> x) xs))"
  have "rank d < rank t" if "t \<in> set xs" "d \<in> set (deps t)" for d t
    using assms that unfolding rank_def
  proof (induction xs)
    case (Cons x xs)
    show ?case
    proof (cases "x = t")
      case True
      then have "d \<in> set xs" "d \<noteq> x" using Cons.prems by auto
      then show ?thesis using True length_dropWhile_le[of "\<lambda>y. y \<noteq> d" xs] by simp
    next
      case False
      then have t: "t \<in> set xs" using Cons.prems(3) by simp
      have "set (deps t) \<subseteq> set xs"
      proof -
        have "topo deps ys \<Longrightarrow> t \<in> set ys \<Longrightarrow> set (deps t) \<subseteq> set ys" for ys by (induction ys) auto
        then show ?thesis using Cons.prems(1) t by auto
      qed
      then have "d \<noteq> x" using Cons.prems(2,4) by auto
      then show ?thesis using Cons False t by auto
    qed
  qed simp
  then have "{(d, t). t \<in> set xs \<and> d \<in> set (deps t)} \<subseteq> measure rank" by auto
  then show ?thesis using wf_acyclic[OF wf_measure] acyclic_subset by blast
qed

lemma deps_of_task:
  "distinct (loop_ids loop) \<Longrightarrow> t \<in> set (ld_tasks loop) \<Longrightarrow> deps_of loop (lt_id t) = remdups (lt_depends t)"
proof -
  assume d: "distinct (loop_ids loop)" and t: "t \<in> set (ld_tasks loop)"
  let ?al = "rev (map (\<lambda>t. (lt_id t, remdups (lt_depends t))) (ld_tasks loop))"
  have "distinct (map fst ?al)" using d by (simp add: comp_def loop_ids_def rev_map[symmetric])
  moreover have "(lt_id t, remdups (lt_depends t)) \<in> set ?al" using t by auto
  ultimately have "map_of ?al (lt_id t) = Some (remdups (lt_depends t))" by (rule map_of_is_SomeI)
  then show ?thesis by (simp add: deps_of_def)
qed

lemma unknown_dependency_None:
  "unknown_dependency known ts = None \<longleftrightarrow> (\<forall>t\<in>set ts. set (lt_depends t) \<subseteq> known)"
  by (auto simp: unknown_dependency_def find_None_iff)

lemma load_loop_ok:
  "load_loop loop = Inr l \<longleftrightarrow> l = loop \<and> distinct (loop_ids loop) \<and>
     (\<forall>t\<in>set (ld_tasks loop). set (lt_depends t) \<subseteq> set (loop_ids loop))"
proof -
  have "length (loop_ids loop) = length (remdups (loop_ids loop)) \<longleftrightarrow> distinct (loop_ids loop)"
    by (metis length_remdups_eq remdups_id_iff_distinct)
  then show ?thesis
    unfolding load_loop_def unknown_dependency_None[symmetric] by (auto split: option.split)
qed

section \<open>Properties\<close>

lemma kahn_start:
  assumes "distinct (loop_ids loop)" and "\<forall>t\<in>set (ld_tasks loop). set (lt_depends t) \<subseteq> set (loop_ids loop)"
  defines "deps \<equiv> deps_of loop"
  defines "deg \<equiv> \<lambda>i. int (length (deps i))"
  shows "\<forall>i\<in>set (loop_ids loop). distinct (deps i) \<and> set (deps i) \<subseteq> set (loop_ids loop)"
    and "kahn_inv (loop_ids loop) deps deg (filter (\<lambda>i. deg i = 0) (loop_ids loop)) []"
    and "loop_edges loop = {(d, t). t \<in> set (loop_ids loop) \<and> d \<in> set (deps t)}"
proof -
  have d: "deps (lt_id t) = remdups (lt_depends t)" if "t \<in> set (ld_tasks loop)" for t
    unfolding deps_def by (rule deps_of_task[OF assms(1) that])
  then show 1: "\<forall>i\<in>set (loop_ids loop). distinct (deps i) \<and> set (deps i) \<subseteq> set (loop_ids loop)"
    using assms(2) by (auto simp: loop_ids_def)
  show "kahn_inv (loop_ids loop) deps deg (filter (\<lambda>i. deg i = 0) (loop_ids loop)) []"
    using assms(1) 1 by (auto simp: kahn_inv_def deg_def distinct_card)
  show "loop_edges loop = {(d, t). t \<in> set (loop_ids loop) \<and> d \<in> set (deps t)}"
    using d by (auto simp: loop_edges_def loop_ids_def)
qed

lemma check_acyclic_iff:
  assumes "load_loop loop = Inr loop"
  shows "check_acyclic loop = Inr () \<longleftrightarrow> acyclic (loop_edges loop)"
proof -
  let ?ids = "loop_ids loop" and ?deps = "deps_of loop"
  let ?deg = "\<lambda>i. int (length (?deps i))"
  have ok: "distinct ?ids" "\<forall>t\<in>set (ld_tasks loop). set (lt_depends t) \<subseteq> set ?ids"
    using assms by (simp_all add: load_loop_ok)
  note start = kahn_start[OF ok]
  define visited where "visited = kahn ?ids ?deps ?deg (filter (\<lambda>i. ?deg i = 0) ?ids) []"
  have "\<forall>i\<in>set ?ids. distinct (?deps i)" using start(1) by blast
  from kahn_result[OF this start(2)] obtain deg' where fin: "kahn_inv ?ids ?deps deg' [] visited"
    by (auto simp: visited_def)
  have vis: "i \<in> set visited \<longleftrightarrow> set (?deps i) \<subseteq> set visited" if "i \<in> set ?ids" for i
  proof -
    have "deg' i = int (card (set (?deps i) - set visited))" "deg' i = 0 \<longleftrightarrow> i \<in> set visited"
      using fin that unfolding kahn_inv_def append_Nil2 by blast+
    then show ?thesis by (metis Diff_eq_empty_iff List.finite_set card_0_eq finite_Diff of_nat_eq_0_iff)
  qed
  have topo: "topo ?deps visited" "distinct visited" "set visited \<subseteq> set ?ids" using fin by (simp_all add: kahn_inv_def)
  have res: "check_acyclic loop = Inr () \<longleftrightarrow> set ?ids \<subseteq> set visited"
    unfolding check_acyclic_def Let_def visited_def[symmetric] by (auto simp: filter_empty_conv)
  show ?thesis
  proof
    assume "check_acyclic loop = Inr ()"
    then have "set visited = set ?ids" using res topo(3) by auto
    then show "acyclic (loop_edges loop)" using topo_acyclic[OF topo(1,2)] by (simp add: start(3))
  next
    assume ac: "acyclic (loop_edges loop)"
    have "finite (loop_edges loop)"
      by (rule finite_subset[of _ "set ?ids \<times> set ?ids"]) (use start(1) in \<open>auto simp: start(3)\<close>)
    then have wf: "wf (loop_edges loop)" using ac by (rule finite_acyclic_wf)
    have "i \<in> set ?ids \<longrightarrow> i \<in> set visited" for i
    proof (induction i rule: wf_induct_rule[OF wf])
      case (1 i)
      show ?case
      proof
        assume i: "i \<in> set ?ids"
        have "set (?deps i) \<subseteq> set visited"
          using 1 i start(1) by (auto simp: start(3))
        then show "i \<in> set visited" using vis[OF i] by simp
      qed
    qed
    then show "check_acyclic loop = Inr ()" using res by blast
  qed
qed

text \<open>C14: On a loop whose ids are distinct and whose dependencies are known, Kahn's
algorithm stops, and it accepts exactly the loops in which no task reaches itself along
depends_on.\<close>

theorem kahn_accepts_acyclic:
  assumes "load_loop loop = Inr loop"
  shows "check_acyclic loop = Inr () \<longleftrightarrow> acyclic (loop_edges loop)"
  using assms by (rule check_acyclic_iff)

definition backwards_loop :: loop_definition where
  "backwards_loop = \<lparr>ld_loop = ''l'', ld_tasks =
     [\<lparr>lt_id = ''b'', lt_type = ''t'', lt_depends = [''a''], lt_params = None\<rparr>,
      \<lparr>lt_id = ''a'', lt_type = ''t'', lt_depends = [], lt_params = None\<rparr>]\<rparr>"

lemma backwards_loads: "load_loop backwards_loop = Inr backwards_loop"
  by (simp add: load_loop_ok backwards_loop_def loop_ids_def)

lemma backwards_acyclic: "acyclic (loop_edges backwards_loop)"
proof -
  have "loop_edges backwards_loop \<subseteq> measure (\<lambda>i. if i = ''a'' then 0 else 1)"
    by (auto simp: loop_edges_def backwards_loop_def)
  then show ?thesis using wf_acyclic[OF wf_measure] acyclic_subset by blast
qed

theorem kahn_accepts_acyclic_witness: "check_acyclic backwards_loop = Inr ()"
  using kahn_accepts_acyclic[OF backwards_loads] backwards_acyclic by simp

text \<open>A loop may pass validation although a task stands before the one it depends on,
and decompose keeps that order.\<close>

theorem file_order_is_not_topological:
  "\<exists>loop. validate_loop_file loop = Inr loop \<and> (\<forall>event. \<exists>t u.
     decompose loop event = [t, u] \<and> nt_id u \<in> set (nt_depends t))"
proof -
  have "validate_loop_file backwards_loop = Inr backwards_loop"
    using check_acyclic_iff[OF backwards_loads] backwards_acyclic by (simp add: validate_loop_file_def backwards_loads)
  moreover have "\<exists>t u. decompose backwards_loop event = [t, u] \<and> nt_id u \<in> set (nt_depends t)" for event
    by (simp add: decompose_def backwards_loop_def)
  ultimately show ?thesis by blast
qed

end
