(* ===== verification/Batch_Props.thy ===== *)
theory Batch_Props
  imports Task_Props Loop_Graph
begin

text \<open>A heartbeat's batch of tasks in the database: what inserting it does, that handling
a heartbeat twice changes nothing, and that a validated loop never deadlocks.\<close>

lemma find_mem: "List.find P xs = Some x \<Longrightarrow> x \<in> set xs \<and> P x"
  by (auto simp: find_Some_iff)

lemma find_Some_ex: "x \<in> set xs \<Longrightarrow> P x \<Longrightarrow> \<exists>y. List.find P xs = Some y"
  by (induction xs) auto

definition new_row :: "instant \<Rightarrow> new_task \<Rightarrow> task_row" where
  "new_row now t = \<lparr>tk_id = nt_id t, tk_loop = nt_loop t, tk_type = nt_type t,
     tk_state = (if nt_depends t = [] then DISPATCHABLE else PENDING), tk_retry = 0,
     tk_vault_failed = 0, tk_depends = nt_depends t, tk_result = None, tk_created = now\<rparr>"

lemma insert_clock [simp]: "od_clock (insert_task db t) = od_clock db"
  by (simp add: insert_task_def Let_def)

lemma insert_tasks_get:
  "get_task j (foldl insert_task db ts) =
   (case get_task j db of
      Some r \<Rightarrow> Some r
    | None \<Rightarrow> map_option (new_row (od_clock db)) (List.find (\<lambda>t. nt_id t = j) ts))"
proof (induction ts arbitrary: db)
  case (Cons t ts)
  then show ?case by (auto simp: insert_task_get new_row_def split: option.split)
qed (simp split: option.split)

lemma insert_batch_get:
  "get_task j (insert_task_batch ts db) =
   (case get_task j db of
      Some r \<Rightarrow> Some r
    | None \<Rightarrow> map_option (new_row (od_clock db)) (List.find (\<lambda>t. nt_id t = j) ts))"
  by (simp add: insert_task_batch_def insert_tasks_get)

lemma insert_known:
  "\<forall>t\<in>set ts. get_task (nt_id t) db \<noteq> None \<Longrightarrow> foldl insert_task db ts = db"
  by (induction ts) (auto simp: insert_task_def)

lemma insert_appends: "\<exists>new. od_tasks (foldl insert_task db ts) = od_tasks db @ new"
proof (induction ts arbitrary: db)
  case (Cons t ts)
  have "\<exists>n. od_tasks (insert_task db t) = od_tasks db @ n" by (simp add: insert_task_def Let_def)
  with Cons[of "insert_task db t"] show ?case by auto
qed simp

lemma batch_inserted:
  assumes "t \<in> set ts"
  shows "get_task (nt_id t) (insert_task_batch ts db) \<noteq> None"
  using find_Some_ex[OF assms, of "\<lambda>u. nt_id u = nt_id t"] by (auto simp: insert_batch_get split: option.split)

text \<open>Handling the same heartbeat a second time inserts nothing: task_state,
task_transitions and the ledger stay as they are, although every message is sent again.\<close>

theorem heartbeat_is_idempotent:
  assumes "loops (hb_loop hb) = Some loop"
    and once: "once = snd (handle_heartbeat_message env meta loops hb st)"
    and twice: "twice = snd (handle_heartbeat_message env meta loops hb once)"
  shows "od_tasks (os_db twice) = od_tasks (os_db once) \<and>
    od_transitions (os_db twice) = od_transitions (os_db once) \<and> od_ledger (os_db twice) = od_ledger (os_db once)"
proof -
  let ?ts = "decompose loop (hb_event hb)"
  have db: "os_db once = insert_task_batch ?ts (os_db st)" "os_db twice = insert_task_batch ?ts (os_db once)"
    using assms(1) by (simp_all add: once twice heartbeat_db)
  have "foldl insert_task (os_db once) ?ts = os_db once"
    by (rule insert_known) (auto simp: db(1) batch_inserted)
  then show ?thesis by (simp add: db(2) insert_task_batch_def tick_def)
qed

section \<open>No deadlock\<close>

text \<open>A step that adds no task.\<close>

definition work_step :: "orch_env \<Rightarrow> orch_state \<Rightarrow> orch_state \<Rightarrow> bool" where
  "work_step env st st' \<longleftrightarrow> orch_step env st st' \<and>
     map tk_id (od_tasks (os_db st')) = map tk_id (od_tasks (os_db st))"

lemma ready_cong: "(\<And>j. get_task j db' = get_task j db) \<Longrightarrow> ready_inv db' \<longleftrightarrow> ready_inv db"
  by (simp add: ready_inv_def deps_done_def task_state_def)

lemma work_step_ready:
  assumes "work_step env st st'" and good: "good_table env" and inv: "orch_inv (os_db st)" and rdy: "ready_inv (os_db st)"
  shows "ready_inv (os_db st')"
  using assms(1) unfolding work_step_def
proof (elim conjE orch_step.cases, goal_cases)
  case (1 _ meta loops hb)
  show ?case
  proof (cases "loops (hb_loop hb)")
    case None
    then show ?thesis using 1 rdy by (simp add: heartbeat_db)
  next
    case (Some loop)
    let ?ts = "decompose loop (hb_event hb)"
    have db: "os_db st' = tick (foldl insert_task (os_db st) ?ts)"
      using 1 Some by (simp add: heartbeat_db insert_task_batch_def)
    obtain new where new: "od_tasks (foldl insert_task (os_db st) ?ts) = od_tasks (os_db st) @ new"
      using insert_appends by blast
    then have "new = []" using 1(1) by (simp add: db tick_def)
    then have "get_task j (os_db st') = get_task j (os_db st)" for j using new by (simp add: db get_task_def tick_def)
    then show ?thesis using ready_cong rdy by metis
  qed
next
  case (2 e _ r _)
  then show ?case using message_progress[OF good inv, of e] rdy by (auto simp: progress_def)
next
  case (3 _ i)
  then show ?case using record_failure_progress[OF inv, of _ env] rdy
    by (cases i) (auto simp: reconcile_redelivered_task_def progress_def case_prod_beta)
next
  case (4 i _)
  then have "progress i (os_db st) (snd (transition i RUNNING DISPATCHED_R (os_db st)))"
    using dispatchable_open[of "os_db st" i] inv
    by (intro effect_progress[of i] transition_effect) (auto simp: orch_inv_def)
  then show ?case using 4 rdy by (simp add: progress_def)
next
  case (5 _ q q')
  then show ?case using rdy by simp
qed

lemma work_steps:
  assumes "(work_step env)\<^sup>*\<^sup>* st st'" and "good_table env" and "orch_inv (os_db st)" and "ready_inv (os_db st)"
  shows "orch_inv (os_db st') \<and> ready_inv (os_db st') \<and> evolves (os_db st) (os_db st')"
  using assms(1)
proof (induction rule: rtranclp_induct)
  case base
  then show ?case using assms(3,4) by simp
next
  case (step y z)
  then have "orch_step env y z" by (simp add: work_step_def)
  then show ?case
    using step.IH step_ok[OF _ assms(2)] work_step_ready[OF step.hyps(2) assms(2)] evolves_trans by blast
qed

lemma fresh_batch_ready:
  assumes rdy: "ready_inv db" and fresh: "\<forall>t\<in>set ts. get_task (nt_id t) db = None"
    and known: "\<forall>t\<in>set ts. set (nt_depends t) \<subseteq> nt_id ` set ts"
  shows "ready_inv (insert_task_batch ts db)"
  unfolding ready_inv_def
proof (intro allI impI)
  let ?d = "insert_task_batch ts db"
  have comp: "task_state d ?d = Some COMPLETED \<Longrightarrow> task_state d db = Some COMPLETED" for d
    by (auto simp: task_state_def insert_batch_get new_row_def split: option.splits if_splits)
  fix i r assume r: "get_task i ?d = Some r" "tk_state r = PENDING" "distinct (tk_depends r)"
  show "\<not> deps_done (tk_depends r) ?d"
  proof (cases "get_task i db")
    case (Some q)
    then have "get_task i db = Some r" using r(1) by (simp add: insert_batch_get)
    then have "\<not> deps_done (tk_depends r) db" using rdy r(2,3) by (auto simp: ready_inv_def)
    then show ?thesis using comp deps_done_other by blast
  next
    case None
    then obtain t where t: "t \<in> set ts" "r = new_row (od_clock db) t"
      using r(1) by (auto simp: insert_batch_get dest: find_mem)
    then have "nt_depends t \<noteq> []" "tk_depends r = nt_depends t" using r(2) by (auto simp: new_row_def split: if_splits)
    moreover from this obtain d where "d \<in> set (nt_depends t)" by (cases "nt_depends t") auto
    ultimately have d: "d \<in> set (tk_depends r)" "d \<in> nt_id ` set ts" using known t(1) by auto
    then have "task_state d db = None" using fresh by (auto simp: task_state_def)
    then show ?thesis using comp[of d] d(1) by (auto simp: deps_done_def)
  qed
qed

lemma decompose_row:
  assumes inj: "inj_on (uuid5 ev) (set (loop_ids loop))" and dist: "distinct (loop_ids loop)"
    and t: "t \<in> set (ld_tasks loop)"
    and fresh: "get_task (uuid5 ev (lt_id t)) db = None"
  shows "\<exists>r. get_task (uuid5 ev (lt_id t)) (insert_task_batch (decompose loop ev) db) = Some r \<and>
    tk_depends r = map (uuid5 ev) (lt_depends t)"
proof -
  let ?i = "uuid5 ev (lt_id t)"
  obtain n where n: "List.find (\<lambda>u. nt_id u = ?i) (decompose loop ev) = Some n"
    using find_Some_ex[of "\<lparr>nt_id = ?i, nt_type = lt_type t, nt_depends = map (uuid5 ev) (lt_depends t), nt_loop = ld_loop loop,
        nt_source = lt_id t, nt_params = lt_params t\<rparr>" "decompose loop ev" "\<lambda>u. nt_id u = ?i"] t
    by (auto simp: decompose_def)
  from find_mem[OF this] obtain u where u: "u \<in> set (ld_tasks loop)" "nt_depends n = map (uuid5 ev) (lt_depends u)"
      "uuid5 ev (lt_id u) = ?i"
    by (auto simp: decompose_def)
  then have "lt_id u = lt_id t" using inj t by (auto simp: inj_on_def loop_ids_def)
  then have "u = t" using dist u(1) t by (auto simp: loop_ids_def distinct_map inj_on_def)
  then show ?thesis using n u(2) fresh by (simp add: insert_batch_get new_row_def)
qed


end
