(* ===== verification/Task_Routing.thy ===== *)
theory Task_Routing
  imports Py_Bytes Task_Inv Task_Machine
begin

text \<open>Reading a run along its depends_on edges: the content lookup of the handlers
(dispatch/lineage.py), the stage list of GET /runs (run_state.py), and the routing of
dead-letter alerts to Teams (dead_letter_routing.py, handle_dead_letter_alert of worker.py,
build_dead_letter_card and notify_dead_letter of teams_notify.py). The reads of one
walk see one state of the database.\<close>

section \<open>resolve_lineage_result\<close>

definition LINEAGE_HOPS :: nat where
  "LINEAGE_HOPS = 6"

text \<open>The inner loop over one edge list: an unseen dependency joins the next frontier.\<close>

fun see_deps :: "tid list \<Rightarrow> tid set \<times> tid list \<Rightarrow> tid set \<times> tid list" where
  "see_deps [] s = s"
| "see_deps (d # ds) (seen, next) =
    (if d \<in> seen then see_deps ds (seen, next) else see_deps ds (insert d seen, next @ [d]))"

text \<open>One pass over the frontier: Inl is the early return.\<close>

fun scan_frontier :: "tid \<Rightarrow> orch_db \<Rightarrow> tid list \<Rightarrow> tid set \<times> tid list \<Rightarrow> (task_row \<times> json) + tid set \<times> tid list" where
  "scan_frontier start db [] s = Inr s"
| "scan_frontier start db (i # is) s =
    (case get_task i db of
       None \<Rightarrow> scan_frontier start db is s
     | Some row \<Rightarrow>
         (case tk_result row of
            Some v \<Rightarrow> if i \<noteq> start then Inl (row, v) else scan_frontier start db is (see_deps (tk_depends row) s)
          | None \<Rightarrow> scan_frontier start db is (see_deps (tk_depends row) s)))"

fun walk_up :: "nat \<Rightarrow> tid \<Rightarrow> orch_db \<Rightarrow> tid list \<Rightarrow> tid set \<Rightarrow> (task_row \<times> json) option" where
  "walk_up 0 start db frontier seen = None"
| "walk_up (Suc n) start db frontier seen =
    (if frontier = [] then None
     else case scan_frontier start db frontier (seen, []) of
            Inl hit \<Rightarrow> Some hit
          | Inr (seen', next) \<Rightarrow> walk_up n start db next seen')"

definition resolve_lineage_result :: "tid \<Rightarrow> orch_db \<Rightarrow> (task_row \<times> json) option" where
  "resolve_lineage_result i db = walk_up LINEAGE_HOPS i db [i] {i}"

section \<open>The stages of a run\<close>

definition RUN_STATE_HOPS :: nat where
  "RUN_STATE_HOPS = 20"

text \<open>\<open>collected\<close> is the dict in insertion order; a later row of the same id replaces
the value and keeps the place.\<close>

fun put_row :: "task_row \<Rightarrow> task_row list \<Rightarrow> task_row list" where
  "put_row r [] = [r]"
| "put_row r (q # qs) = (if tk_id q = tk_id r then r # qs else q # put_row r qs)"

fun collect_rows :: "task_row list \<Rightarrow> task_row list \<times> tid list \<Rightarrow> task_row list \<times> tid list" where
  "collect_rows [] s = s"
| "collect_rows (r # rs) (collected, next) =
    (let c = put_row r collected
     in collect_rows rs (c, next @ filter (\<lambda>d. d \<notin> tk_id ` set c) (tk_depends r)))"

fun collect_levels :: "nat \<Rightarrow> orch_db \<Rightarrow> tid list \<Rightarrow> task_row list \<Rightarrow> task_row list" where
  "collect_levels 0 db frontier collected = collected"
| "collect_levels (Suc n) db frontier collected =
    (let to_fetch = filter (\<lambda>i. i \<notin> tk_id ` set collected) frontier
     in if to_fetch = [] then collected
        else case collect_rows (get_tasks to_fetch db) (collected, []) of
               (c, next) \<Rightarrow> collect_levels n db next c)"

definition collect_lineage :: "tid \<Rightarrow> orch_db \<Rightarrow> task_row list" where
  "collect_lineage i db =
    (case get_task i db of
       None \<Rightarrow> []
     | Some start \<Rightarrow> collect_levels RUN_STATE_HOPS db (tk_depends start) [start])"

section \<open>Dead-letter routing\<close>

definition MAX_DOWNSTREAM :: nat where
  "MAX_DOWNSTREAM = 500"

text \<open>A Counter in insertion order.\<close>

fun bump :: "string \<Rightarrow> (string \<times> nat) list \<Rightarrow> (string \<times> nat) list" where
  "bump k [] = [(k, 1)]"
| "bump k ((l, n) # c) = (if l = k then (l, n + 1) # c else (l, n) # bump k c)"

record walk =
  wk_seen :: "tid list"
  wk_types :: "(string \<times> nat) list"
  wk_frontier :: "tid list"

definition see_dependent :: "walk \<Rightarrow> task_row \<Rightarrow> walk" where
  "see_dependent w r =
    (if tk_id r \<in> set (wk_seen w) then w
     else \<lparr>wk_seen = wk_seen w @ [tk_id r], wk_types = bump (tk_type r) (wk_types w),
           wk_frontier = wk_frontier w @ [tk_id r]\<rparr>)"

definition unseen :: "orch_db \<Rightarrow> walk \<Rightarrow> nat" where
  "unseen db w = card (tk_id ` set (od_tasks db) - set (wk_seen w))"

lemma see_dependent_measure:
  assumes "set rs \<subseteq> set (od_tasks db)"
  shows "unseen db (foldl see_dependent w rs) + length (wk_frontier (foldl see_dependent w rs))
       = unseen db w + length (wk_frontier w)"
  using assms
proof (induction rs arbitrary: w)
  case (Cons r rs)
  have "unseen db (see_dependent w r) + length (wk_frontier (see_dependent w r)) = unseen db w + length (wk_frontier w)"
  proof (cases "tk_id r \<in> set (wk_seen w)")
    case False
    let ?U = "tk_id ` set (od_tasks db) - set (wk_seen w)"
    have "tk_id r \<in> ?U" "finite ?U" using False Cons.prems by auto
    moreover have "tk_id ` set (od_tasks db) - set (wk_seen (see_dependent w r)) = ?U - {tk_id r}"
      using False by (auto simp: see_dependent_def)
    ultimately show ?thesis using False card_Suc_Diff1[of ?U "tk_id r"]
      by (simp add: unseen_def see_dependent_def)
  qed (simp add: see_dependent_def)
  with Cons show ?case by simp
qed simp

text \<open>The frontier is a stack; the walk stops at the cap.\<close>

function downstream_walk :: "orch_db \<Rightarrow> walk \<Rightarrow> walk" where
  "downstream_walk db w =
    (if wk_frontier w = [] \<or> length (wk_seen w) - 1 \<ge> MAX_DOWNSTREAM then w
     else downstream_walk db
            (foldl see_dependent (w\<lparr>wk_frontier := butlast (wk_frontier w)\<rparr>)
               (find_dependent_tasks (last (wk_frontier w)) db)))"
  by pat_completeness auto

termination
proof (relation "measure (\<lambda>(db, w). unseen db w + length (wk_frontier w))", goal_cases)
  case (2 db w)
  have "set (find_dependent_tasks (last (wk_frontier w)) db) \<subseteq> set (od_tasks db)"
    by (auto simp: find_dependent_tasks_def)
  from see_dependent_measure[OF this, of "w\<lparr>wk_frontier := butlast (wk_frontier w)\<rparr>"] 2
  show ?case by (simp add: unseen_def)
qed simp

declare downstream_walk.simps [simp del]

definition downstream :: "tid \<Rightarrow> orch_db \<Rightarrow> nat \<times> (string \<times> nat) list" where
  "downstream i db =
    (let w = downstream_walk db \<lparr>wk_seen = [i], wk_types = [], wk_frontier = [i]\<rparr>
     in (length (wk_seen w) - 1, wk_types w))"

datatype dead_letter_kind = KIND_FAILURE | KIND_CASCADE

record dead_letter_context =
  dx_kind :: "dead_letter_kind option"
  dx_total :: "nat option"
  dx_types :: "(string \<times> nat) list"

definition UNKNOWN :: dead_letter_context where
  "UNKNOWN = \<lparr>dx_kind = None, dx_total = None, dx_types = []\<rparr>"

text \<open>What the worker can read: no database is configured, the lookup raises, or it
reads a state.\<close>

datatype db_access = No_Db | Lookup_Raises | Reads orch_db

definition describe :: "tid \<Rightarrow> db_access \<Rightarrow> dead_letter_context" where
  "describe i acc =
    (case acc of
       Reads db \<Rightarrow>
         (if get_dead_letter_reason i db = Some DEPENDENCY_DEAD_LETTERED_R
          then \<lparr>dx_kind = Some KIND_CASCADE, dx_total = None, dx_types = []\<rparr>
          else if get_dead_letter_reason i db \<noteq> Some DEAD_LETTERED_R then UNKNOWN
          else \<lparr>dx_kind = Some KIND_FAILURE, dx_total = Some (fst (downstream i db)),
                dx_types = snd (downstream i db)\<rparr>)
     | _ \<Rightarrow> UNKNOWN)"

section \<open>The card\<close>

definition card_fact :: "string \<Rightarrow> string \<Rightarrow> json" where
  "card_fact t v = JObj [(''title'', JStr t), (''value'', JStr v)]"

text \<open>sorted by falling count, then by name: a stable sort of a sort.\<close>

definition rank_types :: "(string \<times> nat) list \<Rightarrow> (string \<times> nat) list" where
  "rank_types c = sort_key (\<lambda>kv. - int (snd kv)) (sort_kvs c)"

definition shown_types :: "(string \<times> nat) list \<Rightarrow> string" where
  "shown_types c =
    (let ranked = rank_types c;
         names = join_with '', '' (map (\<lambda>(k, n). k @ '' x'' @ nat_str n) (take 6 ranked))
     in if length ranked > 6 then names @ '', +'' @ nat_str (length ranked - 6) @ '' more types'' else names)"

definition card_facts :: "dead_letter_alert \<Rightarrow> nat option \<Rightarrow> (string \<times> nat) list \<Rightarrow> json list" where
  "card_facts a blocked types =
    [card_fact ''Task id'' (uuid_str (dl_task a)), card_fact ''Task type'' (dl_type a), card_fact ''Loop id'' (dl_loop a),
     card_fact ''Failure count'' (nat_str (dl_failures a))] @
    (case blocked of
       None \<Rightarrow> []
     | Some n \<Rightarrow> card_fact ''Downstream tasks blocked'' (nat_str n) #
         (if types = [] then [] else [card_fact ''Blocked task types'' (shown_types types)]))"

definition build_dead_letter_card :: "dead_letter_alert \<Rightarrow> string option \<Rightarrow> nat option \<Rightarrow> (string \<times> nat) list \<Rightarrow> json" where
  "build_dead_letter_card a review blocked types =
    (let body =
       [JObj [(''type'', JStr ''TextBlock''), (''size'', JStr ''Medium''), (''weight'', JStr ''Bolder''),
              (''wrap'', JBool True), (''text'', JStr ''Dead-lettered: a task exhausted its retries'')],
        JObj [(''type'', JStr ''FactSet''), (''facts'', JArr (card_facts a blocked types))]] @
       (case blocked of
          Some (Suc n) \<Rightarrow>
            [JObj [(''type'', JStr ''TextBlock''), (''wrap'', JBool True), (''isSubtle'', JBool True),
                   (''text'', JStr (nat_str (Suc n) @
                      '' downstream task(s) cannot run and are dead-lettered '' @
                      ''without being attempted. They do not post their own cards.''))]]
        | _ \<Rightarrow> []);
         content =
       [(''$schema'', JStr ''http://adaptivecards.io/schemas/adaptive-card.json''),
        (''type'', JStr ''AdaptiveCard''), (''version'', JStr ''1.4''), (''body'', JArr body)] @
       (if truthy review then
          [(''actions'', JArr [JObj [(''type'', JStr ''Action.OpenUrl''), (''title'', JStr ''Review in console''),
              (''url'', JStr (the review))]])]
        else [])
     in JObj [(''type'', JStr ''message''),
              (''attachments'', JArr [JObj
                 [(''contentType'', JStr ''application/vnd.microsoft.card.adaptive''), (''contentUrl'', JNull),
                  (''content'', JObj content)]])])"

text \<open>The two environment variables. The result is whether a POST was attempted, and the
attempted POSTs; an exception of the POST is swallowed.\<close>

record teams_env =
  tm_webhook :: "string option"
  tm_console :: "string option"

definition review_url :: "string \<Rightarrow> tid \<Rightarrow> string" where
  "review_url base i = rev (dropWhile (\<lambda>c. c = CHR ''/'') (rev base)) @ ''/review/'' @ uuid_str i"

definition notify_dead_letter ::
    "teams_env \<Rightarrow> dead_letter_alert \<Rightarrow> nat option \<Rightarrow> (string \<times> nat) list \<Rightarrow> bool \<times> (string \<times> json) list" where
  "notify_dead_letter env a blocked types =
    (if \<not> truthy (tm_webhook env) then (False, [])
     else let review = (if truthy (tm_console env) then Some (review_url (the (tm_console env)) (dl_task a)) else None)
          in (True, [(the (tm_webhook env), build_dead_letter_card a review blocked types)]))"

definition handle_dead_letter_alert ::
    "teams_env \<Rightarrow> db_access \<Rightarrow> dead_letter_alert \<Rightarrow> bool \<times> (string \<times> json) list" where
  "handle_dead_letter_alert env acc a =
    (let x = describe (dl_task a) acc
     in if dx_kind x = Some KIND_CASCADE then (False, [])
        else if dx_kind x = Some KIND_FAILURE then notify_dead_letter env a (dx_total x) (dx_types x)
        else notify_dead_letter env a None [])"

end
