(* ===== verification/Routing_Props.thy ===== *)
theory Routing_Props
  imports Task_Routing Task_Props
begin

text \<open>Walks along depends_on: what resolve_lineage_result and the stage list of a run
find, how many tasks a dead-letter card counts, and which alerts become cards.\<close>

section \<open>Breadth-first levels\<close>

text \<open>Everything within fewer than n steps.\<close>

definition closer :: "('a \<times> 'a) set \<Rightarrow> 'a \<Rightarrow> nat \<Rightarrow> 'a set" where
  "closer R x n = {y. \<exists>m<n. (x, y) \<in> R ^^ m}"

lemma closer_0 [simp]: "closer R x 0 = {}"
  by (simp add: closer_def)

lemma closer_1 [simp]: "closer R x (Suc 0) = {x}"
  by (auto simp: closer_def)

lemma closer_mono: "m \<le> n \<Longrightarrow> closer R x m \<subseteq> closer R x n"
  by (auto simp: closer_def) (meson less_le_trans)

lemma closer_image: "R `` closer R x n \<subseteq> closer R x (Suc n)"
proof
  fix y assume "y \<in> R `` closer R x n"
  then obtain z m where "m < n" "(x, z) \<in> R ^^ m" "(z, y) \<in> R" by (auto simp: closer_def)
  then have "Suc m < Suc n" "(x, y) \<in> R ^^ Suc m" by auto
  then show "y \<in> closer R x (Suc n)" unfolding closer_def by blast
qed

lemma closer_step: "closer R x (Suc (Suc n)) = closer R x (Suc n) \<union> R `` closer R x (Suc n)"
proof
  show "closer R x (Suc (Suc n)) \<subseteq> closer R x (Suc n) \<union> R `` closer R x (Suc n)"
  proof
    fix y assume "y \<in> closer R x (Suc (Suc n))"
    then obtain m where m: "m < Suc (Suc n)" "(x, y) \<in> R ^^ m" by (auto simp: closer_def)
    show "y \<in> closer R x (Suc n) \<union> R `` closer R x (Suc n)"
    proof (cases m)
      case (Suc k)
      then obtain z where "(x, z) \<in> R ^^ k" "(z, y) \<in> R" using m(2) by auto
      then show ?thesis using m(1) Suc by (auto simp: closer_def)
    qed (use m in \<open>auto simp: closer_def\<close>)
  qed
  show "closer R x (Suc n) \<union> R `` closer R x (Suc n) \<subseteq> closer R x (Suc (Suc n))"
    using closer_mono[of "Suc n" "Suc (Suc n)" R x] closer_image[of R x "Suc n"] by simp
qed

definition bfs_level :: "('a \<times> 'a) set \<Rightarrow> 'a \<Rightarrow> nat \<Rightarrow> 'a set" where
  "bfs_level R x n = closer R x (Suc n) - closer R x n"

lemma closer_level: "closer R x (Suc (Suc n)) = closer R x (Suc n) \<union> R `` bfs_level R x n"
proof -
  have "R `` closer R x (Suc n) \<subseteq> R `` bfs_level R x n \<union> R `` closer R x n"
    by (auto simp: bfs_level_def)
  also have "\<dots> \<subseteq> R `` bfs_level R x n \<union> closer R x (Suc n)"
    using closer_image[of R x n] by blast
  finally have "R `` closer R x (Suc n) \<subseteq> R `` bfs_level R x n \<union> closer R x (Suc n)" .
  moreover have "R `` bfs_level R x n \<subseteq> R `` closer R x (Suc n)" by (auto simp: bfs_level_def)
  ultimately show ?thesis unfolding closer_step by blast
qed

lemma closer_stops:
  assumes "R `` bfs_level R x n \<subseteq> closer R x (Suc n)"
  shows "closer R x (Suc n + k) = closer R x (Suc n)"
proof (induction k)
  case (Suc k)
  then have "closer R x (Suc (Suc (n + k))) = closer R x (Suc n) \<union> R `` closer R x (Suc n)"
    by (simp add: closer_step)
  then show ?case using assms closer_level[of R x n] closer_step[of R x n] by auto
qed simp

lemma level_path: "y \<in> bfs_level R x n \<Longrightarrow> (x, y) \<in> R ^^ n"
  by (auto simp: bfs_level_def closer_def less_Suc_eq)

section \<open>resolve_lineage_result\<close>

definition dep_rel :: "orch_db \<Rightarrow> (tid \<times> tid) set" where
  "dep_rel db = {(i, d). \<exists>r. get_task i db = Some r \<and> d \<in> set (tk_depends r)}"

text \<open>A task whose result does not end the walk.\<close>

definition no_hit :: "tid \<Rightarrow> orch_db \<Rightarrow> tid \<Rightarrow> bool" where
  "no_hit start db j \<longleftrightarrow> j = start \<or> (\<forall>r. get_task j db = Some r \<longrightarrow> tk_result r = None)"

lemma see_deps_sets:
  "see_deps ds (seen, next) = (seen', next') \<Longrightarrow>
   seen' = seen \<union> set ds \<and> set next' = set next \<union> (set ds - seen)"
  by (induction ds arbitrary: seen "next") (auto split: if_splits)

lemma scan_frontier_hit:
  "scan_frontier start db is s = Inl (row, v) \<Longrightarrow>
   \<exists>i\<in>set is. get_task i db = Some row \<and> i \<noteq> start \<and> tk_result row = Some v"
  by (induction start db "is" s rule: scan_frontier.induct) (auto split: option.splits if_splits)

lemma scan_frontier_pass:
  "scan_frontier start db is (seen, next) = Inr (seen', next') \<Longrightarrow>
   seen' = seen \<union> dep_rel db `` set is \<and> set next' = set next \<union> (dep_rel db `` set is - seen) \<and>
   (\<forall>i\<in>set is. no_hit start db i)"
proof (induction "is" arbitrary: seen "next")
  case (Cons i "is")
  show ?case
  proof (cases "get_task i db")
    case None
    then show ?thesis using Cons by (fastforce simp: dep_rel_def no_hit_def)
  next
    case (Some row)
    have img: "dep_rel db `` set (i # is) = set (tk_depends row) \<union> dep_rel db `` set is"
      using Some by (auto simp: dep_rel_def)
    obtain sn nx where s: "see_deps (tk_depends row) (seen, next) = (sn, nx)" by fastforce
    have quiet: "no_hit start db i" and rest: "scan_frontier start db is (sn, nx) = Inr (seen', next')"
      using Cons.prems Some s by (auto simp: no_hit_def split: option.splits if_splits)
    show ?thesis using Cons.IH[OF rest] see_deps_sets[OF s] quiet unfolding img by auto
  qed
qed simp

lemma walk_up_correct:
  assumes "seen = closer (dep_rel db) start (Suc k)" and "set frontier = bfs_level (dep_rel db) start k"
    and "\<forall>j\<in>closer (dep_rel db) start k. no_hit start db j"
  shows "case walk_up n start db frontier seen of
      None \<Rightarrow> (\<forall>j\<in>closer (dep_rel db) start (k + n). no_hit start db j)
    | Some (row, v) \<Rightarrow> (\<exists>m. m < k + n \<and> (\<exists>i\<in>bfs_level (dep_rel db) start m.
        get_task i db = Some row \<and> i \<noteq> start \<and> tk_result row = Some v \<and>
        (\<forall>j\<in>closer (dep_rel db) start m. no_hit start db j)))"
  using assms
proof (induction n arbitrary: frontier seen k)
  case (Suc n)
  let ?R = "dep_rel db"
  have all: "closer ?R start (Suc k) = closer ?R start k \<union> set frontier"
    using Suc.prems(2) closer_mono[of k "Suc k" ?R start] by (auto simp: bfs_level_def)
  show ?case
  proof (cases "frontier = []")
    case True
    then have "bfs_level ?R start k = {}" using Suc.prems(2) by simp
    then have "closer ?R start (k + Suc n) = closer ?R start (Suc k)"
      using closer_stops[of ?R start k n] by simp
    then show ?thesis using True all Suc.prems(3) by simp
  next
    case False
    show ?thesis
    proof (cases "scan_frontier start db frontier (seen, [])")
      case (Inl hit)
      obtain row v where hit: "hit = (row, v)" by fastforce
      with scan_frontier_hit[of start db frontier "(seen, [])" row v] Inl Suc.prems(2,3) False show ?thesis
        by (auto intro!: exI[of _ k])
    next
      case (Inr s)
      obtain sn nx where s: "s = (sn, nx)" by fastforce
      note pass = scan_frontier_pass[OF Inr[unfolded s]]
      have "sn = closer ?R start (Suc (Suc k))" using pass Suc.prems by (simp add: closer_level)
      moreover have "set nx = bfs_level ?R start (Suc k)"
        using pass Suc.prems by (auto simp: bfs_level_def[of _ _ "Suc k"] closer_level)
      moreover have "\<forall>j\<in>closer ?R start (Suc k). no_hit start db j" using all pass Suc.prems(3) by auto
      ultimately have "case walk_up n start db nx sn of
          None \<Rightarrow> (\<forall>j\<in>closer ?R start (Suc k + n). no_hit start db j)
        | Some (row, v) \<Rightarrow> (\<exists>m. m < Suc k + n \<and> (\<exists>i\<in>bfs_level ?R start m.
            get_task i db = Some row \<and> i \<noteq> start \<and> tk_result row = Some v \<and>
            (\<forall>j\<in>closer ?R start m. no_hit start db j)))"
        by (rule Suc.IH)
      moreover have "Suc k + n = k + Suc n" by simp
      moreover have "walk_up (Suc n) start db frontier seen = walk_up n start db nx sn" using Inr s False by simp
      ultimately show ?thesis by metis
    qed
  qed
qed simp

text \<open>A handler reads the result of the nearest ancestor that has one: when
resolve_lineage_result returns a row, it is an ancestor at most five depends_on steps
away and no task at a smaller distance has a result; when it returns nothing, no
ancestor within five steps has one.\<close>

theorem lineage_finds_nearest:
  "case resolve_lineage_result i db of
     Some (row, v) \<Rightarrow> (\<exists>m\<le>5. \<exists>j. (i, j) \<in> dep_rel db ^^ m \<and> j \<noteq> i \<and> get_task j db = Some row \<and>
       tk_result row = Some v \<and> (\<forall>a\<in>closer (dep_rel db) i m. no_hit i db a))
   | None \<Rightarrow> (\<forall>a\<in>closer (dep_rel db) i 6. no_hit i db a)"
proof -
  have "{i} = closer (dep_rel db) i (Suc 0)" "set [i] = bfs_level (dep_rel db) i 0"
    "\<forall>j\<in>closer (dep_rel db) i 0. no_hit i db j"
    by (auto simp: bfs_level_def)
  from walk_up_correct[OF this, of 6, unfolded add_0] have w:
    "case resolve_lineage_result i db of
      None \<Rightarrow> (\<forall>j\<in>closer (dep_rel db) i 6. no_hit i db j)
    | Some (row, v) \<Rightarrow> (\<exists>m. m < 6 \<and> (\<exists>j\<in>bfs_level (dep_rel db) i m. get_task j db = Some row \<and> j \<noteq> i \<and>
        tk_result row = Some v \<and> (\<forall>a\<in>closer (dep_rel db) i m. no_hit i db a)))"
    unfolding resolve_lineage_result_def LINEAGE_HOPS_def .
  show ?thesis
  proof (cases "resolve_lineage_result i db")
    case (Some h)
    then obtain row v m j where "h = (row, v)" "m < 6" "j \<in> bfs_level (dep_rel db) i m" "get_task j db = Some row"
        "j \<noteq> i" "tk_result row = Some v" "\<forall>a\<in>closer (dep_rel db) i m. no_hit i db a"
      using w by auto
    moreover from this have "m \<le> 5" "(i, j) \<in> dep_rel db ^^ m" using level_path by (simp, metis)
    ultimately show ?thesis using Some by auto
  qed (use w in simp)
qed

section \<open>The stages of a run\<close>

lemma put_row_ids: "tk_id ` set (put_row r qs) = insert (tk_id r) (tk_id ` set qs)"
  by (induction qs) auto

lemma put_row_distinct: "distinct (map tk_id qs) \<Longrightarrow> distinct (map tk_id (put_row r qs))"
proof (induction qs)
  case (Cons q qs)
  then show ?case using put_row_ids[of r qs] by auto
qed simp

lemma put_row_mem: "set (put_row r qs) \<subseteq> insert r (set qs)"
  by (induction qs) auto

lemma collect_rows_ids:
  "collect_rows rs (c, nx) = (c', nx') \<Longrightarrow>
   tk_id ` set c' = tk_id ` set c \<union> tk_id ` set rs \<and> set c' \<subseteq> set c \<union> set rs \<and>
   (distinct (map tk_id c) \<longrightarrow> distinct (map tk_id c')) \<and>
   set nx' \<subseteq> set nx \<union> (\<Union>r\<in>set rs. set (tk_depends r)) \<and>
   set nx \<union> ((\<Union>r\<in>set rs. set (tk_depends r)) - tk_id ` set c') \<subseteq> set nx'"
proof (induction rs arbitrary: c nx)
  case (Cons r rs)
  have rest: "collect_rows rs (put_row r c, nx @ filter (\<lambda>d. d \<notin> tk_id ` set (put_row r c)) (tk_depends r)) = (c', nx')"
    using Cons.prems by (simp add: Let_def)
  show ?case using Cons.IH[OF rest] put_row_ids[of r c] put_row_mem[of r c] put_row_distinct[of c r]
    by (auto 0 3)
qed simp

definition known_tasks :: "orch_db \<Rightarrow> tid set" where
  "known_tasks db = tk_id ` set (od_tasks db)"

lemma collect_levels_ids:
  assumes dist: "distinct (map tk_id (od_tasks db))"
    and c: "tk_id ` set c = closer (dep_rel db) i (Suc k) \<inter> known_tasks db" "set c \<subseteq> set (od_tasks db)" "distinct (map tk_id c)"
    and f: "set frontier \<subseteq> closer (dep_rel db) i (Suc (Suc k))"
      "(closer (dep_rel db) i (Suc (Suc k)) - closer (dep_rel db) i (Suc k)) \<inter> known_tasks db \<subseteq> set frontier"
  shows "tk_id ` set (collect_levels n db frontier c) = closer (dep_rel db) i (Suc k + n) \<inter> known_tasks db \<and>
    set (collect_levels n db frontier c) \<subseteq> set (od_tasks db) \<and> distinct (map tk_id (collect_levels n db frontier c))"
  using c f
proof (induction n arbitrary: frontier c k)
  case (Suc n)
  let ?R = "dep_rel db" and ?K = "known_tasks db"
  let ?t = "filter (\<lambda>j. j \<notin> tk_id ` set c) frontier"
  have "a \<in> ?K" if "(a, b) \<in> ?R" for a b
    using that get_task_id by (fastforce simp: dep_rel_def known_tasks_def)
  then have src: "?R `` S = ?R `` (S \<inter> ?K)" for S by blast
  have lev: "bfs_level ?R i (Suc k) \<inter> ?K = set ?t \<inter> ?K"
    using Suc.prems unfolding bfs_level_def by auto
  show ?case
  proof (cases "?t = []")
    case True
    then have "bfs_level ?R i (Suc k) \<inter> ?K = {}" using lev by (metis empty_set inf_bot_left)
    then have "?R `` bfs_level ?R i (Suc k) \<subseteq> closer ?R i (Suc (Suc k))" using src[of "bfs_level ?R i (Suc k)"] by simp
    from closer_stops[OF this, of n]
    have "closer ?R i (Suc k + Suc n) = closer ?R i (Suc (Suc k))" by simp
    moreover have "closer ?R i (Suc (Suc k)) \<inter> ?K = closer ?R i (Suc k) \<inter> ?K"
      using \<open>bfs_level ?R i (Suc k) \<inter> ?K = {}\<close> closer_mono[of "Suc k" "Suc (Suc k)" ?R i] by (auto simp: bfs_level_def)
    ultimately show ?thesis using True Suc.prems by simp
  next
    case False
    let ?rs = "get_tasks ?t db"
    obtain c' nx where s: "collect_rows ?rs (c, []) = (c', nx)" by fastforce
    note cr = collect_rows_ids[OF s]
    have rs: "tk_id ` set ?rs = set ?t \<inter> ?K" "set ?rs \<subseteq> set (od_tasks db)"
      using False by (auto simp: get_tasks_def known_tasks_def)
    have deps: "(\<Union>r\<in>set ?rs. set (tk_depends r)) = ?R `` bfs_level ?R i (Suc k)"
    proof -
      have "get_task (tk_id r) db = Some r" if "r \<in> set (od_tasks db)" for r
        using dist that get_task_mem by blast
      then have "(\<Union>r\<in>set ?rs. set (tk_depends r)) = ?R `` (tk_id ` set ?rs)"
        using rs(2) by (fastforce simp: dep_rel_def)
      then show ?thesis using rs(1) lev src by metis
    qed
    have ids: "tk_id ` set c' = closer ?R i (Suc (Suc k)) \<inter> ?K"
      using cr rs(1) lev Suc.prems(1) closer_mono[of "Suc k" "Suc (Suc k)" ?R i] unfolding bfs_level_def by auto
    have "set nx \<subseteq> closer ?R i (Suc (Suc (Suc k)))"
      using cr unfolding deps by (auto simp: closer_level[of ?R i "Suc k"])
    moreover have "(closer ?R i (Suc (Suc (Suc k))) - closer ?R i (Suc (Suc k))) \<inter> ?K \<subseteq> set nx"
      using cr ids unfolding deps by (auto simp: closer_level[of ?R i "Suc k"])
    moreover have "set c' \<subseteq> set (od_tasks db)" "distinct (map tk_id c')" using cr rs(2) Suc.prems(2,3) by auto
    ultimately have "tk_id ` set (collect_levels n db nx c') = closer ?R i (Suc (Suc k) + n) \<inter> ?K \<and>
      set (collect_levels n db nx c') \<subseteq> set (od_tasks db) \<and> distinct (map tk_id (collect_levels n db nx c'))"
      using Suc.IH[of c' "Suc k" nx] ids by blast
    then show ?thesis using False s by (simp add: Let_def)
  qed
qed simp

lemma collect_lineage_ids:
  assumes "distinct (map tk_id (od_tasks db))" and "get_task i db = Some r"
  shows "tk_id ` set (collect_lineage i db) = closer (dep_rel db) i 21 \<inter> known_tasks db \<and>
    set (collect_lineage i db) \<subseteq> set (od_tasks db) \<and> distinct (map tk_id (collect_lineage i db))"
proof -
  have i: "tk_id r = i" "r \<in> set (od_tasks db)" using get_task_id[OF assms(2)] by auto
  have one: "closer (dep_rel db) i (Suc (Suc 0)) = insert i (set (tk_depends r))"
    using assms(2) by (auto simp: closer_step dep_rel_def)
  have "tk_id ` set [r] = closer (dep_rel db) i (Suc 0) \<inter> known_tasks db" "set [r] \<subseteq> set (od_tasks db)"
    "distinct (map tk_id [r])" "set (tk_depends r) \<subseteq> closer (dep_rel db) i (Suc (Suc 0))"
    "(closer (dep_rel db) i (Suc (Suc 0)) - closer (dep_rel db) i (Suc 0)) \<inter> known_tasks db \<subseteq> set (tk_depends r)"
    unfolding one using i by (auto simp: known_tasks_def)
  from collect_levels_ids[OF assms(1) this, of RUN_STATE_HOPS] show ?thesis
    using assms(2) by (simp add: collect_lineage_def RUN_STATE_HOPS_def)
qed

section \<open>The blast radius of a failure\<close>

definition blocks :: "orch_db \<Rightarrow> (tid \<times> tid) set" where
  "blocks db = {(i, j). \<exists>r\<in>set (od_tasks db). tk_id r = j \<and> i \<in> set (tk_depends r)}"

definition counted :: "(string \<times> nat) list \<Rightarrow> string \<Rightarrow> nat" where
  "counted c k = (case map_of c k of Some n \<Rightarrow> n | None \<Rightarrow> 0)"

lemma counted_bump: "counted (bump k c) l = counted c l + (if l = k then 1 else 0)"
  by (induction c) (auto simp: counted_def split: prod.splits)

definition of_type :: "orch_db \<Rightarrow> string \<Rightarrow> tid set" where
  "of_type db k = {j. \<exists>r. get_task j db = Some r \<and> tk_type r = k}"

definition walk_inv :: "orch_db \<Rightarrow> tid \<Rightarrow> walk \<Rightarrow> bool" where
  "walk_inv db i w \<longleftrightarrow> distinct (wk_seen w) \<and> wk_seen w \<noteq> [] \<and> hd (wk_seen w) = i \<and>
     set (wk_frontier w) \<subseteq> set (wk_seen w) \<and> set (wk_seen w) \<subseteq> (blocks db)\<^sup>* `` {i} \<and>
     (\<forall>k. counted (wk_types w) k = length (filter (\<lambda>j. j \<in> of_type db k) (tl (wk_seen w))))"

lemma see_dependents_inv:
  assumes dist: "distinct (map tk_id (od_tasks db))"
    and "set rs \<subseteq> set (od_tasks db)" and "tk_id ` set rs \<subseteq> (blocks db)\<^sup>* `` {i}" and "walk_inv db i w"
  shows "walk_inv db i (foldl see_dependent w rs) \<and>
    set (wk_seen (foldl see_dependent w rs)) = set (wk_seen w) \<union> tk_id ` set rs \<and>
    set (wk_frontier (foldl see_dependent w rs)) = set (wk_frontier w) \<union> (tk_id ` set rs - set (wk_seen w))"
  using assms(2-)
proof (induction rs arbitrary: w)
  case (Cons r rs)
  have row: "get_task (tk_id r) db = Some r" using dist Cons.prems(1) get_task_mem by auto
  have "walk_inv db i (see_dependent w r)"
  proof (cases "tk_id r \<in> set (wk_seen w)")
    case False
    obtain x xs where "wk_seen w = x # xs" using Cons.prems(3) by (cases "wk_seen w") (auto simp: walk_inv_def)
    then show ?thesis using Cons.prems(2,3) False row
      by (auto simp: walk_inv_def see_dependent_def counted_bump of_type_def)
  qed (use Cons.prems(3) in \<open>simp add: see_dependent_def\<close>)
  from Cons.IH[OF _ _ this] Cons.prems show ?case by (auto simp: see_dependent_def)
qed simp

lemma downstream_walk_correct:
  assumes "distinct (map tk_id (od_tasks db))" and "walk_inv db i w"
    and "\<forall>j\<in>set (wk_seen w) - set (wk_frontier w). blocks db `` {j} \<subseteq> set (wk_seen w)"
  shows "walk_inv db i (downstream_walk db w) \<and>
    (set (wk_seen (downstream_walk db w)) = (blocks db)\<^sup>* `` {i} \<or> MAX_DOWNSTREAM \<le> length (wk_seen (downstream_walk db w)) - 1)"
  using assms
proof (induction db w rule: downstream_walk.induct)
  case (1 db w)
  show ?case
  proof (cases "wk_frontier w = [] \<or> length (wk_seen w) - 1 \<ge> MAX_DOWNSTREAM")
    case True
    have "set (wk_seen w) = (blocks db)\<^sup>* `` {i}" if "wk_frontier w = []"
    proof
      show "set (wk_seen w) \<subseteq> (blocks db)\<^sup>* `` {i}" using "1.prems"(2) by (simp add: walk_inv_def)
      have "i \<in> set (wk_seen w)" using "1.prems"(2) by (auto simp: walk_inv_def intro: hd_in_set)
      moreover have "(blocks db) `` set (wk_seen w) \<subseteq> set (wk_seen w)" using "1.prems"(3) that by auto
      ultimately show "(blocks db)\<^sup>* `` {i} \<subseteq> set (wk_seen w)"
        using Image_closed_trancl[of "blocks db" "set (wk_seen w)"] by blast
    qed
    then show ?thesis using True "1.prems"(2) by (simp add: downstream_walk.simps[of db w]) blast
  next
    case False
    let ?x = "last (wk_frontier w)" and ?w = "w\<lparr>wk_frontier := butlast (wk_frontier w)\<rparr>"
    let ?rs = "find_dependent_tasks ?x db"
    have fr: "set (wk_frontier w) = insert ?x (set (butlast (wk_frontier w)))"
      using False by (metis append_butlast_last_id list.simps(15) rotate1.simps(2) set_rotate1)
    then have x: "?x \<in> (blocks db)\<^sup>* `` {i}" using "1.prems"(2) by (auto simp: walk_inv_def)
    have ids: "tk_id ` set ?rs = blocks db `` {?x}" "set ?rs \<subseteq> set (od_tasks db)"
      by (auto simp: find_dependent_tasks_def blocks_def)
    have w: "walk_inv db i ?w" using "1.prems"(2) fr by (auto simp: walk_inv_def)
    have "tk_id ` set ?rs \<subseteq> (blocks db)\<^sup>* `` {i}" using x ids(1) by (auto intro: rtrancl_into_rtrancl)
    note s = see_dependents_inv[OF "1.prems"(1) ids(2) this w]
    let ?w' = "foldl see_dependent ?w ?rs"
    have "blocks db `` {j} \<subseteq> set (wk_seen ?w')" if "j \<in> set (wk_seen ?w') - set (wk_frontier ?w')" for j
    proof (cases "j = ?x")
      case False
      then have "j \<in> set (wk_seen w) - set (wk_frontier w)" using that s fr by auto
      then show ?thesis using "1.prems"(3) s by auto
    qed (use s ids(1) in auto)
    then have "walk_inv db i (downstream_walk db ?w') \<and>
      (set (wk_seen (downstream_walk db ?w')) = (blocks db)\<^sup>* `` {i} \<or> MAX_DOWNSTREAM \<le> length (wk_seen (downstream_walk db ?w')) - 1)"
      using "1.IH"[OF False "1.prems"(1)] s by blast
    then show ?thesis using False by (simp add: downstream_walk.simps[of db w])
  qed
qed

text \<open>The count on a dead-letter card. It never exceeds the number of tasks that
transitively depend on the failed one; below the cap of 500 it is exactly that number,
and each task type is counted with its exact share.\<close>

theorem downstream_counts_closure:
  assumes "distinct (map tk_id (od_tasks db))"
  shows "fst (downstream i db) \<le> card ((blocks db)\<^sup>+ `` {i} - {i}) \<and>
    (fst (downstream i db) = card ((blocks db)\<^sup>+ `` {i} - {i}) \<or> MAX_DOWNSTREAM \<le> fst (downstream i db)) \<and>
    (fst (downstream i db) < MAX_DOWNSTREAM \<longrightarrow>
       (\<forall>k. counted (snd (downstream i db)) k = card (((blocks db)\<^sup>+ `` {i} - {i}) \<inter> of_type db k)))"
proof -
  let ?w = "downstream_walk db \<lparr>wk_seen = [i], wk_types = [], wk_frontier = [i]\<rparr>"
  let ?C = "(blocks db)\<^sup>+ `` {i} - {i}"
  have "walk_inv db i \<lparr>wk_seen = [i], wk_types = [], wk_frontier = [i]\<rparr>"
    by (simp add: walk_inv_def counted_def)
  from downstream_walk_correct[OF assms this] have w: "walk_inv db i ?w"
    "set (wk_seen ?w) = (blocks db)\<^sup>* `` {i} \<or> MAX_DOWNSTREAM \<le> length (wk_seen ?w) - 1" by simp_all
  obtain xs where xs: "wk_seen ?w = i # xs" using w(1) by (cases "wk_seen ?w") (auto simp: walk_inv_def)
  have d: "distinct xs" "i \<notin> set xs" and k: "\<And>k. counted (wk_types ?w) k = length (filter (\<lambda>j. j \<in> of_type db k) xs)"
    using w(1) by (simp_all add: walk_inv_def xs)
  have C: "?C = (blocks db)\<^sup>* `` {i} - {i}" by (auto simp: rtrancl_eq_or_trancl)
  have "?C \<subseteq> tk_id ` set (od_tasks db)" by (auto simp: blocks_def dest: tranclD2)
  then have fin: "finite ?C" by (rule finite_subset) simp
  have "set xs \<subseteq> ?C" using w(1) d(2) unfolding C by (auto simp: walk_inv_def xs)
  then have le: "length xs \<le> card ?C" using card_mono[OF fin] distinct_card[OF d(1)] by metis
  have eq: "set xs = ?C" if "length xs < MAX_DOWNSTREAM"
    using w(2) that d(2) unfolding C by (auto simp: xs)
  have "length xs = card ?C" if "length xs < MAX_DOWNSTREAM" using eq[OF that] distinct_card[OF d(1)] by simp
  moreover have "counted (wk_types ?w) k = card (?C \<inter> of_type db k)" if "length xs < MAX_DOWNSTREAM" for k
  proof -
    have "?C \<inter> of_type db k = set (filter (\<lambda>j. j \<in> of_type db k) xs)" using eq[OF that] by auto
    then show ?thesis using k distinct_card[OF distinct_filter[OF d(1)], of "\<lambda>j. j \<in> of_type db k"] by metis
  qed
  ultimately show ?thesis using le by (auto simp: downstream_def Let_def xs not_less)
qed

section \<open>Which alerts become cards\<close>

text \<open>A task dead-lettered because a dependency had failed posts no card to Teams: when
its message has been handled, its alert is consumed without a POST, whatever webhook is
configured. Only the failure itself is announced.\<close>

theorem cascade_posts_no_card:
  assumes "good_table env" and "orch_reachable env st"
    and "get_task (te_task e) (os_db st) = Some r" "tk_state r \<notin> TERMINAL_STATES" "tk_state r \<noteq> DISPATCHABLE"
    and "d \<in> set (tk_depends r)" "task_state d (os_db st) \<in> {Some DEAD_LETTERED, Some FAILED}"
  shows "\<exists>res st'. handle_task_message env e st = Some (res, st') \<and>
    (\<forall>a. dl_task a = te_task e \<longrightarrow> handle_dead_letter_alert tm (Reads (os_db st')) a = (False, []))"
proof -
  obtain res st' where "handle_task_message env e st = Some (res, st')"
      "get_dead_letter_reason (te_task e) (os_db st') = Some DEPENDENCY_DEAD_LETTERED_R"
    using blocked_task_dead_lettered[OF assms] by auto
  then show ?thesis by (auto simp: handle_dead_letter_alert_def describe_def Let_def)
qed

end
