(* ===== verification/Task_Witness.thy ===== *)
theory Task_Witness
  imports Task_Props Batch_Props Routing_Props
begin

text \<open>The properties of the task machine at concrete inputs: one loop of two tasks, the
second depending on the first, fired by event 3.\<close>

definition demo_env :: "handler option \<Rightarrow> orch_env" where
  "demo_env h = \<lparr>oe_table = (\<lambda>_. h), oe_send_ok = (\<lambda>_. True)\<rparr>"

definition demo_loop :: "string list \<Rightarrow> loop_definition" where
  "demo_loop deps = \<lparr>ld_loop = ''l'', ld_tasks =
     [\<lparr>lt_id = ''a'', lt_type = ''t'', lt_depends = [], lt_params = None\<rparr>,
      \<lparr>lt_id = ''b'', lt_type = ''t'', lt_depends = deps, lt_params = None\<rparr>]\<rparr>"

definition A :: nat where "A = 105737735483586837948828588501420163672"
definition B :: nat where "B = 56052245739600217798756569043577474399"

lemma uuid_a: "uuid5 3 ''a'' = A" by (simp add: uuid5_of_a A_def)
lemma uuid_b: "uuid5 3 ''b'' = B" by (simp add: uuid5_of_b B_def)
lemma AB: "A \<noteq> B" "B \<noteq> A" by (simp_all add: A_def B_def)

definition row_A :: task_row where
  "row_A = \<lparr>tk_id = A, tk_loop = ''l'', tk_type = ''t'', tk_state = DISPATCHABLE, tk_retry = 0,
     tk_vault_failed = 0, tk_depends = [], tk_result = None, tk_created = 0\<rparr>"

definition row_B :: "tid list \<Rightarrow> task_row" where
  "row_B deps = \<lparr>tk_id = B, tk_loop = ''l'', tk_type = ''t'', tk_state = PENDING, tk_retry = 0,
     tk_vault_failed = 0, tk_depends = deps, tk_result = None, tk_created = 0\<rparr>"

definition demo_st :: "orch_env \<Rightarrow> string list \<Rightarrow> orch_state" where
  "demo_st env deps = snd (handle_heartbeat_message env (\<lambda>_. None) (\<lambda>_. Some (demo_loop deps))
     \<lparr>hb_event = 3, hb_loop = ''l'', hb_fired = 0, hb_source = ''s''\<rparr> start_state)"

lemma demo_reach: "orch_reachable env (demo_st env deps)"
  unfolding demo_st_def by (intro r_into_rtranclp orch_step.heartbeat)

lemma demo_db:
  "deps \<noteq> [] \<Longrightarrow> set deps \<subseteq> {''a''} \<Longrightarrow>
   od_tasks (os_db (demo_st env deps)) = [row_A, row_B (map (\<lambda>_. A) deps)]"
proof -
  assume d: "deps \<noteq> []" "set deps \<subseteq> {''a''}"
  then have "map (uuid5 3) deps = map (\<lambda>_. A) deps" using uuid_a by (intro map_cong) auto
  then show ?thesis using d AB
    by (simp add: demo_st_def heartbeat_db demo_loop_def decompose_def uuid_a uuid_b insert_task_batch_def
        insert_task_def get_task_def start_state_def empty_orch_def row_A_def row_B_def tick_def)
qed

lemma demo_get:
  "get_task A (os_db (demo_st env [''a''])) = Some row_A"
  "get_task B (os_db (demo_st env [''a''])) = Some (row_B [A])"
  "get_task B (os_db (demo_st env [''a'', ''a''])) = Some (row_B [A, A])"
  using AB by (simp_all add: get_task_def demo_db row_A_def row_B_def)

lemma good_pass: "good_table (demo_env None)"
  by (simp add: good_table_def demo_env_def)

lemma failing_handler: "\<not> gate_error x \<Longrightarrow> task_handler (\<lambda>i e db. (Inl x, db))"
  by unfold_locales auto

lemma good_failing: "good_table (demo_env (Some (\<lambda>i e db. (Inl (DispatchError ''no''), db))))"
  using failing_handler[of "DispatchError ''no''"] by (simp add: good_table_def demo_env_def)

definition demo_msg :: "tid \<Rightarrow> nat \<Rightarrow> task_envelope" where
  "demo_msg i n = \<lparr>te_task = i, te_type = ''t'', te_run = 0, te_campaign = 0, te_created = 0, te_retry = n, te_metadata = None\<rparr>"

theorem status_history_faithful_witness:
  "\<exists>s. s \<in> set (fetch_all_task_status (os_db (demo_st (demo_env None) [''a'']))) \<and> ts_id s = B \<and>
     follows None (ts_history s) (Some PENDING) \<and> sorted_wrt (\<lambda>a b. tr_at a < tr_at b) (ts_history s)"
proof -
  let ?db = "os_db (demo_st (demo_env None) [''a''])"
  let ?s = "\<lparr>ts_id = B, ts_loop = ''l'', ts_type = ''t'', ts_state = PENDING, ts_retry = 0, ts_vault_failed = 0,
      ts_history = sort_key tr_at (filter (\<lambda>t. tr_task t = B) (od_transitions ?db))\<rparr>"
  have "?s \<in> set (fetch_all_task_status ?db)"
    unfolding fetch_all_task_status_def using demo_db[of "[''a'']" "demo_env None"]
    by (simp add: image_iff) (rule exI[of _ "row_B [A]"] disjI2 | simp add: row_B_def)+
  then show ?thesis using status_history_faithful[OF good_pass demo_reach, of ?s "[''a'']"] by fastforce
qed


theorem three_strikes_dead_letter_witness:
  "let env = demo_env (Some (\<lambda>i e db. (Inl (DispatchError ''no''), db))) in
   \<exists>st' a. handle_task_message env (demo_msg A 0) (demo_st env [''a'']) = Some (Inr (), st') \<and>
     task_state A (os_db st') = Some DEAD_LETTERED \<and> dl_failures a = 3 \<and>
     os_eventq st' = os_eventq (demo_st env [''a'']) @ [Alert a]"
proof -
  let ?env = "demo_env (Some (\<lambda>i e db. (Inl (DispatchError ''no''), db)))"
  have "oe_table ?env (te_type (demo_msg A 0)) = Some (\<lambda>i e db. (Inl (DispatchError ''no''), db))"
    by (simp add: demo_env_def)
  from three_strikes_dead_letter[OF good_failing demo_reach this, of "[''a'']" row_A]
  show ?thesis by (auto simp: demo_msg_def demo_get row_A_def demo_env_def Let_def)
qed


theorem giving_up_leaves_task_pending_witness:
  "\<exists>st'. handle_task_message (demo_env None) (demo_msg B 20) (demo_st (demo_env None) [''a'']) = Some (Inr (), st') \<and>
     task_state B (os_db st') = Some RETRY_PENDING \<and> os_eventq st' = os_eventq (demo_st (demo_env None) [''a''])"
proof -
  have "dispatch_refusal B (os_db (demo_st (demo_env None) [''a''])) = Some TaskNotReadyError"
    using AB by (simp add: dispatch_refusal_def demo_get row_B_def find_dead_lettered_dependency_def get_tasks_def
        demo_db[of "[''a'']"] row_A_def PERMANENTLY_BLOCKED_STATES_def)
  then show ?thesis
    using giving_up_leaves_task_pending[OF good_pass demo_reach, of "demo_msg B 20" "[''a'']" "row_B [A]"]
    by (simp add: demo_msg_def demo_get row_B_def NOT_READY_MAX_REQUEUES_def) blast
qed

theorem duplicate_dependency_never_runs_witness:
  "tk_state (row_B [A, A]) \<notin> {DISPATCHABLE, RUNNING, COMPLETED}"
  by (rule duplicate_dependency_never_runs[OF good_pass demo_reach demo_get(3)]) (simp add: row_B_def)

section \<open>After the first task\<close>

definition demo_pass_st :: orch_state where
  "demo_pass_st = snd (the (handle_task_message (demo_env None) (demo_msg A 0) (demo_st (demo_env None) [''a''])))"

lemmas txn_eval = and_then_def transition_def get_task_def set_state_def update_where_def tick_def
  advance_dependents_def advance_candidates_def completed_count_def row_A_def row_B_def

lemma demo_pass_tasks:
  "handle_task_message (demo_env None) (demo_msg A 0) (demo_st (demo_env None) [''a'']) = Some (Inr (), demo_pass_st)"
  "od_tasks (os_db demo_pass_st) = [row_A\<lparr>tk_state := COMPLETED\<rparr>, (row_B [A])\<lparr>tk_state := DISPATCHABLE\<rparr>]"
proof -
  let ?st = "demo_st (demo_env None) [''a'']"
  have "\<exists>st2. handle_task_message (demo_env None) (demo_msg A 0) ?st = Some (Inr (), st2) \<and>
      od_tasks (os_db st2) = [row_A\<lparr>tk_state := COMPLETED\<rparr>, (row_B [A])\<lparr>tk_state := DISPATCHABLE\<rparr>]"
    using AB
    by (simp add: handle_task_message_def on_db_def dispatch_task_def dispatch_refusal_def demo_msg_def demo_env_def
        legacy_task_pass_through_def txn_eval demo_db[unfolded txn_eval])
  then show "handle_task_message (demo_env None) (demo_msg A 0) ?st = Some (Inr (), demo_pass_st)"
    "od_tasks (os_db demo_pass_st) = [row_A\<lparr>tk_state := COMPLETED\<rparr>, (row_B [A])\<lparr>tk_state := DISPATCHABLE\<rparr>]"
    by (auto simp: demo_pass_st_def)
qed

lemma demo_pass_reach: "orch_reachable (demo_env None) demo_pass_st"
  using demo_reach orch_step.message[OF demo_pass_tasks(1)] by (rule rtranclp.rtrancl_into_rtrancl)

lemma demo_pass_get:
  "get_task A (os_db demo_pass_st) = Some (row_A\<lparr>tk_state := COMPLETED\<rparr>)"
  "get_task B (os_db demo_pass_st) = Some ((row_B [A])\<lparr>tk_state := DISPATCHABLE\<rparr>)"
  using AB by (simp_all add: get_task_def demo_pass_tasks(2) row_A_def row_B_def)



definition demo_dead_st :: orch_state where
  "demo_dead_st = (let f = (\<lambda>st. snd (reconcile_redelivered_task (demo_env None) (Some A) st))
     in f (f (f (demo_st (demo_env None) [''a'']))))"

lemma demo_dead_reach: "orch_reachable (demo_env None) demo_dead_st"
proof -
  have again: "orch_reachable (demo_env None) st \<Longrightarrow>
      orch_reachable (demo_env None) (snd (reconcile_redelivered_task (demo_env None) (Some A) st))" for st
    using orch_step.redelivered[of "demo_env None" st "Some A"] by (rule rtranclp.rtrancl_into_rtrancl[rotated])
  show ?thesis unfolding demo_dead_st_def Let_def by (intro again demo_reach)
qed

lemma demo_dead_tasks:
  "od_tasks (os_db demo_dead_st) = [row_A\<lparr>tk_state := DEAD_LETTERED, tk_retry := 3\<rparr>, row_B [A]]"
  using AB
  by (simp add: demo_dead_st_def Let_def reconcile_redelivered_task_def record_failure_def on_db_def increment_retry_def
      emit_alert_def publish_alert_def demo_env_def txn_eval demo_db[unfolded txn_eval])

theorem blocked_task_cascades_witness:
  "\<exists>res st'. handle_task_message (demo_env None) (demo_msg B 0) demo_dead_st = Some (res, st') \<and>
     get_dead_letter_reason B (os_db st') = Some DEPENDENCY_DEAD_LETTERED_R"
proof -
  have "get_task (te_task (demo_msg B 0)) (os_db demo_dead_st) = Some (row_B [A])"
    using AB by (simp add: get_task_def demo_dead_tasks demo_msg_def row_A_def row_B_def)
  moreover have "task_state A (os_db demo_dead_st) \<in> {Some DEAD_LETTERED, Some FAILED}"
    by (simp add: task_state_def get_task_def demo_dead_tasks row_A_def)
  ultimately show ?thesis
    using blocked_task_cascades[OF good_pass demo_dead_reach, of "demo_msg B 0" "row_B [A]" A]
    by (simp add: row_B_def demo_msg_def) blast
qed

section \<open>Two replicas\<close>

definition race_task :: "tid \<Rightarrow> tid list \<Rightarrow> new_task" where
  "race_task i deps = \<lparr>nt_id = i, nt_type = ''t'', nt_depends = deps, nt_loop = ''l'', nt_source = ''s'', nt_params = None\<rparr>"

definition race_batch :: orch_db where
  "race_batch = insert_task_batch [race_task 1 [], race_task 2 [], race_task 3 [1, 2]] empty_orch"

definition race_db :: orch_db where
  "race_db = snd (transition 2 COMPLETED COMPLETED_R (snd (transition 1 COMPLETED COMPLETED_R race_batch)))"

lemma race_inv: "store_inv race_db"
proof -
  have 0: "store_inv race_batch"
    using insert_batch_ok(1)[of empty_orch] orch_inv_start by (simp add: race_batch_def start_state_def orch_inv_def)
  let ?d = "snd (transition 1 COMPLETED COMPLETED_R race_batch)"
  have "\<exists>r. get_task 1 race_batch = Some r \<and> tk_state r = DISPATCHABLE \<and> tk_depends r = []"
    by (simp add: race_batch_def insert_task_batch_def insert_task_get race_task_def empty_orch_def get_task_def
        insert_task_def tick_def)
  then have 1: "store_inv ?d" using transition_ok[OF 0] by (auto simp: deps_done_def)
  have "\<exists>r. get_task 2 ?d = Some r \<and> tk_state r = DISPATCHABLE \<and> tk_depends r = []"
    by (simp add: race_batch_def insert_task_batch_def race_task_def empty_orch_def get_task_def
        insert_task_def tick_def transition_def set_state_def update_where_def)
  then show ?thesis unfolding race_db_def using transition_ok[OF 1] by (auto simp: deps_done_def)
qed

lemma race_candidates: "3 \<in> set (advance_candidates 1 race_db)" "3 \<in> set (advance_candidates 2 race_db)"
  by (simp_all add: race_db_def race_batch_def insert_task_batch_def race_task_def empty_orch_def get_task_def
        insert_task_def tick_def transition_def set_state_def update_where_def advance_candidates_def completed_count_def)

theorem racing_advance_reopens_task_witness:
  "task_state 3 (snd (advance_each (advance_candidates 2 race_db)
     (snd (legacy_task_pass_through 3 (snd (advance_dependents 1 race_db)))))) = Some DISPATCHABLE"
  using racing_advance_reopens_task[OF race_inv race_candidates] by simp


section \<open>A batch\<close>

text \<open>The properties of a batch at a concrete input: the loop of two tasks, fired by
event 3 on the empty database.\<close>

definition demo_hb :: heartbeat_event where
  "demo_hb = \<lparr>hb_event = 3, hb_loop = ''l'', hb_fired = 0, hb_source = ''s''\<rparr>"

lemma demo_valid: "validate_loop_file (demo_loop [''a'']) = Inr (demo_loop [''a''])"
proof -
  have l: "load_loop (demo_loop [''a'']) = Inr (demo_loop [''a''])"
    by (simp add: load_loop_def demo_loop_def loop_ids_def unknown_dependency_def)
  have e: "loop_edges (demo_loop [''a'']) = {(''a'', ''b'')}"
  proof
    show "{(''a'', ''b'')} \<subseteq> loop_edges (demo_loop [''a''])"
      by (auto simp: loop_edges_def demo_loop_def intro!: exI[of _ "ld_tasks (demo_loop [''a'']) ! 1"])
  qed (auto simp: loop_edges_def demo_loop_def)
  have "acyclic (loop_edges (demo_loop [''a'']))"
    unfolding e by (simp add: acyclic_def trancl_insert)
  then show ?thesis using check_acyclic_iff[OF l] l by (simp add: validate_loop_file_def)
qed

lemma demo_ids: "loop_ids (demo_loop deps) = [''a'', ''b'']"
  by (simp add: loop_ids_def demo_loop_def)

lemma start_empty [simp]: "get_task i (os_db start_state) = None"
  by (simp add: start_state_def empty_orch_def get_task_def)

theorem heartbeat_is_idempotent_witness:
  "\<exists>st. od_tasks (os_db st) \<noteq> [] \<and>
    od_tasks (os_db (snd (handle_heartbeat_message (demo_env None) (\<lambda>_. None) (\<lambda>_. Some (demo_loop [''a''])) demo_hb st))) = od_tasks (os_db st)"
proof -
  let ?st = "demo_st (demo_env None) [''a'']"
  have "?st = snd (handle_heartbeat_message (demo_env None) (\<lambda>_. None) (\<lambda>_. Some (demo_loop [''a''])) demo_hb start_state)"
    by (simp add: demo_st_def demo_hb_def)
  then have "od_tasks (os_db (snd (handle_heartbeat_message (demo_env None) (\<lambda>_. None) (\<lambda>_. Some (demo_loop [''a''])) demo_hb ?st))) = od_tasks (os_db ?st)"
    using heartbeat_is_idempotent[of "\<lambda>_. Some (demo_loop [''a''])" demo_hb, OF refl _ refl] by blast
  then show ?thesis using demo_db[of "[''a'']" "demo_env None"] by (intro exI[of _ ?st]) simp
qed



section \<open>Walks\<close>

text \<open>The properties of the walks at a chain of three tasks of which only the first
has a result.\<close>

definition chain_row :: "tid \<Rightarrow> tid list \<Rightarrow> json option \<Rightarrow> task_row" where
  "chain_row i deps res = \<lparr>tk_id = i, tk_loop = ''l'', tk_type = ''t'', tk_state = COMPLETED, tk_retry = 0,
     tk_vault_failed = 0, tk_depends = deps, tk_result = res, tk_created = 0\<rparr>"

definition chain_db :: orch_db where
  "chain_db = empty_orch\<lparr>od_tasks := [chain_row 1 [] (Some (JInt 7)), chain_row 2 [1] None, chain_row 3 [2] None]\<rparr>"

lemma chain_resolves: "resolve_lineage_result 3 chain_db = Some (chain_row 1 [] (Some (JInt 7)), JInt 7)"
  by (simp add: resolve_lineage_result_def LINEAGE_HOPS_def chain_db_def get_task_def chain_row_def eval_nat_numeral)

theorem lineage_finds_nearest_witness:
  "\<exists>m\<le>5. (3, 1) \<in> dep_rel chain_db ^^ m \<and> (\<forall>a\<in>closer (dep_rel chain_db) 3 m. no_hit 3 chain_db a)"
proof -
  obtain m j where "m \<le> 5" "(3, j) \<in> dep_rel chain_db ^^ m" "get_task j chain_db = Some (chain_row 1 [] (Some (JInt 7)))"
      "\<forall>a\<in>closer (dep_rel chain_db) 3 m. no_hit 3 chain_db a"
    using lineage_finds_nearest[where i=3 and db=chain_db] chain_resolves by auto
  moreover from this(3) have "j = 1" using get_task_id[of j chain_db] by (simp add: chain_row_def)
  ultimately show ?thesis by auto
qed

lemma chain_downstream: "downstream 1 chain_db = (2, [(''t'', 2)])"
  by code_simp

theorem downstream_counts_closure_witness:
  "card ((blocks chain_db)\<^sup>+ `` {1} - {1}) = 2"
proof -
  have "distinct (map tk_id (od_tasks chain_db))" by (simp add: chain_db_def chain_row_def)
  from downstream_counts_closure[OF this, of 1] show ?thesis by (simp add: chain_downstream[simplified] MAX_DOWNSTREAM_def)
qed

theorem cascade_posts_no_card_witness:
  "\<exists>res st'. handle_task_message (demo_env None) (demo_msg B 0) demo_dead_st = Some (res, st') \<and>
     handle_dead_letter_alert \<lparr>tm_webhook = Some ''https://teams'', tm_console = None\<rparr> (Reads (os_db st'))
       \<lparr>dl_task = B, dl_type = ''t'', dl_loop = ''l'', dl_failures = 0, dl_at = 0\<rparr> = (False, [])"
proof -
  have "get_task (te_task (demo_msg B 0)) (os_db demo_dead_st) = Some (row_B [A])"
    using AB by (simp add: get_task_def demo_dead_tasks demo_msg_def row_A_def row_B_def)
  moreover have "task_state A (os_db demo_dead_st) \<in> {Some DEAD_LETTERED, Some FAILED}"
    by (simp add: task_state_def get_task_def demo_dead_tasks row_A_def)
  ultimately show ?thesis
    using cascade_posts_no_card[OF good_pass demo_dead_reach, of "demo_msg B 0" "row_B [A]" A
        "\<lparr>tm_webhook = Some ''https://teams'', tm_console = None\<rparr>"]
    by (simp add: row_B_def demo_msg_def) fastforce
qed

end
