(* ===== verification/Completion_Policy.thy ===== *)
theory Completion_Policy
  imports Complex_Main CMOS_Prelude Py_Json
begin

text \<open>The policies of the model gateway (services/model-gateway): routing.py, budget.py,
metering.py and redaction.py. The three YAML documents are arguments, already parsed.
Money is rational: the rounding of a Python float below the sixth decimal is not
modelled, the rounding to six decimals is.\<close>

definition py_sorted :: "string list \<Rightarrow> string list" where
  "py_sorted xs = map fst (sort_kvs (map (\<lambda>x. (x, ())) xs))"

section \<open>Routing\<close>

record route_decision =
  rd_model :: string
  rd_tier :: string
  rd_provider :: string
  rd_provider_model :: string

type_synonym routes = "(string \<times> route_decision) list"

text \<open>One entry of the document; a missing key raises. An id that occurs twice in the
YAML mapping keeps its last entry.\<close>

definition route_of :: "string \<Rightarrow> json \<Rightarrow> route_decision option" where
  "route_of name e =
    (case e of
       JObj kvs \<Rightarrow>
         (case (jget kvs ''tier'', jget kvs ''provider'', jget kvs ''provider_model'') of
            (Some (JStr t), Some (JStr p), Some (JStr pm)) \<Rightarrow>
              Some \<lparr>rd_model = name, rd_tier = t, rd_provider = p, rd_provider_model = pm\<rparr>
          | _ \<Rightarrow> None)
     | _ \<Rightarrow> None)"

fun load_routes :: "(string \<times> json) list \<Rightarrow> routes option" where
  "load_routes [] = Some []"
| "load_routes ((name, e) # es) =
    (case (route_of name e, load_routes es) of
       (Some r, Some rs) \<Rightarrow> Some ((name, r) # rs)
     | _ \<Rightarrow> None)"

definition known_models :: "routes \<Rightarrow> string list" where
  "known_models rs = py_sorted (map fst rs)"

definition unknown_model_message :: "routes \<Rightarrow> string" where
  "unknown_model_message rs =
    ''unknown model identifier; configured models: '' @
    (let t = join_with '', '' (known_models rs) in if t = [] then ''<none>'' else t)"

definition resolve :: "routes \<Rightarrow> string \<Rightarrow> route_decision option" where
  "resolve rs model = map_of rs model"

definition resolve_by_tier :: "routes \<Rightarrow> string \<Rightarrow> route_decision option" where
  "resolve_by_tier rs tier =
    Option.bind (List.find (\<lambda>n. map_option rd_tier (map_of rs n) = Some tier) (known_models rs)) (map_of rs)"

section \<open>Budget\<close>

datatype budget_state = Ok_State | Soft_Breach | Hard_Breach

fun budget_text :: "budget_state \<Rightarrow> string" where
  "budget_text Ok_State = ''ok''"
| "budget_text Soft_Breach = ''soft_breach''"
| "budget_text Hard_Breach = ''hard_breach''"

record budget_entry =
  be_limit :: "rat option"
  be_ratio :: "rat option"

record budget_policy =
  bp_default :: budget_entry
  bp_agents :: "(string \<times> budget_entry) list"
  bp_downgrade :: "(string \<times> string) list"

definition limits_for :: "budget_policy \<Rightarrow> string \<Rightarrow> rat \<times> rat" where
  "limits_for p agent =
    (let ov = (case map_of (bp_agents p) agent of Some e \<Rightarrow> e | None \<Rightarrow> \<lparr>be_limit = None, be_ratio = None\<rparr>);
         d = (\<lambda>v w c. case v of Some x \<Rightarrow> x | None \<Rightarrow> (case w of Some y \<Rightarrow> y | None \<Rightarrow> c))
     in (d (be_limit ov) (be_limit (bp_default p)) 20, d (be_ratio ov) (be_ratio (bp_default p)) (4 / 5)))"

definition downgrade_tier :: "budget_policy \<Rightarrow> string \<Rightarrow> string" where
  "downgrade_tier p tier = (case map_of (bp_downgrade p) tier of Some t \<Rightarrow> t | None \<Rightarrow> tier)"

definition apply_budget :: "budget_policy \<Rightarrow> string \<Rightarrow> rat \<Rightarrow> string \<Rightarrow> string \<times> budget_state" where
  "apply_budget p agent spend tier =
    (case limits_for p agent of
       (limit, ratio) \<Rightarrow>
         if spend \<ge> limit then (tier, Hard_Breach)
         else if spend \<ge> limit * ratio then (downgrade_tier p tier, Soft_Breach)
         else (tier, Ok_State))"

section \<open>Metering\<close>

record pricing =
  pr_tiers :: "(string \<times> rat \<times> rat) list"
  pr_default :: "rat \<times> rat"

text \<open>round(x, 6), half to even.\<close>

definition round6 :: "rat \<Rightarrow> rat" where
  "round6 x =
    (let y = x * 1000000; f = \<lfloor>y\<rfloor>; d = y - of_int f;
         n = (if d < 1 / 2 then f else if d > 1 / 2 then f + 1 else if even f then f else f + 1)
     in of_int n / 1000000)"

definition estimate_usd :: "pricing \<Rightarrow> string \<Rightarrow> nat \<Rightarrow> nat \<Rightarrow> rat" where
  "estimate_usd p tier input output =
    (let (i, ou) = (case map_of (pr_tiers p) tier of Some q \<Rightarrow> q | None \<Rightarrow> pr_default p)
     in round6 ((rat_of_nat input * i + rat_of_nat output * ou) / 1000000))"

section \<open>Redaction\<close>

text \<open>A compiled pattern is its id and the search it performs. The regular expressions of
the rules file are arguments; a fixture is a literal searched for without regard to case.\<close>

type_synonym patterns = "(string \<times> (string \<Rightarrow> bool)) list"

fun occurs_in :: "string \<Rightarrow> string \<Rightarrow> bool" where
  "occurs_in w [] = (w = [])"
| "occurs_in w (c # cs) = (take (length w) (c # cs) = w \<or> occurs_in w cs)"

text \<open>The fixtures block: a mapping of groups to lists (or to one value), or a bare list.\<close>

record redaction_rules =
  rr_patterns :: patterns
  rr_fixtures :: "(string \<times> string list) list"

definition fixture_entries :: "(string \<times> string list) list \<Rightarrow> (string \<times> nat \<times> string) list" where
  "fixture_entries fixtures =
    concat (map (\<lambda>(group, members). map (\<lambda>(i, v). (group, i, v)) (List.enumerate 0 members)) fixtures)"

definition compile_rules :: "redaction_rules \<Rightarrow> patterns" where
  "compile_rules rules =
    rr_patterns rules @
    map (\<lambda>(group, i, v). (''fixture:'' @ group @ '':'' @ nat_str i, \<lambda>t. occurs_in (py_lower v) (py_lower t)))
      (filter (\<lambda>(group, i, v). py_strip v \<noteq> []) (fixture_entries (rr_fixtures rules)))"

definition first_match :: "string \<Rightarrow> patterns \<Rightarrow> string option" where
  "first_match t ps = map_option fst (List.find (\<lambda>(i, m). m t) ps)"

text \<open>json.dumps with sort_keys and the default separators.\<close>

fun dump_spaced :: "(string \<Rightarrow> string) \<Rightarrow> json \<Rightarrow> string"
and dump_items :: "(string \<Rightarrow> string) \<Rightarrow> json list \<Rightarrow> string"
and dump_members :: "(string \<Rightarrow> string) \<Rightarrow> (string \<times> json) list \<Rightarrow> string" where
  "dump_spaced fr JNull = ''null''"
| "dump_spaced fr (JBool b) = (if b then ''true'' else ''false'')"
| "dump_spaced fr (JInt i) = int_str i"
| "dump_spaced fr (JFloat l) = fr l"
| "dump_spaced fr (JStr s) = dump_str s"
| "dump_spaced fr (JArr xs) = ''['' @ dump_items fr xs @ '']''"
| "dump_spaced fr (JObj kvs) = CHR 0x7B # dump_members fr kvs @ [CHR 0x7D]"
| "dump_items fr [] = []"
| "dump_items fr (x # xs) = dump_spaced fr x @ (if xs = [] then [] else '', '' @ dump_items fr xs)"
| "dump_members fr [] = []"
| "dump_members fr ((k, v) # kvs) =
    dump_str k @ '': '' @ dump_spaced fr v @ (if kvs = [] then [] else '', '' @ dump_members fr kvs)"

definition as_text :: "(string \<Rightarrow> string) \<Rightarrow> json \<Rightarrow> string" where
  "as_text fr v = (case v of JStr s \<Rightarrow> s | _ \<Rightarrow> dump_spaced fr (sort_deep v))"

text \<open>What is scanned, in order: the content of each message whose role is not system
(an absent or null content is skipped), then the tools as one text.\<close>

definition message_text :: "(string \<Rightarrow> string) \<Rightarrow> json \<Rightarrow> string option" where
  "message_text fr m =
    (case m of
       JObj kvs \<Rightarrow>
         (if jget kvs ''role'' = Some (JStr ''system'') then None
          else (case jget kvs ''content'' of
                  None \<Rightarrow> None | Some JNull \<Rightarrow> None | Some c \<Rightarrow> Some (as_text fr c)))
     | JNull \<Rightarrow> None
     | v \<Rightarrow> Some (as_text fr v))"

definition scanned_texts :: "(string \<Rightarrow> string) \<Rightarrow> (string \<times> json) list \<Rightarrow> string list" where
  "scanned_texts fr payload =
    (case jget payload ''messages'' of Some (JArr ms) \<Rightarrow> List.map_filter (message_text fr) ms | _ \<Rightarrow> []) @
    (case jget payload ''tools'' of
       Some t \<Rightarrow> if jtruth t then [as_text fr t] else [] | None \<Rightarrow> [])"

text \<open>The test of the code is the truth of the id, so an empty id does not block.\<close>

fun first_hit :: "patterns \<Rightarrow> string list \<Rightarrow> string option" where
  "first_hit ps [] = None"
| "first_hit ps (t # ts) = (if truthy (first_match t ps) then first_match t ps else first_hit ps ts)"

text \<open>The result is the id of the pattern that blocks, if one does.\<close>

definition scan_request ::
    "(string \<Rightarrow> string) \<Rightarrow> redaction_rules \<Rightarrow> string set \<Rightarrow> (string \<times> json) list \<Rightarrow> string option" where
  "scan_request fr rules exempt payload =
    first_hit (filter (\<lambda>(i, m). i \<notin> exempt) (compile_rules rules)) (scanned_texts fr payload)"

lemma first_match_None: "first_match t ps = None \<longleftrightarrow> (\<forall>(i, m)\<in>set ps. \<not> m t)"
  by (auto simp: first_match_def find_None_iff)

lemma first_match_Some: "first_match t ps = Some i \<Longrightarrow> \<exists>m. (i, m) \<in> set ps \<and> m t"
  by (auto simp: first_match_def find_Some_iff) (metis nth_mem)

lemma first_hit_Some: "first_hit ps ts = Some i \<Longrightarrow> i \<noteq> [] \<and> (\<exists>t\<in>set ts. \<exists>m. (i, m) \<in> set ps \<and> m t)"
  by (induction ts) (auto simp: truthy_iff dest: first_match_Some split: if_splits)

lemma first_hit_None:
  assumes "\<forall>(i, m)\<in>set ps. i \<noteq> []"
  shows "first_hit ps ts = None \<longleftrightarrow> (\<forall>t\<in>set ts. \<forall>(i, m)\<in>set ps. \<not> m t)"
proof (induction ts)
  case (Cons t ts)
  show ?case
  proof (cases "first_match t ps")
    case None
    then show ?thesis using Cons first_match_None[of t ps] by (simp add: truthy_iff)
  next
    case (Some i)
    with first_match_Some assms have "i \<noteq> []" by fastforce
    then show ?thesis using Some first_match_None[of t ps] by (auto simp: truthy_iff)
  qed
qed simp

end
