(* ===== verification/Completion.thy ===== *)
theory Completion
  imports Completion_Policy
begin

text \<open>POST /v1/completions of the model gateway: the repository (db.py, gate_decisions.py),
the provider registry and the Anthropic adapter (providers), the task_ref cache as one
request sees it (caching.py) and the orchestration of completion.py and main.py. Every
SQL statement is a transaction that succeeds or fails as the environment says for its
position; a provider answers,
fails with an HTTP status or raises as the environment says for the position of the call. Log lines and
telemetry have no effect in the model.\<close>

record gw_cost =
  co_id :: nat
  co_run :: string
  co_provider :: string
  co_unit :: string
  co_amount :: rat
  co_at :: instant

record gw_gate =
  gg_id :: nat
  gg_run :: string
  gg_by :: string
  gg_outcome :: string
  gg_reason :: string

record provider_call =
  pc_provider :: string
  pc_model :: string
  pc_messages :: "json list"
  pc_max_tokens :: int
  pc_temperature :: json
  pc_tools :: "json option"

record provider_result =
  pv_content :: string
  pv_input :: nat
  pv_output :: nat
  pv_stop :: "string option"

type_synonym obj = "(string \<times> json) list"

text \<open>The tables the gateway uses (agent_runs as a map from id to agent_name), the calls
made to providers, and the counters of statements and identifiers.\<close>

record gw_state =
  gs_runs :: "(string \<times> string) list"
  gs_costs :: "gw_cost list"
  gs_gates :: "gw_gate list"
  gs_cache :: "(string \<times> obj) list"
  gs_calls :: "provider_call list"
  gs_next :: nat
  gs_stmts :: nat

record gw_env =
  gx_routes :: routes
  gx_budget :: budget_policy
  gx_pricing :: pricing
  gx_rules :: redaction_rules
  gx_deliberate :: bool
  gx_render :: "string \<Rightarrow> string"
  gx_num :: "string \<Rightarrow> rat"
  gx_violation :: "obj \<Rightarrow> string"
  gx_db_ok :: "nat \<Rightarrow> bool"
  gx_registered :: "string list"
  gx_provider :: "nat \<Rightarrow> provider_call \<Rightarrow> nat option + provider_result"
  gx_uuid :: "nat \<Rightarrow> string"
  gx_clock :: "nat \<Rightarrow> instant"
  gx_today :: "nat \<Rightarrow> instant"
  gx_latency :: "nat \<Rightarrow> rat"

text \<open>\<open>HttpStatus\<close> is an HTTP error of the provider, \<open>Raises\<close> any other exception.\<close>

datatype gw_error = Raises string | HttpStatus nat | BudgetHardBreach obj

type_synonym 'a gw = "gw_state \<Rightarrow> (gw_error + 'a) \<times> gw_state"

definition gw_bind :: "'a gw \<Rightarrow> ('a \<Rightarrow> 'b gw) \<Rightarrow> 'b gw" where
  "gw_bind m f st = (case m st of (Inl e, st') \<Rightarrow> (Inl e, st') | (Inr a, st') \<Rightarrow> f a st')"

section \<open>The repository\<close>

definition statement :: "gw_env \<Rightarrow> (gw_state \<Rightarrow> 'a \<times> gw_state) \<Rightarrow> 'a gw" where
  "statement env run st =
    (let st' = st\<lparr>gs_stmts := gs_stmts st + 1\<rparr>
     in if gx_db_ok env (gs_stmts st) then (case run st' of (a, st'') \<Rightarrow> (Inr a, st''))
        else (Inl (Raises ''OperationalError''), st'))"

definition get_agent_name :: "gw_env \<Rightarrow> string \<Rightarrow> string gw" where
  "get_agent_name env run =
    gw_bind (statement env (\<lambda>st. (map_of (gs_runs st) run, st)))
      (\<lambda>r st. case r of Some a \<Rightarrow> (Inr a, st) | None \<Rightarrow> (Inl (Raises ''ValueError''), st))"

definition daily_spend :: "gw_env \<Rightarrow> string \<Rightarrow> gw_state \<Rightarrow> rat" where
  "daily_spend env agent st =
    sum_list (map co_amount (filter (\<lambda>c. map_of (gs_runs st) (co_run c) = Some agent \<and> co_unit c = ''usd'' \<and>
                                         gx_today env (gs_stmts st) \<le> co_at c) (gs_costs st)))"

definition get_daily_spend :: "gw_env \<Rightarrow> string \<Rightarrow> rat gw" where
  "get_daily_spend env agent = statement env (\<lambda>st. (daily_spend env agent st, st))"

definition insert_cost :: "gw_env \<Rightarrow> string \<Rightarrow> string \<Rightarrow> string \<Rightarrow> rat \<Rightarrow> nat gw" where
  "insert_cost env run provider unit amount =
    statement env (\<lambda>st. (gs_next st, st\<lparr>gs_next := gs_next st + 1, gs_costs := gs_costs st @
      [\<lparr>co_id = gs_next st, co_run = run, co_provider = provider, co_unit = unit, co_amount = amount,
        co_at = gx_clock env (gs_stmts st)\<rparr>]\<rparr>))"

definition insert_costs_rows :: "gw_env \<Rightarrow> string \<Rightarrow> string \<Rightarrow> rat \<Rightarrow> nat \<Rightarrow> rat \<Rightarrow> string gw" where
  "insert_costs_rows env run provider usd tokens ms =
    gw_bind (insert_cost env run provider ''usd'' usd) (\<lambda>i.
      gw_bind (insert_cost env run provider ''tokens'' (of_nat tokens)) (\<lambda>_.
        gw_bind (insert_cost env run provider ''ms'' ms) (\<lambda>_ st. (Inr (gx_uuid env i), st))))"

definition REDACTION_GATE_DECIDER :: string where
  "REDACTION_GATE_DECIDER = ''system:model-gateway:redaction-firewall''"

definition BUDGET_GATE_DECIDER :: string where
  "BUDGET_GATE_DECIDER = ''system:model-gateway:budget-gate''"

text \<open>The row references agent_runs, so an unknown run breaks the foreign key.\<close>

definition insert_gate_row :: "gw_env \<Rightarrow> string \<Rightarrow> string \<Rightarrow> string \<Rightarrow> string \<Rightarrow> string gw" where
  "insert_gate_row env run decided_by outcome reason =
    (if run = [] then (\<lambda>st. (Inl (Raises ''ValueError''), st))
     else gw_bind (statement env (\<lambda>st.
            if map_of (gs_runs st) run = None then (None, st)
            else (Some (gs_next st), st\<lparr>gs_next := gs_next st + 1, gs_gates := gs_gates st @
                   [\<lparr>gg_id = gs_next st, gg_run = run, gg_by = decided_by, gg_outcome = outcome, gg_reason = reason\<rparr>]\<rparr>)))
          (\<lambda>r st. case r of Some i \<Rightarrow> (Inr (gx_uuid env i), st) | None \<Rightarrow> (Inl (Raises ''ForeignKeyViolation''), st)))"

section \<open>Providers\<close>

definition get_provider :: "gw_env \<Rightarrow> string \<Rightarrow> unit gw" where
  "get_provider env name st = (if name \<in> set (gx_registered env) then (Inr (), st) else (Inl (Raises ''ValueError''), st))"

definition provider_complete :: "gw_env \<Rightarrow> provider_call \<Rightarrow> provider_result gw" where
  "provider_complete env c st =
    (let st' = st\<lparr>gs_calls := gs_calls st @ [c]\<rparr>
     in case gx_provider env (length (gs_calls st)) c of
          Inl (Some n) \<Rightarrow> (Inl (HttpStatus n), st')
        | Inl None \<Rightarrow> (Inl (Raises ''ProviderError''), st')
        | Inr r \<Rightarrow> (Inr r, st'))"

text \<open>The Anthropic adapter: the request body it sends for a call, and the result it
reads from the answer.\<close>

definition role_of :: "json \<Rightarrow> json option" where
  "role_of m = (case m of JObj kvs \<Rightarrow> jget kvs ''role'' | _ \<Rightarrow> None)"

definition content_text :: "json \<Rightarrow> string" where
  "content_text m = (case m of JObj kvs \<Rightarrow> (case jget kvs ''content'' of Some (JStr s) \<Rightarrow> s | _ \<Rightarrow> []) | _ \<Rightarrow> [])"

definition split_system_prompt :: "json list \<Rightarrow> string option \<times> json list" where
  "split_system_prompt messages =
    (let parts = filter (\<lambda>t. t \<noteq> []) (map content_text (filter (\<lambda>m. role_of m = Some (JStr ''system'')) messages));
         t = join_with [CHR 0x0A, CHR 0x0A] parts
     in (if t = [] then None else Some t, filter (\<lambda>m. role_of m \<noteq> Some (JStr ''system'')) messages))"

definition anthropic_body :: "provider_call \<Rightarrow> json" where
  "anthropic_body c =
    (case split_system_prompt (pc_messages c) of
       (system, conversation) \<Rightarrow>
         JObj ([(''model'', JStr (pc_model c)), (''max_tokens'', JInt (pc_max_tokens c)),
                (''temperature'', pc_temperature c), (''messages'', JArr conversation)] @
               (case system of Some t \<Rightarrow> [(''system'', JStr t)] | None \<Rightarrow> []) @
               (case pc_tools c of Some t \<Rightarrow> if jtruth t then [(''tools'', t)] else [] | None \<Rightarrow> [])))"

definition block_text :: "json \<Rightarrow> string" where
  "block_text b =
    (case b of
       JObj kvs \<Rightarrow> if jget kvs ''type'' = Some (JStr ''text'')
                   then (case jget kvs ''text'' of Some (JStr t) \<Rightarrow> t | _ \<Rightarrow> []) else []
     | _ \<Rightarrow> [])"

definition usage_count :: "obj \<Rightarrow> string \<Rightarrow> nat" where
  "usage_count data k =
    (case jget data ''usage'' of
       Some (JObj u) \<Rightarrow> (case jget u k of Some (JInt n) \<Rightarrow> nat n | _ \<Rightarrow> 0)
     | _ \<Rightarrow> 0)"

definition parse_anthropic :: "obj \<Rightarrow> provider_result" where
  "parse_anthropic data =
    \<lparr>pv_content = concat (map block_text (case jget data ''content'' of Some (JArr bs) \<Rightarrow> bs | _ \<Rightarrow> [])),
     pv_input = usage_count data ''input_tokens'', pv_output = usage_count data ''output_tokens'',
     pv_stop = (case jget data ''stop_reason'' of Some (JStr t) \<Rightarrow> Some t | _ \<Rightarrow> None)\<rparr>"

end
