(* ===== verification/Completion_Handler.thy ===== *)
theory Completion_Handler
  imports Completion
begin

text \<open>completion.py and main.py of the model gateway: the request schema of
contracts/model-gateway/openapi.yaml, the stages of handle_completion in their order, and
the answer of the route. The text of a schema violation is an argument.\<close>

definition DEFAULT_MAX_TOKENS :: int where
  "DEFAULT_MAX_TOKENS = 1024"

definition CONTENT_CLASS_PATTERN_EXEMPTIONS :: "string \<Rightarrow> string set option" where
  "CONTENT_CLASS_PATTERN_EXEMPTIONS c = (if c = ''public_source_content'' then Some {''full-name-like''} else None)"

section \<open>The request schema\<close>

definition is_str :: "json option \<Rightarrow> bool" where
  "is_str v = (case v of Some (JStr s) \<Rightarrow> True | _ \<Rightarrow> False)"

definition num_of :: "gw_env \<Rightarrow> json \<Rightarrow> rat option" where
  "num_of env v = (case v of JInt i \<Rightarrow> Some (of_int i) | JFloat l \<Rightarrow> Some (gx_num env l) | _ \<Rightarrow> None)"

definition message_ok :: "json \<Rightarrow> bool" where
  "message_ok m =
    (case m of
       JObj kvs \<Rightarrow> jget kvs ''role'' \<in> Some ` JStr ` {''system'', ''user'', ''assistant'', ''tool''} \<and> is_str (jget kvs ''content'')
     | _ \<Rightarrow> False)"

definition max_tokens_ok :: "gw_env \<Rightarrow> json \<Rightarrow> bool" where
  "max_tokens_ok env v = (case num_of env v of Some n \<Rightarrow> of_int \<lfloor>n\<rfloor> = n \<and> 1 \<le> n | None \<Rightarrow> False)"

definition temperature_ok :: "gw_env \<Rightarrow> json \<Rightarrow> bool" where
  "temperature_ok env v = (case num_of env v of Some n \<Rightarrow> 0 \<le> n \<and> n \<le> 2 | None \<Rightarrow> False)"

definition tools_ok :: "json \<Rightarrow> bool" where
  "tools_ok v = (case v of JArr ts \<Rightarrow> (\<forall>t\<in>set ts. case t of JObj kvs \<Rightarrow> True | _ \<Rightarrow> False) | _ \<Rightarrow> False)"

definition optional_ok :: "(json \<Rightarrow> bool) \<Rightarrow> json option \<Rightarrow> bool" where
  "optional_ok p v = (case v of None \<Rightarrow> True | Some x \<Rightarrow> p x)"

definition valid_request :: "gw_env \<Rightarrow> obj \<Rightarrow> bool" where
  "valid_request env payload \<longleftrightarrow>
     is_str (jget payload ''model'') \<and> is_str (jget payload ''agent_run_id'') \<and>
     (case jget payload ''messages'' of Some (JArr ms) \<Rightarrow> ms \<noteq> [] \<and> (\<forall>m\<in>set ms. message_ok m) | _ \<Rightarrow> False) \<and>
     optional_ok (max_tokens_ok env) (jget payload ''max_tokens'') \<and>
     optional_ok (temperature_ok env) (jget payload ''temperature'') \<and>
     optional_ok tools_ok (jget payload ''tools'')"

definition validate_request :: "gw_env \<Rightarrow> obj \<Rightarrow> string option" where
  "validate_request env payload = (if valid_request env payload then None else Some (gx_violation env payload))"

section \<open>Reading the payload\<close>

definition str_field :: "obj \<Rightarrow> string \<Rightarrow> string" where
  "str_field payload k = (case jget payload k of Some (JStr s) \<Rightarrow> s | _ \<Rightarrow> [])"

definition messages_of :: "obj \<Rightarrow> json list" where
  "messages_of payload = (case jget payload ''messages'' of Some (JArr ms) \<Rightarrow> ms | _ \<Rightarrow> [])"

definition max_tokens_of :: "gw_env \<Rightarrow> obj \<Rightarrow> int" where
  "max_tokens_of env payload =
    (case jget payload ''max_tokens'' of
       Some v \<Rightarrow> (case num_of env v of Some n \<Rightarrow> if n = 0 then DEFAULT_MAX_TOKENS else \<lfloor>n\<rfloor> | None \<Rightarrow> DEFAULT_MAX_TOKENS)
     | None \<Rightarrow> DEFAULT_MAX_TOKENS)"

definition temperature_of :: "obj \<Rightarrow> json" where
  "temperature_of payload =
    (case jget payload ''temperature'' of None \<Rightarrow> JFloat ''0.7'' | Some JNull \<Rightarrow> JFloat ''0.7'' | Some v \<Rightarrow> v)"

text \<open>A content class that is a list or an object is not hashable.\<close>

definition exempt_pattern_ids :: "obj \<Rightarrow> string set option" where
  "exempt_pattern_ids payload =
    (case jget payload ''content_class'' of
       Some (JStr c) \<Rightarrow> Some (case CONTENT_CLASS_PATTERN_EXEMPTIONS c of Some s \<Rightarrow> s | None \<Rightarrow> {})
     | Some (JArr _) \<Rightarrow> None | Some (JObj _) \<Rightarrow> None
     | _ \<Rightarrow> Some {})"

text \<open>A falsy task_ref skips the cache; one that is neither falsy nor text is refused
by the lock function of the database.\<close>

datatype task_ref = No_Ref | Ref string | Bad_Ref

definition task_ref_of :: "obj \<Rightarrow> task_ref" where
  "task_ref_of payload =
    (case jget payload ''task_ref'' of
       None \<Rightarrow> No_Ref
     | Some v \<Rightarrow> if \<not> jtruth v then No_Ref else (case v of JStr s \<Rightarrow> Ref s | _ \<Rightarrow> Bad_Ref))"

section \<open>The computation of one completion\<close>

definition gw_error_body :: "string \<Rightarrow> string \<Rightarrow> obj" where
  "gw_error_body code msg = [(''error'', JObj [(''code'', JStr code), (''message'', JStr msg)])]"

definition check_and_apply_budget :: "gw_env \<Rightarrow> string \<Rightarrow> string \<Rightarrow> (string \<times> budget_state) gw" where
  "check_and_apply_budget env run tier =
    gw_bind (get_agent_name env run) (\<lambda>agent.
      gw_bind (get_daily_spend env agent) (\<lambda>spend st. (Inr (apply_budget (gx_budget env) agent spend tier), st)))"

definition hard_breach :: "gw_env \<Rightarrow> string \<Rightarrow> string \<Rightarrow> obj gw" where
  "hard_breach env run tier =
    gw_bind (insert_gate_row env run BUDGET_GATE_DECIDER ''escalated''
               ''per-function daily budget exhausted; completion queued for review'')
      (\<lambda>gate st. (Inl (BudgetHardBreach
         (gw_error_body ''BUDGET_EXHAUSTED''
            (''per-function daily budget exhausted; this completion has been '' @
             ''queued for review rather than dropped'') @
          [(''queued_task_ref'', JStr gate), (''routing_tier'', JStr tier), (''budget_state'', JStr ''hard_breach'')])), st))"

text \<open>Metering is best effort: when one of its statements fails the response has no
cost_id, and the rows already written stay.\<close>

definition meter :: "gw_env \<Rightarrow> string \<Rightarrow> route_decision \<Rightarrow> provider_result \<Rightarrow> gw_state \<Rightarrow> string option \<times> gw_state" where
  "meter env run route r st =
    (case insert_costs_rows env run (rd_provider route) (estimate_usd (gx_pricing env) (rd_tier route) (pv_input r) (pv_output r))
            (pv_input r + pv_output r) (gx_latency env (length (gs_calls st))) st of
       (Inl _, st') \<Rightarrow> (None, st')
     | (Inr i, st') \<Rightarrow> (Some i, st'))"

definition response_body ::
    "gw_env \<Rightarrow> nat \<Rightarrow> string \<Rightarrow> string \<Rightarrow> route_decision \<Rightarrow> budget_state \<Rightarrow> provider_result \<Rightarrow> string option \<Rightarrow> obj" where
  "response_body env n model run route budget r cost =
    [(''id'', JStr (''cmpl_'' @ gx_uuid env n)), (''model'', JStr model), (''content'', JStr (pv_content r)),
     (''usage'', JObj [(''input_tokens'', JInt (int (pv_input r))), (''output_tokens'', JInt (int (pv_output r)))]),
     (''agent_run_id'', JStr run), (''routing_tier'', JStr (rd_tier route)), (''budget_state'', JStr (budget_text budget)),
     (''stop_reason'', case pv_stop r of Some t \<Rightarrow> JStr t | None \<Rightarrow> JNull)] @
    (case cost of Some i \<Rightarrow> [(''cost_id'', JStr i)] | None \<Rightarrow> [])"

definition serve :: "gw_env \<Rightarrow> obj \<Rightarrow> route_decision \<Rightarrow> budget_state \<Rightarrow> obj gw" where
  "serve env payload route budget =
    gw_bind (get_provider env (rd_provider route)) (\<lambda>_.
      gw_bind (provider_complete env
          \<lparr>pc_provider = rd_provider route, pc_model = rd_provider_model route, pc_messages = messages_of payload,
           pc_max_tokens = max_tokens_of env payload, pc_temperature = temperature_of payload,
           pc_tools = jget payload ''tools''\<rparr>)
        (\<lambda>r st. case meter env (str_field payload ''agent_run_id'') route r st of
                  (cost, st') \<Rightarrow>
                    (Inr (response_body env (gs_next st') (str_field payload ''model'') (str_field payload ''agent_run_id'')
                            route budget r cost),
                     st'\<lparr>gs_next := gs_next st' + 1\<rparr>)))"

definition compute :: "gw_env \<Rightarrow> obj \<Rightarrow> route_decision \<Rightarrow> obj gw" where
  "compute env payload route =
    gw_bind (check_and_apply_budget env (str_field payload ''agent_run_id'') (rd_tier route))
      (\<lambda>(tier, budget).
         if budget = Hard_Breach then hard_breach env (str_field payload ''agent_run_id'') tier
         else if tier = rd_tier route then serve env payload route budget
         else (case resolve_by_tier (gx_routes env) tier of
                 None \<Rightarrow> (\<lambda>st. (Inl (Raises ''ValueError''), st))
               | Some effective \<Rightarrow> serve env payload effective budget))"

section \<open>The cache as one request sees it\<close>

text \<open>PostgresCache.get_or_compute: lock and look up, then compute, then store; the second
component tells a hit. The statement that releases the lock is not counted here.
Two requests at once are the subject of Completion_Cache.\<close>

definition get_or_compute :: "gw_env \<Rightarrow> task_ref \<Rightarrow> obj gw \<Rightarrow> (obj \<times> bool) gw" where
  "get_or_compute env ref produce =
    (case ref of
       No_Ref \<Rightarrow> gw_bind produce (\<lambda>r st. (Inr (r, False), st))
     | Bad_Ref \<Rightarrow> (\<lambda>st. (Inl (Raises ''UndefinedFunction''), st\<lparr>gs_stmts := gs_stmts st + 1\<rparr>))
     | Ref k \<Rightarrow>
         gw_bind (statement env (\<lambda>st. (map_of (gs_cache st) k, st))) (\<lambda>hit.
           case hit of
             Some r \<Rightarrow> (\<lambda>st. (Inr (r, True), st))
           | None \<Rightarrow> gw_bind produce (\<lambda>r.
               gw_bind (statement env (\<lambda>st. ((), if map_of (gs_cache st) k = None
                                                 then st\<lparr>gs_cache := (k, r) # gs_cache st\<rparr> else st)))
                 (\<lambda>_ st. (Inr (r, False), st)))))"

section \<open>handle_completion\<close>

type_synonym gw_answer = "nat \<times> obj"

definition deliver :: "gw_env \<Rightarrow> obj \<Rightarrow> route_decision \<Rightarrow> gw_answer gw" where
  "deliver env payload route st =
    (case get_or_compute env (task_ref_of payload) (compute env payload route) st of
       (Inl (BudgetHardBreach body), st') \<Rightarrow> (Inr (429, body), st')
     | (Inl e, st') \<Rightarrow> (Inl e, st')
     | (Inr (r, hit), st') \<Rightarrow> (Inr (200, dict_set ''cache_hit'' (JBool hit) r), st'))"

definition redaction_block :: "gw_env \<Rightarrow> obj \<Rightarrow> route_decision \<Rightarrow> string \<Rightarrow> gw_answer gw" where
  "redaction_block env payload route pid =
    gw_bind (insert_gate_row env (str_field payload ''agent_run_id'') REDACTION_GATE_DECIDER ''rejected''
               (''redaction pattern matched: '' @ pid))
      (\<lambda>_ st. (Inr (400,
         gw_error_body ''REDACTION_BLOCKED''
           (''request blocked by the redaction firewall before any upstream '' @ ''call (pattern: '' @ pid @ '')'') @
         [(''routing_tier'', JStr (rd_tier route)), (''redaction_outcome'', JStr ''blocked'')]), st))"

definition handle_completion :: "gw_env \<Rightarrow> obj \<Rightarrow> gw_answer gw" where
  "handle_completion env payload st =
    (case validate_request env payload of
       Some violation \<Rightarrow> (Inr (400, gw_error_body ''INVALID_REQUEST'' violation), st)
     | None \<Rightarrow>
         if str_field payload ''model'' = [] \<or> str_field payload ''agent_run_id'' = [] \<or> messages_of payload = []
         then (Inr (400, gw_error_body ''INVALID_REQUEST'' ''model, messages and agent_run_id are required''), st)
         else if jget payload ''deliberate'' = Some (JBool True) \<and> \<not> gx_deliberate env
         then (Inr (400, gw_error_body ''NOT_IMPLEMENTED''
                 (''the 'deliberate' reasoning hint is accepted by this contract but '' @
                  ''not yet implemented; it is gated behind the DELIBERATE_FLAG_ENABLED '' @
                  ''feature flag, currently disabled'')), st)
         else
           (case resolve (gx_routes env) (str_field payload ''model'') of
              None \<Rightarrow> (Inr (400, gw_error_body ''UNKNOWN_MODEL'' (unknown_model_message (gx_routes env))), st)
            | Some route \<Rightarrow>
                (case exempt_pattern_ids payload of
                   None \<Rightarrow> (Inl (Raises ''TypeError''), st)
                 | Some exempt \<Rightarrow>
                     (case scan_request (gx_render env) (gx_rules env) exempt payload of
                        Some pid \<Rightarrow> redaction_block env payload route pid st
                      | None \<Rightarrow> deliver env payload route st))))"

text \<open>The route of main.py: a body that is not a JSON object is a 400, an escaping exception
a 500 with a fixed text. An HTTP error of the provider has its own code.\<close>

definition create_completion :: "gw_env \<Rightarrow> json option \<Rightarrow> gw_state \<Rightarrow> gw_answer \<times> gw_state" where
  "create_completion env body st =
    (case body of
       Some (JObj payload) \<Rightarrow>
         (case handle_completion env payload st of
            (Inr a, st') \<Rightarrow> (a, st')
          | (Inl (HttpStatus n), st') \<Rightarrow>
              ((500, gw_error_body ''PROVIDER_ERROR'' (''upstream provider returned HTTP '' @ nat_str n)), st')
          | (Inl _, st') \<Rightarrow> ((500, gw_error_body ''INTERNAL_ERROR'' ''internal gateway error''), st'))
     | _ \<Rightarrow> ((400, gw_error_body ''INVALID_REQUEST'' ''body must be a JSON object''), st))"

end
