(* ===== verification/Completion_Props.thy ===== *)
theory Completion_Props
  imports Completion_Handler
begin

text \<open>The properties of one completion: what a call to a provider rests on, what a retried
task pays, and a field the firewall does not see.\<close>

section \<open>What the statements change\<close>

lemma gw_bind_elim:
  assumes "gw_bind m f st = (r, st')"
  obtains (error) e where "m st = (Inl e, st')" "r = Inl e"
    | (ok) a st1 where "m st = (Inr a, st1)" "f a st1 = (r, st')"
  using assms by (auto simp: gw_bind_def split: prod.splits sum.splits)

text \<open>A part that neither calls a provider nor touches the runs and the cache.\<close>

definition quiet :: "gw_state \<Rightarrow> gw_state \<Rightarrow> bool" where
  "quiet st st' \<longleftrightarrow> gs_calls st' = gs_calls st \<and> gs_cache st' = gs_cache st \<and> gs_runs st' = gs_runs st"

lemma quiet_refl [simp]: "quiet st st"
  by (simp add: quiet_def)

lemma quiet_trans [trans]: "quiet a b \<Longrightarrow> quiet b c \<Longrightarrow> quiet a c"
  by (simp add: quiet_def)

lemma statement_elim:
  assumes "statement env run st = (r, st')"
  obtains (failed) "r = Inl (Raises ''OperationalError'')" "st' = st\<lparr>gs_stmts := gs_stmts st + 1\<rparr>"
    | (finished) a where "run (st\<lparr>gs_stmts := gs_stmts st + 1\<rparr>) = (a, st')" "r = Inr a" "gx_db_ok env (gs_stmts st)"
  using assms by (auto simp: statement_def Let_def split: if_splits prod.splits)

lemma agent_name_effect:
  "get_agent_name env run st = (r, st') \<Longrightarrow>
   quiet st st' \<and> gs_costs st' = gs_costs st \<and> (\<forall>a. r = Inr a \<longrightarrow> map_of (gs_runs st) run = Some a)"
  unfolding get_agent_name_def
  by (erule gw_bind_elim; erule statement_elim) (auto simp: quiet_def split: option.splits)

lemma insert_cost_effect:
  "insert_cost env run p u x st = (r, st') \<Longrightarrow> quiet st st' \<and> gs_gates st' = gs_gates st"
  unfolding insert_cost_def by (erule statement_elim) (auto simp: quiet_def)

lemma meter_effect: "meter env run route r st = (c, st') \<Longrightarrow> quiet st st' \<and> gs_gates st' = gs_gates st"
  unfolding meter_def insert_costs_rows_def
  by (auto simp: quiet_def split: prod.splits sum.splits elim!: gw_bind_elim dest!: insert_cost_effect)

lemma gate_row_effect:
  "insert_gate_row env run d out why st = (r, st') \<Longrightarrow>
   quiet st st' \<and> gs_costs st' = gs_costs st \<and> (\<forall>e. r \<noteq> Inl (BudgetHardBreach e)) \<and>
   (gs_gates st' = gs_gates st \<and> (\<exists>e. r = Inl e) \<or>
    (\<exists>i. gs_gates st' = gs_gates st @ [\<lparr>gg_id = i, gg_run = run, gg_by = d, gg_outcome = out, gg_reason = why\<rparr>] \<and>
       r = Inr (gx_uuid env i)))"
  unfolding insert_gate_row_def
  by (auto simp: quiet_def split: if_splits option.splits elim!: gw_bind_elim statement_elim)

section \<open>A provider call is earned\<close>

text \<open>The call that a payload leads to on a route.\<close>

definition call_of :: "gw_env \<Rightarrow> obj \<Rightarrow> route_decision \<Rightarrow> provider_call" where
  "call_of env payload route =
    \<lparr>pc_provider = rd_provider route, pc_model = rd_provider_model route, pc_messages = messages_of payload,
     pc_max_tokens = max_tokens_of env payload, pc_temperature = temperature_of payload,
     pc_tools = jget payload ''tools''\<rparr>"

lemma serve_effect:
  "serve env payload route b st = (r, st') \<Longrightarrow>
   (quiet st st' \<or> gs_calls st' = gs_calls st @ [call_of env payload route] \<and> gs_cache st' = gs_cache st \<and> gs_runs st' = gs_runs st) \<and>
   gs_gates st' = gs_gates st \<and> (\<forall>e. r \<noteq> Inl (BudgetHardBreach e)) \<and>
   (\<forall>x. r = Inr x \<longrightarrow> gs_calls st' = gs_calls st @ [call_of env payload route])"
  unfolding serve_def get_provider_def provider_complete_def call_of_def
  by (auto simp: Let_def quiet_def split: if_splits sum.splits option.splits prod.splits
      elim!: gw_bind_elim dest!: meter_effect)

definition within_budget :: "gw_env \<Rightarrow> obj \<Rightarrow> gw_state \<Rightarrow> bool" where
  "within_budget env payload st \<longleftrightarrow>
     (\<exists>agent n. map_of (gs_runs st) (str_field payload ''agent_run_id'') = Some agent \<and>
        daily_spend env agent (st\<lparr>gs_stmts := n\<rparr>) < fst (limits_for (gx_budget env) agent))"

lemma budget_effect:
  "check_and_apply_budget env run tier st = (r, st') \<Longrightarrow>
   quiet st st' \<and> gs_costs st' = gs_costs st \<and> gs_gates st' = gs_gates st \<and> (\<forall>e. r \<noteq> Inl (BudgetHardBreach e)) \<and>
   (\<forall>t b. r = Inr (t, b) \<longrightarrow> (\<exists>agent n. map_of (gs_runs st) run = Some agent \<and>
      apply_budget (gx_budget env) agent (daily_spend env agent (st\<lparr>gs_stmts := n\<rparr>)) tier = (t, b)))"
  unfolding check_and_apply_budget_def get_agent_name_def get_daily_spend_def
  by (auto simp: quiet_def split: option.splits elim!: gw_bind_elim statement_elim) blast

lemma hard_breach_effect:
  "hard_breach env run tier st = (r, st') \<Longrightarrow>
   quiet st st' \<and> gs_costs st' = gs_costs st \<and> (\<forall>x. r \<noteq> Inr x) \<and>
   (\<forall>body. r = Inl (BudgetHardBreach body) \<longrightarrow> (\<exists>g. gs_gates st' = gs_gates st @ [g] \<and> gg_run g = run \<and>
      gg_by g = BUDGET_GATE_DECIDER \<and> gg_outcome g = ''escalated''))"
  unfolding hard_breach_def by (auto elim!: gw_bind_elim dest!: gate_row_effect)

lemma compute_effect:
  assumes "compute env payload route st = (r, st')"
  shows "gs_runs st' = gs_runs st \<and> gs_cache st' = gs_cache st \<and>
    (gs_calls st' = gs_calls st \<and> (\<forall>x. r \<noteq> Inr x) \<or>
     (\<exists>route'. gs_calls st' = gs_calls st @ [call_of env payload route'] \<and> within_budget env payload st))"
  using assms unfolding compute_def
proof (cases rule: gw_bind_elim)
  case (error e)
  then show ?thesis using budget_effect[of env _ _ st] by (auto simp: quiet_def)
next
  case (ok a st1)
  obtain t b where a: "a = (t, b)" by fastforce
  note bud = budget_effect[OF ok(1)]
  show ?thesis
  proof (cases "b = Hard_Breach")
    case True
    then show ?thesis using ok(2) bud hard_breach_effect[of env _ _ st1 r st'] by (auto simp: a quiet_def)
  next
    case False
    then have w: "within_budget env payload st"
    proof -
      from bud a obtain agent n where g: "map_of (gs_runs st) (str_field payload ''agent_run_id'') = Some agent"
          "apply_budget (gx_budget env) agent (daily_spend env agent (st\<lparr>gs_stmts := n\<rparr>)) (rd_tier route) = (t, b)"
        by blast
      then have "daily_spend env agent (st\<lparr>gs_stmts := n\<rparr>) < fst (limits_for (gx_budget env) agent)"
        using False by (auto simp: apply_budget_def not_le split: prod.splits if_splits)
      with g(1) show ?thesis unfolding within_budget_def by blast
    qed
    consider route' where "serve env payload route' b st1 = (r, st')" | e where "r = Inl e" "st' = st1"
      using ok(2) False by (auto simp: a split: if_splits option.splits)
    then show ?thesis
    proof cases
      case 1
      then show ?thesis using serve_effect[OF 1] bud w by (auto simp: quiet_def)
    qed (use bud in \<open>auto simp: quiet_def\<close>)
  qed
qed

text \<open>The cache only grows: a stored answer is never replaced.\<close>

definition keeps_cache :: "gw_state \<Rightarrow> gw_state \<Rightarrow> bool" where
  "keeps_cache st st' \<longleftrightarrow> (\<forall>k v. map_of (gs_cache st) k = Some v \<longrightarrow> map_of (gs_cache st') k = Some v)"

lemma get_or_compute_effect:
  assumes "get_or_compute env ref (compute env payload route) st = (r, st')"
  shows "keeps_cache st st' \<and> gs_runs st' = gs_runs st \<and>
    (gs_calls st' = gs_calls st \<or>
     (\<exists>route'. gs_calls st' = gs_calls st @ [call_of env payload route'] \<and> within_budget env payload st)) \<and>
    (\<forall>x k. r = Inr (x, False) \<and> ref = Ref k \<longrightarrow> map_of (gs_cache st') k = Some x) \<and>
    (\<forall>x. r = Inr (x, True) \<longrightarrow> gs_calls st' = gs_calls st \<and> gs_costs st' = gs_costs st \<and>
       (\<exists>k. ref = Ref k \<and> map_of (gs_cache st) k = Some x))"
proof (cases ref)
  case No_Ref
  then have "gw_bind (compute env payload route) (\<lambda>x st. (Inr (x, False), st)) st = (r, st')"
    using assms by (simp add: get_or_compute_def)
  then show ?thesis
  proof (cases rule: gw_bind_elim)
    case (error e)
    then show ?thesis using compute_effect[OF error(1)] No_Ref by (auto simp: keeps_cache_def)
  next
    case (ok x st1)
    then show ?thesis using compute_effect[OF ok(1)] No_Ref by (auto simp: keeps_cache_def)
  qed
next
  case (Ref k)
  have "gw_bind (statement env (\<lambda>st. (map_of (gs_cache st) k, st))) (\<lambda>hit.
      case hit of Some r \<Rightarrow> (\<lambda>st. (Inr (r, True), st))
      | None \<Rightarrow> gw_bind (compute env payload route) (\<lambda>x.
          gw_bind (statement env (\<lambda>st. ((), if map_of (gs_cache st) k = None then st\<lparr>gs_cache := (k, x) # gs_cache st\<rparr> else st)))
            (\<lambda>_ st. (Inr (x, False), st)))) st = (r, st')"
    using assms by (simp add: get_or_compute_def Ref)
  then show ?thesis
  proof (cases rule: gw_bind_elim)
    case (error e)
    then show ?thesis by (auto simp: keeps_cache_def elim!: statement_elim)
  next
    case (ok hit st1)
    then have st1: "st1 = st\<lparr>gs_stmts := gs_stmts st + 1\<rparr>" "hit = map_of (gs_cache st) k"
      by (auto elim!: statement_elim)
    show ?thesis
    proof (cases hit)
      case (Some x)
      then show ?thesis using ok st1 Ref by (auto simp: keeps_cache_def)
    next
      case None
      have w: "within_budget env payload st1 \<Longrightarrow> within_budget env payload st"
        by (simp add: within_budget_def st1 daily_spend_def)
      let ?put = "\<lambda>x. statement env (\<lambda>st. ((), if map_of (gs_cache st) k = None then st\<lparr>gs_cache := (k, x) # gs_cache st\<rparr> else st))"
      have "gw_bind (compute env payload route) (\<lambda>x. gw_bind (?put x) (\<lambda>_ st. (Inr (x, False), st))) st1 = (r, st')"
        using ok(2) None by simp
      then show ?thesis
      proof (cases rule: gw_bind_elim)
        case (error e)
        then show ?thesis using compute_effect[OF error(1)] w st1 by (auto simp: keeps_cache_def)
      next
        case (ok x st2)
        note c = compute_effect[OF ok(1)]
        from ok(2) have "gs_runs st' = gs_runs st2 \<and> gs_calls st' = gs_calls st2 \<and> keeps_cache st2 st' \<and>
            ((\<exists>e. r = Inl e) \<or> r = Inr (x, False) \<and> (map_of (gs_cache st2) k = None \<longrightarrow> map_of (gs_cache st') k = Some x))"
          by (auto simp: keeps_cache_def elim!: gw_bind_elim statement_elim)
        then show ?thesis using c w st1 Ref None by (auto simp: keeps_cache_def)
      qed
    qed
  qed
qed (use assms in \<open>auto simp: get_or_compute_def keeps_cache_def\<close>)

section \<open>The firewall\<close>

text \<open>What one request can change.\<close>

lemma handle_completion_effect:
  assumes "handle_completion env payload st = (r, st')"
  shows "keeps_cache st st' \<and> gs_runs st' = gs_runs st \<and>
    (gs_calls st' = gs_calls st \<or>
     (\<exists>route route' exempt. valid_request env payload \<and>
        resolve (gx_routes env) (str_field payload ''model'') = Some route \<and>
        exempt_pattern_ids payload = Some exempt \<and> scan_request (gx_render env) (gx_rules env) exempt payload = None \<and>
        within_budget env payload st \<and> gs_calls st' = gs_calls st @ [call_of env payload route']))"
proof -
  consider (same) "st' = st"
    | (blocked) route pid where "redaction_block env payload route pid st = (r, st')"
    | (served) route exempt where "valid_request env payload" "resolve (gx_routes env) (str_field payload ''model'') = Some route"
        "exempt_pattern_ids payload = Some exempt" "scan_request (gx_render env) (gx_rules env) exempt payload = None"
        "deliver env payload route st = (r, st')"
    using assms unfolding handle_completion_def validate_request_def
    by (auto split: if_splits option.splits)
  then show ?thesis
  proof cases
    case same
    then show ?thesis by (simp add: keeps_cache_def)
  next
    case blocked
    then show ?thesis unfolding redaction_block_def
      by (auto simp: keeps_cache_def quiet_def elim!: gw_bind_elim dest!: gate_row_effect)
  next
    case served
    obtain r1 where g: "get_or_compute env (task_ref_of payload) (compute env payload route) st = (r1, st')"
      using served(5) unfolding deliver_def by (auto split: prod.splits sum.splits gw_error.splits)
    show ?thesis using get_or_compute_effect[OF g] served(1-4) by blast
  qed
qed

lemma create_completion_payload:
  assumes "create_completion env body st = (a, st')" and "st' \<noteq> st"
  obtains payload r where "body = Some (JObj payload)" "handle_completion env payload st = (r, st')"
proof (cases "\<exists>payload. body = Some (JObj payload)")
  case True
  then obtain payload where b: "body = Some (JObj payload)" by blast
  obtain r s where h: "handle_completion env payload st = (r, s)" by fastforce
  have "s = st'" using assms(1) h unfolding b create_completion_def by (auto split: sum.splits gw_error.splits)
  then show ?thesis using that b h by blast
next
  case False
  then have "create_completion env body st = ((400, gw_error_body ''INVALID_REQUEST'' ''body must be a JSON object''), st)"
    by (auto simp: create_completion_def split: option.splits json.splits)
  then show ?thesis using assms by simp
qed

definition rules_named :: "redaction_rules \<Rightarrow> bool" where
  "rules_named rules \<longleftrightarrow> (\<forall>(i, m)\<in>set (rr_patterns rules). i \<noteq> [])"

lemma compiled_named: "rules_named rules \<Longrightarrow> \<forall>(i, m)\<in>set (compile_rules rules). i \<noteq> []"
  by (auto simp: rules_named_def compile_rules_def)


section \<open>Retries\<close>

text \<open>A sequence of requests.\<close>

inductive gw_step :: "gw_env \<Rightarrow> gw_state \<Rightarrow> gw_state \<Rightarrow> bool" for env where
  "gw_step env st (snd (create_completion env body st))"

lemma gw_step_cache: "gw_step env st st' \<Longrightarrow> keeps_cache st st'"
proof (induction rule: gw_step.induct)
  case (1 st body)
  obtain a st' where c: "create_completion env body st = (a, st')" by fastforce
  show ?case
  proof (cases "st' = st")
    case False
    with create_completion_payload[OF c] handle_completion_effect c show ?thesis by (metis snd_conv)
  qed (simp add: c keeps_cache_def)
qed

lemma gw_steps_cache: "(gw_step env)\<^sup>*\<^sup>* st st' \<Longrightarrow> keeps_cache st st'"
  by (induction rule: rtranclp_induct) (auto simp: keeps_cache_def dest!: gw_step_cache)

lemma answered_200:
  assumes "create_completion env (Some (JObj p)) st = ((200, r), st')"
  obtains route x hit where "r = dict_set ''cache_hit'' (JBool hit) x"
    "get_or_compute env (task_ref_of p) (compute env p route) st = (Inr (x, hit), st')"
proof -
  obtain q s where h: "handle_completion env p st = (q, s)" by fastforce
  then have q: "q = Inr (200, r)" "s = st'"
    using assms by (auto simp: create_completion_def split: sum.splits gw_error.splits)
  have "\<exists>route. deliver env p route st = (q, s)"
    using h q(1) unfolding handle_completion_def redaction_block_def
    by (auto split: option.splits if_splits elim!: gw_bind_elim)
  then obtain route where "deliver env p route st = (Inr (200, r), st')" using q by blast
  then have "\<exists>x hit. r = dict_set ''cache_hit'' (JBool hit) x \<and>
      get_or_compute env (task_ref_of p) (compute env p route) st = (Inr (x, hit), st')"
    unfolding deliver_def by (auto split: prod.splits sum.splits gw_error.splits)
  then show ?thesis using that by blast
qed

lemma cached_hit:
  "map_of (gs_cache st) k = Some x \<Longrightarrow> get_or_compute env (Ref k) f st = (Inr y, st') \<Longrightarrow>
   y = (x, True) \<and> gs_calls st' = gs_calls st \<and> gs_costs st' = gs_costs st"
  unfolding get_or_compute_def by (auto elim!: gw_bind_elim statement_elim)

text \<open>A retried task pays once. When a request with a task_ref was answered, then
after any further requests every request with that task_ref that is answered with 200
gets the stored response, marked as a hit, and makes no call to a provider and no cost
row.\<close>

theorem retried_task_pays_once:
  assumes first: "create_completion env (Some (JObj p)) st = ((200, r), st1)"
    and later: "(gw_step env)\<^sup>*\<^sup>* st1 st2"
    and again: "create_completion env (Some (JObj q)) st2 = ((200, r'), st3)"
    and ref: "task_ref_of p = Ref k" "task_ref_of q = Ref k"
  shows "\<exists>x hit. r = dict_set ''cache_hit'' (JBool hit) x \<and> r' = dict_set ''cache_hit'' (JBool True) x \<and>
    gs_calls st3 = gs_calls st2 \<and> gs_costs st3 = gs_costs st2"
proof -
  obtain route x hit where r: "r = dict_set ''cache_hit'' (JBool hit) x"
      "get_or_compute env (Ref k) (compute env p route) st = (Inr (x, hit), st1)"
    using answered_200[OF first] ref(1) by metis
  note e = get_or_compute_effect[OF r(2)]
  have "map_of (gs_cache st1) k = Some x"
  proof (cases hit)
    case True
    with e have "map_of (gs_cache st) k = Some x" by auto
    with e show ?thesis by (simp add: keeps_cache_def)
  qed (use e in simp)
  then have c: "map_of (gs_cache st2) k = Some x" using gw_steps_cache[OF later] by (simp add: keeps_cache_def)
  obtain route' x' hit' where r': "r' = dict_set ''cache_hit'' (JBool hit') x'"
      "get_or_compute env (Ref k) (compute env q route') st2 = (Inr (x', hit'), st3)"
    using answered_200[OF again] ref(2) by metis
  from cached_hit[OF c r'(2)] r(1) r'(1) show ?thesis by blast
qed

section \<open>A field the firewall does not see\<close>

text \<open>A payload with one message singled out.\<close>

definition with_message :: "json list \<Rightarrow> json list \<Rightarrow> obj \<Rightarrow> json \<Rightarrow> obj" where
  "with_message pre post rest m = (''messages'', JArr (pre @ [m] @ post)) # rest"

text \<open>The firewall reads only the content of a message. A further field of a message is
accepted by the schema, changes nothing that is scanned, and is sent to the provider
as it is, whatever it holds.\<close>

theorem unscanned_field_is_sent:
  assumes "jget kvs ''role'' \<noteq> Some (JStr ''system'')" and "k \<notin> {''role'', ''content''}" and "jget kvs k = None"
    and p: "p = with_message pre post rest"
  shows "scan_request fr rules exempt (p (JObj (kvs @ [(k, v)]))) = scan_request fr rules exempt (p (JObj kvs)) \<and>
    valid_request env (p (JObj (kvs @ [(k, v)]))) = valid_request env (p (JObj kvs)) \<and>
    (\<exists>fields conversation. anthropic_body (call_of env (p (JObj (kvs @ [(k, v)]))) route) = JObj fields \<and>
       jget fields ''messages'' = Some (JArr conversation) \<and> JObj (kvs @ [(k, v)]) \<in> set conversation)"
proof -
  have g: "jget (kvs @ [(k, v)]) f = jget kvs f" if "f \<in> {''role'', ''content''}" for f
    using that assms(2) by (auto simp: map_add_def split: option.splits)
  have t: "message_text fr (JObj (kvs @ [(k, v)])) = message_text fr (JObj kvs)"
    using g by (simp add: message_text_def)
  have "scanned_texts fr (p (JObj (kvs @ [(k, v)]))) = scanned_texts fr (p (JObj kvs))"
    using t by (simp add: p with_message_def scanned_texts_def List.map_filter_def)
  moreover have "message_ok (JObj (kvs @ [(k, v)])) = message_ok (JObj kvs)" using g by (simp add: message_ok_def)
  then have "valid_request env (p (JObj (kvs @ [(k, v)]))) = valid_request env (p (JObj kvs))"
    by (simp add: valid_request_def p with_message_def)
  moreover have "role_of (JObj (kvs @ [(k, v)])) \<noteq> Some (JStr ''system'')" using assms(1) g by (simp add: role_of_def)
  ultimately show ?thesis
    by (auto simp: scan_request_def anthropic_body_def call_of_def messages_of_def p with_message_def split_system_prompt_def Let_def)
qed

end
