(* ===== verification/Completion_Cache.thy ===== *)
theory Completion_Cache
  imports Completion
begin

text \<open>caching.py with several requests at once. PostgresCache runs each request on one
borrowed connection: it takes the session lock of the task_ref, looks the response up,
computes, stores, and releases the lock. A lock is re-entrant for its connection and
outlives a failed statement; it goes when its connection is closed. The hash of a task_ref
is an argument. LocalCache is the bounded dict of one process.\<close>

section \<open>Advisory locks\<close>

type_synonym locks = "nat \<Rightarrow> (nat \<times> nat) option"

definition lock_free_for :: "locks \<Rightarrow> nat \<Rightarrow> nat \<Rightarrow> bool" where
  "lock_free_for ls key c = (case ls key of None \<Rightarrow> True | Some (c', n) \<Rightarrow> c' = c)"

definition pg_advisory_lock :: "nat \<Rightarrow> nat \<Rightarrow> locks \<Rightarrow> locks" where
  "pg_advisory_lock key c ls = ls(key \<mapsto> (c, case ls key of None \<Rightarrow> 1 | Some (c', n) \<Rightarrow> n + 1))"

definition pg_advisory_unlock :: "nat \<Rightarrow> nat \<Rightarrow> locks \<Rightarrow> locks" where
  "pg_advisory_unlock key c ls =
    (case ls key of
       None \<Rightarrow> ls
     | Some (c', n) \<Rightarrow> if c' \<noteq> c then ls else ls(key := if n \<le> 1 then None else Some (c, n - 1)))"

definition close_session :: "nat \<Rightarrow> locks \<Rightarrow> locks" where
  "close_session c ls = (\<lambda>key. case ls key of Some (c', n) \<Rightarrow> if c' = c then None else ls key | None \<Rightarrow> None)"

section \<open>PostgresCache.get_or_compute\<close>

text \<open>Where a request is: on a connection before the lock, computing, about to store,
about to release, answered (with the hit flag), or ended by an exception.\<close>

datatype pg_phase =
    Not_Started
  | Borrowed string nat
  | Owner string nat
  | Computed string nat obj
  | Stored string nat obj
  | Answered string obj bool
  | Ended string

record pg_state =
  pg_locks :: locks
  pg_table :: "string \<Rightarrow> obj option"
  pg_idle :: "nat set"
  pg_phase :: "nat \<Rightarrow> pg_phase"

definition set_phase :: "nat \<Rightarrow> pg_phase \<Rightarrow> pg_state \<Rightarrow> pg_state" where
  "set_phase r p st = st\<lparr>pg_phase := (pg_phase st)(r := p)\<rparr>"

definition putconn :: "nat \<Rightarrow> pg_state \<Rightarrow> pg_state" where
  "putconn c st = st\<lparr>pg_idle := insert c (pg_idle st)\<rparr>"

definition getconn :: "nat \<Rightarrow> string \<Rightarrow> nat \<Rightarrow> pg_state \<Rightarrow> pg_state" where
  "getconn r k c st = set_phase r (Borrowed k c) (st\<lparr>pg_idle := pg_idle st - {c}\<rparr>)"

text \<open>The lock is free for the connection. A hit releases it again.\<close>

definition acquire_and_check :: "(string \<Rightarrow> nat) \<Rightarrow> nat \<Rightarrow> string \<Rightarrow> nat \<Rightarrow> pg_state \<Rightarrow> pg_state" where
  "acquire_and_check h r k c st =
    (let ls = pg_advisory_lock (h k) c (pg_locks st)
     in case pg_table st k of
          Some v \<Rightarrow> putconn c (set_phase r (Answered k v True) (st\<lparr>pg_locks := pg_advisory_unlock (h k) c ls\<rparr>))
        | None \<Rightarrow> set_phase r (Owner k c) (st\<lparr>pg_locks := ls\<rparr>))"

definition release_without_storing :: "(string \<Rightarrow> nat) \<Rightarrow> nat \<Rightarrow> string \<Rightarrow> nat \<Rightarrow> pg_state \<Rightarrow> pg_state" where
  "release_without_storing h r k c st =
    putconn c (set_phase r (Ended k) (st\<lparr>pg_locks := pg_advisory_unlock (h k) c (pg_locks st)\<rparr>))"

text \<open>Storing and releasing are two transactions.\<close>

definition store_row :: "nat \<Rightarrow> string \<Rightarrow> nat \<Rightarrow> obj \<Rightarrow> pg_state \<Rightarrow> pg_state" where
  "store_row r k c v st =
    set_phase r (Stored k c v)
      (st\<lparr>pg_table := (pg_table st)(k := case pg_table st k of None \<Rightarrow> Some v | Some w \<Rightarrow> Some w)\<rparr>)"

definition release_after_store :: "(string \<Rightarrow> nat) \<Rightarrow> nat \<Rightarrow> string \<Rightarrow> nat \<Rightarrow> obj \<Rightarrow> pg_state \<Rightarrow> pg_state" where
  "release_after_store h r k c v st =
    putconn c (set_phase r (Answered k v False) (st\<lparr>pg_locks := pg_advisory_unlock (h k) c (pg_locks st)\<rparr>))"

text \<open>The connection a phase holds.\<close>

fun conn_of :: "pg_phase \<Rightarrow> nat option" where
  "conn_of (Borrowed k c) = Some c"
| "conn_of (Owner k c) = Some c"
| "conn_of (Computed k c v) = Some c"
| "conn_of (Stored k c v) = Some c"
| "conn_of _ = None"

fun ref_of :: "pg_phase \<Rightarrow> string" where
  "ref_of (Borrowed k c) = k"
| "ref_of (Owner k c) = k"
| "ref_of (Computed k c v) = k"
| "ref_of (Stored k c v) = k"
| "ref_of (Answered k v b) = k"
| "ref_of (Ended k) = k"
| "ref_of Not_Started = []"

text \<open>One step; the label is a connection that is closed. A statement that fails ends the
request; its connection goes back to the pool with its locks, or is closed and its locks
go. An idle connection can be closed too.\<close>

inductive pg_step :: "(string \<Rightarrow> nat) \<Rightarrow> nat option \<Rightarrow> pg_state \<Rightarrow> pg_state \<Rightarrow> bool" for h where
  borrow: "pg_phase st r = Not_Started \<Longrightarrow> c \<in> pg_idle st \<Longrightarrow> pg_step h None st (getconn r k c st)"
| acquire: "pg_phase st r = Borrowed k c \<Longrightarrow> lock_free_for (pg_locks st) (h k) c \<Longrightarrow>
    pg_step h None st (acquire_and_check h r k c st)"
| computed: "pg_phase st r = Owner k c \<Longrightarrow> pg_step h None st (set_phase r (Computed k c v) st)"
| raised: "pg_phase st r = Owner k c \<Longrightarrow> pg_step h None st (release_without_storing h r k c st)"
| stored: "pg_phase st r = Computed k c v \<Longrightarrow> pg_step h None st (store_row r k c v st)"
| released: "pg_phase st r = Stored k c v \<Longrightarrow> pg_step h None st (release_after_store h r k c v st)"
| statement_fails: "conn_of (pg_phase st r) = Some c \<Longrightarrow>
    pg_step h None st (putconn c (set_phase r (Ended (ref_of (pg_phase st r))) st))"
| connection_lost: "conn_of (pg_phase st r) = Some c \<Longrightarrow>
    pg_step h (Some c) st (set_phase r (Ended (ref_of (pg_phase st r))) (st\<lparr>pg_locks := close_session c (pg_locks st)\<rparr>))"
| idle_closed: "c \<in> pg_idle st \<Longrightarrow>
    pg_step h (Some c) st (st\<lparr>pg_idle := pg_idle st - {c}, pg_locks := close_session c (pg_locks st)\<rparr>)"

definition pg_start :: "nat set \<Rightarrow> (string \<Rightarrow> obj option) \<Rightarrow> pg_state" where
  "pg_start pool tab = \<lparr>pg_locks = (\<lambda>_. None), pg_table = tab, pg_idle = pool, pg_phase = (\<lambda>_. Not_Started)\<rparr>"

abbreviation pg_reachable :: "(string \<Rightarrow> nat) \<Rightarrow> nat set \<Rightarrow> (string \<Rightarrow> obj option) \<Rightarrow> pg_state \<Rightarrow> bool" where
  "pg_reachable h pool tab st \<equiv> (\<lambda>a b. \<exists>l. pg_step h l a b)\<^sup>*\<^sup>* (pg_start pool tab) st"

section \<open>LocalCache\<close>

definition MAX_ENTRIES :: nat where
  "MAX_ENTRIES = 10000"

text \<open>The ordered dict, oldest entry first.\<close>

type_synonym local_cache = "(string \<times> obj) list"

definition remember :: "string \<Rightarrow> obj \<Rightarrow> local_cache \<Rightarrow> local_cache" where
  "remember k v c =
    (let c' = filter (\<lambda>(k', _). k' \<noteq> k) c @ [(k, v)] in drop (length c' - MAX_ENTRIES) c')"

definition local_get :: "string \<Rightarrow> local_cache \<Rightarrow> obj option" where
  "local_get k c = map_of c k"

lemma remember_bounded: "length (remember k v c) \<le> MAX_ENTRIES"
  by (simp add: remember_def Let_def)

section \<open>Safety of the Postgres cache\<close>

fun owns :: "pg_phase \<Rightarrow> bool" where
  "owns (Owner k c) = True"
| "owns (Computed k c v) = True"
| "owns (Stored k c v) = True"
| "owns _ = False"

fun produced :: "pg_phase \<Rightarrow> bool" where
  "produced (Stored k c v) = True"
| "produced (Answered k v b) = (\<not> b)"
| "produced _ = False"

fun phase_ok :: "(string \<Rightarrow> obj option) \<Rightarrow> pg_phase \<Rightarrow> bool" where
  "phase_ok tab (Owner k c) = (tab k = None)"
| "phase_ok tab (Computed k c v) = (tab k = None)"
| "phase_ok tab (Stored k c v) = (tab k = Some v)"
| "phase_ok tab (Answered k v b) = (tab k = Some v)"
| "phase_ok tab _ = True"

definition pg_inv :: "(string \<Rightarrow> nat) \<Rightarrow> pg_state \<Rightarrow> bool" where
  "pg_inv h st \<longleftrightarrow>
     (\<forall>r c. conn_of (pg_phase st r) = Some c \<longrightarrow> c \<notin> pg_idle st) \<and>
     (\<forall>r s c. conn_of (pg_phase st r) = Some c \<and> conn_of (pg_phase st s) = Some c \<longrightarrow> r = s) \<and>
     (\<forall>r. owns (pg_phase st r) \<longrightarrow> (\<exists>n. pg_locks st (h (ref_of (pg_phase st r))) = Some (the (conn_of (pg_phase st r)), n) \<and> 0 < n)) \<and>
     (\<forall>r. phase_ok (pg_table st) (pg_phase st r)) \<and>
     (\<forall>r s. produced (pg_phase st r) \<and> produced (pg_phase st s) \<and> ref_of (pg_phase st r) = ref_of (pg_phase st s) \<longrightarrow> r = s)"

lemma conn_idle: "pg_inv h st \<Longrightarrow> conn_of (pg_phase st r) = Some c \<Longrightarrow> c \<notin> pg_idle st"
  by (simp add: pg_inv_def)

lemma conn_unique:
  "pg_inv h st \<Longrightarrow> conn_of (pg_phase st r) = Some c \<Longrightarrow> s \<noteq> r \<Longrightarrow> conn_of (pg_phase st s) \<noteq> Some c"
  unfolding pg_inv_def by metis

lemma inv_phase_ok: "pg_inv h st \<Longrightarrow> phase_ok (pg_table st) (pg_phase st s)"
  by (simp add: pg_inv_def)

lemma owner_lock:
  "pg_inv h st \<Longrightarrow> owns (pg_phase st s) \<Longrightarrow> conn_of (pg_phase st s) = Some d \<Longrightarrow>
   \<exists>n. pg_locks st (h (ref_of (pg_phase st s))) = Some (d, n) \<and> 0 < n"
  unfolding pg_inv_def by (metis option.sel)

lemma produced_unique:
  "pg_inv h st \<Longrightarrow> produced (pg_phase st r) \<Longrightarrow> produced (pg_phase st s) \<Longrightarrow>
   ref_of (pg_phase st r) = ref_of (pg_phase st s) \<Longrightarrow> r = s"
  unfolding pg_inv_def by blast

lemma owner_conn: "owns p \<Longrightarrow> \<exists>d. conn_of p = Some d"
  by (cases p) auto

text \<open>A step rewrites the phase of one request, keeps its connection or gives it up,
keeps the table or fills an empty place, and keeps the locks of the other owners.\<close>

lemma pg_inv_update:
  assumes inv: "pg_inv h st"
    and phases: "pg_phase st' = (pg_phase st)(r := p)"
    and conn: "\<And>c. conn_of p = Some c \<Longrightarrow> c \<notin> pg_idle st' \<and> (\<forall>s. s \<noteq> r \<longrightarrow> conn_of (pg_phase st s) \<noteq> Some c)"
    and idle: "\<And>s c. s \<noteq> r \<Longrightarrow> conn_of (pg_phase st s) = Some c \<Longrightarrow> c \<notin> pg_idle st'"
    and lock: "owns p \<Longrightarrow> \<exists>n. pg_locks st' (h (ref_of p)) = Some (the (conn_of p), n) \<and> 0 < n"
    and locks: "\<And>s. s \<noteq> r \<Longrightarrow> owns (pg_phase st s) \<Longrightarrow>
        pg_locks st' (h (ref_of (pg_phase st s))) = pg_locks st (h (ref_of (pg_phase st s)))"
    and ok: "phase_ok (pg_table st') p"
    and tab: "\<And>s. s \<noteq> r \<Longrightarrow> phase_ok (pg_table st') (pg_phase st s)"
    and prod: "produced p \<Longrightarrow> produced (pg_phase st r) \<and> ref_of p = ref_of (pg_phase st r) \<or>
        (\<forall>s. s \<noteq> r \<longrightarrow> produced (pg_phase st s) \<longrightarrow> ref_of (pg_phase st s) \<noteq> ref_of p)"
  shows "pg_inv h st'"
  unfolding pg_inv_def phases
proof (intro conjI allI impI, goal_cases)
  case (1 s c)
  then show ?case using conn idle by (cases "s = r") auto
next
  case (2 s t c)
  then show ?case using conn_unique[OF inv] conn by (cases "s = r"; cases "t = r") auto
next
  case (3 s)
  show ?case
  proof (cases "s = r")
    case False
    then have o': "owns (pg_phase st s)" using 3 by simp
    then obtain d where d: "conn_of (pg_phase st s) = Some d" using owner_conn by blast
    show ?thesis using owner_lock[OF inv o' d] locks[OF False o'] False d by simp
  qed (use 3 lock in simp)
next
  case (4 s)
  then show ?case using ok tab by (cases "s = r") auto
next
  case (5 s t)
  note u = produced_unique[OF inv]
  show ?case
  proof (cases "s = r")
    case True
    show ?thesis
    proof (rule ccontr)
      assume "s \<noteq> t"
      then show False using 5 prod u[of r t] True by (auto dest!: spec[of _ t])
    qed
  next
    case False
    show ?thesis
    proof (cases "t = r")
      case True
      show ?thesis
      proof (rule ccontr)
        assume "s \<noteq> t"
        then show False using 5 prod u[of s r] True False by (auto dest!: spec[of _ s])
      qed
    next
      case f: False
      then show ?thesis using 5 u[of s t] False by auto
    qed
  qed
qed

lemma pg_inv_start: "pg_inv h (pg_start pool tab)"
  by (simp add: pg_inv_def pg_start_def)

lemmas pg_ops = set_phase_def putconn_def getconn_def acquire_and_check_def release_without_storing_def
  store_row_def release_after_store_def Let_def

text \<open>Another owner does not notice what the connection c does to its locks.\<close>

lemma other_locks:
  assumes inv: "pg_inv h st" and c: "conn_of (pg_phase st r) = Some c" and s: "s \<noteq> r" "owns (pg_phase st s)"
  shows "pg_advisory_unlock (h k) c (pg_locks st) (h (ref_of (pg_phase st s))) = pg_locks st (h (ref_of (pg_phase st s)))"
    and "lock_free_for (pg_locks st) (h k) c \<Longrightarrow>
         pg_advisory_lock (h k) c (pg_locks st) (h (ref_of (pg_phase st s))) = pg_locks st (h (ref_of (pg_phase st s)))"
    and "lock_free_for (pg_locks st) (h k) c \<Longrightarrow>
         pg_advisory_unlock (h k) c (pg_advisory_lock (h k) c (pg_locks st)) (h (ref_of (pg_phase st s)))
           = pg_locks st (h (ref_of (pg_phase st s)))"
    and "close_session c (pg_locks st) (h (ref_of (pg_phase st s))) = pg_locks st (h (ref_of (pg_phase st s)))"
proof -
  obtain d where d: "conn_of (pg_phase st s) = Some d" using owner_conn[OF s(2)] by blast
  have "d \<noteq> c" using conn_unique[OF inv c s(1)] d by auto
  with owner_lock[OF inv s(2) d] obtain n where n: "pg_locks st (h (ref_of (pg_phase st s))) = Some (d, n)" "d \<noteq> c" by blast
  show "pg_advisory_unlock (h k) c (pg_locks st) (h (ref_of (pg_phase st s))) = pg_locks st (h (ref_of (pg_phase st s)))"
    using n by (auto simp: pg_advisory_unlock_def split: option.splits)
  show "close_session c (pg_locks st) (h (ref_of (pg_phase st s))) = pg_locks st (h (ref_of (pg_phase st s)))"
    using n by (simp add: close_session_def)
  assume f: "lock_free_for (pg_locks st) (h k) c"
  then have k: "h k \<noteq> h (ref_of (pg_phase st s))" using n by (auto simp: lock_free_for_def)
  then show "pg_advisory_lock (h k) c (pg_locks st) (h (ref_of (pg_phase st s))) = pg_locks st (h (ref_of (pg_phase st s)))"
    by (simp add: pg_advisory_lock_def)
  show "pg_advisory_unlock (h k) c (pg_advisory_lock (h k) c (pg_locks st)) (h (ref_of (pg_phase st s)))
           = pg_locks st (h (ref_of (pg_phase st s)))"
    using k by (auto simp: pg_advisory_lock_def pg_advisory_unlock_def split: option.splits)
qed

lemma owner_unique:
  assumes inv: "pg_inv h st" and r: "owns (pg_phase st r)" and s: "owns (pg_phase st s)"
    and h: "h (ref_of (pg_phase st r)) = h (ref_of (pg_phase st s))"
  shows "r = s"
proof -
  obtain c d where c: "conn_of (pg_phase st r) = Some c" "conn_of (pg_phase st s) = Some d"
    using owner_conn r s by meson
  with owner_lock[OF inv r] owner_lock[OF inv s] h have "c = d" by fastforce
  then show ?thesis using conn_unique[OF inv c(1), of s] c(2) by auto
qed

lemma step_inv: "pg_step h l st st' \<Longrightarrow> pg_inv h st \<Longrightarrow> pg_inv h st'"
proof (induction rule: pg_step.induct)
  case (borrow st r c k)
  have "conn_of (pg_phase st s) \<noteq> Some c" for s using conn_idle[OF borrow(3), of s c] borrow(2) by auto
  then show ?case using conn_idle[OF borrow(3)] inv_phase_ok[OF borrow(3)]
    by (intro pg_inv_update[OF borrow(3), where r=r and p="Borrowed k c"]) (auto simp: pg_ops)
next
  case (acquire st r k c)
  note inv = acquire(3)
  have c: "conn_of (pg_phase st r) = Some c" using acquire(1) by simp
  note ol = other_locks[OF inv c] and cu = conn_unique[OF inv c] and ci = conn_idle[OF inv] and po = inv_phase_ok[OF inv]
  show ?case
  proof (cases "pg_table st k")
    case None
    then show ?thesis using ol(2)[OF _ _ acquire(2)] cu ci conn_idle[OF inv c] po
      by (intro pg_inv_update[OF inv, where r=r and p="Owner k c"])
        (auto simp: pg_ops acquire(1) pg_advisory_lock_def split: option.splits)
  next
    case (Some v)
    then show ?thesis using ol(3)[OF _ _ acquire(2)] cu ci po
      by (intro pg_inv_update[OF inv, where r=r and p="Answered k v True"])
        (auto simp: pg_ops acquire(1))
  qed
next
  case (computed st r k c v)
  note inv = computed(2)
  have c: "conn_of (pg_phase st r) = Some c" and o': "owns (pg_phase st r)" using computed(1) by simp_all
  from owner_lock[OF inv o' c] inv_phase_ok[OF inv, of r] show ?case
    using computed(1) conn_unique[OF inv c] conn_idle[OF inv] conn_idle[OF inv c] inv_phase_ok[OF inv]
    by (intro pg_inv_update[OF inv, where r=r and p="Computed k c v"]) (auto simp: pg_ops)
next
  case (raised st r k c)
  note inv = raised(2)
  have c: "conn_of (pg_phase st r) = Some c" using raised(1) by simp
  show ?case using other_locks(1)[OF inv c] conn_unique[OF inv c] conn_idle[OF inv] conn_idle[OF inv c] inv_phase_ok[OF inv]
    by (intro pg_inv_update[OF inv, where r=r and p="Ended k"]) (auto simp: pg_ops)
next
  case (stored st r k c v)
  note inv = stored(2)
  have c: "conn_of (pg_phase st r) = Some c" and o': "owns (pg_phase st r)" and n: "pg_table st k = None"
    using stored(1) inv_phase_ok[OF inv, of r] by simp_all
  have tab: "phase_ok ((pg_table st)(k \<mapsto> v)) (pg_phase st s)" if "s \<noteq> r" for s
    using inv_phase_ok[OF inv, of s] n owner_unique[OF inv o', of s] stored(1) that
    by (cases "pg_phase st s") auto
  have "\<not> produced (pg_phase st s)" if "ref_of (pg_phase st s) = k" for s
    using inv_phase_ok[OF inv, of s] n that by (cases "pg_phase st s") auto
  then show ?case using owner_lock[OF inv o' c] stored(1) n tab conn_unique[OF inv c] conn_idle[OF inv] conn_idle[OF inv c]
    by (intro pg_inv_update[OF inv, where r=r and p="Stored k c v"]) (auto simp: pg_ops)
next
  case (released st r k c v)
  note inv = released(2)
  have c: "conn_of (pg_phase st r) = Some c" using released(1) by simp
  show ?case using released(1) other_locks(1)[OF inv c] conn_unique[OF inv c] conn_idle[OF inv] conn_idle[OF inv c] inv_phase_ok[OF inv]
      inv_phase_ok[OF inv, of r]
    by (intro pg_inv_update[OF inv, where r=r and p="Answered k v False"]) (auto simp: pg_ops)
next
  case (statement_fails st r c)
  note inv = statement_fails(2) and c = statement_fails(1)
  show ?case using conn_unique[OF inv c] conn_idle[OF inv] conn_idle[OF inv c] inv_phase_ok[OF inv]
    by (intro pg_inv_update[OF inv, where r=r and p="Ended (ref_of (pg_phase st r))"]) (auto simp: pg_ops)
next
  case (connection_lost st r c)
  note inv = connection_lost(2) and c = connection_lost(1)
  show ?case using other_locks(4)[OF inv c] conn_unique[OF inv c] conn_idle[OF inv] conn_idle[OF inv c] inv_phase_ok[OF inv]
    by (intro pg_inv_update[OF inv, where r=r and p="Ended (ref_of (pg_phase st r))"]) (auto simp: pg_ops)
next
  case (idle_closed c st)
  note inv = idle_closed(2)
  have "close_session c (pg_locks st) (h (ref_of (pg_phase st s))) = pg_locks st (h (ref_of (pg_phase st s)))"
    if own: "owns (pg_phase st s)" for s
  proof -
    obtain d where d: "conn_of (pg_phase st s) = Some d" using owner_conn[OF own] by blast
    then have "d \<noteq> c" using conn_idle[OF inv d] idle_closed(1) by auto
    with owner_lock[OF inv own d] show ?thesis by (auto simp: close_session_def)
  qed
  then show ?case using inv unfolding pg_inv_def by auto
qed

lemma pg_reachable_inv: "pg_reachable h pool tab st \<Longrightarrow> pg_inv h st"
  by (induction rule: rtranclp_induct) (auto simp: pg_inv_start dest: step_inv)


section \<open>A lock that is left behind\<close>

text \<open>The connection c holds the lock more often than its current request accounts for.\<close>

definition leaked :: "nat \<Rightarrow> nat \<Rightarrow> (string \<Rightarrow> nat) \<Rightarrow> pg_state \<Rightarrow> bool" where
  "leaked key c h st \<longleftrightarrow> (\<exists>n. pg_locks st key = Some (c, n) \<and> 0 < n \<and>
     (\<forall>r. owns (pg_phase st r) \<and> conn_of (pg_phase st r) = Some c \<and> h (ref_of (pg_phase st r)) = key \<longrightarrow> 1 < n))"

lemma leakedI:
  "pg_locks st key = Some (c, n) \<Longrightarrow> 0 < n \<Longrightarrow>
   (\<And>r. owns (pg_phase st r) \<Longrightarrow> conn_of (pg_phase st r) = Some c \<Longrightarrow> h (ref_of (pg_phase st r)) = key \<Longrightarrow> 1 < n) \<Longrightarrow>
   leaked key c h st"
  unfolding leaked_def by blast

lemma leaked_mono:
  assumes "leaked key c h st" and "pg_locks st' key = pg_locks st key"
    and "\<And>s. owns (pg_phase st' s) \<Longrightarrow> owns (pg_phase st s) \<and> conn_of (pg_phase st' s) = conn_of (pg_phase st s) \<and>
      ref_of (pg_phase st' s) = ref_of (pg_phase st s)"
  shows "leaked key c h st'"
  using assms unfolding leaked_def by metis

text \<open>A release by an owner, of this key or another.\<close>

lemma leaked_release:
  assumes inv: "pg_inv h st" and leak: "leaked key c h st"
    and r: "owns (pg_phase st r)" "pg_phase st r = p" "ref_of p = k" "conn_of p = Some d"
    and st': "pg_locks st' = pg_advisory_unlock (h k) d (pg_locks st)" "pg_phase st' = (pg_phase st)(r := q)" "\<not> owns q"
  shows "leaked key c h st'"
proof -
  obtain n where n: "pg_locks st key = Some (c, n)" "0 < n"
    "\<And>r. owns (pg_phase st r) \<Longrightarrow> conn_of (pg_phase st r) = Some c \<Longrightarrow> h (ref_of (pg_phase st r)) = key \<Longrightarrow> 1 < n"
    using leak unfolding leaked_def by blast
  show ?thesis
  proof (cases "h k = key")
    case True
    have "\<exists>m. pg_locks st (h k) = Some (d, m)" using owner_lock[OF inv r(1), of d] r(2-4) by auto
    then have "d = c" using n(1) True by simp
    moreover from this have "1 < n" using n(3)[of r] r True by simp
    moreover have "s = r" if "conn_of (pg_phase st s) = Some c" for s
      using conn_unique[OF inv that, of r] r \<open>d = c\<close> by auto
    ultimately show ?thesis using n(1,2) True st'
      by (intro leakedI[of _ _ _ "n - 1"]) (auto simp: pg_advisory_unlock_def split: if_splits)
  next
    case False
    then have "pg_locks st' key = Some (c, n)" using n(1) st'(1) by (auto simp: pg_advisory_unlock_def split: option.splits)
    then show ?thesis using n(2,3) st'(2,3) by (intro leakedI[of _ _ _ n]) (auto split: if_splits)
  qed
qed

lemma leaked_step:
  "pg_step h l st st' \<Longrightarrow> pg_inv h st \<Longrightarrow> l \<noteq> Some c \<Longrightarrow> leaked key c h st \<Longrightarrow> leaked key c h st'"
proof (induction rule: pg_step.induct)
  case (borrow st r d k)
  then show ?case by (auto simp: leaked_def pg_ops split: if_splits)
next
  case (acquire st r k d)
  note inv = acquire(3)
  obtain n where n: "pg_locks st key = Some (c, n)" "0 < n"
    "\<And>r. owns (pg_phase st r) \<Longrightarrow> conn_of (pg_phase st r) = Some c \<Longrightarrow> h (ref_of (pg_phase st r)) = key \<Longrightarrow> 1 < n"
    using acquire(5) unfolding leaked_def by blast
  show ?case
  proof (cases "h k = key")
    case True
    then have d: "d = c" using acquire(2) n(1) by (simp add: lock_free_for_def)
    have "conn_of (pg_phase st s) \<noteq> Some c" if "s \<noteq> r" for s
      using conn_unique[OF inv, of r d s] acquire(1) d that by simp
    then show ?thesis
    proof (cases "pg_table st k")
      case None
      then show ?thesis using True n(1,2) d
        by (intro leakedI[of _ _ _ "n + 1"]) (auto simp: pg_ops pg_advisory_lock_def)
    next
      case (Some v)
      then show ?thesis using True n(1,2) d \<open>\<And>s. s \<noteq> r \<Longrightarrow> conn_of (pg_phase st s) \<noteq> Some c\<close>
        by (intro leakedI[of _ _ _ n]) (auto simp: pg_ops pg_advisory_lock_def pg_advisory_unlock_def split: if_splits)
    qed
  next
    case False
    have "pg_advisory_lock (h k) d (pg_locks st) key = Some (c, n)"
      "pg_advisory_unlock (h k) d (pg_advisory_lock (h k) d (pg_locks st)) key = Some (c, n)"
      using False n(1) by (auto simp: pg_advisory_lock_def pg_advisory_unlock_def split: option.splits)
    then show ?thesis using n(2,3) False
      by (cases "pg_table st k") (auto simp: pg_ops intro!: leakedI[of _ _ _ n] split: if_splits)
  qed
next
  case (computed st r k d v)
  then show ?case by (intro leaked_mono[OF computed(4)]) (auto simp: pg_ops split: if_splits)
next
  case (raised st r k d)
  then show ?case
    by (intro leaked_release[OF raised(2,4), of r "Owner k d" k d _ "Ended k"]) (simp_all add: pg_ops)
next
  case (stored st r k d v)
  then show ?case by (intro leaked_mono[OF stored(4)]) (auto simp: pg_ops split: if_splits)
next
  case (released st r k d v)
  then show ?case
    by (intro leaked_release[OF released(2,4), of r "Stored k d v" k d _ "Answered k v False"]) (simp_all add: pg_ops)
next
  case (statement_fails st r d)
  then show ?case by (auto simp: leaked_def pg_ops split: if_splits)
next
  case (connection_lost st r d)
  then show ?case by (auto simp: leaked_def pg_ops close_session_def split: if_splits)
next
  case (idle_closed d st)
  then show ?case by (auto simp: leaked_def close_session_def)
qed

text \<open>When the statement that stores a computed response fails on a connection that
survives, the lock of its task_ref stays with that connection. Until the connection is
closed, whatever happens, no request for that task_ref on another connection can take
the lock: it waits for ever.\<close>

theorem failed_store_blocks_task_ref:
  assumes "pg_reachable h pool tab st" and r: "pg_phase st r = Computed k c v"
    and later: "(\<lambda>a b. \<exists>l. l \<noteq> Some c \<and> pg_step h l a b)\<^sup>*\<^sup>* (putconn c (set_phase r (Ended k) st)) st2"
    and s: "pg_phase st2 s = Borrowed k d" "d \<noteq> c"
  shows "\<not> lock_free_for (pg_locks st2) (h k) d"
proof -
  have inv: "pg_inv h st" using pg_reachable_inv[OF assms(1)] .
  let ?st1 = "putconn c (set_phase r (Ended k) st)"
  have c: "conn_of (pg_phase st r) = Some c" "owns (pg_phase st r)" using r by simp_all
  have step: "pg_step h None st ?st1"
    using pg_step.statement_fails[OF c(1), of h] r by simp
  obtain n where n: "pg_locks st (h k) = Some (c, n)" "0 < n" using owner_lock[OF inv c(2,1)] r by auto
  have "leaked (h k) c h ?st1"
    using n conn_unique[OF inv c(1)] by (intro leakedI[of _ _ _ n]) (auto simp: pg_ops split: if_splits)
  with later step_inv[OF step inv] have "pg_inv h st2 \<and> leaked (h k) c h st2"
    by (induction rule: rtranclp_induct) (auto dest: step_inv leaked_step)
  then show ?thesis using s(2) by (auto simp: leaked_def lock_free_for_def)
qed

end
