(* ===== verification/Completion_Witness.thy ===== *)
theory Completion_Witness
  imports Completion_Props Completion_Cache
begin

text \<open>The properties of a completion at a concrete gateway: one route, one fixture, and
one agent run that has spent nothing.\<close>

definition gw_demo :: gw_env where
  "gw_demo = \<lparr>gx_routes = [(''m'', \<lparr>rd_model = ''m'', rd_tier = ''haiku'', rd_provider = ''p'', rd_provider_model = ''pm''\<rparr>)],
     gx_budget = \<lparr>bp_default = \<lparr>be_limit = Some 20, be_ratio = Some (4 / 5)\<rparr>, bp_agents = [], bp_downgrade = []\<rparr>,
     gx_pricing = \<lparr>pr_tiers = [], pr_default = (3, 15)\<rparr>,
     gx_rules = \<lparr>rr_patterns = [], rr_fixtures = [(''names'', [''Acme''])]\<rparr>,
     gx_deliberate = False, gx_render = (\<lambda>l. l), gx_num = (\<lambda>_. 0), gx_violation = (\<lambda>_. ''bad''),
     gx_db_ok = (\<lambda>_. True), gx_registered = [''p''],
     gx_provider = (\<lambda>_ _. Inr \<lparr>pv_content = ''hi'', pv_input = 1, pv_output = 1, pv_stop = None\<rparr>),
     gx_uuid = nat_str, gx_clock = (\<lambda>_. 0), gx_today = (\<lambda>_. 0), gx_latency = (\<lambda>_. 0)\<rparr>"

definition gw_start :: gw_state where
  "gw_start = \<lparr>gs_runs = [(''r'', ''agent'')], gs_costs = [], gs_gates = [], gs_cache = [], gs_calls = [], gs_next = 0, gs_stmts = 0\<rparr>"

definition demo_payload :: obj where
  "demo_payload = [(''model'', JStr ''m''), (''agent_run_id'', JStr ''r''), (''task_ref'', JStr ''t''),
     (''messages'', JArr [JObj [(''role'', JStr ''user''), (''content'', JStr ''hello'')]])]"

definition gw_after :: gw_state where
  "gw_after = snd (create_completion gw_demo (Some (JObj demo_payload)) gw_start)"

lemma demo_fields:
  "str_field demo_payload ''model'' = ''m''" "str_field demo_payload ''agent_run_id'' = ''r''"
  "messages_of demo_payload \<noteq> []" "jget demo_payload ''deliberate'' = None" "exempt_pattern_ids demo_payload = Some {}"
  "task_ref_of demo_payload = Ref ''t''"
  by (simp_all add: demo_payload_def str_field_def messages_of_def exempt_pattern_ids_def task_ref_of_def)

lemma demo_clean: "scan_request (gx_render gw_demo) (gx_rules gw_demo) {} demo_payload = None"
  by (simp add: gw_demo_def demo_payload_def scan_request_def scanned_texts_def message_text_def as_text_def List.map_filter_def
      compile_rules_def fixture_entries_def first_match_def py_strip_def py_space_def py_lower_def lower_char_def)

lemma demo_valid_payload: "validate_request gw_demo demo_payload = None"
  by (simp add: validate_request_def valid_request_def demo_payload_def is_str_def message_ok_def optional_ok_def)

definition demo_route :: route_decision where
  "demo_route = \<lparr>rd_model = ''m'', rd_tier = ''haiku'', rd_provider = ''p'', rd_provider_model = ''pm''\<rparr>"

lemma demo_resolve: "resolve (gx_routes gw_demo) ''m'' = Some demo_route"
  by (simp add: resolve_def gw_demo_def demo_route_def)

lemma demo_handle: "handle_completion gw_demo demo_payload st = deliver gw_demo demo_payload demo_route st"
  by (simp add: handle_completion_def demo_valid_payload demo_fields demo_resolve demo_clean)

lemma gw_demo_env:
  "gx_db_ok gw_demo n" "set (gx_registered gw_demo) = {''p''}"
  "gx_provider gw_demo n c = Inr \<lparr>pv_content = ''hi'', pv_input = 1, pv_output = 1, pv_stop = None\<rparr>"
  "limits_for (gx_budget gw_demo) a = (20, 4 / 5)"
  by (simp_all add: gw_demo_def limits_for_def)

lemma demo_serves: "\<exists>x st. compute gw_demo demo_payload demo_route (gw_start\<lparr>gs_stmts := 1\<rparr>) = (Inr x, st) \<and>
    length (gs_calls st) = 1 \<and> gs_cache st = []"
  by (simp add: compute_def gw_bind_def check_and_apply_budget_def get_agent_name_def get_daily_spend_def statement_def
      Let_def gw_demo_env apply_budget_def gw_start_def demo_fields daily_spend_def serve_def get_provider_def demo_route_def
      provider_complete_def meter_def insert_costs_rows_def insert_cost_def)

lemma demo_first:
  "\<exists>r. create_completion gw_demo (Some (JObj demo_payload)) gw_start = ((200, r), gw_after) \<and>
     length (gs_calls gw_after) = 1 \<and> (\<exists>x. map_of (gs_cache gw_after) ''t'' = Some x)"
proof -
  from demo_serves obtain x st where c: "compute gw_demo demo_payload demo_route (gw_start\<lparr>gs_stmts := 1\<rparr>) = (Inr x, st)"
    "length (gs_calls st) = 1" "gs_cache st = []" by blast
  have "\<exists>r s. create_completion gw_demo (Some (JObj demo_payload)) gw_start = ((200, r), s) \<and>
      length (gs_calls s) = 1 \<and> (\<exists>x. map_of (gs_cache s) ''t'' = Some x)"
    using c by (simp add: create_completion_def demo_handle deliver_def get_or_compute_def demo_fields gw_bind_def statement_def
        gw_demo_env Let_def) (simp add: gw_start_def gw_bind_def statement_def gw_demo_env Let_def)
  then show ?thesis by (auto simp: gw_after_def)
qed


theorem retried_task_pays_once_witness:
  "\<exists>r' st. create_completion gw_demo (Some (JObj demo_payload)) gw_after = ((200, r'), st) \<and>
     gs_calls st = gs_calls gw_after \<and> gs_costs st = gs_costs gw_after"
proof -
  obtain r x where d: "create_completion gw_demo (Some (JObj demo_payload)) gw_start = ((200, r), gw_after)"
      "map_of (gs_cache gw_after) ''t'' = Some x" using demo_first by blast
  have "\<exists>r' st. create_completion gw_demo (Some (JObj demo_payload)) gw_after = ((200, r'), st)"
    using d(2) by (simp add: create_completion_def demo_handle deliver_def get_or_compute_def demo_fields gw_bind_def
        statement_def gw_demo_env Let_def)
  then obtain r' st where "create_completion gw_demo (Some (JObj demo_payload)) gw_after = ((200, r'), st)" by blast
  with retried_task_pays_once[OF d(1) rtranclp.rtrancl_refl this demo_fields(6) demo_fields(6)] show ?thesis by blast
qed

theorem unscanned_field_is_sent_witness:
  "scan_request (\<lambda>l. l) (gx_rules gw_demo) {}
     (with_message [] [] [] (JObj [(''role'', JStr ''user''), (''content'', JStr ''hello''), (''name'', JStr ''Acme'')])) =
   scan_request (\<lambda>l. l) (gx_rules gw_demo) {}
     (with_message [] [] [] (JObj [(''role'', JStr ''user''), (''content'', JStr ''hello'')]))"
  using unscanned_field_is_sent[of "[(''role'', JStr ''user''), (''content'', JStr ''hello'')]" "''name''", OF _ _ _ refl,
      of "\<lambda>l. l" "gx_rules gw_demo" "{}" "[]" "[]" "[]" "JStr ''Acme''" gw_demo demo_route]
  by simp


section \<open>The response cache\<close>

text \<open>The properties of the Postgres cache on a pool of two connections.\<close>

definition two_pool :: pg_state where
  "two_pool = pg_start {0, 1} (\<lambda>_. None)"

definition after_compute :: pg_state where
  "after_compute = set_phase 0 (Computed ''t'' 0 []) (acquire_and_check (\<lambda>_. 7) 0 ''t'' 0 (getconn 0 ''t'' 0 two_pool))"

definition after_answer :: pg_state where
  "after_answer = release_after_store (\<lambda>_. 7) 0 ''t'' 0 [] (store_row 0 ''t'' 0 [] after_compute)"

definition after_hit :: pg_state where
  "after_hit = acquire_and_check (\<lambda>_. 7) 1 ''t'' 1 (getconn 1 ''t'' 1 after_answer)"

lemmas pg_eval = two_pool_def pg_start_def pg_ops lock_free_for_def pg_advisory_lock_def pg_advisory_unlock_def

lemma reach_step: "pg_reachable h pool tab st \<Longrightarrow> pg_step h l st st' \<Longrightarrow> pg_reachable h pool tab st'"
  by (rule rtranclp.rtrancl_into_rtrancl) blast+

lemma reach_compute: "pg_reachable (\<lambda>_. 7) {0, 1} (\<lambda>_. None) after_compute"
proof -
  have "pg_reachable (\<lambda>_. 7) {0, 1} (\<lambda>_. None) two_pool" by (simp add: two_pool_def)
  moreover have "pg_step (\<lambda>_. 7) None two_pool (getconn 0 ''t'' 0 two_pool)"
    by (rule pg_step.borrow) (simp_all add: two_pool_def pg_start_def)
  ultimately have "pg_reachable (\<lambda>_. 7) {0, 1} (\<lambda>_. None) (getconn 0 ''t'' 0 two_pool)" by (rule reach_step)
  then show ?thesis unfolding after_compute_def
    by (rule reach_step[OF reach_step[OF _ pg_step.acquire] pg_step.computed]) (simp_all add: pg_eval)
qed

lemma reach_answer: "pg_reachable (\<lambda>_. 7) {0, 1} (\<lambda>_. None) after_answer"
  unfolding after_answer_def
  by (rule reach_step[OF reach_step[OF reach_compute pg_step.stored] pg_step.released]) (simp_all add: pg_eval after_compute_def)

lemma reach_hit: "pg_reachable (\<lambda>_. 7) {0, 1} (\<lambda>_. None) after_hit"
  unfolding after_hit_def
  by (rule reach_step[OF reach_step[OF reach_answer pg_step.borrow] pg_step.acquire])
    (simp_all add: pg_eval after_answer_def after_compute_def)


theorem failed_store_blocks_task_ref_witness:
  "\<not> lock_free_for (pg_locks (getconn 1 ''t'' 1 (putconn 0 (set_phase 0 (Ended ''t'') after_compute)))) 7 1"
proof -
  let ?st = "putconn 0 (set_phase 0 (Ended ''t'') after_compute)"
  have p: "pg_phase after_compute 0 = Computed ''t'' 0 []" by (simp add: after_compute_def set_phase_def)
  have "pg_step (\<lambda>_. 7) None ?st (getconn 1 ''t'' 1 ?st)"
    by (rule pg_step.borrow) (simp_all add: after_compute_def pg_eval)
  then have l: "(\<lambda>a b. \<exists>l. l \<noteq> Some 0 \<and> pg_step (\<lambda>_. 7) l a b)\<^sup>*\<^sup>* ?st (getconn 1 ''t'' 1 ?st)" by blast
  have s: "pg_phase (getconn 1 ''t'' 1 ?st) 1 = Borrowed ''t'' 1" by (simp add: getconn_def set_phase_def)
  show ?thesis using failed_store_blocks_task_ref[OF reach_compute p l s] by simp
qed

end
