(* ===== verification/Brand_Rules.thy ===== *)
theory Brand_Rules
  imports Completion_Policy
begin

text \<open>The deterministic checks behind the QA gate: brand_rules.py of the orchestrator
(US spellings, unsupported superlatives, the reconciliation of a model's violation
codes), functions/02-brand-steward-qa/permission_check.py (the permission register and
the search of a draft for names that are not cleared) and the two text tests of
qa_retry.py. The regular expressions of these modules are short and are written out.\<close>

section \<open>Regular expressions\<close>

text \<open>The class \<open>\w\<close> for code points below 256, and a search for a literal with a look-behind
and a look-ahead for one character class each.\<close>

definition word_char :: "char \<Rightarrow> bool" where
  "word_char c \<longleftrightarrow> (let n = (of_char c :: nat) in
     is_digit c \<or> (65 \<le> n \<and> n \<le> 90) \<or> n = 95 \<or> (97 \<le> n \<and> n \<le> 122) \<or>
     n \<in> {170, 178, 179, 181, 185, 186, 188, 189, 190} \<or> (192 \<le> n \<and> n \<noteq> 215 \<and> n \<noteq> 247))"

fun search_between :: "(char \<Rightarrow> bool) \<Rightarrow> (char \<Rightarrow> bool) \<Rightarrow> bool \<Rightarrow> string \<Rightarrow> string \<Rightarrow> bool" where
  "search_between behind ahead blocked w [] = False"
| "search_between behind ahead blocked w (c # cs) =
    (\<not> blocked \<and> take (length w) (c # cs) = w \<and>
       (case drop (length w) (c # cs) of [] \<Rightarrow> True | d # _ \<Rightarrow> \<not> ahead d) \<or>
     search_between behind ahead (behind c) w cs)"

definition whole_word :: "string \<Rightarrow> string \<Rightarrow> bool" where
  "whole_word = search_between word_char word_char False"

text \<open>What a search finds: an occurrence with neither neighbour in the class.\<close>

lemma search_between_iff:
  assumes "w \<noteq> []"
  shows "search_between behind ahead blocked w t \<longleftrightarrow>
    (\<exists>l r. t = l @ w @ r \<and> (if l = [] then \<not> blocked else \<not> behind (last l)) \<and> (r = [] \<or> \<not> ahead (hd r)))"
proof (induction t arbitrary: blocked)
  case Nil
  then show ?case using assms by simp
next
  case (Cons c cs)
  have here: "(take (length w) (c # cs) = w \<and> (case drop (length w) (c # cs) of [] \<Rightarrow> True | d # _ \<Rightarrow> \<not> ahead d))
    \<longleftrightarrow> (\<exists>r. c # cs = w @ r \<and> (r = [] \<or> \<not> ahead (hd r)))"
  proof
    assume a: "take (length w) (c # cs) = w \<and> (case drop (length w) (c # cs) of [] \<Rightarrow> True | d # _ \<Rightarrow> \<not> ahead d)"
    have "c # cs = w @ drop (length w) (c # cs)" using a by (metis append_take_drop_id)
    then show "\<exists>r. c # cs = w @ r \<and> (r = [] \<or> \<not> ahead (hd r))"
      using a by (intro exI[of _ "drop (length w) (c # cs)"]) (auto split: list.splits)
  next
    assume "\<exists>r. c # cs = w @ r \<and> (r = [] \<or> \<not> ahead (hd r))"
    then obtain r where e: "c # cs = w @ r" and r: "r = [] \<or> \<not> ahead (hd r)" by blast
    show "take (length w) (c # cs) = w \<and> (case drop (length w) (c # cs) of [] \<Rightarrow> True | d # _ \<Rightarrow> \<not> ahead d)"
      unfolding e using r by (auto split: list.splits)
  qed
  show ?case (is "_ \<longleftrightarrow> (\<exists>l r. ?occ l r)")
  proof
    assume "search_between behind ahead blocked w (c # cs)"
    then consider (now) "\<not> blocked" "\<exists>r. c # cs = w @ r \<and> (r = [] \<or> \<not> ahead (hd r))"
      | (later) "search_between behind ahead (behind c) w cs" using here by auto
    then show "\<exists>l r. ?occ l r"
    proof cases
      case now
      then obtain r where "c # cs = w @ r \<and> (r = [] \<or> \<not> ahead (hd r))" by blast
      then show ?thesis using now(1) by (intro exI[of _ "[]"] exI[of _ r]) simp
    next
      case later
      then obtain l r where "cs = l @ w @ r" "if l = [] then \<not> behind c else \<not> behind (last l)"
        "r = [] \<or> \<not> ahead (hd r)" using Cons.IH by blast
      then show ?thesis by (intro exI[of _ "c # l"] exI[of _ r]) (auto split: if_splits)
    qed
  next
    assume "\<exists>l r. ?occ l r"
    then obtain l r where o: "?occ l r" by blast
    show "search_between behind ahead blocked w (c # cs)"
    proof (cases l)
      case Nil
      then have "\<not> blocked" "\<exists>r. c # cs = w @ r \<and> (r = [] \<or> \<not> ahead (hd r))" using o by auto
      then show ?thesis unfolding search_between.simps using here by blast
    next
      case (Cons d ds)
      have "search_between behind ahead (behind c) w cs"
        unfolding Cons.IH using o Cons by (intro exI[of _ ds] exI[of _ r]) (auto split: if_splits)
      then show ?thesis by simp
    qed
  qed
qed

text \<open>re.split with the separator: white space after one of . ! ?\<close>

fun split_after :: "bool \<Rightarrow> bool \<Rightarrow> string \<Rightarrow> string \<Rightarrow> string list" where
  "split_after skipping punct acc [] = [rev acc]"
| "split_after skipping punct acc (c # cs) =
    (if py_space c \<and> skipping then split_after True False acc cs
     else if py_space c \<and> punct then rev acc # split_after True False [] cs
     else split_after False (c \<in> {CHR ''.'', CHR ''!'', CHR ''?''}) (c # acc) cs)"

definition sentences :: "string \<Rightarrow> string list" where
  "sentences t = split_after False False [] t"

section \<open>brand_rules.py\<close>

definition SA_SPELLING_VIOLATION :: string where
  "SA_SPELLING_VIOLATION = ''sa-english-spelling''"

definition UNSUPPORTED_CLAIM_VIOLATION :: string where
  "UNSUPPORTED_CLAIM_VIOLATION = ''unsupported-claim''"

definition US_SPELLINGS :: "string list" where
  "US_SPELLINGS =
    [''productize'', ''productized'', ''productizing'', ''productization'', ''behavior'', ''behaviors'',
     ''behavioral'', ''organization'', ''organizations'', ''optimize'', ''optimized'', ''optimizing'',
     ''optimization'', ''analyze'', ''analyzed'', ''analyzing'', ''center'', ''centers'', ''color'', ''colors'']"

definition UNSUPPORTED_CLAIM_TERMS :: "string list" where
  "UNSUPPORTED_CLAIM_TERMS =
    [''leading'', ''world-class'', ''best-in-class'', ''the only'', ''unmatched'', ''unrivalled'',
     ''industry-leading'', ''market-leading'']"

definition ARTEFACT_TERMS :: "string list" where
  "ARTEFACT_TERMS = [''case study'', ''reference'', ''report pack'', ''audit'', ''architecture'', ''deck'']"

definition has_us_spelling :: "string \<Rightarrow> string list" where
  "has_us_spelling t = (let lowered = py_lower t in filter (\<lambda>w. whole_word w lowered) US_SPELLINGS)"

definition anchored :: "string \<Rightarrow> bool" where
  "anchored s \<longleftrightarrow> (\<exists>c\<in>set s. is_digit c) \<or> (\<exists>a\<in>set ARTEFACT_TERMS. occurs_in a (py_lower s))"

definition has_unsupported_claim :: "string \<Rightarrow> string list" where
  "has_unsupported_claim t =
    concat (map (\<lambda>s. filter (\<lambda>w. occurs_in w (py_lower s) \<and> \<not> anchored s) UNSUPPORTED_CLAIM_TERMS) (sentences t))"

text \<open>list.remove drops the first occurrence.\<close>

definition reconcile_violations :: "string list \<Rightarrow> string \<Rightarrow> string list \<times> string list" where
  "reconcile_violations violations t =
    (let spell = SA_SPELLING_VIOLATION \<in> set violations \<and> has_us_spelling t = [];
         r1 = (if spell then remove1 SA_SPELLING_VIOLATION violations else violations);
         claim = UNSUPPORTED_CLAIM_VIOLATION \<in> set r1 \<and> has_unsupported_claim t = [];
         r2 = (if claim then remove1 UNSUPPORTED_CLAIM_VIOLATION r1 else r1)
     in (r2, (if spell then [SA_SPELLING_VIOLATION] else []) @ (if claim then [UNSUPPORTED_CLAIM_VIOLATION] else [])))"

section \<open>permission_check.py\<close>

definition CLEARED :: string where "CLEARED = ''CLEARED''"
definition UNCLEARED :: string where "UNCLEARED = ''UNCLEARED''"
definition ABSENT :: string where "ABSENT = ''ABSENT''"

definition VIOLATION_CODE :: string where
  "VIOLATION_CODE = ''uncleared-client-reference''"

text \<open>The reason text of a clearance is for readers only and is left out.\<close>

record clearance =
  cl_name :: string
  cl_allowed :: bool
  cl_status :: string

text \<open>x or [] as an iteration, where a text iterates over its characters and a dict over its
keys, and a true number or truth value is not iterable.\<close>

definition iter_or_empty :: "json option \<Rightarrow> json list option" where
  "iter_or_empty v =
    (case v of
       None \<Rightarrow> Some []
     | Some j \<Rightarrow>
         (if \<not> jtruth j then Some []
          else (case j of
                  JArr xs \<Rightarrow> Some xs
                | JStr s \<Rightarrow> Some (map (\<lambda>c. JStr [c]) s)
                | JObj kvs \<Rightarrow> Some (map (\<lambda>kv. JStr (fst kv)) kvs)
                | _ \<Rightarrow> None)))"

text \<open>The index: each name and alias in lower case with its entry, in the order of first
insertion. A name overwrites, an alias does not.\<close>

type_synonym entry = "(string \<times> json) list"
type_synonym register = "(string \<times> entry) list"

definition text_field :: "(json \<Rightarrow> string) \<Rightarrow> entry \<Rightarrow> string \<Rightarrow> string \<Rightarrow> string" where
  "text_field p e k d = (case jget e k of Some v \<Rightarrow> str_of p v | None \<Rightarrow> d)"

definition add_alias :: "(json \<Rightarrow> string) \<Rightarrow> entry \<Rightarrow> register \<Rightarrow> json \<Rightarrow> register" where
  "add_alias p e index a =
    (let t = py_strip (str_of p a) in
     if t = [] \<or> map_of index (py_lower t) \<noteq> None then index else index @ [(py_lower t, e)])"

fun add_entries :: "(json \<Rightarrow> string) \<Rightarrow> json list \<Rightarrow> register \<Rightarrow> register option" where
  "add_entries p [] index = Some index"
| "add_entries p (JObj e # es) index =
    (let name = py_strip (text_field p e ''name'' []) in
     if name = [] then add_entries p es index
     else (case iter_or_empty (jget e ''aliases'') of
             None \<Rightarrow> None
           | Some aliases \<Rightarrow> add_entries p es (foldl (add_alias p e) (dict_set (py_lower name) e index) aliases)))"
| "add_entries p (_ # es) index = add_entries p es index"

text \<open>The argument is None for a missing file, else the parsed document. The outer None of
the result is an exception.\<close>

definition load_register :: "(json \<Rightarrow> string) \<Rightarrow> json option \<Rightarrow> register option" where
  "load_register p doc =
    (case doc of
       None \<Rightarrow> Some []
     | Some d \<Rightarrow>
         (case (if jtruth d then d else JObj []) of
            JObj kvs \<Rightarrow>
              (case iter_or_empty (jget kvs ''clients'') of
                 None \<Rightarrow> None
               | Some es \<Rightarrow> add_entries p es [])
          | _ \<Rightarrow> None))"

definition check_clearance :: "(json \<Rightarrow> string) \<Rightarrow> register \<Rightarrow> string \<Rightarrow> clearance" where
  "check_clearance p reg client_name =
    (let name = py_strip client_name in
     if name = [] then \<lparr>cl_name = name, cl_allowed = False, cl_status = ABSENT\<rparr>
     else (case map_of reg (py_lower name) of
             None \<Rightarrow> \<lparr>cl_name = name, cl_allowed = False, cl_status = ABSENT\<rparr>
           | Some e \<Rightarrow>
               (let status = py_strip (text_field p e ''status'' []) in
                if status = CLEARED then \<lparr>cl_name = name, cl_allowed = True, cl_status = CLEARED\<rparr>
                else \<lparr>cl_name = name, cl_allowed = False, cl_status = (if status = [] then UNCLEARED else status)\<rparr>)))"

definition find_uncleared_references :: "(json \<Rightarrow> string) \<Rightarrow> register \<Rightarrow> string list \<Rightarrow> clearance list" where
  "find_uncleared_references p reg names = filter (\<lambda>c. \<not> cl_allowed c) (map (check_clearance p reg) names)"

definition registered_names :: "register \<Rightarrow> string list" where
  "registered_names reg = sort_key (\<lambda>n. - int (length n)) (map fst reg)"

definition canonical :: "(json \<Rightarrow> string) \<Rightarrow> register \<Rightarrow> string \<Rightarrow> string" where
  "canonical p reg name = text_field p (the (map_of reg name)) ''name'' name"

fun uncleared_among :: "(json \<Rightarrow> string) \<Rightarrow> register \<Rightarrow> string \<Rightarrow> string list \<Rightarrow> string list \<Rightarrow> clearance list" where
  "uncleared_among p reg t seen [] = []"
| "uncleared_among p reg t seen (name # names) =
    (if \<not> whole_word (py_lower name) (py_lower t) then uncleared_among p reg t seen names
     else let c = canonical p reg name in
       if py_lower c \<in> set seen then uncleared_among p reg t seen names
       else let r = check_clearance p reg c in
         if cl_allowed r then uncleared_among p reg t seen names
         else r # uncleared_among p reg t (py_lower c # seen) names)"

definition find_uncleared_in_text :: "(json \<Rightarrow> string) \<Rightarrow> register \<Rightarrow> string \<Rightarrow> clearance list" where
  "find_uncleared_in_text p reg t = uncleared_among p reg t [] (registered_names reg)"

text \<open>Default deny: only a registered name whose entry says CLEARED is allowed.\<close>

lemma cleared_iff:
  "cl_allowed (check_clearance p reg n) \<longleftrightarrow>
    py_strip n \<noteq> [] \<and> (\<exists>e. map_of reg (py_lower (py_strip n)) = Some e \<and>
      py_strip (text_field p e ''status'' []) = CLEARED)"
  by (auto simp: check_clearance_def Let_def split: option.splits)

lemma uncleared_among_None:
  "uncleared_among p reg t seen names = [] \<longleftrightarrow>
    (\<forall>n\<in>set names. whole_word (py_lower n) (py_lower t) \<longrightarrow>
       py_lower (canonical p reg n) \<in> set seen \<or> cl_allowed (check_clearance p reg (canonical p reg n)))"
  by (induction names arbitrary: seen) (auto simp: Let_def)

lemma find_uncleared_None:
  "find_uncleared_in_text p reg t = [] \<longleftrightarrow>
    (\<forall>n\<in>fst ` set reg. whole_word (py_lower n) (py_lower t) \<longrightarrow>
       cl_allowed (check_clearance p reg (canonical p reg n)))"
  by (simp add: find_uncleared_in_text_def uncleared_among_None registered_names_def)

text \<open>The reconciliation only ever drops one of its two codes, and only when the check of
that code finds nothing.\<close>

lemma reconciled_subset: "set (fst (reconcile_violations vs t)) \<subseteq> set vs"
  by (auto simp: reconcile_violations_def Let_def dest: set_remove1_subset[THEN subsetD] split: if_splits)

lemma reconciled_keeps:
  assumes "c \<in> set vs" and "c \<notin> set (fst (reconcile_violations vs t))"
  shows "c = SA_SPELLING_VIOLATION \<and> has_us_spelling t = [] \<or>
    c = UNSUPPORTED_CLAIM_VIOLATION \<and> has_unsupported_claim t = []"
  using assms by (cases "c = SA_SPELLING_VIOLATION"; cases "c = UNSUPPORTED_CLAIM_VIOLATION")
    (auto simp: reconcile_violations_def Let_def in_set_remove1 split: if_splits)

lemma reconciled_dropped:
  assumes "c \<in> set (snd (reconcile_violations vs t))"
  shows "c \<in> set vs" and "c = SA_SPELLING_VIOLATION \<and> has_us_spelling t = [] \<or>
    c = UNSUPPORTED_CLAIM_VIOLATION \<and> has_unsupported_claim t = []"
  using assms by (auto simp: reconcile_violations_def Let_def dest: set_remove1_subset[THEN subsetD] split: if_splits)

section \<open>Text tests of the QA handlers\<close>

fun find_from :: "string \<Rightarrow> string \<Rightarrow> nat option" where
  "find_from w [] = (if w = [] then Some 0 else None)"
| "find_from w (c # cs) = (if take (length w) (c # cs) = w then Some 0 else map_option Suc (find_from w cs))"

definition py_rstrip :: "string \<Rightarrow> string" where
  "py_rstrip s = rev (dropWhile py_space (rev s))"

definition CAROUSEL_BULK_CSV_MARKER :: string where
  "CAROUSEL_BULK_CSV_MARKER = ''--- canva_bulk_create_csv ---''"

definition teams_display_text :: "string \<Rightarrow> string" where
  "teams_display_text t =
    (case find_from CAROUSEL_BULK_CSV_MARKER t of Some i \<Rightarrow> py_rstrip (take i t) | None \<Rightarrow> t)"

definition domain_char :: "char \<Rightarrow> bool" where
  "domain_char c \<longleftrightarrow> (let n = (of_char c :: nat) in
     is_digit c \<or> (65 \<le> n \<and> n \<le> 90) \<or> (97 \<le> n \<and> n \<le> 122) \<or> c = CHR ''-'')"

definition mentions_canvas_domain :: "string \<Rightarrow> bool" where
  "mentions_canvas_domain t =
    search_between domain_char (\<lambda>c. domain_char c \<or> c = CHR ''.'') False ''canvasintelligence.com'' t"

text \<open>\<open>len(revised) < len(original) * 0.6\<close>: the float product of a length and 0.6 falls on no
integer other than the exact one, so the comparison is that of the exact fractions.\<close>

definition looks_hollowed :: "string \<Rightarrow> string \<Rightarrow> bool" where
  "looks_hollowed original revised =
    (mentions_canvas_domain original \<and> \<not> mentions_canvas_domain revised \<or>
     40 < length original \<and> 5 * length revised < 3 * length original \<or>
     (\<exists>c\<in>set original. is_digit c) \<and> \<not> (\<exists>c\<in>set revised. is_digit c))"

definition review_channel :: "string option \<Rightarrow> string" where
  "review_channel draft_task_type =
    (case map_of
       [(''draft-insight-to-story'', ''linkedin''), (''draft-executive-ghostwrite'', ''linkedin''),
        (''draft-carousel-post'', ''linkedin''), (''draft-newsletter'', ''email''), (''draft-case-study'', ''web''),
        (''draft-content-repurpose'', ''linkedin'')] (or_else draft_task_type []) of
       Some c \<Rightarrow> c | None \<Rightarrow> ''linkedin'')"

end
