(* ===== verification/QA_Client.thy ===== *)
theory QA_Client
  imports Brand_Rules Py_Uuid5 Task_Routing
begin

text \<open>What the QA handlers of the orchestrator stand on: the Vault client
(clients/vault_client_ext.py), the gateway client (clients/gateway_client.py,
dispatch/completion.py), the reading of a model's answer (dispatch/core.py) and the two
Teams cards of a blocked draft (teams_notify.py). Every call that leaves the process is
logged in order, and answered as the environment says from the calls before it. The
text of an HTTP error is not kept.\<close>

section \<open>State, environment, sequencing\<close>

datatype answer = No_Answer | Answer nat "json option"

datatype qa_call =
    Vault_Get string
  | Vault_List string nat
  | Vault_Post string json
  | Vault_Patch string json
  | Complete json
  | Teams string json
  | Try_Lock int
  | Unlock

text \<open>Prompts come from the verified registry manifest, the two validators are jsonschema on
the packages' schemas, the gate file is read anew each time, the register is the parsed
permission register. Two renderings (a dash outside the model's characters, an indented
dump) and the unified diff of difflib are arguments.\<close>

record qa_env =
  qe_answer :: "qa_call list \<Rightarrow> qa_call \<Rightarrow> answer"
  qe_try_lock :: "qa_call list \<Rightarrow> int \<Rightarrow> bool option"
  qe_prompt :: "string \<Rightarrow> string option"
  qe_gate_file :: "qa_call list \<Rightarrow> json option"
  qe_register :: "json option"
  qe_input_ok :: "string \<Rightarrow> json \<Rightarrow> bool"
  qe_output_ok :: "string \<Rightarrow> json \<Rightarrow> bool"
  qe_str :: "json \<Rightarrow> string"
  qe_float :: "string \<Rightarrow> string"
  qe_now :: "qa_call list \<Rightarrow> string"
  qe_carousel :: "json \<Rightarrow> string option"
  qe_case_study :: "json \<Rightarrow> string option"
  qe_diff :: "string \<Rightarrow> string \<Rightarrow> nat \<Rightarrow> string"
  qe_teams :: teams_env

text \<open>\<open>qs_ordinal\<close> is the counter of the open Vault client for the task of the handler, the
only task id a QA handler passes to it; \<open>qs_campaigns\<close> is the cache of the process.\<close>

record qa_state =
  qs_db :: orch_db
  qs_calls :: "qa_call list"
  qs_ordinal :: nat
  qs_campaigns :: "(string \<times> string) list"

type_synonym 'a qa = "qa_state \<Rightarrow> (orch_error + 'a) \<times> qa_state"

definition qa_return :: "'a \<Rightarrow> 'a qa" where
  "qa_return a st = (Inr a, st)"

definition qa_bind :: "'a qa \<Rightarrow> ('a \<Rightarrow> 'b qa) \<Rightarrow> 'b qa" where
  "qa_bind m f st = (case m st of (Inl e, st') \<Rightarrow> (Inl e, st') | (Inr a, st') \<Rightarrow> f a st')"

definition qa_lift :: "orch_error + 'a \<Rightarrow> 'a qa" where
  "qa_lift r st = (r, st)"

definition qa_need :: "orch_error \<Rightarrow> 'a option \<Rightarrow> 'a qa" where
  "qa_need e v st = (case v of Some a \<Rightarrow> (Inr a, st) | None \<Rightarrow> (Inl e, st))"

definition qa_txn :: "'a txn \<Rightarrow> 'a qa" where
  "qa_txn m st = (case m (qs_db st) of (r, db) \<Rightarrow> (r, st\<lparr>qs_db := db\<rparr>))"

definition qa_call :: "qa_env \<Rightarrow> qa_call \<Rightarrow> answer qa" where
  "qa_call env c st = (Inr (qe_answer env (qs_calls st) c), st\<lparr>qs_calls := qs_calls st @ [c]\<rparr>)"

lemma qa_bind_elim:
  assumes "qa_bind m f st = (r, st')"
  obtains (error) e where "m st = (Inl e, st')" "r = Inl e"
    | (ok) a st1 where "m st = (Inr a, st1)" "f a st1 = (r, st')"
  using assms by (auto simp: qa_bind_def split: prod.splits sum.splits)

lemma qa_bind_ok: "qa_bind m f st = (Inr b, st') \<longleftrightarrow> (\<exists>a st1. m st = (Inr a, st1) \<and> f a st1 = (Inr b, st'))"
  by (auto simp: qa_bind_def split: prod.splits sum.splits)

lemma qa_bind_run:
  "m st = (Inr a, st1) \<Longrightarrow> qa_bind m f st = f a st1"
  "m st = (Inl e, st1) \<Longrightarrow> qa_bind m f st = (Inl e, st1)"
  by (simp_all add: qa_bind_def)

section \<open>Reading JSON values\<close>

definition get_of :: "json \<Rightarrow> string \<Rightarrow> orch_error + json" where
  "get_of j k = (case j of
     JObj kvs \<Rightarrow> Inr (case jget kvs k of Some v \<Rightarrow> v | None \<Rightarrow> JNull)
   | _ \<Rightarrow> Inl (OtherError ''AttributeError''))"

definition item_of :: "json \<Rightarrow> string \<Rightarrow> orch_error + json" where
  "item_of j k = (case j of
     JObj kvs \<Rightarrow> (case jget kvs k of Some v \<Rightarrow> Inr v | None \<Rightarrow> Inl (OtherError ''KeyError''))
   | _ \<Rightarrow> Inl (OtherError ''TypeError''))"

text \<open>list(v or []) of violation codes, for codes that are texts. A text is taken apart into
characters, a dict gives its keys; a member that is not a text makes the later sort or
join raise, and raises here.\<close>

definition codes_of :: "json \<Rightarrow> string list option" where
  "codes_of v =
    (case iter_or_empty (Some v) of
       None \<Rightarrow> None
     | Some js \<Rightarrow>
         (if \<forall>j\<in>set js. \<exists>s. j = JStr s then Some (List.map_filter (\<lambda>j. case j of JStr s \<Rightarrow> Some s | _ \<Rightarrow> None) js)
          else None))"

definition str_list :: "string list \<Rightarrow> json" where
  "str_list ss = JArr (map JStr ss)"

text \<open>json.dumps with the default separators.\<close>

definition dumps_default :: "qa_env \<Rightarrow> json \<Rightarrow> string" where
  "dumps_default env j = dump_spaced (qe_float env) j"

text \<open>_parse_json_content: fenced text, a preamble before the first brace, and text after
the first value are tolerated.\<close>

definition fence :: string where "fence = ''```''"

definition unfence :: "string \<Rightarrow> string" where
  "unfence t =
    (if take 3 t \<noteq> fence then t
     else let body = (case find_from [CHR 0x0A] t of Some i \<Rightarrow> drop (Suc i) t | None \<Rightarrow> drop 3 t)
          in py_strip (case find_from fence body of Some i \<Rightarrow> take i body | None \<Rightarrow> body))"

definition skip_preamble :: "string \<Rightarrow> string" where
  "skip_preamble t =
    (if take 1 t \<in> {[CHR 0x7B], ''[''} then t
     else (case find_from [CHR 0x7B] t of Some i \<Rightarrow> drop i t | None \<Rightarrow> t))"

definition parse_json_content :: "string \<Rightarrow> orch_error + (string \<times> json) list" where
  "parse_json_content content =
    (let t = skip_preamble (unfence (py_strip content)) in
     case p_value (2 * length t + 2) t of
       None \<Rightarrow> Inl (DispatchError ''model response was not valid JSON'')
     | Some (JObj kvs, rest) \<Rightarrow> Inr kvs
     | Some (_, rest) \<Rightarrow> Inl (DispatchError ''model response was valid JSON but not an object''))"

section \<open>The Vault client\<close>

definition json_reply :: "nat list \<Rightarrow> answer \<Rightarrow> orch_error + json" where
  "json_reply ok a =
    (case a of
       No_Answer \<Rightarrow> Inl (OtherError ''httpx.HTTPError'')
     | Answer n body \<Rightarrow>
         (if n \<notin> set ok then Inl (OtherError ''VaultClientExtError'')
          else (case body of Some j \<Rightarrow> Inr j | None \<Rightarrow> Inl (OtherError ''JSONDecodeError''))))"

definition vault_get :: "qa_env \<Rightarrow> string \<Rightarrow> json qa" where
  "vault_get env path = qa_bind (qa_call env (Vault_Get path)) (\<lambda>a. qa_lift (json_reply [200] a))"

definition vault_list :: "qa_env \<Rightarrow> string \<Rightarrow> nat \<Rightarrow> json qa" where
  "vault_list env path n = qa_bind (qa_call env (Vault_List path n)) (\<lambda>a. qa_lift (json_reply [200] a))"

definition vault_post :: "qa_env \<Rightarrow> string \<Rightarrow> json \<Rightarrow> json qa" where
  "vault_post env path body = qa_bind (qa_call env (Vault_Post path body)) (\<lambda>a. qa_lift (json_reply [200, 201] a))"

definition vault_patch :: "qa_env \<Rightarrow> string \<Rightarrow> json \<Rightarrow> json qa" where
  "vault_patch env path body = qa_bind (qa_call env (Vault_Patch path body)) (\<lambda>a. qa_lift (json_reply [200] a))"

definition taxonomy :: "json \<Rightarrow> string \<Rightarrow> (string \<times> json) list" where
  "taxonomy campaign function_id =
    [(''vertical'', JStr ''marketing-os''), (''function_id'', JStr function_id), (''campaign'', campaign),
     (''evidence_grade'', JStr ''unverified''), (''consent_status'', JStr ''not_required''),
     (''retention_class'', JStr ''standard_1y'')]"

definition CAMPAIGN_LOOKUP_LIMIT :: nat where "CAMPAIGN_LOOKUP_LIMIT = 500"

text \<open>The first row of that name, or the error of a row that is no object.\<close>

fun find_campaign :: "string \<Rightarrow> json list \<Rightarrow> orch_error + json option" where
  "find_campaign name [] = Inr None"
| "find_campaign name (row # rows) =
    (case get_of row ''name'' of
       Inl e \<Rightarrow> Inl e
     | Inr v \<Rightarrow> if v = JStr name then Inr (Some row) else find_campaign name rows)"

definition remember_campaign :: "string \<Rightarrow> string \<Rightarrow> string qa" where
  "remember_campaign name i st = (Inr i, st\<lparr>qs_campaigns := dict_set name i (qs_campaigns st)\<rparr>)"

definition create_campaign :: "qa_env \<Rightarrow> string \<Rightarrow> string \<Rightarrow> json list \<Rightarrow> string qa" where
  "create_campaign env name function_id existing =
    (case existing of
       [] \<Rightarrow> qa_lift (Inl (OtherError ''VaultClientExtError''))
     | row # _ \<Rightarrow>
         qa_bind (qa_lift (item_of row ''id'')) (\<lambda>anchor.
         if anchor = JNull then qa_lift (Inl (OtherError ''VaultClientExtError''))
         else qa_bind (vault_post env ''/campaigns''
                (JObj ((''name'', JStr name) # taxonomy (JStr (str_of (qe_str env) anchor)) function_id))) (\<lambda>created.
              qa_bind (qa_lift (item_of created ''id'')) (\<lambda>i.
              remember_campaign name (str_of (qe_str env) i)))))"

definition get_or_create_campaign :: "qa_env \<Rightarrow> string \<Rightarrow> string \<Rightarrow> string qa" where
  "get_or_create_campaign env name function_id st =
    (case map_of (qs_campaigns st) name of
       Some i \<Rightarrow> (Inr i, st)
     | None \<Rightarrow>
         qa_bind (vault_list env ''/campaigns'' CAMPAIGN_LOOKUP_LIMIT) (\<lambda>listed.
         case listed of
           JArr existing \<Rightarrow>
             qa_bind (qa_lift (find_campaign name existing)) (\<lambda>hit.
             case hit of
               Some row \<Rightarrow> qa_bind (qa_lift (item_of row ''id'')) (\<lambda>i. remember_campaign name (str_of (qe_str env) i))
             | None \<Rightarrow> create_campaign env name function_id existing)
         | _ \<Rightarrow> qa_lift (Inl (OtherError ''TypeError''))) st)"

text \<open>Entering the client's with block starts its counter of agent runs at zero.\<close>

definition open_vault :: "unit qa" where
  "open_vault st = (Inr (), st\<lparr>qs_ordinal := 0\<rparr>)"

definition agent_run_body :: "string \<Rightarrow> string \<Rightarrow> string \<Rightarrow> json \<Rightarrow> json" where
  "agent_run_body agent_name campaign function_id input =
    JObj ([(''agent_name'', JStr agent_name), (''campaign'', JStr campaign), (''status'', JStr ''running''),
      (''input'', input), (''output'', JObj [])] @
      filter (\<lambda>kv. fst kv \<noteq> ''campaign'') (taxonomy (JStr campaign) function_id))"

definition ordinal_key :: "tid \<Rightarrow> nat \<Rightarrow> nat" where
  "ordinal_key t n = uuid5 t (''agent_run:'' @ nat_str n)"

definition next_ordinal :: "nat qa" where
  "next_ordinal st = (Inr (Suc (qs_ordinal st)), st\<lparr>qs_ordinal := Suc (qs_ordinal st)\<rparr>)"

definition ledgered :: "nat \<Rightarrow> nat option qa" where
  "ledgered key st = (Inr (get_ledgered_agent_run key (qs_db st)), st)"

definition create_agent_run_idempotent :: "qa_env \<Rightarrow> tid \<Rightarrow> string \<Rightarrow> string \<Rightarrow> string \<Rightarrow> json \<Rightarrow> json qa" where
  "create_agent_run_idempotent env t agent_name campaign function_id input =
    qa_bind next_ordinal (\<lambda>n.
    qa_bind (ledgered (ordinal_key t n)) (\<lambda>existing.
    case existing of
      Some run \<Rightarrow> vault_get env (''/agent-runs/'' @ uuid_str run)
    | None \<Rightarrow>
        qa_bind (vault_post env ''/agent-runs'' (agent_run_body agent_name campaign function_id input)) (\<lambda>created.
        qa_bind (qa_lift (item_of created ''id'')) (\<lambda>i.
        qa_bind (qa_need (OtherError ''DataError'') (py_uuid (str_of (qe_str env) i))) (\<lambda>run.
        qa_bind (qa_txn (record_ledgered_agent_run (ordinal_key t n) t run)) (\<lambda>_.
        qa_return created))))))"

definition update_agent_run :: "qa_env \<Rightarrow> json \<Rightarrow> string \<Rightarrow> json \<Rightarrow> unit qa" where
  "update_agent_run env i status output st =
    qa_bind (vault_patch env (''/agent-runs/'' @ str_of (qe_str env) i)
      (JObj [(''status'', JStr status), (''output'', output), (''completed_at'', JStr (qe_now env (qs_calls st)))]))
      (\<lambda>_. qa_return ()) st"

definition create_asset :: "qa_env \<Rightarrow> string \<Rightarrow> json \<Rightarrow> string \<Rightarrow> string \<Rightarrow> string \<Rightarrow> json qa" where
  "create_asset env asset_type run campaign function_id content =
    vault_post env ''/assets''
      (JObj ([(''asset_type'', JStr asset_type), (''agent_run_id'', run), (''campaign'', JStr campaign),
         (''brief_id'', JNull), (''predecessor_asset_id'', JNull), (''approval_state'', JStr ''draft''),
         (''content_base64'', JStr (b64encode (utf8_encode content)))] @
         filter (\<lambda>kv. fst kv \<noteq> ''campaign'') (taxonomy (JStr campaign) function_id)))"

section \<open>The gateway client\<close>

definition COMPLETION_RESPONSE_REQUIRED :: "string list" where
  "COMPLETION_RESPONSE_REQUIRED = [''id'', ''model'', ''content'', ''usage'', ''agent_run_id'']"

definition completion_payload :: "string \<Rightarrow> string \<Rightarrow> json \<Rightarrow> nat \<Rightarrow> json" where
  "completion_payload prompt user run max_tokens =
    JObj ([(''model'', JStr ''claude-sonnet''),
      (''messages'', JArr [JObj [(''role'', JStr ''system''), (''content'', JStr prompt)],
                          JObj [(''role'', JStr ''user''), (''content'', JStr user)]]),
      (''agent_run_id'', run), (''max_tokens'', JInt (int max_tokens)),
      (''content_class'', JStr ''public_source_content'')] @
      (if run = JNull then [] else [(''task_ref'', run)]))"

definition validate_response :: "answer \<Rightarrow> orch_error + (string \<times> json) list" where
  "validate_response a =
    (case a of
       No_Answer \<Rightarrow> Inl (OtherError ''httpx.HTTPError'')
     | Answer n body \<Rightarrow>
         (if n \<noteq> 200 then Inl (OtherError ''GatewayClientError'')
          else (case body of
                  None \<Rightarrow> Inl (OtherError ''JSONDecodeError'')
                | Some (JObj kvs) \<Rightarrow>
                    (if \<forall>k\<in>set COMPLETION_RESPONSE_REQUIRED. jget kvs k \<noteq> None then Inr kvs
                     else Inl (OtherError ''GatewayClientError''))
                | Some _ \<Rightarrow> Inl (OtherError ''GatewayClientError''))))"

text \<open>The cost is read back for a span only, and any error of that is swallowed.\<close>

definition complete_and_meter :: "qa_env \<Rightarrow> string \<Rightarrow> string \<Rightarrow> json \<Rightarrow> nat \<Rightarrow> ((string \<times> json) list) qa" where
  "complete_and_meter env prompt user run max_tokens =
    qa_bind (qa_call env (Complete (completion_payload prompt user run max_tokens))) (\<lambda>a.
    qa_bind (qa_lift (validate_response a)) (\<lambda>response.
    case jget response ''cost_id'' of
      None \<Rightarrow> qa_return response
    | Some c \<Rightarrow>
        (if \<not> jtruth c then qa_return response
         else qa_bind (qa_call env (Vault_Get (''/costs/'' @ str_of (qe_str env) c))) (\<lambda>_. qa_return response))))"

text \<open>response["content"], parsed.\<close>

definition parsed_content :: "(string \<times> json) list \<Rightarrow> orch_error + (string \<times> json) list" where
  "parsed_content response =
    (case jget response ''content'' of
       Some (JStr s) \<Rightarrow> parse_json_content s
     | Some _ \<Rightarrow> Inl (OtherError ''AttributeError'')
     | None \<Rightarrow> Inl (OtherError ''KeyError''))"

section \<open>Teams cards\<close>

definition text_block :: "(string \<times> json) list \<Rightarrow> string \<Rightarrow> json" where
  "text_block style t = JObj ((''type'', JStr ''TextBlock'') # style @ [(''text'', JStr t)])"

abbreviation title_style :: "(string \<times> json) list" where
  "title_style \<equiv> [(''size'', JStr ''Medium''), (''weight'', JStr ''Bolder''), (''wrap'', JBool True)]"

abbreviation head_style :: "(string \<times> json) list" where
  "head_style \<equiv> [(''weight'', JStr ''Bolder''), (''wrap'', JBool True)]"

abbreviation subtle_style :: "(string \<times> json) list" where
  "subtle_style \<equiv> [(''wrap'', JBool True), (''isSubtle'', JBool True)]"

abbreviation mono_style :: "(string \<times> json) list" where
  "mono_style \<equiv> [(''wrap'', JBool True), (''fontType'', JStr ''Monospace'')]"

definition fact_set :: "(string \<times> string) list \<Rightarrow> json" where
  "fact_set facts = JObj [(''type'', JStr ''FactSet''), (''facts'', JArr (map (\<lambda>(t, v). card_fact t v) facts))]"

definition adaptive_card :: "json list \<Rightarrow> string option \<Rightarrow> json" where
  "adaptive_card body review =
    JObj [(''type'', JStr ''message''),
      (''attachments'', JArr [JObj
        [(''contentType'', JStr ''application/vnd.microsoft.card.adaptive''), (''contentUrl'', JNull),
         (''content'', JObj
           ([(''$schema'', JStr ''http://adaptivecards.io/schemas/adaptive-card.json''),
             (''type'', JStr ''AdaptiveCard''), (''version'', JStr ''1.4''), (''body'', JArr body)] @
            (if truthy review then
               [(''actions'', JArr [JObj [(''type'', JStr ''Action.OpenUrl''),
                   (''title'', JStr ''Review in console''), (''url'', JStr (the review))]])]
             else [])))]])]"

text \<open>", ".join(violations) or "unknown"\<close>

definition shown_violations :: "string list \<Rightarrow> string" where
  "shown_violations vs = (let j = join_with '', '' vs in if j = [] then ''unknown'' else j)"

definition build_needs_edit_card :: "tid \<Rightarrow> string \<Rightarrow> string list \<Rightarrow> string \<Rightarrow> string option \<Rightarrow> json" where
  "build_needs_edit_card t channel violations excerpt review =
    adaptive_card
      [text_block title_style ''Needs edit: Brand Steward QA blocked a draft'',
       fact_set [(''Task id'', uuid_str t), (''Channel'', channel), (''Violations'', shown_violations violations)],
       text_block subtle_style excerpt] review"

definition build_retry_exhausted_card ::
    "tid \<Rightarrow> tid \<Rightarrow> string \<Rightarrow> string list \<Rightarrow> string \<Rightarrow> string \<Rightarrow> string \<Rightarrow> nat \<Rightarrow> bool \<Rightarrow> string option \<Rightarrow> json" where
  "build_retry_exhausted_card t draft channel violations original revised diff attempts hollowed review =
    adaptive_card
      ([text_block title_style (''Needs edit: QA retry loop exhausted ('' @ nat_str attempts @ '' attempts)''),
        fact_set [(''QA task id'', uuid_str t), (''Draft task id'', uuid_str draft), (''Channel'', channel),
          (''Violations remaining'', shown_violations violations),
          (''Possible over-correction'', if hollowed then ''yes -- review closely'' else ''no'')],
        text_block head_style ''Original draft (excerpt):'', text_block subtle_style original,
        text_block head_style (''After attempt '' @ nat_str attempts @ '' (excerpt):''),
        text_block subtle_style revised] @
       (if py_strip diff = [] then []
        else [text_block head_style ''Track changes (original -> last attempt):'', text_block mono_style diff]) @
       [text_block subtle_style
          (''Comment your own edit and re-run the approval loop, or route to the '' @
           ''approval-gate subsystem for a manual decision.'')]) review"

text \<open>A card is posted when the webhook is set; an exception of the POST is swallowed.\<close>

definition review_link :: "teams_env \<Rightarrow> tid \<Rightarrow> string option" where
  "review_link tm t = (if truthy (tm_console tm) then Some (review_url (the (tm_console tm)) t) else None)"

definition post_card :: "qa_env \<Rightarrow> json \<Rightarrow> bool qa" where
  "post_card env posted =
    (if \<not> truthy (tm_webhook (qe_teams env)) then qa_return False
     else qa_bind (qa_call env (Teams (the (tm_webhook (qe_teams env))) posted)) (\<lambda>_. qa_return True))"

definition notify_needs_edit :: "qa_env \<Rightarrow> tid \<Rightarrow> string \<Rightarrow> string list \<Rightarrow> string \<Rightarrow> bool qa" where
  "notify_needs_edit env t channel violations excerpt =
    post_card env (build_needs_edit_card t channel violations excerpt (review_link (qe_teams env) t))"

definition notify_retry_exhausted ::
    "qa_env \<Rightarrow> tid \<Rightarrow> tid \<Rightarrow> string \<Rightarrow> string list \<Rightarrow> string \<Rightarrow> string \<Rightarrow> string \<Rightarrow> nat \<Rightarrow> bool \<Rightarrow> bool qa" where
  "notify_retry_exhausted env t draft channel violations original revised diff attempts hollowed =
    post_card env (build_retry_exhausted_card t draft channel violations original revised diff attempts hollowed
      (review_link (qe_teams env) t))"

section \<open>The model's answer, printed and read back\<close>

text \<open>A printed object is read back whatever follows it.\<close>

lemma parse_object:
  assumes "wf_json (JObj kvs)" and "n \<ge> 2 * length (dumps fr (JObj kvs))"
  shows "p_value n (dumps fr (JObj kvs) @ rest) = Some (JObj kvs, rest)"
proof (cases kvs)
  case Nil
  with assms(2) show ?thesis by (cases n) auto
next
  case (Cons kv ks)
  obtain m where n: "n = Suc m" using assms(2) by (cases n) auto
  obtain k v where kv: "kv = (k, v)" by force
  have "\<forall>(k, v)\<in>set kvs. wf_json v" using assms(1) by simp
  then have "p_pairs m (dump_pairs fr kvs @ CHR 0x7D # rest) = Some (kvs, rest)"
    using assms(2) Cons n by (intro parse_dump(3)) simp_all
  moreover have "dict_of kvs = kvs" using assms(1) by (intro dict_of_distinct) simp
  ultimately show ?thesis using n Cons kv by (simp add: dump_str_def json_ws_def)
qed


lemma dropWhile_stop: "\<not> P e \<Longrightarrow> dropWhile P (xs @ e # ys) = dropWhile P xs @ e # ys"
  by (induction xs) auto

lemma strip_around:
  assumes "\<not> py_space c" and "\<not> py_space e"
  shows "py_strip (l @ (c # s @ [e]) @ r) = dropWhile py_space l @ (c # s @ [e]) @ py_rstrip r"
  using assms by (simp add: py_strip_def py_rstrip_def dropWhile_stop)

lemma dumps_object: "\<exists>s. dumps fr (JObj kvs) = CHR 0x7B # s @ [CHR 0x7D]"
  by simp

lemma find_from_append: "w = [c] \<Longrightarrow> c \<notin> set xs \<Longrightarrow> find_from w (xs @ c # ys) = Some (length xs)"
  by (induction xs) auto

lemma find_fence: "CHR ''`'' \<notin> set xs \<Longrightarrow> find_from fence (xs @ fence @ ys) = Some (length xs)"
  by (induction xs) (auto simp: fence_def)

lemma unfence_id: "take 1 t \<noteq> [CHR ''`''] \<Longrightarrow> unfence t = t"
  by (cases t) (auto simp: unfence_def fence_def)

lemma bare_object_read:
  assumes "wf_json (JObj kvs)" and b: "set before \<inter> {CHR 0x7B, CHR ''['', CHR ''`''} = {}"
  shows "parse_json_content (before @ dumps fr (JObj kvs) @ after) = Inr kvs"
proof -
  let ?d = "dumps fr (JObj kvs)"
  obtain s where d: "?d = CHR 0x7B # s @ [CHR 0x7D]" using dumps_object by blast
  have sp: "\<not> py_space (CHR 0x7B)" "\<not> py_space (CHR 0x7D)" "\<not> py_space (CHR ''`'')" by (simp_all add: py_space_def)
  obtain w where w: "dropWhile py_space before = w" "set w \<inter> {CHR 0x7B, CHR ''['', CHR ''`''} = {}"
    using b by (meson disjoint_iff set_dropWhileD)
  have st: "py_strip (before @ ?d @ after) = w @ ?d @ py_rstrip after"
    unfolding d using strip_around[OF sp(1,2), of before s after] w(1) by simp
  have nf: "unfence (w @ ?d @ py_rstrip after) = w @ ?d @ py_rstrip after"
    using w(2) by (intro unfence_id) (cases w, auto simp: d)
  have sk: "skip_preamble (w @ ?d @ py_rstrip after) = ?d @ py_rstrip after"
    using w(2) find_from_append[OF refl, of "CHR 0x7B" w "s @ CHR 0x7D # py_rstrip after"]
    by (cases w) (auto simp: skip_preamble_def d simp del: dumps.simps)
  show ?thesis
    unfolding parse_json_content_def st nf sk Let_def using assms by (subst parse_object) auto
qed

lemma fenced_object_read:
  assumes "wf_json (JObj kvs)"
    and t: "set tag \<inter> {CHR 0x0A, CHR ''`''} = {}" "CHR ''`'' \<notin> set (dumps fr (JObj kvs))"
  shows "parse_json_content (fence @ tag @ [CHR 0x0A] @ dumps fr (JObj kvs) @ [CHR 0x0A] @ fence @ after) = Inr kvs"
proof -
  let ?d = "dumps fr (JObj kvs)"
  obtain s where d: "?d = CHR 0x7B # s @ [CHR 0x7D]" using dumps_object by blast
  have sp: "\<not> py_space (CHR 0x7B)" "\<not> py_space (CHR 0x7D)" "\<not> py_space (CHR ''`'')" by (simp_all add: py_space_def)
  let ?r = "py_rstrip after" and ?nl = "[CHR 0x0A]"
  have st: "py_strip (fence @ tag @ ?nl @ ?d @ ?nl @ fence @ after) = fence @ tag @ ?nl @ ?d @ ?nl @ fence @ ?r"
    using strip_around[OF sp(3,3), of "[]" "''``'' @ tag @ ?nl @ ?d @ ?nl @ ''``''" after]
    by (simp add: fence_def del: dumps.simps)
  have nl: "find_from ?nl ((fence @ tag) @ CHR 0x0A # ?d @ ?nl @ fence @ ?r) = Some (length (fence @ tag))"
    using t by (intro find_from_append) (auto simp: fence_def)
  have fe: "find_from fence ((?d @ ?nl) @ fence @ ?r) = Some (length (?d @ ?nl))"
    using t(2) by (intro find_fence) (auto simp del: dumps.simps)
  have body: "py_strip (?d @ ?nl) = ?d"
    using strip_around[OF sp(1,2), of "[]" s ?nl] unfolding d by (simp add: py_rstrip_def py_space_def)
  have un: "unfence (fence @ tag @ ?nl @ ?d @ ?nl @ fence @ ?r) = ?d"
    using nl fe body by (simp add: unfence_def fence_def del: dumps.simps)
  have sk: "skip_preamble ?d = ?d" by (simp add: skip_preamble_def)
  show ?thesis
    unfolding parse_json_content_def st un sk Let_def
    using assms parse_object[of kvs fr "2 * length ?d + 2" "[]"] by (simp del: dumps.simps p_value.simps)
qed

text \<open>C19: A JSON object that the model prints is read back as that object, with any text after
it and with any text before it that has no brace, bracket or backtick; also inside a
fence with a language tag, as long as the object has no backtick in it.\<close>

theorem model_answer_round_trip:
  assumes "wf_json (JObj kvs)"
  shows "(set before \<inter> {CHR 0x7B, CHR ''['', CHR ''`''} = {} \<longrightarrow>
      parse_json_content (before @ dumps fr (JObj kvs) @ after) = Inr kvs) \<and>
    (set tag \<inter> {CHR 0x0A, CHR ''`''} = {} \<and> CHR ''`'' \<notin> set (dumps fr (JObj kvs)) \<longrightarrow>
      parse_json_content (fence @ tag @ [CHR 0x0A] @ dumps fr (JObj kvs) @ [CHR 0x0A] @ fence @ after) = Inr kvs)"
  by (intro conjI impI bare_object_read[OF assms] fenced_object_read[OF assms]) simp_all

text \<open>The fence is searched for in the JSON text too: an object whose text has one is cut short.\<close>

lemma fence_in_text_is_refused:
  "parse_json_content (fence @ [CHR 0x0A] @ dumps id (JObj [(fence, JNull)]) @ [CHR 0x0A] @ fence) =
    Inl (DispatchError ''model response was not valid JSON'')"
proof -
  have d: "dumps id (JObj [(fence, JNull)]) = [CHR 0x7B, CHR 0x22] @ fence @ CHR 0x22 # CHR '':'' # ''null}''"
    by (simp add: fence_def dump_str_def esc_char_def)
  have st: "py_strip (fence @ [CHR 0x0A] @ dumps id (JObj [(fence, JNull)]) @ [CHR 0x0A] @ fence) =
      fence @ [CHR 0x0A] @ dumps id (JObj [(fence, JNull)]) @ [CHR 0x0A] @ fence"
    unfolding d by (simp add: fence_def py_strip_def py_space_def)
  have un: "unfence (fence @ [CHR 0x0A] @ dumps id (JObj [(fence, JNull)]) @ [CHR 0x0A] @ fence) = [CHR 0x7B, CHR 0x22]"
    unfolding d by (simp add: unfence_def fence_def py_strip_def py_space_def)
  have "p_value 6 [CHR 0x7B, CHR 0x22] = None"
    by (simp add: eval_nat_numeral json_ws_def)
  then show ?thesis unfolding parse_json_content_def st un Let_def by (simp add: skip_preamble_def del: p_value.simps)
qed

end
