(* ===== verification/QA_Review.thy ===== *)
theory QA_Review
  imports QA_Client Governance_Lib
begin

text \<open>The per-draft QA gates and their bounded regenerate-and-recheck loop
(dispatch/handlers/qa_retry.py, dispatch/qa_common.py). A handler runs against the
orchestrator's database and against the services of QA_Client; its database
transactions and its calls happen in the order of the code.\<close>

definition MAX_QA_RETRY_ATTEMPTS :: nat where "MAX_QA_RETRY_ATTEMPTS = 10"

datatype review_kind = Brand_Steward | Fact_Check

fun other_kind :: "review_kind \<Rightarrow> review_kind" where
  "other_kind Brand_Steward = Fact_Check"
| "other_kind Fact_Check = Brand_Steward"

fun kind_text :: "review_kind \<Rightarrow> string" where
  "kind_text Brand_Steward = ''brand_steward''"
| "kind_text Fact_Check = ''fact_check''"

record review_params =
  rp_task_type :: string
  rp_function :: string
  rp_prompt :: string
  rp_agent :: string

fun qa_review_params :: "review_kind \<Rightarrow> review_params" where
  "qa_review_params Brand_Steward =
    \<lparr>rp_task_type = ''qa-review-brand-steward'', rp_function = ''02-brand-steward-qa'',
     rp_prompt = ''02-brand-steward-qa'', rp_agent = ''brand-steward-qa''\<rparr>"
| "qa_review_params Fact_Check =
    \<lparr>rp_task_type = ''qa-review-fact-check'', rp_function = ''48-fact-check-verdict'',
     rp_prompt = ''48-fact-check-verdict'', rp_agent = ''fact-check-verdict''\<rparr>"

section \<open>Rendering a regenerated draft\<close>

text \<open>output.get(key, '') inside an f-string.\<close>

definition shown_field :: "qa_env \<Rightarrow> (string \<times> json) list \<Rightarrow> string \<Rightarrow> string" where
  "shown_field env out k = (case jget out k of Some v \<Rightarrow> str_of (qe_str env) v | None \<Rightarrow> [])"

definition render_simple_post :: "qa_env \<Rightarrow> (string \<times> json) list \<Rightarrow> string option" where
  "render_simple_post env out =
    Some (py_strip (shown_field env out ''post'' @ [CHR 0x0A, CHR 0x0A] @ shown_field env out ''cta_url''))"

definition render_newsletter :: "qa_env \<Rightarrow> (string \<times> json) list \<Rightarrow> string option" where
  "render_newsletter env out =
    Some (''Subject: '' @ shown_field env out ''subject'' @ [CHR 0x0A, CHR 0x0A] @ shown_field env out ''body'')"

record recipe =
  rc_function :: string
  rc_prompt :: string
  rc_agent :: string
  rc_asset_type :: string
  rc_render :: "qa_env \<Rightarrow> (string \<times> json) list \<Rightarrow> string option"
  rc_max_tokens :: nat

definition draft_regen_params :: "string \<Rightarrow> recipe option" where
  "draft_regen_params draft_type = map_of
    [(''draft-insight-to-story'',
       \<lparr>rc_function = ''39-insight-to-story-editor'', rc_prompt = ''39-insight-to-story-editor'',
        rc_agent = ''insight-to-story-editor'', rc_asset_type = ''linkedin_post'',
        rc_render = render_simple_post, rc_max_tokens = 2048\<rparr>),
     (''draft-executive-ghostwrite'',
       \<lparr>rc_function = ''43-executive-ghostwriter'', rc_prompt = ''43-executive-ghostwriter'',
        rc_agent = ''executive-ghostwriter'', rc_asset_type = ''linkedin_post'',
        rc_render = render_simple_post, rc_max_tokens = 2560\<rparr>),
     (''draft-carousel-post'',
       \<lparr>rc_function = ''45-carousel-post-writer'', rc_prompt = ''45-carousel-post-writer'',
        rc_agent = ''carousel-post-writer'', rc_asset_type = ''carousel_post'',
        rc_render = (\<lambda>env out. qe_carousel env (JObj out)), rc_max_tokens = 2560\<rparr>),
     (''draft-newsletter'',
       \<lparr>rc_function = ''46-newsletter-writer'', rc_prompt = ''46-newsletter-writer'',
        rc_agent = ''newsletter-writer'', rc_asset_type = ''newsletter'',
        rc_render = render_newsletter, rc_max_tokens = 3584\<rparr>),
     (''draft-case-study'',
       \<lparr>rc_function = ''47-case-study-writer'', rc_prompt = ''47-case-study-writer'',
        rc_agent = ''case-study-writer'', rc_asset_type = ''case_study'',
        rc_render = (\<lambda>env out. qe_case_study env (JObj out)), rc_max_tokens = 4096\<rparr>)] draft_type"

section \<open>Small parts\<close>

definition campaign_name :: "task_envelope \<Rightarrow> string" where
  "campaign_name e = ''run-'' @ uuid_str (te_campaign e)"

definition is_proof_circuit :: "task_envelope \<Rightarrow> bool" where
  "is_proof_circuit e = (case te_metadata e of Some m \<Rightarrow> map_of m ''proof_circuit'' = Some ''true'' | None \<Rightarrow> False)"

definition agent_name_of :: "string \<Rightarrow> task_envelope \<Rightarrow> string" where
  "agent_name_of base e = (if is_proof_circuit e then AGENT_NAME_LOOP_PROOF else base)"

definition read_prompt :: "qa_env \<Rightarrow> string \<Rightarrow> string qa" where
  "read_prompt env dir = qa_need (OtherError ''ManifestVerificationError'') (qe_prompt env dir)"

definition find_lineage :: "tid \<Rightarrow> (task_row \<times> json) option qa" where
  "find_lineage i st = (Inr (resolve_lineage_result i (qs_db st)), st)"

definition block_task :: "tid \<Rightarrow> json \<Rightarrow> unit qa" where
  "block_task t ref = qa_bind (qa_txn (set_result_ref t ref)) (\<lambda>_. qa_txn (transition t FAILED QA_BLOCKED_R))"

definition settle_completed :: "tid \<Rightarrow> json \<Rightarrow> unit qa" where
  "settle_completed t ref =
    qa_bind (qa_txn (set_result_ref t ref)) (\<lambda>_.
    qa_bind (qa_txn (transition t COMPLETED COMPLETED_R)) (\<lambda>_.
    qa_bind (qa_txn (advance_dependents t)) (\<lambda>_. qa_return ())))"

definition FACT_CHECK_GATE_NOT_APPROVED :: string where
  "FACT_CHECK_GATE_NOT_APPROVED = ''fact-check-policy-not-approved''"

definition QA_VERDICT_UNSPECIFIED_FAILURE :: string where
  "QA_VERDICT_UNSPECIFIED_FAILURE = ''verdict-declared-failure-without-code''"

definition fact_check_gate_approved :: "qa_env \<Rightarrow> bool qa" where
  "fact_check_gate_approved env st =
    (case qe_gate_file env (qs_calls st) of
       None \<Rightarrow> (Inl (OtherError ''YAMLError''), st)
     | Some j \<Rightarrow>
         (case get_of (if jtruth j then j else JObj []) ''approved'' of
            Inl x \<Rightarrow> (Inl x, st)
          | Inr v \<Rightarrow> (Inr (jtruth v), st)))"

definition draft_fields :: "task_row \<Rightarrow> (string \<times> json) list" where
  "draft_fields d = [(''draft_task_id'', JStr (uuid_str (tk_id d))), (''draft_task_type'', JStr (tk_type d))]"

definition finalize_qa_failure ::
    "qa_env \<Rightarrow> tid \<Rightarrow> string list \<Rightarrow> task_row \<Rightarrow> string \<Rightarrow> json \<Rightarrow> json \<Rightarrow> unit qa" where
  "finalize_qa_failure env t violations d draft_text run campaign =
    qa_bind (block_task t (JObj ([(''pass'', JBool False), (''violations'', str_list violations)] @ draft_fields d @
      [(''agent_run_id'', run), (''campaign_id'', campaign)]))) (\<lambda>_.
    qa_bind (notify_needs_edit env t ''linkedin'' violations (take 280 (teams_display_text draft_text))) (\<lambda>_.
    qa_return ()))"

definition block_fact_check_gate_not_approved :: "qa_env \<Rightarrow> tid \<Rightarrow> task_row \<Rightarrow> json \<Rightarrow> unit qa" where
  "block_fact_check_gate_not_approved env t d campaign =
    qa_bind (block_task t (JObj ([(''pass'', JBool False), (''violations'', str_list [FACT_CHECK_GATE_NOT_APPROVED])] @
      draft_fields d @ [(''campaign_id'', campaign)]))) (\<lambda>_.
    qa_bind (notify_needs_edit env t (review_channel (Some (tk_type d))) [FACT_CHECK_GATE_NOT_APPROVED]
      (take 280 (''Thursday fact-check gate is disabled pending Pieter'' @ [CHR 0x27] @ ''s actual '' @
       ''sign-off -- see policies/fact-check-gate.yaml and '' @
       ''functions/48-fact-check-verdict/REVIEW-PACKET.md.''))) (\<lambda>_. qa_return ()))"

section \<open>One regeneration\<close>

definition revision_instruction :: string where
  "revision_instruction =
    ''This is a revision, not a new draft. The previous draft above '' @
    ''failed QA review on exactly the violations listed. Fix only '' @
    ''those specific issues. Do not remove the call to action, do '' @
    ''not remove or alter the canvasintelligence.com URL, do not '' @
    ''drop any proof point, statistic, or named product/partner '' @
    ''reference that was not itself flagged. Keep the output '' @
    ''approximately the same length and shape as the previous draft '' @
    ''unless a flagged violation requires otherwise.''"

text \<open>What the loop reads once from the brief of the draft.\<close>

record brief_context =
  bc_campaign :: string
  bc_brief :: json
  bc_pillar :: json
  bc_vertical :: json
  bc_audience :: json

definition revision_content :: "qa_env \<Rightarrow> brief_context \<Rightarrow> string \<Rightarrow> string list \<Rightarrow> string" where
  "revision_content env b previous violations =
    dumps_default env (JObj [(''brief'', bc_brief b), (''pillar'', bc_pillar b), (''vertical'', bc_vertical b),
      (''audience_note'', bc_audience b),
      (''revision_feedback'', JObj [(''previous_draft'', JStr previous), (''violations_to_fix'', str_list violations),
         (''instruction'', JStr revision_instruction)])])"

text \<open>The result is the new text and the id of the agent run.\<close>

definition regenerate_draft_content ::
    "qa_env \<Rightarrow> tid \<Rightarrow> task_envelope \<Rightarrow> brief_context \<Rightarrow> recipe \<Rightarrow> string \<Rightarrow> string list \<Rightarrow> nat \<Rightarrow> (string \<times> json) qa" where
  "regenerate_draft_content env t e b rc previous violations attempt =
    qa_bind (create_agent_run_idempotent env t (agent_name_of (rc_agent rc) e) (bc_campaign b) (rc_function rc)
      (JObj [(''pillar'', bc_pillar b), (''retry_attempt'', JInt (int attempt)),
             (''revision_violations'', str_list violations)])) (\<lambda>agent_run.
    qa_bind (read_prompt env (rc_prompt rc)) (\<lambda>prompt.
    qa_bind (qa_lift (item_of agent_run ''id'')) (\<lambda>run.
    qa_bind (complete_and_meter env prompt (revision_content env b previous violations) run (rc_max_tokens rc)) (\<lambda>response.
    qa_bind (qa_lift (parsed_content response)) (\<lambda>out.
    qa_bind (qa_need (OtherError ''render'') (rc_render rc env out)) (\<lambda>draft_text.
    qa_bind (update_agent_run env run ''succeeded'' (JObj out)) (\<lambda>_.
    qa_return (draft_text, run))))))))"

section \<open>One QA check of a regenerated draft\<close>

definition violations_of :: "(string \<times> json) list \<Rightarrow> string list qa" where
  "violations_of verdict =
    qa_need (OtherError ''TypeError'') (codes_of (case jget verdict ''violations'' of Some v \<Rightarrow> v | None \<Rightarrow> JNull))"

definition run_single_qa_check ::
    "qa_env \<Rightarrow> tid \<Rightarrow> task_envelope \<Rightarrow> string \<Rightarrow> string \<Rightarrow> review_kind \<Rightarrow> (string list \<times> json) qa" where
  "run_single_qa_check env t e campaign draft_text kind =
    (let params = qa_review_params kind in
    qa_bind (read_prompt env (rp_prompt params)) (\<lambda>prompt.
    qa_bind (create_agent_run_idempotent env t (agent_name_of (rp_agent params) e) campaign (rp_function params)
      (JObj [(''channel'', JStr ''linkedin''), (''review_kind'', JStr (kind_text kind))])) (\<lambda>agent_run.
    qa_bind (qa_lift (item_of agent_run ''id'')) (\<lambda>run.
    qa_bind (complete_and_meter env prompt
      (dumps_default env (JObj [(''draft_text'', JStr draft_text), (''client_references'', JArr []),
         (''channel'', JStr ''linkedin'')])) run 1536) (\<lambda>response.
    qa_bind (qa_lift (parsed_content response)) (\<lambda>verdict.
    qa_bind (violations_of verdict) (\<lambda>named.
    let uncleared = find_uncleared_references (qe_str env) [] [];
        violations = (if uncleared \<noteq> [] \<and> VIOLATION_CODE \<notin> set named then named @ [VIOLATION_CODE] else named);
        reconciled = fst (reconcile_violations violations draft_text)
    in qa_bind (update_agent_run env run (if reconciled = [] then ''succeeded'' else ''failed'')
         (JObj [(''pass'', JBool (reconciled = [])), (''violations'', str_list reconciled)])) (\<lambda>_.
       qa_return (reconciled, run)))))))))"

section \<open>The retry loop\<close>

record retry_context =
  rx_task :: tid
  rx_envelope :: task_envelope
  rx_draft :: task_row
  rx_recipe :: recipe
  rx_initial :: string
  rx_brief :: brief_context

record retry_vars =
  rv_text :: string
  rv_brand :: "string list"
  rv_fact :: "string list"
  rv_hollowed :: bool
  rv_asset :: json
  rv_brand_run :: json
  rv_fact_run :: json

definition never_retryable :: "string list" where
  "never_retryable = [VIOLATION_CODE, FACT_CHECK_GATE_NOT_APPROVED]"

definition revision_targets :: "retry_vars \<Rightarrow> string list" where
  "revision_targets v = py_sorted (remdups (rv_brand v @ rv_fact v))"

definition fact_recheck :: "qa_env \<Rightarrow> retry_context \<Rightarrow> string \<Rightarrow> (string list \<times> json) qa" where
  "fact_recheck env x draft_text =
    qa_bind (fact_check_gate_approved env) (\<lambda>approved.
    if approved then run_single_qa_check env (rx_task x) (rx_envelope x) (bc_campaign (rx_brief x)) draft_text Fact_Check
    else qa_return ([FACT_CHECK_GATE_NOT_APPROVED], JNull))"

definition retry_attempt :: "qa_env \<Rightarrow> retry_context \<Rightarrow> nat \<Rightarrow> retry_vars \<Rightarrow> retry_vars qa" where
  "retry_attempt env x attempt v =
    (let b = rx_brief x; rc = rx_recipe x in
    qa_bind (regenerate_draft_content env (rx_task x) (rx_envelope x) b rc (rv_text v) (revision_targets v) attempt) (\<lambda>(revised, run).
    qa_bind (create_asset env (rc_asset_type rc) run (bc_campaign b) (rc_function rc) revised) (\<lambda>asset.
    qa_bind (qa_lift (item_of asset ''id'')) (\<lambda>asset_id.
    qa_bind (qa_lift (item_of asset ''content_hash'')) (\<lambda>content_hash.
    qa_bind (qa_txn (set_result_ref (tk_id (rx_draft x))
      (JObj [(''vault_asset_id'', asset_id), (''content_hash'', content_hash), (''agent_run_id'', run),
             (''campaign_id'', JStr (bc_campaign b)), (''pillar'', bc_pillar b), (''retry_attempt'', JInt (int attempt))]))) (\<lambda>_.
    qa_bind (run_single_qa_check env (rx_task x) (rx_envelope x) (bc_campaign b) revised Brand_Steward) (\<lambda>(brand, brand_run).
    qa_bind (fact_recheck env x revised) (\<lambda>(fact, fact_run).
    qa_return \<lparr>rv_text = revised, rv_brand = brand, rv_fact = fact,
      rv_hollowed = (rv_hollowed v \<or> looks_hollowed (rx_initial x) revised), rv_asset = asset,
      rv_brand_run = brand_run, rv_fact_run = fact_run\<rparr>))))))))"

text \<open>The for loop over attempts with its break and its return: whether both checks passed,
the number of the attempt it stopped at and the variables there.\<close>

fun retry_attempts :: "qa_env \<Rightarrow> retry_context \<Rightarrow> nat \<Rightarrow> nat \<Rightarrow> retry_vars \<Rightarrow> (bool \<times> nat \<times> retry_vars) qa" where
  "retry_attempts env x 0 attempt v = qa_return (False, attempt, v)"
| "retry_attempts env x (Suc n) attempt v =
    (if set never_retryable \<inter> set (revision_targets v) \<noteq> {} then qa_return (False, Suc attempt, v)
     else qa_bind (retry_attempt env x (Suc attempt) v) (\<lambda>v'.
       if rv_brand v' = [] \<and> rv_fact v' = [] then qa_return (True, Suc attempt, v')
       else retry_attempts env x n (Suc attempt) v'))"

text \<open>Both review tasks of the draft, the one that runs first.\<close>

definition sibling_of :: "review_kind \<Rightarrow> tid \<Rightarrow> orch_db \<Rightarrow> task_row option" where
  "sibling_of kind draft db =
    List.find (\<lambda>r. tk_type r = rp_task_type (qa_review_params (other_kind kind))) (find_dependent_tasks draft db)"

definition find_sibling :: "review_kind \<Rightarrow> tid \<Rightarrow> task_row option qa" where
  "find_sibling kind draft st = (Inr (sibling_of kind draft (qs_db st)), st)"

definition tasks_by_kind :: "review_kind \<Rightarrow> tid \<Rightarrow> task_row option \<Rightarrow> (review_kind \<times> tid) list" where
  "tasks_by_kind kind t sibling = (kind, t) # (case sibling of Some r \<Rightarrow> [(other_kind kind, tk_id r)] | None \<Rightarrow> [])"

fun by_kind :: "review_kind \<Rightarrow> 'a \<Rightarrow> 'a \<Rightarrow> 'a" where
  "by_kind Brand_Steward b f = b"
| "by_kind Fact_Check b f = f"

fun pass_siblings :: "retry_context \<Rightarrow> nat \<Rightarrow> retry_vars \<Rightarrow> (review_kind \<times> tid) list \<Rightarrow> unit qa" where
  "pass_siblings x attempt v [] = qa_return ()"
| "pass_siblings x attempt v ((k, t) # ts) =
    qa_bind (qa_lift (item_of (rv_asset v) ''id'')) (\<lambda>asset_id.
    qa_bind (qa_lift (item_of (rv_asset v) ''content_hash'')) (\<lambda>content_hash.
    qa_bind (settle_completed t (JObj ([(''pass'', JBool True), (''vault_asset_id'', asset_id),
        (''content_hash'', content_hash)] @ draft_fields (rx_draft x) @
        [(''agent_run_id'', by_kind k (rv_brand_run v) (rv_fact_run v)),
         (''campaign_id'', JStr (bc_campaign (rx_brief x))), (''retry_attempts'', JInt (int attempt))]))) (\<lambda>_.
    pass_siblings x attempt v ts)))"

fun block_siblings :: "retry_context \<Rightarrow> nat \<Rightarrow> retry_vars \<Rightarrow> (review_kind \<times> tid) list \<Rightarrow> unit qa" where
  "block_siblings x attempt v [] = qa_return ()"
| "block_siblings x attempt v ((k, t) # ts) =
    qa_bind (block_task t (JObj ([(''pass'', JBool False), (''violations'', str_list (by_kind k (rv_brand v) (rv_fact v)))] @
        draft_fields (rx_draft x) @
        [(''campaign_id'', JStr (bc_campaign (rx_brief x))), (''retry_attempts'', JInt (int attempt))]))) (\<lambda>_.
    block_siblings x attempt v ts)"

definition read_brief_context :: "qa_env \<Rightarrow> task_envelope \<Rightarrow> recipe \<Rightarrow> json \<Rightarrow> brief_context qa" where
  "read_brief_context env e rc ref =
    qa_bind (qa_lift (get_of ref ''brief_id'')) (\<lambda>brief_id.
    qa_bind (if jtruth brief_id
             then qa_bind (vault_get env (''/briefs/'' @ str_of (qe_str env) brief_id)) (\<lambda>brief. qa_lift (get_of brief ''body''))
             else qa_return JNull) (\<lambda>brief_body.
    qa_bind (qa_lift (get_of ref ''pillar'')) (\<lambda>pillar.
    qa_bind (qa_lift (get_of ref ''vertical'')) (\<lambda>vertical.
    qa_bind (qa_lift (get_of ref ''audience_note'')) (\<lambda>audience.
    qa_bind (get_or_create_campaign env (campaign_name e) (rc_function rc)) (\<lambda>campaign.
    qa_return \<lparr>bc_campaign = campaign, bc_brief = brief_body, bc_pillar = pillar, bc_vertical = vertical,
      bc_audience = audience\<rparr>))))))"

definition start_vars :: "review_kind \<Rightarrow> string list \<Rightarrow> string \<Rightarrow> retry_vars" where
  "start_vars kind violations initial =
    \<lparr>rv_text = initial, rv_brand = by_kind kind violations [], rv_fact = by_kind kind [] violations,
     rv_hollowed = False, rv_asset = JNull, rv_brand_run = JNull, rv_fact_run = JNull\<rparr>"

definition escalate_card :: "qa_env \<Rightarrow> retry_context \<Rightarrow> nat \<Rightarrow> retry_vars \<Rightarrow> unit qa" where
  "escalate_card env x attempt v =
    (let original = teams_display_text (rx_initial x); revised = teams_display_text (rv_text v) in
    qa_bind (notify_retry_exhausted env (rx_task x) (tk_id (rx_draft x)) ''linkedin'' (revision_targets v)
      (take 280 original) (take 280 revised) (take 3500 (qe_diff env original revised attempt)) attempt (rv_hollowed v))
      (\<lambda>_. qa_return ()))"

definition retry_rounds ::
    "qa_env \<Rightarrow> retry_context \<Rightarrow> review_kind \<Rightarrow> string list \<Rightarrow> (review_kind \<times> tid) list \<Rightarrow> unit qa" where
  "retry_rounds env x kind violations ts =
    qa_bind (retry_attempts env x MAX_QA_RETRY_ATTEMPTS 0 (start_vars kind violations (rx_initial x))) (\<lambda>(passed, attempt, v).
    if passed then pass_siblings x attempt v ts
    else qa_bind (block_siblings x attempt v ts) (\<lambda>_. escalate_card env x attempt v))"

definition run_qa_retry_loop ::
    "qa_env \<Rightarrow> review_kind \<Rightarrow> tid \<Rightarrow> task_envelope \<Rightarrow> task_row \<Rightarrow> recipe \<Rightarrow> string list \<Rightarrow> string \<Rightarrow> unit qa" where
  "run_qa_retry_loop env kind t e d rc initial_violations initial_text =
    qa_bind (find_sibling kind (tk_id d)) (\<lambda>sibling.
    qa_bind open_vault (\<lambda>_.
    qa_bind (find_lineage (tk_id d)) (\<lambda>lineage.
    case lineage of
      None \<Rightarrow> finalize_qa_failure env t initial_violations d initial_text JNull JNull
    | Some (_, ref) \<Rightarrow>
        qa_bind (read_brief_context env e rc ref) (\<lambda>b.
        retry_rounds env \<lparr>rx_task = t, rx_envelope = e, rx_draft = d, rx_recipe = rc, rx_initial = initial_text, rx_brief = b\<rparr>
          kind initial_violations (tasks_by_kind kind t sibling)))))"

section \<open>The review of one draft\<close>

text \<open>The judgement of a validated verdict: the reconciled violations and whether the draft
passes.\<close>

definition judge :: "bool \<Rightarrow> string list \<Rightarrow> clearance list \<Rightarrow> string \<Rightarrow> string list \<times> bool" where
  "judge declared_pass named uncleared draft_text =
    (let violations = (if uncleared \<noteq> [] \<and> VIOLATION_CODE \<notin> set named then named @ [VIOLATION_CODE] else named);
         (reconciled, dropped) = reconcile_violations violations draft_text
     in if reconciled = [] \<and> \<not> declared_pass \<and> dropped = [] then ([QA_VERDICT_UNSPECIFIED_FAILURE], False)
        else (reconciled, reconciled = []))"

definition resolve_verdict :: "qa_env \<Rightarrow> string \<Rightarrow> (string \<times> json) list \<Rightarrow> (bool \<times> string list) qa" where
  "resolve_verdict env function_id verdict =
    (if \<not> qe_output_ok env function_id (JObj verdict)
     then qa_lift (Inl (DispatchError (function_id @ '': model output failed schema.json validation'')))
     else qa_bind (violations_of verdict) (\<lambda>named.
       qa_return (jtruth (case jget verdict ''pass'' of Some v \<Rightarrow> v | None \<Rightarrow> JNull), named)))"

record review_outcome =
  ro_text :: string
  ro_asset :: json
  ro_run :: json
  ro_verdict :: "(string \<times> json) list"
  ro_violations :: "string list"
  ro_passed :: bool

definition asset_text :: "json \<Rightarrow> orch_error + string" where
  "asset_text asset =
    (case item_of asset ''content_base64'' of
       Inr (JStr s) \<Rightarrow>
         (case (if is_ascii s then a2b_lenient 0 0 0 [] s else None) of
            None \<Rightarrow> Inl (OtherError ''binascii.Error'')
          | Some raw \<Rightarrow>
              (case utf8_decode raw of
                 Some cps \<Rightarrow> (if \<forall>p\<in>set cps. p < 256 then Inr (map char_of cps) else Inl (OtherError ''text''))
               | None \<Rightarrow> Inl (OtherError ''UnicodeDecodeError'')))
     | Inr _ \<Rightarrow> Inl (OtherError ''TypeError'')
     | Inl x \<Rightarrow> Inl x)"

definition or_empty :: "json \<Rightarrow> json" where
  "or_empty v = (if jtruth v then v else JArr [])"

definition review_payload :: "review_kind \<Rightarrow> string \<Rightarrow> string \<Rightarrow> json \<Rightarrow> json" where
  "review_payload kind draft_text channel points =
    JObj ([(''draft_text'', JStr draft_text), (''client_references'', JArr []), (''channel'', JStr channel)] @
      by_kind kind [] [(''proof_points'', or_empty points)])"

definition load_permissions :: "qa_env \<Rightarrow> register qa" where
  "load_permissions env = qa_need (OtherError ''permission register'') (load_register (qe_str env) (qe_register env))"

text \<open>From the model's answer to the judged verdict, and from the asset to it: everything
between the guards of the handler and its branch on the result.\<close>

definition judge_answer ::
    "qa_env \<Rightarrow> review_kind \<Rightarrow> string \<Rightarrow> json \<Rightarrow> json \<Rightarrow> (string \<times> json) list \<Rightarrow> review_outcome qa" where
  "judge_answer env kind draft_text asset run response =
    qa_bind (qa_lift (parsed_content response)) (\<lambda>verdict.
    qa_bind (resolve_verdict env (rp_function (qa_review_params kind)) verdict) (\<lambda>(declared_pass, named).
    qa_bind (load_permissions env) (\<lambda>reg.
    let (violations, passed) = judge declared_pass named (find_uncleared_in_text (qe_str env) reg draft_text) draft_text in
    qa_bind (update_agent_run env run (if passed then ''succeeded'' else ''failed'')
      (JObj [(''pass'', JBool passed), (''violations'', str_list violations),
             (''notes'', case jget verdict ''notes'' of Some n \<Rightarrow> n | None \<Rightarrow> JNull)])) (\<lambda>_.
    qa_return \<lparr>ro_text = draft_text, ro_asset = asset, ro_run = run, ro_verdict = verdict,
      ro_violations = violations, ro_passed = passed\<rparr>))))"

definition review_draft ::
    "qa_env \<Rightarrow> review_kind \<Rightarrow> tid \<Rightarrow> task_envelope \<Rightarrow> task_row \<Rightarrow> json \<Rightarrow> string \<Rightarrow> string \<Rightarrow> review_outcome qa" where
  "review_draft env kind t e d ref prompt campaign =
    (let params = qa_review_params kind; channel = review_channel (Some (tk_type d)) in
    qa_bind (qa_lift (get_of ref ''vault_asset_id'')) (\<lambda>asset_id.
    qa_bind (vault_get env (''/assets/'' @ str_of (qe_str env) asset_id)) (\<lambda>asset.
    qa_bind (qa_lift (asset_text asset)) (\<lambda>stored.
    let draft_text = teams_display_text stored in
    qa_bind (qa_lift (get_of ref ''proof_points'')) (\<lambda>points.
    let payload = review_payload kind draft_text channel points in
    qa_bind (if qe_input_ok env (rp_function params) payload then qa_return ()
             else qa_lift (Inl (DispatchError (rp_function params @ '': handler input failed schema.json validation'')))) (\<lambda>_.
    qa_bind (create_agent_run_idempotent env t (agent_name_of (rp_agent params) e) campaign (rp_function params)
      (JObj [(''channel'', JStr channel), (''review_kind'', JStr (kind_text kind))])) (\<lambda>agent_run.
    qa_bind (qa_lift (item_of agent_run ''id'')) (\<lambda>run.
    qa_bind (complete_and_meter env prompt (dumps_default env payload) run 1536) (\<lambda>response.
    judge_answer env kind draft_text asset run response)))))))))"

definition BRIEF_CARRIED_KEYS :: "string list" where
  "BRIEF_CARRIED_KEYS = [''pillar'', ''vertical'', ''audience_note'', ''proof_points'', ''proof_point_count'',
    ''signal_count'', ''pillar_source'', ''campaign'']"

definition carried_brief_fields :: "json \<Rightarrow> (string \<times> json) list" where
  "carried_brief_fields ref =
    (case ref of
       JObj kvs \<Rightarrow> List.map_filter (\<lambda>k. map_option (Pair k) (jget kvs k)) BRIEF_CARRIED_KEYS
     | _ \<Rightarrow> [])"

text \<open>try ... finally: the lock is released whether the loop returns or raises.\<close>

definition qa_finally :: "'a qa \<Rightarrow> unit qa \<Rightarrow> 'a qa" where
  "qa_finally m cleanup st = (case m st of (r, st') \<Rightarrow> (r, snd (cleanup st')))"

definition release_advisory_lock :: "qa_env \<Rightarrow> unit qa" where
  "release_advisory_lock env = qa_bind (qa_call env Unlock) (\<lambda>_. qa_return ())"

text \<open>The signed key: the first eight bytes of the SHA-256 of the text, less 2 ^ 63.\<close>

definition advisory_lock_key_for :: "string \<Rightarrow> int" where
  "advisory_lock_key_for t =
    (case sha256_words (utf8_encode t) of
       a # b # _ \<Rightarrow> int (unat a) * 2 ^ 32 + int (unat b) - 2 ^ 63
     | _ \<Rightarrow> 0)"

definition try_advisory_lock :: "qa_env \<Rightarrow> int \<Rightarrow> bool qa" where
  "try_advisory_lock env key st =
    (case qe_try_lock env (qs_calls st) key of
       None \<Rightarrow> (Inl (OtherError ''psycopg.Error''), st\<lparr>qs_calls := qs_calls st @ [Try_Lock key]\<rparr>)
     | Some b \<Rightarrow> (Inr b, st\<lparr>qs_calls := qs_calls st @ [Try_Lock key]\<rparr>))"

text \<open>The branch of a draft that did not pass.\<close>

definition handle_blocked ::
    "qa_env \<Rightarrow> review_kind \<Rightarrow> tid \<Rightarrow> task_envelope \<Rightarrow> task_row \<Rightarrow> string \<Rightarrow> review_outcome \<Rightarrow> unit qa" where
  "handle_blocked env kind t e d campaign out =
    (case (if VIOLATION_CODE \<in> set (ro_violations out) then None else draft_regen_params (tk_type d)) of
       None \<Rightarrow> finalize_qa_failure env t (ro_violations out) d (ro_text out) (ro_run out) (JStr campaign)
     | Some rc \<Rightarrow>
         qa_bind (try_advisory_lock env (advisory_lock_key_for (uuid_str (tk_id d)))) (\<lambda>owner.
         if owner
         then qa_finally (run_qa_retry_loop env kind t e d rc (ro_violations out) (ro_text out)) (release_advisory_lock env)
         else finalize_qa_failure env t (ro_violations out) d (ro_text out) (ro_run out) (JStr campaign)))"

definition handle_passed :: "review_kind \<Rightarrow> tid \<Rightarrow> task_row \<Rightarrow> json \<Rightarrow> string \<Rightarrow> review_outcome \<Rightarrow> unit qa" where
  "handle_passed kind t d ref campaign out =
    qa_bind (qa_lift (get_of ref ''vault_asset_id'')) (\<lambda>asset_id.
    qa_bind (qa_lift (get_of (ro_asset out) ''content_hash'')) (\<lambda>content_hash.
    settle_completed t (JObj ([(''pass'', JBool True), (''vault_asset_id'', asset_id), (''content_hash'', content_hash)] @
      draft_fields d @ [(''review_kind'', JStr (kind_text kind)), (''agent_run_id'', ro_run out),
        (''campaign_id'', JStr campaign)] @ carried_brief_fields ref))))"

definition review_undrafted :: "tid \<Rightarrow> task_row \<Rightarrow> json \<Rightarrow> json \<Rightarrow> string \<Rightarrow> unit qa" where
  "review_undrafted t d ref status campaign =
    qa_bind (qa_lift (get_of ref ''reason'')) (\<lambda>reason.
    settle_completed t (JObj ([(''status'', status), (''reviewed'', JBool False), (''reason'', reason)] @
      draft_fields d @ [(''campaign_id'', JStr campaign)])))"

definition single_draft_qa_review :: "qa_env \<Rightarrow> review_kind \<Rightarrow> tid \<Rightarrow> task_envelope \<Rightarrow> unit qa" where
  "single_draft_qa_review env kind t e =
    (let params = qa_review_params kind in
    qa_bind (find_lineage t) (\<lambda>lineage.
    case lineage of
      None \<Rightarrow> qa_lift (Inl (DispatchError (rp_task_type params @ '': no ancestor draft task carries a result_ref to review'')))
    | Some (d, ref) \<Rightarrow>
        qa_bind (qa_lift (get_of ref ''vault_asset_id'')) (\<lambda>asset_id.
        qa_bind (read_prompt env (rp_prompt params)) (\<lambda>prompt.
        qa_bind open_vault (\<lambda>_.
        qa_bind (get_or_create_campaign env (campaign_name e) (rp_function params)) (\<lambda>campaign.
        qa_bind (qa_lift (get_of ref ''status'')) (\<lambda>status.
        if \<not> jtruth asset_id \<and> jtruth status then review_undrafted t d ref status campaign
        else if \<not> jtruth asset_id
        then block_task t (JObj ([(''pass'', JBool False), (''violations'', str_list [''no_reviewable_asset''])] @
               draft_fields d @ [(''campaign_id'', JStr campaign)]))
        else qa_bind (if kind = Fact_Check then fact_check_gate_approved env else qa_return True) (\<lambda>approved.
          if \<not> approved then block_fact_check_gate_not_approved env t d (JStr campaign)
          else qa_bind (review_draft env kind t e d ref prompt campaign) (\<lambda>out.
            if ro_passed out then handle_passed kind t d ref campaign out
            else handle_blocked env kind t e d campaign out)))))))))"

definition qa_review_brand_steward_handler :: "qa_env \<Rightarrow> tid \<Rightarrow> task_envelope \<Rightarrow> unit qa" where
  "qa_review_brand_steward_handler env = single_draft_qa_review env Brand_Steward"

definition qa_review_fact_check_handler :: "qa_env \<Rightarrow> tid \<Rightarrow> task_envelope \<Rightarrow> unit qa" where
  "qa_review_fact_check_handler env = single_draft_qa_review env Fact_Check"

text \<open>The parts that always succeed, run.\<close>

lemma qa_reads:
  "qa_bind (find_sibling kind i) f st = f (sibling_of kind i (qs_db st)) st"
  "qa_bind open_vault g st = g () (st\<lparr>qs_ordinal := 0\<rparr>)"
  "qa_bind (find_lineage i) h st = h (resolve_lineage_result i (qs_db st)) st"
  "qa_bind next_ordinal m st = m (Suc (qs_ordinal st)) (st\<lparr>qs_ordinal := Suc (qs_ordinal st)\<rparr>)"
  "qa_bind (ledgered key) n st = n (get_ledgered_agent_run key (qs_db st)) st"
  "qa_bind (qa_call env c) p st = p (qe_answer env (qs_calls st) c) (st\<lparr>qs_calls := qs_calls st @ [c]\<rparr>)"
  "qa_bind (qa_return a) q st = q a st"
  by (simp_all add: qa_bind_def find_sibling_def open_vault_def find_lineage_def next_ordinal_def ledgered_def
      qa_call_def qa_return_def)

end
