(* ===== verification/QA_Calls.thy ===== *)
theory QA_Calls
  imports QA_Review
begin

text \<open>A calculus for the calls an operation makes: \<open>emits w n m\<close> says that a run of
\<open>m\<close> adds calls of total weight at most \<open>n\<close>, whether it returns or raises. It bounds what a
QA review spends.\<close>

section \<open>Counting calls\<close>

definition emits :: "(qa_call \<Rightarrow> nat) \<Rightarrow> nat \<Rightarrow> 'a qa \<Rightarrow> bool" where
  "emits w n m \<longleftrightarrow> (\<forall>st. \<exists>cs. qs_calls (snd (m st)) = qs_calls st @ cs \<and> sum_list (map w cs) \<le> n)"

lemma emitsI:
  "(\<And>st. \<exists>cs. qs_calls (snd (m st)) = qs_calls st @ cs \<and> sum_list (map w cs) \<le> n) \<Longrightarrow> emits w n m"
  by (simp add: emits_def)

lemma emitsD:
  assumes "emits w n m" and "m st = (r, st')"
  obtains cs where "qs_calls st' = qs_calls st @ cs" and "sum_list (map w cs) \<le> n"
  using assms by (metis emits_def snd_conv)

lemma emits_mono: "emits w n m \<Longrightarrow> n \<le> k \<Longrightarrow> emits w k m"
  unfolding emits_def by (meson le_trans)

lemma emits_bind:
  assumes "emits w a m" and "\<And>x. emits w b (f x)"
  shows "emits w (a + b) (qa_bind m f)"
proof (rule emitsI)
  fix st
  obtain cs where cs: "qs_calls (snd (m st)) = qs_calls st @ cs" "sum_list (map w cs) \<le> a"
    using assms(1) unfolding emits_def by blast
  show "\<exists>cs. qs_calls (snd (qa_bind m f st)) = qs_calls st @ cs \<and> sum_list (map w cs) \<le> a + b"
  proof (cases "m st")
    case (Pair r st1)
    show ?thesis
    proof (cases r)
      case (Inl e)
      then show ?thesis using Pair cs by (intro exI[of _ cs]) (simp add: qa_bind_def)
    next
      case (Inr x)
      obtain ds where "qs_calls (snd (f x st1)) = qs_calls st1 @ ds" "sum_list (map w ds) \<le> b"
        using assms(2)[of x] unfolding emits_def by blast
      then show ?thesis using Pair Inr cs by (intro exI[of _ "cs @ ds"]) (simp add: qa_bind_def)
    qed
  qed
qed

lemma emits_bind0: "emits w 0 m \<Longrightarrow> (\<And>x. emits w b (f x)) \<Longrightarrow> emits w b (qa_bind m f)"
  using emits_bind[of w 0 m b f] by simp

lemma emits_bind1: "emits w b m \<Longrightarrow> (\<And>x. emits w 0 (f x)) \<Longrightarrow> emits w b (qa_bind m f)"
  using emits_bind[of w b m 0 f] by simp

lemma emits_let: "emits w n (f x) \<Longrightarrow> emits w n (Let x f)"
  by simp

lemma emits_if: "(c \<Longrightarrow> emits w n m) \<Longrightarrow> (\<not> c \<Longrightarrow> emits w n m') \<Longrightarrow> emits w n (if c then m else m')"
  by simp

lemma emits_call: "w c \<le> n \<Longrightarrow> emits w n (qa_call env c)"
  by (rule emitsI) (simp add: qa_call_def)

named_theorems silent \<open>operations that make no call of positive weight\<close>

lemma emits_quiet [silent]:
  "emits w n (qa_return a)" "emits w n (qa_lift r)" "emits w n (qa_need x v)" "emits w n (qa_txn m)"
  "emits w n next_ordinal" "emits w n (ledgered key)" "emits w n open_vault" "emits w n (find_lineage i)"
  "emits w n (find_sibling kind i)" "emits w n (fact_check_gate_approved env)" "emits w n (remember_campaign name c)"
  "emits w n (load_permissions env)" "emits w n (read_prompt env dir)" "emits w n (violations_of kvs)"
  by (rule emitsI, simp add: qa_return_def qa_lift_def qa_need_def qa_txn_def next_ordinal_def ledgered_def
      open_vault_def find_lineage_def find_sibling_def fact_check_gate_approved_def remember_campaign_def
      load_permissions_def read_prompt_def violations_of_def split: option.splits sum.splits prod.splits)+

text \<open>Weights of interest: completions, and posts of an asset.\<close>

fun completion_weight :: "qa_call \<Rightarrow> nat" where
  "completion_weight (Complete _) = 1"
| "completion_weight _ = 0"

fun asset_weight :: "qa_call \<Rightarrow> nat" where
  "asset_weight (Vault_Post p _) = (if p = ''/assets'' then 1 else 0)"
| "asset_weight _ = 0"

abbreviation charged :: "(qa_call \<Rightarrow> nat) \<Rightarrow> bool" where
  "charged w \<equiv> w = completion_weight \<or> w = asset_weight"

lemma emits_prod: "(\<And>a b. emits w n (f a b)) \<Longrightarrow> emits w n (case p of (a, b) \<Rightarrow> f a b)"
  by (cases p) simp

lemma emits_option: "emits w n m \<Longrightarrow> (\<And>a. emits w n (f a)) \<Longrightarrow> emits w n (case v of None \<Rightarrow> m | Some a \<Rightarrow> f a)"
  by (cases v) simp_all

lemmas emits_rules = emits_bind0 emits_let emits_if emits_prod emits_option

lemma emits_vault [silent]:
  assumes "charged w"
  shows "emits w n (vault_get env p)" "emits w n (vault_list env p k)" "emits w n (vault_patch env p b)"
  using assms unfolding vault_get_def vault_list_def vault_patch_def
  by (auto intro!: emits_bind0 emits_call silent)

lemma emits_vault_post: "w (Vault_Post p b) \<le> n \<Longrightarrow> emits w n (vault_post env p b)"
  unfolding vault_post_def by (intro emits_bind1 emits_call silent)

lemma emits_create [silent]:
  assumes "charged w" shows "emits w n (create_campaign env name f existing)"
  using assms unfolding create_campaign_def
  by (auto intro!: emits_rules silent emits_vault_post split: list.split)

lemma emits_campaign [silent]:
  assumes "charged w" shows "emits w n (get_or_create_campaign env name f)"
proof -
  let ?m = "qa_bind (vault_list env ''/campaigns'' CAMPAIGN_LOOKUP_LIMIT) (\<lambda>listed. case listed of
      JArr existing \<Rightarrow> qa_bind (qa_lift (find_campaign name existing)) (\<lambda>hit. case hit of
          Some row \<Rightarrow> qa_bind (qa_lift (item_of row ''id'')) (\<lambda>i. remember_campaign name (str_of (qe_str env) i))
        | None \<Rightarrow> create_campaign env name f existing)
    | _ \<Rightarrow> qa_lift (Inl (OtherError ''TypeError'')))"
  have "emits w n ?m"
    using assms by (auto intro!: emits_rules silent split: json.split)
  then show ?thesis
    unfolding emits_def get_or_create_campaign_def by (auto split: option.splits)
qed

lemma emits_agent_run [silent]:
  assumes "charged w" shows "emits w n (create_agent_run_idempotent env t a c f i)"
  using assms unfolding create_agent_run_idempotent_def by (auto intro!: emits_rules silent emits_vault_post)

lemma emits_update [silent]:
  assumes "charged w" shows "emits w n (update_agent_run env i s out)"
proof (rule emitsI)
  fix st :: qa_state
  let ?m = "qa_bind (vault_patch env (''/agent-runs/'' @ str_of (qe_str env) i)
      (JObj [(''status'', JStr s), (''output'', out), (''completed_at'', JStr (qe_now env (qs_calls st)))])) (\<lambda>_. qa_return ())"
  have "emits w n ?m" using assms by (intro emits_rules silent)
  then show "\<exists>cs. qs_calls (snd (update_agent_run env i s out st)) = qs_calls st @ cs \<and> sum_list (map w cs) \<le> n"
    unfolding emits_def update_agent_run_def by blast
qed

lemma emits_asset: "emits completion_weight 0 (create_asset env a r c f t)" "emits asset_weight 1 (create_asset env a r c f t)"
  unfolding create_asset_def by (intro emits_vault_post, simp)+

lemma emits_complete:
  "emits completion_weight 1 (complete_and_meter env p u r k)" "emits asset_weight 0 (complete_and_meter env p u r k)"
proof -
  have c: "emits w n (qa_bind (qa_lift v) (\<lambda>response. case jget response ''cost_id'' of
      None \<Rightarrow> qa_return response
    | Some c \<Rightarrow> (if \<not> jtruth c then qa_return response
        else qa_bind (qa_call env (Vault_Get (''/costs/'' @ str_of (qe_str env) c))) (\<lambda>_. qa_return response))))"
    if "charged w" for w n and v :: "orch_error + (string \<times> json) list"
    using that by (auto intro!: emits_rules silent emits_call)
  show "emits completion_weight 1 (complete_and_meter env p u r k)"
    unfolding complete_and_meter_def by (rule emits_bind1, rule emits_call, simp, rule c, simp)
  show "emits asset_weight 0 (complete_and_meter env p u r k)"
    unfolding complete_and_meter_def by (rule emits_bind0, rule emits_call, simp, rule c, simp)
qed

lemma emits_cards [silent]:
  assumes "charged w"
  shows "emits w n (notify_needs_edit env t ch vs ex)" "emits w n (notify_retry_exhausted env t d ch vs a b c k h)"
  using assms unfolding notify_needs_edit_def notify_retry_exhausted_def post_card_def
  by (auto intro!: emits_rules silent emits_call)

lemma emits_txns [silent]:
  assumes "charged w"
  shows "emits w n (block_task t ref)" "emits w n (settle_completed t ref)"
    "emits w n (finalize_qa_failure env t vs d txt run c)"
    "emits w n (block_fact_check_gate_not_approved env t d c)"
  using assms unfolding block_task_def settle_completed_def finalize_qa_failure_def block_fact_check_gate_not_approved_def
  by (auto intro!: emits_rules silent)

lemma emits_regenerate:
  "emits completion_weight 1 (regenerate_draft_content env t e b rc p vs k)"
  "emits asset_weight 0 (regenerate_draft_content env t e b rc p vs k)"
  unfolding regenerate_draft_content_def
  by (rule emits_bind0, rule emits_agent_run, simp, rule emits_bind0, rule silent, rule emits_bind0, rule silent,
      rule emits_bind1 emits_bind0, rule emits_complete, intro emits_rules silent, simp)+

lemma emits_check:
  "emits completion_weight 1 (run_single_qa_check env t e c txt kind)"
  "emits asset_weight 0 (run_single_qa_check env t e c txt kind)"
  unfolding run_single_qa_check_def Let_def
  by (rule emits_bind0, rule silent, rule emits_bind0, rule emits_agent_run, simp, rule emits_bind0, rule silent,
      rule emits_bind1 emits_bind0, rule emits_complete, intro emits_rules silent, simp)+

lemma emits_fact_recheck:
  "emits completion_weight 1 (fact_recheck env x txt)" "emits asset_weight 0 (fact_recheck env x txt)"
  unfolding fact_recheck_def by (intro emits_rules silent emits_check)+

lemma emits_attempt:
  "emits completion_weight 3 (retry_attempt env x k v)" "emits asset_weight 1 (retry_attempt env x k v)"
proof -
  have "emits completion_weight (1 + (1 + 1)) (retry_attempt env x k v)"
    unfolding retry_attempt_def Let_def
    by (intro emits_bind[of _ 1] emits_prod emits_regenerate emits_bind0[OF emits_asset(1)] emits_bind0[OF emits_quiet(2)]
        emits_bind0[OF emits_quiet(4)] emits_check emits_bind1 emits_fact_recheck silent)
  then show "emits completion_weight 3 (retry_attempt env x k v)" by (simp add: numeral_eq_Suc)
  show "emits asset_weight 1 (retry_attempt env x k v)"
    unfolding retry_attempt_def Let_def
    by (intro emits_bind0[OF emits_regenerate(2)] emits_prod emits_bind1[OF emits_asset(2)] emits_rules emits_check
        emits_fact_recheck silent)
qed

lemma emits_attempts:
  "emits completion_weight (3 * n) (retry_attempts env x n k v)" "emits asset_weight n (retry_attempts env x n k v)"
proof (induction n arbitrary: k v)
  case (Suc n)
  case 1
  have "emits completion_weight (3 + 3 * n) (retry_attempts env x (Suc n) k v)"
    unfolding retry_attempts.simps by (intro emits_if emits_bind emits_attempt Suc.IH silent)
  then show ?case by simp
  case 2
  have "emits asset_weight (1 + n) (retry_attempts env x (Suc n) k v)"
    unfolding retry_attempts.simps by (intro emits_if emits_bind emits_attempt Suc.IH silent)
  then show ?case by simp
qed (simp_all add: silent)

lemma emits_siblings [silent]:
  assumes "charged w"
  shows "emits w n (pass_siblings x k v ts)" "emits w n (block_siblings x k v ts)"
proof -
  show "emits w n (pass_siblings x k v ts)"
    using assms by (induction ts) (auto intro!: emits_rules silent)
  show "emits w n (block_siblings x k v ts)"
    using assms by (induction ts) (auto intro!: emits_rules silent)
qed

lemma emits_brief [silent]:
  assumes "charged w" shows "emits w n (read_brief_context env e rc ref)"
  using assms unfolding read_brief_context_def by (auto intro!: emits_rules silent)

lemma emits_escalate [silent]:
  assumes "charged w" shows "emits w n (escalate_card env x k v)"
  using assms unfolding escalate_card_def by (auto intro!: emits_rules silent)

lemma emits_rounds:
  "emits completion_weight 30 (retry_rounds env x kind vs ts)" "emits asset_weight 10 (retry_rounds env x kind vs ts)"
  unfolding retry_rounds_def
  by (intro emits_bind1 emits_mono[OF emits_attempts(1)] emits_mono[OF emits_attempts(2)] emits_rules silent;
      simp add: MAX_QA_RETRY_ATTEMPTS_def)+

lemma emits_loop:
  "emits completion_weight 30 (run_qa_retry_loop env kind t e d rc vs tx)"
  "emits asset_weight 10 (run_qa_retry_loop env kind t e d rc vs tx)"
  unfolding run_qa_retry_loop_def
  by (intro emits_bind0[OF emits_quiet(9)] emits_bind0[OF emits_quiet(7)] emits_bind0[OF emits_quiet(8)] emits_option
      emits_prod emits_bind0[OF emits_brief] emits_rounds silent; simp)+

lemma emits_judge [silent]:
  assumes "charged w" shows "emits w n (judge_answer env kind tx asset run r)"
  using assms unfolding judge_answer_def resolve_verdict_def Let_def by (auto intro!: emits_rules silent)

lemma emits_review:
  "emits completion_weight 1 (review_draft env kind t e d ref prompt c)"
  "emits asset_weight 0 (review_draft env kind t e d ref prompt c)"
  unfolding review_draft_def Let_def
  by (intro emits_bind0[OF emits_quiet(2)] emits_bind0[OF emits_vault(1)] emits_bind0[OF emits_if]
      emits_bind0[OF emits_agent_run] emits_bind1[OF emits_complete(1)] emits_bind0[OF emits_complete(2)] silent; simp)+

lemma emits_finally: "emits w n m \<Longrightarrow> emits w 0 c \<Longrightarrow> emits w n (qa_finally m c)"
proof (rule emitsI)
  fix st :: qa_state
  assume a: "emits w n m" "emits w 0 c"
  obtain r st1 where m: "m st = (r, st1)" by force
  obtain cs where cs: "qs_calls st1 = qs_calls st @ cs" "sum_list (map w cs) \<le> n" using emitsD[OF a(1) m] .
  obtain q st2 where c: "c st1 = (q, st2)" by force
  obtain ds where ds: "qs_calls st2 = qs_calls st1 @ ds" "sum_list (map w ds) \<le> 0" using emitsD[OF a(2) c] .
  show "\<exists>cs. qs_calls (snd (qa_finally m c st)) = qs_calls st @ cs \<and> sum_list (map w cs) \<le> n"
    using m c cs ds by (intro exI[of _ "cs @ ds"]) (simp add: qa_finally_def del: sum_list_eq_0_iff)
qed

lemma emits_lock [silent]:
  assumes "charged w" shows "emits w n (try_advisory_lock env key)" "emits w n (release_advisory_lock env)"
proof -
  show "emits w n (try_advisory_lock env key)"
    using assms by (auto intro!: emitsI simp: try_advisory_lock_def split: option.split)
  show "emits w n (release_advisory_lock env)"
    using assms unfolding release_advisory_lock_def by (auto intro!: emits_rules silent emits_call)
qed

lemma emits_blocked:
  "emits completion_weight 30 (handle_blocked env kind t e d c out)" "emits asset_weight 10 (handle_blocked env kind t e d c out)"
  unfolding handle_blocked_def
  by (intro emits_option emits_bind0[OF emits_lock(1)] emits_if emits_finally emits_loop silent; simp)+

lemma emits_handler:
  "emits completion_weight 31 (single_draft_qa_review env kind t e)" "emits asset_weight 10 (single_draft_qa_review env kind t e)"
proof -
  have tails: "emits w n (handle_passed kind t d ref c out)" "emits w n (review_undrafted t d ref s c)"
    if "charged w" for w n d ref c s out
    using that unfolding handle_passed_def review_undrafted_def by (auto intro!: emits_rules silent)
  have two: "emits completion_weight 31 (qa_bind (review_draft env kind t e d ref p c) (\<lambda>out.
      if ro_passed out then handle_passed kind t d ref c out else handle_blocked env kind t e d c out))" for d ref p c
  proof -
    have "emits completion_weight (1 + 30) (qa_bind (review_draft env kind t e d ref p c) (\<lambda>out.
        if ro_passed out then handle_passed kind t d ref c out else handle_blocked env kind t e d c out))"
      by (intro emits_bind emits_if emits_review emits_blocked tails) simp
    then show ?thesis by simp
  qed
  show "emits completion_weight 31 (single_draft_qa_review env kind t e)"
    unfolding single_draft_qa_review_def Let_def
    by (intro emits_bind0[OF emits_quiet(8)] emits_option emits_prod emits_bind0[OF emits_quiet(2)]
        emits_bind0[OF emits_quiet(13)] emits_bind0[OF emits_quiet(7)] emits_bind0[OF emits_campaign]
        emits_if emits_bind0[OF emits_if] tails(2) two silent; simp)
  show "emits asset_weight 10 (single_draft_qa_review env kind t e)"
    unfolding single_draft_qa_review_def Let_def
    by (intro emits_bind0[OF emits_quiet(8)] emits_option emits_prod emits_bind0[OF emits_quiet(2)]
        emits_bind0[OF emits_quiet(13)] emits_bind0[OF emits_quiet(7)] emits_bind0[OF emits_campaign]
        emits_if emits_bind0[OF emits_if] emits_bind0[OF emits_review(2)] emits_blocked(2) tails silent; simp)
qed

text \<open>C18: A run of a QA review handler, retries of its loop included, asks the model at most 31
times (one review, then ten rounds of a new draft and two checks) and stores at most ten
regenerated drafts, whatever the services answer and whether it returns or raises.\<close>

theorem qa_review_call_bound:
  "\<exists>calls. qs_calls (snd (single_draft_qa_review env kind t e st)) = qs_calls st @ calls \<and>
     length (filter (\<lambda>c. \<exists>p. c = Complete p) calls) \<le> 31 \<and>
     length (filter (\<lambda>c. \<exists>b. c = Vault_Post ''/assets'' b) calls) \<le> 10"
proof -
  obtain cs where cs: "qs_calls (snd (single_draft_qa_review env kind t e st)) = qs_calls st @ cs"
      "sum_list (map completion_weight cs) \<le> 31" using emits_handler(1) unfolding emits_def by blast
  obtain ds where ds: "qs_calls (snd (single_draft_qa_review env kind t e st)) = qs_calls st @ ds"
      "sum_list (map asset_weight ds) \<le> 10" using emits_handler(2) unfolding emits_def by blast
  have c: "length (filter (\<lambda>c. \<exists>p. c = Complete p) cs) = sum_list (map completion_weight cs)" for cs
  proof (induction cs)
    case (Cons a cs)
    then show ?case by (cases a) auto
  qed simp
  have a: "length (filter (\<lambda>c. \<exists>b. c = Vault_Post ''/assets'' b) cs) = sum_list (map asset_weight cs)" for cs
  proof (induction cs)
    case (Cons a cs)
    then show ?case by (cases a) auto
  qed simp
  show ?thesis using cs ds c a by (intro exI[of _ cs]) auto
qed


section \<open>The database\<close>

text \<open>What the QA operations do to the database, for any relation that the transactions they
are made of satisfy: the contract is a locale, interpreted on the task ids of the
table and on the entries of the agent-run ledger.\<close>

definition moves :: "(orch_db \<Rightarrow> orch_db \<Rightarrow> bool) \<Rightarrow> 'a qa \<Rightarrow> bool" where
  "moves R m \<longleftrightarrow> (\<forall>st. R (qs_db st) (qs_db (snd (m st))))"

lemma movesD: "moves R m \<Longrightarrow> m st = (r, st') \<Longrightarrow> R (qs_db st) (qs_db st')"
  unfolding moves_def by (metis snd_conv)

lemma advance_each_induct:
  assumes "\<And>db. R db db" and "\<And>a b c. R a b \<Longrightarrow> R b c \<Longrightarrow> R a c"
    and "\<And>i s why db. R db (snd (transition i s why db))"
  shows "R db (snd (advance_each is db))"
proof (induction "is" arbitrary: db)
  case (Cons i js)
  show ?case
  proof (cases "transition i DISPATCHABLE DEPENDENCY_SATISFIED_R db")
    case (Pair r db1)
    have step: "R db db1" using assms(3)[of db i DISPATCHABLE DEPENDENCY_SATISFIED_R] Pair by simp
    show ?thesis
    proof (cases r)
      case (Inl x)
      then show ?thesis using step Pair by simp
    next
      case (Inr u)
      then have "snd (advance_each (i # js) db) = snd (advance_each js db1)" using Pair by simp
      then show ?thesis using step Cons.IH[of db1] assms(2) by metis
    qed
  qed
qed (simp add: assms(1))

lemma find_in_append: "List.find P xs = Some x \<Longrightarrow> List.find P (xs @ ys) = Some x"
  by (induction xs) (auto split: if_splits)

locale db_relation =
  fixes R :: "orch_db \<Rightarrow> orch_db \<Rightarrow> bool"
  assumes refl: "R db db"
    and trans: "R a b \<Longrightarrow> R b c \<Longrightarrow> R a c"
    and result: "R db (snd (set_result_ref i v db))"
    and transition: "R db (snd (transition i s why db))"
    and ledger: "R db (snd (record_ledgered_agent_run k i run db))"
begin

lemma advance: "R db (snd (advance_dependents i db))"
proof -
  have "snd (advance_dependents i db) = snd (advance_each (advance_candidates i db) db)"
    by (cases "advance_each (advance_candidates i db) db"; cases "fst (advance_each (advance_candidates i db) db)")
      (auto simp: advance_dependents_def and_then_def)
  moreover have "R db (snd (advance_each is db))" for "is"
    by (rule advance_each_induct) (rule refl, erule (1) trans, rule transition)
  ultimately show ?thesis by simp
qed

lemma moves_bind: "moves R m \<Longrightarrow> (\<And>x. moves R (f x)) \<Longrightarrow> moves R (qa_bind m f)"
proof (unfold moves_def, intro allI)
  fix st :: qa_state
  assume m: "\<forall>st. R (qs_db st) (qs_db (snd (m st)))" and f: "\<And>x. \<forall>st. R (qs_db st) (qs_db (snd (f x st)))"
  show "R (qs_db st) (qs_db (snd (qa_bind m f st)))"
  proof (cases "m st")
    case (Pair r st1)
    have one: "R (qs_db st) (qs_db st1)" using m Pair by (metis snd_conv)
    show ?thesis
    proof (cases r)
      case (Inl x)
      then show ?thesis using one Pair by (simp add: qa_bind_def)
    next
      case (Inr a)
      have "R (qs_db st1) (qs_db (snd (f a st1)))" using f by blast
      then show ?thesis using trans[OF one] Inr Pair by (simp add: qa_bind_def)
    qed
  qed
qed

lemma moves_split:
  "(\<And>a b. moves R (g a b)) \<Longrightarrow> moves R (case p of (a, b) \<Rightarrow> g a b)"
  "moves R m \<Longrightarrow> (\<And>a. moves R (h a)) \<Longrightarrow> moves R (case v of None \<Rightarrow> m | Some a \<Rightarrow> h a)"
  "(c \<Longrightarrow> moves R n) \<Longrightarrow> (\<not> c \<Longrightarrow> moves R n') \<Longrightarrow> moves R (if c then n else n')"
  by (cases p, simp) (cases v, simp, simp)+

lemma moves_still:
  "moves R (qa_return a)" "moves R (qa_lift r)" "moves R (qa_need x v)" "moves R (qa_call env c)"
  "moves R next_ordinal" "moves R (ledgered key)" "moves R open_vault" "moves R (find_lineage i)"
  "moves R (find_sibling kind i)" "moves R (fact_check_gate_approved env)" "moves R (remember_campaign nm cid)"
  "moves R (load_permissions env)" "moves R (read_prompt env dir)" "moves R (violations_of kvs)"
  "moves R (try_advisory_lock env lk)"
  by (simp_all add: moves_def qa_return_def qa_lift_def qa_need_def qa_call_def next_ordinal_def ledgered_def
      open_vault_def find_lineage_def find_sibling_def fact_check_gate_approved_def remember_campaign_def
      load_permissions_def read_prompt_def violations_of_def try_advisory_lock_def refl
      split: option.splits sum.splits prod.splits)

lemma moves_txn:
  "moves R (qa_txn (set_result_ref i v))" "moves R (qa_txn (transition i s why))"
  "moves R (qa_txn (advance_dependents i))" "moves R (qa_txn (record_ledgered_agent_run k i run))"
  using result transition advance ledger by (auto simp: moves_def qa_txn_def split: prod.splits) (metis snd_conv)+

lemmas moves_rules = moves_bind moves_split moves_still moves_txn

lemma moves_vault:
  "moves R (vault_get env p)" "moves R (vault_list env p n)" "moves R (vault_patch env p b)" "moves R (vault_post env p b)"
  unfolding vault_get_def vault_list_def vault_patch_def vault_post_def by (intro moves_rules)+

lemma moves_campaign: "moves R (get_or_create_campaign env name f)"
proof -
  have create: "moves R (create_campaign env name f existing)" for existing
    unfolding create_campaign_def by (auto intro!: moves_rules moves_vault split: list.split)
  let ?m = "qa_bind (vault_list env ''/campaigns'' CAMPAIGN_LOOKUP_LIMIT) (\<lambda>listed. case listed of
      JArr existing \<Rightarrow> qa_bind (qa_lift (find_campaign name existing)) (\<lambda>hit. case hit of
          Some row \<Rightarrow> qa_bind (qa_lift (item_of row ''id'')) (\<lambda>i. remember_campaign name (str_of (qe_str env) i))
        | None \<Rightarrow> create_campaign env name f existing)
    | _ \<Rightarrow> qa_lift (Inl (OtherError ''TypeError'')))"
  have "moves R ?m" by (auto intro!: moves_rules moves_vault create split: json.split)
  then show ?thesis unfolding moves_def get_or_create_campaign_def by (auto simp: refl split: option.splits)
qed

lemma moves_agent_run: "moves R (create_agent_run_idempotent env t a c f i)"
  unfolding create_agent_run_idempotent_def by (auto intro!: moves_rules moves_vault)

lemma moves_update: "moves R (update_agent_run env i s out)"
proof -
  have "moves R (qa_bind (vault_patch env p b) (\<lambda>_. qa_return ()))" for p b by (intro moves_rules moves_vault)
  then show ?thesis unfolding moves_def update_agent_run_def by blast
qed

lemma moves_complete: "moves R (complete_and_meter env p u r k)"
  unfolding complete_and_meter_def by (intro moves_rules)

lemma moves_cards:
  "moves R (notify_needs_edit env t ch vs ex)" "moves R (notify_retry_exhausted env t d ch vs a b c k h)"
  unfolding notify_needs_edit_def notify_retry_exhausted_def post_card_def by (intro moves_rules)+

lemma moves_settle:
  "moves R (block_task t ref)" "moves R (settle_completed t ref)" "moves R (finalize_qa_failure env t vs d tx run c)"
  unfolding block_task_def settle_completed_def finalize_qa_failure_def by (intro moves_rules moves_cards)+

lemma moves_regenerate: "moves R (regenerate_draft_content env t e b rc p vs k)"
  unfolding regenerate_draft_content_def
  by (intro moves_rules moves_agent_run moves_complete moves_update)

lemma moves_check: "moves R (run_single_qa_check env t e c tx kind)"
  unfolding run_single_qa_check_def Let_def
  by (intro moves_rules moves_agent_run moves_complete moves_update)

lemma moves_attempt: "moves R (retry_attempt env x k v)"
  unfolding retry_attempt_def Let_def create_asset_def fact_recheck_def
  by (intro moves_rules moves_regenerate moves_vault moves_check)

lemma moves_attempts: "moves R (retry_attempts env x n k v)"
proof (induction n arbitrary: k v)
  case (Suc n)
  show ?case unfolding retry_attempts.simps by (intro moves_rules moves_attempt Suc.IH)
qed (simp add: moves_still)

lemma moves_brief: "moves R (read_brief_context env e rc ref)"
  unfolding read_brief_context_def by (intro moves_rules moves_vault moves_campaign)

lemma moves_judge: "moves R (judge_answer env kind tx asset run r)"
  unfolding judge_answer_def resolve_verdict_def Let_def by (intro moves_rules moves_update)

lemma moves_review: "moves R (review_draft env kind t e d ref prompt c)"
  unfolding review_draft_def Let_def
  by (intro moves_rules moves_vault moves_agent_run moves_complete moves_judge)

end

interpretation same_ids: db_relation "\<lambda>a b. map tk_id (od_tasks b) = map tk_id (od_tasks a)"
proof (unfold_locales, goal_cases)
  case (3 db i v)
  show ?case by (simp add: set_result_ref_def tick_def map_update_where)
next
  case (4 db i s why)
  show ?case by (simp add: transition_def set_state_def tick_def map_update_where split: option.split)
next
  case (5 db k i run)
  show ?case by (simp add: record_ledgered_agent_run_def tick_def)
qed simp_all

interpretation ledger_kept: db_relation
  "\<lambda>a b. \<forall>k run. get_ledgered_agent_run k a = Some run \<longrightarrow> get_ledgered_agent_run k b = Some run"
proof (unfold_locales, goal_cases)
  case (5 db k i run)
  show ?case by (auto simp: record_ledgered_agent_run_def tick_def get_ledgered_agent_run_def find_in_append split: option.splits)
qed (auto simp: get_ledgered_agent_run_def set_result_ref_def transition_def tick_def split: option.splits)

end
