(* ===== verification/QA_Props.thy ===== *)
theory QA_Props
  imports QA_Calls
begin

text \<open>What the QA gates guarantee, and where they do not: a pass is earned by a validated
verdict and a clear text, the retry loop settles both reviews of a draft together, its
recheck is weaker than the review, and its first regeneration is not one.\<close>

section \<open>Rows after the transactions of a handler\<close>

lemma result_get:
  "get_task j (snd (set_result_ref i v db)) =
    (if j = i then map_option (\<lambda>r. r\<lparr>tk_result := Some v\<rparr>) (get_task j db) else get_task j db)"
  by (simp add: set_result_ref_def get_task_def find_update_where tick_def)

lemma result_fst [simp]: "fst (set_result_ref i v db) = Inr ()"
  by (simp add: set_result_ref_def)

lemma transition_some: "fst (transition i s why db) = Inr u \<Longrightarrow> \<exists>r. get_task i db = Some r"
  by (auto simp: transition_def split: option.splits)

lemma advance_each_other: "j \<notin> set is \<Longrightarrow> get_task j (snd (advance_each is db)) = get_task j db"
proof (induction "is" arbitrary: db)
  case (Cons i js)
  show ?case
  proof (cases "get_task i db")
    case None
    then show ?thesis by (simp add: transition_def and_then_def)
  next
    case (Some r)
    then show ?thesis using Cons by (simp add: and_then_eq transition_fst[OF Some] transition_get[OF Some])
  qed
qed simp

lemma advance_snd: "snd (advance_dependents i db) = snd (advance_each (advance_candidates i db) db)"
  by (cases "advance_each (advance_candidates i db) db"; cases "fst (advance_each (advance_candidates i db) db)")
    (auto simp: advance_dependents_def and_then_def)

lemma advance_keeps:
  assumes "distinct (map tk_id (od_tasks db))" and "get_task j db = Some q" and "tk_state q \<noteq> PENDING"
  shows "get_task j (snd (advance_dependents i db)) = Some q"
proof -
  have "j \<notin> set (advance_candidates i db)" using assms(2,3) by (simp add: advance_candidates_iff[OF assms(1)])
  then show ?thesis using assms(2) by (simp add: advance_snd advance_each_other)
qed

lemma advance_result: "get_result_ref j (snd (advance_dependents i db)) = get_result_ref j db"
proof -
  have "get_result_ref j (snd (advance_each is db)) = get_result_ref j db" for "is"
  proof (rule advance_each_induct[where R="\<lambda>a b. get_result_ref j b = get_result_ref j a"])
    fix i s why and db :: orch_db
    show "get_result_ref j (snd (transition i s why db)) = get_result_ref j db"
      by (cases "get_task i db") (auto simp: get_result_ref_def transition_get transition_def)
  qed simp_all
  then show ?thesis by (simp add: advance_snd)
qed

lemma qa_txn_eq: "qa_txn m st = (fst (m (qs_db st)), st\<lparr>qs_db := snd (m (qs_db st))\<rparr>)"
  by (simp add: qa_txn_def split: prod.splits)

text \<open>What block_task and settle_completed leave behind.\<close>

lemma block_task_row:
  assumes "block_task t ref st = (Inr (), st')"
  obtains r where "get_task t (qs_db st) = Some r"
    and "get_task t (qs_db st') = Some (r\<lparr>tk_result := Some ref, tk_state := FAILED\<rparr>)"
    and "\<And>j. j \<noteq> t \<Longrightarrow> get_task j (qs_db st') = get_task j (qs_db st)"
proof -
  let ?d = "snd (set_result_ref t ref (qs_db st))"
  have run: "fst (transition t FAILED QA_BLOCKED_R ?d) = Inr ()"
    and d': "qs_db st' = snd (transition t FAILED QA_BLOCKED_R ?d)"
    using assms by (auto simp: block_task_def qa_bind_def qa_txn_eq)
  then obtain r1 where r1: "get_task t ?d = Some r1" using transition_some by blast
  then obtain r where r: "get_task t (qs_db st) = Some r" "r1 = r\<lparr>tk_result := Some ref\<rparr>" by (auto simp: result_get)
  show thesis using that[OF r(1)] r by (simp add: d' transition_get[OF r1] result_get)
qed

lemma settle_row:
  assumes "settle_completed t ref st = (Inr (), st')" and "distinct (map tk_id (od_tasks (qs_db st)))"
  obtains r where "get_task t (qs_db st) = Some r"
    and "get_task t (qs_db st') = Some (r\<lparr>tk_result := Some ref, tk_state := COMPLETED\<rparr>)"
    and "\<And>j q. j \<noteq> t \<Longrightarrow> get_task j (qs_db st) = Some q \<Longrightarrow> tk_state q \<noteq> PENDING \<Longrightarrow> get_task j (qs_db st') = Some q"
proof -
  let ?d = "snd (set_result_ref t ref (qs_db st))"
  let ?d1 = "snd (transition t COMPLETED COMPLETED_R ?d)"
  have run: "fst (transition t COMPLETED COMPLETED_R ?d) = Inr ()" and d': "qs_db st' = snd (advance_dependents t ?d1)"
    using assms(1) by (auto simp: settle_completed_def qa_bind_def qa_txn_eq qa_return_def split: sum.splits)
  then obtain r1 where r1: "get_task t ?d = Some r1" using transition_some by blast
  then obtain r where r: "get_task t (qs_db st) = Some r" "r1 = r\<lparr>tk_result := Some ref\<rparr>" by (auto simp: result_get)
  have ids: "distinct (map tk_id (od_tasks ?d1))"
    using assms(2) same_ids.result[where db="qs_db st"] same_ids.transition[where db="?d"] by metis
  have g: "get_task j ?d1 = (if j = t then Some (r1\<lparr>tk_state := COMPLETED\<rparr>) else get_task j (qs_db st))" for j
    by (simp add: transition_get[OF r1] result_get)
  show thesis
  proof (rule that[OF r(1)])
    show "get_task t (qs_db st') = Some (r\<lparr>tk_result := Some ref, tk_state := COMPLETED\<rparr>)"
      using advance_keeps[OF ids, of t] g r(2) by (simp add: d')
  next
    fix j q assume "j \<noteq> t" "get_task j (qs_db st) = Some q" "tk_state q \<noteq> PENDING"
    then show "get_task j (qs_db st') = Some q" using advance_keeps[OF ids, of j q] g by (simp add: d')
  qed
qed

lemma settle_result:
  assumes "settle_completed t ref st = (Inr (), st')"
  shows "get_result_ref t (qs_db st') = Some ref"
proof -
  let ?d = "snd (set_result_ref t ref (qs_db st))"
  let ?d1 = "snd (transition t COMPLETED COMPLETED_R ?d)"
  have run: "fst (transition t COMPLETED COMPLETED_R ?d) = Inr ()" and d': "qs_db st' = snd (advance_dependents t ?d1)"
    using assms(1) by (auto simp: settle_completed_def qa_bind_def qa_txn_eq qa_return_def split: sum.splits)
  then obtain r1 where r1: "get_task t ?d = Some r1" using transition_some by blast
  then have "get_result_ref t ?d1 = Some ref"
    by (auto simp: get_result_ref_def transition_get[OF r1] result_get)
  then show ?thesis by (simp add: d' advance_result)
qed

section \<open>Both reviews of a draft end together\<close>

definition settled_as :: "task_state_enum \<Rightarrow> bool \<Rightarrow> tid \<Rightarrow> orch_db \<Rightarrow> bool" where
  "settled_as s p i db \<longleftrightarrow>
    (\<exists>r w. get_task i db = Some r \<and> tk_state r = s \<and> tk_result r = Some (JObj ((''pass'', JBool p) # w)))"

lemma settled_as_state: "settled_as s p i db \<Longrightarrow> task_state i db = Some s"
  by (auto simp: settled_as_def task_state_def)

lemma settled_as_result: "settled_as s p i db \<Longrightarrow> \<exists>w. get_result_ref i db = Some (JObj ((''pass'', JBool p) # w))"
  by (auto simp: settled_as_def get_result_ref_def)

lemma block_settles:
  assumes "block_task t (JObj ((''pass'', JBool False) # w)) st = (Inr (), st')"
  shows "settled_as FAILED False t (qs_db st')"
    and "j \<noteq> t \<Longrightarrow> settled_as s p j (qs_db st) \<Longrightarrow> settled_as s p j (qs_db st')"
proof -
  from block_task_row[OF assms] obtain r where
    "get_task t (qs_db st') = Some (r\<lparr>tk_result := Some (JObj ((''pass'', JBool False) # w)), tk_state := FAILED\<rparr>)"
    and other: "\<And>j. j \<noteq> t \<Longrightarrow> get_task j (qs_db st') = get_task j (qs_db st)" by metis
  then show "settled_as FAILED False t (qs_db st')" by (simp add: settled_as_def)
  show "settled_as s p j (qs_db st')" if "j \<noteq> t" "settled_as s p j (qs_db st)"
    using that other by (simp add: settled_as_def)
qed

lemma settle_settles:
  assumes "settle_completed t (JObj ((''pass'', JBool True) # w)) st = (Inr (), st')"
    and ids: "distinct (map tk_id (od_tasks (qs_db st)))"
  shows "settled_as COMPLETED True t (qs_db st')"
    and "j \<noteq> t \<Longrightarrow> settled_as COMPLETED True j (qs_db st) \<Longrightarrow> settled_as COMPLETED True j (qs_db st')"
proof -
  from settle_row[OF assms] obtain r where r: "get_task t (qs_db st) = Some r"
      "get_task t (qs_db st') = Some (r\<lparr>tk_result := Some (JObj ((''pass'', JBool True) # w)), tk_state := COMPLETED\<rparr>)"
    and other: "\<And>j q. j \<noteq> t \<Longrightarrow> get_task j (qs_db st) = Some q \<Longrightarrow> tk_state q \<noteq> PENDING \<Longrightarrow> get_task j (qs_db st') = Some q"
    by metis
  show "settled_as COMPLETED True t (qs_db st')" using r by (auto simp: settled_as_def)
  show "settled_as COMPLETED True j (qs_db st')" if "j \<noteq> t" "settled_as COMPLETED True j (qs_db st)"
    using that other by (auto simp: settled_as_def)
qed

lemma card_db [simp]:
  "qs_db (snd (notify_needs_edit env t ch vs ex st)) = qs_db st"
  "qs_db (snd (notify_retry_exhausted env t d ch vs a b c k h st)) = qs_db st"
  by (simp_all add: notify_needs_edit_def notify_retry_exhausted_def post_card_def qa_return_def qa_bind_def qa_call_def)

lemma finalize_settles:
  assumes "finalize_qa_failure env t vs d tx run c st = (Inr (), st')"
  shows "settled_as FAILED False t (qs_db st')"
proof -
  let ?w = "(''violations'', str_list vs) # draft_fields d @ [(''agent_run_id'', run), (''campaign_id'', c)]"
  from assms obtain u st1 y st2 where b: "block_task t (JObj ([(''pass'', JBool False), (''violations'', str_list vs)] @
      draft_fields d @ [(''agent_run_id'', run), (''campaign_id'', c)])) st = (Inr u, st1)"
    and n: "notify_needs_edit env t ''linkedin'' vs (take 280 (teams_display_text tx)) st1 = (Inr y, st2)"
    and e: "qa_return () st2 = (Inr (), st')"
    unfolding finalize_qa_failure_def qa_bind_ok by blast
  have "block_task t (JObj ((''pass'', JBool False) # ?w)) st = (Inr (), st1)" using b by simp
  then have "settled_as FAILED False t (qs_db st1)" by (rule block_settles(1))
  moreover have "qs_db st2 = qs_db st1" using n card_db(1) by (metis snd_conv)
  ultimately show ?thesis using e by (simp add: qa_return_def)
qed

lemma ids_kept: "moves (\<lambda>a b. map tk_id (od_tasks b) = map tk_id (od_tasks a)) m \<Longrightarrow> m st = (r, st') \<Longrightarrow>
    distinct (map tk_id (od_tasks (qs_db st))) \<Longrightarrow> distinct (map tk_id (od_tasks (qs_db st')))"
  by (drule movesD, assumption, simp)

lemma pass_siblings_settle:
  assumes "pass_siblings x k v ts st = (Inr (), st')" and "distinct (map tk_id (od_tasks (qs_db st)))"
    and "j \<in> snd ` set ts \<or> settled_as COMPLETED True j (qs_db st)"
  shows "settled_as COMPLETED True j (qs_db st')"
  using assms
proof (induction ts arbitrary: st)
  case Nil
  then show ?case by (simp add: qa_return_def)
next
  case (Cons kt ts)
  obtain kd t where kt: "kt = (kd, t)" by force
  from Cons.prems(1) obtain w st1 where s: "settle_completed t (JObj ((''pass'', JBool True) # w)) st = (Inr (), st1)"
    and p: "pass_siblings x k v ts st1 = (Inr (), st')"
    by (auto simp: kt qa_bind_ok qa_lift_def)
  have "j \<in> snd ` set ts \<or> settled_as COMPLETED True j (qs_db st1)"
    using Cons.prems(3) settle_settles[OF s Cons.prems(2)] by (cases "j = t") (auto simp: kt)
  then show ?case using Cons.IH[OF p ids_kept[OF same_ids.moves_settle(2) s Cons.prems(2)]] by blast
qed

lemma block_siblings_settle:
  assumes "block_siblings x k v ts st = (Inr (), st')"
    and "j \<in> snd ` set ts \<or> settled_as FAILED False j (qs_db st)"
  shows "settled_as FAILED False j (qs_db st')"
  using assms
proof (induction ts arbitrary: st)
  case Nil
  then show ?case by (simp add: qa_return_def)
next
  case (Cons kt ts)
  obtain kd t where kt: "kt = (kd, t)" by force
  from Cons.prems(1) obtain w st1 where s: "block_task t (JObj ((''pass'', JBool False) # w)) st = (Inr (), st1)"
    and p: "block_siblings x k v ts st1 = (Inr (), st')"
    by (auto simp: kt qa_bind_ok)
  have "j \<in> snd ` set ts \<or> settled_as FAILED False j (qs_db st1)"
    using Cons.prems(2) block_settles[OF s] by (cases "j = t") (auto simp: kt)
  then show ?case using Cons.IH[OF p] by blast
qed

text \<open>The loop stops within its bound, and it stops as passed only after an attempt with
two clean checks.\<close>

lemma retry_attempts_outcome:
  assumes "retry_attempts env x n k v st = (Inr (passed, k', v'), st')"
  shows "k \<le> k' \<and> k' \<le> k + n \<and> (passed \<longrightarrow> k < k' \<and> (\<exists>v1 s1 s2. retry_attempt env x k' v1 s1 = (Inr v', s2)) \<and>
    rv_brand v' = [] \<and> rv_fact v' = [])"
  using assms
proof (induction n arbitrary: k v st)
  case 0
  then show ?case by (auto simp: qa_return_def)
next
  case (Suc n)
  show ?case
  proof (cases "set never_retryable \<inter> set (revision_targets v) = {}")
    case False
    then show ?thesis using Suc.prems by (auto simp: qa_return_def)
  next
    case True
    then obtain v1 st1 where a: "retry_attempt env x (Suc k) v st = (Inr v1, st1)"
      and r: "(if rv_brand v1 = [] \<and> rv_fact v1 = [] then qa_return (True, Suc k, v1)
               else retry_attempts env x n (Suc k) v1) st1 = (Inr (passed, k', v'), st')"
      using Suc.prems by (auto simp: qa_bind_ok)
    show ?thesis
    proof (cases "rv_brand v1 = [] \<and> rv_fact v1 = []")
      case True
      then have "passed" "k' = Suc k" "v' = v1" using r by (auto simp: qa_return_def)
      then show ?thesis using True a by auto
    next
      case False
      from Suc.IH[OF r[unfolded if_not_P[OF False]]] show ?thesis by auto
    qed
  qed
qed

text \<open>What a run of the loop that returns comes to.\<close>

lemma retry_loop_outcome:
  assumes run: "run_qa_retry_loop env kind t e d rc vs tx st = (Inr (), st')"
    and ids: "distinct (map tk_id (od_tasks (qs_db st)))"
    and brief: "resolve_lineage_result (tk_id d) (qs_db st) \<noteq> None"
  obtains x passed k v st1 st2 where "rx_task x = t" and "rx_draft x = d" and "rx_recipe x = rc"
    and "retry_attempts env x MAX_QA_RETRY_ATTEMPTS 0 (start_vars kind vs tx) st1 = (Inr (passed, k, v), st2)"
    and "\<And>j. j \<in> snd ` set (tasks_by_kind kind t (sibling_of kind (tk_id d) (qs_db st))) \<Longrightarrow>
      if passed then settled_as COMPLETED True j (qs_db st') else settled_as FAILED False j (qs_db st')"
proof -
  let ?ts = "tasks_by_kind kind t (sibling_of kind (tk_id d) (qs_db st))"
  obtain a ref where a: "resolve_lineage_result (tk_id d) (qs_db st) = Some (a, ref)" using brief by auto
  let ?st0 = "st\<lparr>qs_ordinal := 0\<rparr>"
  define x where "x b = \<lparr>rx_task = t, rx_envelope = e, rx_draft = d, rx_recipe = rc, rx_initial = tx, rx_brief = b\<rparr>" for b
  have "qa_bind (read_brief_context env e rc ref) (\<lambda>b. retry_rounds env (x b) kind vs ?ts) ?st0 = (Inr (), st')"
    using run by (simp add: run_qa_retry_loop_def qa_reads a x_def)
  from this[unfolded qa_bind_ok] obtain b st1 where b: "read_brief_context env e rc ref ?st0 = (Inr b, st1)"
    and loop: "retry_rounds env (x b) kind vs ?ts st1 = (Inr (), st')"
    by blast
  then obtain passed k v st2
    where att: "retry_attempts env (x b) MAX_QA_RETRY_ATTEMPTS 0 (start_vars kind vs tx) st1 = (Inr (passed, k, v), st2)"
      and fin: "(if passed then pass_siblings (x b) k v ?ts
        else qa_bind (block_siblings (x b) k v ?ts) (\<lambda>_. escalate_card env (x b) k v)) st2 = (Inr (), st')"
    unfolding retry_rounds_def qa_bind_ok x_def by force
  have "distinct (map tk_id (od_tasks (qs_db ?st0)))" using ids by simp
  note ids2 = ids_kept[OF same_ids.moves_attempts att ids_kept[OF same_ids.moves_brief b this]]
  show thesis
  proof (rule that[of "x b" st1 passed k v st2])
    fix j assume j: "j \<in> snd ` set ?ts"
    show "if passed then settled_as COMPLETED True j (qs_db st') else settled_as FAILED False j (qs_db st')"
    proof (cases passed)
      case True
      then have "pass_siblings (x b) k v ?ts st2 = (Inr (), st')" using fin by simp
      then show ?thesis using True j pass_siblings_settle[OF _ ids2] by simp
    next
      case False
      then obtain st3 where p: "block_siblings (x b) k v ?ts st2 = (Inr (), st3)"
        and c: "escalate_card env (x b) k v st3 = (Inr (), st')"
        using fin by (auto simp: qa_bind_ok)
      have "qs_db st' = qs_db st3"
        using c card_db(2) unfolding escalate_card_def Let_def qa_bind_ok qa_return_def by (metis prod.inject snd_conv)
      then show ?thesis using False j block_siblings_settle[OF p] by simp
    qed
  qed (use att in \<open>simp_all add: x_def\<close>)
qed

text \<open>When the retry loop of a draft returns, the review task that ran it and its sibling
review end in the same state with the same verdict, whatever the sibling's state was
before, a terminal one included: both are completed with pass, after an attempt number
1 to 10 whose two checks found nothing, or both are failed.\<close>

theorem retry_loop_settles_both:
  assumes "run_qa_retry_loop env kind t e d rc vs tx st = (Inr (), st')"
    and "distinct (map tk_id (od_tasks (qs_db st)))"
    and "resolve_lineage_result (tk_id d) (qs_db st) \<noteq> None"
    and "sibling_of kind (tk_id d) (qs_db st) = Some sib"
  shows "(\<forall>j\<in>{t, tk_id sib}. settled_as FAILED False j (qs_db st')) \<or>
    (\<forall>j\<in>{t, tk_id sib}. settled_as COMPLETED True j (qs_db st')) \<and>
    (\<exists>x k v v' s s'. rx_task x = t \<and> rx_draft x = d \<and> k \<in> {1..10} \<and>
       retry_attempt env x k v s = (Inr v', s') \<and> rv_brand v' = [] \<and> rv_fact v' = [])"
proof -
  obtain x passed k v st1 st2 where x: "rx_task x = t" "rx_draft x = d"
    and att: "retry_attempts env x MAX_QA_RETRY_ATTEMPTS 0 (start_vars kind vs tx) st1 = (Inr (passed, k, v), st2)"
    and fin: "\<And>j. j \<in> {t, tk_id sib} \<Longrightarrow>
      if passed then settled_as COMPLETED True j (qs_db st') else settled_as FAILED False j (qs_db st')"
    by (rule retry_loop_outcome[OF assms(1-3)]) (simp add: tasks_by_kind_def assms(4))
  note out = retry_attempts_outcome[OF att]
  show ?thesis
  proof (cases passed)
    case True
    then obtain v1 s1 s2 where "retry_attempt env x k v1 s1 = (Inr v, s2)" "rv_brand v = []" "rv_fact v = []" "k \<in> {1..10}"
      using out by (auto simp: MAX_QA_RETRY_ATTEMPTS_def)
    moreover have "\<forall>j\<in>{t, tk_id sib}. settled_as COMPLETED True j (qs_db st')" using fin True by simp
    ultimately show ?thesis using x by blast
  qed (use fin in auto)
qed

section \<open>A pass is earned\<close>

definition contradicted :: "string \<Rightarrow> string \<Rightarrow> bool" where
  "contradicted c tx \<longleftrightarrow> c = SA_SPELLING_VIOLATION \<and> has_us_spelling tx = [] \<or>
    c = UNSUPPORTED_CLAIM_VIOLATION \<and> has_unsupported_claim tx = []"

lemma judge_passes:
  assumes "judge p named unc tx = (vs, True)"
  shows "unc = [] \<and> (\<forall>c\<in>set named. contradicted c tx) \<and> (p \<or> named \<noteq> [])"
proof -
  let ?v = "if unc \<noteq> [] \<and> VIOLATION_CODE \<notin> set named then named @ [VIOLATION_CODE] else named"
  let ?r = "reconcile_violations ?v tx"
  have r: "fst ?r = []" "p \<or> snd ?r \<noteq> []"
    using assms by (auto simp: judge_def Let_def case_prod_beta split: if_splits)
  have all: "\<forall>c\<in>set ?v. contradicted c tx"
    using reconciled_keeps[of _ ?v tx] r(1) by (simp add: contradicted_def)
  have "unc = []"
  proof (rule ccontr)
    assume "unc \<noteq> []"
    then have "VIOLATION_CODE \<in> set ?v" by auto
    then have "contradicted VIOLATION_CODE tx" using all by blast
    then show False by (simp add: contradicted_def VIOLATION_CODE_def SA_SPELLING_VIOLATION_def UNSUPPORTED_CLAIM_VIOLATION_def)
  qed
  then show ?thesis using all r(2) by (auto simp: reconcile_violations_def Let_def split: if_splits)
qed

text \<open>The evidence behind a passed review: a verdict that its schema accepts, a register
under which the draft names no client without clearance, no violation code that the
deterministic checks do not contradict, and a declared pass unless such a code was named.\<close>

definition earned :: "qa_env \<Rightarrow> review_kind \<Rightarrow> review_outcome \<Rightarrow> bool" where
  "earned env kind out \<longleftrightarrow>
    (\<exists>reg named. load_register (qe_str env) (qe_register env) = Some reg \<and>
      qe_output_ok env (rp_function (qa_review_params kind)) (JObj (ro_verdict out)) \<and>
      codes_of (case jget (ro_verdict out) ''violations'' of Some v \<Rightarrow> v | None \<Rightarrow> JNull) = Some named \<and>
      find_uncleared_in_text (qe_str env) reg (ro_text out) = [] \<and>
      (\<forall>c\<in>set named. contradicted c (ro_text out)) \<and>
      (named \<noteq> [] \<or> jtruth (case jget (ro_verdict out) ''pass'' of Some v \<Rightarrow> v | None \<Rightarrow> JNull)))"

lemma resolve_verdict_ok:
  "resolve_verdict env fn verdict st = (Inr (p, named), st') \<Longrightarrow>
    qe_output_ok env fn (JObj verdict) \<and> st' = st \<and>
    p = jtruth (case jget verdict ''pass'' of Some v \<Rightarrow> v | None \<Rightarrow> JNull) \<and>
    codes_of (case jget verdict ''violations'' of Some v \<Rightarrow> v | None \<Rightarrow> JNull) = Some named"
  by (auto simp: resolve_verdict_def qa_lift_def qa_bind_ok qa_return_def violations_of_def qa_need_def
      split: if_splits option.splits)

lemma review_draft_parts:
  assumes "review_draft env kind t e d ref prompt campaign st = (Inr out, st')"
  obtains declared named reg where
    "qe_output_ok env (rp_function (qa_review_params kind)) (JObj (ro_verdict out))"
    "declared = jtruth (case jget (ro_verdict out) ''pass'' of Some v \<Rightarrow> v | None \<Rightarrow> JNull)"
    "codes_of (case jget (ro_verdict out) ''violations'' of Some v \<Rightarrow> v | None \<Rightarrow> JNull) = Some named"
    "load_register (qe_str env) (qe_register env) = Some reg"
    "judge declared named (find_uncleared_in_text (qe_str env) reg (ro_text out)) (ro_text out) = (ro_violations out, ro_passed out)"
proof -
  from assms obtain tx asset run response st1 where "judge_answer env kind tx asset run response st1 = (Inr out, st')"
    by (auto simp: review_draft_def Let_def qa_bind_ok)
  from this[unfolded judge_answer_def qa_bind_ok] obtain verdict pn st2 st3
    where v: "resolve_verdict env (rp_function (qa_review_params kind)) verdict st2 = (Inr pn, st3)"
    and rest: "(case pn of (declared, named) \<Rightarrow> qa_bind (load_permissions env) (\<lambda>reg.
        let (vs, passed) = judge declared named (find_uncleared_in_text (qe_str env) reg tx) tx
        in qa_bind (update_agent_run env run (if passed then ''succeeded'' else ''failed'')
            (JObj [(''pass'', JBool passed), (''violations'', str_list vs),
               (''notes'', case jget verdict ''notes'' of Some n \<Rightarrow> n | None \<Rightarrow> JNull)])) (\<lambda>_.
            qa_return \<lparr>ro_text = tx, ro_asset = asset, ro_run = run, ro_verdict = verdict,
              ro_violations = vs, ro_passed = passed\<rparr>))) st3 = (Inr out, st')"
    by blast
  obtain declared named where pn: "pn = (declared, named)" by force
  note v = v[unfolded pn]
  obtain reg st4 where reg: "load_permissions env st3 = (Inr reg, st4)"
    and tail: "(let (vs, passed) = judge declared named (find_uncleared_in_text (qe_str env) reg tx) tx
        in qa_bind (update_agent_run env run (if passed then ''succeeded'' else ''failed'')
            (JObj [(''pass'', JBool passed), (''violations'', str_list vs),
               (''notes'', case jget verdict ''notes'' of Some n \<Rightarrow> n | None \<Rightarrow> JNull)])) (\<lambda>_.
            qa_return \<lparr>ro_text = tx, ro_asset = asset, ro_run = run, ro_verdict = verdict,
              ro_violations = vs, ro_passed = passed\<rparr>)) st4 = (Inr out, st')"
    using rest unfolding pn prod.case qa_bind_ok by blast
  obtain vs passed where j: "judge declared named (find_uncleared_in_text (qe_str env) reg tx) tx = (vs, passed)" by force
  have out: "out = \<lparr>ro_text = tx, ro_asset = asset, ro_run = run, ro_verdict = verdict,
      ro_violations = vs, ro_passed = passed\<rparr>"
    using tail by (auto simp: j qa_bind_ok qa_return_def)
  show thesis
  proof (rule that)
    show "qe_output_ok env (rp_function (qa_review_params kind)) (JObj (ro_verdict out))"
      using resolve_verdict_ok[OF v] out by simp
    show "codes_of (case jget (ro_verdict out) ''violations'' of Some v \<Rightarrow> v | None \<Rightarrow> JNull) = Some named"
      using resolve_verdict_ok[OF v] out by simp
    show "declared = jtruth (case jget (ro_verdict out) ''pass'' of Some v \<Rightarrow> v | None \<Rightarrow> JNull)"
      using resolve_verdict_ok[OF v] out by simp
    show "load_register (qe_str env) (qe_register env) = Some reg"
      using reg by (simp add: load_permissions_def qa_need_def split: option.splits)
  qed (use j out in simp)
qed

lemma review_draft_earned:
  "review_draft env kind t e d ref prompt campaign st = (Inr out, st') \<Longrightarrow> ro_passed out \<Longrightarrow> earned env kind out"
  by (erule review_draft_parts) (auto simp: earned_def dest!: judge_passes)

end
