(* ===== verification/QA_Earned.thy ===== *)
theory QA_Earned
  imports QA_Props
begin

text \<open>A review task that ends with pass has evidence behind it: the handler as a whole.\<close>

definition gate_open :: "qa_env \<Rightarrow> bool" where
  "gate_open env \<longleftrightarrow> (\<exists>st. fst (fact_check_gate_approved env st) = Inr True)"

lemma gate_approved: "fact_check_gate_approved env st = (Inr True, st') \<Longrightarrow> gate_open env"
  unfolding gate_open_def by (intro exI[of _ st]) simp

text \<open>An attempt with two clean checks: both were made on its own text, and the gate was open.\<close>

lemma clean_attempt:
  assumes "retry_attempt env x k v st = (Inr v', st')" and "rv_brand v' = []" and "rv_fact v' = []"
  shows "gate_open env" and "\<exists>c s1 s2 r1 s3 s4 r2.
    run_single_qa_check env (rx_task x) (rx_envelope x) c (rv_text v') Brand_Steward s1 = (Inr ([], r1), s2) \<and>
    run_single_qa_check env (rx_task x) (rx_envelope x) c (rv_text v') Fact_Check s3 = (Inr ([], r2), s4)"
proof -
  let ?c = "bc_campaign (rx_brief x)"
  from assms(1)[unfolded retry_attempt_def Let_def qa_bind_ok case_prod_beta] obtain rr :: "string \<times> json" and s0 b s1 f s2 s3 where
    b: "run_single_qa_check env (rx_task x) (rx_envelope x) ?c (fst rr) Brand_Steward s0 = (Inr b, s1)"
    and f: "fact_recheck env x (fst rr) s1 = (Inr f, s2)"
    and r: "qa_return \<lparr>rv_text = fst rr, rv_brand = fst b, rv_fact = fst f,
      rv_hollowed = (rv_hollowed v \<or> looks_hollowed (rx_initial x) (fst rr)), rv_asset = s3,
      rv_brand_run = snd b, rv_fact_run = snd f\<rparr> s2 = (Inr v', st')"
    by blast
  have v': "rv_text v' = fst rr" "fst b = []" "fst f = []" using r assms(2,3) by (auto simp: qa_return_def)
  from f[unfolded fact_recheck_def qa_bind_ok] obtain a s4
    where g: "fact_check_gate_approved env s1 = (Inr a, s4)"
      and h: "(if a then run_single_qa_check env (rx_task x) (rx_envelope x) ?c (fst rr) Fact_Check
        else qa_return ([FACT_CHECK_GATE_NOT_APPROVED], JNull)) s4 = (Inr f, s2)" by blast
  have a: a using h v'(3) by (auto simp: qa_return_def split: if_splits)
  show "gate_open env" using gate_approved g a by simp
  show "\<exists>c s1 s2 r1 s3 s4 r2.
    run_single_qa_check env (rx_task x) (rx_envelope x) c (rv_text v') Brand_Steward s1 = (Inr ([], r1), s2) \<and>
    run_single_qa_check env (rx_task x) (rx_envelope x) c (rv_text v') Fact_Check s3 = (Inr ([], r2), s4)"
  proof (intro exI conjI)
    show "run_single_qa_check env (rx_task x) (rx_envelope x) ?c (rv_text v') Brand_Steward s0 = (Inr ([], snd b), s1)"
      using b v' by (cases b) simp
    show "run_single_qa_check env (rx_task x) (rx_envelope x) ?c (rv_text v') Fact_Check s4 = (Inr ([], snd f), s2)"
      using h a v' by (cases f) simp
  qed
qed

lemma gate_closed_settles:
  assumes "block_fact_check_gate_not_approved env t d c st = (Inr (), st')"
  shows "settled_as FAILED False t (qs_db st')"
proof -
  from assms[unfolded block_fact_check_gate_not_approved_def qa_bind_ok] obtain w u st1 ch vs ex y st2
    where b: "block_task t (JObj ((''pass'', JBool False) # w)) st = (Inr (), st1)"
    and n: "notify_needs_edit env t ch vs ex st1 = (Inr y, st2)"
    and e: "qa_return () st2 = (Inr (), st')"
    by auto
  have "settled_as FAILED False t (qs_db st1)" by (rule block_settles(1)[OF b])
  moreover have "qs_db st2 = qs_db st1" using n card_db(1) by (metis snd_conv)
  ultimately show ?thesis using e by (simp add: qa_return_def)
qed

definition passes :: "tid \<Rightarrow> orch_db \<Rightarrow> bool" where
  "passes t db \<longleftrightarrow> (\<exists>kvs. get_result_ref t db = Some (JObj kvs) \<and> jget kvs ''pass'' = Some (JBool True))"

lemma failed_not_passes: "settled_as s False t db \<Longrightarrow> \<not> passes t db"
  by (auto simp: passes_def dest!: settled_as_result)

lemma undrafted_not_passes:
  assumes "review_undrafted t d ref status campaign st = (Inr (), st')"
  shows "\<not> passes t (qs_db st')"
proof -
  from assms[unfolded review_undrafted_def qa_bind_ok] obtain reason st1 where
    "settle_completed t (JObj ([(''status'', status), (''reviewed'', JBool False), (''reason'', reason)] @
      draft_fields d @ [(''campaign_id'', JStr campaign)])) st1 = (Inr (), st')" by blast
  from settle_result[OF this] show ?thesis by (simp add: passes_def draft_fields_def)
qed

lemma blocked_passes:
  assumes run: "handle_blocked env kind t e d campaign out st = (Inr (), st')"
    and ids: "distinct (map tk_id (od_tasks (qs_db st)))" and p: "passes t (qs_db st')"
  shows "\<exists>x k v v' s s'. rx_task x = t \<and> rx_draft x = d \<and> k \<in> {1..10} \<and>
    retry_attempt env x k v s = (Inr v', s') \<and> rv_brand v' = [] \<and> rv_fact v' = []"
proof -
  have fin: "finalize_qa_failure env t vs d tx r c s1 \<noteq> (Inr (), st')" for vs tx r c s1
    using finalize_settles failed_not_passes p by blast
  obtain rc where rc: "draft_regen_params (tk_type d) = Some rc" "VIOLATION_CODE \<notin> set (ro_violations out)"
    using run fin by (auto simp: handle_blocked_def split: option.splits if_splits)
  from run[unfolded handle_blocked_def] rc obtain owner st1
    where lock: "try_advisory_lock env (advisory_lock_key_for (uuid_str (tk_id d))) st = (Inr owner, st1)"
    and rest: "(if owner then qa_finally (run_qa_retry_loop env kind t e d rc (ro_violations out) (ro_text out)) (release_advisory_lock env)
         else finalize_qa_failure env t (ro_violations out) d (ro_text out) (ro_run out) (JStr campaign)) st1 = (Inr (), st')"
    by (auto simp: qa_bind_ok)
  have owner: owner using rest fin by (auto split: if_splits)
  have db1: "qs_db st1 = qs_db st" using lock by (auto simp: try_advisory_lock_def split: option.splits)
  obtain st2 where loop: "run_qa_retry_loop env kind t e d rc (ro_violations out) (ro_text out) st1 = (Inr (), st2)"
    and db2: "qs_db st' = qs_db st2"
    using rest owner by (auto simp: qa_finally_def release_advisory_lock_def qa_bind_def qa_call_def qa_return_def split: prod.splits)
  show ?thesis
  proof (cases "resolve_lineage_result (tk_id d) (qs_db st1)")
    case None
    then have "finalize_qa_failure env t (ro_violations out) d (ro_text out) JNull JNull (st1\<lparr>qs_ordinal := 0\<rparr>) = (Inr (), st2)"
      using loop by (simp add: run_qa_retry_loop_def qa_reads)
    then have False using finalize_settles failed_not_passes p db2 by metis
    then show ?thesis ..
  next
    case (Some a)
    have ids1: "distinct (map tk_id (od_tasks (qs_db st1)))" using ids db1 by simp
    from Some have "resolve_lineage_result (tk_id d) (qs_db st1) \<noteq> None" by simp
    then obtain x passed k v s1 s2 where x: "rx_task x = t" "rx_draft x = d"
      and att: "retry_attempts env x MAX_QA_RETRY_ATTEMPTS 0 (start_vars kind (ro_violations out) (ro_text out)) s1 = (Inr (passed, k, v), s2)"
      and fin: "if passed then settled_as COMPLETED True t (qs_db st2) else settled_as FAILED False t (qs_db st2)"
      by (rule retry_loop_outcome[OF loop ids1]) (simp add: tasks_by_kind_def)
    have passed using fin p db2 failed_not_passes by (metis)
    with retry_attempts_outcome[OF att] obtain v1 q1 q2 where "retry_attempt env x k v1 q1 = (Inr v, q2)"
        "rv_brand v = []" "rv_fact v = []" "k \<in> {1..10}" by (auto simp: MAX_QA_RETRY_ATTEMPTS_def)
    with x show ?thesis by blast
  qed
qed

lemma handler_parts:
  assumes run: "single_draft_qa_review env kind t e st = (Inr (), st')" and p: "passes t (qs_db st')"
  obtains d ref prompt campaign s1 out s2 where "resolve_lineage_result t (qs_db st) = Some (d, ref)"
    and "kind = Fact_Check \<Longrightarrow> gate_open env"
    and "review_draft env kind t e d ref prompt campaign s1 = (Inr out, s2)"
    and "map tk_id (od_tasks (qs_db s2)) = map tk_id (od_tasks (qs_db st))"
    and "ro_passed out \<or> handle_blocked env kind t e d campaign out s2 = (Inr (), st')"
proof -
  obtain d ref where l: "resolve_lineage_result t (qs_db st) = Some (d, ref)"
    using run by (cases "resolve_lineage_result t (qs_db st)") (auto simp: single_draft_qa_review_def Let_def qa_reads qa_lift_def)
  let ?pr = "rp_prompt (qa_review_params kind)" and ?fn = "rp_function (qa_review_params kind)"
  have no: "settled_as s False t (qs_db st') \<Longrightarrow> False" for s using p failed_not_passes by blast
  define after where "after prompt campaign = qa_bind (if kind = Fact_Check then fact_check_gate_approved env else qa_return True) (\<lambda>approved.
          if \<not> approved then block_fact_check_gate_not_approved env t d (JStr campaign)
          else qa_bind (review_draft env kind t e d ref prompt campaign) (\<lambda>out.
            if ro_passed out then handle_passed kind t d ref campaign out
            else handle_blocked env kind t e d campaign out))" for prompt campaign
  from run have "qa_bind (qa_lift (get_of ref ''vault_asset_id'')) (\<lambda>asset_id.
        qa_bind (read_prompt env ?pr) (\<lambda>prompt. qa_bind open_vault (\<lambda>_.
        qa_bind (get_or_create_campaign env (campaign_name e) ?fn) (\<lambda>campaign.
        qa_bind (qa_lift (get_of ref ''status'')) (\<lambda>status.
        if \<not> jtruth asset_id \<and> jtruth status then review_undrafted t d ref status campaign
        else if \<not> jtruth asset_id
        then block_task t (JObj ([(''pass'', JBool False), (''violations'', str_list [''no_reviewable_asset''])] @
               draft_fields d @ [(''campaign_id'', JStr campaign)]))
        else after prompt campaign))))) st = (Inr (), st')"
    unfolding single_draft_qa_review_def Let_def qa_reads l option.case prod.case after_def .
  from this[unfolded qa_bind_ok] obtain asset_id prompt sa sb u sc campaign sd status se
    where m1: "qa_lift (get_of ref ''vault_asset_id'') st = (Inr asset_id, sa)"
      and m2: "read_prompt env ?pr sa = (Inr prompt, sb)" and m3: "open_vault sb = (Inr u, sc)"
      and m4: "get_or_create_campaign env (campaign_name e) ?fn sc = (Inr campaign, sd)"
      and m5: "qa_lift (get_of ref ''status'') sd = (Inr status, se)"
      and rest: "(if \<not> jtruth asset_id \<and> jtruth status then review_undrafted t d ref status campaign
        else if \<not> jtruth asset_id
        then block_task t (JObj ([(''pass'', JBool False), (''violations'', str_list [''no_reviewable_asset''])] @
               draft_fields d @ [(''campaign_id'', JStr campaign)]))
        else after prompt campaign) se = (Inr (), st')"
    by (elim exE conjE) (rule that; assumption)
  have asset: "jtruth asset_id"
  proof (rule ccontr)
    assume "\<not> jtruth asset_id"
    then show False
      using rest undrafted_not_passes p no block_settles(1)[of t "(''violations'', str_list [''no_reviewable_asset'']) #
          draft_fields d @ [(''campaign_id'', JStr campaign)]" se st'] by (auto split: if_splits)
  qed
  then have "after prompt campaign se = (Inr (), st')" using rest by simp
  from this[unfolded after_def qa_bind_ok] obtain approved sf
    where g: "(if kind = Fact_Check then fact_check_gate_approved env else qa_return True) se = (Inr approved, sf)"
      and b: "(if \<not> approved then block_fact_check_gate_not_approved env t d (JStr campaign)
          else qa_bind (review_draft env kind t e d ref prompt campaign) (\<lambda>out.
            if ro_passed out then handle_passed kind t d ref campaign out
            else handle_blocked env kind t e d campaign out)) sf = (Inr (), st')" by blast
  have a: approved
  proof (rule ccontr)
    assume "\<not> approved"
    then have "block_fact_check_gate_not_approved env t d (JStr campaign) sf = (Inr (), st')" using b by simp
    from gate_closed_settles[OF this] show False by (rule no)
  qed
  then obtain out s2 where r: "review_draft env kind t e d ref prompt campaign sf = (Inr out, s2)"
    and h: "(if ro_passed out then handle_passed kind t d ref campaign out
            else handle_blocked env kind t e d campaign out) s2 = (Inr (), st')"
    using b by (auto simp: qa_bind_ok)
  have "map tk_id (od_tasks (qs_db se)) = map tk_id (od_tasks (qs_db st))"
    using movesD[OF same_ids.moves_campaign m4] m1 m2 m3 m5
    by (auto simp: qa_lift_def read_prompt_def qa_need_def open_vault_def split: option.splits)
  moreover have "qs_db sf = qs_db se"
    using g by (auto simp: fact_check_gate_approved_def qa_return_def split: if_splits option.splits sum.splits)
  ultimately have ids: "map tk_id (od_tasks (qs_db s2)) = map tk_id (od_tasks (qs_db st))"
    using movesD[OF same_ids.moves_review r] by simp
  show thesis
    by (rule that[OF l _ r ids]) (use g a gate_approved h in \<open>auto split: if_splits\<close>)
qed


end
