(* ===== verification/QA_Repeat.thy ===== *)
theory QA_Repeat
  imports QA_Earned
begin

text \<open>The first regeneration of the retry loop. A handler run numbers its agent runs from one
each time it opens the Vault client, and the loop opens the client again: its first
number is the number of the review, whose agent run the ledger already holds.\<close>

section \<open>What the services document\<close>

text \<open>The vault names a run by its canonical UUID, in the answer to its creation and when it is
read back. The model gateway answers a task reference that it has answered before with
the content of then (its cache, which the theories on the gateway model).\<close>

definition canonical_runs :: "qa_env \<Rightarrow> bool" where
  "canonical_runs env \<longleftrightarrow>
    (\<forall>calls body n j v. qe_answer env calls (Vault_Post ''/agent-runs'' body) = Answer n (Some j) \<longrightarrow>
       item_of j ''id'' = Inr v \<longrightarrow> (\<exists>run<2 ^ 128. v = JStr (uuid_str run))) \<and>
    (\<forall>calls run n j v. qe_answer env calls (Vault_Get (''/agent-runs/'' @ uuid_str run)) = Answer n (Some j) \<longrightarrow>
       item_of j ''id'' = Inr v \<longrightarrow> v = JStr (uuid_str run))"

definition task_ref_cached :: "qa_env \<Rightarrow> bool" where
  "task_ref_cached env \<longleftrightarrow>
    (\<forall>before p between q ref r s. jget p ''task_ref'' = Some ref \<longrightarrow> jget q ''task_ref'' = Some ref \<longrightarrow>
       qe_answer env before (Complete (JObj p)) = Answer 200 (Some (JObj r)) \<longrightarrow>
       qe_answer env (before @ Complete (JObj p) # between) (Complete (JObj q)) = Answer 200 (Some (JObj s)) \<longrightarrow>
       jget s ''content'' = jget r ''content'')"

section \<open>One agent run per number\<close>

lemma json_replyD: "json_reply ok a = Inr j \<Longrightarrow> \<exists>n\<in>set ok. a = Answer n (Some j)"
  by (auto simp: json_reply_def split: answer.splits if_splits option.splits)

lemma vault_get_run:
  "vault_get env p st = (Inr j, st') \<longleftrightarrow>
    json_reply [200] (qe_answer env (qs_calls st) (Vault_Get p)) = Inr j \<and> st' = st\<lparr>qs_calls := qs_calls st @ [Vault_Get p]\<rparr>"
  by (auto simp: vault_get_def qa_reads qa_lift_def)

lemma vault_post_run:
  "vault_post env p b st = (Inr j, st') \<longleftrightarrow>
    json_reply [200, 201] (qe_answer env (qs_calls st) (Vault_Post p b)) = Inr j \<and> st' = st\<lparr>qs_calls := qs_calls st @ [Vault_Post p b]\<rparr>"
  by (auto simp: vault_post_def qa_reads qa_lift_def)

lemma get_run_id:
  assumes "canonical_runs env" and "vault_get env (''/agent-runs/'' @ uuid_str q) st = (Inr j, st')" and "item_of j ''id'' = Inr v"
  shows "v = JStr (uuid_str q)"
proof -
  obtain n where "qe_answer env (qs_calls st) (Vault_Get (''/agent-runs/'' @ uuid_str q)) = Answer n (Some j)"
    using assms(2)[unfolded vault_get_run] json_replyD by blast
  then show ?thesis using assms(1,3) unfolding canonical_runs_def by blast
qed

lemma post_run_id:
  assumes "canonical_runs env" and "vault_post env ''/agent-runs'' b st = (Inr j, st')" and "item_of j ''id'' = Inr v"
  obtains q where "q < 2 ^ 128" and "v = JStr (uuid_str q)"
proof -
  obtain n where "qe_answer env (qs_calls st) (Vault_Post ''/agent-runs'' b) = Answer n (Some j)"
    using assms(2)[unfolded vault_post_run] json_replyD by blast
  then show ?thesis using assms(1,3) that unfolding canonical_runs_def by blast
qed

lemma find_append_None: "List.find P xs = None \<Longrightarrow> List.find P (xs @ ys) = List.find P ys"
  by (induction xs) (auto split: if_splits)

lemma ledger_new:
  "get_ledgered_agent_run k db = None \<Longrightarrow> get_ledgered_agent_run k (snd (record_ledgered_agent_run k t run db)) = Some run"
  by (simp add: record_ledgered_agent_run_def tick_def get_ledgered_agent_run_def find_append_None)

lemma agent_run_ledgered:
  assumes run: "create_agent_run_idempotent env t a c f i st = (Inr j, st')" and "canonical_runs env"
    and "item_of j ''id'' = Inr v"
  shows "qs_ordinal st' = Suc (qs_ordinal st)"
    and "\<exists>run. get_ledgered_agent_run (ordinal_key t (Suc (qs_ordinal st))) (qs_db st') = Some run \<and> v = JStr (uuid_str run)"
    and "get_ledgered_agent_run (ordinal_key t (Suc (qs_ordinal st))) (qs_db st) = Some r \<Longrightarrow> v = JStr (uuid_str r)"
proof -
  let ?k = "ordinal_key t (Suc (qs_ordinal st))" and ?st = "st\<lparr>qs_ordinal := Suc (qs_ordinal st)\<rparr>"
  show "qs_ordinal st' = Suc (qs_ordinal st)"
    and "\<exists>run. get_ledgered_agent_run ?k (qs_db st') = Some run \<and> v = JStr (uuid_str run)"
    and "get_ledgered_agent_run ?k (qs_db st) = Some r \<Longrightarrow> v = JStr (uuid_str r)"
    unfolding atomize_imp atomize_conj
  proof (cases "get_ledgered_agent_run ?k (qs_db st)")
    case (Some q)
    then have g: "vault_get env (''/agent-runs/'' @ uuid_str q) ?st = (Inr j, st')"
      using run by (simp add: create_agent_run_idempotent_def qa_reads)
    from get_run_id[OF assms(2) g assms(3)] show "qs_ordinal st' = Suc (qs_ordinal st) \<and>
      (\<exists>run. get_ledgered_agent_run ?k (qs_db st') = Some run \<and> v = JStr (uuid_str run)) \<and>
      (get_ledgered_agent_run ?k (qs_db st) = Some r \<longrightarrow> v = JStr (uuid_str r))"
      using g Some by (simp add: vault_get_run)
  next
    case None
    then obtain s1 run u s2 where p: "vault_post env ''/agent-runs'' (agent_run_body a c f i) ?st = (Inr j, s1)"
      and id: "py_uuid (str_of (qe_str env) v) = Some run"
      and led: "qa_txn (record_ledgered_agent_run ?k t run) s1 = (Inr u, st')"
      using run assms(3) by (auto simp: create_agent_run_idempotent_def qa_reads qa_bind_ok qa_lift_def qa_need_def qa_return_def split: option.splits)
    obtain q where q: "q < 2 ^ 128" "v = JStr (uuid_str q)" by (rule post_run_id[OF assms(2) p assms(3)])
    then have "run = q" using id py_uuid_str[OF q(1)] q(2) by simp
    moreover have "qs_db s1 = qs_db st" "qs_ordinal s1 = Suc (qs_ordinal st)" using p by (simp_all add: vault_post_run)
    ultimately show "qs_ordinal st' = Suc (qs_ordinal st) \<and>
      (\<exists>run. get_ledgered_agent_run ?k (qs_db st') = Some run \<and> v = JStr (uuid_str run)) \<and>
      (get_ledgered_agent_run ?k (qs_db st) = Some r \<longrightarrow> v = JStr (uuid_str r))"
      using led None q(2) ledger_new[of ?k "qs_db st" t q] by (auto simp: qa_txn_eq)
  qed
qed

text \<open>A completion of a run: the call it makes and the answer it reads.\<close>

lemma complete_run:
  assumes "complete_and_meter env p u (JStr w) n st = (Inr r, st')"
  obtains pl cs where "jget pl ''task_ref'' = Some (JStr w)"
    and "qe_answer env (qs_calls st) (Complete (JObj pl)) = Answer 200 (Some (JObj r))"
    and "qs_calls st' = qs_calls st @ Complete (JObj pl) # cs"
proof -
  define pl where "pl = [(''model'', JStr ''claude-sonnet''),
      (''messages'', JArr [JObj [(''role'', JStr ''system''), (''content'', JStr p)],
                          JObj [(''role'', JStr ''user''), (''content'', JStr u)]]),
      (''agent_run_id'', JStr w), (''max_tokens'', JInt (int n)),
      (''content_class'', JStr ''public_source_content''), (''task_ref'', JStr w)]"
  have pl: "completion_payload p u (JStr w) n = JObj pl" by (simp add: completion_payload_def pl_def)
  let ?st = "st\<lparr>qs_calls := qs_calls st @ [Complete (JObj pl)]\<rparr>"
  from assms[unfolded complete_and_meter_def pl] have "qa_bind (qa_lift (validate_response (qe_answer env (qs_calls st) (Complete (JObj pl)))))
      (\<lambda>r0. case jget r0 ''cost_id'' of None \<Rightarrow> qa_return r0
        | Some c \<Rightarrow> (if \<not> jtruth c then qa_return r0
            else qa_bind (qa_call env (Vault_Get (''/costs/'' @ str_of (qe_str env) c))) (\<lambda>_. qa_return r0))) ?st = (Inr r, st')"
    by (subst (asm) qa_reads(6))
  from this[unfolded qa_bind_ok] obtain r0 s0
    where v: "qa_lift (validate_response (qe_answer env (qs_calls st) (Complete (JObj pl)))) ?st = (Inr r0, s0)"
      and rest: "(case jget r0 ''cost_id'' of None \<Rightarrow> qa_return r0
        | Some c \<Rightarrow> (if \<not> jtruth c then qa_return r0
            else qa_bind (qa_call env (Vault_Get (''/costs/'' @ str_of (qe_str env) c))) (\<lambda>_. qa_return r0))) s0 = (Inr r, st')"
    by blast
  have s0: "s0 = ?st" and a: "validate_response (qe_answer env (qs_calls st) (Complete (JObj pl))) = Inr r0"
    using v by (simp_all add: qa_lift_def)
  have ans: "qe_answer env (qs_calls st) (Complete (JObj pl)) = Answer 200 (Some (JObj r0))"
    using a by (auto simp: validate_response_def split: answer.splits if_splits option.splits json.splits)
  have "r0 = r" and "\<exists>cs. qs_calls st' = qs_calls ?st @ cs"
    using rest s0 by (auto simp: qa_return_def qa_bind_def qa_call_def split: option.splits if_splits)
  then show thesis using that[of pl] ans by (auto simp: pl_def)
qed

section \<open>The review and the regeneration ask about the same run\<close>

lemma judge_verdict:
  assumes "judge_answer env kind tx asset run r st = (Inr out, st')"
  shows "parsed_content r = Inr (ro_verdict out)"
proof -
  from assms[unfolded judge_answer_def qa_bind_ok] obtain verdict s1 pn s2 reg s3
    where v: "qa_lift (parsed_content r) st = (Inr verdict, s1)"
      and tail: "(case pn of (declared, named) \<Rightarrow> qa_bind (load_permissions env) (\<lambda>reg.
        let (vs, passed) = judge declared named (find_uncleared_in_text (qe_str env) reg tx) tx
        in qa_bind (update_agent_run env run (if passed then ''succeeded'' else ''failed'')
            (JObj [(''pass'', JBool passed), (''violations'', str_list vs),
               (''notes'', case jget verdict ''notes'' of Some n \<Rightarrow> n | None \<Rightarrow> JNull)])) (\<lambda>_.
            qa_return \<lparr>ro_text = tx, ro_asset = asset, ro_run = run, ro_verdict = verdict,
              ro_violations = vs, ro_passed = passed\<rparr>))) s2 = (Inr out, st')"
    by blast
  have "ro_verdict out = verdict"
    using tail by (cases pn) (auto simp: qa_bind_ok qa_return_def Let_def case_prod_beta)
  then show ?thesis using v by (simp add: qa_lift_def)
qed

lemma review_leaves:
  assumes "review_draft env kind t e d ref prompt campaign st = (Inr out, st')" and "qs_ordinal st = 0"
    and "canonical_runs env"
  obtains q pl r before after where "get_ledgered_agent_run (ordinal_key t 1) (qs_db st') = Some q"
    and "jget pl ''task_ref'' = Some (JStr (uuid_str q))"
    and "qe_answer env before (Complete (JObj pl)) = Answer 200 (Some (JObj r))"
    and "qs_calls st' = before @ Complete (JObj pl) # after" and "parsed_content r = Inr (ro_verdict out)"
proof -
  let ?ar = "create_agent_run_idempotent env t (agent_name_of (rp_agent (qa_review_params kind)) e) campaign
      (rp_function (qa_review_params kind))
      (JObj [(''channel'', JStr (review_channel (Some (tk_type d)))), (''review_kind'', JStr (kind_text kind))])"
  from assms(1)[unfolded review_draft_def Let_def qa_bind_ok] obtain aid s1 asset s2 stored s3 points s4 u s5 ar s6 run s7 pay r s8
    where m: "qa_lift (get_of ref ''vault_asset_id'') st = (Inr aid, s1)"
      "vault_get env (''/assets/'' @ str_of (qe_str env) aid) s1 = (Inr asset, s2)"
      "qa_lift (asset_text asset) s2 = (Inr stored, s3)"
      "qa_lift (get_of ref ''proof_points'') s3 = (Inr points, s4)"
      "(if qe_input_ok env (rp_function (qa_review_params kind)) (review_payload kind (teams_display_text stored) (review_channel (Some (tk_type d))) points)
        then qa_return ()
        else qa_lift (Inl (DispatchError (rp_function (qa_review_params kind) @ '': handler input failed schema.json validation'')))) s4 = (Inr u, s5)"
    and c: "?ar s5 = (Inr ar, s6)" and i: "qa_lift (item_of ar ''id'') s6 = (Inr run, s7)"
    and k: "complete_and_meter env prompt pay run 1536 s7 = (Inr r, s8)"
    and j: "judge_answer env kind (teams_display_text stored) asset run r s8 = (Inr out, st')"
    by blast
  have o: "qs_ordinal s5 = 0"
    using m assms(2) by (auto simp: qa_lift_def vault_get_run qa_return_def split: if_splits)
  have id: "item_of ar ''id'' = Inr run" "s7 = s6" using i by (simp_all add: qa_lift_def)
  obtain q where q: "get_ledgered_agent_run (ordinal_key t 1) (qs_db s6) = Some q" "run = JStr (uuid_str q)"
    using agent_run_ledgered(2)[OF c assms(3) id(1)] o by auto
  obtain pl cs where p: "jget pl ''task_ref'' = Some (JStr (uuid_str q))"
    "qe_answer env (qs_calls s6) (Complete (JObj pl)) = Answer 200 (Some (JObj r))" "qs_calls s8 = qs_calls s6 @ Complete (JObj pl) # cs"
    by (rule complete_run[OF k[unfolded q(2) id(2)]])
  have "get_ledgered_agent_run (ordinal_key t 1) (qs_db st') = Some q"
    using q(1) movesD[OF ledger_kept.moves_complete k] movesD[OF ledger_kept.moves_judge j] id(2) by metis
  moreover obtain ds where "qs_calls st' = qs_calls s8 @ ds" using emitsD[OF emits_judge j, of completion_weight 0] by auto
  ultimately show thesis using that[of q pl "qs_calls s6" r "cs @ ds"] p judge_verdict[OF j] by simp
qed

lemma regeneration_repeats:
  assumes rg: "regenerate_draft_content env t e b rc prev vs k st = (Inr (tx, run), st')" and "qs_ordinal st = 0"
    and "canonical_runs env" and "task_ref_cached env"
    and led: "get_ledgered_agent_run (ordinal_key t 1) (qs_db st) = Some q"
    and pl: "jget pl ''task_ref'' = Some (JStr (uuid_str q))"
      "qe_answer env before (Complete (JObj pl)) = Answer 200 (Some (JObj r))"
      "qs_calls st = before @ Complete (JObj pl) # after"
  shows "\<exists>out. parsed_content r = Inr out \<and> rc_render rc env out = Some tx"
proof -
  let ?ar = "create_agent_run_idempotent env t (agent_name_of (rc_agent rc) e) (bc_campaign b) (rc_function rc)
      (JObj [(''pillar'', bc_pillar b), (''retry_attempt'', JInt (int k)), (''revision_violations'', str_list vs)])"
  from rg[unfolded regenerate_draft_content_def qa_bind_ok] obtain ar s1 prompt s2 run' s3 uc r' s4 out s5 tx' s6 u s7
    where c: "?ar st = (Inr ar, s1)" and pr: "read_prompt env (rc_prompt rc) s1 = (Inr prompt, s2)"
      and i: "qa_lift (item_of ar ''id'') s2 = (Inr run', s3)"
      and m: "complete_and_meter env prompt uc run' (rc_max_tokens rc) s3 = (Inr r', s4)"
      and o: "qa_lift (parsed_content r') s4 = (Inr out, s5)"
      and d: "qa_need (OtherError ''render'') (rc_render rc env out) s5 = (Inr tx', s6)"
      and f: "qa_return (tx', run') s7 = (Inr (tx, run), st')"
    by blast
  have id: "item_of ar ''id'' = Inr run'" and s3: "s3 = s1"
    using i pr by (auto simp: qa_lift_def read_prompt_def qa_need_def split: option.splits)
  have run': "run' = JStr (uuid_str q)"
    using agent_run_ledgered(3)[OF c assms(3) id, of q] assms(2) led by simp
  obtain pl' cs where p: "jget pl' ''task_ref'' = Some (JStr (uuid_str q))"
    "qe_answer env (qs_calls s1) (Complete (JObj pl')) = Answer 200 (Some (JObj r'))"
    by (rule complete_run[OF m[unfolded run' s3]])
  obtain ds where "qs_calls s1 = qs_calls st @ ds" using emitsD[OF emits_agent_run c, of completion_weight 0] by auto
  then have "jget r' ''content'' = jget r ''content''"
    using assms(4) pl p unfolding task_ref_cached_def by (metis append.assoc append_Cons)
  then have "parsed_content r = Inr out" using o by (simp add: parsed_content_def qa_lift_def)
  moreover have "rc_render rc env out = Some tx"
    using d f by (auto simp: qa_need_def qa_return_def split: option.splits)
  ultimately show ?thesis by blast
qed

section \<open>The loop reaches its first regeneration with a counter at zero\<close>

definition keeps_ordinal :: "'a qa \<Rightarrow> bool" where
  "keeps_ordinal m \<longleftrightarrow> (\<forall>st. qs_ordinal (snd (m st)) = qs_ordinal st)"

lemma keeps_bind: "keeps_ordinal m \<Longrightarrow> (\<And>x. keeps_ordinal (f x)) \<Longrightarrow> keeps_ordinal (qa_bind m f)"
  by (auto simp: keeps_ordinal_def qa_bind_def split: prod.splits sum.splits) (metis snd_conv)+

lemma keeps_split:
  "(c \<Longrightarrow> keeps_ordinal n) \<Longrightarrow> (\<not> c \<Longrightarrow> keeps_ordinal n') \<Longrightarrow> keeps_ordinal (if c then n else n')"
  "keeps_ordinal m \<Longrightarrow> (\<And>a. keeps_ordinal (h a)) \<Longrightarrow> keeps_ordinal (case v of None \<Rightarrow> m | Some a \<Rightarrow> h a)"
  by simp (cases v, simp_all)

lemma keeps_parts:
  "keeps_ordinal (qa_return a)" "keeps_ordinal (qa_lift r)" "keeps_ordinal (qa_call env c)" "keeps_ordinal (remember_campaign nm i)"
  by (simp_all add: keeps_ordinal_def qa_return_def qa_lift_def qa_call_def remember_campaign_def)

lemmas keeps_rules = keeps_bind keeps_split keeps_parts

lemma keeps_vault: "keeps_ordinal (vault_get env p)" "keeps_ordinal (vault_list env p n)" "keeps_ordinal (vault_post env p b)"
  unfolding vault_get_def vault_list_def vault_post_def by (intro keeps_rules)+

lemma keeps_campaign: "keeps_ordinal (get_or_create_campaign env name f)"
proof -
  have create: "keeps_ordinal (create_campaign env name f existing)" for existing
    unfolding create_campaign_def by (auto intro!: keeps_rules keeps_vault split: list.split)
  let ?m = "qa_bind (vault_list env ''/campaigns'' CAMPAIGN_LOOKUP_LIMIT) (\<lambda>listed. case listed of
      JArr existing \<Rightarrow> qa_bind (qa_lift (find_campaign name existing)) (\<lambda>hit. case hit of
          Some row \<Rightarrow> qa_bind (qa_lift (item_of row ''id'')) (\<lambda>i. remember_campaign name (str_of (qe_str env) i))
        | None \<Rightarrow> create_campaign env name f existing)
    | _ \<Rightarrow> qa_lift (Inl (OtherError ''TypeError'')))"
  have "keeps_ordinal ?m" by (auto intro!: keeps_rules keeps_vault create split: json.split)
  then show ?thesis unfolding keeps_ordinal_def get_or_create_campaign_def by (auto split: option.splits)
qed

lemma brief_keeps_ordinal:
  assumes "read_brief_context env e rc ref st = (Inr b, st')" shows "qs_ordinal st' = qs_ordinal st"
proof -
  have "keeps_ordinal (read_brief_context env e rc ref)"
    unfolding read_brief_context_def by (intro keeps_rules keeps_vault keeps_campaign)
  then show ?thesis using assms unfolding keeps_ordinal_def by (metis snd_conv)
qed

text \<open>What an attempt stores is what its regeneration rendered.\<close>

lemma attempt_stores:
  assumes "retry_attempt env x k v st = (Inr v', st')"
  obtains revised run s1 body rest where "regenerate_draft_content env (rx_task x) (rx_envelope x) (rx_brief x) (rx_recipe x)
      (rv_text v) (revision_targets v) k st = (Inr (revised, run), s1)"
    and "qs_calls st' = qs_calls s1 @ Vault_Post ''/assets'' (JObj body) # rest"
    and "jget body ''content_base64'' = Some (JStr (b64encode (utf8_encode revised)))"
proof -
  let ?c = "bc_campaign (rx_brief x)" and ?rc = "rx_recipe x"
  from assms[unfolded retry_attempt_def Let_def qa_bind_ok] obtain rr s1 where
    g: "regenerate_draft_content env (rx_task x) (rx_envelope x) (rx_brief x) ?rc (rv_text v) (revision_targets v) k st = (Inr rr, s1)"
    and tail: "(case rr of (revised, run) \<Rightarrow> qa_bind (create_asset env (rc_asset_type ?rc) run ?c (rc_function ?rc) revised) (\<lambda>asset.
    qa_bind (qa_lift (item_of asset ''id'')) (\<lambda>asset_id.
    qa_bind (qa_lift (item_of asset ''content_hash'')) (\<lambda>content_hash.
    qa_bind (qa_txn (set_result_ref (tk_id (rx_draft x))
      (JObj [(''vault_asset_id'', asset_id), (''content_hash'', content_hash), (''agent_run_id'', run),
             (''campaign_id'', JStr ?c), (''pillar'', bc_pillar (rx_brief x)), (''retry_attempt'', JInt (int k))]))) (\<lambda>_.
    qa_bind (run_single_qa_check env (rx_task x) (rx_envelope x) ?c revised Brand_Steward) (\<lambda>(brand, brand_run).
    qa_bind (fact_recheck env x revised) (\<lambda>(fct, fact_run).
    qa_return \<lparr>rv_text = revised, rv_brand = brand, rv_fact = fct,
      rv_hollowed = (rv_hollowed v \<or> looks_hollowed (rx_initial x) revised), rv_asset = asset,
      rv_brand_run = brand_run, rv_fact_run = fact_run\<rparr>))))))) s1 = (Inr v', st')"
    unfolding qa_bind_ok by blast
  obtain revised run where rr: "rr = (revised, run)" by force
  define more where "more asset = qa_bind (qa_lift (item_of asset ''id'')) (\<lambda>asset_id.
    qa_bind (qa_lift (item_of asset ''content_hash'')) (\<lambda>content_hash.
    qa_bind (qa_txn (set_result_ref (tk_id (rx_draft x))
      (JObj [(''vault_asset_id'', asset_id), (''content_hash'', content_hash), (''agent_run_id'', run),
             (''campaign_id'', JStr ?c), (''pillar'', bc_pillar (rx_brief x)), (''retry_attempt'', JInt (int k))]))) (\<lambda>_.
    qa_bind (run_single_qa_check env (rx_task x) (rx_envelope x) ?c revised Brand_Steward) (\<lambda>(brand, brand_run).
    qa_bind (fact_recheck env x revised) (\<lambda>(fct, fact_run).
    qa_return \<lparr>rv_text = revised, rv_brand = brand, rv_fact = fct,
      rv_hollowed = (rv_hollowed v \<or> looks_hollowed (rx_initial x) revised), rv_asset = asset,
      rv_brand_run = brand_run, rv_fact_run = fact_run\<rparr>)))))" for asset
  have em: "emits asset_weight 0 (more asset)" for asset
    unfolding more_def by (intro emits_rules emits_check emits_fact_recheck silent)
  have "qa_bind (create_asset env (rc_asset_type ?rc) run ?c (rc_function ?rc) revised) more s1 = (Inr v', st')"
    using tail unfolding rr prod.case more_def .
  from this[unfolded qa_bind_ok] obtain asset s2 where
    a: "create_asset env (rc_asset_type ?rc) run ?c (rc_function ?rc) revised s1 = (Inr asset, s2)"
    and mo: "more asset s2 = (Inr v', st')" by blast
  obtain cs where cs: "qs_calls st' = qs_calls s2 @ cs" using emitsD[OF em mo] by blast
  let ?body = "[(''asset_type'', JStr (rc_asset_type ?rc)), (''agent_run_id'', run), (''campaign'', JStr ?c),
         (''brief_id'', JNull), (''predecessor_asset_id'', JNull), (''approval_state'', JStr ''draft''),
         (''content_base64'', JStr (b64encode (utf8_encode revised)))] @
         filter (\<lambda>kv. fst kv \<noteq> ''campaign'') (taxonomy (JStr ?c) (rc_function ?rc))"
  have "qs_calls s2 = qs_calls s1 @ [Vault_Post ''/assets'' (JObj ?body)]"
    using a by (simp add: create_asset_def vault_post_run)
  then show thesis using that[OF g[unfolded rr], of ?body cs] cs by simp
qed

lemma set_py_sorted: "set (py_sorted xs) = set xs"
proof -
  have i: "set (insort_kv kv kvs) = insert kv (set kvs)" for kv :: "string \<times> unit" and kvs
    by (induction kvs) (auto simp: Let_def)
  have "set (foldr insort_kv kvs []) = set kvs" for kvs :: "(string \<times> unit) list"
    by (induction kvs) (simp_all add: i)
  then show ?thesis by (simp add: py_sorted_def sort_kvs_def image_image)
qed

lemma attempts_grow: "retry_attempts env x n k v st = (r, st') \<Longrightarrow> \<exists>cs. qs_calls st' = qs_calls st @ cs"
  using emitsD[OF emits_attempts(2)] by blast

text \<open>The loop runs at least one attempt unless a finding may not be retried.\<close>

lemma loop_first_attempt:
  assumes run: "run_qa_retry_loop env kind t e d rc vs tx st = (Inr (), st')"
    and brief: "resolve_lineage_result (tk_id d) (qs_db st) \<noteq> None" and retry: "set vs \<inter> set never_retryable = {}"
  obtains x v' s0 s1 where "rx_task x = t" and "rx_envelope x = e" and "rx_recipe x = rc"
    and "retry_attempt env x 1 (start_vars kind vs tx) s0 = (Inr v', s1)" and "qs_ordinal s0 = 0"
    and "\<And>k q. get_ledgered_agent_run k (qs_db st) = Some q \<Longrightarrow> get_ledgered_agent_run k (qs_db s0) = Some q"
    and "\<exists>cs. qs_calls s0 = qs_calls st @ cs" and "\<exists>cs. qs_calls st' = qs_calls s1 @ cs"
proof -
  let ?ts = "tasks_by_kind kind t (sibling_of kind (tk_id d) (qs_db st))" and ?s = "st\<lparr>qs_ordinal := 0\<rparr>"
  obtain a ref where a: "resolve_lineage_result (tk_id d) (qs_db st) = Some (a, ref)" using brief by auto
  define x where "x b = \<lparr>rx_task = t, rx_envelope = e, rx_draft = d, rx_recipe = rc, rx_initial = tx, rx_brief = b\<rparr>" for b
  have "qa_bind (read_brief_context env e rc ref) (\<lambda>b. retry_rounds env (x b) kind vs ?ts) ?s = (Inr (), st')"
    using run by (simp add: run_qa_retry_loop_def qa_reads a x_def)
  from this[unfolded qa_bind_ok] obtain b s0 where b: "read_brief_context env e rc ref ?s = (Inr b, s0)"
    and loop: "retry_rounds env (x b) kind vs ?ts s0 = (Inr (), st')" by blast
  from loop[unfolded retry_rounds_def qa_bind_ok] obtain o2 s2
    where att: "retry_attempts env (x b) MAX_QA_RETRY_ATTEMPTS 0 (start_vars kind vs tx) s0 = (Inr o2, s2)"
      and fin: "(case o2 of (passed, k, v) \<Rightarrow> if passed then pass_siblings (x b) k v ?ts
        else qa_bind (block_siblings (x b) k v ?ts) (\<lambda>_. escalate_card env (x b) k v)) s2 = (Inr (), st')"
    unfolding x_def by auto
  have max: "MAX_QA_RETRY_ATTEMPTS = Suc 9" by (simp add: MAX_QA_RETRY_ATTEMPTS_def)
  have t0: "set never_retryable \<inter> set (revision_targets (start_vars kind vs tx)) = {}"
    using retry by (cases kind) (auto simp: revision_targets_def start_vars_def set_py_sorted)
  from att[unfolded max retry_attempts.simps] t0 obtain v1 s1
    where one: "retry_attempt env (x b) (Suc 0) (start_vars kind vs tx) s0 = (Inr v1, s1)"
      and more: "(if rv_brand v1 = [] \<and> rv_fact v1 = [] then qa_return (True, Suc 0, v1)
         else retry_attempts env (x b) 9 (Suc 0) v1) s1 = (Inr o2, s2)"
    by (auto simp: qa_bind_ok)
  have g1: "\<exists>cs. qs_calls s2 = qs_calls s1 @ cs"
    using more attempts_grow by (auto simp: qa_return_def split: if_splits)
  have em: "emits asset_weight 0 (case o2 of (passed, k, v) \<Rightarrow> if passed then pass_siblings (x b) k v ?ts
        else qa_bind (block_siblings (x b) k v ?ts) (\<lambda>_. escalate_card env (x b) k v))"
    by (intro emits_rules silent) simp_all
  have g2: "\<exists>cs. qs_calls st' = qs_calls s2 @ cs" using emitsD[OF em fin] by blast
  have g0: "\<exists>cs. qs_calls s0 = qs_calls st @ cs"
    using emitsD[OF emits_brief b, of asset_weight 0] by auto
  show thesis
  proof (rule that[OF _ _ _ one[folded One_nat_def]])
    show "qs_ordinal s0 = 0" using brief_keeps_ordinal[OF b] by simp
    show "get_ledgered_agent_run k (qs_db s0) = Some q" if "get_ledgered_agent_run k (qs_db st) = Some q" for k q
      using movesD[OF ledger_kept.moves_brief b] that by simp
    show "\<exists>cs. qs_calls st' = qs_calls s1 @ cs" using g1 g2 by auto
  qed (use g0 in \<open>simp_all add: x_def\<close>)
qed

text \<open>The first regenerated draft is the review's own verdict. When a review did not pass
and the loop runs, its first attempt is given the review's agent run, so the gateway
answers it from its cache with the verdict; the loop renders that answer as if it were a
draft and stores it as the asset under review. For a post the rendering of a verdict
without post and cta_url is the empty text.\<close>

theorem first_regeneration_repeats_the_verdict:
  assumes "canonical_runs env" and "task_ref_cached env"
    and "review_draft env kind t e d ref prompt campaign st = (Inr out, st1)" and "qs_ordinal st = 0"
    and "draft_regen_params (tk_type d) = Some rc" and "set (ro_violations out) \<inter> set never_retryable = {}"
    and "resolve_lineage_result (tk_id d) (qs_db st1) \<noteq> None"
    and "qe_try_lock env (qs_calls st1) (advisory_lock_key_for (uuid_str (tk_id d))) = Some True"
    and "handle_blocked env kind t e d campaign out st1 = (Inr (), st')"
  shows "\<exists>post body. rc_render rc env (ro_verdict out) = Some post \<and>
    Vault_Post ''/assets'' (JObj body) \<in> set (drop (length (qs_calls st1)) (qs_calls st')) \<and>
    jget body ''content_base64'' = Some (JStr (b64encode (utf8_encode post)))"
proof -
  let ?key = "advisory_lock_key_for (uuid_str (tk_id d))"
  let ?s = "st1\<lparr>qs_calls := qs_calls st1 @ [Try_Lock ?key]\<rparr>"
  have nv: "VIOLATION_CODE \<notin> set (ro_violations out)" using assms(6) by (auto simp: never_retryable_def)
  have "qa_finally (run_qa_retry_loop env kind t e d rc (ro_violations out) (ro_text out)) (release_advisory_lock env) ?s = (Inr (), st')"
    using assms(5,8,9) nv by (simp add: handle_blocked_def qa_bind_def try_advisory_lock_def)
  then obtain s2 where loop: "run_qa_retry_loop env kind t e d rc (ro_violations out) (ro_text out) ?s = (Inr (), s2)"
    and fin: "qs_calls st' = qs_calls s2 @ [Unlock]"
    by (auto simp: qa_finally_def release_advisory_lock_def qa_bind_def qa_call_def qa_return_def split: prod.splits)
  have lin: "resolve_lineage_result (tk_id d) (qs_db ?s) \<noteq> None" using assms(7) by simp
  obtain x v' s0 s1 where x: "rx_task x = t" "rx_envelope x = e" "rx_recipe x = rc"
    and att: "retry_attempt env x 1 (start_vars kind (ro_violations out) (ro_text out)) s0 = (Inr v', s1)"
    and o: "qs_ordinal s0 = 0"
    and led: "\<And>k q. get_ledgered_agent_run k (qs_db ?s) = Some q \<Longrightarrow> get_ledgered_agent_run k (qs_db s0) = Some q"
    and g0: "\<exists>cs. qs_calls s0 = qs_calls ?s @ cs" and g1: "\<exists>cs. qs_calls s2 = qs_calls s1 @ cs"
    by (rule loop_first_attempt[OF loop lin assms(6)]) (rule that; assumption)
  obtain revised run s3 body rest where g: "regenerate_draft_content env t e (rx_brief x) rc
      (rv_text (start_vars kind (ro_violations out) (ro_text out))) (revision_targets (start_vars kind (ro_violations out) (ro_text out)))
      1 s0 = (Inr (revised, run), s3)"
    and post: "qs_calls s1 = qs_calls s3 @ Vault_Post ''/assets'' (JObj body) # rest"
    and body: "jget body ''content_base64'' = Some (JStr (b64encode (utf8_encode revised)))"
    using attempt_stores[OF att] unfolding x by blast
  obtain q pl r before after where rv: "get_ledgered_agent_run (ordinal_key t 1) (qs_db st1) = Some q"
    "jget pl ''task_ref'' = Some (JStr (uuid_str q))"
    "qe_answer env before (Complete (JObj pl)) = Answer 200 (Some (JObj r))"
    "qs_calls st1 = before @ Complete (JObj pl) # after" "parsed_content r = Inr (ro_verdict out)"
    by (rule review_leaves[OF assms(3,4,1)])
  obtain cs where cs: "qs_calls s0 = qs_calls st1 @ cs" using g0 by auto
  have "get_ledgered_agent_run (ordinal_key t 1) (qs_db s0) = Some q" using led rv(1) by simp
  from regeneration_repeats[OF g o assms(1,2) this rv(2,3), of "after @ cs"]
  have "rc_render rc env (ro_verdict out) = Some revised" using rv(4,5) cs by auto
  moreover obtain ds where "qs_calls s3 = qs_calls s0 @ ds"
    using emitsD[OF emits_regenerate(2) g] by blast
  then have "Vault_Post ''/assets'' (JObj body) \<in> set (drop (length (qs_calls st1)) (qs_calls st'))"
    using g1 post fin cs by auto
  ultimately show ?thesis using body by blast
qed

end
