(* ===== verification/QA_Scene.thy ===== *)
theory QA_Scene
  imports QA_Earned
begin

text \<open>A small database of tasks and services that always answer, as the place where the theorems on
the handlers are tried: the stored draft, its two reviews, and rules that tell which operations
return there.\<close>

section \<open>A draft with two reviews\<close>

text \<open>Services that never answer, no webhook, and the gate file, register and renderings at
their simplest.\<close>

definition silent_env :: qa_env where
  "silent_env = \<lparr>qe_answer = (\<lambda>_ _. No_Answer), qe_try_lock = (\<lambda>_ _. Some True), qe_prompt = (\<lambda>_. Some ''p''),
     qe_gate_file = (\<lambda>_. Some (JObj [(''approved'', JBool True)])), qe_register = None,
     qe_input_ok = (\<lambda>_ _. True), qe_output_ok = (\<lambda>_ _. True), qe_str = (\<lambda>_. []), qe_float = id, qe_now = (\<lambda>_. []),
     qe_carousel = (\<lambda>_. None), qe_case_study = (\<lambda>_. None), qe_diff = (\<lambda>_ _ _. []),
     qe_teams = \<lparr>tm_webhook = None, tm_console = None\<rparr>\<rparr>"

definition scene_row :: "tid \<Rightarrow> string \<Rightarrow> task_state_enum \<Rightarrow> tid list \<Rightarrow> json option \<Rightarrow> task_row" where
  "scene_row i ty s deps res = \<lparr>tk_id = i, tk_loop = ''l'', tk_type = ty, tk_state = s, tk_retry = 0,
     tk_vault_failed = 0, tk_depends = deps, tk_result = res, tk_created = 0\<rparr>"

definition scene_draft :: task_row where
  "scene_draft = scene_row 2 ''draft-insight-to-story'' COMPLETED [1] (Some (JObj [(''vault_asset_id'', JStr ''a'')]))"

definition scene_e :: task_envelope where
  "scene_e = \<lparr>te_task = 3, te_type = ''qa-review-brand-steward'', te_run = 0, te_campaign = 0, te_created = 0,
     te_retry = 0, te_metadata = None\<rparr>"

text \<open>The fact-check review of the draft has completed; the brand review is running.\<close>

definition scene :: qa_state where
  "scene = \<lparr>qs_db = empty_orch\<lparr>od_tasks := [scene_row 1 ''draft-research-brief'' COMPLETED [] (Some (JObj [])), scene_draft,
       scene_row 3 ''qa-review-brand-steward'' RUNNING [2] None,
       scene_row 4 ''qa-review-fact-check'' COMPLETED [2] (Some (JObj [(''pass'', JBool True)]))]\<rparr>,
     qs_calls = [], qs_ordinal = 0, qs_campaigns = [(campaign_name scene_e, ''c'')]\<rparr>"

lemmas scene_defs = scene_def scene_draft_def scene_row_def get_task_def

section \<open>Services that answer\<close>

text \<open>The vault gives each new row one id and reads a run back under the id asked for, the stored
draft has a US spelling, and the model always answers with the object \<open>v\<close>.\<close>

definition verdict_answer :: "(string \<times> json) list \<Rightarrow> qa_call \<Rightarrow> answer" where
  "verdict_answer v c = (case c of
     Vault_Get p \<Rightarrow> Answer 200 (Some (if p = ''/assets/a'' then JObj [(''content_base64'', JStr ''Y29sb3I='')]
       else JObj [(''id'', JStr (drop 12 p))]))
   | Vault_Post p b \<Rightarrow> Answer 201 (Some (JObj [(''id'', JStr (uuid_str 7)), (''content_hash'', JStr ''h''), (''card_id'', JStr ''k'')]))
   | Vault_Patch p b \<Rightarrow> Answer 200 (Some JNull)
   | Complete p \<Rightarrow> Answer 200 (Some (JObj [(''id'', JNull), (''model'', JNull), (''content'', JStr (dumps id (JObj v))),
       (''usage'', JNull), (''agent_run_id'', JNull)]))
   | _ \<Rightarrow> No_Answer)"

definition answering :: "(string \<times> json) list \<Rightarrow> qa_env" where
  "answering v = silent_env\<lparr>qe_answer := \<lambda>_. verdict_answer v\<rparr>"

lemma answering_sel [simp]:
  "qe_answer (answering v) cs = verdict_answer v" "qe_prompt (answering v) d = Some ''p''" "qe_register (answering v) = None"
  "qe_try_lock (answering v) cs k = Some True" "qe_gate_file (answering v) cs = Some (JObj [(''approved'', JBool True)])"
  "qe_input_ok (answering v) f j" "qe_output_ok (answering v) f j" "qe_teams (answering v) = \<lparr>tm_webhook = None, tm_console = None\<rparr>"
  by (simp_all add: answering_def silent_env_def)

text \<open>The states of a run, and the operations that return from each of them to another.\<close>

definition calm :: "task_row list \<Rightarrow> qa_state \<Rightarrow> bool" where
  "calm T st \<longleftrightarrow> (\<forall>r\<in>set (od_ledger (qs_db st)). lg_run r = 7) \<and> od_tasks (qs_db st) = T \<and>
     map_of (qs_campaigns st) (campaign_name scene_e) = Some ''c''"

definition serves :: "('a \<Rightarrow> bool) \<Rightarrow> 'a qa \<Rightarrow> bool" where
  "serves Q m \<longleftrightarrow> (\<forall>T st. calm T st \<longrightarrow> (\<exists>a st'. m st = (Inr a, st') \<and> Q a \<and> calm T st'))"

lemma servesE:
  assumes "serves Q m" and "calm T st" obtains a st' where "m st = (Inr a, st')" and "Q a" and "calm T st'"
  using assms unfolding serves_def by blast

lemma serves_bind:
  assumes m: "serves P m" and f: "\<And>a. P a \<Longrightarrow> serves Q (f a)" shows "serves Q (qa_bind m f)"
  unfolding serves_def
proof (intro allI impI)
  fix T st assume c: "calm T st"
  obtain a st1 where a: "m st = (Inr a, st1)" "P a" "calm T st1" by (rule servesE[OF m c])
  obtain b st2 where b: "f a st1 = (Inr b, st2)" "Q b" "calm T st2" by (rule servesE[OF f[OF a(2)] a(3)])
  show "\<exists>b st'. qa_bind m f st = (Inr b, st') \<and> Q b \<and> calm T st'" using a b by (auto simp: qa_bind_def)
qed

lemma serves_basic:
  "Q a \<Longrightarrow> serves Q (qa_return a)" "r = Inr a \<Longrightarrow> Q a \<Longrightarrow> serves Q (qa_lift r)"
  "w = Some a \<Longrightarrow> Q a \<Longrightarrow> serves Q (qa_need x w)"
  "serves (\<lambda>a. a = verdict_answer v c) (qa_call (answering v) c)"
  "serves (\<lambda>p. p = ''p'') (read_prompt (answering v) d)" "serves (\<lambda>b. b) (fact_check_gate_approved (answering v))"
  "serves (\<lambda>_. True) next_ordinal" "serves (\<lambda>_. True) open_vault" "serves (\<lambda>reg. reg = []) (load_permissions (answering v))"
  "serves (\<lambda>b. b) (try_advisory_lock (answering v) k)"
  by (auto simp: serves_def qa_return_def qa_lift_def qa_need_def qa_call_def read_prompt_def fact_check_gate_approved_def
      next_ordinal_def open_vault_def load_permissions_def load_register_def try_advisory_lock_def calm_def get_of_def)

lemma serves_lift: "r = Inr a \<Longrightarrow> serves (\<lambda>x. x = a) (qa_lift r)"
  by (simp add: serves_basic(2))

lemma serves_weaken: "serves P m \<Longrightarrow> (\<And>a. P a \<Longrightarrow> Q a) \<Longrightarrow> serves Q m"
  unfolding serves_def by blast

lemma serves_vault:
  "serves (\<lambda>j. j = (if p = ''/assets/a'' then JObj [(''content_base64'', JStr ''Y29sb3I='')] else JObj [(''id'', JStr (drop 12 p))]))
     (vault_get (answering v) p)"
  "serves (\<lambda>j. j = JObj [(''id'', JStr (uuid_str 7)), (''content_hash'', JStr ''h''), (''card_id'', JStr ''k'')]) (vault_post (answering v) q b)"
  "serves (\<lambda>_. True) (vault_patch (answering v) q b)"
  by (auto simp: serves_def vault_get_def vault_post_def vault_patch_def qa_bind_def qa_call_def qa_lift_def json_reply_def
      verdict_answer_def calm_def)

abbreviation is_run :: "json \<Rightarrow> bool" where
  "is_run j \<equiv> item_of j ''id'' = Inr (JStr (uuid_str 7))"

lemma uuid_seven [simp]: "py_uuid (uuid_str 7) = Some 7"
  by (rule py_uuid_str) simp

lemma found_in: "List.find P xs = Some x \<Longrightarrow> x \<in> set xs"
  by (auto simp: find_Some_iff)

lemma serves_agent_run: "serves is_run (create_agent_run_idempotent (answering v) t a c f i)"
  unfolding create_agent_run_idempotent_def
proof (rule serves_bind[OF serves_basic(7)])
  fix n
  let ?k = "ordinal_key t n"
  have led: "serves (\<lambda>v. v = None \<or> v = Some 7) (ledgered ?k)"
    unfolding serves_def
  proof (intro allI impI)
    fix T st assume c: "calm T st"
    have "get_ledgered_agent_run ?k (qs_db st) = None \<or> get_ledgered_agent_run ?k (qs_db st) = Some 7"
      using c by (cases "List.find (\<lambda>r. lg_key r = ?k) (od_ledger (qs_db st))")
        (auto simp: get_ledgered_agent_run_def calm_def dest: found_in)
    then show "\<exists>a st'. ledgered ?k st = (Inr a, st') \<and> (a = None \<or> a = Some 7) \<and> calm T st'"
      using c by (auto simp: ledgered_def)
  qed
  have rec: "serves (\<lambda>_. True) (qa_txn (record_ledgered_agent_run ?k t 7))"
    by (auto simp: serves_def qa_txn_eq record_ledgered_agent_run_def tick_def calm_def)
  have get: "serves is_run (vault_get (answering v) (''/agent-runs/'' @ uuid_str 7))"
    by (rule serves_weaken[OF serves_vault(1)]) (simp add: item_of_def)
  have post: "serves is_run (qa_bind (vault_post (answering v) ''/agent-runs'' (agent_run_body a c f i)) (\<lambda>created.
        qa_bind (qa_lift (item_of created ''id'')) (\<lambda>i.
        qa_bind (qa_need (OtherError ''DataError'') (py_uuid (str_of (qe_str (answering v)) i))) (\<lambda>run.
        qa_bind (qa_txn (record_ledgered_agent_run ?k t run)) (\<lambda>_.
        qa_return created)))))"
    by (rule serves_bind[OF serves_vault(2)], rule serves_bind[where P="\<lambda>i. i = JStr (uuid_str 7)"],
        simp add: serves_basic(2) item_of_def, rule serves_bind[where P="\<lambda>run. run = 7"], simp add: serves_basic(3),
        rule serves_bind[where P="\<lambda>_. True"], simp add: rec, rule serves_basic(1), simp add: item_of_def)
  show "serves is_run (qa_bind (ledgered ?k) (\<lambda>existing. case existing of
      Some run \<Rightarrow> vault_get (answering v) (''/agent-runs/'' @ uuid_str run)
    | None \<Rightarrow> qa_bind (vault_post (answering v) ''/agent-runs'' (agent_run_body a c f i)) (\<lambda>created.
        qa_bind (qa_lift (item_of created ''id'')) (\<lambda>i.
        qa_bind (qa_need (OtherError ''DataError'') (py_uuid (str_of (qe_str (answering v)) i))) (\<lambda>run.
        qa_bind (qa_txn (record_ledgered_agent_run ?k t run)) (\<lambda>_.
        qa_return created))))))"
    by (rule serves_bind[OF led]) (use get post in auto)
qed

lemma serves_update: "serves (\<lambda>_. True) (update_agent_run (answering v) i s out)"
proof -
  have "serves (\<lambda>_. True) (qa_bind (vault_patch (answering v) p b) (\<lambda>_. qa_return ()))" for p b
    by (rule serves_bind[OF serves_vault(3)]) (simp add: serves_basic(1))
  then show ?thesis unfolding serves_def update_agent_run_def by blast
qed

lemma answer_parsed: "wf_json (JObj v) \<Longrightarrow> parse_json_content (dumps id (JObj v)) = Inr v"
  using bare_object_read[of v "[]" id "[]"] by (simp del: dumps.simps)

lemma serves_complete:
  assumes "wf_json (JObj v)"
  shows "serves (\<lambda>r. parsed_content r = Inr v) (complete_and_meter (answering v) p u run n)"
proof -
  have "validate_response (verdict_answer v (Complete pl)) = Inr [(''id'', JNull), (''model'', JNull),
      (''content'', JStr (dumps id (JObj v))), (''usage'', JNull), (''agent_run_id'', JNull)]" for pl
    by (simp add: verdict_answer_def validate_response_def COMPLETION_RESPONSE_REQUIRED_def del: dumps.simps)
  then show ?thesis
    unfolding complete_and_meter_def
    by (intro serves_bind[OF serves_basic(4)] serves_bind[OF serves_lift])
      (auto intro!: serves_basic(1) simp: parsed_content_def answer_parsed[OF assms] simp del: dumps.simps)
qed

text \<open>Operations that write the task table: the scene has four rows, none of them pending, so
no dependent is advanced.\<close>

definition steady :: "task_row list \<Rightarrow> bool" where
  "steady T \<longleftrightarrow> map tk_id T = [1, 2, 3, 4] \<and> (\<forall>r\<in>set T. tk_state r \<noteq> PENDING)"

definition ends :: "('a \<Rightarrow> bool) \<Rightarrow> 'a qa \<Rightarrow> bool" where
  "ends Q m \<longleftrightarrow> (\<forall>T st. calm T st \<and> steady T \<longrightarrow> (\<exists>a st' T'. m st = (Inr a, st') \<and> Q a \<and> calm T' st' \<and> steady T'))"

lemma endsE:
  assumes "ends Q m" and "calm T st" and "steady T"
  obtains a st' T' where "m st = (Inr a, st')" and "Q a" and "calm T' st'" and "steady T'"
  using assms unfolding ends_def by blast

lemma serves_ends: "serves Q m \<Longrightarrow> ends Q m"
  unfolding serves_def ends_def by blast

lemma ends_bind:
  assumes m: "ends P m" and f: "\<And>a. P a \<Longrightarrow> ends Q (f a)" shows "ends Q (qa_bind m f)"
  unfolding ends_def
proof (intro allI impI, elim conjE)
  fix T st assume c: "calm T st" "steady T"
  obtain a st1 T1 where a: "m st = (Inr a, st1)" "P a" "calm T1 st1" "steady T1" by (rule endsE[OF m c])
  obtain b st2 T2 where b: "f a st1 = (Inr b, st2)" "Q b" "calm T2 st2" "steady T2" by (rule endsE[OF f[OF a(2)] a(3,4)])
  show "\<exists>b st' T'. qa_bind m f st = (Inr b, st') \<and> Q b \<and> calm T' st' \<and> steady T'" using a b by (auto simp: qa_bind_def)
qed

lemma steady_update:
  "steady T \<Longrightarrow> (\<And>r. tk_id (f r) = tk_id r) \<Longrightarrow> (\<And>r. tk_state r \<noteq> PENDING \<Longrightarrow> tk_state (f r) \<noteq> PENDING) \<Longrightarrow>
    steady (update_where P f T)"
  by (auto simp: steady_def map_update_where update_where_def)

lemma steady_get:
  assumes "calm T st" and "steady T" and "i \<in> {1, 2, 3, 4}"
  shows "\<exists>r. get_task i (qs_db st) = Some r"
proof (rule ccontr)
  assume "\<nexists>r. get_task i (qs_db st) = Some r"
  then have "\<forall>r\<in>set T. tk_id r \<noteq> i"
    using assms(1) by (auto simp: get_task_def calm_def find_None_iff)
  moreover have "set (map tk_id T) = {1, 2, 3, 4}" using assms(2) unfolding steady_def by (metis list.set(1,2))
  ultimately show False using assms(3) by (metis (no_types, lifting) image_iff list.set_map)
qed

lemma ends_result: "ends (\<lambda>_. True) (qa_txn (set_result_ref i v))"
  unfolding ends_def
proof (intro allI impI, elim conjE)
  fix T st assume c: "calm T st" "steady T"
  let ?T = "update_where (\<lambda>r. tk_id r = i) (\<lambda>r. r\<lparr>tk_result := Some v\<rparr>) T"
  have "steady ?T" by (rule steady_update[OF c(2)]) simp_all
  then show "\<exists>a st' T'. qa_txn (set_result_ref i v) st = (Inr a, st') \<and> True \<and> calm T' st' \<and> steady T'"
    using c(1) by (intro exI[of _ "()"] exI[of _ ?T]) (auto simp: qa_txn_eq set_result_ref_def tick_def calm_def)
qed

lemma ends_transition: "i \<in> {1, 2, 3, 4} \<Longrightarrow> s \<noteq> PENDING \<Longrightarrow> ends (\<lambda>_. True) (qa_txn (transition i s why))"
  unfolding ends_def
proof (intro allI impI, elim conjE)
  fix T st assume i: "i \<in> {1, 2, 3, 4}" and s: "s \<noteq> PENDING" and c: "calm T st" "steady T"
  obtain r where r: "get_task i (qs_db st) = Some r" using steady_get[OF c i] by blast
  let ?T = "update_where (\<lambda>r. tk_id r = i) (\<lambda>r. r\<lparr>tk_state := s\<rparr>) T"
  have "steady ?T" by (rule steady_update[OF c(2)]) (simp_all add: s)
  then show "\<exists>a st' T'. qa_txn (transition i s why) st = (Inr a, st') \<and> True \<and> calm T' st' \<and> steady T'"
    using c(1) r by (intro exI[of _ "()"] exI[of _ ?T]) (auto simp: qa_txn_eq transition_def set_state_def tick_def calm_def)
qed

lemma ends_advance: "ends (\<lambda>_. True) (qa_txn (advance_dependents i))"
  unfolding ends_def
proof (intro allI impI, elim conjE)
  fix T st assume c: "calm T st" "steady T"
  have "advance_candidates i (qs_db st) = []"
    using c by (auto simp: advance_candidates_def calm_def steady_def)
  then show "\<exists>a st' T'. qa_txn (advance_dependents i) st = (Inr a, st') \<and> True \<and> calm T' st' \<and> steady T'"
    using c by (auto simp: qa_txn_eq advance_dependents_def and_then_def)
qed

lemma ends_return: "Q a \<Longrightarrow> ends Q (qa_return a)"
  by (rule serves_ends) (rule serves_basic(1))

lemma ends_settle: "i \<in> {1, 2, 3, 4} \<Longrightarrow> ends (\<lambda>_. True) (settle_completed i ref)"
  unfolding settle_completed_def
  by (rule ends_bind[OF ends_result], rule ends_bind[OF ends_transition], assumption, simp,
      rule ends_bind[OF ends_advance], rule ends_return, simp)

end
