(* ===== verification/QA_Witness.thy ===== *)
theory QA_Witness
  imports QA_Repeat QA_Scene
begin

text \<open>The theorems on the draft QA gates at concrete inputs.\<close>

lemma model_answer_round_trip_witness:
  "parse_json_content (''Verdict: '' @ dumps id (JObj [(''pass'', JBool True)]) @ '' Done.'') = Inr [(''pass'', JBool True)] \<and>
   parse_json_content (fence @ ''json'' @ [CHR 0x0A] @ dumps id (JObj [(''pass'', JBool True)]) @ [CHR 0x0A] @ fence @ '' Done.'') =
     Inr [(''pass'', JBool True)]"
proof -
  have w: "wf_json (JObj [(''pass'', JBool True)])" by simp
  have q: "CHR ''`'' \<notin> set (dumps id (JObj [(''pass'', JBool True)]))" by (simp add: dump_str_def esc_char_def)
  show ?thesis
    using model_answer_round_trip[OF w, of "''Verdict: ''" id "'' Done.''" "''json''"] q by simp
qed

section \<open>The scene\<close>

definition story :: recipe where
  "story = the (draft_regen_params ''draft-insight-to-story'')"

lemma scene_lineage: "resolve_lineage_result 2 (qs_db scene) =
    Some (scene_row 1 ''draft-research-brief'' COMPLETED [] (Some (JObj [])), JObj [])"
  by (simp add: resolve_lineage_result_def LINEAGE_HOPS_def scene_defs eval_nat_numeral)

lemma scene_sibling: "sibling_of Brand_Steward 2 (qs_db scene) =
    Some (scene_row 4 ''qa-review-fact-check'' COMPLETED [2] (Some (JObj [(''pass'', JBool True)])))"
  by (simp add: sibling_of_def find_dependent_tasks_def scene_defs)

text \<open>A finding that may not be retried ends the loop before its first attempt.\<close>

lemma scene_brief: "read_brief_context env scene_e rc (JObj []) scene =
    (Inr \<lparr>bc_campaign = ''c'', bc_brief = JNull, bc_pillar = JNull, bc_vertical = JNull, bc_audience = JNull\<rparr>, scene)"
  by (simp add: read_brief_context_def qa_bind_def qa_lift_def get_of_def qa_return_def
      get_or_create_campaign_def scene_def)

lemma py_sorted_single: "py_sorted [c] = [c]"
  by (simp add: py_sorted_def sort_kvs_def)

lemma scene_no_attempt: "retry_attempts env x MAX_QA_RETRY_ATTEMPTS 0 (start_vars Brand_Steward [VIOLATION_CODE] tx) st =
    (Inr (False, 1, start_vars Brand_Steward [VIOLATION_CODE] tx), st)"
  by (simp add: MAX_QA_RETRY_ATTEMPTS_def numeral_eq_Suc start_vars_def revision_targets_def never_retryable_def py_sorted_single qa_return_def)

lemma block_task_returns:
  assumes "get_task t (qs_db st) = Some r"
  shows "\<exists>st'. block_task t ref st = (Inr (), st') \<and> (\<forall>j. get_task j (qs_db st) \<noteq> None \<longrightarrow> get_task j (qs_db st') \<noteq> None)"
proof -
  let ?d = "snd (set_result_ref t ref (qs_db st))"
  have g: "get_task t ?d = Some (r\<lparr>tk_result := Some ref\<rparr>)" using assms by (simp add: result_get)
  show ?thesis
    by (auto simp: block_task_def qa_bind_def qa_txn_eq transition_fst[OF g] transition_get[OF g] result_get assms)
qed

lemma block_siblings_returns:
  "\<forall>j\<in>snd ` set ts. get_task j (qs_db st) \<noteq> None \<Longrightarrow> \<exists>st'. block_siblings x k v ts st = (Inr (), st')"
proof (induction ts arbitrary: st)
  case Nil
  then show ?case by (simp add: qa_return_def)
next
  case (Cons kt ts)
  obtain kd t where kt: "kt = (kd, t)" by force
  then obtain r where "get_task t (qs_db st) = Some r" using Cons.prems by auto
  from block_task_returns[OF this, of "JObj ([(''pass'', JBool False), (''violations'', str_list (by_kind kd (rv_brand v) (rv_fact v)))] @
        draft_fields (rx_draft x) @
        [(''campaign_id'', JStr (bc_campaign (rx_brief x))), (''retry_attempts'', JInt (int k))])"]
  obtain st1 where b: "block_task t (JObj ([(''pass'', JBool False), (''violations'', str_list (by_kind kd (rv_brand v) (rv_fact v)))] @
        draft_fields (rx_draft x) @
        [(''campaign_id'', JStr (bc_campaign (rx_brief x))), (''retry_attempts'', JInt (int k))])) st = (Inr (), st1)"
      and keep: "\<forall>j. get_task j (qs_db st) \<noteq> None \<longrightarrow> get_task j (qs_db st1) \<noteq> None" by blast
  have "\<forall>j\<in>snd ` set ts. get_task j (qs_db st1) \<noteq> None" using keep Cons.prems by auto
  from Cons.IH[OF this] show ?case by (simp add: kt qa_bind_def b del: append.simps)
qed

lemma scene_loop_returns:
  "\<exists>st'. run_qa_retry_loop silent_env Brand_Steward 3 scene_e scene_draft story [VIOLATION_CODE] ''text'' scene = (Inr (), st')"
proof -
  let ?ts = "tasks_by_kind Brand_Steward 3 (sibling_of Brand_Steward 2 (qs_db scene))"
  have o: "scene\<lparr>qs_ordinal := 0\<rparr> = scene" by (simp add: scene_def)
  have d: "tk_id scene_draft = 2" by (simp add: scene_draft_def scene_row_def)
  have "\<forall>j\<in>snd ` set ?ts. get_task j (qs_db scene) \<noteq> None"
    unfolding scene_sibling by (simp add: tasks_by_kind_def scene_defs)
  note ret = block_siblings_returns[OF this]
  let ?x = "\<lparr>rx_task = 3, rx_envelope = scene_e, rx_draft = scene_draft, rx_recipe = story, rx_initial = ''text'',
     rx_brief = \<lparr>bc_campaign = ''c'', bc_brief = JNull, bc_pillar = JNull, bc_vertical = JNull, bc_audience = JNull\<rparr>\<rparr>"
  obtain st' where b: "block_siblings ?x 1 (start_vars Brand_Steward [VIOLATION_CODE] ''text'') ?ts scene = (Inr (), st')"
    using ret by blast
  have card: "escalate_card silent_env x k v st = (Inr (), st)" for x k v st
    by (simp add: escalate_card_def Let_def notify_retry_exhausted_def post_card_def silent_env_def qa_return_def qa_bind_def)
  have "retry_rounds silent_env ?x Brand_Steward [VIOLATION_CODE] ?ts scene = (Inr (), st')"
    using b by (simp add: retry_rounds_def qa_bind_def scene_no_attempt card)
  then show ?thesis
    unfolding run_qa_retry_loop_def qa_reads o d scene_lineage option.case prod.case
    by (simp add: qa_bind_def scene_brief)
qed

lemma retry_loop_settles_both_witness:
  "\<exists>st'. run_qa_retry_loop silent_env Brand_Steward 3 scene_e scene_draft story [VIOLATION_CODE] ''text'' scene = (Inr (), st') \<and>
     (settled_as FAILED False 3 (qs_db st') \<and> settled_as FAILED False 4 (qs_db st') \<or>
      settled_as COMPLETED True 3 (qs_db st') \<and> settled_as COMPLETED True 4 (qs_db st'))"
proof -
  obtain st' where run: "run_qa_retry_loop silent_env Brand_Steward 3 scene_e scene_draft story [VIOLATION_CODE] ''text'' scene
      = (Inr (), st')" using scene_loop_returns by blast
  have d: "tk_id scene_draft = 2" by (simp add: scene_draft_def scene_row_def)
  have "distinct (map tk_id (od_tasks (qs_db scene)))" by (simp add: scene_defs)
  from retry_loop_settles_both[OF run this, unfolded d, unfolded scene_lineage, OF _ scene_sibling]
  show ?thesis using run by (auto simp: scene_row_def)
qed

section \<open>A review whose pass is an empty post\<close>

definition scene_verdict :: "(string \<times> json) list" where
  "scene_verdict = [(''pass'', JBool False), (''violations'', JArr [JStr SA_SPELLING_VIOLATION])]"

abbreviation scene_env :: qa_env where "scene_env \<equiv> answering scene_verdict"

lemma scene_verdict_ok: "wf_json (JObj scene_verdict)"
  by (simp add: scene_verdict_def)

lemma scene_codes: "violations_of scene_verdict st = (Inr [SA_SPELLING_VIOLATION], st)"
  by (simp add: violations_of_def scene_verdict_def codes_of_def iter_or_empty_def qa_need_def List.map_filter_def)

lemma serves_codes: "serves (\<lambda>vs. vs = [SA_SPELLING_VIOLATION]) (violations_of scene_verdict)"
  by (simp add: serves_def scene_codes)

lemma no_us_spelling: "has_us_spelling [] = []"
  by (simp add: has_us_spelling_def whole_word_def py_lower_def US_SPELLINGS_def)

text \<open>The recheck of the empty post drops the code that the model names for it.\<close>

lemma serves_check: "serves (\<lambda>(vs, run). vs = []) (run_single_qa_check scene_env t e c [] kind)"
proof -
  have rec: "fst (reconcile_violations [SA_SPELLING_VIOLATION] []) = []"
    by (simp add: reconcile_violations_def no_us_spelling UNSUPPORTED_CLAIM_VIOLATION_def SA_SPELLING_VIOLATION_def)
  show ?thesis
    unfolding run_single_qa_check_def Let_def
    apply (rule serves_bind[OF serves_basic(5)])
    apply (rule serves_bind[OF serves_agent_run])
    apply (rule serves_bind[OF serves_lift], assumption)
    apply (rule serves_bind[OF serves_complete[OF scene_verdict_ok]])
    apply (rule serves_bind[OF serves_lift], assumption)
    apply (simp, rule serves_bind[OF serves_codes])
    apply (rule serves_bind[OF serves_update])
    apply (rule serves_basic(1))
    apply (simp add: find_uncleared_references_def rec)
    done
qed

section \<open>The run of the scene\<close>

lemma scene_render: "render_simple_post env scene_verdict = Some []"
  by (simp add: render_simple_post_def shown_field_def scene_verdict_def py_strip_def py_space_def)

lemma story_recipe: "draft_regen_params ''draft-insight-to-story'' = Some story" "rc_render story = render_simple_post"
  by (simp_all add: story_def draft_regen_params_def)

lemma serves_regenerate: "serves (\<lambda>(tx, run). tx = []) (regenerate_draft_content scene_env t e b story prev vs k)"
  unfolding regenerate_draft_content_def
  apply (rule serves_bind[OF serves_agent_run])
  apply (rule serves_bind[OF serves_basic(5)])
  apply (rule serves_bind[OF serves_lift], assumption)
  apply (rule serves_bind[OF serves_complete[OF scene_verdict_ok]])
  apply (rule serves_bind[OF serves_lift], assumption)
  apply (rule serves_bind[where P="\<lambda>tx. tx = []"], simp add: serves_basic(3) story_recipe scene_render)
  apply (rule serves_bind[OF serves_update])
  apply (rule serves_basic(1), simp)
  done

lemma ends_attempt:
  assumes "rx_recipe x = story"
  shows "ends (\<lambda>v. rv_brand v = [] \<and> rv_fact v = [] \<and>
    rv_asset v = JObj [(''id'', JStr (uuid_str 7)), (''content_hash'', JStr ''h''), (''card_id'', JStr ''k'')]) (retry_attempt scene_env x k v0)"
proof -
  have recheck: "serves (\<lambda>(vs, run). vs = []) (fact_recheck scene_env x [])"
    unfolding fact_recheck_def by (rule serves_bind[OF serves_basic(6)]) (simp add: serves_check)
  show ?thesis
    unfolding retry_attempt_def Let_def create_asset_def assms
    apply (rule ends_bind[OF serves_ends[OF serves_regenerate]], clarify)
    apply (rule ends_bind[OF serves_ends[OF serves_vault(2)]])
    apply (rule ends_bind[OF serves_ends[OF serves_lift]], simp add: item_of_def)
    apply (rule ends_bind[OF serves_ends[OF serves_lift]], simp add: item_of_def)
    apply (rule ends_bind[OF ends_result])
    apply (rule ends_bind[OF serves_ends[OF serves_check]], clarify)
    apply (rule ends_bind[OF serves_ends[OF recheck]], clarify)
    apply (rule ends_return, simp)
    done
qed

lemma scene_calm: "calm (od_tasks (qs_db scene)) scene" "steady (od_tasks (qs_db scene))"
  by (simp_all add: calm_def steady_def scene_defs empty_orch_def)

lemma scene_story: "tk_type scene_draft = ''draft-insight-to-story''" "tk_id scene_draft = 2"
  by (simp_all add: scene_draft_def scene_row_def)

lemma serves_brief: "serves (\<lambda>_. True) (read_brief_context scene_env scene_e rc (JObj []))"
  by (auto simp: serves_def read_brief_context_def qa_bind_def qa_lift_def get_of_def qa_return_def
      get_or_create_campaign_def calm_def)

lemma ends_pass:
  "rv_asset v = JObj [(''id'', JStr (uuid_str 7)), (''content_hash'', JStr ''h''), (''card_id'', JStr ''k'')] \<Longrightarrow> snd ` set ts \<subseteq> {1, 2, 3, 4} \<Longrightarrow>
    ends (\<lambda>_. True) (pass_siblings x k v ts)"
proof (induction ts)
  case (Cons kt ts)
  then show ?case
    by (cases kt) (auto intro!: ends_bind[OF serves_ends[OF serves_lift]] ends_bind[OF ends_settle] simp: item_of_def)
qed (simp add: ends_return)

lemma ends_attempts:
  assumes "rx_recipe x = story"
  shows "ends (\<lambda>(passed, k, v). passed \<and> rv_asset v = JObj [(''id'', JStr (uuid_str 7)), (''content_hash'', JStr ''h''), (''card_id'', JStr ''k'')])
    (retry_attempts scene_env x MAX_QA_RETRY_ATTEMPTS 0 (start_vars Brand_Steward [SA_SPELLING_VIOLATION] tx))"
proof -
  have max: "MAX_QA_RETRY_ATTEMPTS = Suc 9" by (simp add: MAX_QA_RETRY_ATTEMPTS_def)
  have go: "set never_retryable \<inter> set (revision_targets (start_vars Brand_Steward [SA_SPELLING_VIOLATION] tx)) = {}"
    by (simp add: never_retryable_def revision_targets_def start_vars_def set_py_sorted VIOLATION_CODE_def
        FACT_CHECK_GATE_NOT_APPROVED_def SA_SPELLING_VIOLATION_def)
  show ?thesis
    unfolding max retry_attempts.simps
    by (simp add: go) (rule ends_bind[OF ends_attempt[OF assms]], simp add: ends_return)
qed

lemma scene_rounds:
  assumes "rx_recipe x = story" and ts: "snd ` set ts \<subseteq> {1, 2, 3, 4}" and "3 \<in> snd ` set ts" and "calm T st" and "steady T"
  shows "\<exists>st'. retry_rounds scene_env x Brand_Steward [SA_SPELLING_VIOLATION] ts st = (Inr (), st') \<and>
    settled_as COMPLETED True 3 (qs_db st')"
proof -
  obtain a st1 T1 where a: "retry_attempts scene_env x MAX_QA_RETRY_ATTEMPTS 0
      (start_vars Brand_Steward [SA_SPELLING_VIOLATION] (rx_initial x)) st = (Inr a, st1)"
    "case a of (passed, k, v) \<Rightarrow> passed \<and> rv_asset v = JObj [(''id'', JStr (uuid_str 7)), (''content_hash'', JStr ''h''), (''card_id'', JStr ''k'')]"
    "calm T1 st1" "steady T1" by (rule endsE[OF ends_attempts[OF assms(1)] assms(4,5)])
  obtain k v where kv: "a = (True, k, v)" "rv_asset v = JObj [(''id'', JStr (uuid_str 7)), (''content_hash'', JStr ''h''), (''card_id'', JStr ''k'')]"
    using a(2) by (cases a) auto
  obtain u st2 T2 where p: "pass_siblings x k v ts st1 = (Inr u, st2)"
    by (rule endsE[OF ends_pass[OF kv(2) ts] a(3,4)])
  have "distinct (map tk_id (od_tasks (qs_db st1)))" using a(3,4) by (simp add: calm_def steady_def)
  then have "settled_as COMPLETED True 3 (qs_db st2)" using pass_siblings_settle[OF _ _, of x k v ts st1 st2 3] p assms(3) by simp
  then show ?thesis using a(1) kv(1) p by (simp add: retry_rounds_def qa_bind_def)
qed

text \<open>The review: the US spelling of the stored draft is found, so the code stays.\<close>

abbreviation scene_ref :: json where
  "scene_ref \<equiv> JObj [(''vault_asset_id'', JStr ''a'')]"

lemma scene_asset: "asset_text (JObj [(''content_base64'', JStr ''Y29sb3I='')]) = Inr ''color''"
  by code_simp

lemma scene_judge: "judge False [SA_SPELLING_VIOLATION] [] ''color'' = ([SA_SPELLING_VIOLATION], False)"
  by code_simp

lemma scene_display: "teams_display_text ''color'' = ''color''"
  by code_simp

lemma serves_review:
  "serves (\<lambda>out. ro_verdict out = scene_verdict \<and> ro_violations out = [SA_SPELLING_VIOLATION] \<and> \<not> ro_passed out)
    (review_draft scene_env Brand_Steward 3 scene_e scene_draft scene_ref ''p'' ''c'')"
proof -
  have clear: "find_uncleared_in_text p [] tx = []" for p tx
    by (simp add: find_uncleared_in_text_def registered_names_def)
  have jd: "serves (\<lambda>out. ro_verdict out = scene_verdict \<and> ro_violations out = [SA_SPELLING_VIOLATION] \<and> \<not> ro_passed out)
      (judge_answer scene_env Brand_Steward ''color'' asset run r)" if "parsed_content r = Inr scene_verdict" for asset run r
    unfolding judge_answer_def resolve_verdict_def
    apply (rule serves_bind[OF serves_lift[OF that]], simp)
    apply (rule serves_bind[where P="\<lambda>pn. pn = (False, [SA_SPELLING_VIOLATION])"])
     apply (rule serves_bind[OF serves_codes], rule serves_basic(1), simp add: scene_verdict_def)
    apply (simp, rule serves_bind[OF serves_basic(9)])
    apply (simp add: clear scene_judge)
    apply (rule serves_bind[OF serves_update], rule serves_basic(1), simp)
    done
  show ?thesis
    unfolding review_draft_def Let_def
    apply (rule serves_bind[OF serves_lift], simp add: get_of_def)
    apply (rule serves_bind[OF serves_vault(1)])
    apply (rule serves_bind[where P="\<lambda>s. s = ''color''"], simp add: serves_basic(2) scene_asset)
    apply (rule serves_bind[OF serves_lift], simp add: get_of_def)
    apply (rule serves_bind[where P="\<lambda>_. True"], simp add: serves_basic(1))
    apply (rule serves_bind[OF serves_agent_run])
    apply (rule serves_bind[OF serves_lift], assumption)
    apply (rule serves_bind[OF serves_complete[OF scene_verdict_ok]])
    apply (simp add: scene_display jd)
    done
qed

lemma scene_blocked:
  assumes "calm (od_tasks (qs_db scene)) st" and "ro_violations out = [SA_SPELLING_VIOLATION]"
  shows "\<exists>st'. handle_blocked scene_env Brand_Steward 3 scene_e scene_draft ''c'' out st = (Inr (), st') \<and> passes 3 (qs_db st')"
proof -
  let ?ts = "tasks_by_kind Brand_Steward 3 (sibling_of Brand_Steward 2 (qs_db scene))"
  let ?loop = "run_qa_retry_loop scene_env Brand_Steward 3 scene_e scene_draft story [SA_SPELLING_VIOLATION] (ro_text out)"
  let ?s = "st\<lparr>qs_calls := qs_calls st @ [Try_Lock (advisory_lock_key_for (uuid_str 2))]\<rparr>"
  have tasks: "od_tasks (qs_db ?s) = od_tasks (qs_db scene)" and c: "calm (od_tasks (qs_db scene)) (?s\<lparr>qs_ordinal := 0\<rparr>)"
    using assms(1) by (simp_all add: calm_def)
  have lin: "resolve_lineage_result 2 (qs_db ?s) = Some (scene_row 1 ''draft-research-brief'' COMPLETED [] (Some (JObj [])), JObj [])"
    using tasks by (simp add: resolve_lineage_result_def LINEAGE_HOPS_def scene_defs eval_nat_numeral)
  have sib: "sibling_of Brand_Steward 2 (qs_db ?s) = sibling_of Brand_Steward 2 (qs_db scene)"
    using tasks by (simp add: sibling_of_def find_dependent_tasks_def)
  have ts: "snd ` set ?ts \<subseteq> {1, 2, 3, 4}" unfolding scene_sibling by (simp add: tasks_by_kind_def scene_row_def)
  let ?rest = "qa_bind (read_brief_context scene_env scene_e story (JObj [])) (\<lambda>b. retry_rounds scene_env
      \<lparr>rx_task = 3, rx_envelope = scene_e, rx_draft = scene_draft, rx_recipe = story, rx_initial = ro_text out, rx_brief = b\<rparr>
      Brand_Steward [SA_SPELLING_VIOLATION] ?ts)"
  have ts3: "3 \<in> snd ` set ?ts" by (simp add: tasks_by_kind_def)
  obtain b s1 where b: "read_brief_context scene_env scene_e story (JObj []) (?s\<lparr>qs_ordinal := 0\<rparr>) = (Inr b, s1)"
    "calm (od_tasks (qs_db scene)) s1" by (rule servesE[OF serves_brief c])
  obtain st2 where r: "retry_rounds scene_env
      \<lparr>rx_task = 3, rx_envelope = scene_e, rx_draft = scene_draft, rx_recipe = story, rx_initial = ro_text out, rx_brief = b\<rparr>
      Brand_Steward [SA_SPELLING_VIOLATION] ?ts s1 = (Inr (), st2)" and fin3: "settled_as COMPLETED True 3 (qs_db st2)"
    using scene_rounds[OF _ ts ts3 b(2) scene_calm(2)] by force
  have rest: "?rest (?s\<lparr>qs_ordinal := 0\<rparr>) = (Inr (), st2)" using b(1) r by (simp add: qa_bind_def)
  have q: "qs_db (?s\<lparr>qs_ordinal := 0\<rparr>) = qs_db ?s" by simp
  have loop: "?loop ?s = (Inr (), st2)"
    unfolding run_qa_retry_loop_def scene_story qa_reads sib q lin option.case prod.case by (rule rest)
  have nv: "VIOLATION_CODE \<noteq> SA_SPELLING_VIOLATION" by (simp add: VIOLATION_CODE_def SA_SPELLING_VIOLATION_def)
  have "passes 3 (qs_db st2)" using settled_as_result[OF fin3] by (auto simp: passes_def)
  moreover have "qs_db (snd (release_advisory_lock scene_env st2)) = qs_db st2"
    by (simp add: release_advisory_lock_def qa_bind_def qa_call_def qa_return_def)
  ultimately show ?thesis
    using loop by (simp add: handle_blocked_def assms(2) nv scene_story story_recipe(1) qa_bind_def try_advisory_lock_def qa_finally_def)
qed

lemma scene_services: "canonical_runs scene_env" "task_ref_cached scene_env"
  by (auto simp: canonical_runs_def task_ref_cached_def verdict_answer_def item_of_def intro!: exI[of _ "7::nat"])

text \<open>The stored draft after the first attempt is the empty text.\<close>

lemma first_regeneration_repeats_the_verdict_witness:
  "\<exists>st' body. Vault_Post ''/assets'' (JObj body) \<in> set (qs_calls st') \<and>
     jget body ''content_base64'' = Some (JStr (b64encode (utf8_encode []))) \<and>
     (\<exists>out st1. handle_blocked scene_env Brand_Steward 3 scene_e scene_draft ''c'' out st1 = (Inr (), st'))"
proof -
  obtain out st1 where r: "review_draft scene_env Brand_Steward 3 scene_e scene_draft scene_ref ''p'' ''c'' scene = (Inr out, st1)"
    and o: "ro_verdict out = scene_verdict \<and> ro_violations out = [SA_SPELLING_VIOLATION] \<and> \<not> ro_passed out"
    and c: "calm (od_tasks (qs_db scene)) st1"
    by (rule servesE[OF serves_review scene_calm(1)])
  obtain st' where b: "handle_blocked scene_env Brand_Steward 3 scene_e scene_draft ''c'' out st1 = (Inr (), st')"
    using scene_blocked[OF c, of out] o by blast
  have z: "qs_ordinal scene = 0" by (simp add: scene_def)
  have rc: "draft_regen_params (tk_type scene_draft) = Some story" by (simp add: scene_story story_recipe)
  have n: "set (ro_violations out) \<inter> set never_retryable = {}"
    by (simp add: o never_retryable_def VIOLATION_CODE_def FACT_CHECK_GATE_NOT_APPROVED_def SA_SPELLING_VIOLATION_def)
  have l: "resolve_lineage_result (tk_id scene_draft) (qs_db st1) \<noteq> None"
    using c by (simp add: calm_def resolve_lineage_result_def LINEAGE_HOPS_def scene_defs eval_nat_numeral)
  from first_regeneration_repeats_the_verdict[OF scene_services r z rc n l _ b]
  obtain post body where "rc_render story scene_env (ro_verdict out) = Some post"
    "Vault_Post ''/assets'' (JObj body) \<in> set (drop (length (qs_calls st1)) (qs_calls st'))"
    "jget body ''content_base64'' = Some (JStr (b64encode (utf8_encode post)))" by auto
  then show ?thesis using b o by (auto simp: story_recipe scene_render dest: in_set_dropD)
qed

lemma scene_handler:
  "\<exists>st'. single_draft_qa_review scene_env Brand_Steward 3 scene_e scene = (Inr (), st') \<and> passes 3 (qs_db st')"
proof -
  obtain out st1 where r: "review_draft scene_env Brand_Steward 3 scene_e scene_draft scene_ref ''p'' ''c'' scene = (Inr out, st1)"
    and o: "ro_verdict out = scene_verdict \<and> ro_violations out = [SA_SPELLING_VIOLATION] \<and> \<not> ro_passed out"
    and c: "calm (od_tasks (qs_db scene)) st1"
    by (rule servesE[OF serves_review scene_calm(1)])
  have l: "resolve_lineage_result 3 (qs_db scene) = Some (scene_draft, scene_ref)"
    by (simp add: resolve_lineage_result_def LINEAGE_HOPS_def scene_defs eval_nat_numeral)
  have v: "scene\<lparr>qs_ordinal := 0\<rparr> = scene" by (simp add: scene_def)
  have camp: "get_or_create_campaign scene_env (campaign_name scene_e) f scene = (Inr ''c'', scene)" for f
    by (simp add: get_or_create_campaign_def scene_def)
  have "single_draft_qa_review scene_env Brand_Steward 3 scene_e scene =
      handle_blocked scene_env Brand_Steward 3 scene_e scene_draft ''c'' out st1"
    unfolding single_draft_qa_review_def Let_def qa_reads l option.case prod.case
    using o by (simp add: get_of_def qa_bind_def qa_lift_def read_prompt_def qa_need_def
        v camp r qa_return_def open_vault_def)
  then show ?thesis using scene_blocked[OF c] o by simp
qed


end
