(* ===== verification/Vault_Store.thy ===== *)
theory Vault_Store
  imports Py_Bytes Py_Json
begin

text \<open>The data of the vault: the registry of object types (models.py), the tables they and
the bookkeeping live in (contracts/vault-schema/schema.sql, services/vault/migrations),
the audit log (audit.py) and the blob container (storage.py). A table is a list of rows;
the object tables are one list whose rows name their table.\<close>

section \<open>The registry of object types\<close>

datatype sql_type = S_text | S_jsonb | S_uuid | S_numeric | S_integer | S_timestamptz | S_enum

text \<open>\<open>fs_default\<close> is the resolved default, null where there is none.\<close>

record field_spec =
  fs_name :: string
  fs_type :: sql_type
  fs_required :: bool
  fs_default :: json
  fs_patchable :: bool

record object_config =
  oc_name :: string
  oc_path :: string
  oc_campaign :: bool
  oc_updated :: bool
  oc_patch :: bool
  oc_delete :: bool
  oc_fields :: "field_spec list"

definition spec :: "string \<Rightarrow> sql_type \<Rightarrow> bool \<Rightarrow> json \<Rightarrow> bool \<Rightarrow> field_spec" where
  "spec n t required d patchable =
    \<lparr>fs_name = n, fs_type = t, fs_required = required, fs_default = d, fs_patchable = patchable\<rparr>"

definition config :: "string \<Rightarrow> string \<Rightarrow> bool \<Rightarrow> bool \<Rightarrow> bool \<Rightarrow> bool \<Rightarrow> field_spec list \<Rightarrow> object_config" where
  "config n p campaign updated patch delete cols =
    \<lparr>oc_name = n, oc_path = p, oc_campaign = campaign, oc_updated = updated, oc_patch = patch, oc_delete = delete, oc_fields = cols\<rparr>"

definition VAULT_TAXONOMY_FIELDS :: "string list" where
  "VAULT_TAXONOMY_FIELDS = [''vertical'', ''function_id'', ''campaign'', ''evidence_grade'', ''consent_status'', ''retention_class'']"

definition RETENTION_CLASSES :: "string list" where
  "RETENTION_CLASSES = [''ephemeral_30d'', ''standard_1y'', ''extended_3y'', ''legal_hold'']"

definition EVIDENCE_GRADES :: "string list" where
  "EVIDENCE_GRADES = [''A'', ''B'', ''C'', ''D'', ''unverified'']"

definition CONSENT_STATUSES :: "string list" where
  "CONSENT_STATUSES = [''granted'', ''revoked'', ''not_required'', ''pending'']"

definition ASSETS :: object_config where
  "ASSETS = config ''assets'' ''assets'' True True True True
    [spec ''brief_id'' S_uuid False JNull False, spec ''asset_type'' S_text True JNull False,
     spec ''agent_run_id'' S_uuid True JNull False, spec ''predecessor_asset_id'' S_uuid False JNull False,
     spec ''version'' S_integer False (JInt 1) False, spec ''approval_state'' S_enum False (JStr ''draft'') True]"

definition OBJECT_TYPES :: "object_config list" where
  "OBJECT_TYPES =
    [config ''signals'' ''signals'' False False True True
      [spec ''source'' S_text True JNull True, spec ''signal_type'' S_text True JNull True,
       spec ''payload'' S_jsonb False (JObj []) True],
     config ''campaigns'' ''campaigns'' False True True True
      [spec ''name'' S_text True JNull True, spec ''status'' S_text False (JStr ''draft'') True,
       spec ''starts_at'' S_timestamptz False JNull True, spec ''ends_at'' S_timestamptz False JNull True],
     config ''opportunity_cards'' ''opportunity-cards'' True True True True
      [spec ''signal_id'' S_uuid False JNull False, spec ''title'' S_text True JNull True,
       spec ''score'' S_numeric False JNull True, spec ''status'' S_text False (JStr ''new'') True,
       spec ''pillar'' S_text False JNull True, spec ''so_what'' S_text False JNull True,
       spec ''source_url'' S_text False JNull True, spec ''confidence'' S_text False JNull True],
     config ''briefs'' ''briefs'' True True True True
      [spec ''opportunity_card_id'' S_uuid False JNull False, spec ''title'' S_text True JNull True,
       spec ''body'' S_text False JNull True],
     config ''agent_runs'' ''agent-runs'' True False True True
      [spec ''agent_name'' S_text True JNull False, spec ''status'' S_enum False (JStr ''pending'') True,
       spec ''input'' S_jsonb False (JObj []) False, spec ''output'' S_jsonb False (JObj []) True,
       spec ''completed_at'' S_timestamptz False JNull True],
     ASSETS,
     config ''gate_decisions'' ''gate-decisions'' False False False False
      [spec ''agent_run_id'' S_uuid True JNull False, spec ''decided_by'' S_text True JNull False,
       spec ''outcome'' S_enum True JNull False, spec ''reason'' S_text False JNull False],
     config ''costs'' ''costs'' False False False False
      [spec ''agent_run_id'' S_uuid True JNull False, spec ''provider'' S_text True JNull False,
       spec ''unit'' S_text False (JStr ''usd'') False, spec ''amount'' S_numeric True JNull False],
     config ''consent_register'' ''consent-register'' False False True False
      [spec ''data_subject_ref'' S_text True JNull False, spec ''lawful_basis'' S_text True JNull False,
       spec ''channel'' S_text True JNull False, spec ''purpose'' S_text True JNull False,
       spec ''revoked_at'' S_timestamptz False JNull True]]"

section \<open>Rows\<close>

datatype cell = C_Null | C_Json json | C_Uuid nat | C_Time instant

record vrow =
  vr_table :: string
  vr_id :: nat
  vr_campaign :: "nat option"
  vr_cells :: "(string \<times> cell) list"
  vr_blob :: "(string \<times> string) option"
  vr_created :: instant
  vr_updated :: "instant option"

record tax_row =
  tx_table :: string
  tx_object :: nat
  tx_vertical :: string
  tx_function :: string
  tx_campaign :: nat
  tx_grade :: string
  tx_consent :: string
  tx_class :: string

record ret_row =
  rp_table :: string
  rp_object :: nat
  rp_class :: string
  rp_expires :: instant
  rp_deleted :: "instant option"

record link_row =
  lk_table :: string
  lk_object :: nat
  lk_consent :: nat

text \<open>Correlation ids and the time of an entry are left out.\<close>

record audit_row =
  au_event :: string
  au_table :: string
  au_object :: "nat option"
  au_subject :: "string option"
  au_reason :: string
  au_detail :: "(string \<times> json) list"

record access_row =
  ax_table :: string
  ax_object :: nat
  ax_caller :: string
  ax_at :: instant

record sweep_run =
  sw_id :: nat
  sw_status :: string
  sw_started :: instant
  sw_completed :: "instant option"
  sw_deleted :: nat

record daily_row =
  dy_day :: int
  dy_table :: string
  dy_caller :: string
  dy_count :: nat

text \<open>\<open>oq_fields\<close> are the remaining columns of an option card. The decisions are written by the
gatekeeper.\<close>

record card_row =
  oq_id :: nat
  oq_run :: "nat option"
  oq_fields :: "(string \<times> json) list"
  oq_created :: instant
  oq_expires :: instant

record dec_row =
  de_card :: nat
  de_fields :: "(string \<times> json) list"
  de_at :: instant

record vault_db =
  vd_rows :: "vrow list"
  vd_tax :: "tax_row list"
  vd_ret :: "ret_row list"
  vd_links :: "link_row list"
  vd_audit :: "audit_row list"
  vd_access :: "access_row list"
  vd_sweeps :: "sweep_run list"
  vd_daily :: "daily_row list"
  vd_cards :: "card_row list"
  vd_decided :: "dec_row list"

text \<open>The blob container is outside the database and outside its transactions.\<close>

record vault_state =
  vs_db :: vault_db
  vs_blobs :: "(string \<times> bytes) list"

definition empty_vault :: vault_state where
  "empty_vault = \<lparr>vs_db = \<lparr>vd_rows = [], vd_tax = [], vd_ret = [], vd_links = [], vd_audit = [], vd_access = [],
     vd_sweeps = [], vd_daily = [], vd_cards = [], vd_decided = []\<rparr>, vs_blobs = []\<rparr>"

section \<open>The environment\<close>

text \<open>\<open>ve_date\<close> is date.fromisoformat as a number of days since the epoch, \<open>ve_rank\<close> the place
of a text in the collation of the database. \<open>ve_binds\<close> tells what the database driver accepts for a text, jsonb, numeric or integer
parameter; \<open>ve_iso\<close> is datetime.fromisoformat read as an instant; the blob service either
answers or raises. \<open>ve_pick\<close> is the order in which a SELECT without ORDER BY returns its rows.\<close>

record vault_env =
  ve_binds :: "sql_type \<Rightarrow> json \<Rightarrow> bool"
  ve_iso :: "string \<Rightarrow> instant option"
  ve_str :: "json \<Rightarrow> string"
  ve_date :: "string \<Rightarrow> int option"
  ve_rank :: "string \<Rightarrow> nat"
  ve_account :: string
  ve_container :: string
  ve_blobs_up :: "string \<Rightarrow> bool"
  ve_pick :: "ret_row list \<Rightarrow> ret_row list"

text \<open>The detail of an HTTPException: message, code and field.\<close>

type_synonym vault_detail = "string \<times> string \<times> string option"
type_synonym 'a vault_reply = "(vault_detail, 'a) reply"

definition vault_error :: "nat \<Rightarrow> string \<Rightarrow> string \<Rightarrow> string option \<Rightarrow> vault_detail failure" where
  "vault_error status message code field = RefusedWith status (message, code, field)"

section \<open>Binding a value to a column\<close>

fun cast_for_asyncpg :: "vault_env \<Rightarrow> sql_type \<Rightarrow> json \<Rightarrow> string + cell" where
  "cast_for_asyncpg env t JNull = Inr C_Null"
| "cast_for_asyncpg env S_uuid v =
    (case py_uuid (str_of (ve_str env) v) of Some u \<Rightarrow> Inr (C_Uuid u) | None \<Rightarrow> Inl ''ValueError'')"
| "cast_for_asyncpg env S_timestamptz v =
    (case ve_iso env (str_of (ve_str env) v) of Some i \<Rightarrow> Inr (C_Time i) | None \<Rightarrow> Inl ''ValueError'')"
| "cast_for_asyncpg env t v = Inr (C_Json v)"

text \<open>The constraints of the schema: columns that may not be null, and the enum types.\<close>

definition NOT_NULL :: "(string \<times> string list) list" where
  "NOT_NULL =
    [(''campaigns'', [''name'', ''status'']), (''signals'', [''source'', ''signal_type'', ''payload'']),
     (''opportunity_cards'', [''title'', ''status'']), (''briefs'', [''title'']),
     (''agent_runs'', [''agent_name'', ''status'']), (''assets'', [''asset_type'', ''version'', ''approval_state'', ''agent_run_id'']),
     (''gate_decisions'', [''agent_run_id'', ''decided_by'', ''outcome'']),
     (''costs'', [''agent_run_id'', ''provider'', ''unit'', ''amount'']),
     (''consent_register'', [''data_subject_ref'', ''lawful_basis'', ''channel'', ''purpose''])]"

definition ENUMS :: "((string \<times> string) \<times> string list) list" where
  "ENUMS =
    [((''assets'', ''approval_state''), [''draft'', ''pending_review'', ''approved'', ''rejected'', ''superseded'']),
     ((''gate_decisions'', ''outcome''), [''approved'', ''rejected'', ''escalated'']),
     ((''agent_runs'', ''status''), [''pending'', ''running'', ''succeeded'', ''failed'', ''cancelled''])]"

definition listed :: "('k \<times> 'v list) list \<Rightarrow> 'k \<Rightarrow> 'v list" where
  "listed m k = (case map_of m k of Some vs \<Rightarrow> vs | None \<Rightarrow> [])"

fun column_ok :: "vault_env \<Rightarrow> string \<Rightarrow> field_spec \<Rightarrow> cell \<Rightarrow> bool" where
  "column_ok env table f C_Null = (fs_name f \<notin> set (listed NOT_NULL table))"
| "column_ok env table f (C_Json v) =
    (case fs_type f of
       S_text \<Rightarrow> (case v of JStr s \<Rightarrow> ve_binds env S_text v | _ \<Rightarrow> False)
     | S_enum \<Rightarrow> (case v of JStr s \<Rightarrow> s \<in> set (listed ENUMS (table, fs_name f)) | _ \<Rightarrow> False)
     | t \<Rightarrow> ve_binds env t v)"
| "column_ok env table f _ = True"

section \<open>References between tables\<close>

definition FKS :: "(string \<times> (string \<times> string) list) list" where
  "FKS =
    [(''opportunity_cards'', [(''signal_id'', ''signals'')]), (''briefs'', [(''opportunity_card_id'', ''opportunity_cards'')]),
     (''assets'', [(''brief_id'', ''briefs''), (''agent_run_id'', ''agent_runs''), (''predecessor_asset_id'', ''assets'')]),
     (''gate_decisions'', [(''agent_run_id'', ''agent_runs'')]), (''costs'', [(''agent_run_id'', ''agent_runs'')])]"

definition row_refs :: "vrow \<Rightarrow> (string \<times> nat) list" where
  "row_refs r = (case vr_campaign r of Some c \<Rightarrow> [(''campaigns'', c)] | None \<Rightarrow> []) @
    List.map_filter (\<lambda>(col, target). case map_of (vr_cells r) col of Some (C_Uuid u) \<Rightarrow> Some (target, u) | _ \<Rightarrow> None)
      (listed FKS (vr_table r))"

definition row_at :: "string \<Rightarrow> nat \<Rightarrow> vault_db \<Rightarrow> vrow option" where
  "row_at table i db = List.find (\<lambda>r. vr_table r = table \<and> vr_id r = i) (vd_rows db)"

definition present :: "vault_db \<Rightarrow> string \<times> nat \<Rightarrow> bool" where
  "present db k \<longleftrightarrow> k \<in> (\<lambda>r. (vr_table r, vr_id r)) ` set (vd_rows db)"

text \<open>What keeps a row from being deleted: another row that refers to it, a taxonomy row of
a campaign, a consent linkage of a consent, an option card of an agent run.\<close>

definition referenced :: "vault_db \<Rightarrow> string \<times> nat \<Rightarrow> bool" where
  "referenced db k \<longleftrightarrow>
    (\<exists>r\<in>set (vd_rows db). (vr_table r, vr_id r) \<noteq> k \<and> k \<in> set (row_refs r)) \<or>
    (fst k = ''campaigns'' \<and> (\<exists>t\<in>set (vd_tax db). tx_campaign t = snd k)) \<or>
    (fst k = ''consent_register'' \<and> (\<exists>l\<in>set (vd_links db). lk_consent l = snd k)) \<or>
    (fst k = ''agent_runs'' \<and> (\<exists>q\<in>set (vd_cards db). oq_run q = Some (snd k)))"

definition drop_row :: "string \<Rightarrow> nat \<Rightarrow> vault_db \<Rightarrow> vault_db" where
  "drop_row table i db = db\<lparr>vd_rows := filter (\<lambda>r. \<not> (vr_table r = table \<and> vr_id r = i)) (vd_rows db)\<rparr>"

text \<open>DELETE ... WHERE id: no row is no error, a referenced row is one.\<close>

definition delete_row :: "string \<Rightarrow> nat \<Rightarrow> vault_db \<Rightarrow> string + vault_db" where
  "delete_row table i db =
    (if present db (table, i) \<and> referenced db (table, i) then Inl ''ForeignKeyViolationError''
     else Inr (drop_row table i db))"

section \<open>The audit log\<close>

definition write_audit :: "audit_row \<Rightarrow> vault_db \<Rightarrow> vault_db" where
  "write_audit a db = db\<lparr>vd_audit := vd_audit db @ [a]\<rparr>"

definition rejection :: "string \<Rightarrow> string \<Rightarrow> string option \<Rightarrow> string \<Rightarrow> (string \<times> json) list \<Rightarrow> audit_row" where
  "rejection event table subject reason detail =
    \<lparr>au_event = event, au_table = table, au_object = None, au_subject = subject, au_reason = reason, au_detail = detail\<rparr>"

section \<open>The blob container\<close>

definition storage_uri_for :: "vault_env \<Rightarrow> string \<Rightarrow> string" where
  "storage_uri_for env digest =
    ''https://'' @ ve_account env @ ''.blob.core.windows.net/'' @ ve_container env @ ''/'' @ digest"

text \<open>None: the service raised. An upload that loses a race against the same bytes is a
dedup too, so the race needs no step of its own.\<close>

definition store_content_addressed :: "vault_env \<Rightarrow> bytes \<Rightarrow> (string \<times> bytes) list \<Rightarrow> ((string \<times> string \<times> bool) \<times> (string \<times> bytes) list) option" where
  "store_content_addressed env raw blobs =
    (let digest = sha256_hexdigest raw in
     if \<not> ve_blobs_up env digest then None
     else if map_of blobs digest \<noteq> None then Some ((digest, storage_uri_for env digest, True), blobs)
     else Some ((digest, storage_uri_for env digest, False), blobs @ [(digest, raw)]))"

definition read_content :: "vault_env \<Rightarrow> string \<Rightarrow> (string \<times> bytes) list \<Rightarrow> bytes option" where
  "read_content env digest blobs = (if ve_blobs_up env digest then map_of blobs digest else None)"

definition delete_content_if_unreferenced :: "vault_env \<Rightarrow> string \<Rightarrow> bool \<Rightarrow> (string \<times> bytes) list \<Rightarrow> (string \<times> bytes) list option" where
  "delete_content_if_unreferenced env digest still_referenced blobs =
    (if still_referenced then Some blobs
     else if \<not> ve_blobs_up env digest then None
     else Some (filter (\<lambda>(d, raw). d \<noteq> digest) blobs))"

end
