(* ===== verification/Vault_Objects.thy ===== *)
theory Vault_Objects
  imports Vault_Store
begin

text \<open>The routes of the nine object types (routers/objects.py), the consent gate
(consent.py) and the expiry of a new row (compute_expires_at of retention.py). A handler
maps the state before to the reply and the state after; a transaction that raises leaves
the tables as they were, except for the audit rows that are written on a connection of
their own.\<close>

section \<open>Expiry\<close>

definition days :: "int \<Rightarrow> int" where "days n = n * 86400 * 1000000"

text \<open>policy/retention.yaml; the sentinel is the last day of the year 9999.\<close>

definition RETENTION_DURATIONS :: "(string \<times> int option) list" where
  "RETENTION_DURATIONS =
    [(''ephemeral_30d'', Some (days 30)), (''standard_1y'', Some (days 365)), (''extended_3y'', Some (days 1095)),
     (''legal_hold'', None)]"

definition LEGAL_HOLD_SENTINEL :: instant where "LEGAL_HOLD_SENTINEL = 253402214400 * 1000000"

definition ACCESS_LOG_RETENTION :: int where "ACCESS_LOG_RETENTION = days 90"

definition compute_expires_at :: "string \<Rightarrow> instant \<Rightarrow> instant" where
  "compute_expires_at cls now =
    (case map_of RETENTION_DURATIONS cls of Some (Some d) \<Rightarrow> now + d | _ \<Rightarrow> LEGAL_HOLD_SENTINEL)"

section \<open>Validation\<close>

type_synonym payload = "(string \<times> json) list"

text \<open>A rejection: the failure, and the audit row written on its own connection.\<close>

type_synonym rejected = "vault_detail failure \<times> audit_row list"

definition blank :: "json option \<Rightarrow> bool" where
  "blank v \<longleftrightarrow> (case v of None \<Rightarrow> True | Some j \<Rightarrow> j = JNull \<or> j = JStr [])"

fun missing_taxonomy :: "string \<Rightarrow> payload \<Rightarrow> string list \<Rightarrow> rejected option" where
  "missing_taxonomy table p [] = None"
| "missing_taxonomy table p (f # fs) =
    (if blank (map_of p f)
     then Some (vault_error 422 (''missing required taxonomy field: '' @ f) ''taxonomy_field_missing'' (Some f),
                [rejection ''taxonomy_rejected'' table None (''missing required taxonomy field: '' @ f) [(''field'', JStr f)]])
     else missing_taxonomy table p fs)"

definition invalid_field :: "string \<Rightarrow> string \<Rightarrow> string \<Rightarrow> string \<Rightarrow> rejected" where
  "invalid_field table f reason message =
    (vault_error 422 message ''taxonomy_field_invalid'' (Some f),
     [rejection ''taxonomy_rejected'' table None reason [(''field'', JStr f)]])"

text \<open>x in a set of texts: a list or an object is not hashable.\<close>

fun in_texts :: "json \<Rightarrow> string list \<Rightarrow> bool option" where
  "in_texts (JStr s) ss = Some (s \<in> set ss)"
| "in_texts (JArr xs) ss = None"
| "in_texts (JObj kvs) ss = None"
| "in_texts _ ss = Some False"

fun check_sets :: "string \<Rightarrow> payload \<Rightarrow> (string \<times> string list) list \<Rightarrow> rejected option" where
  "check_sets table p [] = None"
| "check_sets table p ((f, allowed) # rest) =
    (case in_texts (the (map_of p f)) allowed of
       None \<Rightarrow> Some (Crashed ''TypeError'', [])
     | Some ok \<Rightarrow>
         (if ok then check_sets table p rest
          else Some (invalid_field table f (''invalid '' @ f) (''invalid '' @ f))))"

definition validate_taxonomy :: "vault_env \<Rightarrow> string \<Rightarrow> payload \<Rightarrow> rejected option" where
  "validate_taxonomy env table p =
    (case missing_taxonomy table p VAULT_TAXONOMY_FIELDS of
       Some r \<Rightarrow> Some r
     | None \<Rightarrow>
         (case check_sets table p [(''evidence_grade'', EVIDENCE_GRADES), (''consent_status'', CONSENT_STATUSES),
                (''retention_class'', RETENTION_CLASSES)] of
            Some r \<Rightarrow> Some r
          | None \<Rightarrow>
              (if py_uuid (str_of (ve_str env) (the (map_of p ''campaign''))) = None
               then Some (invalid_field table ''campaign'' ''campaign is not a valid uuid'' ''campaign must be a valid uuid'')
               else None)))"

fun validate_required :: "payload \<Rightarrow> field_spec list \<Rightarrow> rejected option" where
  "validate_required p [] = None"
| "validate_required p (f # fs) =
    (if fs_required f \<and> blank (map_of p (fs_name f))
     then Some (vault_error 422 (''missing required field: '' @ fs_name f) ''field_missing'' (Some (fs_name f)), [])
     else validate_required p fs)"

section \<open>Consent\<close>

definition cell_is :: "vrow \<Rightarrow> string \<Rightarrow> cell \<Rightarrow> bool" where
  "cell_is r col c \<longleftrightarrow> map_of (vr_cells r) col = Some c"

text \<open>The newest matching grant that is not revoked; consented_at is the time of the row.\<close>

definition find_active_consent :: "string \<Rightarrow> string \<Rightarrow> string \<Rightarrow> vault_db \<Rightarrow> nat option" where
  "find_active_consent subject channel purpose db =
    map_option vr_id (first_by (\<lambda>a b. vr_created b < vr_created a)
      (filter (\<lambda>r. vr_table r = ''consent_register'' \<and> cell_is r ''data_subject_ref'' (C_Json (JStr subject)) \<and>
                   cell_is r ''channel'' (C_Json (JStr channel)) \<and> cell_is r ''purpose'' (C_Json (JStr purpose)) \<and>
                   cell_is r ''revoked_at'' C_Null) (vd_rows db)))"

definition link_consent :: "string \<Rightarrow> nat \<Rightarrow> nat \<Rightarrow> vault_db \<Rightarrow> vault_db" where
  "link_consent table i consent db =
    (if \<exists>l\<in>set (vd_links db). lk_table l = table \<and> lk_object l = i then db
     else db\<lparr>vd_links := vd_links db @ [\<lparr>lk_table = table, lk_object = i, lk_consent = consent\<rparr>]\<rparr>)"

definition value_at :: "payload \<Rightarrow> string \<Rightarrow> json" where
  "value_at p k = (case map_of p k of Some v \<Rightarrow> v | None \<Rightarrow> JNull)"

fun text_at :: "vault_env \<Rightarrow> payload \<Rightarrow> string \<Rightarrow> string option" where
  "text_at env p k = (case value_at p k of JStr s \<Rightarrow> if ve_binds env S_text (JStr s) then Some s else None | _ \<Rightarrow> None)"

text \<open>A value that the driver does not bind as a text is refused by it.\<close>

definition handle_consent_gate :: "vault_env \<Rightarrow> string \<Rightarrow> payload \<Rightarrow> vault_db \<Rightarrow> rejected + nat option" where
  "handle_consent_gate env table p db =
    (if table = ''consent_register'' \<or> \<not> jtruth (value_at p ''data_subject_ref'') then Inr None
     else if \<not> jtruth (value_at p ''consent_channel'') \<or> \<not> jtruth (value_at p ''consent_purpose'')
     then Inl (vault_error 422 ''consent_channel and consent_purpose are required when data_subject_ref is present''
                 ''consent_fields_missing'' None, [])
     else (case (text_at env p ''data_subject_ref'', text_at env p ''consent_channel'', text_at env p ''consent_purpose'') of
             (Some s, Some c, Some q) \<Rightarrow>
               (case find_active_consent s c q db of
                  Some i \<Rightarrow> Inr (Some i)
                | None \<Rightarrow>
                    Inl (vault_error 403 ''no active consent for data_subject_ref/channel/purpose'' ''consent_required'' None,
                      [rejection ''consent_rejected'' table (Some s)
                        ''no active (non-revoked) consent_register match for subject/channel/purpose''
                        [(''channel'', JStr c), (''purpose'', JStr q)]]))
           | _ \<Rightarrow> Inl (Crashed ''DataError'', [])))"

section \<open>Insert\<close>

fun cast_fields :: "vault_env \<Rightarrow> payload \<Rightarrow> field_spec list \<Rightarrow> string + (string \<times> cell) list" where
  "cast_fields env p [] = Inr []"
| "cast_fields env p (f # fs) =
    (case cast_for_asyncpg env (fs_type f) (case map_of p (fs_name f) of Some v \<Rightarrow> v | None \<Rightarrow> fs_default f) of
       Inl x \<Rightarrow> Inl x
     | Inr c \<Rightarrow> (case cast_fields env p fs of Inl x \<Rightarrow> Inl x | Inr cs \<Rightarrow> Inr ((fs_name f, c) # cs)))"

text \<open>The unique and check constraints of the schema: ids, the bookkeeping of an object, one
grant per instant, an asset that does not precede itself.\<close>

definition same_grant :: "vrow \<Rightarrow> vrow \<Rightarrow> bool" where
  "same_grant a b \<longleftrightarrow> vr_table a = ''consent_register'' \<and> vr_table b = ''consent_register'' \<and> vr_created a = vr_created b \<and>
    (\<forall>col\<in>set [''data_subject_ref'', ''channel'', ''purpose'']. map_of (vr_cells a) col = map_of (vr_cells b) col)"

definition constraint_error :: "vrow \<Rightarrow> vault_db \<Rightarrow> string option" where
  "constraint_error row db =
    (if vr_table row = ''assets'' \<and> cell_is row ''predecessor_asset_id'' (C_Uuid (vr_id row)) then Some ''CheckViolationError''
     else if present db (vr_table row, vr_id row) \<or> (\<exists>r\<in>set (vd_rows db). same_grant row r) \<or>
             (\<exists>t\<in>set (vd_tax db). tx_table t = vr_table row \<and> tx_object t = vr_id row) \<or>
             (\<exists>t\<in>set (vd_ret db). rp_table t = vr_table row \<and> rp_object t = vr_id row) then Some ''UniqueViolationError''
     else None)"

text \<open>One statement inserts the row, its taxonomy and its retention: the driver's errors come
before the table's, a missing reference is found at its end.\<close>

definition insert_object ::
    "vault_env \<Rightarrow> object_config \<Rightarrow> payload \<Rightarrow> (string \<times> string) option \<Rightarrow> nat \<Rightarrow> instant \<Rightarrow> vault_db \<Rightarrow> vault_detail failure + vault_db" where
  "insert_object env cfg p blob i now db =
    (case (py_uuid (str_of (ve_str env) (value_at p ''campaign'')), cast_fields env p (oc_fields cfg)) of
       (None, _) \<Rightarrow> Inl (Crashed ''ValueError'')
     | (_, Inl x) \<Rightarrow> Inl (Crashed x)
     | (Some campaign, Inr cells) \<Rightarrow>
         (case (text_at env p ''vertical'', text_at env p ''function_id'', text_at env p ''evidence_grade'',
                text_at env p ''consent_status'', text_at env p ''retention_class'') of
            (Some vertical, Some function, Some grade, Some consent, Some cls) \<Rightarrow>
              (let row = \<lparr>vr_table = oc_name cfg, vr_id = i, vr_campaign = (if oc_campaign cfg then Some campaign else None),
                     vr_cells = cells, vr_blob = blob, vr_created = now, vr_updated = (if oc_updated cfg then Some now else None)\<rparr>
               in if \<exists>f\<in>set (oc_fields cfg). \<not> column_ok env (oc_name cfg) f (the (map_of cells (fs_name f)))
                  then Inl (Crashed ''DataError'')
                  else if constraint_error row db \<noteq> None then Inl (Crashed (the (constraint_error row db)))
                  else if \<exists>k\<in>set ((''campaigns'', campaign) # row_refs row). \<not> present db k \<and> k \<noteq> (oc_name cfg, i)
                  then Inl (vault_error 422 ''referenced id does not exist'' ''fk_violation'' None)
                  else Inr (db\<lparr>vd_rows := vd_rows db @ [row],
                     vd_tax := vd_tax db @ [\<lparr>tx_table = oc_name cfg, tx_object = i, tx_vertical = vertical,
                       tx_function = function, tx_campaign = campaign, tx_grade = grade, tx_consent = consent, tx_class = cls\<rparr>],
                     vd_ret := vd_ret db @ [\<lparr>rp_table = oc_name cfg, rp_object = i, rp_class = cls,
                       rp_expires = compute_expires_at cls now, rp_deleted = None\<rparr>]\<rparr>))
          | _ \<Rightarrow> Inl (Crashed ''DataError'')))"

section \<open>Read\<close>

definition tax_at :: "string \<Rightarrow> nat \<Rightarrow> vault_db \<Rightarrow> tax_row option" where
  "tax_at table i db = List.find (\<lambda>t. tx_table t = table \<and> tx_object t = i) (vd_tax db)"

type_synonym object_view = "vrow \<times> tax_row option"

definition fetch_object :: "string \<Rightarrow> nat \<Rightarrow> vault_db \<Rightarrow> object_view option" where
  "fetch_object table i db = map_option (\<lambda>r. (r, tax_at table i db)) (row_at table i db)"

definition list_objects :: "string \<Rightarrow> nat \<Rightarrow> nat \<Rightarrow> vault_db \<Rightarrow> object_view list" where
  "list_objects table n offset db =
    map (\<lambda>r. (r, tax_at table (vr_id r) db))
      (take n (drop offset (sort_key (\<lambda>r. - vr_created r) (filter (\<lambda>r. vr_table r = table) (vd_rows db)))))"

definition record_access :: "string \<Rightarrow> nat \<Rightarrow> string option \<Rightarrow> instant \<Rightarrow> vault_db \<Rightarrow> vault_db" where
  "record_access table i caller now db =
    db\<lparr>vd_access := vd_access db @ [\<lparr>ax_table = table, ax_object = i, ax_caller = or_else caller ''unknown'', ax_at = now\<rparr>]\<rparr>"

section \<open>Update\<close>

text \<open>The text of a stored taxonomy field.\<close>

definition taxonomy_text :: "tax_row \<Rightarrow> string \<Rightarrow> string" where
  "taxonomy_text t f = the (map_of
    [(''vertical'', tx_vertical t), (''function_id'', tx_function t), (''campaign'', uuid_str (tx_campaign t)),
     (''evidence_grade'', tx_grade t), (''consent_status'', tx_consent t), (''retention_class'', tx_class t)] f)"

definition assert_taxonomy_immutable :: "vault_env \<Rightarrow> string \<Rightarrow> nat \<Rightarrow> payload \<Rightarrow> vault_db \<Rightarrow> vault_detail failure option" where
  "assert_taxonomy_immutable env table i p db =
    (case tax_at table i db of
       None \<Rightarrow> None
     | Some t \<Rightarrow>
         map_option (\<lambda>f. vault_error 422 (''taxonomy field '' @ f @ '' is immutable post-create'') ''taxonomy_field_immutable'' (Some f))
           (List.find (\<lambda>f. map_of p f \<noteq> None \<and> str_of (ve_str env) (value_at p f) \<noteq> taxonomy_text t f) VAULT_TAXONOMY_FIELDS))"

definition patch_fields :: "object_config \<Rightarrow> payload \<Rightarrow> field_spec list" where
  "patch_fields cfg p =
    List.map_filter (\<lambda>(k, v). List.find (\<lambda>f. fs_name f = k \<and> fs_patchable f) (oc_fields cfg)) p"

definition set_cells :: "object_config \<Rightarrow> (string \<times> cell) list \<Rightarrow> instant \<Rightarrow> vrow \<Rightarrow> vrow" where
  "set_cells cfg cells now r =
    r\<lparr>vr_cells := map (\<lambda>(k, c). (k, case map_of cells k of Some d \<Rightarrow> d | None \<Rightarrow> c)) (vr_cells r),
      vr_updated := (if oc_updated cfg then Some now else vr_updated r)\<rparr>"

text \<open>The reply is None for a row that is not there.\<close>

definition update_object ::
    "vault_env \<Rightarrow> object_config \<Rightarrow> nat \<Rightarrow> payload \<Rightarrow> instant \<Rightarrow> vault_db \<Rightarrow> vault_detail failure + (object_view option \<times> vault_db)" where
  "update_object env cfg i p now db =
    (case assert_taxonomy_immutable env (oc_name cfg) i p db of
       Some x \<Rightarrow> Inl x
     | None \<Rightarrow>
         (case cast_fields env p (patch_fields cfg p) of
            Inl x \<Rightarrow> Inl (Crashed x)
          | Inr cells \<Rightarrow>
              (if cells = [] then Inr (fetch_object (oc_name cfg) i db, db)
               else if row_at (oc_name cfg) i db = None then Inr (None, db)
               else if \<exists>f\<in>set (patch_fields cfg p). \<not> column_ok env (oc_name cfg) f (the (map_of cells (fs_name f)))
               then Inl (Crashed ''DataError'')
               else let db' = db\<lparr>vd_rows := update_where (\<lambda>r. vr_table r = oc_name cfg \<and> vr_id r = i) (set_cells cfg cells now) (vd_rows db)\<rparr>
                    in Inr (fetch_object (oc_name cfg) i db', db'))))"

section \<open>The routes\<close>

text \<open>Rows written on a connection of their own survive the rejection.\<close>

definition isolated :: "audit_row list \<Rightarrow> vault_state \<Rightarrow> vault_state" where
  "isolated as st = st\<lparr>vs_db := fold write_audit as (vs_db st)\<rparr>"

definition create_checks :: "vault_env \<Rightarrow> object_config \<Rightarrow> payload \<Rightarrow> vault_db \<Rightarrow> rejected + nat option" where
  "create_checks env cfg p db =
    (case validate_taxonomy env (oc_name cfg) p of
       Some r \<Rightarrow> Inl r
     | None \<Rightarrow>
         (case validate_required p (oc_fields cfg) of
            Some r \<Rightarrow> Inl r
          | None \<Rightarrow> handle_consent_gate env (oc_name cfg) p db))"

definition commit_object ::
    "vault_env \<Rightarrow> object_config \<Rightarrow> payload \<Rightarrow> (string \<times> string) option \<Rightarrow> nat option \<Rightarrow> nat \<Rightarrow> instant \<Rightarrow> vault_db \<Rightarrow> vault_detail failure + vault_db" where
  "commit_object env cfg p blob consent i now db =
    (case insert_object env cfg p blob i now db of
       Inl x \<Rightarrow> Inl x
     | Inr db' \<Rightarrow> Inr (case consent of Some c \<Rightarrow> link_consent (oc_name cfg) i c db' | None \<Rightarrow> db'))"

text \<open>\<open>i\<close> is the id that the database generates.\<close>

definition create_object ::
    "vault_env \<Rightarrow> object_config \<Rightarrow> payload \<Rightarrow> nat \<Rightarrow> instant \<Rightarrow> vault_state \<Rightarrow> object_view option vault_reply \<times> vault_state" where
  "create_object env cfg p i now st =
    (case create_checks env cfg p (vs_db st) of
       Inl (x, audits) \<Rightarrow> (Inl x, isolated audits st)
     | Inr consent \<Rightarrow>
         (case commit_object env cfg p None consent i now (vs_db st) of
            Inl x \<Rightarrow> (Inl x, st)
          | Inr db \<Rightarrow> (Inr (fetch_object (oc_name cfg) i db), st\<lparr>vs_db := db\<rparr>)))"

definition get_object ::
    "object_config \<Rightarrow> nat \<Rightarrow> string option \<Rightarrow> instant \<Rightarrow> vault_state \<Rightarrow> object_view vault_reply \<times> vault_state" where
  "get_object cfg i caller now st =
    (case fetch_object (oc_name cfg) i (vs_db st) of
       None \<Rightarrow> (Inl (vault_error 404 ''not found'' ''not_found'' None), st)
     | Some obj \<Rightarrow> (Inr obj, st\<lparr>vs_db := record_access (oc_name cfg) i caller now (vs_db st)\<rparr>))"

definition patch_object ::
    "vault_env \<Rightarrow> object_config \<Rightarrow> nat \<Rightarrow> payload \<Rightarrow> instant \<Rightarrow> vault_state \<Rightarrow> object_view vault_reply \<times> vault_state" where
  "patch_object env cfg i p now st =
    (if \<not> oc_patch cfg then (Inl (Refused 405 ''Method Not Allowed''), st)
     else (case update_object env cfg i p now (vs_db st) of
             Inl x \<Rightarrow> (Inl x, st)
           | Inr (None, db) \<Rightarrow> (Inl (vault_error 404 ''not found'' ''not_found'' None), st\<lparr>vs_db := db\<rparr>)
           | Inr (Some obj, db) \<Rightarrow> (Inr obj, st\<lparr>vs_db := db\<rparr>)))"

definition delete_object :: "object_config \<Rightarrow> nat \<Rightarrow> vault_state \<Rightarrow> unit vault_reply \<times> vault_state" where
  "delete_object cfg i st =
    (if \<not> oc_delete cfg then (Inl (Refused 405 ''Method Not Allowed''), st)
     else (case delete_row (oc_name cfg) i (vs_db st) of
             Inl x \<Rightarrow> (Inl (Crashed x), st)
           | Inr db \<Rightarrow> (Inr (), st\<lparr>vs_db := db\<rparr>)))"

text \<open>limit: int = Query(50, ge=1, le=500), offset: int = Query(0, ge=0).\<close>

definition list_page :: "object_config \<Rightarrow> nat \<Rightarrow> nat \<Rightarrow> vault_state \<Rightarrow> object_view list vault_reply" where
  "list_page cfg n offset st =
    (if n < 1 \<or> 500 < n then Inl (Refused 422 ''validation error'') else Inr (list_objects (oc_name cfg) n offset (vs_db st)))"

section \<open>Assets\<close>

text \<open>b64decode raises for anything that is not a text, too.\<close>

definition decode_content :: "payload \<Rightarrow> vault_detail failure + (string \<times> bytes)" where
  "decode_content p =
    (if \<not> jtruth (value_at p ''content_base64'')
     then Inl (vault_error 422 ''missing required field: content_base64'' ''field_missing'' (Some ''content_base64''))
     else (case value_at p ''content_base64'' of
             JStr s \<Rightarrow>
               (case b64decode_strict s of
                  Some raw \<Rightarrow> Inr (s, raw)
                | None \<Rightarrow> Inl (vault_error 422 ''content_base64 is not valid base64'' ''field_invalid'' (Some ''content_base64'')))
           | _ \<Rightarrow> Inl (vault_error 422 ''content_base64 is not valid base64'' ''field_invalid'' (Some ''content_base64''))))"

text \<open>The blob is written inside the transaction but is not undone with it.\<close>

definition create_asset_route ::
    "vault_env \<Rightarrow> payload \<Rightarrow> nat \<Rightarrow> instant \<Rightarrow> vault_state \<Rightarrow> (object_view \<times> string) vault_reply \<times> vault_state" where
  "create_asset_route env p i now st =
    (case decode_content p of
       Inl x \<Rightarrow> (Inl x, st)
     | Inr (content_b64, raw) \<Rightarrow>
         (case create_checks env ASSETS p (vs_db st) of
            Inl (x, audits) \<Rightarrow> (Inl x, isolated audits st)
          | Inr consent \<Rightarrow>
              (case store_content_addressed env raw (vs_blobs st) of
                 None \<Rightarrow> (Inl (Crashed ''AzureError''), st)
               | Some ((digest, uri, deduped), blobs) \<Rightarrow>
                   (case commit_object env ASSETS p (Some (digest, uri)) consent i now (vs_db st) of
                      Inl x \<Rightarrow> (Inl x, st\<lparr>vs_blobs := blobs\<rparr>)
                    | Inr db \<Rightarrow>
                        (case fetch_object ''assets'' i db of
                           None \<Rightarrow> (Inl (Crashed ''TypeError''), st\<lparr>vs_db := db, vs_blobs := blobs\<rparr>)
                         | Some obj \<Rightarrow> (Inr (obj, content_b64), st\<lparr>vs_db := db, vs_blobs := blobs\<rparr>))))))"

text \<open>The access is on record before the blob is read.\<close>

definition get_asset_route ::
    "vault_env \<Rightarrow> nat \<Rightarrow> string option \<Rightarrow> instant \<Rightarrow> vault_state \<Rightarrow> (object_view \<times> string) vault_reply \<times> vault_state" where
  "get_asset_route env i caller now st =
    (case get_object ASSETS i caller now st of
       (Inl x, st') \<Rightarrow> (Inl x, st')
     | (Inr obj, st') \<Rightarrow>
         (case vr_blob (fst obj) of
            None \<Rightarrow> (Inl (Crashed ''AzureError''), st')
          | Some (digest, uri) \<Rightarrow>
              (case read_content env digest (vs_blobs st') of
                 None \<Rightarrow> (Inl (Crashed ''AzureError''), st')
               | Some raw \<Rightarrow> (Inr (obj, b64encode raw), st'))))"

end
