(* ===== verification/Vault_Retention.thy ===== *)
theory Vault_Retention
  imports Vault_Objects
begin

text \<open>The sweep of expired objects (retention.py, routers/retention.py): one transaction over
all expired rows, while the blobs and the audit rows of failed blob deletions are outside of
it.\<close>

section \<open>One expired row\<close>

text \<open>\<open>bt_isolated\<close> are the audit rows that are committed whatever becomes of the batch.\<close>

record batch =
  bt_db :: vault_db
  bt_blobs :: "(string \<times> bytes) list"
  bt_isolated :: "audit_row list"
  bt_deleted :: nat
  bt_failed :: nat

definition known_table :: "string \<Rightarrow> bool" where
  "known_table table \<longleftrightarrow> table = ''assets'' \<or> table \<in> oc_name ` set OBJECT_TYPES"

definition content_hash_of :: "string \<Rightarrow> nat \<Rightarrow> vault_db \<Rightarrow> string option" where
  "content_hash_of table i db =
    (if table = ''assets'' then (case row_at table i db of Some a \<Rightarrow> map_option fst (vr_blob a) | None \<Rightarrow> None) else None)"

definition still_referenced :: "string \<Rightarrow> nat \<Rightarrow> vault_db \<Rightarrow> bool" where
  "still_referenced h i db \<longleftrightarrow>
    (\<exists>a\<in>set (vd_rows db). vr_table a = ''assets'' \<and> vr_id a \<noteq> i \<and> map_option fst (vr_blob a) = Some h)"

definition drop_blob :: "vault_env \<Rightarrow> string option \<Rightarrow> nat \<Rightarrow> vault_db \<Rightarrow> (string \<times> bytes) list \<Rightarrow> (string \<times> bytes) list option" where
  "drop_blob env hash i db blobs =
    (case hash of Some h \<Rightarrow> delete_content_if_unreferenced env h (still_referenced h i db) blobs | None \<Rightarrow> Some blobs)"

definition sweep_detail :: "ret_row \<Rightarrow> string option \<Rightarrow> (string \<times> json) list" where
  "sweep_detail r hash =
    (''retention_class'', JStr (rp_class r)) # (case hash of Some h \<Rightarrow> [(''content_hash'', JStr h)] | None \<Rightarrow> [])"

definition failed_audit :: "ret_row \<Rightarrow> string option \<Rightarrow> audit_row" where
  "failed_audit r hash =
    \<lparr>au_event = ''retention_deletion_failed'', au_table = rp_table r, au_object = Some (rp_object r), au_subject = None,
     au_reason = ''retention_class='' @ rp_class r @ '' expired but blob delete failed; object left in place for retry on next sweep'',
     au_detail = sweep_detail r hash\<rparr>"

definition deletion_audit :: "ret_row \<Rightarrow> string option \<Rightarrow> audit_row" where
  "deletion_audit r hash =
    \<lparr>au_event = ''retention_deletion'', au_table = rp_table r, au_object = Some (rp_object r), au_subject = None,
     au_reason = ''retention_class='' @ rp_class r @ '' expired'', au_detail = sweep_detail r hash\<rparr>"

definition mark_deleted :: "string \<Rightarrow> nat \<Rightarrow> instant \<Rightarrow> vault_db \<Rightarrow> vault_db" where
  "mark_deleted table i now db =
    db\<lparr>vd_ret := update_where (\<lambda>r. rp_table r = table \<and> rp_object r = i) (\<lambda>r. r\<lparr>rp_deleted := Some now\<rparr>) (vd_ret db)\<rparr>"

definition sweep_row :: "vault_env \<Rightarrow> instant \<Rightarrow> ret_row \<Rightarrow> batch \<Rightarrow> string + batch" where
  "sweep_row env now r b =
    (let table = rp_table r; i = rp_object r; hash = content_hash_of table i (bt_db b)
     in if \<not> known_table table then Inr b
        else (case drop_blob env hash i (bt_db b) (bt_blobs b) of
                None \<Rightarrow> Inr (b\<lparr>bt_db := write_audit (failed_audit r hash) (bt_db b),
                  bt_isolated := bt_isolated b @ [failed_audit r hash], bt_failed := bt_failed b + 1\<rparr>)
              | Some blobs \<Rightarrow>
                  (case delete_row table i (bt_db b) of
                     Inl x \<Rightarrow> Inl x
                   | Inr db \<Rightarrow> Inr (b\<lparr>bt_db := write_audit (deletion_audit r hash) (mark_deleted table i now db),
                       bt_blobs := blobs, bt_deleted := bt_deleted b + 1\<rparr>))))"

text \<open>What is left when a row raises: its own blob is gone.\<close>

definition raised_row :: "vault_env \<Rightarrow> ret_row \<Rightarrow> batch \<Rightarrow> batch" where
  "raised_row env r b =
    (case drop_blob env (content_hash_of (rp_table r) (rp_object r) (bt_db b)) (rp_object r) (bt_db b) (bt_blobs b) of
       Some blobs \<Rightarrow> b\<lparr>bt_blobs := blobs\<rparr> | None \<Rightarrow> b)"

fun sweep_rows :: "vault_env \<Rightarrow> instant \<Rightarrow> ret_row list \<Rightarrow> batch \<Rightarrow> string option \<times> batch" where
  "sweep_rows env now [] b = (None, b)"
| "sweep_rows env now (r # rs) b =
    (case sweep_row env now r b of Inl x \<Rightarrow> (Some x, raised_row env r b) | Inr b' \<Rightarrow> sweep_rows env now rs b')"

section \<open>The run\<close>

definition expired :: "instant \<Rightarrow> vault_db \<Rightarrow> ret_row list" where
  "expired now db = filter (\<lambda>r. rp_expires r \<le> now \<and> rp_deleted r = None) (vd_ret db)"

definition open_run :: "nat \<Rightarrow> instant \<Rightarrow> vault_db \<Rightarrow> vault_db" where
  "open_run run now db =
    db\<lparr>vd_sweeps := vd_sweeps db @ [\<lparr>sw_id = run, sw_status = ''running'', sw_started = now, sw_completed = None, sw_deleted = 0\<rparr>]\<rparr>"

definition close_run :: "nat \<Rightarrow> nat \<Rightarrow> instant \<Rightarrow> vault_db \<Rightarrow> vault_db" where
  "close_run run n now db =
    db\<lparr>vd_sweeps := update_where (\<lambda>w. sw_id w = run)
         (\<lambda>w. w\<lparr>sw_status := ''succeeded'', sw_completed := Some now, sw_deleted := n\<rparr>) (vd_sweeps db)\<rparr>"

definition purge_access_log :: "instant \<Rightarrow> vault_db \<Rightarrow> vault_db" where
  "purge_access_log now db = db\<lparr>vd_access := filter (\<lambda>a. \<not> ax_at a < now - ACCESS_LOG_RETENTION) (vd_access db)\<rparr>"

record sweep_summary =
  ss_run :: nat
  ss_deleted :: nat
  ss_failed :: nat
  ss_purged :: nat

text \<open>\<open>now\<close> is the instant of the batch transaction, \<open>later\<close> that of the statements after it.\<close>

definition run_retention_expiry ::
    "vault_env \<Rightarrow> nat \<Rightarrow> instant \<Rightarrow> instant \<Rightarrow> vault_state \<Rightarrow> sweep_summary vault_reply \<times> vault_state" where
  "run_retention_expiry env run now later st =
    (let db = open_run run now (vs_db st);
         (err, b) = sweep_rows env now (ve_pick env (expired now db))
           \<lparr>bt_db = db, bt_blobs = vs_blobs st, bt_isolated = [], bt_deleted = 0, bt_failed = 0\<rparr>
     in case err of
          Some x \<Rightarrow> (Inl (Crashed x), \<lparr>vs_db = fold write_audit (bt_isolated b) db, vs_blobs = bt_blobs b\<rparr>)
        | None \<Rightarrow>
            (Inr \<lparr>ss_run = run, ss_deleted = bt_deleted b, ss_failed = bt_failed b,
                   ss_purged = length (vd_access (bt_db b)) - length (vd_access (purge_access_log later (bt_db b)))\<rparr>,
             \<lparr>vs_db = close_run run (bt_deleted b) later (purge_access_log later (bt_db b)), vs_blobs = bt_blobs b\<rparr>))"

definition sweep_at :: "nat \<Rightarrow> vault_state \<Rightarrow> sweep_run option" where
  "sweep_at run st = List.find (\<lambda>w. sw_id w = run) (vd_sweeps (vs_db st))"

definition trigger_retention_expiry ::
    "vault_env \<Rightarrow> nat \<Rightarrow> instant \<Rightarrow> instant \<Rightarrow> vault_state \<Rightarrow> sweep_run vault_reply \<times> vault_state" where
  "trigger_retention_expiry env run now later st =
    (case run_retention_expiry env run now later st of
       (Inl x, st') \<Rightarrow> (Inl x, st')
     | (Inr summary, st') \<Rightarrow>
         (case sweep_at (ss_run summary) st' of Some w \<Rightarrow> (Inr w, st') | None \<Rightarrow> (Inl (Crashed ''TypeError''), st')))"

definition list_retention_expiry_runs :: "nat \<Rightarrow> nat \<Rightarrow> vault_state \<Rightarrow> sweep_run list vault_reply" where
  "list_retention_expiry_runs n offset st =
    (if n < 1 \<or> 500 < n then Inl (Refused 422 ''validation error'')
     else Inr (take n (drop offset (sort_key (\<lambda>w. - sw_started w) (vd_sweeps (vs_db st))))))"

definition get_retention_expiry_run :: "nat \<Rightarrow> vault_state \<Rightarrow> sweep_run vault_reply" where
  "get_retention_expiry_run run st =
    (case sweep_at run st of Some w \<Rightarrow> Inr w | None \<Rightarrow> Inl (vault_error 404 ''not found'' ''not_found'' None))"

end
