(* ===== verification/Vault_Routes.thy ===== *)
theory Vault_Routes
  imports Vault_Retention "HOL-Library.Product_Lexorder"
begin

text \<open>The remaining routes of the vault: utilisation (rollup.py, routers/utilisation.py), the
consent check (routers/consent.py), option cards (routers/option_cards.py), the service token
(auth.py), and the transition system of all writes.\<close>

section \<open>Utilisation\<close>

definition day_start :: "int \<Rightarrow> instant" where "day_start day = days day"

definition reads_of_day :: "int \<Rightarrow> vault_db \<Rightarrow> access_row list" where
  "reads_of_day day db = filter (\<lambda>a. day_start day \<le> ax_at a \<and> ax_at a < day_start day + days 1) (vd_access db)"

definition read_groups :: "int \<Rightarrow> vault_db \<Rightarrow> ((string \<times> string) \<times> nat) list" where
  "read_groups day db =
    (let keys = map (\<lambda>a. (ax_table a, ax_caller a)) (reads_of_day day db)
     in map (\<lambda>k. (k, count_list keys k)) (remdups keys))"

text \<open>ON CONFLICT (day, object_table, caller_service) DO UPDATE.\<close>

definition daily_is :: "int \<Rightarrow> string \<times> string \<Rightarrow> daily_row \<Rightarrow> bool" where
  "daily_is day k d \<longleftrightarrow> dy_day d = day \<and> (dy_table d, dy_caller d) = k"

definition upsert_daily :: "int \<Rightarrow> (string \<times> string) \<times> nat \<Rightarrow> daily_row list \<Rightarrow> daily_row list" where
  "upsert_daily day g ds =
    (if \<exists>d\<in>set ds. daily_is day (fst g) d
     then update_where (daily_is day (fst g)) (\<lambda>d. d\<lparr>dy_count := snd g\<rparr>) ds
     else ds @ [\<lparr>dy_day = day, dy_table = fst (fst g), dy_caller = snd (fst g), dy_count = snd g\<rparr>])"

definition run_rollup :: "int \<Rightarrow> vault_db \<Rightarrow> nat \<times> vault_db" where
  "run_rollup day db =
    (let groups = read_groups day db
     in (length groups, db\<lparr>vd_daily := fold (upsert_daily day) groups (vd_daily db)\<rparr>))"

text \<open>A payload is an object or null; its date is read when it is there and true. Today's date
is that of the instant \<open>now\<close>, in UTC.\<close>

definition run_utilisation_rollup ::
    "vault_env \<Rightarrow> payload option \<Rightarrow> instant \<Rightarrow> vault_state \<Rightarrow> (int \<times> nat) vault_reply \<times> vault_state" where
  "run_utilisation_rollup env p now st =
    (case (case p of None \<Rightarrow> JNull | Some kvs \<Rightarrow> value_at kvs ''date'') of
       JStr s \<Rightarrow>
         (case (if s = [] then Some (now div days 1) else ve_date env s) of
            None \<Rightarrow> (Inl (Crashed ''ValueError''), st)
          | Some day \<Rightarrow> (let (n, db) = run_rollup day (vs_db st) in (Inr (day, n), st\<lparr>vs_db := db\<rparr>)))
     | v \<Rightarrow>
         (if jtruth v then (Inl (Crashed ''TypeError''), st)
          else let day = now div days 1; (n, db) = run_rollup day (vs_db st) in (Inr (day, n), st\<lparr>vs_db := db\<rparr>)))"

definition read_rollup :: "vault_env \<Rightarrow> int option \<Rightarrow> int option \<Rightarrow> string option \<Rightarrow> vault_db \<Rightarrow> daily_row list" where
  "read_rollup env date_from date_to object_class db =
    sort_key (\<lambda>d. (dy_day d, ve_rank env (dy_table d), ve_rank env (dy_caller d)))
      (filter (\<lambda>d. (case date_from of Some x \<Rightarrow> x \<le> dy_day d | None \<Rightarrow> True) \<and>
                   (case date_to of Some x \<Rightarrow> dy_day d \<le> x | None \<Rightarrow> True) \<and>
                   (case object_class of Some c \<Rightarrow> dy_table d = c | None \<Rightarrow> True)) (vd_daily db))"

definition date_param :: "vault_env \<Rightarrow> string option \<Rightarrow> string + int option" where
  "date_param env s =
    (if \<not> truthy s then Inr None
     else (case ve_date env (the s) of Some d \<Rightarrow> Inr (Some d) | None \<Rightarrow> Inl ''ValueError''))"

definition get_utilisation_rollup ::
    "vault_env \<Rightarrow> string option \<Rightarrow> string option \<Rightarrow> string option \<Rightarrow> vault_state \<Rightarrow> daily_row list vault_reply" where
  "get_utilisation_rollup env since until object_class st =
    (case (date_param env since, date_param env until) of
       (Inr a, Inr b) \<Rightarrow> Inr (read_rollup env a b object_class (vs_db st))
     | _ \<Rightarrow> Inl (Crashed ''ValueError''))"

section \<open>The consent check\<close>

definition check_consent :: "vault_env \<Rightarrow> string \<Rightarrow> string \<Rightarrow> string \<Rightarrow> vault_state \<Rightarrow> (bool \<times> nat option) vault_reply" where
  "check_consent env subject channel purpose st =
    (if \<exists>s\<in>set [subject, channel, purpose]. \<not> ve_binds env S_text (JStr s) then Inl (Crashed ''DataError'')
     else let i = find_active_consent subject channel purpose (vs_db st) in Inr (i \<noteq> None, i))"

section \<open>Option cards\<close>

definition CARD_REQUIRED :: "string list" where
  "CARD_REQUIRED = [''kind'', ''autonomy_level'', ''risk_tier'', ''produced_by_function'', ''card'', ''expires_at'']"

text \<open>uuid.UUID and datetime.fromisoformat of a value from the payload: one that is no text
raises.\<close>

fun uuid_of :: "json \<Rightarrow> string + nat" where
  "uuid_of (JStr s) = (case py_uuid s of Some u \<Rightarrow> Inr u | None \<Rightarrow> Inl ''ValueError'')"
| "uuid_of _ = Inl ''AttributeError''"

fun instant_of :: "vault_env \<Rightarrow> json \<Rightarrow> string + instant" where
  "instant_of env (JStr s) = (case ve_iso env s of Some t \<Rightarrow> Inr t | None \<Rightarrow> Inl ''ValueError'')"
| "instant_of env _ = Inl ''TypeError''"

definition optional :: "json \<Rightarrow> (json \<Rightarrow> string + 'a) \<Rightarrow> 'a \<Rightarrow> string + 'a" where
  "optional v f d = (if jtruth v then f v else Inr d)"

definition card_columns :: "(string \<times> sql_type) list" where
  "card_columns = [(''kind'', S_text), (''autonomy_level'', S_integer), (''risk_tier'', S_text),
    (''produced_by_function'', S_integer), (''card'', S_jsonb)]"

definition insert_card :: "vault_env \<Rightarrow> payload \<Rightarrow> nat \<Rightarrow> nat option \<Rightarrow> instant \<Rightarrow> instant \<Rightarrow> vault_db \<Rightarrow> vault_detail failure + (card_row \<times> vault_db)" where
  "insert_card env p i run created expires db =
    (let row = \<lparr>oq_id = i, oq_run = run, oq_fields = map (\<lambda>(k, t). (k, value_at p k)) card_columns,
           oq_created = created, oq_expires = expires\<rparr>
     in if \<exists>(k, t)\<in>set card_columns. value_at p k = JNull \<or> \<not> ve_binds env t (value_at p k) then Inl (Crashed ''DataError'')
        else if \<exists>c\<in>set (vd_cards db). oq_id c = i then Inl (Crashed ''UniqueViolationError'')
        else if (case run of Some r \<Rightarrow> \<not> present db (''agent_runs'', r) | None \<Rightarrow> False)
        then Inl (vault_error 422 ''referenced id does not exist'' ''fk_violation'' None)
        else Inr (row, db\<lparr>vd_cards := vd_cards db @ [row]\<rparr>))"

text \<open>\<open>fresh\<close> is uuid4.\<close>

definition create_option_card :: "vault_env \<Rightarrow> payload \<Rightarrow> nat \<Rightarrow> instant \<Rightarrow> vault_state \<Rightarrow> card_row vault_reply \<times> vault_state" where
  "create_option_card env p fresh now st =
    (if \<exists>f\<in>set CARD_REQUIRED. map_of p f = None then (Inl (vault_error 422 ''missing field(s)'' ''invalid_body'' None), st)
     else (case optional (value_at p ''card_id'') uuid_of fresh of
             Inl x \<Rightarrow> (Inl (Crashed x), st)
           | Inr i \<Rightarrow>
         (case optional (value_at p ''created_at'') (instant_of env) now of
             Inl x \<Rightarrow> (Inl (Crashed x), st)
           | Inr created \<Rightarrow>
         (case instant_of env (value_at p ''expires_at'') of
             Inl x \<Rightarrow> (Inl (Crashed x), st)
           | Inr expires \<Rightarrow>
         (case optional (value_at p ''agent_run_id'') (map_sum id Some \<circ> uuid_of) None of
             Inl x \<Rightarrow> (Inl (Crashed x), st)
           | Inr run \<Rightarrow>
         (case insert_card env p i run created expires (vs_db st) of
             Inl x \<Rightarrow> (Inl x, st)
           | Inr (row, db) \<Rightarrow> (Inr row, st\<lparr>vs_db := db\<rparr>)))))))"

definition card_at :: "nat \<Rightarrow> vault_db \<Rightarrow> card_row option" where
  "card_at i db = List.find (\<lambda>c. oq_id c = i) (vd_cards db)"

definition get_option_card :: "nat \<Rightarrow> vault_state \<Rightarrow> card_row vault_reply" where
  "get_option_card i st =
    (case card_at i (vs_db st) of
       Some c \<Rightarrow> Inr c
     | None \<Rightarrow> Inl (vault_error 404 (''option card '' @ uuid_str i @ '' not found'') ''not_found'' None))"

definition list_option_cards :: "bool \<Rightarrow> nat \<Rightarrow> nat \<Rightarrow> instant \<Rightarrow> vault_state \<Rightarrow> card_row list vault_reply" where
  "list_option_cards pending n offset now st =
    (let db = vs_db st
     in if n < 1 \<or> 500 < n then Inl (Refused 422 ''validation error'')
        else Inr (take n (drop offset
          (if pending
           then sort_key oq_created (filter (\<lambda>c. now < oq_expires c \<and> \<not> (\<exists>d\<in>set (vd_decided db). de_card d = oq_id c)) (vd_cards db))
           else sort_key (\<lambda>c. - oq_created c) (vd_cards db)))))"

definition list_decision_history :: "instant option \<Rightarrow> nat \<Rightarrow> nat \<Rightarrow> vault_state \<Rightarrow> (dec_row \<times> card_row) list vault_reply" where
  "list_decision_history since n offset st =
    (let db = vs_db st
     in if n < 1 \<or> 2000 < n then Inl (Refused 422 ''validation error'')
        else Inr (take n (drop offset
          (List.map_filter (\<lambda>d. map_option (Pair d) (card_at (de_card d) db))
            (sort_key (\<lambda>d. - de_at d) (filter (\<lambda>d. case since of Some t \<Rightarrow> t \<le> de_at d | None \<Rightarrow> True) (vd_decided db)))))))"

section \<open>The service token\<close>

definition DEV_DEFAULT_TOKEN :: string where
  "DEV_DEFAULT_TOKEN = ''vault-dev-only-insecure-default-token-do-not-use-in-prod''"

definition expected_token :: "string option \<Rightarrow> string option \<Rightarrow> string" where
  "expected_token configured key_vault = or_else configured (or_else key_vault DEV_DEFAULT_TOKEN)"

definition unauthorized :: "string \<Rightarrow> vault_detail failure" where
  "unauthorized message = vault_error 401 message ''unauthorized'' None"

text \<open>str.partition at the first space; hmac.compare_digest refuses text beyond ASCII.\<close>

definition scheme_of :: "string \<Rightarrow> string" where "scheme_of h = takeWhile (\<lambda>c. c \<noteq> CHR '' '') h"

definition credential_of :: "string \<Rightarrow> string" where "credential_of h = drop (length (scheme_of h) + 1) h"

definition require_service_token :: "string \<Rightarrow> string option \<Rightarrow> vault_detail failure option" where
  "require_service_token expected authorization =
    (case authorization of
       None \<Rightarrow> Some (unauthorized ''missing Authorization header'')
     | Some h \<Rightarrow>
         (if h = [] then Some (unauthorized ''missing Authorization header'')
          else if py_lower (scheme_of h) \<noteq> ''bearer'' \<or> credential_of h = []
          then Some (unauthorized (''Authorization header must be '' @ CHR 0x27 # ''Bearer <token>'' @ [CHR 0x27]))
          else if \<not> is_ascii (credential_of h) \<or> \<not> is_ascii expected then Some (Crashed ''TypeError'')
          else if credential_of h \<noteq> expected then Some (unauthorized ''invalid token'')
          else None))"

definition authorised :: "string \<Rightarrow> string option \<Rightarrow> (vault_state \<Rightarrow> 'a vault_reply \<times> vault_state) \<Rightarrow> vault_state \<Rightarrow> 'a vault_reply \<times> vault_state" where
  "authorised expected authorization route st =
    (case require_service_token expected authorization of Some x \<Rightarrow> (Inl x, st) | None \<Rightarrow> route st)"

section \<open>Every write, in any order\<close>

text \<open>Ids come from gen_random_uuid: no object, live or in the bookkeeping, has one already.\<close>

definition fresh_id :: "nat \<Rightarrow> vault_db \<Rightarrow> bool" where
  "fresh_id i db \<longleftrightarrow> i \<notin> vr_id ` set (vd_rows db) \<and> i \<notin> tx_object ` set (vd_tax db) \<and> i \<notin> rp_object ` set (vd_ret db) \<and>
    i \<notin> lk_object ` set (vd_links db)"

text \<open>The services around the vault may behave differently at each step; a SELECT returns its rows
in some order.\<close>

definition picks :: "vault_env \<Rightarrow> bool" where
  "picks env \<longleftrightarrow> (\<forall>rs. set (ve_pick env rs) = set rs \<and> length (ve_pick env rs) = length rs)"

inductive vault_step :: "vault_state \<Rightarrow> vault_state \<Rightarrow> bool" where
  step_create: "\<lbrakk>cfg \<in> set OBJECT_TYPES; cfg \<noteq> ASSETS; fresh_id i (vs_db st)\<rbrakk> \<Longrightarrow>
    vault_step st (snd (create_object env cfg p i now st))"
| step_create_asset: "fresh_id i (vs_db st) \<Longrightarrow> vault_step st (snd (create_asset_route env p i now st))"
| step_get: "cfg \<in> set OBJECT_TYPES \<Longrightarrow> vault_step st (snd (get_object cfg i caller now st))"
| step_get_asset: "vault_step st (snd (get_asset_route env i caller now st))"
| step_patch: "cfg \<in> set OBJECT_TYPES \<Longrightarrow> vault_step st (snd (patch_object env cfg i p now st))"
| step_delete: "cfg \<in> set OBJECT_TYPES \<Longrightarrow> vault_step st (snd (delete_object cfg i st))"
| step_sweep: "picks env \<Longrightarrow> vault_step st (snd (trigger_retention_expiry env run now later st))"
| step_rollup: "vault_step st (snd (run_utilisation_rollup env q now st))"
| step_card: "vault_step st (snd (create_option_card env p i now st))"
| step_decision: "vault_step st (st\<lparr>vs_db := (vs_db st)\<lparr>vd_decided := vd_decided (vs_db st) @ [d]\<rparr>\<rparr>)"

definition vault_run :: "vault_state \<Rightarrow> vault_state \<Rightarrow> bool" where
  "vault_run = vault_step\<^sup>*\<^sup>*"

end
