(* ===== verification/Vault_Inv.thy ===== *)
theory Vault_Inv
  imports Vault_Routes
begin

text \<open>What the writes of the vault do to its object tables, and what stays true of them. Each
write is a sequence of seven small changes; the invariants are proved for these.\<close>

named_theorems vault_simps \<open>the tables that an operation leaves alone\<close>

section \<open>The core tables\<close>

definition core :: "vault_db \<Rightarrow> vrow list \<times> tax_row list \<times> ret_row list \<times> link_row list \<times> card_row list" where
  "core db = (vd_rows db, vd_tax db, vd_ret db, vd_links db, vd_cards db)"

lemma core_eq: "core a = core b \<longleftrightarrow> vd_rows a = vd_rows b \<and> vd_tax a = vd_tax b \<and> vd_ret a = vd_ret b \<and>
    vd_links a = vd_links b \<and> vd_cards a = vd_cards b"
  by (simp add: core_def)

lemma core_audit [vault_simps]: "core (write_audit a db) = core db"
  by (simp add: core_def write_audit_def)

lemma core_audits [vault_simps]: "core (fold write_audit as db) = core db"
  by (induction as arbitrary: db) (simp_all add: core_audit)

lemma core_frames [vault_simps]:
  "core (record_access t i c now db) = core db" "core (open_run run now db) = core db"
  "core (close_run run n now db) = core db" "core (purge_access_log now db) = core db"
  "core (snd (run_rollup day db)) = core db"
  by (simp_all add: core_def record_access_def open_run_def close_run_def purge_access_log_def run_rollup_def Let_def)

lemma row_at_iff:
  assumes "distinct (map (\<lambda>r. (vr_table r, vr_id r)) (vd_rows db))"
  shows "row_at t i db = Some r \<longleftrightarrow> r \<in> set (vd_rows db) \<and> vr_table r = t \<and> vr_id r = i"
proof
  assume "row_at t i db = Some r"
  then show "r \<in> set (vd_rows db) \<and> vr_table r = t \<and> vr_id r = i"
    by (auto simp: row_at_def find_Some_iff)
next
  assume r: "r \<in> set (vd_rows db) \<and> vr_table r = t \<and> vr_id r = i"
  then have "row_at t i db \<noteq> None" by (auto simp: row_at_def find_None_iff)
  then obtain r' where r': "row_at t i db = Some r'" by blast
  then have "r' \<in> set (vd_rows db)" "vr_table r' = t" "vr_id r' = i" by (auto simp: row_at_def find_Some_iff)
  with r assms have "r' = r" by (auto dest: inj_onD[of _ _ r' r] simp: distinct_map)
  with r' show "row_at t i db = Some r" by simp
qed

lemma row_at_None: "row_at t i db = None \<longleftrightarrow> \<not> present db (t, i)"
  by (auto simp: row_at_def present_def find_None_iff)

section \<open>Types of cells and rows\<close>

fun cell_typed :: "string \<Rightarrow> field_spec \<Rightarrow> cell \<Rightarrow> bool" where
  "cell_typed table f C_Null \<longleftrightarrow> fs_name f \<notin> set (listed NOT_NULL table)"
| "cell_typed table f (C_Uuid u) \<longleftrightarrow> fs_type f = S_uuid"
| "cell_typed table f (C_Time i) \<longleftrightarrow> fs_type f = S_timestamptz"
| "cell_typed table f (C_Json v) \<longleftrightarrow> v \<noteq> JNull \<and>
    (case fs_type f of
       S_text \<Rightarrow> (\<exists>s. v = JStr s)
     | S_enum \<Rightarrow> (\<exists>s\<in>set (listed ENUMS (table, fs_name f)). v = JStr s)
     | S_uuid \<Rightarrow> False | S_timestamptz \<Rightarrow> False | _ \<Rightarrow> True)"

definition row_typed :: "object_config \<Rightarrow> vrow \<Rightarrow> bool" where
  "row_typed cfg row \<longleftrightarrow> vr_table row = oc_name cfg \<and>
    list_all2 (\<lambda>f kc. fst kc = fs_name f \<and> cell_typed (oc_name cfg) f (snd kc)) (oc_fields cfg) (vr_cells row) \<and>
    (vr_campaign row \<noteq> None \<longleftrightarrow> oc_campaign cfg) \<and> (vr_updated row \<noteq> None \<longleftrightarrow> oc_updated cfg)"

section \<open>Small changes\<close>

inductive db_change :: "vault_db \<Rightarrow> vault_db \<Rightarrow> bool" where
  ch_idle: "core db' = core db \<Longrightarrow> db_change db db'"
| ch_put: "\<lbrakk>\<not> present db (vr_table row, vr_id row);
     \<forall>t\<in>set (vd_tax db). (tx_table t, tx_object t) \<noteq> (vr_table row, vr_id row);
     \<forall>t\<in>set (vd_ret db). (rp_table t, rp_object t) \<noteq> (vr_table row, vr_id row);
     tx_table tax = vr_table row; tx_object tax = vr_id row; rp_table ret = vr_table row; rp_object ret = vr_id row;
     rp_class ret = tx_class tax; rp_deleted ret = None; rp_expires ret = compute_expires_at (tx_class tax) (vr_created row);
     \<forall>k\<in>set ((''campaigns'', tx_campaign tax) # row_refs row). present db k \<or> k = (vr_table row, vr_id row);
     cfg \<in> set OBJECT_TYPES; row_typed cfg row;
     core db' = (vd_rows db @ [row], vd_tax db @ [tax], vd_ret db @ [ret], vd_links db, vd_cards db)\<rbrakk> \<Longrightarrow> db_change db db'"
| ch_set: "\<lbrakk>cfg \<in> set OBJECT_TYPES; \<forall>k c. map_of cells k = Some c \<longrightarrow> (\<exists>f\<in>set (oc_fields cfg). fs_name f = k \<and> fs_patchable f \<and> cell_typed (oc_name cfg) f c);
     db' = db\<lparr>vd_rows := update_where (\<lambda>r. vr_table r = oc_name cfg \<and> vr_id r = i) (set_cells cfg cells now) (vd_rows db)\<rparr>\<rbrakk>
     \<Longrightarrow> db_change db db'"
| ch_link: "present db (''consent_register'', c) \<Longrightarrow> db_change db (link_consent table i c db)"
| ch_drop: "delete_row table i db = Inr db' \<Longrightarrow> db_change db db'"
| ch_mark: "\<not> present db (table, i) \<Longrightarrow> db_change db (mark_deleted table i now db)"
| ch_card: "\<lbrakk>\<forall>r. oq_run row = Some r \<longrightarrow> present db (''agent_runs'', r);
     db' = db\<lparr>vd_cards := vd_cards db @ [row]\<rparr>\<rbrakk> \<Longrightarrow> db_change db db'"

abbreviation db_changes :: "vault_db \<Rightarrow> vault_db \<Rightarrow> bool" where
  "db_changes \<equiv> db_change\<^sup>*\<^sup>*"

lemma idle_changes: "core db' = core db \<Longrightarrow> db_changes db db'"
  by (blast intro: ch_idle)

section \<open>Creation\<close>

lemma cast_fields_names: "cast_fields env p fs = Inr cells \<Longrightarrow> map fst cells = map fs_name fs"
  by (induction fs arbitrary: cells) (auto split: sum.splits)

lemma cast_typed:
  assumes "cast_for_asyncpg env (fs_type f) v = Inr c" "column_ok env table f c"
  shows "cell_typed table f c"
  using assms by (cases "fs_type f"; cases v) (auto split: option.splits simp: list.set)

lemma cast_fields_typed:
  assumes "cast_fields env p fs = Inr cells" "distinct (map fs_name fs)"
      and "\<forall>f\<in>set fs. column_ok env table f (the (map_of cells (fs_name f)))"
  shows "list_all2 (\<lambda>f kc. fst kc = fs_name f \<and> cell_typed table f (snd kc)) fs cells"
  using assms
proof (induction fs arbitrary: cells)
  case (Cons f fs)
  from Cons.prems(1) obtain c cs where c: "cells = (fs_name f, c) # cs" and cs: "cast_fields env p fs = Inr cs"
    and cast: "cast_for_asyncpg env (fs_type f) (case map_of p (fs_name f) of Some v \<Rightarrow> v | None \<Rightarrow> fs_default f) = Inr c"
    by (auto split: sum.splits)
  have rest: "\<forall>g\<in>set fs. column_ok env table g (the (map_of cs (fs_name g)))"
  proof
    fix g assume g: "g \<in> set fs"
    moreover from Cons.prems(2) have "fs_name f \<notin> fs_name ` set fs" by simp
    ultimately have "fs_name g \<noteq> fs_name f" by (metis image_eqI)
    with Cons.prems(3) g c show "column_ok env table g (the (map_of cs (fs_name g)))" by force
  qed
  have "column_ok env table f c" using Cons.prems(3) c by simp
  with cast have "cell_typed table f c" by (rule cast_typed)
  with Cons.IH[OF cs _ rest] Cons.prems(2) c show ?case by simp
qed simp

lemma config_names_distinct: "cfg \<in> set OBJECT_TYPES \<Longrightarrow> distinct (map fs_name (oc_fields cfg))"
  by (auto simp: OBJECT_TYPES_def ASSETS_def config_def spec_def)

lemma configs_distinct: "cfg \<in> set OBJECT_TYPES \<Longrightarrow> cfg' \<in> set OBJECT_TYPES \<Longrightarrow> oc_name cfg = oc_name cfg' \<Longrightarrow> cfg = cfg'"
proof -
  have "distinct (map oc_name OBJECT_TYPES)" by (simp add: OBJECT_TYPES_def ASSETS_def config_def)
  then show "cfg \<in> set OBJECT_TYPES \<Longrightarrow> cfg' \<in> set OBJECT_TYPES \<Longrightarrow> oc_name cfg = oc_name cfg' \<Longrightarrow> cfg = cfg'"
    by (auto simp: distinct_map dest: inj_onD)
qed

text \<open>What a successful insert adds.\<close>

lemma insert_object_put:
  assumes "insert_object env cfg p blob i now db = Inr db'"
  obtains row tax ret campaign cells where
    "py_uuid (str_of (ve_str env) (value_at p ''campaign'')) = Some campaign"
    "cast_fields env p (oc_fields cfg) = Inr cells"
    "\<forall>f\<in>set (oc_fields cfg). column_ok env (oc_name cfg) f (the (map_of cells (fs_name f)))"
    "row = \<lparr>vr_table = oc_name cfg, vr_id = i, vr_campaign = (if oc_campaign cfg then Some campaign else None),
       vr_cells = cells, vr_blob = blob, vr_created = now, vr_updated = (if oc_updated cfg then Some now else None)\<rparr>"
    "tx_table tax = oc_name cfg" "tx_object tax = i" "tx_campaign tax = campaign"
    "Some (tx_vertical tax) = text_at env p ''vertical''" "Some (tx_function tax) = text_at env p ''function_id''"
    "Some (tx_grade tax) = text_at env p ''evidence_grade''" "Some (tx_consent tax) = text_at env p ''consent_status''"
    "Some (tx_class tax) = text_at env p ''retention_class''"
    "ret = \<lparr>rp_table = oc_name cfg, rp_object = i, rp_class = tx_class tax, rp_expires = compute_expires_at (tx_class tax) now, rp_deleted = None\<rparr>"
    "constraint_error row db = None"
    "\<forall>k\<in>set ((''campaigns'', campaign) # row_refs row). present db k \<or> k = (oc_name cfg, i)"
    "db' = db\<lparr>vd_rows := vd_rows db @ [row], vd_tax := vd_tax db @ [tax], vd_ret := vd_ret db @ [ret]\<rparr>"
proof -
  obtain campaign where c: "py_uuid (str_of (ve_str env) (value_at p ''campaign'')) = Some campaign"
    using assms by (cases "py_uuid (str_of (ve_str env) (value_at p ''campaign''))") (simp_all add: insert_object_def)
  obtain cells where cells: "cast_fields env p (oc_fields cfg) = Inr cells"
    using assms c by (cases "cast_fields env p (oc_fields cfg)") (simp_all add: insert_object_def)
  obtain v where v: "text_at env p ''vertical'' = Some v"
    using assms c cells by (cases "text_at env p ''vertical''") (simp_all add: insert_object_def del: text_at.simps)
  obtain fn where fn: "text_at env p ''function_id'' = Some fn"
    using assms c cells v by (cases "text_at env p ''function_id''") (simp_all add: insert_object_def del: text_at.simps)
  obtain g where g: "text_at env p ''evidence_grade'' = Some g"
    using assms c cells v fn by (cases "text_at env p ''evidence_grade''") (simp_all add: insert_object_def del: text_at.simps)
  obtain co where co: "text_at env p ''consent_status'' = Some co"
    using assms c cells v fn g by (cases "text_at env p ''consent_status''") (simp_all add: insert_object_def del: text_at.simps)
  obtain cls where cls: "text_at env p ''retention_class'' = Some cls"
    using assms c cells v fn g co by (cases "text_at env p ''retention_class''") (simp_all add: insert_object_def del: text_at.simps)
  define row where "row = \<lparr>vr_table = oc_name cfg, vr_id = i, vr_campaign = (if oc_campaign cfg then Some campaign else None),
       vr_cells = cells, vr_blob = blob, vr_created = now, vr_updated = (if oc_updated cfg then Some now else None)\<rparr>"
  define tax where "tax = \<lparr>tx_table = oc_name cfg, tx_object = i, tx_vertical = v, tx_function = fn,
       tx_campaign = campaign, tx_grade = g, tx_consent = co, tx_class = cls\<rparr>"
  define ret where "ret = \<lparr>rp_table = oc_name cfg, rp_object = i, rp_class = cls, rp_expires = compute_expires_at cls now, rp_deleted = None\<rparr>"
  have eq: "(if \<exists>f\<in>set (oc_fields cfg). \<not> column_ok env (oc_name cfg) f (the (map_of cells (fs_name f))) then Inl (Crashed ''DataError'')
      else if constraint_error row db \<noteq> None then Inl (Crashed (the (constraint_error row db)))
      else if \<exists>k\<in>set ((''campaigns'', campaign) # row_refs row). \<not> present db k \<and> k \<noteq> (oc_name cfg, i)
      then Inl (vault_error 422 ''referenced id does not exist'' ''fk_violation'' None)
      else Inr (db\<lparr>vd_rows := vd_rows db @ [row], vd_tax := vd_tax db @ [tax], vd_ret := vd_ret db @ [ret]\<rparr>)) = Inr db'"
    using assms unfolding insert_object_def Let_def c cells v fn g co cls row_def tax_def ret_def
    by (simp only: option.case sum.case prod.case)
  show thesis
    by (rule that[of campaign cells row tax ret])
       (use eq c cells v fn g co cls in \<open>auto simp: row_def tax_def ret_def split: if_splits\<close>)
qed

lemma constraint_free:
  assumes "constraint_error row db = None"
  shows "\<not> present db (vr_table row, vr_id row)"
    "\<forall>t\<in>set (vd_tax db). (tx_table t, tx_object t) \<noteq> (vr_table row, vr_id row)"
    "\<forall>t\<in>set (vd_ret db). (rp_table t, rp_object t) \<noteq> (vr_table row, vr_id row)"
  using assms by (auto simp: constraint_error_def split: if_splits)

lemma insert_object_change:
  assumes "insert_object env cfg p blob i now db = Inr db'" and cfg: "cfg \<in> set OBJECT_TYPES"
  shows "db_change db db'"
proof -
  obtain row tax ret campaign cells where
    "cast_fields env p (oc_fields cfg) = Inr cells"
    "\<forall>f\<in>set (oc_fields cfg). column_ok env (oc_name cfg) f (the (map_of cells (fs_name f)))"
    and row: "row = \<lparr>vr_table = oc_name cfg, vr_id = i, vr_campaign = (if oc_campaign cfg then Some campaign else None),
       vr_cells = cells, vr_blob = blob, vr_created = now, vr_updated = (if oc_updated cfg then Some now else None)\<rparr>"
    and tax: "tx_table tax = oc_name cfg" "tx_object tax = i" "tx_campaign tax = campaign"
    and ret: "ret = \<lparr>rp_table = oc_name cfg, rp_object = i, rp_class = tx_class tax, rp_expires = compute_expires_at (tx_class tax) now, rp_deleted = None\<rparr>"
    and free: "constraint_error row db = None"
    and refs: "\<forall>k\<in>set ((''campaigns'', campaign) # row_refs row). present db k \<or> k = (oc_name cfg, i)"
    and db': "db' = db\<lparr>vd_rows := vd_rows db @ [row], vd_tax := vd_tax db @ [tax], vd_ret := vd_ret db @ [ret]\<rparr>"
    by (rule insert_object_put[OF assms(1)])
  with cast_fields_typed config_names_distinct[OF cfg] have "row_typed cfg row" by (auto simp: row_typed_def)
  with constraint_free[OF free] row tax ret refs cfg db' show ?thesis
    by (intro ch_put[of db row tax ret cfg]) (simp_all add: core_def)
qed

lemma active_consent:
  assumes "find_active_consent s c q db = Some i"
  shows "\<exists>r\<in>set (vd_rows db). vr_table r = ''consent_register'' \<and> vr_id r = i \<and>
    cell_is r ''data_subject_ref'' (C_Json (JStr s)) \<and> cell_is r ''channel'' (C_Json (JStr c)) \<and>
    cell_is r ''purpose'' (C_Json (JStr q)) \<and> cell_is r ''revoked_at'' C_Null"
  using assms by (auto simp: find_active_consent_def dest!: first_by_mem)

lemma gate_consent:
  assumes "handle_consent_gate env table p db = Inr (Some i)"
  obtains s c q where "text_at env p ''data_subject_ref'' = Some s" "text_at env p ''consent_channel'' = Some c"
    "text_at env p ''consent_purpose'' = Some q" "find_active_consent s c q db = Some i"
  using assms by (auto simp: handle_consent_gate_def simp del: text_at.simps split: if_splits option.splits)

lemma present_of_consent: "find_active_consent s c q db = Some i \<Longrightarrow> present db (''consent_register'', i)"
  by (drule active_consent) (force simp: present_def)

lemma create_checks_gate: "create_checks env cfg p db = Inr x \<Longrightarrow> handle_consent_gate env (oc_name cfg) p db = Inr x"
  by (simp add: create_checks_def split: option.splits)

lemma commit_object_changes:
  assumes "create_checks env cfg p db = Inr consent" "commit_object env cfg p blob consent i now db = Inr db'" "cfg \<in> set OBJECT_TYPES"
  shows "db_changes db db'"
proof -
  obtain db1 where ins: "insert_object env cfg p blob i now db = Inr db1"
    and db': "db' = (case consent of Some c \<Rightarrow> link_consent (oc_name cfg) i c db1 | None \<Rightarrow> db1)"
    using assms(2) by (auto simp: commit_object_def split: sum.splits)
  from insert_object_change[OF ins assms(3)] have step: "db_changes db db1" by blast
  show ?thesis
  proof (cases consent)
    case (Some c)
    with create_checks_gate[OF assms(1)] have "present db (''consent_register'', c)"
      by (metis gate_consent present_of_consent)
    with ins have "present db1 (''consent_register'', c)" by (auto elim!: insert_object_put simp: present_def)
    with Some db' step show ?thesis by (auto intro: rtranclp.rtrancl_into_rtrancl ch_link)
  qed (use db' step in simp)
qed

lemma isolated_core [vault_simps]: "core (vs_db (isolated as st)) = core (vs_db st)"
  by (simp add: isolated_def core_audits)

lemma create_object_changes: "cfg \<in> set OBJECT_TYPES \<Longrightarrow> db_changes (vs_db st) (vs_db (snd (create_object env cfg p i now st)))"
  by (auto simp: create_object_def vault_simps intro: idle_changes commit_object_changes split: sum.splits)

lemma create_asset_changes: "db_changes (vs_db st) (vs_db (snd (create_asset_route env p i now st)))"
proof -
  have "ASSETS \<in> set OBJECT_TYPES" by (simp add: OBJECT_TYPES_def)
  then show ?thesis
    by (auto simp: create_asset_route_def vault_simps intro: idle_changes commit_object_changes split: sum.splits option.splits)
qed

section \<open>The other writes\<close>

lemma cast_fields_map_of:
  assumes "cast_fields env p fs = Inr cells" "map_of cells k = Some c"
  shows "\<exists>f\<in>set fs. fs_name f = k \<and>
    cast_for_asyncpg env (fs_type f) (case map_of p (fs_name f) of Some v \<Rightarrow> v | None \<Rightarrow> fs_default f) = Inr c"
  using assms by (induction fs arbitrary: cells) (auto split: sum.splits if_splits)

lemma in_map_filter: "x \<in> set (List.map_filter f xs) \<longleftrightarrow> (\<exists>y\<in>set xs. f y = Some x)"
  by (force simp: List.map_filter_def)

lemma find_SomeD: "List.find P xs = Some x \<Longrightarrow> x \<in> set xs \<and> P x"
  by (auto simp: find_Some_iff)

lemma patch_fields_mem: "f \<in> set (patch_fields cfg p) \<Longrightarrow> f \<in> set (oc_fields cfg) \<and> fs_patchable f"
  unfolding patch_fields_def in_map_filter by (auto dest: find_SomeD)

lemma update_object_change:
  assumes "update_object env cfg i p now db = Inr (v, db')" "cfg \<in> set OBJECT_TYPES"
  shows "db_changes db db'"
proof (cases "db' = db")
  case False
  with assms(1) obtain cells where c: "cast_fields env p (patch_fields cfg p) = Inr cells"
    and ok: "\<forall>f\<in>set (patch_fields cfg p). column_ok env (oc_name cfg) f (the (map_of cells (fs_name f)))"
    and db': "db' = db\<lparr>vd_rows := update_where (\<lambda>r. vr_table r = oc_name cfg \<and> vr_id r = i) (set_cells cfg cells now) (vd_rows db)\<rparr>"
    by (auto simp: update_object_def Let_def split: option.splits sum.splits if_splits)
  have "\<exists>f\<in>set (oc_fields cfg). fs_name f = k \<and> fs_patchable f \<and> cell_typed (oc_name cfg) f d" if "map_of cells k = Some d" for k d
    using cast_fields_map_of[OF c that] ok patch_fields_mem cast_typed that by fastforce
  with ch_set[OF assms(2)] db' have "db_change db db'" by blast
  then show ?thesis by blast
qed simp

lemma patch_object_changes: "cfg \<in> set OBJECT_TYPES \<Longrightarrow> db_changes (vs_db st) (vs_db (snd (patch_object env cfg i p now st)))"
  using update_object_change by (auto simp: patch_object_def split: sum.splits option.splits)

lemma delete_object_changes: "db_changes (vs_db st) (vs_db (snd (delete_object cfg i st)))"
  by (auto simp: delete_object_def intro: ch_drop split: sum.splits)

lemma get_changes:
  "core (vs_db (snd (get_object cfg i caller now st))) = core (vs_db st)"
  "core (vs_db (snd (get_asset_route env i caller now st))) = core (vs_db st)"
  by (simp_all add: get_object_def get_asset_route_def vault_simps split: option.splits sum.splits prod.splits)

lemma present_core: "core db = core db' \<Longrightarrow> present db = present db'"
  by (rule ext) (simp add: present_def core_eq)

lemma delete_row_absent: "delete_row table i db = Inr db' \<Longrightarrow> \<not> present db' (table, i)"
  by (auto simp: delete_row_def present_def drop_row_def split: if_splits)

lemma sweep_row_changes:
  assumes "sweep_row env now r b = Inr b'"
  shows "db_changes (bt_db b) (bt_db b')"
proof -
  have erase: "db_changes db (write_audit a (mark_deleted t i now db1))" if "delete_row t i db = Inr db1" for a t i db db1
  proof -
    from that have "db_change db db1" by (rule ch_drop)
    moreover from that have "db_change db1 (mark_deleted t i now db1)" by (intro ch_mark delete_row_absent)
    moreover have "db_change (mark_deleted t i now db1) (write_audit a (mark_deleted t i now db1))"
      by (rule ch_idle) (simp add: vault_simps)
    ultimately show ?thesis by (blast intro: converse_rtranclp_into_rtranclp)
  qed
  from assms show ?thesis
    by (auto simp: sweep_row_def Let_def vault_simps split: if_splits option.splits sum.splits intro: erase idle_changes)
qed

lemma sweep_rows_changes: "db_changes (bt_db b) (bt_db (snd (sweep_rows env now rs b)))"
proof (induction rs arbitrary: b)
  case (Cons r rs)
  show ?case
  proof (cases "sweep_row env now r b")
    case (Inl x)
    have "bt_db (raised_row env r b) = bt_db b" by (simp add: raised_row_def split: option.splits)
    with Inl show ?thesis by simp
  next
    case (Inr b')
    with Cons.IH sweep_row_changes[OF Inr] show ?thesis by (auto intro: rtranclp_trans)
  qed
qed simp

lemma changes_core: "db_changes a b \<Longrightarrow> core a' = core a \<Longrightarrow> core b' = core b \<Longrightarrow> db_changes a' b'"
  by (metis ch_idle converse_rtranclp_into_rtranclp rtranclp.rtrancl_into_rtrancl)

lemma run_expiry_changes: "db_changes (vs_db st) (vs_db (snd (run_retention_expiry env run now later st)))"
proof -
  let ?db = "open_run run now (vs_db st)"
  let ?b = "\<lparr>bt_db = ?db, bt_blobs = vs_blobs st, bt_isolated = [], bt_deleted = 0, bt_failed = 0\<rparr>"
  obtain err b where b: "sweep_rows env now (ve_pick env (expired now ?db)) ?b = (err, b)" by force
  with sweep_rows_changes[of ?b env now "ve_pick env (expired now ?db)"] have "db_changes ?db (bt_db b)" by simp
  with b show ?thesis
    by (cases err) (auto simp: run_retention_expiry_def Let_def vault_simps intro: idle_changes elim: changes_core)
qed

lemma trigger_state: "snd (trigger_retention_expiry env run now later st) = snd (run_retention_expiry env run now later st)"
  by (simp add: trigger_retention_expiry_def split: prod.splits sum.splits option.splits)

lemma rollup_changes: "core (vs_db (snd (run_utilisation_rollup env q now st))) = core (vs_db st)"
  by (auto simp: run_utilisation_rollup_def Let_def core_frames split: json.splits option.splits prod.splits)
     (metis core_frames(5) snd_conv)+

lemma card_changes: "db_changes (vs_db st) (vs_db (snd (create_option_card env p i now st)))"
  by (auto simp: create_option_card_def insert_card_def Let_def split: sum.splits if_splits option.splits
      intro!: r_into_rtranclp ch_card)

theorem vault_step_changes: "vault_step st st' \<Longrightarrow> db_changes (vs_db st) (vs_db st')"
  by (induction rule: vault_step.induct)
     (simp_all add: create_object_changes create_asset_changes patch_object_changes delete_object_changes
        trigger_state run_expiry_changes card_changes idle_changes[OF get_changes(1)] idle_changes[OF get_changes(2)]
        idle_changes[OF rollup_changes] idle_changes core_def)

corollary vault_run_changes: "vault_run st st' \<Longrightarrow> db_changes (vs_db st) (vs_db st')"
  unfolding vault_run_def by (induction rule: rtranclp_induct) (auto dest: vault_step_changes)

end
