(* ===== verification/Vault_Props.thy ===== *)
theory Vault_Props
  imports Vault_Inv
begin

text \<open>What stays true of the vault whatever is written, and what a sweep does to it.\<close>

section \<open>The invariant of the tables\<close>

abbreviation row_keys :: "vault_db \<Rightarrow> (string \<times> nat) list" where
  "row_keys db \<equiv> map (\<lambda>r. (vr_table r, vr_id r)) (vd_rows db)"

abbreviation tax_keys :: "vault_db \<Rightarrow> (string \<times> nat) list" where
  "tax_keys db \<equiv> map (\<lambda>t. (tx_table t, tx_object t)) (vd_tax db)"

abbreviation ret_keys :: "vault_db \<Rightarrow> (string \<times> nat) list" where
  "ret_keys db \<equiv> map (\<lambda>t. (rp_table t, rp_object t)) (vd_ret db)"

definition keyed :: "vault_db \<Rightarrow> bool" where
  "keyed db \<longleftrightarrow> distinct (row_keys db) \<and> distinct (tax_keys db) \<and> distinct (ret_keys db) \<and>
    set (row_keys db) \<subseteq> set (tax_keys db) \<and> set (row_keys db) \<subseteq> set (ret_keys db)"

definition closed_refs :: "vault_db \<Rightarrow> bool" where
  "closed_refs db \<longleftrightarrow> (\<forall>r\<in>set (vd_rows db). \<forall>k\<in>set (row_refs r). present db k) \<and>
    (\<forall>t\<in>set (vd_tax db). present db (''campaigns'', tx_campaign t)) \<and>
    (\<forall>l\<in>set (vd_links db). present db (''consent_register'', lk_consent l)) \<and>
    (\<forall>c\<in>set (vd_cards db). \<forall>r. oq_run c = Some r \<longrightarrow> present db (''agent_runs'', r))"

definition retention_ok :: "vault_db \<Rightarrow> bool" where
  "retention_ok db \<longleftrightarrow>
    (\<forall>p\<in>set (vd_ret db). rp_deleted p \<noteq> None \<longrightarrow> \<not> present db (rp_table p, rp_object p)) \<and>
    (\<forall>p\<in>set (vd_ret db). \<exists>t\<in>set (vd_tax db). (tx_table t, tx_object t) = (rp_table p, rp_object p) \<and> tx_class t = rp_class p)"

definition vault_wf :: "vault_db \<Rightarrow> bool" where
  "vault_wf db \<longleftrightarrow> keyed db \<and> closed_refs db \<and> retention_ok db"

lemma present_keys: "present db k \<longleftrightarrow> k \<in> set (row_keys db)"
  by (auto simp: present_def)

text \<open>The change of a PATCH.\<close>

lemma map_of_set:
  "map_of (map (\<lambda>(k, c). (k, case map_of cells k of Some d \<Rightarrow> d | None \<Rightarrow> c)) xs) col =
    map_option (\<lambda>c. case map_of cells col of Some d \<Rightarrow> d | None \<Rightarrow> c) (map_of xs col)"
  by (induction xs) (auto split: option.split)

lemma map_filter_cong: "(\<And>x. x \<in> set xs \<Longrightarrow> f x = g x) \<Longrightarrow> List.map_filter f xs = List.map_filter g xs"
  by (induction xs) (auto simp: List.map_filter_def)

lemma set_cells_simps [simp]:
  "vr_table (set_cells cfg cells now r) = vr_table r" "vr_id (set_cells cfg cells now r) = vr_id r"
  "vr_campaign (set_cells cfg cells now r) = vr_campaign r" "vr_blob (set_cells cfg cells now r) = vr_blob r"
  "vr_created (set_cells cfg cells now r) = vr_created r"
  by (simp_all add: set_cells_def)

lemma refs_not_patchable:
  "cfg \<in> set OBJECT_TYPES \<Longrightarrow> f \<in> set (oc_fields cfg) \<Longrightarrow> fs_patchable f \<Longrightarrow>
    fs_name f \<notin> fst ` set (listed FKS (oc_name cfg))"
proof -
  have "list_all (\<lambda>cfg. list_all (\<lambda>f. \<not> fs_patchable f \<or> fs_name f \<notin> fst ` set (listed FKS (oc_name cfg))) (oc_fields cfg)) OBJECT_TYPES"
    by code_simp
  then show "cfg \<in> set OBJECT_TYPES \<Longrightarrow> f \<in> set (oc_fields cfg) \<Longrightarrow> fs_patchable f \<Longrightarrow> fs_name f \<notin> fst ` set (listed FKS (oc_name cfg))"
    by (auto simp: list_all_iff)
qed

lemma set_cells_refs:
  assumes "cfg \<in> set OBJECT_TYPES" "vr_table r = oc_name cfg"
      and "\<forall>k c. map_of cells k = Some c \<longrightarrow> (\<exists>f\<in>set (oc_fields cfg). fs_name f = k \<and> fs_patchable f \<and> cell_typed (oc_name cfg) f c)"
  shows "row_refs (set_cells cfg cells now r) = row_refs r"
proof -
  have "map_of (vr_cells (set_cells cfg cells now r)) col = map_of (vr_cells r) col"
    if "(col, t) \<in> set (listed FKS (oc_name cfg))" for col t
  proof -
    have "map_of cells col = None"
      using assms(3) refs_not_patchable[OF assms(1)] that by (metis fst_conv image_eqI not_None_eq)
    then show ?thesis by (simp add: set_cells_def map_of_set option.map_ident)
  qed
  then have "List.map_filter (\<lambda>(col, target). case map_of (vr_cells (set_cells cfg cells now r)) col of Some (C_Uuid u) \<Rightarrow> Some (target, u) | _ \<Rightarrow> None) (listed FKS (oc_name cfg)) =
      List.map_filter (\<lambda>(col, target). case map_of (vr_cells r) col of Some (C_Uuid u) \<Rightarrow> Some (target, u) | _ \<Rightarrow> None) (listed FKS (oc_name cfg))"
    by (intro map_filter_cong) auto
  with assms(2) show ?thesis by (simp add: row_refs_def)
qed

text \<open>The rows after a PATCH: the same keys.\<close>

lemma present_update: "(\<And>r. vr_table (f r) = vr_table r \<and> vr_id (f r) = vr_id r) \<Longrightarrow>
    present (db\<lparr>vd_rows := update_where P f (vd_rows db)\<rparr>) = present db"
  by (rule ext) (simp only: present_keys, simp add: map_update_where)

text \<open>What refers to a row.\<close>

lemma referenced_by_row: "r \<in> set (vd_rows db) \<Longrightarrow> (vr_table r, vr_id r) \<noteq> k \<Longrightarrow> k \<in> set (row_refs r) \<Longrightarrow> referenced db k"
  unfolding referenced_def by blast

lemma referenced_by_tax: "t \<in> set (vd_tax db) \<Longrightarrow> referenced db (''campaigns'', tx_campaign t)"
  unfolding referenced_def fst_conv snd_conv by blast

lemma referenced_by_link: "l \<in> set (vd_links db) \<Longrightarrow> referenced db (''consent_register'', lk_consent l)"
  unfolding referenced_def fst_conv snd_conv by blast

lemma referenced_by_card: "c \<in> set (vd_cards db) \<Longrightarrow> oq_run c = Some r \<Longrightarrow> referenced db (''agent_runs'', r)"
  unfolding referenced_def fst_conv snd_conv by blast

text \<open>The rows after a DELETE.\<close>

lemma deleted_row:
  assumes "delete_row table i db = Inr db'"
  shows "db' = drop_row table i db" "row_keys db' = filter (\<lambda>k. k \<noteq> (table, i)) (row_keys db)"
    "present db (table, i) \<Longrightarrow> \<not> referenced db (table, i)"
proof -
  show db': "db' = drop_row table i db" using assms by (simp add: delete_row_def split: if_splits)
  have "map g (filter (\<lambda>r. \<not> (g r = k)) xs) = filter (\<lambda>x. x \<noteq> k) (map g xs)" for g :: "vrow \<Rightarrow> string \<times> nat" and k xs
    by (simp add: filter_map comp_def)
  from this[of "\<lambda>r. (vr_table r, vr_id r)" "(table, i)"] db'
  show "row_keys db' = filter (\<lambda>k. k \<noteq> (table, i)) (row_keys db)" by (simp add: drop_row_def)
  show "present db (table, i) \<Longrightarrow> \<not> referenced db (table, i)" using assms by (simp add: delete_row_def split: if_splits)
qed

lemma drop_row_simps [simp]:
  "vd_tax (drop_row table i db) = vd_tax db" "vd_ret (drop_row table i db) = vd_ret db"
  "vd_links (drop_row table i db) = vd_links db" "vd_cards (drop_row table i db) = vd_cards db"
  "vd_audit (drop_row table i db) = vd_audit db"
  by (simp_all add: drop_row_def)

section \<open>The invariant is kept\<close>

lemma keyed_core: "core db' = core db \<Longrightarrow> keyed db' = keyed db"
  by (simp add: keyed_def core_eq)

lemma refs_core: "core db' = core db \<Longrightarrow> closed_refs db' = closed_refs db"
  by (simp add: closed_refs_def present_def core_eq)

lemma retention_core: "core db' = core db \<Longrightarrow> retention_ok db' = retention_ok db"
  by (simp add: retention_ok_def present_def core_eq)

lemma keyed_change: "db_change db db' \<Longrightarrow> keyed db \<Longrightarrow> keyed db'"
proof (induction rule: db_change.induct)
  case (ch_put db row tax ret cfg db')
  then have db': "vd_rows db' = vd_rows db @ [row]" "vd_tax db' = vd_tax db @ [tax]" "vd_ret db' = vd_ret db @ [ret]"
    by (simp_all add: core_def)
  from ch_put show ?case unfolding keyed_def db' by (auto simp: present_def)
next
  case (ch_set cfg cells db' i now db)
  then show ?case by (simp add: keyed_def map_update_where)
next
  case (ch_drop table i db db')
  note gone = deleted_row[OF ch_drop(1)]
  from ch_drop(2) show ?case unfolding keyed_def gone(2) by (auto simp: gone(1))
next
  case (ch_mark db table i now)
  then show ?case by (simp add: keyed_def mark_deleted_def map_update_where)
qed (simp_all add: keyed_def core_eq link_consent_def)


lemma present_mono:
  assumes "vd_rows db' = vd_rows db @ [row]"
  shows "present db' k \<longleftrightarrow> present db k \<or> k = (vr_table row, vr_id row)"
  using assms by (auto simp: present_def)

lemma refs_change: "db_change db db' \<Longrightarrow> keyed db \<Longrightarrow> closed_refs db \<Longrightarrow> closed_refs db'"
proof (induction rule: db_change.induct)
  case (ch_put db row tax ret cfg db')
  then have db': "vd_rows db' = vd_rows db @ [row]" "vd_tax db' = vd_tax db @ [tax]"
    "vd_links db' = vd_links db" "vd_cards db' = vd_cards db"
    by (simp_all add: core_def)
  note p = present_mono[OF db'(1)]
  from ch_put show ?case unfolding closed_refs_def p unfolding db' by auto
next
  case (ch_set cfg cells db' i now db)
  have p: "present db' = present db" unfolding ch_set(3) by (rule present_update) simp
  note same = set_cells_refs[OF ch_set(1) _ ch_set(2)]
  from ch_set(5) show ?case unfolding closed_refs_def p unfolding ch_set(3)
    by (auto simp: set_update_where same)
next
  case (ch_link db c table i)
  then show ?case by (auto simp: closed_refs_def link_consent_def present_def)
next
  case (ch_drop table i db db')
  note gone = deleted_row[OF ch_drop(1)]
  have p: "present db' k \<longleftrightarrow> present db k \<and> k \<noteq> (table, i)" for k
    unfolding present_keys gone(2) by auto
  have rows: "set (vd_rows db') = {r \<in> set (vd_rows db). (vr_table r, vr_id r) \<noteq> (table, i)}"
    by (auto simp: gone(1) drop_row_def)
  have other: "vd_tax db' = vd_tax db" "vd_links db' = vd_links db" "vd_cards db' = vd_cards db" by (simp_all add: gone(1))
  show ?case
  proof (cases "present db (table, i)")
    case True
    from gone(3)[OF True] have free: "\<not> referenced db (table, i)" .
    show ?thesis unfolding closed_refs_def p rows other
    proof (intro conjI)
      from ch_drop(3) have "\<forall>r\<in>set (vd_rows db). \<forall>k\<in>set (row_refs r). present db k" by (simp add: closed_refs_def)
      with free referenced_by_row show "\<forall>r\<in>{r \<in> set (vd_rows db). (vr_table r, vr_id r) \<noteq> (table, i)}. \<forall>k\<in>set (row_refs r). present db k \<and> k \<noteq> (table, i)"
        by blast
    next
      from ch_drop(3) have "\<forall>t\<in>set (vd_tax db). present db (''campaigns'', tx_campaign t)" by (simp add: closed_refs_def)
      with free referenced_by_tax show "\<forall>t\<in>set (vd_tax db). present db (''campaigns'', tx_campaign t) \<and> (''campaigns'', tx_campaign t) \<noteq> (table, i)"
        by metis
    next
      from ch_drop(3) have "\<forall>l\<in>set (vd_links db). present db (''consent_register'', lk_consent l)" by (simp add: closed_refs_def)
      with free referenced_by_link show "\<forall>l\<in>set (vd_links db). present db (''consent_register'', lk_consent l) \<and> (''consent_register'', lk_consent l) \<noteq> (table, i)"
        by metis
    next
      from ch_drop(3) have "\<forall>c\<in>set (vd_cards db). \<forall>r. oq_run c = Some r \<longrightarrow> present db (''agent_runs'', r)" by (simp add: closed_refs_def)
      with free referenced_by_card show "\<forall>c\<in>set (vd_cards db). \<forall>r. oq_run c = Some r \<longrightarrow> present db (''agent_runs'', r) \<and> (''agent_runs'', r) \<noteq> (table, i)"
        by metis
    qed
  next
    case False
    then have same: "present db' k \<longleftrightarrow> present db k" for k using p by auto
    from ch_drop(3) show ?thesis unfolding closed_refs_def same rows other by (intro conjI) auto
  qed
next
  case (ch_card row db db')
  then show ?case by (auto simp: closed_refs_def present_def)
qed (simp_all add: core_eq closed_refs_def present_def mark_deleted_def)


lemma retention_change: "db_change db db' \<Longrightarrow> keyed db \<Longrightarrow> retention_ok db \<Longrightarrow> retention_ok db'"
proof (induction rule: db_change.induct)
  case (ch_put db row tax ret cfg db')
  then have db': "vd_rows db' = vd_rows db @ [row]" "vd_tax db' = vd_tax db @ [tax]" "vd_ret db' = vd_ret db @ [ret]"
    by (simp_all add: core_def)
  note p = present_mono[OF db'(1)]
  from ch_put(3) ch_put.prems(2)
  have "\<forall>q\<in>set (vd_ret db). rp_deleted q \<noteq> None \<longrightarrow> \<not> (present db (rp_table q, rp_object q) \<or> (rp_table q, rp_object q) = (vr_table row, vr_id row))"
    by (simp add: retention_ok_def)
  moreover have "\<exists>t\<in>set (vd_tax db @ [tax]). (tx_table t, tx_object t) = (rp_table q, rp_object q) \<and> tx_class t = rp_class q"
    if "q \<in> set (vd_ret db @ [ret])" for q
  proof (cases "q = ret")
    case True
    with ch_put(4-8) show ?thesis by simp
  next
    case False
    with that have "q \<in> set (vd_ret db)" by simp
    with ch_put.prems(2) show ?thesis unfolding retention_ok_def by (metis Un_iff set_append)
  qed
  ultimately show ?case unfolding retention_ok_def p unfolding db' using ch_put(9) by simp
next
  case (ch_set cfg cells db' i now db)
  have p: "present db' = present db" unfolding ch_set(3) by (rule present_update) simp
  from ch_set(5) show ?case unfolding retention_ok_def p unfolding ch_set(3) by simp
next
  case (ch_drop table i db db')
  note gone = deleted_row[OF ch_drop(1)]
  have p: "present db' k \<longleftrightarrow> present db k \<and> k \<noteq> (table, i)" for k
    unfolding present_keys gone(2) by auto
  from ch_drop(3) show ?case unfolding retention_ok_def p by (simp add: gone(1))
next
  case (ch_mark db table i now)
  then show ?case
    by (auto simp: retention_ok_def mark_deleted_def set_update_where present_def)
qed (simp_all add: core_eq retention_ok_def present_def link_consent_def)

lemma wf_change: "db_change db db' \<Longrightarrow> vault_wf db \<Longrightarrow> vault_wf db'"
  by (simp add: vault_wf_def keyed_change refs_change retention_change)

lemma wf_changes: "db_changes db db' \<Longrightarrow> vault_wf db \<Longrightarrow> vault_wf db'"
  by (induction rule: rtranclp_induct) (auto dest: wf_change)

text \<open>C20: In every state that the routes, the sweep and the gatekeeper's decisions lead to, object ids
are unique per table, each object has its taxonomy and its retention row, the class of the two
agrees, an object marked deleted is gone, and no reference between tables dangles.\<close>

theorem vault_stays_consistent:
  assumes "vault_wf (vs_db st)" and "vault_run st st'"
  shows "vault_wf (vs_db st')"
  using wf_changes vault_run_changes assms by blast

section \<open>Types\<close>

definition rows_typed :: "vault_db \<Rightarrow> bool" where
  "rows_typed db \<longleftrightarrow> (\<forall>r\<in>set (vd_rows db). \<exists>cfg\<in>set OBJECT_TYPES. row_typed cfg r)"

lemma set_cells_typed:
  assumes "cfg \<in> set OBJECT_TYPES" "row_typed cfg r"
      and "\<forall>k c. map_of cells k = Some c \<longrightarrow> (\<exists>f\<in>set (oc_fields cfg). fs_name f = k \<and> fs_patchable f \<and> cell_typed (oc_name cfg) f c)"
  shows "row_typed cfg (set_cells cfg cells now r)"
proof -
  have new: "cell_typed (oc_name cfg) f d" if "map_of cells (fs_name f) = Some d" "f \<in> set (oc_fields cfg)" for f d
  proof -
    from assms(3) that(1) obtain g where g: "g \<in> set (oc_fields cfg)" "fs_name g = fs_name f" "cell_typed (oc_name cfg) g d" by blast
    with that(2) config_names_distinct[OF assms(1)] have "g = f" by (auto simp: distinct_map dest: inj_onD)
    with g show ?thesis by simp
  qed
  have "list_all2 (\<lambda>f kc. fst kc = fs_name f \<and> cell_typed (oc_name cfg) f (snd kc)) (oc_fields cfg)
      (map (\<lambda>(k, c). (k, case map_of cells k of Some d \<Rightarrow> d | None \<Rightarrow> c)) (vr_cells r))"
    unfolding list_all2_map2
  proof (rule list.rel_mono_strong)
    show "list_all2 (\<lambda>f kc. fst kc = fs_name f \<and> cell_typed (oc_name cfg) f (snd kc)) (oc_fields cfg) (vr_cells r)"
      using assms(2) by (simp add: row_typed_def)
  qed (use new in \<open>auto split: option.split\<close>)
  with assms(2) show ?thesis by (auto simp: row_typed_def set_cells_def)
qed

lemma typed_change: "db_change db db' \<Longrightarrow> rows_typed db \<Longrightarrow> rows_typed db'"
proof (induction rule: db_change.induct)
  case (ch_put db row tax ret cfg db')
  then show ?case by (auto simp: rows_typed_def core_def)
next
  case (ch_set cfg cells db' i now db)
  have "\<exists>c\<in>set OBJECT_TYPES. row_typed c (set_cells cfg cells now r)"
    if "r \<in> set (vd_rows db)" "vr_table r = oc_name cfg" for r
  proof -
    from ch_set(4) that(1) obtain c where c: "c \<in> set OBJECT_TYPES" "row_typed c r" by (auto simp: rows_typed_def)
    with that(2) have "c = cfg" using configs_distinct[OF ch_set(1) c(1)] by (simp add: row_typed_def)
    with set_cells_typed[OF ch_set(1) _ ch_set(2)] c ch_set(1) show ?thesis by blast
  qed
  with ch_set(4) show ?case unfolding ch_set(3) by (auto simp: rows_typed_def set_update_where)
next
  case (ch_drop table i db db')
  from deleted_row(1)[OF ch_drop(1)] ch_drop(2) show ?case by (auto simp: rows_typed_def drop_row_def)
qed (simp_all add: core_eq rows_typed_def link_consent_def mark_deleted_def)

text \<open>C26: Each stored row has exactly the columns of its object type, in order, each with a value of
the column's type: references are uuids, instants instants, enum columns one of their values,
required columns never null. No write, PATCH included, breaks this.\<close>

theorem stored_rows_are_typed:
  assumes "rows_typed (vs_db st)" and "vault_run st st'"
  shows "rows_typed (vs_db st')"
  using vault_run_changes[OF assms(2)] assms(1)
  by (induction rule: rtranclp_induct) (auto dest: typed_change)

end
