(* ===== verification/Vault_Sweep.thy ===== *)
theory Vault_Sweep
  imports Vault_Props
begin

text \<open>Bookkeeping that is never rewritten, and what a sweep removes, keeps and loses.\<close>

section \<open>Bookkeeping is permanent\<close>

definition ret_at :: "string \<Rightarrow> nat \<Rightarrow> vault_db \<Rightarrow> ret_row option" where
  "ret_at table i db = List.find (\<lambda>p. rp_table p = table \<and> rp_object p = i) (vd_ret db)"

lemma find_append_Some: "List.find P xs = Some x \<Longrightarrow> List.find P (xs @ ys) = Some x"
  by (induction xs) (auto split: if_splits)

lemma find_update: "(\<And>x. P (f x) = P x) \<Longrightarrow>
    List.find P (update_where Q f xs) = map_option (\<lambda>x. if Q x then f x else x) (List.find P xs)"
  by (induction xs) (auto simp: update_where_def)

definition same_retention :: "ret_row \<Rightarrow> ret_row \<Rightarrow> bool" where
  "same_retention p q \<longleftrightarrow> rp_table q = rp_table p \<and> rp_object q = rp_object p \<and> rp_class q = rp_class p \<and> rp_expires q = rp_expires p"

definition keeps_books :: "vault_db \<Rightarrow> vault_db \<Rightarrow> bool" where
  "keeps_books db db' \<longleftrightarrow> (\<forall>t i x. tax_at t i db = Some x \<longrightarrow> tax_at t i db' = Some x) \<and>
    (\<forall>t i p. ret_at t i db = Some p \<longrightarrow> (\<exists>q. ret_at t i db' = Some q \<and> same_retention p q)) \<and>
    set (vd_tax db) \<subseteq> set (vd_tax db')"

lemma same_retention_refl [simp]: "same_retention p p"
  by (simp add: same_retention_def)

lemma keeps_books_append: "vd_tax db' = vd_tax db @ ts \<Longrightarrow> vd_ret db' = vd_ret db @ ps \<Longrightarrow> keeps_books db db'"
  by (simp add: keeps_books_def tax_at_def ret_at_def find_append_Some)

lemma keeps_books_same: "vd_tax db' = vd_tax db \<Longrightarrow> vd_ret db' = vd_ret db \<Longrightarrow> keeps_books db db'"
  using keeps_books_append[of db' db "[]" "[]"] by simp

lemma keeps_books_trans:
  assumes "keeps_books a b" "keeps_books b c"
  shows "keeps_books a c"
proof -
  have "\<exists>q. ret_at t i c = Some q \<and> same_retention p q" if p: "ret_at t i a = Some p" for t i p
  proof -
    from assms(1) p obtain q where q: "ret_at t i b = Some q" "same_retention p q" unfolding keeps_books_def by blast
    from assms(2) q(1) obtain r where r: "ret_at t i c = Some r" "same_retention q r" unfolding keeps_books_def by blast
    from q(2) r(2) have "same_retention p r" by (simp add: same_retention_def)
    with r(1) show ?thesis by blast
  qed
  with assms show ?thesis unfolding keeps_books_def by blast
qed

lemma keeps_books_change: "db_change db db' \<Longrightarrow> keeps_books db db'"
proof (induction rule: db_change.induct)
  case (ch_put db row tax ret cfg db')
  then show ?case by (intro keeps_books_append[of db' db "[tax]" "[ret]"]) (simp_all add: core_def)
next
  case (ch_drop table i db db')
  from deleted_row(1)[OF ch_drop] show ?case by (intro keeps_books_same) simp_all
next
  case (ch_mark db table i now)
  then show ?case
    by (auto simp: keeps_books_def tax_at_def ret_at_def mark_deleted_def find_update same_retention_def)
qed (simp_all add: keeps_books_same core_eq link_consent_def)

lemma keeps_books_changes: "db_changes db db' \<Longrightarrow> keeps_books db db'"
  by (induction rule: rtranclp_induct) (auto intro: keeps_books_same keeps_books_trans keeps_books_change)

lemma permanent_changes:
  assumes "db_changes db db'"
  shows "tax_at t i db = Some x \<Longrightarrow> tax_at t i db' = Some x"
    "ret_at t i db = Some p \<Longrightarrow> \<exists>q. ret_at t i db' = Some q \<and> same_retention p q"
    "y \<in> set (vd_tax db) \<Longrightarrow> y \<in> set (vd_tax db')"
  using keeps_books_changes[OF assms] by (auto simp: keeps_books_def)

text \<open>The six taxonomy fields and the expiry of an object are never changed by any sequence of
writes, not even by the deletion of the object.\<close>

theorem bookkeeping_is_permanent:
  assumes "vault_run st st'" and "tax_at t i (vs_db st) = Some x" and "ret_at t i (vs_db st) = Some p"
  shows "tax_at t i (vs_db st') = Some x \<and>
    (\<exists>q. ret_at t i (vs_db st') = Some q \<and> rp_class q = rp_class p \<and> rp_expires q = rp_expires p)"
proof -
  have ch: "db_changes (vs_db st) (vs_db st')" by (rule vault_run_changes[OF assms(1)])
  from permanent_changes(1)[OF ch assms(2)] permanent_changes(2)[OF ch assms(3)] show ?thesis
    unfolding same_retention_def by blast
qed

section \<open>A sweep that raises\<close>

lemma sweep_row_raises: "sweep_row env now r b = Inl x \<Longrightarrow> x = ''ForeignKeyViolationError''"
  by (auto simp: sweep_row_def Let_def delete_row_def split: if_splits option.splits sum.splits)

lemma sweep_row_tax: "sweep_row env now r b = Inr b' \<Longrightarrow> vd_tax (bt_db b') = vd_tax (bt_db b)"
  by (auto simp: sweep_row_def Let_def delete_row_def drop_row_def write_audit_def mark_deleted_def
      split: if_splits option.splits sum.splits)

lemma sweep_row_wf: "sweep_row env now r b = Inr b' \<Longrightarrow> vault_wf (bt_db b) \<Longrightarrow> vault_wf (bt_db b')"
  using sweep_row_changes wf_changes by blast

lemma campaign_present: "vault_wf db \<Longrightarrow> t \<in> set (vd_tax db) \<Longrightarrow> present db (''campaigns'', tx_campaign t)"
  by (simp add: vault_wf_def closed_refs_def)

lemma campaign_row_raises:
  assumes "vault_wf (bt_db b)" "t \<in> set (vd_tax (bt_db b))" "rp_table r = ''campaigns''" "rp_object r = tx_campaign t"
  shows "sweep_row env now r b = Inl ''ForeignKeyViolationError''"
proof -
  have "known_table ''campaigns''" by (simp add: known_table_def OBJECT_TYPES_def config_def)
  moreover have "delete_row ''campaigns'' (tx_campaign t) (bt_db b) = Inl ''ForeignKeyViolationError''"
    using campaign_present[OF assms(1,2)] referenced_by_tax[OF assms(2)] by (simp add: delete_row_def)
  ultimately show ?thesis using assms(3,4) by (simp add: sweep_row_def Let_def content_hash_of_def drop_blob_def)
qed

lemma sweep_rows_raise:
  assumes "r \<in> set rs" "rp_table r = ''campaigns''" "rp_object r = tx_campaign t"
      and "vault_wf (bt_db b)" "t \<in> set (vd_tax (bt_db b))"
  shows "fst (sweep_rows env now rs b) = Some ''ForeignKeyViolationError''"
  using assms
proof (induction rs arbitrary: b)
  case (Cons q rs)
  show ?case
  proof (cases "sweep_row env now q b")
    case (Inl x)
    with sweep_row_raises[OF Inl] show ?thesis by simp
  next
    case (Inr b')
    with Cons.prems campaign_row_raises have "q \<noteq> r" by fastforce
    with Cons.prems have "r \<in> set rs" by simp
    with Cons Inr sweep_row_wf[OF Inr] sweep_row_tax[OF Inr] show ?thesis by simp
  qed
qed simp

lemma audits_sweeps: "vd_sweeps (fold write_audit as db) = vd_sweeps db"
  by (induction as arbitrary: db) (simp_all add: write_audit_def)

lemma wf_core: "core db = core db' \<Longrightarrow> vault_wf db = vault_wf db'"
  by (metis idle_changes wf_changes)

lemma ret_at_mem: "ret_at t i db = Some p \<Longrightarrow> p \<in> set (vd_ret db) \<and> rp_table p = t \<and> rp_object p = i"
  by (auto simp: ret_at_def dest: find_SomeD)

lemma mem_ret_at: "p \<in> set (vd_ret db) \<Longrightarrow> keyed db \<Longrightarrow> ret_at (rp_table p) (rp_object p) db = Some p"
proof -
  assume p: "p \<in> set (vd_ret db)" and k: "keyed db"
  then have "ret_at (rp_table p) (rp_object p) db \<noteq> None" by (auto simp: ret_at_def find_None_iff)
  then obtain q where q: "ret_at (rp_table p) (rp_object p) db = Some q" by blast
  with ret_at_mem[OF q] p k have "q = p" by (auto simp: keyed_def distinct_map dest: inj_onD)
  with q show ?thesis by simp
qed

text \<open>The expired row of a campaign that is still named, in any later state.\<close>

lemma campaign_still_expired:
  assumes "vault_wf (vs_db st)" "vault_run st st'" "t \<in> set (vd_tax (vs_db st))"
      and "p \<in> set (vd_ret (vs_db st))" "rp_table p = ''campaigns''" "rp_object p = tx_campaign t" "rp_expires p \<le> now"
  shows "\<exists>q\<in>set (expired now (vs_db st')). rp_table q = ''campaigns'' \<and> rp_object q = tx_campaign t"
proof -
  have ch: "db_changes (vs_db st) (vs_db st')" by (rule vault_run_changes[OF assms(2)])
  have wf: "vault_wf (vs_db st')" by (rule wf_changes[OF ch assms(1)])
  from assms(1) have "keyed (vs_db st)" by (simp add: vault_wf_def)
  from permanent_changes(2)[OF ch mem_ret_at[OF assms(4) this]]
  obtain q where q: "ret_at (rp_table p) (rp_object p) (vs_db st') = Some q" "same_retention p q" by blast
  from campaign_present[OF wf permanent_changes(3)[OF ch assms(3)]]
  have "present (vs_db st') (rp_table q, rp_object q)" using q(2) assms(5,6) by (simp add: same_retention_def)
  moreover from wf ret_at_mem[OF q(1)] have "rp_deleted q \<noteq> None \<longrightarrow> \<not> present (vs_db st') (rp_table q, rp_object q)"
    unfolding vault_wf_def retention_ok_def by blast
  ultimately have "rp_deleted q = None" by blast
  moreover from ret_at_mem[OF q(1)] have "q \<in> set (vd_ret (vs_db st'))" by simp
  ultimately have "q \<in> set (expired now (vs_db st'))" using q(2) assms(7) by (simp add: expired_def same_retention_def)
  with q(2) assms(5,6) show ?thesis by (auto simp: same_retention_def)
qed

lemma crashed_sweep:
  assumes "vault_wf (vs_db st)" "picks env" "t \<in> set (vd_tax (vs_db st))"
      and "q \<in> set (expired now (vs_db st))" "rp_table q = ''campaigns''" "rp_object q = tx_campaign t"
  shows "\<exists>b. sweep_rows env now (ve_pick env (expired now (open_run run now (vs_db st))))
      \<lparr>bt_db = open_run run now (vs_db st), bt_blobs = vs_blobs st, bt_isolated = [], bt_deleted = 0, bt_failed = 0\<rparr> = (Some ''ForeignKeyViolationError'', b) \<and>
    run_retention_expiry env run now later st = (Inl (Crashed ''ForeignKeyViolationError''),
      \<lparr>vs_db = fold write_audit (bt_isolated b) (open_run run now (vs_db st)), vs_blobs = bt_blobs b\<rparr>)"
proof -
  let ?db = "open_run run now (vs_db st)"
  let ?b = "\<lparr>bt_db = ?db, bt_blobs = vs_blobs st, bt_isolated = [], bt_deleted = 0, bt_failed = 0\<rparr>"
  have core: "core ?db = core (vs_db st)" by (simp add: vault_simps)
  then have "expired now ?db = expired now (vs_db st)" by (simp add: expired_def core_eq)
  with assms(2,4) have "q \<in> set (ve_pick env (expired now ?db))" by (simp add: picks_def)
  moreover have "vault_wf ?db" using assms(1) wf_core[OF core] by simp
  moreover have "t \<in> set (vd_tax ?db)" using assms(3) core by (simp add: core_eq)
  ultimately have "fst (sweep_rows env now (ve_pick env (expired now ?db)) ?b) = Some ''ForeignKeyViolationError''"
    using assms(5,6) by (intro sweep_rows_raise) simp_all
  then obtain b where "sweep_rows env now (ve_pick env (expired now ?db)) ?b = (Some ''ForeignKeyViolationError'', b)"
    by (metis prod.collapse)
  moreover from this have "run_retention_expiry env run now later st = (Inl (Crashed ''ForeignKeyViolationError''),
      \<lparr>vs_db = fold write_audit (bt_isolated b) ?db, vs_blobs = bt_blobs b\<rparr>)"
    by (simp add: run_retention_expiry_def Let_def)
  ultimately show ?thesis by blast
qed


section \<open>Content lost by a sweep that raises\<close>

lemma map_of_without: "map_of (filter (\<lambda>(d, raw). d \<noteq> h) bs) k = (if k = h then None else map_of bs k)"
  by (induction bs) auto

lemma drop_blob_gone: "drop_blob env hash i db bs = Some bs' \<Longrightarrow> map_of bs h = None \<Longrightarrow> map_of bs' h = None"
  by (auto simp: drop_blob_def delete_content_if_unreferenced_def map_of_without split: option.splits if_splits)

lemma sweep_row_gone: "sweep_row env now r b = Inr b' \<Longrightarrow> map_of (bt_blobs b) h = None \<Longrightarrow> map_of (bt_blobs b') h = None"
  by (auto simp: sweep_row_def Let_def drop_blob_gone split: if_splits option.splits sum.splits)

lemma raised_row_gone: "map_of (bt_blobs b) h = None \<Longrightarrow> map_of (bt_blobs (raised_row env r b)) h = None"
  by (auto simp: raised_row_def drop_blob_gone split: option.splits)

lemma sweep_rows_gone: "map_of (bt_blobs b) h = None \<Longrightarrow> map_of (bt_blobs (snd (sweep_rows env now rs b))) h = None"
  by (induction rs arbitrary: b) (auto simp: sweep_row_gone raised_row_gone split: sum.splits)

lemma first_row_drops:
  assumes "rp_table a = ''assets''" "row_at ''assets'' (rp_object a) (bt_db b) = Some r" "vr_blob r = Some (h, uri)"
      and "\<not> still_referenced h (rp_object a) (bt_db b)" "ve_blobs_up env h"
  shows "map_of (bt_blobs (snd (sweep_rows env now (a # rs) b))) h = None"
proof -
  let ?bs = "filter (\<lambda>(d, raw). d \<noteq> h) (bt_blobs b)"
  have "drop_blob env (content_hash_of (rp_table a) (rp_object a) (bt_db b)) (rp_object a) (bt_db b) (bt_blobs b) = Some ?bs"
    using assms by (simp add: content_hash_of_def drop_blob_def delete_content_if_unreferenced_def)
  then have "sweep_row env now a b = Inl x \<Longrightarrow> map_of (bt_blobs (raised_row env a b)) h = None"
    "sweep_row env now a b = Inr b' \<Longrightarrow> map_of (bt_blobs b') h = None" for x b'
    using assms(1) by (auto simp: raised_row_def sweep_row_def Let_def known_table_def map_of_without split: sum.splits)
  then show ?thesis using sweep_rows_gone by (auto split: sum.splits)
qed

text \<open>C24: When the sweep that raises meets an expired asset first, the asset's row is rolled back but
its blob is already gone: the asset is listed, and reading it fails.\<close>

theorem crashed_sweep_loses_content:
  assumes "vault_wf (vs_db st)" and "picks env"
      and "t \<in> set (vd_tax (vs_db st))" and "q \<in> set (expired now (vs_db st))"
      and "rp_table q = ''campaigns''" and "rp_object q = tx_campaign t"
      and "ve_pick env (expired now (vs_db st)) = a # rs" and "rp_table a = ''assets''"
      and "row_at ''assets'' (rp_object a) (vs_db st) = Some r" and "vr_blob r = Some (h, uri)"
      and "\<not> still_referenced h (rp_object a) (vs_db st)" and "ve_blobs_up env h"
  shows "row_at ''assets'' (rp_object a) (vs_db (snd (run_retention_expiry env run now later st))) = Some r \<and>
    fst (get_asset_route env' (rp_object a) caller at (snd (run_retention_expiry env run now later st))) = Inl (Crashed ''AzureError'')"
proof -
  let ?db = "open_run run now (vs_db st)"
  have core: "core ?db = core (vs_db st)" by (simp add: vault_simps)
  then have same: "expired now ?db = expired now (vs_db st)" "row_at ''assets'' (rp_object a) ?db = row_at ''assets'' (rp_object a) (vs_db st)"
    "still_referenced h (rp_object a) ?db = still_referenced h (rp_object a) (vs_db st)"
    by (simp_all add: expired_def core_eq row_at_def still_referenced_def)
  from crashed_sweep[OF assms(1-6), of run later] obtain b :: batch where
    sw: "sweep_rows env now (ve_pick env (expired now ?db))
      \<lparr>bt_db = ?db, bt_blobs = vs_blobs st, bt_isolated = [], bt_deleted = 0, bt_failed = 0\<rparr> = (Some ''ForeignKeyViolationError'', b)"
    and run: "run_retention_expiry env run now later st = (Inl (Crashed ''ForeignKeyViolationError''),
      \<lparr>vs_db = fold write_audit (bt_isolated b) ?db, vs_blobs = bt_blobs b\<rparr>)"
    by blast
  have "map_of (bt_blobs b) h = None"
    using first_row_drops[OF assms(8), of "\<lparr>bt_db = ?db, bt_blobs = vs_blobs st, bt_isolated = [], bt_deleted = 0, bt_failed = 0\<rparr>" r h uri env now rs]
      sw assms(7,9-12) same by simp
  moreover have "core (fold write_audit (bt_isolated b) ?db) = core (vs_db st)" by (simp add: vault_simps)
  then have "row_at ''assets'' (rp_object a) (fold write_audit (bt_isolated b) ?db) = Some r"
    using assms(9) by (simp add: core_eq row_at_def)
  moreover have "oc_name ASSETS = ''assets''" by (simp add: ASSETS_def config_def)
  ultimately show ?thesis using assms(10)
    by (simp add: run get_asset_route_def get_object_def fetch_object_def read_content_def)
qed

end
