(* ===== verification/Vault_Expiry.thy ===== *)
theory Vault_Expiry
  imports Vault_Sweep
begin

text \<open>A sweep that returns: what it deleted is exactly what had expired, except for assets whose
blob could not be deleted, and no surviving asset lost its content.\<close>

section \<open>What one row changes\<close>

abbreviation ret_key :: "ret_row \<Rightarrow> string \<times> nat" where
  "ret_key p \<equiv> (rp_table p, rp_object p)"

abbreviation row_key :: "vrow \<Rightarrow> string \<times> nat" where
  "row_key r \<equiv> (vr_table r, vr_id r)"

definition beside :: "(string \<times> nat) set \<Rightarrow> vault_db \<Rightarrow> vault_db \<Rightarrow> bool" where
  "beside K db db' \<longleftrightarrow> set (vd_rows db') \<subseteq> set (vd_rows db) \<and>
    (\<forall>r\<in>set (vd_rows db). row_key r \<notin> K \<longrightarrow> r \<in> set (vd_rows db')) \<and>
    (\<forall>p\<in>set (vd_ret db). ret_key p \<notin> K \<longrightarrow> p \<in> set (vd_ret db')) \<and>
    set (vd_audit db) \<subseteq> set (vd_audit db')"

lemma beside_refl: "beside K db db"
  by (simp add: beside_def)

lemma beside_trans: "beside K a b \<Longrightarrow> beside L b c \<Longrightarrow> beside (K \<union> L) a c"
  unfolding beside_def by blast

lemma beside_erase:
  assumes "delete_row table i db = Inr db'"
  shows "beside {(table, i)} db (write_audit a (mark_deleted table i now db'))"
proof -
  have db': "db' = drop_row table i db" by (rule deleted_row(1)[OF assms])
  show ?thesis
    by (auto simp: beside_def db' drop_row_def write_audit_def mark_deleted_def set_update_where)
qed

lemma beside_row: "sweep_row env now p b = Inr b' \<Longrightarrow> beside {ret_key p} (bt_db b) (bt_db b')"
  by (auto simp: sweep_row_def Let_def beside_refl intro: beside_erase split: if_splits option.splits sum.splits)
     (auto simp: beside_def write_audit_def)

section \<open>What becomes of an expired row\<close>

definition swept_away :: "instant \<Rightarrow> ret_row \<Rightarrow> vault_db \<Rightarrow> bool" where
  "swept_away now p db \<longleftrightarrow> \<not> present db (ret_key p) \<and>
    (\<exists>q\<in>set (vd_ret db). ret_key q = ret_key p \<and> rp_deleted q = Some now) \<and>
    (\<exists>hash. deletion_audit p hash \<in> set (vd_audit db))"

definition kept_back :: "vault_env \<Rightarrow> ret_row \<Rightarrow> vault_db \<Rightarrow> bool" where
  "kept_back env p db \<longleftrightarrow> p \<in> set (vd_ret db) \<and>
    (\<exists>r\<in>set (vd_rows db). \<exists>h uri. vr_table r = ''assets'' \<and> row_key r = ret_key p \<and> vr_blob r = Some (h, uri) \<and>
       \<not> ve_blobs_up env h \<and> failed_audit p (Some h) \<in> set (vd_audit db))"

lemma beside_swept: "swept_away now p db \<Longrightarrow> beside K db db' \<Longrightarrow> ret_key p \<notin> K \<Longrightarrow> swept_away now p db'"
  by (fastforce simp: swept_away_def beside_def present_def)

lemma beside_kept: "kept_back env p db \<Longrightarrow> beside K db db' \<Longrightarrow> ret_key p \<notin> K \<Longrightarrow> kept_back env p db'"
  unfolding kept_back_def beside_def by (metis subsetD)

lemma row_settled:
  assumes "sweep_row env now p b = Inr b'" "known_table (rp_table p)" "p \<in> set (vd_ret (bt_db b))"
  shows "swept_away now p (bt_db b') \<or> kept_back env p (bt_db b')"
    "bt_deleted b' + bt_failed b' = bt_deleted b + bt_failed b + 1"
proof -
  let ?hash = "content_hash_of (rp_table p) (rp_object p) (bt_db b)"
  let ?drop = "drop_blob env ?hash (rp_object p) (bt_db b) (bt_blobs b)"
  have "swept_away now p (bt_db b') \<or> kept_back env p (bt_db b') \<and> True"
  proof (cases ?drop)
    case None
    then obtain h where h: "?hash = Some h" "\<not> ve_blobs_up env h"
      by (auto simp: drop_blob_def delete_content_if_unreferenced_def split: option.splits if_splits)
    then obtain r uri where r: "rp_table p = ''assets''" "row_at ''assets'' (rp_object p) (bt_db b) = Some r" "vr_blob r = Some (h, uri)"
      by (auto simp: content_hash_of_def split: if_splits option.splits)
    from r(2) have "r \<in> set (vd_rows (bt_db b))" "vr_table r = ''assets''" "vr_id r = rp_object p"
      by (auto simp: row_at_def dest: find_SomeD)
    moreover have "bt_db b' = write_audit (failed_audit p (Some h)) (bt_db b)"
      using assms(1,2) None h(1) by (auto simp: sweep_row_def Let_def)
    ultimately have "kept_back env p (bt_db b')" using assms(3) r h(2) by (auto simp: kept_back_def write_audit_def)
    then show ?thesis by simp
  next
    case (Some bs)
    with assms(1,2) obtain db where db: "delete_row (rp_table p) (rp_object p) (bt_db b) = Inr db"
      "bt_db b' = write_audit (deletion_audit p ?hash) (mark_deleted (rp_table p) (rp_object p) now db)"
      by (auto simp: sweep_row_def Let_def split: sum.splits)
    have "\<not> present (bt_db b') (ret_key p)"
      using delete_row_absent[OF db(1)] by (simp add: db(2) present_def write_audit_def mark_deleted_def)
    moreover have "p \<in> set (vd_ret db)" using assms(3) deleted_row(1)[OF db(1)] by simp
    then have "p\<lparr>rp_deleted := Some now\<rparr> \<in> set (vd_ret (bt_db b'))"
      by (simp add: db(2) write_audit_def mark_deleted_def set_update_where)
    then have "\<exists>q\<in>set (vd_ret (bt_db b')). ret_key q = ret_key p \<and> rp_deleted q = Some now" by (rule bexI[rotated]) simp
    moreover have "deletion_audit p ?hash \<in> set (vd_audit (bt_db b'))" by (simp add: db(2) write_audit_def)
    ultimately show ?thesis unfolding swept_away_def by blast
  qed
  then show "swept_away now p (bt_db b') \<or> kept_back env p (bt_db b')" by blast
  show "bt_deleted b' + bt_failed b' = bt_deleted b + bt_failed b + 1"
    using assms(1,2) by (auto simp: sweep_row_def Let_def split: option.splits sum.splits)
qed

lemma row_unknown: "sweep_row env now p b = Inr b' \<Longrightarrow> \<not> known_table (rp_table p) \<Longrightarrow> b' = b"
  by (simp add: sweep_row_def Let_def)

section \<open>The batch\<close>

lemma rows_settled:
  assumes "sweep_rows env now ps b = (None, b')" "distinct (map ret_key ps)" "set ps \<subseteq> set (vd_ret (bt_db b))"
  shows "beside (ret_key ` set ps) (bt_db b) (bt_db b') \<and>
    (\<forall>p\<in>set ps. known_table (rp_table p) \<longrightarrow> swept_away now p (bt_db b') \<or> kept_back env p (bt_db b')) \<and>
    bt_deleted b' + bt_failed b' = bt_deleted b + bt_failed b + length (filter (\<lambda>p. known_table (rp_table p)) ps)"
  using assms
proof (induction ps arbitrary: b)
  case Nil
  then show ?case by (simp add: beside_refl)
next
  case (Cons p ps)
  from Cons.prems(1) obtain b1 where b1: "sweep_row env now p b = Inr b1" and rest: "sweep_rows env now ps b1 = (None, b')"
    by (auto split: sum.splits)
  note one = beside_row[OF b1]
  from Cons.prems(2) have p: "ret_key p \<notin> ret_key ` set ps" by auto
  have "q \<in> set (vd_ret (bt_db b1))" if q: "q \<in> set ps" for q
  proof -
    from q have "ret_key q \<in> ret_key ` set ps" by (rule imageI)
    then have "ret_key q \<notin> {ret_key p}" using p by (simp only: singleton_iff) (erule contrapos_nn, erule subst)
    moreover from q Cons.prems(3) have "q \<in> set (vd_ret (bt_db b))" by (simp add: subset_iff)
    ultimately show ?thesis using one unfolding beside_def by blast
  qed
  then have sub: "set ps \<subseteq> set (vd_ret (bt_db b1))" by blast
  from Cons.prems(2) have "distinct (map ret_key ps)" by simp
  note IH = Cons.IH[OF rest this sub]
  have all: "beside (ret_key ` set (p # ps)) (bt_db b) (bt_db b')"
    using beside_trans[OF one] IH by auto
  have settled: "swept_away now p (bt_db b') \<or> kept_back env p (bt_db b')" if "known_table (rp_table p)"
  proof -
    from IH have bes: "beside (ret_key ` set ps) (bt_db b1) (bt_db b')" by blast
    have "swept_away now p (bt_db b1) \<or> kept_back env p (bt_db b1)" using row_settled(1)[OF b1 that] Cons.prems(3) by simp
    then show ?thesis using beside_swept[OF _ bes p] beside_kept[OF _ bes p] by blast
  qed
  have count: "bt_deleted b1 + bt_failed b1 = bt_deleted b + bt_failed b + length (filter (\<lambda>p. known_table (rp_table p)) [p])"
    using row_settled(2)[OF b1] row_unknown[OF b1] Cons.prems(3) by (cases "known_table (rp_table p)") auto
  show ?case using all settled IH count by auto
qed

text \<open>The content of an asset that survives is not dropped.\<close>

definition uses :: "string \<Rightarrow> vrow \<Rightarrow> bool" where
  "uses h r \<longleftrightarrow> vr_table r = ''assets'' \<and> map_option fst (vr_blob r) = Some h"

lemma drop_blob_content: "drop_blob env hash i db bs = Some bs' \<Longrightarrow> map_of bs' h \<noteq> map_of bs h \<Longrightarrow>
    hash = Some h \<and> \<not> still_referenced h i db"
  by (auto simp: drop_blob_def delete_content_if_unreferenced_def map_of_without split: option.splits if_splits)

lemma row_keeps_content:
  assumes "sweep_row env now p b = Inr b'" "r \<in> set (vd_rows (bt_db b'))" "uses h r"
  shows "map_of (bt_blobs b') h = map_of (bt_blobs b) h"
proof (rule ccontr)
  assume diff: "map_of (bt_blobs b') h \<noteq> map_of (bt_blobs b) h"
  let ?i = "rp_object p"
  let ?hash = "content_hash_of (rp_table p) ?i (bt_db b)"
  from diff assms(1) obtain bs where bs: "drop_blob env ?hash ?i (bt_db b) (bt_blobs b) = Some bs" "bt_blobs b' = bs"
    by (auto simp: sweep_row_def Let_def split: if_splits option.splits sum.splits)
  with diff have h: "?hash = Some h" "\<not> still_referenced h ?i (bt_db b)"
    by (auto dest: drop_blob_content)
  from h(1) have t: "rp_table p = ''assets''" by (simp add: content_hash_of_def split: if_splits)
  from beside_row[OF assms(1)] assms(2) have "r \<in> set (vd_rows (bt_db b))" by (auto simp: beside_def)
  with h(2) assms(3) have "vr_id r = ?i" by (auto simp: still_referenced_def uses_def)
  with assms(3) t have r: "row_key r = ret_key p" by (simp add: uses_def)
  from assms(1) bs(1) t obtain db where "delete_row (rp_table p) ?i (bt_db b) = Inr db" "vd_rows (bt_db b') = vd_rows db"
    by (auto simp: sweep_row_def Let_def known_table_def write_audit_def mark_deleted_def split: sum.splits)
  with delete_row_absent[of "rp_table p" ?i "bt_db b" db] assms(2) have "r \<in> set (vd_rows db)" "\<not> present db (ret_key p)" by simp_all
  with r show False by (metis image_eqI present_def)
qed

lemma rows_keep_content:
  assumes "sweep_rows env now ps b = (None, b')" "r \<in> set (vd_rows (bt_db b'))" "uses h r"
  shows "map_of (bt_blobs b') h = map_of (bt_blobs b) h"
  using assms(1)
proof (induction ps arbitrary: b)
  case (Cons p ps)
  then obtain b1 where b1: "sweep_row env now p b = Inr b1" and rest: "sweep_rows env now ps b1 = (None, b')"
    by (auto split: sum.splits)
  have shrink: "set (vd_rows (bt_db b')) \<subseteq> set (vd_rows (bt_db b1))"
    using rest
  proof (induction ps arbitrary: b1)
    case (Cons q qs)
    then show ?case using beside_row by (fastforce simp: beside_def split: sum.splits)
  qed simp
  with assms(2) have "r \<in> set (vd_rows (bt_db b1))" by blast
  from row_keeps_content[OF b1 this assms(3)] Cons.IH[OF rest] show ?case by simp
qed simp

section \<open>The run\<close>

lemma picked:
  assumes "picks env" "distinct (map ret_key ps)"
  shows "distinct (map ret_key (ve_pick env ps))" "set (ve_pick env ps) = set ps"
proof -
  from assms(2) have d: "distinct ps" "inj_on ret_key (set ps)" by (simp_all add: distinct_map)
  show s: "set (ve_pick env ps) = set ps" using assms(1) by (simp add: picks_def)
  have "distinct (ve_pick env ps)"
    using assms(1) d(1) s by (metis card_distinct distinct_card picks_def)
  with d(2) s show "distinct (map ret_key (ve_pick env ps))" by (simp add: distinct_map)
qed

lemma filter_length_set: "distinct xs \<Longrightarrow> distinct ys \<Longrightarrow> set xs = set ys \<Longrightarrow> length (filter P xs) = length (filter P ys)"
  by (metis distinct_card distinct_filter set_filter)

lemma sweep_outcome:
  assumes "vault_wf (vs_db st)" and "picks env" and "run_retention_expiry env run now later st = (Inr s, st')"
  shows "set (vd_rows (vs_db st')) \<subseteq> set (vd_rows (vs_db st)) \<and>
    (\<forall>r\<in>set (vd_rows (vs_db st)). row_key r \<notin> ret_key ` set (expired now (vs_db st)) \<longrightarrow> r \<in> set (vd_rows (vs_db st'))) \<and>
    (\<forall>p\<in>set (expired now (vs_db st)). known_table (rp_table p) \<longrightarrow>
       swept_away now p (vs_db st') \<or> kept_back env p (vs_db st')) \<and>
    ss_deleted s + ss_failed s = length (filter (\<lambda>p. known_table (rp_table p)) (expired now (vs_db st))) \<and>
    (\<forall>r\<in>set (vd_rows (vs_db st')). \<forall>h. uses h r \<longrightarrow> map_of (vs_blobs st') h = map_of (vs_blobs st) h)"
proof -
  let ?db = "open_run run now (vs_db st)"
  let ?ps = "expired now (vs_db st)"
  let ?b = "\<lparr>bt_db = ?db, bt_blobs = vs_blobs st, bt_isolated = [], bt_deleted = 0, bt_failed = 0\<rparr>"
  have e: "expired now ?db = ?ps" by (simp add: expired_def open_run_def)
  from assms(3) obtain b where b: "sweep_rows env now (ve_pick env ?ps) ?b = (None, b)"
    and st': "st' = \<lparr>vs_db = close_run run (bt_deleted b) later (purge_access_log later (bt_db b)), vs_blobs = bt_blobs b\<rparr>"
    and s: "ss_deleted s = bt_deleted b" "ss_failed s = bt_failed b"
    by (auto simp: run_retention_expiry_def Let_def e split: prod.splits option.splits)
  from assms(1) have "distinct (ret_keys (vs_db st))" by (simp add: vault_wf_def keyed_def)
  then have d: "distinct (map ret_key ?ps)" unfolding expired_def by (rule distinct_map_filter)
  note pk = picked[OF assms(2) d]
  have sub: "set (ve_pick env ?ps) \<subseteq> set (vd_ret (bt_db ?b))" unfolding pk(2) by (auto simp: expired_def open_run_def)
  note settled = rows_settled[OF b pk(1) sub]
  have rows: "vd_rows (vs_db st') = vd_rows (bt_db b)" "vd_ret (vs_db st') = vd_ret (bt_db b)" "vd_audit (vs_db st') = vd_audit (bt_db b)"
    "vd_rows ?db = vd_rows (vs_db st)"
    by (simp_all add: st' close_run_def purge_access_log_def open_run_def)
  have same: "swept_away now p (vs_db st') = swept_away now p (bt_db b)" "kept_back env p (vs_db st') = kept_back env p (bt_db b)" for p
    by (simp_all add: swept_away_def kept_back_def present_def rows)
  have "length (filter (\<lambda>p. known_table (rp_table p)) (ve_pick env ?ps)) = length (filter (\<lambda>p. known_table (rp_table p)) ?ps)"
    using pk d by (intro filter_length_set) (simp_all add: distinct_map)
  moreover have "\<forall>r\<in>set (vd_rows (vs_db st')). \<forall>h. uses h r \<longrightarrow> map_of (vs_blobs st') h = map_of (vs_blobs st) h"
    using rows_keep_content[OF b] by (simp add: rows(1)) (simp add: st')
  ultimately show ?thesis using settled unfolding same rows(1) s beside_def pk(2) by (simp add: rows(4))
qed

text \<open>C23: A sweep that returns removes no object that has not expired. Each expired object is gone,
marked and audited as deleted, or it is an asset whose blob could not be deleted, which stays
with an audit row of the failure; the two counts of the reply add up to the expired objects.
The content of every asset that is still there is untouched, also when it is shared with a
deleted one.\<close>

theorem sweep_is_exact:
  assumes "vault_wf (vs_db st)" and "picks env" and "run_retention_expiry env run now later st = (Inr s, st')"
  shows "set (vd_rows (vs_db st')) \<subseteq> set (vd_rows (vs_db st)) \<and>
    (\<forall>r\<in>set (vd_rows (vs_db st)). row_key r \<notin> ret_key ` set (expired now (vs_db st)) \<longrightarrow> r \<in> set (vd_rows (vs_db st'))) \<and>
    (\<forall>p\<in>set (expired now (vs_db st)). known_table (rp_table p) \<longrightarrow>
       swept_away now p (vs_db st') \<or> kept_back env p (vs_db st')) \<and>
    ss_deleted s + ss_failed s = length (filter (\<lambda>p. known_table (rp_table p)) (expired now (vs_db st))) \<and>
    (\<forall>r\<in>set (vd_rows (vs_db st')). \<forall>h. uses h r \<longrightarrow> map_of (vs_blobs st') h = map_of (vs_blobs st) h)"
  by (rule sweep_outcome[OF assms])

end
