(* ===== verification/Vault_Reads.thy ===== *)
theory Vault_Reads
  imports Vault_Expiry
begin

text \<open>What is read back from the vault: objects, the content of assets, the daily counts; the
consent behind a client-derived row; the content of an asset that was deleted by hand.\<close>

section \<open>A created object\<close>

lemma text_at_value: "text_at env p k = Some s \<Longrightarrow> map_of p k = Some (JStr s)"
  by (auto simp: value_at_def split: json.splits option.splits if_splits)

lemma find_new: "\<forall>x\<in>set xs. \<not> P x \<Longrightarrow> P y \<Longrightarrow> List.find P (xs @ [y]) = Some y"
  by (induction xs) auto

lemma link_consent_same [simp]:
  "vd_rows (link_consent t i c db) = vd_rows db" "vd_tax (link_consent t i c db) = vd_tax db"
  "vd_ret (link_consent t i c db) = vd_ret db" "vd_cards (link_consent t i c db) = vd_cards db"
  by (simp_all add: link_consent_def)

lemma commit_object_insert:
  assumes "commit_object env cfg p blob consent i now db = Inr db'"
  obtains db1 where "insert_object env cfg p blob i now db = Inr db1"
    "db' = (case consent of Some c \<Rightarrow> link_consent (oc_name cfg) i c db1 | None \<Rightarrow> db1)"
  using assms by (auto simp: commit_object_def split: sum.splits)

lemma cast_fields_cell:
  assumes "cast_fields env p fs = Inr cells" "distinct (map fs_name fs)" "f \<in> set fs"
  shows "\<exists>c. map_of cells (fs_name f) = Some c \<and>
    cast_for_asyncpg env (fs_type f) (case map_of p (fs_name f) of Some v \<Rightarrow> v | None \<Rightarrow> fs_default f) = Inr c"
  using assms by (induction fs arbitrary: cells) (auto split: sum.splits, metis image_eqI)

lemma committed_object:
  assumes "commit_object env cfg p blob consent i now db = Inr db'" "cfg \<in> set OBJECT_TYPES"
  shows "\<exists>row tx ret. fetch_object (oc_name cfg) i db' = Some (row, Some tx) \<and> ret_at (oc_name cfg) i db' = Some ret \<and>
    vr_blob row = blob \<and> rp_class ret = tx_class tx \<and> rp_expires ret = compute_expires_at (tx_class tx) now \<and>
    (\<forall>f\<in>set [''vertical'', ''function_id'', ''evidence_grade'', ''consent_status'', ''retention_class''].
       map_of p f = Some (JStr (taxonomy_text tx f))) \<and>
    py_uuid (str_of (ve_str env) (value_at p ''campaign'')) = Some (tx_campaign tx) \<and>
    (\<forall>f\<in>set (oc_fields cfg). \<exists>c. map_of (vr_cells row) (fs_name f) = Some c \<and>
       cast_for_asyncpg env (fs_type f) (case map_of p (fs_name f) of Some v \<Rightarrow> v | None \<Rightarrow> fs_default f) = Inr c)"
proof -
  obtain db1 where ins: "insert_object env cfg p blob i now db = Inr db1"
    and db': "db' = (case consent of Some c \<Rightarrow> link_consent (oc_name cfg) i c db1 | None \<Rightarrow> db1)"
    by (rule commit_object_insert[OF assms(1)])
  have same: "vd_rows db' = vd_rows db1" "vd_tax db' = vd_tax db1" "vd_ret db' = vd_ret db1"
    by (simp_all add: db' split: option.splits)
  obtain row tax ret campaign cells where
    campaign: "py_uuid (str_of (ve_str env) (value_at p ''campaign'')) = Some campaign"
    and cells: "cast_fields env p (oc_fields cfg) = Inr cells"
    and row: "row = \<lparr>vr_table = oc_name cfg, vr_id = i, vr_campaign = (if oc_campaign cfg then Some campaign else None),
       vr_cells = cells, vr_blob = blob, vr_created = now, vr_updated = (if oc_updated cfg then Some now else None)\<rparr>"
    and tax: "tx_table tax = oc_name cfg" "tx_object tax = i" "tx_campaign tax = campaign"
    and texts: "Some (tx_vertical tax) = text_at env p ''vertical''" "Some (tx_function tax) = text_at env p ''function_id''"
      "Some (tx_grade tax) = text_at env p ''evidence_grade''" "Some (tx_consent tax) = text_at env p ''consent_status''"
      "Some (tx_class tax) = text_at env p ''retention_class''"
    and ret: "ret = \<lparr>rp_table = oc_name cfg, rp_object = i, rp_class = tx_class tax, rp_expires = compute_expires_at (tx_class tax) now, rp_deleted = None\<rparr>"
    and free: "constraint_error row db = None"
    and db1: "db1 = db\<lparr>vd_rows := vd_rows db @ [row], vd_tax := vd_tax db @ [tax], vd_ret := vd_ret db @ [ret]\<rparr>"
    by (rule insert_object_put[OF ins])
  note none = constraint_free[OF free]
  have "row_at (oc_name cfg) i db' = Some row"
  proof -
    have "row_at (oc_name cfg) i db = None" using none(1) row by (simp add: row_at_None)
    then show ?thesis unfolding row_at_def same db1 using row by (simp add: find_None_iff find_new)
  qed
  moreover have "tax_at (oc_name cfg) i db' = Some tax"
    unfolding tax_at_def same db1 using none(2) row tax by (auto intro!: find_new)
  ultimately have view: "fetch_object (oc_name cfg) i db' = Some (row, Some tax)" by (simp add: fetch_object_def)
  have "ret_at (oc_name cfg) i db' = Some ret"
    unfolding ret_at_def same db1 using none(3) row ret by (auto intro!: find_new)
  moreover have "\<forall>f\<in>set [''vertical'', ''function_id'', ''evidence_grade'', ''consent_status'', ''retention_class''].
       map_of p f = Some (JStr (taxonomy_text tax f))"
    using texts[symmetric, THEN text_at_value] by (simp add: taxonomy_text_def)
  ultimately show ?thesis
    using view row ret campaign tax(3) cast_fields_cell[OF cells config_names_distinct[OF assms(2)]]
    by (intro exI[of _ row] exI[of _ tax] exI[of _ ret]) simp
qed

text \<open>C25: An object that was created is read back with the submitted taxonomy, its campaign by value,
each of its columns as the submitted value or the default, and it expires after the duration of
its class.\<close>

theorem created_object_reads_back:
  assumes "create_object env cfg p i now st = (Inr v, st')" and "cfg \<in> set OBJECT_TYPES"
  shows "\<exists>row tx ret. fst (get_object cfg i caller later st') = Inr (row, Some tx) \<and> v = Some (row, Some tx) \<and>
    ret_at (oc_name cfg) i (vs_db st') = Some ret \<and> rp_expires ret = compute_expires_at (tx_class tx) now \<and>
    (\<forall>f\<in>set [''vertical'', ''function_id'', ''evidence_grade'', ''consent_status'', ''retention_class''].
       map_of p f = Some (JStr (taxonomy_text tx f))) \<and>
    py_uuid (str_of (ve_str env) (value_at p ''campaign'')) = Some (tx_campaign tx) \<and>
    (\<forall>f\<in>set (oc_fields cfg). \<exists>c. map_of (vr_cells row) (fs_name f) = Some c \<and>
       cast_for_asyncpg env (fs_type f) (case map_of p (fs_name f) of Some v \<Rightarrow> v | None \<Rightarrow> fs_default f) = Inr c)"
proof -
  from assms(1) obtain consent db where
    "commit_object env cfg p None consent i now (vs_db st) = Inr db" "v = fetch_object (oc_name cfg) i db" "st' = st\<lparr>vs_db := db\<rparr>"
    by (auto simp: create_object_def split: sum.splits)
  with committed_object[OF this(1) assms(2)] show ?thesis by (auto simp: get_object_def)
qed

section \<open>Consent\<close>

text \<open>A grant that was active for the payload, and the link to it.\<close>

definition consent_behind :: "payload \<Rightarrow> string \<Rightarrow> nat \<Rightarrow> vault_db \<Rightarrow> vault_db \<Rightarrow> bool" where
  "consent_behind p table i db db' \<longleftrightarrow>
    (\<exists>g\<in>set (vd_rows db). vr_table g = ''consent_register'' \<and> cell_is g ''revoked_at'' C_Null \<and>
       cell_is g ''data_subject_ref'' (C_Json (value_at p ''data_subject_ref'')) \<and>
       cell_is g ''channel'' (C_Json (value_at p ''consent_channel'')) \<and>
       cell_is g ''purpose'' (C_Json (value_at p ''consent_purpose'')) \<and>
       \<lparr>lk_table = table, lk_object = i, lk_consent = vr_id g\<rparr> \<in> set (vd_links db'))"

lemma gate_links:
  assumes "create_checks env cfg p db = Inr consent" "commit_object env cfg p blob consent i now db = Inr db'"
      and "jtruth (value_at p ''data_subject_ref'')" "oc_name cfg \<noteq> ''consent_register''" "i \<notin> lk_object ` set (vd_links db)"
  shows "consent_behind p (oc_name cfg) i db db'"
proof -
  from create_checks_gate[OF assms(1)] assms(3,4) have "consent \<noteq> None"
    by (cases consent) (auto simp: handle_consent_gate_def simp del: text_at.simps split: if_splits option.splits)
  then obtain c where c: "consent = Some c" by blast
  from create_checks_gate[OF assms(1)] c have "handle_consent_gate env (oc_name cfg) p db = Inr (Some c)" by simp
  then obtain s ch q where t: "text_at env p ''data_subject_ref'' = Some s"
    "text_at env p ''consent_channel'' = Some ch" "text_at env p ''consent_purpose'' = Some q" and f: "find_active_consent s ch q db = Some c"
    by (rule gate_consent)
  have v: "value_at p ''data_subject_ref'' = JStr s" "value_at p ''consent_channel'' = JStr ch" "value_at p ''consent_purpose'' = JStr q"
    using t[THEN text_at_value] by (simp_all add: value_at_def)
  obtain db1 where ins: "insert_object env cfg p blob i now db = Inr db1" and db': "db' = link_consent (oc_name cfg) i c db1"
    using commit_object_insert[OF assms(2)] c by (metis option.simps(5))
  have "vd_links db1 = vd_links db" by (rule insert_object_put[OF ins]) simp
  then have "\<lparr>lk_table = oc_name cfg, lk_object = i, lk_consent = c\<rparr> \<in> set (vd_links db')"
    using assms(5) by (auto simp: db' link_consent_def)
  with active_consent[OF f] show ?thesis unfolding consent_behind_def v by blast
qed


text \<open>Content that no row uses is left alone.\<close>

lemma unused_content:
  assumes "sweep_rows env now ps b = (None, b')" "\<forall>r\<in>set (vd_rows (bt_db b)). \<not> uses h r"
  shows "map_of (bt_blobs b') h = map_of (bt_blobs b) h"
  using assms
proof (induction ps arbitrary: b)
  case (Cons p ps)
  from Cons.prems(1) obtain b1 where b1: "sweep_row env now p b = Inr b1" and rest: "sweep_rows env now ps b1 = (None, b')"
    by (auto split: sum.splits)
  have "\<forall>r\<in>set (vd_rows (bt_db b1)). \<not> uses h r"
    using beside_row[OF b1] Cons.prems(2) by (auto simp: beside_def)
  note IH = Cons.IH[OF rest this]
  have "map_of (bt_blobs b1) h = map_of (bt_blobs b) h"
  proof (rule ccontr)
    assume diff: "map_of (bt_blobs b1) h \<noteq> map_of (bt_blobs b) h"
    with b1 obtain bs where "drop_blob env (content_hash_of (rp_table p) (rp_object p) (bt_db b)) (rp_object p) (bt_db b) (bt_blobs b) = Some bs"
      "bt_blobs b1 = bs"
      by (auto simp: sweep_row_def Let_def split: if_splits option.splits sum.splits)
    with diff have "content_hash_of (rp_table p) (rp_object p) (bt_db b) = Some h" by (auto dest: drop_blob_content)
    then obtain r where r: "row_at ''assets'' (rp_object p) (bt_db b) = Some r" "map_option fst (vr_blob r) = Some h"
      by (auto simp: content_hash_of_def split: if_splits option.splits)
    then have "r \<in> set (vd_rows (bt_db b))" "vr_table r = ''assets''" by (auto simp: row_at_def dest: find_SomeD)
    with Cons.prems(2) r(2) show False by (simp add: uses_def)
  qed
  with IH show ?case by simp
qed simp

section \<open>The content of an asset\<close>

lemma store_reads:
  assumes "store_content_addressed env raw blobs = Some ((digest, uri, deduped), blobs')"
      and "\<forall>raw'. map_of blobs (sha256_hexdigest raw) = Some raw' \<longrightarrow> raw' = raw"
  shows "digest = sha256_hexdigest raw \<and> map_of blobs' digest = Some raw"
proof (cases "map_of blobs (sha256_hexdigest raw)")
  case None
  with assms show ?thesis by (auto simp: store_content_addressed_def Let_def map_add_def split: if_splits)
qed (use assms in \<open>auto simp: store_content_addressed_def Let_def split: if_splits\<close>)

lemma decode_encoded: "value_at p ''content_base64'' = JStr (b64encode raw) \<Longrightarrow> \<forall>x\<in>set raw. x < 256 \<Longrightarrow>
    decode_content p = Inr (s, r) \<Longrightarrow> s = b64encode raw \<and> r = raw"
  using b64_round_trip[of raw] by (auto simp: decode_content_def split: if_splits)

text \<open>The content of an asset that was created is read back as it was submitted, if no other
content has its digest and the blob service answers.\<close>

theorem asset_content_round_trip:
  assumes "create_asset_route env p i now st = (Inr (obj, echoed), st')"
      and "value_at p ''content_base64'' = JStr (b64encode raw)" and "\<forall>x\<in>set raw. x < 256"
      and "\<forall>raw'. map_of (vs_blobs st) (sha256_hexdigest raw) = Some raw' \<longrightarrow> raw' = raw"
      and "ve_blobs_up env' (sha256_hexdigest raw)"
  shows "fst (get_asset_route env' i caller later st') = Inr (obj, b64encode raw) \<and> echoed = b64encode raw"
proof -
  from assms(1) obtain r consent digest uri deduped blobs db where
    dec: "decode_content p = Inr (echoed, r)"
    and store: "store_content_addressed env r (vs_blobs st) = Some ((digest, uri, deduped), blobs)"
    and com: "commit_object env ASSETS p (Some (digest, uri)) consent i now (vs_db st) = Inr db"
    and view: "fetch_object ''assets'' i db = Some obj" and st': "st' = st\<lparr>vs_db := db, vs_blobs := blobs\<rparr>"
    by (auto simp: create_asset_route_def split: sum.splits option.splits prod.splits)
  have r: "echoed = b64encode raw" "r = raw" using decode_encoded[OF assms(2,3) dec] by simp_all
  note d = store_reads[OF store[unfolded r(2)] assms(4), THEN conjunct1] store_reads[OF store[unfolded r(2)] assms(4), THEN conjunct2]
  have a: "oc_name ASSETS = ''assets''" "ASSETS \<in> set OBJECT_TYPES" by (simp_all add: ASSETS_def config_def OBJECT_TYPES_def)
  from committed_object[OF com a(2)] view obtain row tx where row: "obj = (row, Some tx)" "vr_blob row = Some (digest, uri)"
    by (auto simp: a(1))
  show ?thesis
    using view d r row assms(5) by (simp add: get_asset_route_def get_object_def a(1) st' read_content_def)
qed

text \<open>DELETE of an asset leaves its content: the later sweep of its retention row records a
deletion and marks the row, while the blob, used by no other asset, stays for good.\<close>

theorem deleted_asset_keeps_content:
  assumes "vault_wf (vs_db st)" and "row_at ''assets'' i (vs_db st) = Some r" and "vr_blob r = Some (h, uri)"
      and "\<not> still_referenced h i (vs_db st)" and "delete_object ASSETS i st = (Inr (), st1)"
      and "picks env" and "p \<in> set (expired now (vs_db st1))" and "rp_table p = ''assets''" and "rp_object p = i"
      and "run_retention_expiry env run now later st1 = (Inr s, st2)"
  shows "map_of (vs_blobs st2) h = map_of (vs_blobs st) h \<and> swept_away now p (vs_db st2)"
proof -
  have a: "oc_name ASSETS = ''assets''" by (simp add: ASSETS_def config_def)
  from assms(5) obtain db where del: "delete_row ''assets'' i (vs_db st) = Inr db" and st1: "st1 = st\<lparr>vs_db := db\<rparr>"
    by (auto simp: delete_object_def a split: if_splits sum.splits)
  have rows: "vd_rows db = filter (\<lambda>r. \<not> (vr_table r = ''assets'' \<and> vr_id r = i)) (vd_rows (vs_db st))"
    using deleted_row(1)[OF del] by (simp add: drop_row_def)
  have wf: "vault_wf (vs_db st1)" using wf_change[OF ch_drop[OF del] assms(1)] by (simp add: st1)
  have none: "\<forall>r\<in>set (vd_rows (vs_db st1)). \<not> uses h r"
    using assms(4) by (auto simp: st1 rows still_referenced_def uses_def)
  from assms(10) obtain b where b: "sweep_rows env now (ve_pick env (expired now (open_run run now (vs_db st1))))
      \<lparr>bt_db = open_run run now (vs_db st1), bt_blobs = vs_blobs st1, bt_isolated = [], bt_deleted = 0, bt_failed = 0\<rparr> = (None, b)"
    and blobs: "vs_blobs st2 = bt_blobs b"
    by (auto simp: run_retention_expiry_def Let_def split: prod.splits option.splits)
  have "map_of (bt_blobs b) h = map_of (vs_blobs st1) h"
    using unused_content[OF b, of h] none by (simp add: open_run_def)
  moreover have "\<not> kept_back env p (vs_db st2)"
  proof
    assume "kept_back env p (vs_db st2)"
    then obtain q where "q \<in> set (vd_rows (vs_db st2))" "row_key q = ret_key p" unfolding kept_back_def by blast
    moreover from sweep_outcome[OF wf assms(6,10)] have "set (vd_rows (vs_db st2)) \<subseteq> set (vd_rows (vs_db st1))" by blast
    ultimately have "q \<in> set (vd_rows db)" "vr_table q = ''assets''" "vr_id q = i" using assms(8,9) by (auto simp: st1)
    then show False by (simp add: rows)
  qed
  moreover have "known_table ''assets''" by (simp add: known_table_def)
  with sweep_outcome[OF wf assms(6,10)] assms(7,8) have "swept_away now p (vs_db st2) \<or> kept_back env p (vs_db st2)" by metis
  ultimately show ?thesis by (simp add: blobs st1)
qed

section \<open>Daily counts\<close>

definition reads :: "int \<Rightarrow> string \<times> string \<Rightarrow> vault_db \<Rightarrow> nat" where
  "reads day k db = length (filter (\<lambda>a. (ax_table a, ax_caller a) = k) (reads_of_day day db))"

definition daily_count :: "int \<Rightarrow> string \<times> string \<Rightarrow> vault_db \<Rightarrow> nat option" where
  "daily_count day k db = map_option dy_count (List.find (daily_is day k) (vd_daily db))"

lemma daily_upsert:
  "map_option dy_count (List.find (daily_is d k) (upsert_daily day g ds)) =
    (if d = day \<and> k = fst g then Some (snd g) else map_option dy_count (List.find (daily_is d k) ds))"
proof (cases "\<exists>x\<in>set ds. daily_is day (fst g) x")
  case True
  have "daily_is d k (x\<lparr>dy_count := n\<rparr>) = daily_is d k x" for x n by (simp add: daily_is_def)
  then have "List.find (daily_is d k) (upsert_daily day g ds) =
      map_option (\<lambda>x. if daily_is day (fst g) x then x\<lparr>dy_count := snd g\<rparr> else x) (List.find (daily_is d k) ds)"
    using True by (simp add: upsert_daily_def find_update)
  moreover from True have "List.find (daily_is day (fst g)) ds \<noteq> None" by (auto simp: find_None_iff)
  moreover have "List.find (daily_is d k) ds = Some x \<Longrightarrow> daily_is d k x" for x by (auto dest: find_SomeD)
  ultimately show ?thesis
    by (cases "List.find (daily_is d k) ds") (auto simp: daily_is_def)
next
  case False
  then have none: "List.find (daily_is day (fst g)) ds = None" by (auto simp: find_None_iff)
  have "List.find P (xs @ [y]) = (case List.find P xs of Some x \<Rightarrow> Some x | None \<Rightarrow> if P y then Some y else None)"
    for P and xs :: "daily_row list" and y by (induction xs) auto
  with False none show ?thesis
    by (cases "List.find (daily_is d k) ds") (auto simp: upsert_daily_def daily_is_def)
qed

lemma daily_fold:
  assumes "distinct (map fst gs)"
  shows "map_option dy_count (List.find (daily_is d k) (fold (upsert_daily day) gs ds)) =
    (if d = day \<and> k \<in> fst ` set gs then map_of gs k else map_option dy_count (List.find (daily_is d k) ds))"
  using assms by (induction gs arbitrary: ds) (auto simp: daily_upsert map_of_eq_None_iff)

lemma groups_of:
  "distinct (map fst (read_groups day db))"
  "map_of (read_groups day db) k = (if reads day k db = 0 then None else Some (reads day k db))"
proof -
  let ?keys = "map (\<lambda>a. (ax_table a, ax_caller a)) (reads_of_day day db)"
  show "distinct (map fst (read_groups day db))" by (simp add: read_groups_def Let_def comp_def)
  have n: "reads day k db = count_list ?keys k"
    by (simp add: reads_def count_list_eq_length_filter filter_map comp_def) (metis)
  have "map_of (map (\<lambda>k. (k, count_list ?keys k)) (remdups ?keys)) k = (if k \<in> set ?keys then Some (count_list ?keys k) else None)"
    by (subst map_of_map_restrict) (simp add: restrict_map_def)
  then show "map_of (read_groups day db) k = (if reads day k db = 0 then None else Some (reads day k db))"
    by (simp add: read_groups_def Let_def n count_list_0_iff)
qed

definition rolled_up :: "int \<Rightarrow> ((string \<times> string) \<times> nat) list \<Rightarrow> daily_row list \<Rightarrow> bool" where
  "rolled_up day gs ds \<longleftrightarrow> (\<forall>g\<in>set gs. (\<exists>d\<in>set ds. daily_is day (fst g) d) \<and> (\<forall>d\<in>set ds. daily_is day (fst g) d \<longrightarrow> dy_count d = snd g))"

lemma upsert_rolled: "rolled_up day gs ds \<Longrightarrow> fold (upsert_daily day) gs ds = ds"
proof (induction gs)
  case (Cons g gs)
  then have "upsert_daily day g ds = ds"
    by (auto simp: rolled_up_def upsert_daily_def update_where_def intro!: map_idI)
  with Cons show ?case by (simp add: rolled_up_def)
qed simp

lemma upsert_mem:
  "x \<in> set ds \<Longrightarrow> \<not> daily_is day (fst g) x \<Longrightarrow> x \<in> set (upsert_daily day g ds)"
  "x \<in> set (upsert_daily day g ds) \<Longrightarrow> (daily_is day (fst g) x \<and> dy_count x = snd g) \<or> (x \<in> set ds \<and> \<not> daily_is day (fst g) x)"
  by (auto simp: upsert_daily_def update_where_def daily_is_def split: if_splits)

lemma upsert_there: "\<exists>x\<in>set (upsert_daily day g ds). daily_is day (fst g) x"
proof (cases "\<exists>d\<in>set ds. daily_is day (fst g) d")
  case True
  then obtain d where d: "d \<in> set ds" "daily_is day (fst g) d" by blast
  then have "d\<lparr>dy_count := snd g\<rparr> \<in> set (upsert_daily day g ds)" "daily_is day (fst g) (d\<lparr>dy_count := snd g\<rparr>)"
    by (auto simp: upsert_daily_def update_where_def daily_is_def)
  then show ?thesis by blast
qed (auto simp: upsert_daily_def daily_is_def)

lemma upsert_rolls:
  assumes "rolled_up day gs ds" "fst g \<notin> fst ` set gs"
  shows "rolled_up day (g # gs) (upsert_daily day g ds)"
proof -
  have apart: "\<not> daily_is day (fst g) x" if "h \<in> set gs" "daily_is day (fst h) x" for h x
    using assms(2) that by (metis daily_is_def imageI)
  have "\<exists>d\<in>set (upsert_daily day g ds). daily_is day (fst h) d" if "h \<in> set gs" for h
    using assms(1) that apart upsert_mem(1) unfolding rolled_up_def by blast
  moreover have "dy_count d = snd h" if "h \<in> set gs" "d \<in> set (upsert_daily day g ds)" "daily_is day (fst h) d" for h d
    using assms(1) that apart upsert_mem(2) unfolding rolled_up_def by blast
  moreover have "dy_count d = snd g" if "d \<in> set (upsert_daily day g ds)" "daily_is day (fst g) d" for d
    using that upsert_mem(2) by blast
  ultimately show ?thesis using upsert_there unfolding rolled_up_def by auto
qed

lemma fold_rolls:
  assumes "distinct (map fst (hs @ gs))" "rolled_up day hs ds"
  shows "rolled_up day (rev gs @ hs) (fold (upsert_daily day) gs ds)"
  using assms
proof (induction gs arbitrary: hs ds)
  case (Cons g gs)
  have "rolled_up day (g # hs) (upsert_daily day g ds)" using Cons.prems by (intro upsert_rolls) auto
  from Cons.IH[OF _ this] Cons.prems(1) show ?case by auto
qed simp

text \<open>The rollup of a day stores the number of reads of each object type by each caller on that
day, leaves the other days alone, and a second rollup of the same day changes nothing.\<close>

theorem rollup_counts_reads:
  "daily_count d k (snd (run_rollup day db)) =
     (if d = day \<and> reads day k db \<noteq> 0 then Some (reads day k db) else daily_count d k db) \<and>
   run_rollup day (snd (run_rollup day db)) = run_rollup day db"
proof -
  let ?gs = "read_groups day db"
  let ?db = "snd (run_rollup day db)"
  have "k \<in> fst ` set ?gs \<longleftrightarrow> reads day k db \<noteq> 0" for k
    using groups_of(2)[of day db k] by (metis map_of_eq_None_iff option.distinct(1))
  then have "daily_count d k ?db = (if d = day \<and> reads day k db \<noteq> 0 then Some (reads day k db) else daily_count d k db)"
    by (simp add: daily_count_def run_rollup_def Let_def daily_fold[OF groups_of(1)] groups_of(2))
  moreover have same: "read_groups day ?db = ?gs"
    by (simp add: read_groups_def reads_of_day_def run_rollup_def Let_def)
  have "rolled_up day (rev ?gs @ []) (fold (upsert_daily day) ?gs (vd_daily db))"
    using groups_of(1)[of day db] by (intro fold_rolls) (simp_all add: rolled_up_def)
  then have "rolled_up day ?gs (vd_daily ?db)" by (simp add: rolled_up_def run_rollup_def Let_def)
  from upsert_rolled[OF this] have "run_rollup day ?db = run_rollup day db"
    by (simp add: run_rollup_def[of day ?db] Let_def same) (simp add: run_rollup_def Let_def)
  ultimately show ?thesis ..
qed

end
