(* ===== verification/Vault_Witness.thy ===== *)
theory Vault_Witness
  imports Vault_Reads
begin

text \<open>A vault with one campaign that names itself, an agent run, an asset and a consent, and the
theorems about the vault at it.\<close>

definition vault_demo_env :: vault_env where
  "vault_demo_env = \<lparr>ve_binds = \<lambda>t v. True, ve_iso = \<lambda>s. None, ve_str = \<lambda>j. [], ve_date = \<lambda>s. None, ve_rank = \<lambda>s. 0,
     ve_account = ''account'', ve_container = ''assets'', ve_blobs_up = \<lambda>d. True, ve_pick = \<lambda>rs. rs\<rparr>"

definition stored_row :: "string \<Rightarrow> nat \<Rightarrow> nat option \<Rightarrow> (string \<times> cell) list \<Rightarrow> (string \<times> string) option \<Rightarrow> instant option \<Rightarrow> vrow" where
  "stored_row t i campaign cells blob updated =
    \<lparr>vr_table = t, vr_id = i, vr_campaign = campaign, vr_cells = cells, vr_blob = blob, vr_created = 0, vr_updated = updated\<rparr>"

definition stored_tax :: "string \<Rightarrow> nat \<Rightarrow> tax_row" where
  "stored_tax t i = \<lparr>tx_table = t, tx_object = i, tx_vertical = ''mobility'', tx_function = ''seed'', tx_campaign = 1,
     tx_grade = ''B'', tx_consent = ''not_required'', tx_class = ''standard_1y''\<rparr>"

definition stored_ret :: "string \<Rightarrow> nat \<Rightarrow> instant \<Rightarrow> ret_row" where
  "stored_ret t i e = \<lparr>rp_table = t, rp_object = i, rp_class = ''standard_1y'', rp_expires = e, rp_deleted = None\<rparr>"

definition seed_rows :: "vrow list" where
  "seed_rows =
    [stored_row ''campaigns'' 1 None [(''name'', C_Json (JStr ''spring'')), (''status'', C_Json (JStr ''draft'')),
       (''starts_at'', C_Null), (''ends_at'', C_Null)] None (Some 0),
     stored_row ''agent_runs'' 2 (Some 1) [(''agent_name'', C_Json (JStr ''writer'')), (''status'', C_Json (JStr ''running'')),
       (''input'', C_Json (JObj [])), (''output'', C_Json (JObj [])), (''completed_at'', C_Null)] None None,
     stored_row ''consent_register'' 4 None [(''data_subject_ref'', C_Json (JStr ''ann'')), (''lawful_basis'', C_Json (JStr ''consent'')),
       (''channel'', C_Json (JStr ''email'')), (''purpose'', C_Json (JStr ''news'')), (''revoked_at'', C_Null)] None None]"

definition asset_row :: vrow where
  "asset_row = stored_row ''assets'' 3 (Some 1) [(''brief_id'', C_Null), (''asset_type'', C_Json (JStr ''post'')),
     (''agent_run_id'', C_Uuid 2), (''predecessor_asset_id'', C_Null), (''version'', C_Json (JInt 1)),
     (''approval_state'', C_Json (JStr ''draft''))] (Some (''d'', ''uri'')) (Some 0)"

definition seed_db :: vault_db where
  "seed_db = (vs_db empty_vault)\<lparr>vd_rows := asset_row # seed_rows,
     vd_tax := [stored_tax ''campaigns'' 1, stored_tax ''agent_runs'' 2, stored_tax ''assets'' 3, stored_tax ''consent_register'' 4],
     vd_ret := [stored_ret ''assets'' 3 50, stored_ret ''campaigns'' 1 100, stored_ret ''agent_runs'' 2 200, stored_ret ''consent_register'' 4 300]\<rparr>"

definition seeded :: vault_state where
  "seeded = \<lparr>vs_db = seed_db, vs_blobs = [(''d'', [1, 2])]\<rparr>"

lemmas stored_defs = seeded_def seed_db_def asset_row_def seed_rows_def stored_row_def stored_tax_def stored_ret_def empty_vault_def

lemma vault_demo_picks: "picks vault_demo_env"
  by (simp add: picks_def vault_demo_env_def)

lemma seed_keyed: "keyed seed_db"
  by (simp add: keyed_def stored_defs)

lemma seed_refs: "closed_refs seed_db"
proof -
  have "row_refs asset_row = [(''campaigns'', 1), (''agent_runs'', 2)]" by code_simp
  moreover have "map row_refs seed_rows = [[], [(''campaigns'', 1)], []]" by code_simp
  then have "\<forall>r\<in>set seed_rows. set (row_refs r) \<subseteq> {(''campaigns'', 1)}" by (simp add: seed_rows_def)
  moreover have "present seed_db (''campaigns'', 1)" "present seed_db (''agent_runs'', 2)"
    by (simp_all add: present_def stored_defs)
  moreover have "vd_rows seed_db = asset_row # seed_rows" "vd_links seed_db = []" "vd_cards seed_db = []"
    "\<forall>t\<in>set (vd_tax seed_db). tx_campaign t = 1"
    by (simp_all add: seed_db_def stored_tax_def empty_vault_def)
  ultimately show ?thesis unfolding closed_refs_def by fastforce
qed

lemma seed_retention: "retention_ok seed_db"
  by (simp add: retention_ok_def stored_defs)

lemma seed_wf: "vault_wf (vs_db seeded)"
  by (simp add: vault_wf_def seeded_def seed_keyed seed_refs seed_retention)

lemma seed_typed: "rows_typed (vs_db seeded)"
proof -
  have "list_all (\<lambda>r. list_ex (\<lambda>cfg. row_typed cfg r) OBJECT_TYPES) (vd_rows (vs_db seeded))" 
    by (simp add: stored_defs OBJECT_TYPES_def ASSETS_def config_def spec_def row_typed_def listed_def NOT_NULL_def ENUMS_def)
  then show ?thesis by (simp add: rows_typed_def list_all_iff list_ex_iff)
qed

section \<open>A client-derived signal\<close>

definition SIGNALS :: object_config where "SIGNALS = OBJECT_TYPES ! 0"

definition signal_payload :: payload where
  "signal_payload = [(''vertical'', JStr ''mobility''), (''function_id'', JStr ''09''),
     (''campaign'', JStr ''00000000-0000-0000-0000-000000000001''), (''evidence_grade'', JStr ''B''),
     (''consent_status'', JStr ''granted''), (''retention_class'', JStr ''ephemeral_30d''), (''source'', JStr ''inbox''),
     (''signal_type'', JStr ''reply''), (''data_subject_ref'', JStr ''ann''), (''consent_channel'', JStr ''email''),
     (''consent_purpose'', JStr ''news'')]"

lemma signals: "SIGNALS \<in> set OBJECT_TYPES" "SIGNALS \<noteq> ASSETS" "oc_name SIGNALS = ''signals''"
  by (simp_all add: SIGNALS_def OBJECT_TYPES_def ASSETS_def config_def)

lemma signal_created: "\<not> isl (fst (create_object vault_demo_env SIGNALS signal_payload 9 10 seeded))"
  by code_simp

theorem created_object_reads_back_witness:
  "\<exists>v st' row tx. create_object vault_demo_env SIGNALS signal_payload 9 10 seeded = (Inr v, st') \<and>
     fst (get_object SIGNALS 9 (Some ''console'') 20 st') = Inr (row, Some tx) \<and>
     taxonomy_text tx ''function_id'' = ''09'' \<and> tx_campaign tx = 1"
proof -
  obtain v st' where run: "create_object vault_demo_env SIGNALS signal_payload 9 10 seeded = (Inr v, st')"
    using signal_created by (metis isl_def obj_sumE prod.collapse)
  from created_object_reads_back[OF run signals(1), where later = 20 and caller = "Some ''console''"] obtain row tx where
    get: "fst (get_object SIGNALS 9 (Some ''console'') 20 st') = Inr (row, Some tx)"
    and texts: "\<forall>f\<in>set [''vertical'', ''function_id'', ''evidence_grade'', ''consent_status'', ''retention_class''].
       map_of signal_payload f = Some (JStr (taxonomy_text tx f))"
    and campaign: "py_uuid (str_of (ve_str vault_demo_env) (value_at signal_payload ''campaign'')) = Some (tx_campaign tx)"
    by blast
  have "py_uuid (str_of (ve_str vault_demo_env) (value_at signal_payload ''campaign'')) = Some 1" by code_simp
  with campaign have "tx_campaign tx = 1" by simp
  moreover have "map_of signal_payload ''function_id'' = Some (JStr ''09'')" by code_simp
  with texts have "taxonomy_text tx ''function_id'' = ''09''" by simp
  ultimately show ?thesis using run get by blast
qed


lemma signal_step: "vault_step seeded (snd (create_object vault_demo_env SIGNALS signal_payload 9 10 seeded))"
  using signals by (intro step_create) (simp_all add: fresh_id_def stored_defs)

lemma signal_run: "vault_run seeded (snd (create_object vault_demo_env SIGNALS signal_payload 9 10 seeded))"
  unfolding vault_run_def by (rule r_into_rtranclp[of vault_step, OF signal_step])

theorem vault_stays_consistent_witness:
  "vault_wf (vs_db (snd (create_object vault_demo_env SIGNALS signal_payload 9 10 seeded)))"
  by (rule vault_stays_consistent[OF seed_wf signal_run])

theorem stored_rows_are_typed_witness:
  "rows_typed (vs_db (snd (create_object vault_demo_env SIGNALS signal_payload 9 10 seeded)))"
  by (rule stored_rows_are_typed[OF seed_typed signal_run])

theorem bookkeeping_is_permanent_witness:
  "tax_at ''assets'' 3 (vs_db (snd (create_object vault_demo_env SIGNALS signal_payload 9 10 seeded))) = Some (stored_tax ''assets'' 3)"
  using bookkeeping_is_permanent[OF signal_run, of "''assets''" 3 "stored_tax ''assets'' 3" "stored_ret ''assets'' 3 50"]
  by (simp add: tax_at_def ret_at_def stored_defs)

section \<open>Sweeps\<close>


theorem crashed_sweep_loses_content_witness:
  "fst (get_asset_route vault_demo_env 3 None 200 (snd (run_retention_expiry vault_demo_env 5 150 151 seeded))) = Inl (Crashed ''AzureError'')"
proof -
  have e: "expired 150 (vs_db seeded) = [stored_ret ''assets'' 3 50, stored_ret ''campaigns'' 1 100]"
    by (simp add: expired_def stored_defs)
  have pick: "ve_pick vault_demo_env xs = xs" and up: "ve_blobs_up vault_demo_env h" for xs h by (simp_all add: vault_demo_env_def)
  have row: "row_at ''assets'' 3 (vs_db seeded) = Some asset_row" by (simp add: row_at_def stored_defs)
  have blob: "vr_blob asset_row = Some (''d'', ''uri'')" by (simp add: stored_defs)
  have alone: "\<not> still_referenced ''d'' 3 (vs_db seeded)" by (simp add: still_referenced_def stored_defs)
  from crashed_sweep_loses_content[OF seed_wf vault_demo_picks, of "stored_tax ''assets'' 3" "stored_ret ''campaigns'' 1 100" 150
      "stored_ret ''assets'' 3 50" "[stored_ret ''campaigns'' 1 100]" asset_row "''d''" "''uri''" 5 151 vault_demo_env None 200]
  show ?thesis using e pick up row blob alone by (simp add: stored_tax_def stored_ret_def seeded_def seed_db_def)
qed

lemma sweep_60: "\<not> isl (fst (run_retention_expiry vault_demo_env 5 60 61 seeded))"
  by code_simp

theorem sweep_is_exact_witness:
  "swept_away 60 (stored_ret ''assets'' 3 50) (vs_db (snd (run_retention_expiry vault_demo_env 5 60 61 seeded)))"
proof -
  obtain s st' where run: "run_retention_expiry vault_demo_env 5 60 61 seeded = (Inr s, st')"
    using sweep_60 by (metis isl_def obj_sumE prod.collapse)
  have e: "expired 60 (vs_db seeded) = [stored_ret ''assets'' 3 50]"
    by (simp add: expired_def stored_defs)
  have "known_table ''assets''" by (simp add: known_table_def)
  with sweep_is_exact[OF seed_wf vault_demo_picks run] e
  have "swept_away 60 (stored_ret ''assets'' 3 50) (vs_db st') \<or> kept_back vault_demo_env (stored_ret ''assets'' 3 50) (vs_db st')"
    by (simp add: stored_ret_def)
  moreover have "ve_blobs_up vault_demo_env h" for h by (simp add: vault_demo_env_def)
  ultimately show ?thesis by (simp add: run kept_back_def)
qed

definition asset_deleted :: vault_state where
  "asset_deleted = seeded\<lparr>vs_db := drop_row ''assets'' 3 seed_db\<rparr>"

lemma delete_asset: "delete_object ASSETS 3 seeded = (Inr (), asset_deleted)"
proof -
  have "\<not> referenced seed_db (''assets'', 3)" by code_simp
  then show ?thesis
    by (simp add: delete_object_def ASSETS_def config_def delete_row_def asset_deleted_def seeded_def)
qed

lemma sweep_deleted: "\<not> isl (fst (run_retention_expiry vault_demo_env 5 60 61 asset_deleted))"
  by code_simp

theorem deleted_asset_keeps_content_witness:
  "map_of (vs_blobs (snd (run_retention_expiry vault_demo_env 5 60 61 asset_deleted))) ''d'' = Some [1, 2]"
proof -
  obtain s st' where run: "run_retention_expiry vault_demo_env 5 60 61 asset_deleted = (Inr s, st')"
    using sweep_deleted by (metis isl_def obj_sumE prod.collapse)
  have e: "stored_ret ''assets'' 3 50 \<in> set (expired 60 (vs_db asset_deleted))"
    by (simp add: expired_def asset_deleted_def stored_defs)
  have row: "row_at ''assets'' 3 (vs_db seeded) = Some asset_row" by (simp add: row_at_def stored_defs)
  have alone: "\<not> still_referenced ''d'' 3 (vs_db seeded)" by (simp add: still_referenced_def stored_defs)
  have blob: "vr_blob asset_row = Some (''d'', ''uri'')" by (simp add: stored_defs)
  from deleted_asset_keeps_content[OF seed_wf row blob alone delete_asset vault_demo_picks e _ _ run]
  show ?thesis by (simp add: run stored_ret_def seeded_def)
qed

section \<open>Content\<close>

definition asset_payload :: payload where
  "asset_payload = (''content_base64'', JStr (b64encode [7, 2, 3])) # (''asset_type'', JStr ''post'') #
     (''agent_run_id'', JStr ''00000000-0000-0000-0000-000000000002'') # signal_payload"

lemma asset_checks: "create_checks vault_demo_env ASSETS asset_payload seed_db = Inr (Some 4)"
  by code_simp

lemma asset_committed: "\<not> isl (commit_object vault_demo_env ASSETS asset_payload (Some (h, u)) (Some 4) 9 10 seed_db)"
  by code_simp

lemma asset_decoded: "decode_content asset_payload = Inr (b64encode [7, 2, 3], [7, 2, 3])"
  by code_simp

theorem asset_content_round_trip_witness:
  "\<exists>obj st'. create_asset_route vault_demo_env asset_payload 9 10 seeded = (Inr obj, st') \<and>
    map_option snd (case fst (get_asset_route vault_demo_env 9 None 20 st') of Inr v \<Rightarrow> Some v | Inl x \<Rightarrow> None) = Some (b64encode [7, 2, 3])"
proof -
  let ?h = "sha256_hexdigest [7, 2, 3]"
  have d: "?h \<noteq> ''d''"
  proof
    assume "?h = ''d''"
    with sha256_hex_digest[of "[7, 2, 3]"] show False by (simp add: hex_digest_def)
  qed
  have store: "store_content_addressed vault_demo_env [7, 2, 3] (vs_blobs seeded) =
      Some ((?h, storage_uri_for vault_demo_env ?h, False), vs_blobs seeded @ [(?h, [7, 2, 3])])"
    using d by (simp add: store_content_addressed_def Let_def vault_demo_env_def seeded_def)
  obtain db where db: "commit_object vault_demo_env ASSETS asset_payload (Some (?h, storage_uri_for vault_demo_env ?h)) (Some 4) 9 10 seed_db = Inr db"
    using asset_committed by (metis isl_def obj_sumE)
  have a: "oc_name ASSETS = ''assets''" "ASSETS \<in> set OBJECT_TYPES" by (simp_all add: ASSETS_def config_def OBJECT_TYPES_def)
  from committed_object[OF db a(2)] obtain obj where obj: "fetch_object ''assets'' 9 db = Some obj" unfolding a(1) by blast
  have s: "vs_db seeded = seed_db" by (simp add: seeded_def)
  have run: "create_asset_route vault_demo_env asset_payload 9 10 seeded = (Inr (obj, b64encode [7, 2, 3]),
      seeded\<lparr>vs_db := db, vs_blobs := vs_blobs seeded @ [(?h, [7, 2, 3])]\<rparr>)"
    unfolding create_asset_route_def s by (simp add: asset_decoded asset_checks store db obj del: b64encode.simps)
  have v: "value_at asset_payload ''content_base64'' = JStr (b64encode [7, 2, 3])" by (simp add: value_at_def asset_payload_def)
  have b: "\<forall>x\<in>set [7, 2, 3 :: nat]. x < 256" by simp
  have n: "\<forall>raw'. map_of (vs_blobs seeded) ?h = Some raw' \<longrightarrow> raw' = [7, 2, 3]" using d by (simp add: seeded_def)
  have up: "ve_blobs_up vault_demo_env ?h" by (simp add: vault_demo_env_def)
  from asset_content_round_trip[OF run v b n up, of None 20] run show ?thesis by (auto simp del: b64encode.simps)
qed

end
