(* ===== verification/Option_Decide.thy ===== *)
theory Option_Decide
  imports Gatekeeper_Actions Vault_Routes
begin

text \<open>GET /decide of the gatekeeper (routers/option_decide.py, option_decisions.py) over the
Vault's tables option_cards and approval_decisions, and the internal route that signs a card
link (routers/option_link_signing.py). The connection commits each statement, so the handler is
split where another request can run in between: \<open>decide_read\<close> checks the request and fetches the
card, \<open>decide_write\<close> inserts the decision.\<close>

section \<open>Environment and requests\<close>

text \<open>\<open>op_sign\<close> and \<open>op_verify\<close> are the Key Vault signer and RSA verification, \<open>op_uuid\<close> the
database's reading of a text as a uuid, \<open>op_iso\<close> datetime.isoformat.\<close>

record option_env =
  op_sign :: "bytes \<Rightarrow> bytes"
  op_verify :: "bytes \<Rightarrow> bytes \<Rightarrow> bool"
  op_uuid :: "string \<Rightarrow> nat option"
  op_iso :: "instant \<Rightarrow> string"

record decide_query =
  dq_card :: string
  dq_sig :: string
  dq_opt :: "string option"
  dq_outcome :: "string option"
  dq_channel :: string

text \<open>The detail of the answer 409.\<close>

record decided_detail =
  dd_by :: json
  dd_at :: "string option"

type_synonym 'a option_reply = "decided_detail failure + 'a"

definition DECIDE_CHANNELS :: "string list" where
  "DECIDE_CHANNELS = [''teams_card'', ''console_inbox'', ''digest_email'', ''system'']"

definition query_ok :: "decide_query \<Rightarrow> bool" where
  "query_ok q \<longleftrightarrow>
    (case dq_opt q of Some x \<Rightarrow> x \<in> {''A'', ''B'', ''C''} | None \<Rightarrow> True) \<and>
    (case dq_outcome q of Some x \<Rightarrow> x = ''rejected_all'' | None \<Rightarrow> True) \<and> dq_channel q \<in> set DECIDE_CHANNELS"

definition DEFAULT_REJECTION_CODE :: string where "DEFAULT_REJECTION_CODE = ''other''"

section \<open>Reading the card\<close>

definition card_json :: "card_row \<Rightarrow> json" where
  "card_json row = (case jget (oq_fields row) ''card'' of Some v \<Rightarrow> v | None \<Rightarrow> JNull)"

text \<open>o["option_id"] of one entry; a list or an object cannot be put into a set.\<close>

fun option_id :: "json \<Rightarrow> string + json" where
  "option_id (JObj kvs) =
    (case jget kvs ''option_id'' of
       None \<Rightarrow> Inl ''KeyError''
     | Some (JArr _) \<Rightarrow> Inl ''TypeError''
     | Some (JObj _) \<Rightarrow> Inl ''TypeError''
     | Some v \<Rightarrow> Inr v)"
| "option_id _ = Inl ''TypeError''"

fun option_ids_of :: "json list \<Rightarrow> string + json list" where
  "option_ids_of [] = Inr []"
| "option_ids_of (x # xs) =
    (case option_id x of
       Inl e \<Rightarrow> Inl e
     | Inr v \<Rightarrow> (case option_ids_of xs of Inl e \<Rightarrow> Inl e | Inr vs \<Rightarrow> Inr (v # vs)))"

text \<open>The ids of card.get("options", []). Iterating a text or an object gives texts.\<close>

definition option_ids :: "json \<Rightarrow> string + json list" where
  "option_ids c =
    (case c of
       JObj kvs \<Rightarrow>
         (case jget kvs ''options'' of
            None \<Rightarrow> Inr []
          | Some (JArr xs) \<Rightarrow> option_ids_of xs
          | Some (JStr []) \<Rightarrow> Inr []
          | Some (JObj []) \<Rightarrow> Inr []
          | Some _ \<Rightarrow> Inl ''TypeError'')
     | _ \<Rightarrow> Inl ''AttributeError'')"

text \<open>sorted of a set: one element, or texts alone, or numbers alone.\<close>

definition is_text :: "json \<Rightarrow> bool" where "is_text j = (case j of JStr _ \<Rightarrow> True | _ \<Rightarrow> False)"

definition is_number :: "json \<Rightarrow> bool" where
  "is_number j = (case j of JInt _ \<Rightarrow> True | JFloat _ \<Rightarrow> True | JBool _ \<Rightarrow> True | _ \<Rightarrow> False)"

definition sortable :: "json list \<Rightarrow> bool" where
  "sortable ids \<longleftrightarrow> length (remdups ids) \<le> 1 \<or> (\<forall>j\<in>set ids. is_text j) \<or> (\<forall>j\<in>set ids. is_number j)"

section \<open>The decision row\<close>

definition text_or_null :: "string option \<Rightarrow> json" where
  "text_or_null x = (case x of Some s \<Rightarrow> JStr s | None \<Rightarrow> JNull)"

definition build_decision_signature :: "option_env \<Rightarrow> nat \<Rightarrow> string \<Rightarrow> string option \<Rightarrow> instant \<Rightarrow> string" where
  "build_decision_signature env i outcome chosen at =
    b64url (op_sign env (utf8_encode (dumps_sorted id
      (JObj [(''card_id'', JStr (uuid_str i)), (''outcome'', JStr outcome), (''chosen_option_id'', text_or_null chosen),
             (''decided_at'', JStr (op_iso env at))]))))"

definition was_recommended :: "card_row \<Rightarrow> string \<Rightarrow> string option \<Rightarrow> string + json" where
  "was_recommended row outcome chosen =
    (case card_json row of
       JObj kvs \<Rightarrow>
         (if outcome = ''chosen''
          then Inr (JBool (text_or_null chosen = (case jget kvs ''recommended_option_id'' of Some v \<Rightarrow> v | None \<Rightarrow> JNull)))
          else Inr JNull)
     | _ \<Rightarrow> Inl ''AttributeError'')"

definition latency_seconds :: "card_row \<Rightarrow> instant \<Rightarrow> int" where
  "latency_seconds row decided = max 0 ((decided - oq_created row) div 1000000)"

definition fetch_decision :: "nat \<Rightarrow> vault_db \<Rightarrow> dec_row option" where
  "fetch_decision i db = List.find (\<lambda>d. de_card d = i) (vd_decided db)"

definition decision_row ::
    "option_env \<Rightarrow> card_row \<Rightarrow> string \<Rightarrow> string option \<Rightarrow> string option \<Rightarrow> string \<Rightarrow> string \<Rightarrow> int \<Rightarrow> instant \<Rightarrow> json \<Rightarrow> dec_row" where
  "decision_row env row outcome chosen code who channel latency at recommended =
    \<lparr>de_card = oq_id row,
     de_fields = [(''outcome'', JStr outcome), (''chosen_option_id'', text_or_null chosen),
       (''was_recommended'', recommended), (''rejection_code'', text_or_null code), (''decided_by'', JStr who),
       (''latency_seconds'', JInt latency),
       (''signature'', JStr (build_decision_signature env (oq_id row) outcome chosen at)), (''channel'', JStr channel)],
     de_at = at\<rparr>"

text \<open>The insert, with the unique card and an integer column for the latency; None is a
decision that was recorded before.\<close>

definition record_decision ::
    "option_env \<Rightarrow> card_row \<Rightarrow> string \<Rightarrow> string option \<Rightarrow> string option \<Rightarrow> string \<Rightarrow> string \<Rightarrow> int \<Rightarrow> instant \<Rightarrow> vault_db \<Rightarrow>
     string + (dec_row option \<times> vault_db)" where
  "record_decision env row outcome chosen code who channel latency at db =
    (case was_recommended row outcome chosen of
       Inl e \<Rightarrow> Inl e
     | Inr recommended \<Rightarrow>
         (let d = decision_row env row outcome chosen code who channel latency at recommended
          in if latency > 2147483647 then Inl ''NumericValueOutOfRange''
             else if fetch_decision (oq_id row) db \<noteq> None then Inr (None, db)
             else Inr (Some d, db\<lparr>vd_decided := vd_decided db @ [d]\<rparr>)))"

section \<open>The route\<close>

definition option_principal :: "headers \<Rightarrow> principal option_reply" where
  "option_principal hs =
    (case principal_from_headers hs of
       Inl e \<Rightarrow> Inl (Crashed e)
     | Inr None \<Rightarrow> Inl (Refused 401 ''no authenticated principal on this request'')
     | Inr (Some p) \<Rightarrow> Inr p)"

definition fetch_card :: "option_env \<Rightarrow> string \<Rightarrow> vault_db \<Rightarrow> string + card_row option" where
  "fetch_card env s db = (case op_uuid env s of None \<Rightarrow> Inl ''InvalidTextRepresentation'' | Some i \<Rightarrow> Inr (card_at i db))"

definition check_option :: "card_row \<Rightarrow> string option \<Rightarrow> decided_detail failure option" where
  "check_option row opt =
    (case opt of
       None \<Rightarrow> None
     | Some x \<Rightarrow>
         (case option_ids (card_json row) of
            Inl e \<Rightarrow> Some (Crashed e)
          | Inr ids \<Rightarrow>
              if JStr x \<in> set ids then None
              else if sortable ids then Some (Refused 400 ''not one of this card options'')
              else Some (Crashed ''TypeError'')))"

text \<open>The read half, at the time \<open>now\<close>: the principal and the card.\<close>

definition decide_read ::
    "option_env \<Rightarrow> headers \<Rightarrow> decide_query \<Rightarrow> instant \<Rightarrow> vault_db \<Rightarrow> (principal \<times> card_row) option_reply" where
  "decide_read env hs q now db =
    (if \<not> query_ok q then Inl (Refused 422 ''validation error'')
     else (case option_principal hs of
       Inl e \<Rightarrow> Inl e
     | Inr p \<Rightarrow>
         if \<not> verify_card_link (op_verify env) (dq_card q) (dq_sig q) then Inl (Refused 403 ''signature does not match this card'')
         else if (dq_opt q = None) = (dq_outcome q = None) then Inl (Refused 400 ''exactly one of opt or outcome is required'')
         else (case fetch_card env (dq_card q) db of
           Inl e \<Rightarrow> Inl (Crashed e)
         | Inr None \<Rightarrow> Inl (Refused 404 ''option card not found'')
         | Inr (Some row) \<Rightarrow>
             if oq_expires row \<le> now then Inl (Refused 410 ''this card has expired'')
             else (case check_option row (dq_opt q) of
                     Some e \<Rightarrow> Inl e
                   | None \<Rightarrow> Inr (p, row)))))"

text \<open>The write half, at the later time \<open>at\<close>; the latency is counted to \<open>now\<close>.\<close>

definition decide_write ::
    "option_env \<Rightarrow> principal \<Rightarrow> card_row \<Rightarrow> decide_query \<Rightarrow> instant \<Rightarrow> instant \<Rightarrow> vault_db \<Rightarrow> dec_row option_reply \<times> vault_db" where
  "decide_write env p row q now at db =
    (let (outcome, code) = (case dq_opt q of Some _ \<Rightarrow> (''chosen'', None)
                            | None \<Rightarrow> (''rejected_all'', Some DEFAULT_REJECTION_CODE))
     in case record_decision env row outcome (dq_opt q) code (decided_by p) (dq_channel q) (latency_seconds row now) at db of
          Inl e \<Rightarrow> (Inl (Crashed e), db)
        | Inr (Some d, db') \<Rightarrow> (Inr d, db')
        | Inr (None, db') \<Rightarrow>
            (Inl (RefusedWith 409
               (case fetch_decision (oq_id row) db' of
                  Some d \<Rightarrow> \<lparr>dd_by = (case jget (de_fields d) ''decided_by'' of Some v \<Rightarrow> v | None \<Rightarrow> JNull), dd_at = Some (op_iso env (de_at d))\<rparr>
                | None \<Rightarrow> \<lparr>dd_by = JNull, dd_at = None\<rparr>)), db'))"

definition decide ::
    "option_env \<Rightarrow> headers \<Rightarrow> decide_query \<Rightarrow> instant \<Rightarrow> instant \<Rightarrow> vault_db \<Rightarrow> dec_row option_reply \<times> vault_db" where
  "decide env hs q now at db =
    (case decide_read env hs q now db of
       Inl e \<Rightarrow> (Inl e, db)
     | Inr (p, row) \<Rightarrow> decide_write env p row q now at db)"

section \<open>Signing a link\<close>

definition sign_option_card_link :: "option_env \<Rightarrow> (string \<times> json) list \<Rightarrow> (string \<times> string) option_reply" where
  "sign_option_card_link env payload =
    (case jget payload ''card_id'' of
       Some (JStr s) \<Rightarrow>
         if s = [] then Inl (Refused 422 ''card_id is required'') else Inr (s, sign_card_link (op_sign env) s)
     | _ \<Rightarrow> Inl (Refused 422 ''card_id is required''))"

end
