(* ===== verification/Option_Inbox.thy ===== *)
theory Option_Inbox
  imports Option_Decide Vault_Inv
begin

text \<open>Decisions under concurrency: any number of requests to /decide interleave with each other
and with the routes of the vault.\<close>

section \<open>What the vault leaves alone\<close>

named_theorems decided_simps \<open>operations that write no decision\<close>

lemma decided_parts [decided_simps]:
  "vd_decided (write_audit a db) = vd_decided db" "vd_decided (link_consent t i c db) = vd_decided db"
  "vd_decided (record_access t i w now db) = vd_decided db" "vd_decided (drop_row t i db) = vd_decided db"
  "vd_decided (mark_deleted t i now db) = vd_decided db" "vd_decided (open_run run now db) = vd_decided db"
  "vd_decided (close_run run n now db) = vd_decided db" "vd_decided (purge_access_log now db) = vd_decided db"
  "vd_decided (snd (run_rollup day db)) = vd_decided db"
  by (simp_all add: write_audit_def link_consent_def record_access_def drop_row_def mark_deleted_def open_run_def
      close_run_def purge_access_log_def run_rollup_def Let_def)

lemma decided_audits [decided_simps]: "vd_decided (fold write_audit as db) = vd_decided db"
  by (induction as arbitrary: db) (simp_all add: decided_simps)

lemma decided_delete: "delete_row t i db = Inr db' \<Longrightarrow> vd_decided db' = vd_decided db"
  by (auto simp: delete_row_def decided_simps split: if_splits)

lemma decided_insert: "insert_object env cfg p blob i now db = Inr db' \<Longrightarrow> vd_decided db' = vd_decided db"
  by (auto simp: insert_object_def Let_def split: option.splits sum.splits if_splits)

lemma decided_commit: "commit_object env cfg p blob consent i now db = Inr db' \<Longrightarrow> vd_decided db' = vd_decided db"
  by (auto simp: commit_object_def decided_simps dest: decided_insert split: sum.splits option.splits)

lemma decided_update: "update_object env cfg i p now db = Inr (r, db') \<Longrightarrow> vd_decided db' = vd_decided db"
  by (auto simp: update_object_def Let_def split: option.splits sum.splits if_splits)

lemma decided_sweep_row: "sweep_row env now r b = Inr b' \<Longrightarrow> vd_decided (bt_db b') = vd_decided (bt_db b)"
  by (auto simp: sweep_row_def Let_def decided_simps dest: decided_delete split: if_splits option.splits sum.splits)

lemma decided_sweep_rows: "vd_decided (bt_db (snd (sweep_rows env now rs b))) = vd_decided (bt_db b)"
proof (induction rs arbitrary: b)
  case (Cons r rs)
  then show ?case by (auto simp: raised_row_def dest: decided_sweep_row split: sum.splits option.splits)
qed simp

lemma decided_routes [decided_simps]:
  "vd_decided (vs_db (isolated as st)) = vd_decided (vs_db st)"
  "vd_decided (vs_db (snd (create_object env cfg p i now st))) = vd_decided (vs_db st)"
  "vd_decided (vs_db (snd (create_asset_route env p i now st))) = vd_decided (vs_db st)"
  "vd_decided (vs_db (snd (get_object cfg i caller now st))) = vd_decided (vs_db st)"
  "vd_decided (vs_db (snd (patch_object env cfg i p now st))) = vd_decided (vs_db st)"
  "vd_decided (vs_db (snd (delete_object cfg i st))) = vd_decided (vs_db st)"
proof -
  show iso: "vd_decided (vs_db (isolated as st)) = vd_decided (vs_db st)" for as st
    by (simp add: isolated_def decided_simps)
  show "vd_decided (vs_db (snd (create_object env cfg p i now st))) = vd_decided (vs_db st)"
    by (auto simp: create_object_def iso dest: decided_commit split: sum.splits)
  show "vd_decided (vs_db (snd (create_asset_route env p i now st))) = vd_decided (vs_db st)"
    by (auto simp: create_asset_route_def iso dest: decided_commit split: sum.splits option.splits)
  show "vd_decided (vs_db (snd (get_object cfg i caller now st))) = vd_decided (vs_db st)"
    by (auto simp: get_object_def decided_simps split: option.splits)
  show "vd_decided (vs_db (snd (patch_object env cfg i p now st))) = vd_decided (vs_db st)"
    by (auto simp: patch_object_def dest: decided_update split: sum.splits option.splits)
  show "vd_decided (vs_db (snd (delete_object cfg i st))) = vd_decided (vs_db st)"
    by (auto simp: delete_object_def dest: decided_delete split: sum.splits)
qed

lemma decided_asset [decided_simps]: "vd_decided (vs_db (snd (get_asset_route env i caller now st))) = vd_decided (vs_db st)"
  using decided_routes(4)[of ASSETS i caller now st]
  by (auto simp: get_asset_route_def split: prod.splits sum.splits option.splits)

lemma decided_sweep [decided_simps]: "vd_decided (vs_db (snd (trigger_retention_expiry env run now later st))) = vd_decided (vs_db st)"
proof -
  have "vd_decided (vs_db (snd (run_retention_expiry env run now later st))) = vd_decided (vs_db st)"
    using decided_sweep_rows[of env now "ve_pick env (expired now (open_run run now (vs_db st)))"
        "\<lparr>bt_db = open_run run now (vs_db st), bt_blobs = vs_blobs st, bt_isolated = [], bt_deleted = 0, bt_failed = 0\<rparr>"]
    by (auto simp: run_retention_expiry_def Let_def decided_simps split: prod.splits option.splits)
  then show ?thesis by (auto simp: trigger_retention_expiry_def split: prod.splits sum.splits option.splits)
qed

lemma decided_rollup [decided_simps]: "vd_decided (vs_db (snd (run_utilisation_rollup env q now st))) = vd_decided (vs_db st)"
proof -
  have "run_rollup day db = (n, db') \<Longrightarrow> vd_decided db' = vd_decided db" for day db n db'
    using decided_parts(9)[of day db] by simp
  then show ?thesis
    by (auto simp: run_utilisation_rollup_def Let_def split: option.splits json.splits prod.splits)
qed

lemma decided_card [decided_simps]: "vd_decided (vs_db (snd (create_option_card env p i now st))) = vd_decided (vs_db st)"
proof -
  have "insert_card env p j run created expires db = Inr (row, db') \<Longrightarrow> vd_decided db' = vd_decided db" for j run created expires db row db'
    by (auto simp: insert_card_def Let_def split: if_splits option.splits)
  then show ?thesis by (auto simp: create_option_card_def split: sum.splits)
qed

text \<open>Every step of the vault but the one that stands for the gatekeeper leaves the decisions
alone, and no step changes or removes a card.\<close>

lemma vault_steps_decide_nothing:
  "vault_step st st' \<Longrightarrow> vd_decided (vs_db st') = vd_decided (vs_db st) \<or>
     (\<exists>d. st' = st\<lparr>vs_db := (vs_db st)\<lparr>vd_decided := vd_decided (vs_db st) @ [d]\<rparr>\<rparr>)"
  by (induction rule: vault_step.induct) (simp_all add: decided_simps, blast)

lemma delete_keeps_cards: "delete_row t i db = Inr db' \<Longrightarrow> vd_cards db' = vd_cards db"
  by (auto simp: delete_row_def drop_row_def split: if_splits)

lemma change_keeps_cards: "db_change db db' \<Longrightarrow> \<exists>new. vd_cards db' = vd_cards db @ new"
  by (induction rule: db_change.induct) (auto simp: core_def link_consent_def mark_deleted_def dest: delete_keeps_cards)

lemma changes_keep_cards: "db_changes db db' \<Longrightarrow> \<exists>new. vd_cards db' = vd_cards db @ new"
  by (induction rule: rtranclp_induct) (auto dest!: change_keeps_cards)

lemma vault_keeps_cards: "vault_step st st' \<Longrightarrow> set (vd_cards (vs_db st)) \<subseteq> set (vd_cards (vs_db st'))"
  using vault_step_changes changes_keep_cards by fastforce

section \<open>The system\<close>

text \<open>\<open>ib_open\<close> are the requests between their read and their write; \<open>reqs\<close> are the requests that
people send, a header list with a query each.\<close>

record inbox =
  ib_vault :: vault_state
  ib_open :: "(principal \<times> card_row \<times> decide_query \<times> instant) list"

inductive inbox_step :: "option_env \<Rightarrow> (headers \<times> decide_query) set \<Rightarrow> inbox \<Rightarrow> inbox \<Rightarrow> bool" for env reqs where
  in_vault: "\<lbrakk>vault_step (ib_vault s) st; vd_decided (vs_db st) = vd_decided (vs_db (ib_vault s))\<rbrakk> \<Longrightarrow>
    inbox_step env reqs s (s\<lparr>ib_vault := st\<rparr>)"
| in_read: "\<lbrakk>(hs, q) \<in> reqs; decide_read env hs q now (vs_db (ib_vault s)) = Inr (p, row)\<rbrakk> \<Longrightarrow>
    inbox_step env reqs s (s\<lparr>ib_open := ib_open s @ [(p, row, q, now)]\<rparr>)"
| in_write: "(p, row, q, now) \<in> set (ib_open s) \<Longrightarrow>
    inbox_step env reqs s
      \<lparr>ib_vault = (ib_vault s)\<lparr>vs_db := snd (decide_write env p row q now at (vs_db (ib_vault s)))\<rparr>,
       ib_open = remove1 (p, row, q, now) (ib_open s)\<rparr>"

definition inbox_run :: "option_env \<Rightarrow> (headers \<times> decide_query) set \<Rightarrow> inbox \<Rightarrow> inbox \<Rightarrow> bool" where
  "inbox_run env reqs = (inbox_step env reqs)\<^sup>*\<^sup>*"

text \<open>What entitles a principal to decide a card by a request.\<close>

definition may_decide :: "option_env \<Rightarrow> (headers \<times> decide_query) set \<Rightarrow> vault_db \<Rightarrow> principal \<Rightarrow> card_row \<Rightarrow> decide_query \<Rightarrow> instant \<Rightarrow> bool" where
  "may_decide env reqs db p row q now \<longleftrightarrow>
    (\<exists>hs. (hs, q) \<in> reqs \<and> principal_from_headers hs = Inr (Some p)) \<and>
    verify_card_link (op_verify env) (dq_card q) (dq_sig q) \<and> op_uuid env (dq_card q) = Some (oq_id row) \<and>
    row \<in> set (vd_cards db) \<and> now < oq_expires row \<and>
    (case dq_opt q of Some x \<Rightarrow> \<exists>ids. option_ids (card_json row) = Inr ids \<and> JStr x \<in> set ids
     | None \<Rightarrow> dq_outcome q = Some ''rejected_all'')"

definition decision_of :: "principal \<Rightarrow> card_row \<Rightarrow> decide_query \<Rightarrow> dec_row \<Rightarrow> bool" where
  "decision_of p row q d \<longleftrightarrow> de_card d = oq_id row \<and>
    jget (de_fields d) ''decided_by'' = Some (JStr (decided_by p)) \<and>
    jget (de_fields d) ''chosen_option_id'' = Some (text_or_null (dq_opt q)) \<and>
    jget (de_fields d) ''outcome'' = Some (JStr (if dq_opt q = None then ''rejected_all'' else ''chosen'')) \<and>
    (dq_opt q \<noteq> None \<longrightarrow> (\<exists>kvs. card_json row = JObj kvs \<and>
       (jget (de_fields d) ''was_recommended'' = Some (JBool (jget kvs ''recommended_option_id'' = Some (text_or_null (dq_opt q)))))))"

definition inbox_inv :: "option_env \<Rightarrow> (headers \<times> decide_query) set \<Rightarrow> inbox \<Rightarrow> bool" where
  "inbox_inv env reqs s \<longleftrightarrow>
    (let db = vs_db (ib_vault s)
     in distinct (map de_card (vd_decided db)) \<and>
        (\<forall>d\<in>set (vd_decided db). \<exists>p row q now. may_decide env reqs db p row q now \<and> decision_of p row q d) \<and>
        (\<forall>(p, row, q, now)\<in>set (ib_open s). may_decide env reqs db p row q now))"

lemma may_decide_grows: "may_decide env reqs db p row q now \<Longrightarrow> set (vd_cards db) \<subseteq> set (vd_cards db') \<Longrightarrow> may_decide env reqs db' p row q now"
  by (auto simp: may_decide_def)

lemma read_entitles:
  assumes "decide_read env hs q now db = Inr (p, row)" "(hs, q) \<in> reqs"
  shows "may_decide env reqs db p row q now"
proof -
  from assms(1) have q: "query_ok q" "principal_from_headers hs = Inr (Some p)" "verify_card_link (op_verify env) (dq_card q) (dq_sig q)"
      "(dq_opt q = None) \<noteq> (dq_outcome q = None)" "fetch_card env (dq_card q) db = Inr (Some row)" "now < oq_expires row"
      "check_option row (dq_opt q) = None"
    by (auto simp: decide_read_def option_principal_def split: if_splits sum.splits option.splits)
  from q(5) have row: "row \<in> set (vd_cards db)" "op_uuid env (dq_card q) = Some (oq_id row)"
    by (auto simp: fetch_card_def card_at_def find_Some_iff split: option.splits)
  show ?thesis
  proof (cases "dq_opt q")
    case None
    with q(1,4) have "dq_outcome q = Some ''rejected_all''" by (auto simp: query_ok_def split: option.splits)
    with None q row assms(2) show ?thesis by (auto simp: may_decide_def)
  next
    case (Some x)
    with q(7) have "\<exists>ids. option_ids (card_json row) = Inr ids \<and> JStr x \<in> set ids"
      by (auto simp: check_option_def split: sum.splits if_splits)
    with Some q row assms(2) show ?thesis by (auto simp: may_decide_def)
  qed
qed

text \<open>A write appends one decision of a card that has none, or nothing at all.\<close>

lemma record_cases:
  obtains e where "record_decision env row outcome chosen code who channel latency at db = Inl e"
  | "record_decision env row outcome chosen code who channel latency at db = Inr (None, db)"
  | recommended where "was_recommended row outcome chosen = Inr recommended" "fetch_decision (oq_id row) db = None"
      "record_decision env row outcome chosen code who channel latency at db =
        Inr (Some (decision_row env row outcome chosen code who channel latency at recommended),
             db\<lparr>vd_decided := vd_decided db @ [decision_row env row outcome chosen code who channel latency at recommended]\<rparr>)"
proof (cases "was_recommended row outcome chosen")
  case (Inl e)
  then show thesis by (intro that(1)) (simp add: record_decision_def)
next
  case (Inr recommended)
  show thesis
  proof (cases "latency > 2147483647 \<or> fetch_decision (oq_id row) db \<noteq> None")
    case True
    with Inr that(1,2) show thesis by (cases "latency > 2147483647") (simp_all add: record_decision_def)
  next
    case False
    with Inr show thesis by (intro that(3)) (simp_all add: record_decision_def Let_def)
  qed
qed

lemma write_cases:
  obtains (none) r where "decide_write env p row q now at db = (Inl r, db)"
    | (decision) d where "decide_write env p row q now at db = (Inr d, db\<lparr>vd_decided := vd_decided db @ [d]\<rparr>)"
      "fetch_decision (oq_id row) db = None" "decision_of p row q d" "de_at d = at"
proof -
  define outcome where "outcome = (if dq_opt q = None then ''rejected_all'' else ''chosen'')"
  define code where "code = (if dq_opt q = None then Some DEFAULT_REJECTION_CODE else None)"
  define made where "made = record_decision env row outcome (dq_opt q) code (decided_by p) (dq_channel q) (latency_seconds row now) at db"
  have body: "decide_write env p row q now at db = (case made of
      Inl e \<Rightarrow> (Inl (Crashed e), db)
    | Inr (Some d, db') \<Rightarrow> (Inr d, db')
    | Inr (None, db') \<Rightarrow>
        (Inl (RefusedWith 409
           (case fetch_decision (oq_id row) db' of
              Some d \<Rightarrow> \<lparr>dd_by = (case jget (de_fields d) ''decided_by'' of Some v \<Rightarrow> v | None \<Rightarrow> JNull), dd_at = Some (op_iso env (de_at d))\<rparr>
            | None \<Rightarrow> \<lparr>dd_by = JNull, dd_at = None\<rparr>)), db'))"
    unfolding decide_write_def made_def outcome_def code_def by (cases "dq_opt q") simp_all
  show ?thesis
  proof (cases rule: record_cases[of env row outcome "dq_opt q" code "decided_by p" "dq_channel q" "latency_seconds row now" at db])
    case (1 e)
    with body none show ?thesis by (simp add: made_def)
  next
    case 2
    with body none show ?thesis by (simp add: made_def)
  next
    case (3 recommended)
    have "decision_of p row q (decision_row env row outcome (dq_opt q) code (decided_by p) (dq_channel q) (latency_seconds row now) at recommended)"
      using 3(1) by (cases "card_json row"; cases "dq_opt q")
        (auto simp: decision_of_def decision_row_def was_recommended_def outcome_def text_or_null_def split: option.splits)
    with 3 body decision show ?thesis by (simp add: made_def decision_row_def)
  qed
qed

lemma undecided: "fetch_decision i db = None \<Longrightarrow> i \<notin> de_card ` set (vd_decided db)"
  by (auto simp: fetch_decision_def find_None_iff)

lemma inbox_inv_step:
  assumes "inbox_step env reqs s s'" "inbox_inv env reqs s"
  shows "inbox_inv env reqs s'"
  using assms
proof (induction rule: inbox_step.induct)
  case (in_vault s st)
  have grows: "may_decide env reqs (vs_db (ib_vault s)) p row q now \<Longrightarrow> may_decide env reqs (vs_db st) p row q now" for p row q now
    using vault_keeps_cards[OF in_vault(1)] by (rule may_decide_grows[rotated])
  from in_vault(3) have "\<forall>d\<in>set (vd_decided (vs_db st)). \<exists>p row q now. may_decide env reqs (vs_db st) p row q now \<and> decision_of p row q d"
    "\<forall>(p, row, q, now)\<in>set (ib_open s). may_decide env reqs (vs_db st) p row q now"
    unfolding inbox_inv_def Let_def in_vault(2) using grows by blast+
  with in_vault(2,3) show ?case by (simp add: inbox_inv_def Let_def)
next
  case (in_read hs q now s p row)
  from read_entitles[OF in_read(2,1)] in_read(3) show ?case by (auto simp: inbox_inv_def Let_def)
next
  case (in_write p row q now s at)
  let ?db = "vs_db (ib_vault s)"
  have here: "may_decide env reqs ?db p row q now"
    and old: "distinct (map de_card (vd_decided ?db))"
      "\<forall>d\<in>set (vd_decided ?db). \<exists>p row q now. may_decide env reqs ?db p row q now \<and> decision_of p row q d"
      "\<forall>(p, row, q, now)\<in>set (ib_open s). may_decide env reqs ?db p row q now"
    using in_write by (auto simp: inbox_inv_def Let_def)
  have same: "may_decide env reqs (?db\<lparr>vd_decided := ds\<rparr>) = may_decide env reqs ?db" for ds
    by (intro ext) (simp add: may_decide_def)
  have rest: "\<forall>(p, row, q, now)\<in>set (remove1 x (ib_open s)). may_decide env reqs ?db p row q now" for x
    using old(3) notin_set_remove1 by fastforce
  show ?case
  proof (cases rule: write_cases[of env p row q now at ?db])
    case none
    with old rest show ?thesis by (simp add: inbox_inv_def Let_def)
  next
    case (decision d)
    from undecided[OF decision(2)] decision(3) have "de_card d \<notin> de_card ` set (vd_decided ?db)"
      by (simp add: decision_of_def)
    with old(1) have "distinct (map de_card (vd_decided ?db @ [d]))" by simp
    moreover have "\<forall>d'\<in>set (vd_decided ?db @ [d]). \<exists>p row q now. may_decide env reqs ?db p row q now \<and> decision_of p row q d'"
      using old(2) here decision(3) by auto
    ultimately show ?thesis using rest by (simp add: inbox_inv_def Let_def decision(1) same)
  qed
qed


end
