(* ===== verification/Option_Cards.thy ===== *)
theory Option_Cards
  imports Py_Json
begin

text \<open>Option cards and their routing (services/options_inbox/cards.py, policy.py): a producer's
proposal becomes a card whose risk tier, budget class and timeout come from the autonomy
matrix; pending cards are resolved by a standing permission, by their timeout, or shown to
a person within the daily budget. A card is a record with the keys that build_card writes.\<close>

section \<open>Data\<close>

text \<open>The autonomy matrix as read from policies/autonomy-matrix.yaml: per level whether a default
on timeout is allowed and its hours.\<close>

record matrix =
  mx_levels :: "(int \<times> bool \<times> int option) list"
  mx_kinds :: "string list"
  mx_global :: bool
  mx_budget :: int

record evidence_ref =
  ev_type :: string
  ev_ref :: string
  ev_quote :: "string option"
  ev_authority :: string

record card_option =
  co_id :: string
  co_label :: string
  co_summary :: string
  co_payload :: string
  co_evidence :: "evidence_ref list"
  co_outcome :: string
  co_risks :: "string list"
  co_axis :: "string option"

record ocard =
  ocd_id :: string
  ocd_kind :: string
  ocd_level :: int
  ocd_tier :: string
  ocd_title :: string
  ocd_question :: string
  ocd_context :: string
  ocd_options :: "card_option list"
  ocd_recommended :: string
  ocd_rationale :: string
  ocd_evidence :: "evidence_ref list"
  ocd_novel :: bool
  ocd_function :: int
  ocd_prompt :: string
  ocd_created :: instant
  ocd_expires :: instant
  ocd_default :: "string option"
  ocd_budget :: string
  ocd_rows :: "string list"
  ocd_lineage :: "(string \<times> json) list"

text \<open>What a producer hands over: produced_by is the function and its prompt version, \<open>pp_earned\<close> is
defaults_earned.\<close>

record proposal =
  pp_kind :: string
  pp_level :: int
  pp_title :: string
  pp_question :: string
  pp_options :: "card_option list"
  pp_recommended :: string
  pp_evidence :: "evidence_ref list"
  pp_function :: int
  pp_prompt :: string
  pp_rows :: "string list"
  pp_rationale :: string
  pp_context :: string
  pp_novel :: bool
  pp_lineage :: "(string \<times> json) list"
  pp_hours :: "int option"
  pp_earned :: bool

section \<open>Validation\<close>

text \<open>\<open>schema\<close> is jsonschema.validate against contracts/option-card.schema.json; \<open>resolver\<close> is the
optional evidence resolver.\<close>

definition card_refs :: "ocard \<Rightarrow> evidence_ref list" where
  "card_refs c = ocd_evidence c @ concat (map co_evidence (ocd_options c))"

definition unresolved :: "(evidence_ref \<Rightarrow> bool) option \<Rightarrow> ocard \<Rightarrow> evidence_ref list" where
  "unresolved resolver c =
    (case resolver of
       None \<Rightarrow> []
     | Some ok \<Rightarrow> filter (\<lambda>r. ev_type r \<noteq> ''none'' \<and> \<not> ok r) (card_refs c))"

definition summary_key :: "card_option \<Rightarrow> string" where
  "summary_key o' = py_lower (py_strip (co_summary o'))"

definition validate_card :: "matrix \<Rightarrow> (ocard \<Rightarrow> bool) \<Rightarrow> (evidence_ref \<Rightarrow> bool) option \<Rightarrow> ocard \<Rightarrow> string option" where
  "validate_card m schema resolver c =
    (let ids = map co_id (ocd_options c); summaries = map summary_key (ocd_options c)
     in if \<not> schema c then Some ''ValidationError''
        else if unresolved resolver c \<noteq> [] then Some ''unresolvable evidence refs (fabricated-proof-point guard)''
        else if \<not> distinct ids then Some ''duplicate option ids''
        else if ocd_recommended c \<notin> set ids then Some ''recommended_option_id is not one of the options''
        else if ocd_kind c \<in> set (mx_kinds m) \<and> ocd_default c \<noteq> None then Some ''non-negotiable kind may not carry default_on_timeout''
        else if ocd_kind c \<in> set (mx_kinds m) \<and> ocd_budget c \<noteq> ''realtime'' then Some ''non-negotiable kinds must be realtime''
        else if ocd_level c \<le> 1 \<and> ocd_default c \<noteq> None then Some ''Level 0/1 cards may never default on timeout''
        else if ocd_default c \<noteq> None \<and> the (ocd_default c) \<notin> set ids then Some ''default_on_timeout must be an option id''
        else if \<exists>o'\<in>set (ocd_options c). co_evidence o' = [] \<and> \<not> ocd_novel c
        then Some ''option has no evidence and card is not flagged novel_stance''
        else if \<not> distinct summaries then Some ''options are not distinct (identical summaries)''
        else if length (ocd_options c) = 3 \<and> (\<exists>o'\<in>set (ocd_options c). \<not> truthy (co_axis o'))
        then Some ''three-option cards must declare a distinctness_axis per option''
        else None)"

section \<open>Construction\<close>

definition RISK_TIERS :: "(int \<times> string) list" where
  "RISK_TIERS = [(0, ''high''), (1, ''medium''), (2, ''low''), (3, ''low''), (4, ''low'')]"

text \<open>expires_hours or d: zero counts as absent.\<close>

definition hours_or :: "int option \<Rightarrow> int \<Rightarrow> int" where
  "hours_or h d = (case h of Some n \<Rightarrow> if n = 0 then d else n | None \<Rightarrow> d)"

definition hours :: "int \<Rightarrow> int" where "hours n = n * 3600 * 1000000"

text \<open>Tier, budget class, default and hours of a card; a level without a tier, or without an entry
in the matrix, raises KeyError.\<close>

definition card_policy :: "matrix \<Rightarrow> proposal \<Rightarrow> string + (string \<times> string \<times> string option \<times> int)" where
  "card_policy m p =
    (if pp_kind p \<in> set (mx_kinds m) then Inr (''non_negotiable'', ''realtime'', None, hours_or (pp_hours p) 72)
     else (case (map_of RISK_TIERS (pp_level p), map_of (mx_levels m) (pp_level p)) of
             (Some tier, Some (allowed, h)) \<Rightarrow>
               (if allowed \<and> (mx_global m \<or> pp_earned p)
                then Inr (tier, ''digest'', Some (pp_recommended p), hours_or (pp_hours p) (hours_or h 48))
                else Inr (tier, ''digest'', None, hours_or (pp_hours p) 120))
           | _ \<Rightarrow> Inl ''KeyError''))"

text \<open>\<open>i\<close> is uuid4.\<close>

definition build_card ::
    "matrix \<Rightarrow> (ocard \<Rightarrow> bool) \<Rightarrow> (evidence_ref \<Rightarrow> bool) option \<Rightarrow> proposal \<Rightarrow> string \<Rightarrow> instant \<Rightarrow> string + ocard" where
  "build_card m schema resolver p i now =
    (case card_policy m p of
       Inl x \<Rightarrow> Inl x
     | Inr (tier, budget, dflt, h) \<Rightarrow>
         (let c = \<lparr>ocd_id = i, ocd_kind = pp_kind p, ocd_level = pp_level p, ocd_tier = tier, ocd_title = pp_title p,
                ocd_question = pp_question p, ocd_context = pp_context p, ocd_options = pp_options p,
                ocd_recommended = pp_recommended p, ocd_rationale = pp_rationale p, ocd_evidence = pp_evidence p,
                ocd_novel = pp_novel p, ocd_function = pp_function p,
                ocd_prompt = pp_prompt p, ocd_created = now, ocd_expires = now + hours h,
                ocd_default = dflt, ocd_budget = budget, ocd_rows = pp_rows p, ocd_lineage = pp_lineage p\<rparr>
          in case validate_card m schema resolver c of Some x \<Rightarrow> Inl x | None \<Rightarrow> Inr c))"

section \<open>Routing\<close>

text \<open>\<open>pm_condition\<close> evaluates the rule's condition on a card in its restricted namespace; None means
that it raised.\<close>

record permission =
  pm_id :: string
  pm_status :: string
  pm_kinds :: "string list"
  pm_exclusions :: "string list"
  pm_functions :: "int list"
  pm_effect :: string
  pm_condition :: "ocard \<Rightarrow> bool option"

definition permission_matches :: "matrix \<Rightarrow> permission \<Rightarrow> ocard \<Rightarrow> bool" where
  "permission_matches m q c \<longleftrightarrow>
    pm_status q = ''active'' \<and> ocd_kind c \<in> set (pm_kinds q) \<and> ocd_kind c \<notin> set (pm_exclusions q) \<and>
    ocd_kind c \<notin> set (mx_kinds m) \<and> (pm_functions q \<noteq> [] \<longrightarrow> ocd_function c \<in> set (pm_functions q)) \<and>
    pm_condition q c = Some True"

record routing =
  rr_sent :: "ocard list"
  rr_auto :: "(ocard \<times> string) list"
  rr_timeouts :: "ocard list"
  rr_expired :: "ocard list"
  rr_overflow :: "ocard list"
  rr_escalations :: "ocard list"

datatype fate = Auto string | Timeout | Unresolved | Showing | Remaining

definition fate_of :: "matrix \<Rightarrow> permission list \<Rightarrow> instant \<Rightarrow> string list \<Rightarrow> ocard \<Rightarrow> fate" where
  "fate_of m perms now resurfaced c =
    (let settled = (if ocd_expires c \<le> now
           then (if ocd_default c \<noteq> None then Timeout else if ocd_id c \<in> set resurfaced then Unresolved else Showing)
           else Remaining)
     in case List.find (\<lambda>q. permission_matches m q c) perms of
          Some q \<Rightarrow> if pm_effect q = ''auto_approve_recommended'' then Auto (pm_id q) else settled
        | None \<Rightarrow> settled)"

text \<open>sort(reverse=True) keeps the order of equal keys.\<close>

definition sort_down :: "('a \<Rightarrow> 'v::linorder) \<Rightarrow> 'a list \<Rightarrow> 'a list" where
  "sort_down f xs = rev (sort_key f (rev xs))"

definition route ::
    "matrix \<Rightarrow> ocard list \<Rightarrow> permission list \<Rightarrow> instant \<Rightarrow> int \<Rightarrow> (string \<Rightarrow> 'v::linorder) \<Rightarrow> string list \<Rightarrow> routing" where
  "route m pending perms now sent_today value_score resurfaced =
    (let fate = fate_of m perms now resurfaced;
         remaining = filter (\<lambda>c. fate c = Remaining) pending;
         digest = sort_down (\<lambda>c. value_score (ocd_id c)) (filter (\<lambda>c. ocd_budget c \<noteq> ''realtime'') remaining);
         slots = nat (max 0 (mx_budget m - sent_today))
     in \<lparr>rr_sent = take slots digest,
         rr_auto = List.map_filter (\<lambda>c. case fate c of Auto i \<Rightarrow> Some (c, i) | _ \<Rightarrow> None) pending,
         rr_timeouts = filter (\<lambda>c. fate c = Timeout) pending,
         rr_expired = filter (\<lambda>c. fate c = Unresolved) pending,
         rr_overflow = drop slots digest,
         rr_escalations = filter (\<lambda>c. fate c = Showing) pending @ filter (\<lambda>c. ocd_budget c = ''realtime'') remaining\<rparr>)"

section \<open>The matrix of this repository\<close>

definition AUTONOMY_MATRIX :: matrix where
  "AUTONOMY_MATRIX =
    \<lparr>mx_levels = [(0, False, None), (1, False, None), (2, True, Some 48), (3, True, Some 24), (4, True, None)],
     mx_kinds = [''content.publish'', ''claim.new_positioning'', ''claim.pricing_or_guarantee'', ''claim.comparative'',
       ''claim.quantified_client_outcome'', ''client.name_or_logo_use'', ''spend.above_threshold'',
       ''legal.sensitive_statement'', ''system.prompt_change'', ''system.autonomy_level_change'',
       ''system.standing_permission'', ''crisis.response'', ''crisis.correction'',
       ''engagement.hostile_or_high_profile'', ''source.allowlist''],
     mx_global = False, mx_budget = 6\<rparr>"


section \<open>The JSON document\<close>

text \<open>The card as the JSON object that build_card returns, and read back from the jsonb column of
the Vault, as the digest and the decision route read it. \<open>stamp\<close> is datetime.isoformat and \<open>parse\<close>
datetime.fromisoformat.\<close>

definition evidence_json :: "evidence_ref \<Rightarrow> json" where
  "evidence_json r = JObj ([(''source_type'', JStr (ev_type r)), (''ref'', JStr (ev_ref r))] @
    (case ev_quote r of Some s \<Rightarrow> [(''quote'', JStr s)] | None \<Rightarrow> []) @ [(''authority'', JStr (ev_authority r))])"

definition option_json :: "card_option \<Rightarrow> json" where
  "option_json o' = JObj ([(''option_id'', JStr (co_id o')), (''label'', JStr (co_label o')), (''summary'', JStr (co_summary o')),
      (''payload_ref'', JStr (co_payload o')), (''evidence_refs'', JArr (map evidence_json (co_evidence o'))),
      (''predicted_outcome'', JStr (co_outcome o')), (''risks'', JArr (map JStr (co_risks o')))] @
    (case co_axis o' of Some s \<Rightarrow> [(''distinctness_axis'', JStr s)] | None \<Rightarrow> []))"

definition card_doc :: "(instant \<Rightarrow> string) \<Rightarrow> ocard \<Rightarrow> json" where
  "card_doc stamp c = JObj
    ([(''card_id'', JStr (ocd_id c)), (''kind'', JStr (ocd_kind c)), (''autonomy_level'', JInt (ocd_level c)),
      (''risk_tier'', JStr (ocd_tier c)), (''title'', JStr (ocd_title c)), (''decision_question'', JStr (ocd_question c)),
      (''context_summary'', JStr (ocd_context c)), (''options'', JArr (map option_json (ocd_options c))),
      (''recommended_option_id'', JStr (ocd_recommended c)), (''recommendation_rationale'', JStr (ocd_rationale c)),
      (''evidence_refs'', JArr (map evidence_json (ocd_evidence c))), (''novel_stance'', JBool (ocd_novel c)),
      (''produced_by'', JObj [(''function_id'', JInt (ocd_function c)), (''prompt_version'', JStr (ocd_prompt c))]),
      (''created_at'', JStr (stamp (ocd_created c))), (''expires_at'', JStr (stamp (ocd_expires c))),
      (''default_on_timeout'', case ocd_default c of Some d \<Rightarrow> JStr d | None \<Rightarrow> JNull),
      (''budget_class'', JStr (ocd_budget c)), (''register_rows'', JArr (map JStr (ocd_rows c)))] @
     (if ocd_lineage c = [] then [] else [(''lineage'', JObj (ocd_lineage c))]))"

section \<open>Reading\<close>

text \<open>None is a KeyError or a TypeError of the code that reads the document. A document is read
with all the keys that build_card writes; the code itself reads a key when it comes to it.\<close>

fun text_of :: "json option \<Rightarrow> string option" where
  "text_of (Some (JStr s)) = Some s"
| "text_of _ = None"

fun int_of :: "json option \<Rightarrow> int option" where
  "int_of (Some (JInt i)) = Some i"
| "int_of _ = None"

fun all_some :: "('a \<Rightarrow> 'b option) \<Rightarrow> 'a list \<Rightarrow> 'b list option" where
  "all_some f [] = Some []"
| "all_some f (x # xs) = (case (f x, all_some f xs) of (Some y, Some ys) \<Rightarrow> Some (y # ys) | _ \<Rightarrow> None)"

definition list_of :: "(json \<Rightarrow> 'a option) \<Rightarrow> json option \<Rightarrow> 'a list option" where
  "list_of f v = (case v of Some (JArr xs) \<Rightarrow> all_some f xs | _ \<Rightarrow> None)"

definition object_of :: "json option \<Rightarrow> (string \<times> json) list option" where
  "object_of v = (case v of Some (JObj kvs) \<Rightarrow> Some kvs | _ \<Rightarrow> None)"

definition read_evidence :: "json \<Rightarrow> evidence_ref option" where
  "read_evidence j = Option.bind (object_of (Some j)) (\<lambda>kvs.
    Option.bind (text_of (jget kvs ''source_type'')) (\<lambda>ty.
    Option.bind (text_of (jget kvs ''ref'')) (\<lambda>r.
    Option.bind (text_of (jget kvs ''authority'')) (\<lambda>au.
    Some \<lparr>ev_type = ty, ev_ref = r, ev_quote = text_of (jget kvs ''quote''), ev_authority = au\<rparr>))))"

definition read_option :: "json \<Rightarrow> card_option option" where
  "read_option j = Option.bind (object_of (Some j)) (\<lambda>kvs.
    Option.bind (text_of (jget kvs ''option_id'')) (\<lambda>i.
    Option.bind (text_of (jget kvs ''label'')) (\<lambda>label.
    Option.bind (text_of (jget kvs ''summary'')) (\<lambda>summary.
    Option.bind (text_of (jget kvs ''payload_ref'')) (\<lambda>payload.
    Option.bind (list_of read_evidence (jget kvs ''evidence_refs'')) (\<lambda>evs.
    Option.bind (text_of (jget kvs ''predicted_outcome'')) (\<lambda>outcome.
    Option.bind (list_of (\<lambda>v. text_of (Some v)) (jget kvs ''risks'')) (\<lambda>risks.
    Some \<lparr>co_id = i, co_label = label, co_summary = summary, co_payload = payload, co_evidence = evs,
      co_outcome = outcome, co_risks = risks, co_axis = text_of (jget kvs ''distinctness_axis'')\<rparr>))))))))"

definition read_card :: "(string \<Rightarrow> instant option) \<Rightarrow> json \<Rightarrow> ocard option" where
  "read_card parse j = Option.bind (object_of (Some j)) (\<lambda>kvs.
    Option.bind (text_of (jget kvs ''card_id'')) (\<lambda>i.
    Option.bind (text_of (jget kvs ''kind'')) (\<lambda>kind.
    Option.bind (int_of (jget kvs ''autonomy_level'')) (\<lambda>level.
    Option.bind (text_of (jget kvs ''risk_tier'')) (\<lambda>tier.
    Option.bind (text_of (jget kvs ''title'')) (\<lambda>title.
    Option.bind (text_of (jget kvs ''decision_question'')) (\<lambda>question.
    Option.bind (text_of (jget kvs ''context_summary'')) (\<lambda>context_summary.
    Option.bind (list_of read_option (jget kvs ''options'')) (\<lambda>options.
    Option.bind (text_of (jget kvs ''recommended_option_id'')) (\<lambda>recommended.
    Option.bind (text_of (jget kvs ''recommendation_rationale'')) (\<lambda>rationale.
    Option.bind (list_of read_evidence (jget kvs ''evidence_refs'')) (\<lambda>evidence.
    Option.bind (object_of (jget kvs ''produced_by'')) (\<lambda>producer.
    Option.bind (int_of (jget producer ''function_id'')) (\<lambda>function_id.
    Option.bind (text_of (jget producer ''prompt_version'')) (\<lambda>prompt.
    Option.bind (Option.bind (text_of (jget kvs ''created_at'')) parse) (\<lambda>created.
    Option.bind (Option.bind (text_of (jget kvs ''expires_at'')) parse) (\<lambda>expires.
    Option.bind (text_of (jget kvs ''budget_class'')) (\<lambda>budget.
    Option.bind (list_of (\<lambda>v. text_of (Some v)) (jget kvs ''register_rows'')) (\<lambda>rows.
    Some \<lparr>ocd_id = i, ocd_kind = kind, ocd_level = level, ocd_tier = tier, ocd_title = title, ocd_question = question,
      ocd_context = context_summary, ocd_options = options, ocd_recommended = recommended, ocd_rationale = rationale,
      ocd_evidence = evidence, ocd_novel = (jget kvs ''novel_stance'' = Some (JBool True)), ocd_function = function_id,
      ocd_prompt = prompt, ocd_created = created, ocd_expires = expires, ocd_default = text_of (jget kvs ''default_on_timeout''),
      ocd_budget = budget, ocd_rows = rows,
      ocd_lineage = (case object_of (jget kvs ''lineage'') of Some l \<Rightarrow> l | None \<Rightarrow> [])\<rparr>)))))))))))))))))))"

section \<open>The round trip\<close>

lemma all_some_map: "\<forall>x\<in>set xs. f (g x) = Some x \<Longrightarrow> all_some f (map g xs) = Some xs"
  by (induction xs) simp_all

lemma read_evidence_doc: "read_evidence (evidence_json r) = Some r"
  by (cases "ev_quote r") (simp_all add: read_evidence_def evidence_json_def object_of_def)

lemma read_evidences: "list_of read_evidence (Some (JArr (map evidence_json rs))) = Some rs"
  by (simp add: list_of_def all_some_map read_evidence_doc)

lemma read_texts: "list_of (\<lambda>v. text_of (Some v)) (Some (JArr (map JStr ss))) = Some ss"
  by (simp add: list_of_def all_some_map)

lemma read_option_doc: "read_option (option_json o') = Some o'"
  by (cases "co_axis o'") (simp_all add: read_option_def option_json_def object_of_def read_evidences read_texts)

lemma read_options: "list_of read_option (Some (JArr (map option_json os))) = Some os"
  by (simp add: list_of_def all_some_map read_option_doc)

text \<open>A card that is written to the Vault as a document is read back as the same card.\<close>

theorem card_doc_round_trip:
  assumes "\<And>t. parse (stamp t) = Some t"
  shows "read_card parse (card_doc stamp c) = Some c"
  by (cases "ocd_default c"; cases "ocd_lineage c")
     (simp_all add: read_card_def card_doc_def object_of_def read_evidences read_texts read_options assms)

end
