(* ===== verification/Option_Props.thy ===== *)
theory Option_Props
  imports Option_Cards "HOL-Library.Multiset"
begin

text \<open>What a built card promises, and what routing makes of pending cards.\<close>

section \<open>Built cards\<close>

lemma build_cardE:
  assumes "build_card m schema resolver p i now = Inr c"
  obtains tier budget dflt h where "card_policy m p = Inr (tier, budget, dflt, h)"
    "ocd_id c = i" "ocd_kind c = pp_kind p" "ocd_level c = pp_level p" "ocd_tier c = tier" "ocd_options c = pp_options p"
    "ocd_recommended c = pp_recommended p" "ocd_default c = dflt" "ocd_budget c = budget"
    "ocd_created c = now" "ocd_expires c = now + hours h" "ocd_novel c = pp_novel p" "validate_card m schema resolver c = None"
  using assms by (auto simp: build_card_def Let_def split: sum.splits option.splits)

lemma valid_card:
  assumes "validate_card m schema resolver c = None"
  shows "schema c" "unresolved resolver c = []" "distinct (map co_id (ocd_options c))" "ocd_recommended c \<in> co_id ` set (ocd_options c)"
    "ocd_kind c \<in> set (mx_kinds m) \<Longrightarrow> ocd_default c = None \<and> ocd_budget c = ''realtime''"
    "ocd_default c = Some d \<Longrightarrow> 2 \<le> ocd_level c \<and> d \<in> co_id ` set (ocd_options c)"
    "o' \<in> set (ocd_options c) \<Longrightarrow> co_evidence o' \<noteq> [] \<or> ocd_novel c"
    "distinct (map summary_key (ocd_options c))"
  using assms by (auto simp: validate_card_def Let_def split: if_splits)


section \<open>Routing\<close>

lemma mset_sort_down [simp]: "mset (sort_down f xs) = mset xs"
  by (simp add: sort_down_def)

lemma set_sort_down [simp]: "set (sort_down f xs) = set xs"
  by (simp add: sort_down_def)

lemma sorted_sort_down: "sorted_wrt (\<lambda>a b. f b \<le> f a) (sort_down f xs)"
proof -
  have "sorted (map f (sort_key f (rev xs)))" by simp
  then show ?thesis by (simp add: sort_down_def sorted_wrt_rev sorted_map)
qed

lemma mset_cases:
  "mset (filter P xs) + mset (filter (\<lambda>x. \<not> P x) xs) = mset xs"
  by (metis mset_filter multiset_partition)

text \<open>Every pending card ends in exactly one place.\<close>

lemma fates:
  "mset xs = mset (map fst (List.map_filter (\<lambda>c. case f c of Auto i \<Rightarrow> Some (c, i) | _ \<Rightarrow> None) xs)) +
    mset (filter (\<lambda>c. f c = Timeout) xs) + mset (filter (\<lambda>c. f c = Unresolved) xs) +
    mset (filter (\<lambda>c. f c = Showing) xs) + mset (filter (\<lambda>c. f c = Remaining) xs)"
proof (induction xs)
  case (Cons x xs)
  then show ?case by (cases "f x") (auto simp: List.map_filter_def)
qed (simp add: List.map_filter_def)

lemma budget_split:
  "mset (filter (\<lambda>c. ocd_budget c = ''realtime'') cs) + mset (filter (\<lambda>c. ocd_budget c \<noteq> ''realtime'') cs) = mset cs"
  by (rule mset_cases)

text \<open>Routing loses no card and shows none twice: its six lists together are the pending cards. The
digest keeps within the budget of the day, and no card that waits has a higher value than one that
is sent.\<close>

theorem routing_partitions_cards:
  "mset (rr_sent r @ map fst (rr_auto r) @ rr_timeouts r @ rr_expired r @ rr_overflow r @ rr_escalations r) = mset pending \<and>
   length (rr_sent r) \<le> nat (max 0 (mx_budget m - sent_today)) \<and>
   (\<forall>c\<in>set (rr_overflow r). \<forall>s\<in>set (rr_sent r). value_score (ocd_id c) \<le> value_score (ocd_id s))"
  if "r = route m pending perms now sent_today (value_score :: string \<Rightarrow> 'v::linorder) resurfaced"
proof -
  define fate where "fate = fate_of m perms now resurfaced"
  define remaining where "remaining = filter (\<lambda>c. fate c = Remaining) pending"
  define digest where "digest = sort_down (\<lambda>c. value_score (ocd_id c)) (filter (\<lambda>c. ocd_budget c \<noteq> ''realtime'') remaining)"
  define slots where "slots = nat (max 0 (mx_budget m - sent_today))"
  have r: "r = \<lparr>rr_sent = take slots digest,
         rr_auto = List.map_filter (\<lambda>c. case fate c of Auto i \<Rightarrow> Some (c, i) | _ \<Rightarrow> None) pending,
         rr_timeouts = filter (\<lambda>c. fate c = Timeout) pending, rr_expired = filter (\<lambda>c. fate c = Unresolved) pending,
         rr_overflow = drop slots digest,
         rr_escalations = filter (\<lambda>c. fate c = Showing) pending @ filter (\<lambda>c. ocd_budget c = ''realtime'') remaining\<rparr>"
    unfolding that route_def Let_def fate_def remaining_def digest_def slots_def ..
  have shown: "mset (take slots digest) + mset (drop slots digest) = mset (filter (\<lambda>c. ocd_budget c \<noteq> ''realtime'') remaining)"
    by (metis append_take_drop_id mset_append digest_def mset_sort_down)
  have whole: "mset pending = mset (map fst (rr_auto r)) + mset (rr_timeouts r) + mset (rr_expired r) +
      mset (filter (\<lambda>c. fate c = Showing) pending) + mset remaining"
    using fates[of pending fate] by (simp only: r routing.select_convs remaining_def)
  have rest: "mset (filter (\<lambda>c. ocd_budget c = ''realtime'') remaining) + (mset (rr_sent r) + mset (rr_overflow r)) = mset remaining"
    using shown budget_split[of remaining] by (simp only: r routing.select_convs)
  have esc: "mset (rr_escalations r) =
      mset (filter (\<lambda>c. fate c = Showing) pending) + mset (filter (\<lambda>c. ocd_budget c = ''realtime'') remaining)"
    by (simp only: r routing.select_convs mset_append)
  have "mset (rr_sent r @ map fst (rr_auto r) @ rr_timeouts r @ rr_expired r @ rr_overflow r @ rr_escalations r) = mset pending"
    unfolding mset_append esc whole rest[symmetric] by (simp only: ac_simps)
  moreover have "length (rr_sent r) \<le> slots" by (simp add: r)
  moreover have "\<forall>c\<in>set (rr_overflow r). \<forall>s\<in>set (rr_sent r). value_score (ocd_id c) \<le> value_score (ocd_id s)"
  proof -
    have "sorted_wrt (\<lambda>a b. value_score (ocd_id b) \<le> value_score (ocd_id a)) (take slots digest @ drop slots digest)"
      unfolding append_take_drop_id digest_def by (rule sorted_sort_down)
    then show ?thesis unfolding sorted_wrt_append by (simp add: r)
  qed
  ultimately show ?thesis by (simp add: slots_def)
qed

lemma auto_not_kind: "fate_of m perms now resurfaced c = Auto i \<Longrightarrow> ocd_kind c \<notin> set (mx_kinds m)"
  by (auto simp: fate_of_def Let_def permission_matches_def find_Some_iff split: option.splits if_splits)

lemma timeout_default: "fate_of m perms now resurfaced c = Timeout \<Longrightarrow> ocd_default c \<noteq> None"
  by (auto simp: fate_of_def Let_def split: option.splits if_splits)

text \<open>C32: A card of a non-negotiable kind is never settled by a permission or by its timeout and never
enters the digest: it is escalated or, after its second showing, expired.\<close>

theorem non_negotiable_needs_human:
  assumes "build_card m schema resolver p i created = Inr c" and "pp_kind p \<in> set (mx_kinds m)" and "c \<in> set pending"
      and "r = route m pending perms now sent_today (value_score :: string \<Rightarrow> 'v::linorder) resurfaced"
  shows "c \<notin> fst ` set (rr_auto r) \<and> c \<notin> set (rr_timeouts r) \<and> c \<notin> set (rr_sent r) \<and> c \<notin> set (rr_overflow r) \<and>
    (c \<in> set (rr_escalations r) \<or> c \<in> set (rr_expired r))"
proof -
  from assms(1) obtain k: "ocd_kind c = pp_kind p" and v: "validate_card m schema resolver c = None" by (rule build_cardE)
  from valid_card(5)[OF v] k assms(2) have c: "ocd_default c = None" "ocd_budget c = ''realtime''" by simp_all
  have fate: "fate_of m perms now resurfaced c \<in> {Unresolved, Showing, Remaining}"
    using auto_not_kind[of m perms now resurfaced c] timeout_default[of m perms now resurfaced c] k assms(2) c(1)
    by (cases "fate_of m perms now resurfaced c") auto
  have "c \<notin> fst ` set (rr_auto r)"
  proof
    assume "c \<in> fst ` set (rr_auto r)"
    then obtain j where "fate_of m perms now resurfaced c = Auto j"
      by (auto simp: assms(4) route_def Let_def List.map_filter_def split: fate.splits)
    with fate show False by simp
  qed
  moreover have "c \<notin> set (rr_sent r)" "c \<notin> set (rr_overflow r)"
    using c(2) by (auto simp: assms(4) route_def Let_def dest!: in_set_takeD in_set_dropD)
  moreover have "c \<notin> set (rr_timeouts r)" "c \<in> set (rr_escalations r) \<or> c \<in> set (rr_expired r)"
    using fate c(2) assms(3) by (auto simp: assms(4) route_def Let_def)
  ultimately show ?thesis by blast
qed

end
