(* ===== verification/Option_Digest.thy ===== *)
theory Option_Digest
  imports Option_Cards Option_Props QA_Review Vault_Routes
begin

text \<open>Fn 117 (dispatch/handlers/options.py, route_digest_handler): the pending cards of the Vault
are routed, and the cards within the budget are rendered (options_inbox/teams_render.py) and posted
to Teams.\<close>

section \<open>Rendering\<close>

abbreviation bolder_style :: "(string \<times> json) list" where "bolder_style \<equiv> [(''weight'', JStr ''Bolder'')]"
abbreviation wrap_style :: "(string \<times> json) list" where "wrap_style \<equiv> [(''wrap'', JBool True)]"
abbreviation small_style :: "(string \<times> json) list" where
  "small_style \<equiv> [(''wrap'', JBool True), (''isSubtle'', JBool True), (''size'', JStr ''Small'')]"

text \<open>The middle dot between blanks.\<close>

definition dot :: string where "dot = [CHR '' '', CHR 0xB7, CHR '' '']"

definition option_block :: "ocard \<Rightarrow> card_option \<Rightarrow> json" where
  "option_block c o' =
    JObj [(''type'', JStr ''Container''), (''items'', JArr
      [text_block bolder_style (co_id o' @ ''. '' @ co_label o' @
         (if co_id o' = ocd_recommended c then '' (recommended)'' else []) @
         (if ocd_novel c \<and> co_evidence o' = [] then '' - NEW STANCE, not previously said'' else [])),
       text_block wrap_style (co_summary o'),
       text_block small_style (''Differs on: '' @ (case co_axis o' of Some s \<Rightarrow> s | None \<Rightarrow> ''-'') @ dot @ ''Expect: '' @ co_outcome o')])]"

definition card_footer :: "(instant \<Rightarrow> string) \<Rightarrow> ocard \<Rightarrow> string" where
  "card_footer stamp c =
    (let until = take 16 (stamp (ocd_expires c))
     in if truthy (ocd_default c)
        then ''If unanswered by '' @ until @ ''Z the recommended option ('' @ the (ocd_default c) @ '') applies.''
        else ''Expires '' @ until @ ''Z. No default - this decision is yours.'')"

definition decide_url :: "string \<Rightarrow> ocard \<Rightarrow> string option \<Rightarrow> string \<Rightarrow> string" where
  "decide_url base c choice sig =
    base @ ''/decide?card='' @ ocd_id c @
    (case choice of Some x \<Rightarrow> ''&opt='' @ x | None \<Rightarrow> ''&outcome=rejected_all'') @ ''&sig='' @ sig"

definition card_actions :: "string \<Rightarrow> ocard \<Rightarrow> string \<Rightarrow> json list" where
  "card_actions base c sig =
    map (\<lambda>o'. JObj [(''type'', JStr ''Action.OpenUrl''), (''title'', JStr (''Choose '' @ co_id o')),
        (''url'', JStr (decide_url base c (Some (co_id o')) sig))]) (ocd_options c) @
    [JObj [(''type'', JStr ''Action.OpenUrl''), (''title'', JStr ''Reject all''), (''url'', JStr (decide_url base c None sig))]]"

definition render_card_section :: "(instant \<Rightarrow> string) \<Rightarrow> string \<Rightarrow> ocard \<Rightarrow> string \<Rightarrow> json" where
  "render_card_section stamp base c sig =
    (let body = [text_block [(''size'', JStr ''Medium''), (''weight'', JStr ''Bolder'')] (ocd_title c),
           text_block wrap_style (ocd_question c),
           text_block small_style (ocd_kind c @ dot @ ''L'' @ int_str (ocd_level c) @ dot @ ocd_tier c @ dot @
             ''replaces '' @ join_with '', '' (ocd_rows c))] @
         map (option_block c) (ocd_options c) @
         (if ocd_rationale c = [] then []
          else [text_block wrap_style (''Why '' @ ocd_recommended c @ '': '' @ ocd_rationale c)]) @
         [text_block small_style (card_footer stamp c)]
     in JObj [(''type'', JStr ''Container''), (''separator'', JBool True),
          (''items'', JArr (body @ [JObj [(''type'', JStr ''ActionSet''), (''actions'', JArr (card_actions base c sig))]]))])"

text \<open>The message for sections that are rendered already.\<close>

definition digest_message :: "json list \<Rightarrow> nat \<Rightarrow> string \<Rightarrow> json" where
  "digest_message sections overflow day =
    JObj [(''type'', JStr ''message''), (''attachments'', JArr [JObj
      [(''contentType'', JStr ''application/vnd.microsoft.card.adaptive''),
       (''content'', JObj [(''$schema'', JStr ''http://adaptivecards.io/schemas/adaptive-card.json''),
         (''type'', JStr ''AdaptiveCard''), (''version'', JStr ''1.5''),
         (''body'', JArr ([text_block [(''size'', JStr ''Large''), (''weight'', JStr ''Bolder'')] (''CMOS options digest - '' @ day),
            text_block [(''isSubtle'', JBool True)]
              (nat_str (length sections) @ '' decisions'' @ dot @ nat_str overflow @ '' queued'')] @ sections))])]])]"

text \<open>\<open>sign\<close> gives the signature of a card id, or None when the gatekeeper does not answer with
one.\<close>

fun rendered_sections :: "(instant \<Rightarrow> string) \<Rightarrow> string \<Rightarrow> (string \<Rightarrow> string option) \<Rightarrow> ocard list \<Rightarrow> json list option" where
  "rendered_sections stamp base sign [] = Some []"
| "rendered_sections stamp base sign (c # cs) =
    (case sign (ocd_id c) of
       None \<Rightarrow> None
     | Some sig \<Rightarrow> map_option ((#) (render_card_section stamp base c sig)) (rendered_sections stamp base sign cs))"

definition render_digest :: "(instant \<Rightarrow> string) \<Rightarrow> string \<Rightarrow> (string \<Rightarrow> string option) \<Rightarrow> ocard list \<Rightarrow> nat \<Rightarrow> string \<Rightarrow> json option" where
  "render_digest stamp base sign cs overflow day =
    map_option (\<lambda>sections. digest_message sections overflow day) (rendered_sections stamp base sign cs)"

section \<open>The handler\<close>

record digest_services =
  dg_qa :: qa_env
  dg_matrix :: matrix
  dg_parse :: "string \<Rightarrow> instant option"
  dg_stamp :: "instant \<Rightarrow> string"
  dg_day :: "instant \<Rightarrow> string"
  dg_clock :: "qa_call list \<Rightarrow> instant"
  dg_base :: "string option"
  dg_sign :: "qa_call list \<Rightarrow> string \<Rightarrow> string option"

definition FUNCTION_ID_117 :: string where "FUNCTION_ID_117 = ''117-approval-inbox-router''"

fun pending_cards :: "(string \<Rightarrow> instant option) \<Rightarrow> json list \<Rightarrow> orch_error + ocard list" where
  "pending_cards parse [] = Inr []"
| "pending_cards parse (row # rows) =
    (case item_of row ''card'' of
       Inl e \<Rightarrow> Inl e
     | Inr j \<Rightarrow>
         (case read_card parse j of
            None \<Rightarrow> Inl (OtherError ''KeyError'')
          | Some c \<Rightarrow> (case pending_cards parse rows of Inl e \<Rightarrow> Inl e | Inr cs \<Rightarrow> Inr (c # cs))))"

definition list_pending_option_cards :: "digest_services \<Rightarrow> nat \<Rightarrow> ocard list qa" where
  "list_pending_option_cards svc n =
    qa_bind (vault_list (dg_qa svc) ''/option-cards?pending=true'' n) (\<lambda>listed.
    case listed of
      JArr rows \<Rightarrow> qa_lift (pending_cards (dg_parse svc) rows)
    | _ \<Rightarrow> qa_lift (Inl (OtherError ''TypeError'')))"

definition ids_json :: "ocard list \<Rightarrow> json" where "ids_json cs = JArr (map (\<lambda>c. JStr (ocd_id c)) cs)"

definition routing_output :: "string \<Rightarrow> routing \<Rightarrow> (string \<times> json) list" where
  "routing_output day r =
    [(''digest_date'', JStr day), (''sent'', ids_json (rr_sent r)),
     (''auto_resolved_by_permission'', JArr (map (\<lambda>(c, i). JObj [(''card_id'', JStr (ocd_id c)), (''permission_id'', JStr i)]) (rr_auto r))),
     (''timeout_defaults_applied'', ids_json (rr_timeouts r)), (''expired_unresolved'', ids_json (rr_expired r)),
     (''queued_overflow_count'', JInt (int (length (rr_overflow r)))), (''budget_used'', JInt (int (length (rr_sent r)))),
     (''escalations'', ids_json (rr_escalations r))]"

text \<open>route(cards, [], now=now): no permissions, nothing sent today, no scores, nothing
resurfaced.\<close>

definition digest_routing :: "digest_services \<Rightarrow> ocard list \<Rightarrow> instant \<Rightarrow> routing" where
  "digest_routing svc cs now = route (dg_matrix svc) cs [] now 0 (\<lambda>_. 0 :: int) []"

definition post_digest :: "digest_services \<Rightarrow> routing \<Rightarrow> string \<Rightarrow> bool qa" where
  "post_digest svc r day st =
    (if truthy (dg_base svc) \<and> rr_sent r \<noteq> []
     then qa_bind (qa_need (OtherError ''GatekeeperClientError'')
            (render_digest (dg_stamp svc) (the (dg_base svc)) (dg_sign svc (qs_calls st)) (rr_sent r) (length (rr_overflow r)) day))
            (post_card (dg_qa svc)) st
     else (Inr False, st))"

definition digest_time :: "digest_services \<Rightarrow> instant qa" where
  "digest_time svc st = (Inr (dg_clock svc (qs_calls st)), st)"

definition route_digest_handler :: "digest_services \<Rightarrow> tid \<Rightarrow> task_envelope \<Rightarrow> unit qa" where
  "route_digest_handler svc t e =
    (let env = dg_qa svc in
    qa_bind open_vault (\<lambda>_.
    qa_bind (get_or_create_campaign env (campaign_name e) FUNCTION_ID_117) (\<lambda>campaign.
    qa_bind (create_agent_run_idempotent env t (agent_name_of ''approval-inbox-router'' e) campaign FUNCTION_ID_117 (JObj [])) (\<lambda>agent_run.
    qa_bind (list_pending_option_cards svc 500) (\<lambda>cs.
    qa_bind (digest_time svc) (\<lambda>now.
    let r = digest_routing svc cs now; day = dg_day svc now; out = routing_output day r in
    qa_bind (if qe_output_ok env FUNCTION_ID_117 (JObj out) then qa_return ()
             else qa_lift (Inl (DispatchError (FUNCTION_ID_117 @ '': model output failed schema.json validation'')))) (\<lambda>_.
    qa_bind (post_digest svc r day) (\<lambda>posted.
    qa_bind (qa_lift (item_of agent_run ''id'')) (\<lambda>run.
    qa_bind (update_agent_run env run ''succeeded'' (JObj out)) (\<lambda>_.
    settle_completed t (JObj (out @ [(''posted'', JBool posted), (''agent_run_id'', run), (''campaign_id'', JStr campaign)]))))))))))))"

end
