(* ===== verification/Option_Link.thy ===== *)
theory Option_Link
  imports Option_Inbox Option_Digest
begin

text \<open>A link that the gatekeeper signed is accepted and decides its card, once.\<close>

section \<open>base64url\<close>

lemma lenient_inverts:
  "\<forall>x\<in>set bs. x < 256 \<Longrightarrow> a2b_lenient 0 0 0 out (b64encode bs) = Some (rev out @ bs)"
proof (induction bs arbitrary: out rule: b64encode.induct)
  case (2 x)
  then have "x div 4 < 64" by simp
  then show ?case by simp
next
  case (3 x y)
  then have "x div 4 < 64" "y div 16 < 16" by auto
  then have "x div 4 < 64" "(x mod 4) * 16 + y div 16 < 64" "(y mod 16) * 4 < 64" by auto
  moreover have "((x mod 4) * 16 + y div 16) div 16 = x mod 4" "((x mod 4) * 16 + y div 16) mod 16 = y div 16"
    using \<open>y div 16 < 16\<close> by simp_all
  ultimately show ?case by simp
next
  case (4 x y z r)
  let ?a = "x div 4" and ?b = "(x mod 4) * 16 + y div 16"
    and ?c = "(y mod 16) * 4 + z div 64" and ?d = "z mod 64"
  have lt: "y div 16 < 16" "z div 64 < 4" using "4.prems" by auto
  then have "?a < 64" "?b < 64" "?c < 64" "?d < 64" using "4.prems" by auto
  moreover have "?b div 16 = x mod 4" "?b mod 16 = y div 16" "?c div 4 = y mod 16" "?c mod 4 = z div 64"
    using lt by simp_all
  ultimately show ?case using 4 by simp
qed simp

definition b64_digit :: "char \<Rightarrow> bool" where "b64_digit c \<longleftrightarrow> (\<exists>v<64. c = b64_char v)"

lemma digitI: "v < 64 \<Longrightarrow> b64_digit (b64_char v)"
  by (auto simp: b64_digit_def)

lemma digit_facts:
  assumes "b64_digit c"
  shows "c \<noteq> CHR ''=''" "unurl_char (url_char c) = c" "(of_char (url_char c) :: nat) < 128"
proof -
  from assms obtain v where v: "v < 64" "c = b64_char v" by (auto simp: b64_digit_def)
  then show "c \<noteq> CHR ''=''" by simp
  have "c \<noteq> CHR ''-''" "c \<noteq> CHR ''_''" using b64_val_char[OF v(1)] v(2) by (auto simp: b64_val_def)
  then show "unurl_char (url_char c) = c" by (simp add: url_char_def unurl_char_def)
  show "(of_char (url_char c) :: nat) < 128" using v by (auto simp: url_char_def b64_char_def)
qed

text \<open>Padded again, the url form is the base64 text with its two special characters replaced.\<close>

lemma b64_shape:
  "\<forall>x\<in>set bs. x < 256 \<Longrightarrow>
    \<exists>ds n. b64encode bs = ds @ replicate n (CHR ''='') \<and> (\<forall>c\<in>set ds. b64_digit c) \<and>
      (length ds + n) mod 4 = 0 \<and> n \<le> 2"
proof (induction bs rule: b64encode.induct)
  case (2 x)
  then have "b64_digit (b64_char (x div 4))" "b64_digit (b64_char ((x mod 4) * 16))" by (auto intro!: digitI)
  then show ?case
    by (intro exI[of _ "[b64_char (x div 4), b64_char ((x mod 4) * 16)]"] exI[of _ 2]) (simp add: numeral_2_eq_2)
next
  case (3 x y)
  then have "b64_digit (b64_char (x div 4))" "b64_digit (b64_char ((x mod 4) * 16 + y div 16))" "b64_digit (b64_char ((y mod 16) * 4))"
    by (auto intro!: digitI)
  then show ?case
    by (intro exI[of _ "[b64_char (x div 4), b64_char ((x mod 4) * 16 + y div 16), b64_char ((y mod 16) * 4)]"] exI[of _ 1]) simp
next
  case (4 x y z r)
  then obtain ds n where ih: "b64encode r = ds @ replicate n (CHR ''='')" "\<forall>c\<in>set ds. b64_digit c" "(length ds + n) mod 4 = 0" "n \<le> 2"
    by auto
  have "b64_digit (b64_char (x div 4))" "b64_digit (b64_char ((x mod 4) * 16 + y div 16))"
    "b64_digit (b64_char ((y mod 16) * 4 + z div 64))" "b64_digit (b64_char (z mod 64))"
    using "4.prems" by (auto intro!: digitI)
  then have "\<forall>c\<in>set [b64_char (x div 4), b64_char ((x mod 4) * 16 + y div 16), b64_char ((y mod 16) * 4 + z div 64), b64_char (z mod 64)]. b64_digit c"
    by simp
  moreover have "(length ds + 4 + n) mod 4 = 0" using ih(3) by presburger
  ultimately show ?case using ih
    by (intro exI[of _ "[b64_char (x div 4), b64_char ((x mod 4) * 16 + y div 16), b64_char ((y mod 16) * 4 + z div 64), b64_char (z mod 64)] @ ds"] exI[of _ n])
       auto
qed simp

lemma pad_count: "(l + n) mod 4 = 0 \<Longrightarrow> l < 4 \<Longrightarrow> n \<le> 2 \<Longrightarrow> (4 - l) mod 4 = (n :: nat)"
proof -
  assume *: "(l + n) mod 4 = 0" "l < 4" "n \<le> 2"
  then have "l \<in> {0, 1, 2, 3}" "n \<in> {0, 1, 2}" by auto
  with *(1) show ?thesis by (elim insertE emptyE) simp_all
qed

lemma b64url_inverts:
  assumes "\<forall>x\<in>set bs. x < 256"
  shows "b64url_decode (b64url bs) = Some bs"
proof -
  from b64_shape[OF assms] obtain ds n where ds: "b64encode bs = ds @ replicate n (CHR ''='')"
    "\<forall>c\<in>set ds. b64_digit c" "(length ds + n) mod 4 = 0" "n \<le> 2" by (elim exE conjE)
  have "filter (\<lambda>c. c \<noteq> CHR ''='') ds = ds" using ds(2) digit_facts(1) by (auto intro: filter_True)
  then have url: "b64url bs = map url_char ds" by (simp add: b64url_def ds(1))
  have "(length ds mod 4 + n) mod 4 = 0" using ds(3) by (simp add: mod_add_left_eq)
  moreover have "length ds mod 4 < 4" by simp
  ultimately have "(4 - length ds mod 4) mod 4 = n" using ds(4) by (rule pad_count)
  then have "pad4 (b64url bs) = map url_char ds @ replicate n (CHR ''='')" by (simp add: url pad4_def)
  moreover have "map (unurl_char \<circ> url_char) ds = ds" using ds(2) digit_facts(2) by (auto intro: map_idI)
  ultimately have "map unurl_char (pad4 (b64url bs)) = b64encode bs" by (simp add: ds(1) unurl_char_def)
  moreover have "is_ascii (b64url bs)" using ds(2) digit_facts(3) by (auto simp: url is_ascii_def)
  ultimately show ?thesis using lenient_inverts[OF assms, of "[]"] by (simp add: b64url_decode_def)
qed

text \<open>The key pair: a signature verifies what it signs. The signature is a list of bytes.\<close>

definition key_pair :: "option_env \<Rightarrow> bool" where
  "key_pair env \<longleftrightarrow> (\<forall>m. op_verify env (op_sign env m) m \<and> (\<forall>b\<in>set (op_sign env m). b < 256))"

lemma signed_link_verifies: "key_pair env \<Longrightarrow> verify_card_link (op_verify env) s (sign_card_link (op_sign env) s)"
  by (simp add: verify_card_link_def sign_card_link_def key_pair_def b64url_inverts)

section \<open>One decision\<close>

lemma find_app: "List.find P (xs @ ys) = (case List.find P xs of None \<Rightarrow> List.find P ys | Some x \<Rightarrow> Some x)"
  by (induction xs) simp_all

definition card_link :: "option_env \<Rightarrow> nat \<Rightarrow> string option \<Rightarrow> decide_query" where
  "card_link env i opt =
    \<lparr>dq_card = uuid_str i, dq_sig = sign_card_link (op_sign env) (uuid_str i), dq_opt = opt,
     dq_outcome = (if opt = None then Some ''rejected_all'' else None), dq_channel = ''teams_card''\<rparr>"

text \<open>A card of which the option ids are texts among A, B and C, as option-card.schema.json has
it.\<close>

definition offers :: "card_row \<Rightarrow> string list \<Rightarrow> bool" where
  "offers row ids \<longleftrightarrow> (\<exists>kvs. card_json row = JObj kvs) \<and> option_ids (card_json row) = Inr (map JStr ids) \<and> set ids \<subseteq> {''A'', ''B'', ''C''}"

lemma link_is_read:
  assumes "key_pair env" "op_uuid env (uuid_str i) = Some i" "principal_from_headers hs = Inr (Some p)"
      "card_at i db = Some row" "now < oq_expires row" "offers row ids" "case opt of Some x \<Rightarrow> x \<in> set ids | None \<Rightarrow> True"
  shows "decide_read env hs (card_link env i opt) now db = Inr (p, row)"
  using assms signed_link_verifies[OF assms(1), of "uuid_str i"]
  by (cases opt) (auto simp: decide_read_def card_link_def query_ok_def DECIDE_CHANNELS_def option_principal_def fetch_card_def check_option_def offers_def)

lemma first_write:
  assumes "\<exists>kvs. card_json row = JObj kvs" "fetch_decision (oq_id row) db = None" "latency_seconds row now \<le> 2147483647"
  shows "\<exists>d. decide_write env p row q now written db = (Inr d, db\<lparr>vd_decided := vd_decided db @ [d]\<rparr>) \<and>
    decision_of p row q d \<and> de_at d = written"
proof (cases rule: write_cases[of env p row q now written db])
  case (none r)
  with assms show ?thesis
    by (cases "dq_opt q") (auto simp: decide_write_def record_decision_def was_recommended_def Let_def)
next
  case (decision d)
  then show ?thesis by blast
qed

lemma second_write:
  assumes "\<exists>kvs. card_json row = JObj kvs" "fetch_decision (oq_id row) db = Some d" "latency_seconds row now \<le> 2147483647"
      "jget (de_fields d) ''decided_by'' = Some who"
  shows "decide_write env p row q now written db = (Inl (RefusedWith 409 \<lparr>dd_by = who, dd_at = Some (op_iso env (de_at d))\<rparr>), db)"
  using assms by (cases "dq_opt q") (auto simp: decide_write_def record_decision_def was_recommended_def Let_def)


text \<open>At its expiry a card can no longer be decided by anyone.\<close>

lemma expired_card_is_closed:
  assumes "card_at i db = Some row" "op_uuid env (dq_card q) = Some i" "oq_expires row \<le> now"
  shows "\<exists>e. decide env hs q now written db = (Inl e, db)"
  using assms by (auto simp: decide_def decide_read_def fetch_card_def split: sum.splits)


section \<open>Expired cards\<close>

text \<open>The digest against the Vault's list of pending cards: no timeout of a card is ever applied,
and no card of a non-negotiable kind is ever posted.\<close>

lemma pending_rows:
  assumes "list_option_cards True n off asked st = Inr rows" "row \<in> set rows"
  shows "asked < oq_expires row \<and> row \<in> set (vd_cards (vs_db st)) \<and> (\<forall>d\<in>set (vd_decided (vs_db st)). de_card d \<noteq> oq_id row)"
  using assms by (auto simp: list_option_cards_def Let_def split: if_splits dest!: in_set_takeD in_set_dropD)

lemma no_permission: "fate_of m [] now rs c =
    (if ocd_expires c \<le> now then (if ocd_default c \<noteq> None then Timeout else if ocd_id c \<in> set rs then Unresolved else Showing) else Remaining)"
  by (simp add: fate_of_def)

lemma digest_lists:
  "rr_auto (digest_routing svc cs now) = []" "rr_expired (digest_routing svc cs now) = []"
  "c \<in> set (rr_timeouts (digest_routing svc cs now)) \<Longrightarrow> c \<in> set cs \<and> ocd_expires c \<le> now"
  "c \<in> set (rr_escalations (digest_routing svc cs now)) \<Longrightarrow> c \<in> set cs \<and> (ocd_budget c = ''realtime'' \<or> ocd_expires c \<le> now)"
  "c \<in> set (rr_sent (digest_routing svc cs now)) \<Longrightarrow> c \<in> set cs \<and> ocd_budget c \<noteq> ''realtime'' \<and> now < ocd_expires c"
  by (auto simp: digest_routing_def route_def Let_def no_permission List.map_filter_def split: if_splits dest!: in_set_takeD)

lemma list_all2_right: "list_all2 P xs ys \<Longrightarrow> y \<in> set ys \<Longrightarrow> \<exists>x\<in>set xs. P x y"
  by (induction rule: list_all2_induct) auto

text \<open>C33: A card that is past its expiry when the digest asks for the pending cards is not among
them, and can no longer be decided: its default is never applied and it gets no second showing.
Of the cards that are there, the routing settles or shows again only those that expire between the
answer of the Vault and the routing itself.\<close>

theorem timeout_is_never_applied:
  assumes "card_at i (vs_db st) = Some row" "oq_expires row \<le> asked" "op_uuid env (dq_card q) = Some i"
      and "list_option_cards True n off asked st = Inr rows"
      and "list_all2 (\<lambda>w c. read_card (dg_parse svc) (card_json w) = Some c \<and> ocd_expires c = oq_expires w) rows cs"
      and "r = digest_routing svc cs now"
  shows "row \<notin> set rows \<and> snd (decide env hs q asked made (vs_db st)) = vs_db st \<and> rr_auto r = [] \<and> rr_expired r = [] \<and>
    (\<forall>c\<in>set (rr_timeouts r). asked < ocd_expires c \<and> ocd_expires c \<le> now) \<and>
    (\<forall>c\<in>set (rr_escalations r). ocd_budget c = ''realtime'' \<or> asked < ocd_expires c \<and> ocd_expires c \<le> now)"
proof -
  have later: "asked < ocd_expires c" if c: "c \<in> set cs" for c
  proof -
    from c assms(5) obtain w where "w \<in> set rows" "ocd_expires c = oq_expires w" by (auto dest: list_all2_right)
    with pending_rows[OF assms(4)] show ?thesis by simp
  qed
  have "row \<notin> set rows" using pending_rows[OF assms(4)] assms(2) by force
  moreover have "snd (decide env hs q asked made (vs_db st)) = vs_db st"
  proof -
    obtain e where "decide env hs q asked made (vs_db st) = (Inl e, vs_db st)"
      using expired_card_is_closed[OF assms(1,3,2), of hs made] by (elim exE)
    then show ?thesis by simp
  qed
  ultimately show ?thesis using digest_lists(1,2) digest_lists(3,4)[of _ svc cs now] later unfolding assms(6) by blast
qed

text \<open>What a run posts are the sections of the cards it calls sent.\<close>

lemma posted_cards_are_sent:
  assumes "rendered_sections stamp base sign cs = Some js" "j \<in> set js"
  shows "\<exists>c\<in>set cs. \<exists>sig. sign (ocd_id c) = Some sig \<and> j = render_card_section stamp base c sig"
  using assms by (induction cs arbitrary: js) (auto split: option.splits)

end
