(* ===== verification/Option_Compose.thy ===== *)
theory Option_Compose
  imports Option_Cards QA_Review
begin

text \<open>Fn 116 (dispatch/handlers/options.py, compose_options_handler): a drafted post and two
alternates that a model writes are each reviewed once, and the candidates that survive become the
options of a card in the Vault.\<close>

text \<open>\<open>oc_uuid\<close> is uuid4, \<open>oc_clock\<close> datetime.now, \<open>oc_stamp\<close> datetime.isoformat, \<open>oc_matrix\<close> the parsed
autonomy matrix, \<open>oc_schema\<close> jsonschema on the card contract.\<close>

record option_services =
  oc_qa :: qa_env
  oc_uuid :: "qa_call list \<Rightarrow> string"
  oc_clock :: "qa_call list \<Rightarrow> instant"
  oc_stamp :: "instant \<Rightarrow> string"
  oc_matrix :: matrix
  oc_schema :: "ocard \<Rightarrow> bool"

definition FUNCTION_ID_116 :: string where "FUNCTION_ID_116 = ''116-options-composer''"

section \<open>Evidence\<close>

text \<open>value or d, for a value that the card contract wants as a text.\<close>

definition text_or :: "json \<Rightarrow> string \<Rightarrow> orch_error + string" where
  "text_or v d = (if \<not> jtruth v then Inr d else (case v of JStr s \<Rightarrow> Inr s | _ \<Rightarrow> Inl (OtherError ''ValidationError'')))"

definition evidence_of_point :: "json \<Rightarrow> orch_error + evidence_ref" where
  "evidence_of_point point =
    (case (get_of point ''source'', get_of point ''claim'') of
       (Inr src, Inr claim) \<Rightarrow>
         (case (text_or src ''unknown'', text_or claim []) of
            (Inr r, Inr q) \<Rightarrow> Inr \<lparr>ev_type = ''web_source'', ev_ref = r, ev_quote = Some (take 300 q), ev_authority = ''primary''\<rparr>
          | (Inl e, _) \<Rightarrow> Inl e
          | (_, Inl e) \<Rightarrow> Inl e)
     | (Inl e, _) \<Rightarrow> Inl e
     | (_, Inl e) \<Rightarrow> Inl e)"

fun all_right :: "('a \<Rightarrow> 'e + 'b) \<Rightarrow> 'a list \<Rightarrow> 'e + 'b list" where
  "all_right f [] = Inr []"
| "all_right f (x # xs) =
    (case f x of Inl e \<Rightarrow> Inl e | Inr y \<Rightarrow> (case all_right f xs of Inl e \<Rightarrow> Inl e | Inr ys \<Rightarrow> Inr (y # ys)))"

definition option_evidence_refs :: "json \<Rightarrow> json \<Rightarrow> orch_error + evidence_ref list" where
  "option_evidence_refs points asset_id =
    (if \<not> jtruth points
     then map_sum id (\<lambda>r. [\<lparr>ev_type = ''vault_asset'', ev_ref = r, ev_quote = None, ev_authority = ''primary''\<rparr>]) (text_or asset_id [])
     else (case points of
             JArr xs \<Rightarrow> all_right evidence_of_point xs
           | JStr _ \<Rightarrow> Inl (OtherError ''AttributeError'')
           | JObj _ \<Rightarrow> Inl (OtherError ''AttributeError'')
           | _ \<Rightarrow> Inl (OtherError ''TypeError'')))"

section \<open>The review of one option\<close>

definition check_input :: "qa_env \<Rightarrow> string \<Rightarrow> json \<Rightarrow> unit qa" where
  "check_input env function_id payload =
    (if qe_input_ok env function_id payload then qa_return ()
     else qa_lift (Inl (DispatchError (function_id @ '': handler input failed schema.json validation''))))"

text \<open>One of the two reviews: the declared verdict and the codes it names.\<close>

definition option_review ::
    "qa_env \<Rightarrow> tid \<Rightarrow> task_envelope \<Rightarrow> string \<Rightarrow> string \<Rightarrow> string \<Rightarrow> json \<Rightarrow> string \<Rightarrow> review_kind \<Rightarrow> (bool \<times> string list) qa" where
  "option_review env t e campaign channel draft_text points label kind =
    (let params = qa_review_params kind;
         payload = JObj ([(''draft_text'', JStr draft_text), (''client_references'', JArr []), (''channel'', JStr channel)] @
           by_kind kind [] [(''proof_points'', points)])
     in qa_bind (create_agent_run_idempotent env t (agent_name_of (rp_agent params) e) campaign (rp_function params)
          (JObj [(''channel'', JStr channel), (''review_kind'', JStr (kind_text kind)), (''option'', JStr label)])) (\<lambda>agent_run.
        qa_bind (check_input env (rp_function params) payload) (\<lambda>_.
        qa_bind (read_prompt env (rp_prompt params)) (\<lambda>prompt.
        qa_bind (qa_lift (item_of agent_run ''id'')) (\<lambda>run.
        qa_bind (complete_and_meter env prompt (dumps_default env payload) run 1536) (\<lambda>response.
        qa_bind (qa_lift (parsed_content response)) (\<lambda>verdict.
        qa_bind (resolve_verdict env (rp_function params) verdict) (\<lambda>(declared_pass, named).
        qa_bind (update_agent_run env run (if declared_pass then ''succeeded'' else ''failed'') (JObj verdict)) (\<lambda>_.
        qa_return (declared_pass, named))))))))))"

text \<open>What is left of the codes of both reviews; the declared verdicts are not looked at.\<close>

definition option_violations :: "string list \<Rightarrow> clearance list \<Rightarrow> string \<Rightarrow> string list" where
  "option_violations named uncleared draft_text =
    fst (reconcile_violations
      (if uncleared \<noteq> [] \<and> VIOLATION_CODE \<notin> set named then named @ [VIOLATION_CODE] else named) draft_text)"

definition run_option_qa ::
    "qa_env \<Rightarrow> tid \<Rightarrow> task_envelope \<Rightarrow> string \<Rightarrow> string \<Rightarrow> string \<Rightarrow> json \<Rightarrow> string \<Rightarrow> (bool \<times> string list) qa" where
  "run_option_qa env t e campaign channel draft_text points label =
    qa_bind (option_review env t e campaign channel draft_text points label Brand_Steward) (\<lambda>(brand_pass, brand).
    qa_bind (option_review env t e campaign channel draft_text points label Fact_Check) (\<lambda>(fact_pass, fact_named).
    qa_bind (load_permissions env) (\<lambda>reg.
    let violations = option_violations (brand @ fact_named) (find_uncleared_in_text (qe_str env) reg draft_text) draft_text
    in qa_return (violations = [], violations))))"

section \<open>Candidates\<close>

record candidate =
  ca_source :: string
  ca_text :: string
  ca_axis :: "string option"
  ca_outcome :: "string option"

text \<open>output["alternates"][n], whose three keys the output schema wants as texts.\<close>

definition alternate :: "(string \<times> json) list \<Rightarrow> nat \<Rightarrow> string \<Rightarrow> orch_error + candidate" where
  "alternate out n source =
    (case jget out ''alternates'' of
       Some (JArr xs) \<Rightarrow>
         (if length xs \<le> n then Inl (OtherError ''IndexError'')
          else (case (item_of (xs ! n) ''text'', item_of (xs ! n) ''distinctness_axis'', item_of (xs ! n) ''predicted_outcome'') of
                  (Inr (JStr tx), Inr (JStr axis), Inr (JStr outcome)) \<Rightarrow>
                    Inr \<lparr>ca_source = source, ca_text = tx, ca_axis = Some axis, ca_outcome = Some outcome\<rparr>
                | _ \<Rightarrow> Inl (OtherError ''KeyError'')))
     | Some _ \<Rightarrow> Inl (OtherError ''TypeError'')
     | None \<Rightarrow> Inl (OtherError ''KeyError''))"

definition candidates :: "string \<Rightarrow> (string \<times> json) list \<Rightarrow> orch_error + candidate list" where
  "candidates original out =
    (case (alternate out 0 ''alt_1'', alternate out 1 ''alt_2'') of
       (Inr a, Inr b) \<Rightarrow> Inr [\<lparr>ca_source = ''original'', ca_text = original, ca_axis = None, ca_outcome = None\<rparr>, a, b]
     | (Inl e, _) \<Rightarrow> Inl e
     | (_, Inl e) \<Rightarrow> Inl e)"

definition LETTERS :: "string list" where "LETTERS = [''A'', ''B'', ''C'']"

text \<open>The candidates with their letters, reviewed in turn; the survivors keep their letter.\<close>

fun surviving ::
    "qa_env \<Rightarrow> tid \<Rightarrow> task_envelope \<Rightarrow> string \<Rightarrow> string \<Rightarrow> json \<Rightarrow> string \<Rightarrow> (string \<times> candidate) list \<Rightarrow> (string \<times> candidate) list qa" where
  "surviving env t e campaign channel points draft_type [] = qa_return []"
| "surviving env t e campaign channel points draft_type ((letter, c) # cs) =
    qa_bind (run_option_qa env t e campaign channel (ca_text c) points (draft_type @ '':'' @ ca_source c)) (\<lambda>(passed, violations).
    qa_bind (surviving env t e campaign channel points draft_type cs) (\<lambda>rest.
    qa_return (if passed then (letter, c) # rest else rest)))"

definition default_outcome :: string where
  "default_outcome = ''Engagement in line with this pillar'' @ [CHR 0x27] @ ''s recent posts.''"

definition option_of :: "string \<Rightarrow> string \<Rightarrow> evidence_ref list \<Rightarrow> string \<times> candidate \<Rightarrow> card_option" where
  "option_of asset_id run evidence lc =
    (let (letter, c) = lc
     in \<lparr>co_id = letter, co_label = ''Option '' @ letter, co_summary = take 400 (ca_text c),
         co_payload = (if ca_source c = ''original'' then ''vault://asset/'' @ asset_id
                       else ''vault://agent-run/'' @ run @ ''/'' @ ca_source c),
         co_evidence = evidence, co_outcome = or_else (ca_outcome c) default_outcome, co_risks = [],
         co_axis = Some (or_else (ca_axis c) ''original draft, unmodified'')\<rparr>)"

text \<open>The letter of the last survivor from the recommended source, else the first survivor's.\<close>

definition recommended_letter :: "json \<Rightarrow> (string \<times> candidate) list \<Rightarrow> string" where
  "recommended_letter source ss =
    (case filter (\<lambda>lc. JStr (ca_source (snd lc)) = source) ss of
       [] \<Rightarrow> fst (hd ss)
     | hits \<Rightarrow> fst (last hits))"

definition composed_proposal ::
    "qa_env \<Rightarrow> tid \<Rightarrow> string \<Rightarrow> json \<Rightarrow> json \<Rightarrow> evidence_ref list \<Rightarrow> json \<Rightarrow> string \<Rightarrow> (string \<times> candidate) list \<Rightarrow> proposal" where
  "composed_proposal env t draft_type asset_id run evidence recommended rationale ss =
    \<lparr>pp_kind = ''content.reply'', pp_level = 2, pp_title = take 120 (draft_type @ '': choose the version to publish''),
     pp_question = ''Which version should go out?'',
     pp_options = map (option_of (str_of (qe_str env) asset_id) (str_of (qe_str env) run) evidence) ss,
     pp_recommended = recommended_letter recommended ss, pp_evidence = evidence, pp_function = 116, pp_prompt = ''0.1.0'',
     pp_rows = [''H9''], pp_rationale = rationale, pp_context = [], pp_novel = False,
     pp_lineage = [(''agent_run_id'', run), (''source_task_id'', JStr (uuid_str t))], pp_hours = None, pp_earned = False\<rparr>"

section \<open>The handler\<close>

definition compose_undrafted :: "qa_env \<Rightarrow> tid \<Rightarrow> task_envelope \<Rightarrow> task_row \<Rightarrow> json \<Rightarrow> unit qa" where
  "compose_undrafted env t e d ref =
    qa_bind open_vault (\<lambda>_.
    qa_bind (get_or_create_campaign env (campaign_name e) FUNCTION_ID_116) (\<lambda>campaign.
    qa_bind (qa_lift (get_of ref ''status'')) (\<lambda>status.
    let result = JObj ([(''composed'', JBool False),
          (''status'', if jtruth status then status else JStr ''no_reviewable_asset'')] @ draft_fields d @ [(''campaign_id'', JStr campaign)])
    in if jtruth status then settle_completed t result else block_task t result)))"

definition compose_blocked :: "qa_env \<Rightarrow> tid \<Rightarrow> json \<Rightarrow> string \<Rightarrow> nat \<Rightarrow> unit qa" where
  "compose_blocked env t run campaign n =
    qa_bind (update_agent_run env run ''failed'' (JObj [(''surviving_count'', JInt (int n))])) (\<lambda>_.
    block_task t (JObj [(''pass'', JBool False), (''reason'', JStr ''fewer_than_2_options_survived_qa''),
      (''surviving_count'', JInt (int n)), (''campaign_id'', JStr campaign)]))"

text \<open>build_card with the identity and the clock of the moment, and POST /option-cards.\<close>

definition made_card :: "option_services \<Rightarrow> proposal \<Rightarrow> ocard qa" where
  "made_card svc p st =
    (case build_card (oc_matrix svc) (oc_schema svc) None p (oc_uuid svc (qs_calls st)) (oc_clock svc (qs_calls st)) of
       Inl x \<Rightarrow> (Inl (OtherError x), st)
     | Inr c \<Rightarrow> (Inr c, st))"

definition card_body :: "option_services \<Rightarrow> json \<Rightarrow> int \<Rightarrow> ocard \<Rightarrow> json" where
  "card_body svc run function_id c =
    JObj [(''card_id'', JStr (ocd_id c)), (''kind'', JStr (ocd_kind c)), (''autonomy_level'', JInt (ocd_level c)),
      (''risk_tier'', JStr (ocd_tier c)), (''agent_run_id'', run), (''produced_by_function'', JInt function_id),
      (''card'', card_doc (oc_stamp svc) c), (''created_at'', JStr (oc_stamp svc (ocd_created c))),
      (''expires_at'', JStr (oc_stamp svc (ocd_expires c)))]"

definition rationale_of :: "(string \<times> json) list \<Rightarrow> orch_error + string" where
  "rationale_of out = (case jget out ''rationale'' of None \<Rightarrow> Inr [] | Some (JStr s) \<Rightarrow> Inr s
     | Some _ \<Rightarrow> Inl (OtherError ''ValidationError''))"

definition compose_card ::
    "option_services \<Rightarrow> tid \<Rightarrow> task_row \<Rightarrow> json \<Rightarrow> json \<Rightarrow> json \<Rightarrow> (string \<times> json) list \<Rightarrow> string \<Rightarrow> (string \<times> candidate) list \<Rightarrow> unit qa" where
  "compose_card svc t d asset_id points run out campaign ss =
    (let env = oc_qa svc in
    qa_bind (qa_lift (option_evidence_refs points asset_id)) (\<lambda>evidence.
    qa_bind (qa_need (OtherError ''KeyError'') (jget out ''recommended'')) (\<lambda>recommended.
    qa_bind (qa_lift (rationale_of out)) (\<lambda>rationale.
    qa_bind (made_card svc (composed_proposal env t (tk_type d) asset_id run evidence recommended rationale ss)) (\<lambda>c.
    qa_bind (vault_post env ''/option-cards'' (card_body svc run 116 c)) (\<lambda>created.
    qa_bind (update_agent_run env run ''succeeded'' (JObj out)) (\<lambda>_.
    qa_bind (qa_lift (item_of created ''card_id'')) (\<lambda>card_id.
    settle_completed t (JObj [(''pass'', JBool True), (''card_id'', card_id), (''agent_run_id'', run),
      (''campaign_id'', JStr campaign), (''surviving_count'', JInt (int (length ss)))])))))))))"

definition compose_draft ::
    "option_services \<Rightarrow> tid \<Rightarrow> task_envelope \<Rightarrow> task_row \<Rightarrow> json \<Rightarrow> json \<Rightarrow> unit qa" where
  "compose_draft svc t e d ref asset_id =
    (let env = oc_qa svc; channel = review_channel (Some (tk_type d)) in
    qa_bind (qa_lift (get_of ref ''proof_points'')) (\<lambda>given. let points = or_empty given in
    qa_bind open_vault (\<lambda>_.
    qa_bind (get_or_create_campaign env (campaign_name e) FUNCTION_ID_116) (\<lambda>campaign.
    qa_bind (vault_get env (''/assets/'' @ str_of (qe_str env) asset_id)) (\<lambda>asset.
    qa_bind (qa_lift (asset_text asset)) (\<lambda>stored. let original = teams_display_text stored in
    qa_bind (create_agent_run_idempotent env t (agent_name_of ''options-composer'' e) campaign FUNCTION_ID_116
      (JObj [(''draft_task_type'', JStr (tk_type d)), (''draft_task_id'', JStr (uuid_str (tk_id d)))])) (\<lambda>agent_run.
    qa_bind (qa_lift (get_of ref ''pillar'')) (\<lambda>pillar.
    qa_bind (qa_lift (get_of ref ''campaign'')) (\<lambda>ref_campaign.
    let payload = JObj [(''original_draft_text'', JStr original), (''pillar'', pillar), (''campaign'', ref_campaign), (''proof_points'', points)] in
    qa_bind (check_input env FUNCTION_ID_116 payload) (\<lambda>_.
    qa_bind (read_prompt env FUNCTION_ID_116) (\<lambda>prompt.
    qa_bind (qa_lift (item_of agent_run ''id'')) (\<lambda>run.
    qa_bind (complete_and_meter env prompt (dumps_default env payload) run 3072) (\<lambda>response.
    qa_bind (qa_lift (parsed_content response)) (\<lambda>out.
    qa_bind (if qe_output_ok env FUNCTION_ID_116 (JObj out) then qa_return ()
             else qa_lift (Inl (DispatchError (FUNCTION_ID_116 @ '': model output failed schema.json validation'')))) (\<lambda>_.
    qa_bind (qa_lift (candidates original out)) (\<lambda>cs.
    qa_bind (surviving env t e campaign channel points (tk_type d) (zip LETTERS cs)) (\<lambda>ss.
    if length ss < 2 then compose_blocked env t run campaign (length ss)
    else compose_card svc t d asset_id points run out campaign ss)))))))))))))))))"

definition compose_options_handler :: "option_services \<Rightarrow> tid \<Rightarrow> task_envelope \<Rightarrow> unit qa" where
  "compose_options_handler svc t e =
    qa_bind (find_lineage t) (\<lambda>lineage.
    case lineage of
      None \<Rightarrow> qa_lift (Inl (DispatchError ''compose-options: no wednesday-draft ancestor carries a result_ref''))
    | Some (d, ref) \<Rightarrow>
        qa_bind (qa_lift (get_of ref ''vault_asset_id'')) (\<lambda>asset_id.
        if \<not> jtruth asset_id then compose_undrafted (oc_qa svc) t e d ref
        else compose_draft svc t e d ref asset_id))"

end
