(* ===== verification/Option_Earned.thy ===== *)
theory Option_Earned
  imports Option_Compose Option_Props QA_Earned
begin

text \<open>What a composed card rests on, what it costs, and a refusal that does not stop it.\<close>

section \<open>The review of an option\<close>

lemma run_option_qa_ok: "run_option_qa env t e campaign channel tx points label st = (Inr (ok, vs), st') \<Longrightarrow> ok \<longleftrightarrow> vs = []"
  by (auto simp: run_option_qa_def qa_bind_ok Let_def qa_return_def split: prod.splits)

text \<open>C30: An option passes its review exactly on what is left of the violation codes. Two reviewers
that both declare a failure but name no code let it pass, while the same verdict blocks a
single draft.\<close>

theorem refused_option_survives:
  assumes "option_review env t e campaign channel tx points label Brand_Steward st = (Inr (False, []), s1)"
    and "option_review env t e campaign channel tx points label Fact_Check s1 = (Inr (False, []), s2)"
    and "load_permissions env s2 = (Inr reg, s2)" and "find_uncleared_in_text (qe_str env) reg tx = []"
  shows "run_option_qa env t e campaign channel tx points label st = (Inr (True, []), s2) \<and>
    judge False [] (find_uncleared_in_text (qe_str env) reg tx) tx = ([QA_VERDICT_UNSPECIFIED_FAILURE], False)"
proof -
  have r: "reconcile_violations [] tx = ([], [])" by (simp add: reconcile_violations_def)
  then show ?thesis
    using assms by (simp add: run_option_qa_def qa_bind_def qa_return_def option_violations_def judge_def)
qed

section \<open>Survivors\<close>

lemma surviving_reviewed:
  assumes "surviving env t e campaign channel points ty cs st = (Inr ss, st')" and "lc \<in> set ss"
  shows "lc \<in> set cs \<and> (\<exists>s s'. run_option_qa env t e campaign channel (ca_text (snd lc)) points (ty @ '':'' @ ca_source (snd lc)) s = (Inr (True, []), s'))"
  using assms
proof (induction cs arbitrary: st ss st')
  case Nil
  then show ?case by (simp add: qa_return_def)
next
  case (Cons x cs)
  obtain letter c where x: "x = (letter, c)" by force
  from Cons.prems(1)[unfolded x surviving.simps qa_bind_ok] obtain ok vs s1 rest s2
    where q: "run_option_qa env t e campaign channel (ca_text c) points (ty @ '':'' @ ca_source c) st = (Inr (ok, vs), s1)"
      and r: "surviving env t e campaign channel points ty cs s1 = (Inr rest, s2)"
      and ss: "ss = (if ok then (letter, c) # rest else rest)"
    by (auto simp: qa_bind_ok qa_return_def)
  show ?case
  proof (cases "lc \<in> set rest")
    case True
    with Cons.IH[OF r] show ?thesis by simp
  next
    case False
    with ss Cons.prems(2) have "ok" "lc = (letter, c)" by (auto split: if_splits)
    with q run_option_qa_ok[OF q] x show ?thesis by auto
  qed
qed

lemma surviving_length: "surviving env t e campaign channel points ty cs st = (Inr ss, st') \<Longrightarrow> length ss \<le> length cs"
proof (induction cs arbitrary: st ss st')
  case (Cons x cs)
  obtain letter c where x: "x = (letter, c)" by force
  from Cons.prems[unfolded x surviving.simps qa_bind_ok] obtain ok vs s1 rest s2
    where "surviving env t e campaign channel points ty cs s1 = (Inr rest, s2)"
      and "ss = (if ok then (letter, c) # rest else rest)"
    by (auto simp: qa_bind_ok qa_return_def)
  with Cons.IH[of s1 rest s2] show ?case by auto
qed (simp add: qa_return_def)

lemma candidates_three: "candidates original out = Inr cs \<Longrightarrow> length cs = 3"
  by (auto simp: candidates_def split: sum.splits)

section \<open>The card\<close>

text \<open>The card that a run posted, with the campaign, the channel and the proof points of its
reviews.\<close>

definition reviewed_card ::
    "option_services \<Rightarrow> tid \<Rightarrow> task_envelope \<Rightarrow> string \<Rightarrow> json \<Rightarrow> ocard \<Rightarrow> bool" where
  "reviewed_card svc t e channel points c \<longleftrightarrow>
    validate_card (oc_matrix svc) (oc_schema svc) None c = None \<and> ocd_kind c = ''content.reply'' \<and>
    2 \<le> length (ocd_options c) \<and> length (ocd_options c) \<le> 3 \<and>
    (\<forall>o'\<in>set (ocd_options c). \<exists>tx campaign label s s'. co_summary o' = take 400 tx \<and>
       run_option_qa (oc_qa svc) t e campaign channel tx points label s = (Inr (True, []), s'))"

lemma emits_prefix: "emits (\<lambda>_. 0) 0 m \<Longrightarrow> m st = (r, st') \<Longrightarrow> set (qs_calls st) \<subseteq> set (qs_calls st')"
  by (erule emitsD) (assumption, simp)

lemma weightless [silent]:
  "emits (\<lambda>_. 0) 0 (update_agent_run env i s out)" "emits (\<lambda>_. 0) 0 (settle_completed t ref)"
proof -
  show "emits (\<lambda>_. 0) 0 (update_agent_run env i s out)"
    by (rule emitsI) (simp add: update_agent_run_def vault_patch_def qa_bind_def qa_call_def qa_lift_def qa_return_def split: sum.split)
  show "emits (\<lambda>_. 0) 0 (settle_completed t ref)"
    unfolding settle_completed_def by (intro emits_rules silent)
qed

lemma vault_post_logs: "vault_post env p b st = (Inr v, st') \<Longrightarrow> Vault_Post p b \<in> set (qs_calls st')"
  by (auto simp: vault_post_def qa_bind_ok qa_call_def qa_lift_def)

lemma composed_card:
  assumes "compose_card svc t d asset_id points run out campaign ss st = (Inr (), st')"
      and ss: "2 \<le> length ss" "length ss \<le> 3"
      and reviewed: "\<And>lc. lc \<in> set ss \<Longrightarrow> \<exists>label s s'. run_option_qa (oc_qa svc) t e campaign channel (ca_text (snd lc)) points label s = (Inr (True, []), s')"
  shows "\<exists>c. Vault_Post ''/option-cards'' (card_body svc run 116 c) \<in> set (qs_calls st') \<and> reviewed_card svc t e channel points c"
proof -
  from assms(1)[unfolded compose_card_def Let_def qa_bind_ok] obtain evidence recommended rationale c created u card_id s1 s2 s3 s4 s5 s6
    where card: "made_card svc (composed_proposal (oc_qa svc) t (tk_type d) asset_id run evidence recommended rationale ss) s1 = (Inr c, s2)"
      and post: "vault_post (oc_qa svc) ''/option-cards'' (card_body svc run 116 c) s2 = (Inr created, s3)"
      and upd: "update_agent_run (oc_qa svc) run ''succeeded'' (JObj out) s3 = (Inr u, s4)"
      and item: "qa_lift (item_of created ''card_id'') s4 = (Inr card_id, s5)"
      and fin: "settle_completed t (JObj [(''pass'', JBool True), (''card_id'', card_id), (''agent_run_id'', run),
        (''campaign_id'', JStr campaign), (''surviving_count'', JInt (int (length ss)))]) s5 = (Inr (), st')"
    by blast
  from card obtain i now where built: "build_card (oc_matrix svc) (oc_schema svc) None
      (composed_proposal (oc_qa svc) t (tk_type d) asset_id run evidence recommended rationale ss) i now = Inr c"
    by (auto simp: made_card_def split: sum.splits)
  then have c: "ocd_kind c = ''content.reply''" "ocd_options c = map (option_of (str_of (qe_str (oc_qa svc)) asset_id) (str_of (qe_str (oc_qa svc)) run) evidence) ss"
    "validate_card (oc_matrix svc) (oc_schema svc) None c = None"
    by (auto elim!: build_cardE simp: composed_proposal_def)
  have "co_summary (option_of a r ev lc) = take 400 (ca_text (snd lc))" for a r ev lc
    by (simp add: option_of_def Let_def split: prod.split)
  with c(2) reviewed have "\<forall>o'\<in>set (ocd_options c). \<exists>tx campaign label s s'. co_summary o' = take 400 tx \<and>
       run_option_qa (oc_qa svc) t e campaign channel tx points label s = (Inr (True, []), s')" by fastforce
  with c ss have "reviewed_card svc t e channel points c" by (simp add: reviewed_card_def)
  moreover have "Vault_Post ''/option-cards'' (card_body svc run 116 c) \<in> set (qs_calls st')"
    using vault_post_logs[OF post] emits_prefix[OF weightless(1) upd] item emits_prefix[OF weightless(2) fin]
    by (auto simp: qa_lift_def)
  ultimately show ?thesis by blast
qed

lemma block_result:
  assumes "block_task t ref st = (Inr (), st')"
  shows "get_result_ref t (qs_db st') = Some ref"
proof -
  from assms obtain r where "get_task t (qs_db st') = Some (r\<lparr>tk_result := Some ref, tk_state := FAILED\<rparr>)" by (rule block_task_row)
  then show ?thesis by (simp add: get_result_ref_def)
qed

lemma undrafted_no_pass:
  assumes "compose_undrafted env t e d ref st = (Inr (), st')"
  shows "\<not> passes t (qs_db st')"
proof -
  define result where "result campaign status = JObj ([(''composed'', JBool False),
          (''status'', if jtruth status then status else JStr ''no_reviewable_asset'')] @ draft_fields d @ [(''campaign_id'', JStr campaign)])"
    for campaign status
  from assms[unfolded compose_undrafted_def Let_def qa_bind_ok] obtain campaign status s1
    where "(if jtruth status then settle_completed t (result campaign status) else block_task t (result campaign status)) s1 = (Inr (), st')"
    unfolding result_def by blast
  then have "get_result_ref t (qs_db st') = Some (result campaign status)"
    using settle_result block_result by (auto split: if_splits)
  then show ?thesis by (simp add: passes_def result_def draft_fields_def)
qed

lemma blocked_no_pass:
  assumes "compose_blocked env t run campaign n st = (Inr (), st')"
  shows "\<not> passes t (qs_db st')"
proof -
  from assms[unfolded compose_blocked_def qa_bind_ok] obtain s1 where
    "block_task t (JObj [(''pass'', JBool False), (''reason'', JStr ''fewer_than_2_options_survived_qa''),
      (''surviving_count'', JInt (int n)), (''campaign_id'', JStr campaign)]) s1 = (Inr (), st')" by blast
  from block_settles(1)[OF this] show ?thesis by (rule failed_not_passes)
qed


end
