(* ===== verification/Option_Scene.thy ===== *)
theory Option_Scene
  imports Option_Earned QA_Scene
begin

text \<open>The options handler at a concrete input: both reviewers refuse every option without naming a
code, and the card is posted with all three.\<close>

section \<open>The services\<close>

definition refusing :: "(string \<times> json) list" where
  "refusing = [(''pass'', JBool False), (''violations'', JArr []), (''recommended'', JStr ''original''),
     (''alternates'', JArr [
        JObj [(''text'', JStr ''hue''), (''distinctness_axis'', JStr ''word''), (''predicted_outcome'', JStr ''more'')],
        JObj [(''text'', JStr ''tint''), (''distinctness_axis'', JStr ''tone''), (''predicted_outcome'', JStr ''less'')]])]"

abbreviation refusing_env :: qa_env where "refusing_env \<equiv> answering refusing"

lemma refusing_ok: "wf_json (JObj refusing)"
  by (simp add: refusing_def)

definition refusing_services :: option_services where
  "refusing_services = \<lparr>oc_qa = refusing_env, oc_uuid = (\<lambda>_. ''u''), oc_clock = (\<lambda>_. 0), oc_stamp = (\<lambda>_. ''t''),
     oc_matrix = AUTONOMY_MATRIX, oc_schema = (\<lambda>_. True)\<rparr>"

lemma refusing_sel [simp]: "oc_qa refusing_services = refusing_env" "oc_matrix refusing_services = AUTONOMY_MATRIX"
  "oc_schema refusing_services = (\<lambda>_. True)"
  by (simp_all add: refusing_services_def)

section \<open>A review\<close>

lemma serves_no_codes: "serves (\<lambda>vs. vs = []) (violations_of refusing)"
  by (auto simp: serves_def violations_of_def refusing_def codes_of_def iter_or_empty_def qa_need_def List.map_filter_def)

lemma serves_refusal: "serves (\<lambda>x. x = (False, [])) (option_review refusing_env t e campaign channel tx points label kind)"
  unfolding option_review_def Let_def check_input_def resolve_verdict_def
  apply (rule serves_bind[OF serves_agent_run])
  apply (rule serves_bind[where P="\<lambda>_. True"], simp add: serves_basic(1))
  apply (rule serves_bind[OF serves_basic(5)])
  apply (rule serves_bind[OF serves_lift], assumption)
  apply (rule serves_bind[OF serves_complete[OF refusing_ok]])
  apply (rule serves_bind[OF serves_lift], assumption)
  apply (rule serves_bind[where P="\<lambda>x. x = (False, [])"])
   apply (simp, rule serves_bind[OF serves_no_codes], rule serves_basic(1), simp add: refusing_def)
  apply (simp, rule serves_bind[OF serves_update])
  apply (rule serves_basic(1), simp)
  done

lemma load_empty: "load_permissions (answering v) st = (Inr [], st)"
  by (simp add: load_permissions_def load_register_def qa_need_def qa_return_def qa_lift_def)

lemma nobody_named: "find_uncleared_in_text p [] tx = []"
  by (simp add: find_uncleared_in_text_def registered_names_def)

lemma refused_option_survives_witness:
  "\<exists>s2. run_option_qa refusing_env 3 scene_e ''c'' ''linkedin'' ''hue'' (JArr []) ''x'' scene = (Inr (True, []), s2) \<and>
     judge False [] [] ''hue'' = ([QA_VERDICT_UNSPECIFIED_FAILURE], False)"
proof -
  have c: "calm (od_tasks (qs_db scene)) scene" by (simp add: calm_def scene_defs empty_orch_def)
  obtain s1 where a: "option_review refusing_env 3 scene_e ''c'' ''linkedin'' ''hue'' (JArr []) ''x'' Brand_Steward scene = (Inr (False, []), s1)"
    "calm (od_tasks (qs_db scene)) s1" using servesE[OF serves_refusal c] by metis
  obtain s2 where b: "option_review refusing_env 3 scene_e ''c'' ''linkedin'' ''hue'' (JArr []) ''x'' Fact_Check s1 = (Inr (False, []), s2)"
    using servesE[OF serves_refusal a(2)] by metis
  show ?thesis using refused_option_survives[OF a(1) b load_empty nobody_named] by (auto simp: nobody_named)
qed

section \<open>The run\<close>

lemma serves_passed: "serves (\<lambda>x. x = (True, [])) (run_option_qa refusing_env t e campaign channel tx points label)"
proof -
  have "option_violations [] [] tx = []" by (simp add: option_violations_def reconcile_violations_def)
  then show ?thesis
    unfolding run_option_qa_def Let_def
    apply (intro serves_bind[OF serves_refusal])
    apply (simp, rule serves_bind[OF serves_refusal])
    apply (simp, rule serves_bind[OF serves_basic(9)], rule serves_basic(1), simp add: nobody_named)
    done
qed

lemma serves_surviving: "serves (\<lambda>ss. ss = cs) (surviving refusing_env t e campaign channel points ty cs)"
proof (induction cs)
  case (Cons x cs)
  show ?case
    by (cases x) (simp, rule serves_bind[OF serves_passed], simp, rule serves_bind[OF Cons.IH], rule serves_basic(1), simp)
qed (simp add: serves_basic(1))

text \<open>Operations that end with pass in the result of task 3.\<close>

definition lands :: "unit qa \<Rightarrow> bool" where
  "lands m \<longleftrightarrow> (\<forall>T st. calm T st \<and> steady T \<longrightarrow> (\<exists>st'. m st = (Inr (), st') \<and> passes 3 (qs_db st')))"

lemma lands_bind:
  assumes m: "serves P m" and f: "\<And>a. P a \<Longrightarrow> lands (f a)" shows "lands (qa_bind m f)"
  unfolding lands_def
proof (intro allI impI, elim conjE)
  fix T st assume c: "calm T st" "steady T"
  obtain a st1 where a: "m st = (Inr a, st1)" "P a" "calm T st1" by (rule servesE[OF m c(1)])
  with f[OF a(2)] c(2) show "\<exists>st'. qa_bind m f st = (Inr (), st') \<and> passes 3 (qs_db st')"
    unfolding lands_def by (auto simp: qa_bind_def)
qed

lemma lands_settle: "get_of ref ''pass'' = Inr (JBool True) \<Longrightarrow> ref = JObj kvs \<Longrightarrow> lands (settle_completed 3 ref)"
  unfolding lands_def
proof (intro allI impI, elim conjE)
  fix T st assume r: "get_of ref ''pass'' = Inr (JBool True)" "ref = JObj kvs" and c: "calm T st" "steady T"
  obtain u st' where s: "settle_completed 3 ref st = (Inr u, st')"
    by (rule endsE[OF ends_settle c, of 3 ref]) simp_all
  from settle_result[of 3 ref st st'] s have "get_result_ref 3 (qs_db st') = Some ref" by simp
  then show "\<exists>st'. settle_completed 3 ref st = (Inr (), st') \<and> passes 3 (qs_db st')"
    using s r by (auto simp: passes_def get_of_def split: option.splits)
qed

text \<open>The card: three options with their letters, one piece of evidence, no default.\<close>

definition scene_options :: "(string \<times> candidate) list" where
  "scene_options = [(''A'', \<lparr>ca_source = ''original'', ca_text = ''color'', ca_axis = None, ca_outcome = None\<rparr>),
     (''B'', \<lparr>ca_source = ''alt_1'', ca_text = ''hue'', ca_axis = Some ''word'', ca_outcome = Some ''more''\<rparr>),
     (''C'', \<lparr>ca_source = ''alt_2'', ca_text = ''tint'', ca_axis = Some ''tone'', ca_outcome = Some ''less''\<rparr>)]"

lemma scene_candidates: "\<exists>cs. candidates ''color'' refusing = Inr cs \<and> zip LETTERS cs = scene_options"
  by (simp add: candidates_def alternate_def refusing_def item_of_def LETTERS_def scene_options_def)

lemma scene_keys: "summary_key (option_of a r ev (''A'', c)) = py_lower (py_strip (take 400 (ca_text c)))"
  "summary_key (option_of a r ev (''B'', c)) = py_lower (py_strip (take 400 (ca_text c)))"
  "summary_key (option_of a r ev (''C'', c)) = py_lower (py_strip (take 400 (ca_text c)))"
  by (simp_all add: summary_key_def option_of_def)

lemma scene_card:
  assumes "p = composed_proposal refusing_env 3 ty asset_id run [ev] (JStr ''original'') rationale scene_options"
  shows "\<exists>c. build_card AUTONOMY_MATRIX (\<lambda>_. True) None p i now = Inr c"
proof -
  have pol: "card_policy AUTONOMY_MATRIX p = Inr (''low'', ''digest'', None, 120)"
    by (simp add: card_policy_def AUTONOMY_MATRIX_def RISK_TIERS_def assms composed_proposal_def hours_or_def)
  have kind: "''content.reply'' \<notin> set (mx_kinds AUTONOMY_MATRIX)" by (simp add: AUTONOMY_MATRIX_def)
  have keys: "map summary_key (pp_options p) = [''color'', ''hue'', ''tint'']"
    by (simp add: assms composed_proposal_def scene_options_def scene_keys py_strip_def py_space_def py_lower_def lower_char_def)
  have opts: "map co_id (pp_options p) = [''A'', ''B'', ''C'']" "pp_recommended p = ''A''" "\<forall>o'\<in>set (pp_options p). co_evidence o' = [ev]"
    "\<forall>o'\<in>set (pp_options p). truthy (co_axis o')"
    by (simp_all add: assms composed_proposal_def scene_options_def option_of_def recommended_letter_def)
  have ids: "distinct [''A'', ''B'', ''C'']" "distinct [''color'', ''hue'', ''tint'']" "''A'' \<in> set [''A'', ''B'', ''C'']" by simp_all
  have "pp_kind p = ''content.reply''" "pp_level p = 2" by (simp_all add: assms composed_proposal_def)
  then show ?thesis
    using opts kind by (simp add: build_card_def pol validate_card_def Let_def keys ids unresolved_def)
qed

lemma serves_card:
  "serves (\<lambda>_. True) (made_card refusing_services
     (composed_proposal refusing_env 3 ty asset_id run [ev] (JStr ''original'') rationale scene_options))"
proof -
  have "\<exists>c. made_card refusing_services (composed_proposal refusing_env 3 ty asset_id run [ev] (JStr ''original'') rationale scene_options) st = (Inr c, st)" for st
  proof -
    obtain c where "build_card AUTONOMY_MATRIX (\<lambda>_. True) None
        (composed_proposal refusing_env 3 ty asset_id run [ev] (JStr ''original'') rationale scene_options)
        (oc_uuid refusing_services (qs_calls st)) (oc_clock refusing_services (qs_calls st)) = Inr c"
      using scene_card[OF refl] by blast
    then show ?thesis by (simp add: made_card_def)
  qed
  then show ?thesis unfolding serves_def by blast
qed

lemma lands_card:
  "lands (compose_card refusing_services 3 d (JStr ''a'') (JArr []) run refusing campaign scene_options)"
  unfolding compose_card_def Let_def refusing_sel
  apply (rule lands_bind[OF serves_lift], simp add: option_evidence_refs_def text_or_def)
  apply (rule lands_bind[where P="\<lambda>x. x = JStr ''original''"], simp add: serves_basic(3) refusing_def)
  apply (rule lands_bind[OF serves_lift], simp add: rationale_of_def refusing_def)
  apply (simp, rule lands_bind[OF serves_card])
  apply (rule lands_bind[OF serves_vault(2)])
  apply (rule lands_bind[OF serves_update])
  apply (rule lands_bind[OF serves_lift], simp add: item_of_def)
  apply (rule lands_settle, simp add: get_of_def, rule refl)
  done

lemma serves_campaign: "serves (\<lambda>_. True) (get_or_create_campaign (answering v) (campaign_name scene_e) f)"
  by (auto simp: serves_def get_or_create_campaign_def calm_def qa_return_def)

lemma scene_stored: "asset_text (JObj [(''content_base64'', JStr ''Y29sb3I='')]) = Inr ''color''" "teams_display_text ''color'' = ''color''"
  by code_simp+

lemma lands_draft: "lands (compose_draft refusing_services 3 scene_e d (JObj [(''vault_asset_id'', JStr ''a'')]) (JStr ''a''))"
proof -
  obtain cs where cs: "candidates ''color'' refusing = Inr cs" "zip LETTERS cs = scene_options" using scene_candidates by blast
  show ?thesis
  unfolding compose_draft_def Let_def refusing_sel check_input_def
  apply (rule lands_bind[OF serves_lift], simp add: get_of_def)
  apply (rule lands_bind[OF serves_basic(8)])
  apply (rule lands_bind[OF serves_campaign])
  apply (rule lands_bind[OF serves_vault(1)])
  apply (rule lands_bind[where P="\<lambda>s. s = ''color''"], simp add: serves_basic(2) scene_stored)
  apply (rule lands_bind[OF serves_agent_run])
  apply (rule lands_bind[OF serves_lift], simp add: get_of_def)
  apply (rule lands_bind[OF serves_lift], simp add: get_of_def)
  apply (rule lands_bind[where P="\<lambda>_. True"], simp add: serves_basic(1))
  apply (rule lands_bind[OF serves_basic(5)])
  apply (rule lands_bind[OF serves_lift], assumption)
  apply (rule lands_bind[OF serves_complete[OF refusing_ok]])
  apply (rule lands_bind[OF serves_lift], assumption)
  apply (rule lands_bind[where P="\<lambda>_. True"], simp add: serves_basic(1))
  apply (rule lands_bind[OF serves_lift], simp add: scene_stored cs)
  apply (rule lands_bind[OF serves_surviving])
  apply (simp add: cs or_empty_def lands_card)
  apply (simp add: scene_options_def)
  done
qed


end
