(* ===== verification/Earn_In.thy ===== *)
theory Earn_In
  imports CMOS_Prelude Complex_Main
begin

text \<open>Earned autonomy (services/options_inbox/earn_in.py): promotion, demotion and the default on
timeout, evaluated against policies/earn-in-rules.yaml. A metric is a rational number; a message is
a constructor.\<close>

section \<open>The rules\<close>

datatype requirement = Num rat | Txt string

record promote_rule =
  pr_from :: int
  pr_to :: int
  pr_requires :: "(string \<times> requirement) list"

record demote_rule =
  dm_trigger :: string
  dm_action :: string
  dm_threshold :: "rat option"
  dm_min_runs :: "rat option"
  dm_min_decisions :: "rat option"

record timeout_rule =
  tr_level :: rat
  tr_windows :: rat
  tr_class :: string

record earn_rules =
  er_upstream :: "string list"
  er_downstream :: "string list"
  er_promote :: "promote_rule list"
  er_demote :: "demote_rule list"
  er_timeout :: timeout_rule

type_synonym metrics = "(string \<times> rat) list"

section \<open>Tracks\<close>

definition action_class_track :: "string \<Rightarrow> earn_rules \<Rightarrow> string + string" where
  "action_class_track c rules =
    (let up = c \<in> set (er_upstream rules); down = c \<in> set (er_downstream rules)
     in if up \<and> down then Inl ''ValueError: both''
        else if up then Inr ''upstream''
        else if down then Inr ''downstream''
        else Inl ''ValueError: neither'')"

section \<open>Promotion\<close>

datatype unmet =
    No_Rule
  | Upstream_Only
  | Short_Window
  | Few_Runs
  | Below string
  | Above string
  | Not_Equal string
  | Few_Published

record promotion =
  pm_eligible :: bool
  pm_from :: int
  pm_to :: "int option"
  pm_unmet :: "unmet list"

definition STRUCTURAL_REQUIRES_KEYS :: "string list" where
  "STRUCTURAL_REQUIRES_KEYS = [''window_days'', ''min_runs'', ''applies_to'', ''downstream_extra'']"

definition DOWNSTREAM_EXTRA_MIN_PUBLISHED :: rat where "DOWNSTREAM_EXTRA_MIN_PUBLISHED = 20"

definition ends_with :: "string \<Rightarrow> string \<Rightarrow> bool" where
  "ends_with s suffix \<longleftrightarrow> length suffix \<le> length s \<and> drop (length s - length suffix) s = suffix"

definition without :: "string \<Rightarrow> string \<Rightarrow> string" where
  "without suffix s = take (length s - length suffix) s"

definition or_zero :: "rat option \<Rightarrow> rat" where "or_zero v = (case v of Some x \<Rightarrow> x | None \<Rightarrow> 0)"

text \<open>A number against a text raises.\<close>

definition check_floor :: "metrics \<Rightarrow> (string \<times> requirement) list \<Rightarrow> string \<Rightarrow> string \<Rightarrow> unmet \<Rightarrow> string + unmet list" where
  "check_floor ms req key metric u =
    (case map_of req key of
       None \<Rightarrow> Inr []
     | Some (Txt _) \<Rightarrow> Inl ''TypeError''
     | Some (Num n) \<Rightarrow> Inr (if or_zero (map_of ms metric) < n then [u] else []))"

definition check_metric :: "metrics \<Rightarrow> string \<times> requirement \<Rightarrow> string + unmet list" where
  "check_metric ms kv =
    (let (key, req) = kv
     in if key \<in> set STRUCTURAL_REQUIRES_KEYS then Inr []
        else if ends_with key ''_gte'' then
          (let name = without ''_gte'' key
           in case map_of ms name of
                None \<Rightarrow> Inr [Below name]
              | Some v \<Rightarrow> (case req of Num n \<Rightarrow> Inr (if v < n then [Below name] else []) | Txt _ \<Rightarrow> Inl ''TypeError''))
        else if ends_with key ''_lte'' then
          (let name = without ''_lte'' key
           in case map_of ms name of
                None \<Rightarrow> Inr [Above name]
              | Some v \<Rightarrow> (case req of Num n \<Rightarrow> Inr (if v > n then [Above name] else []) | Txt _ \<Rightarrow> Inl ''TypeError''))
        else Inr (if map_option Num (map_of ms key) = Some req then [] else [Not_Equal key]))"

fun check_all :: "('a \<Rightarrow> string + 'u list) \<Rightarrow> 'a list \<Rightarrow> string + 'u list" where
  "check_all f [] = Inr []"
| "check_all f (x # xs) =
    (case f x of Inl e \<Rightarrow> Inl e | Inr us \<Rightarrow> (case check_all f xs of Inl e \<Rightarrow> Inl e | Inr vs \<Rightarrow> Inr (us @ vs)))"

definition check_published :: "metrics \<Rightarrow> (string \<times> requirement) list \<Rightarrow> string \<Rightarrow> unmet list" where
  "check_published ms req track =
    (if map_of req ''downstream_extra'' \<noteq> None \<and> track = ''downstream'' \<and>
        or_zero (map_of ms ''published_zero_correction_count'') < DOWNSTREAM_EXTRA_MIN_PUBLISHED
     then [Few_Published] else [])"

definition unmet_requirements :: "metrics \<Rightarrow> (string \<times> requirement) list \<Rightarrow> string \<Rightarrow> string + unmet list" where
  "unmet_requirements ms req track =
    (case check_floor ms req ''window_days'' ''window_days'' Short_Window of
       Inl e \<Rightarrow> Inl e
     | Inr a \<Rightarrow>
         (case check_floor ms req ''min_runs'' ''run_count'' Few_Runs of
            Inl e \<Rightarrow> Inl e
          | Inr b \<Rightarrow>
              (case check_all (check_metric ms) req of
                 Inl e \<Rightarrow> Inl e
               | Inr c \<Rightarrow> Inr (a @ b @ c @ check_published ms req track))))"

definition evaluate_promotion :: "int \<Rightarrow> string \<Rightarrow> metrics \<Rightarrow> earn_rules \<Rightarrow> string + promotion" where
  "evaluate_promotion level c ms rules =
    (case List.find (\<lambda>r. pr_from r = level) (er_promote rules) of
       None \<Rightarrow> Inr \<lparr>pm_eligible = False, pm_from = level, pm_to = None, pm_unmet = [No_Rule]\<rparr>
     | Some r \<Rightarrow>
         (case action_class_track c rules of
            Inl e \<Rightarrow> Inl e
          | Inr track \<Rightarrow>
              (if map_of (pr_requires r) ''applies_to'' = Some (Txt ''upstream_only'') \<and> track \<noteq> ''upstream''
               then Inr \<lparr>pm_eligible = False, pm_from = level, pm_to = None, pm_unmet = [Upstream_Only]\<rparr>
               else (case unmet_requirements ms (pr_requires r) track of
                       Inl e \<Rightarrow> Inl e
                     | Inr us \<Rightarrow> Inr \<lparr>pm_eligible = (us = []), pm_from = level,
                         pm_to = (if us = [] then Some (pr_to r) else None), pm_unmet = us\<rparr>))))"

section \<open>Demotion\<close>

text \<open>x or y of two optional numbers.\<close>

definition or_number :: "rat option \<Rightarrow> rat option \<Rightarrow> rat option" where
  "or_number x y = (case x of Some v \<Rightarrow> if v = 0 then y else x | None \<Rightarrow> y)"

definition observed_enough :: "demote_rule \<Rightarrow> metrics \<Rightarrow> bool" where
  "observed_enough r signals \<longleftrightarrow>
    (case or_number (dm_min_runs r) (dm_min_decisions r) of
       None \<Rightarrow> True
     | Some least \<Rightarrow> (case or_number (map_of signals ''run_count'') (map_of signals ''decision_count'') of
         None \<Rightarrow> False | Some n \<Rightarrow> least \<le> n))"

definition trigger_fires :: "bool \<Rightarrow> metrics \<Rightarrow> demote_rule \<Rightarrow> bool" where
  "trigger_fires failure signals r \<longleftrightarrow>
    (let trigger = dm_trigger r
     in if trigger = ''material_failure'' then failure
        else (case dm_threshold r of
                None \<Rightarrow> False
              | Some threshold \<Rightarrow>
                  if ends_with trigger ''_gt''
                  then observed_enough r signals \<and> (case map_of signals (without ''_gt'' trigger) of Some v \<Rightarrow> v > threshold | None \<Rightarrow> False)
                  else if ends_with trigger ''_lt''
                  then observed_enough r signals \<and> (case map_of signals (without ''_lt'' trigger) of Some v \<Rightarrow> v < threshold | None \<Rightarrow> False)
                  else False))"

text \<open>\<open>failure\<close> is the signal material_failure.\<close>

definition evaluate_demotion :: "bool \<Rightarrow> metrics \<Rightarrow> earn_rules \<Rightarrow> (string \<times> string) list" where
  "evaluate_demotion failure signals rules =
    map (\<lambda>r. (dm_trigger r, dm_action r)) (filter (trigger_fires failure signals) (er_demote rules))"

section \<open>The default on timeout\<close>

definition default_on_timeout_earned :: "int \<Rightarrow> string \<Rightarrow> int \<Rightarrow> earn_rules \<Rightarrow> string + bool" where
  "default_on_timeout_earned level c windows rules =
    (case action_class_track c rules of
       Inl e \<Rightarrow> Inl e
     | Inr track \<Rightarrow> Inr (track = tr_class (er_timeout rules) \<and> tr_level (er_timeout rules) \<le> of_int level \<and>
         tr_windows (er_timeout rules) \<le> of_int windows))"

section \<open>The rules of this repository\<close>

definition EARN_IN_RULES :: earn_rules where
  "EARN_IN_RULES =
    \<lparr>er_upstream = [''produce'', ''analyse'', ''evaluate'', ''compose_options'', ''mine'', ''score'', ''draft''],
     er_downstream = [''publish'', ''claim'', ''spend'', ''engage_external'', ''contact_client'', ''configure''],
     er_promote =
       [\<lparr>pr_from = 1, pr_to = 2, pr_requires = [(''window_days'', Num 30), (''min_runs'', Num 40),
           (''gate_pass_rate_gte'', Num (7 / 10)), (''recommendation_hit_rate_gte'', Num (6 / 10)),
           (''fabricated_proof_point_events'', Num 0), (''material_failures'', Num 0)]\<rparr>,
        \<lparr>pr_from = 2, pr_to = 3, pr_requires = [(''window_days'', Num 60), (''min_runs'', Num 80),
           (''gate_pass_rate_gte'', Num (85 / 100)), (''recommendation_hit_rate_gte'', Num (75 / 100)),
           (''rejection_all_rate_lte'', Num (1 / 10)), (''fabricated_proof_point_events'', Num 0), (''material_failures'', Num 0),
           (''downstream_extra'', Txt ''at least 20 published items via the governed path with zero corrections'')]\<rparr>,
        \<lparr>pr_from = 3, pr_to = 4, pr_requires = [(''window_days'', Num 90), (''min_runs'', Num 150),
           (''gate_pass_rate_gte'', Num (95 / 100)), (''recommendation_hit_rate_gte'', Num (85 / 100)),
           (''guardrail_breaches'', Num 0), (''applies_to'', Txt ''upstream_only'')]\<rparr>],
     er_demote =
       [\<lparr>dm_trigger = ''material_failure'', dm_action = ''drop_one_level_and_pause_until_card'',
         dm_threshold = None, dm_min_runs = None, dm_min_decisions = None\<rparr>,
        \<lparr>dm_trigger = ''fabricated_proof_point_rate_gt'', dm_action = ''drop_to_level_1'',
         dm_threshold = Some (5 / 100), dm_min_runs = None, dm_min_decisions = None\<rparr>,
        \<lparr>dm_trigger = ''gate_pass_rate_lt'', dm_action = ''drop_one_level'',
         dm_threshold = Some (5 / 10), dm_min_runs = Some 20, dm_min_decisions = None\<rparr>,
        \<lparr>dm_trigger = ''recommendation_hit_rate_lt'', dm_action = ''drop_one_level'',
         dm_threshold = Some (4 / 10), dm_min_runs = None, dm_min_decisions = Some 20\<rparr>,
        \<lparr>dm_trigger = ''rejection_all_rate_gt'', dm_action = ''pause_function'',
         dm_threshold = Some (5 / 10), dm_min_runs = None, dm_min_decisions = Some 15\<rparr>],
     er_timeout = \<lparr>tr_level = 2, tr_windows = 2, tr_class = ''upstream''\<rparr>\<rparr>"

section \<open>What the evaluation promises\<close>

lemma check_all_none: "check_all f xs = Inr us \<Longrightarrow> us = [] \<longleftrightarrow> (\<forall>x\<in>set xs. f x = Inr [])"
  by (induction xs arbitrary: us) (auto split: sum.splits)

text \<open>A requirement as a condition on the metrics.\<close>

definition meets :: "metrics \<Rightarrow> string \<Rightarrow> (string \<times> requirement) list \<Rightarrow> string \<times> requirement \<Rightarrow> bool" where
  "meets ms track all kv \<longleftrightarrow>
    (let (key, req) = kv
     in if key = ''window_days'' then \<exists>n. map_of all key = Some (Num n) \<and> n \<le> or_zero (map_of ms ''window_days'')
        else if key = ''min_runs'' then \<exists>n. map_of all key = Some (Num n) \<and> n \<le> or_zero (map_of ms ''run_count'')
        else if key = ''applies_to'' then map_of all key = Some (Txt ''upstream_only'') \<longrightarrow> track = ''upstream''
        else if key = ''downstream_extra''
        then track = ''downstream'' \<longrightarrow> 20 \<le> or_zero (map_of ms ''published_zero_correction_count'')
        else if ends_with key ''_gte'' then \<exists>n v. req = Num n \<and> map_of ms (without ''_gte'' key) = Some v \<and> n \<le> v
        else if ends_with key ''_lte'' then \<exists>n v. req = Num n \<and> map_of ms (without ''_lte'' key) = Some v \<and> v \<le> n
        else map_option Num (map_of ms key) = Some req)"

lemma check_metric_meets:
  assumes "key \<notin> set STRUCTURAL_REQUIRES_KEYS"
  shows "check_metric ms (key, req) = Inr [] \<longleftrightarrow> meets ms track all (key, req)"
  using assms
  by (auto simp: check_metric_def meets_def STRUCTURAL_REQUIRES_KEYS_def Let_def not_less split: option.splits requirement.splits)

lemma structural_free: "key \<in> set STRUCTURAL_REQUIRES_KEYS \<Longrightarrow> check_metric ms (key, req) = Inr []"
  by (simp add: check_metric_def)

lemma floor_meets:
  assumes "check_floor ms all key metric u = Inr us"
  shows "us = [] \<longleftrightarrow> (\<forall>req. map_of all key = Some req \<longrightarrow> (\<exists>n. req = Num n \<and> n \<le> or_zero (map_of ms metric)))"
  using assms by (auto simp: check_floor_def not_less split: option.splits requirement.splits if_splits)

lemma for_key:
  assumes "distinct (map fst all)"
  shows "(\<forall>kv\<in>set all. fst kv = k \<longrightarrow> P kv) \<longleftrightarrow> (\<forall>req. map_of all k = Some req \<longrightarrow> P (k, req))"
  using assms by (auto simp: map_of_eq_Some_iff)

lemma meets_structural:
  "meets ms track all (''window_days'', req) \<longleftrightarrow> (\<exists>n. map_of all ''window_days'' = Some (Num n) \<and> n \<le> or_zero (map_of ms ''window_days''))"
  "meets ms track all (''min_runs'', req) \<longleftrightarrow> (\<exists>n. map_of all ''min_runs'' = Some (Num n) \<and> n \<le> or_zero (map_of ms ''run_count''))"
  "meets ms track all (''applies_to'', req) \<longleftrightarrow> (map_of all ''applies_to'' = Some (Txt ''upstream_only'') \<longrightarrow> track = ''upstream'')"
  "meets ms track all (''downstream_extra'', req) \<longleftrightarrow>
    (track = ''downstream'' \<longrightarrow> 20 \<le> or_zero (map_of ms ''published_zero_correction_count''))"
  by (simp_all add: meets_def)

lemma unmet_none:
  assumes "unmet_requirements ms all track = Inr us" and "distinct (map fst all)"
      and "map_of all ''applies_to'' = Some (Txt ''upstream_only'') \<longrightarrow> track = ''upstream''"
  shows "us = [] \<longleftrightarrow> (\<forall>kv\<in>set all. meets ms track all kv)"
proof -
  from assms(1) obtain a b c where a: "check_floor ms all ''window_days'' ''window_days'' Short_Window = Inr a"
    and b: "check_floor ms all ''min_runs'' ''run_count'' Few_Runs = Inr b"
    and c: "check_all (check_metric ms) all = Inr c" and us: "us = a @ b @ c @ check_published ms all track"
    by (auto simp: unmet_requirements_def split: sum.splits)
  note key = for_key[OF assms(2), of _ "meets ms track all", unfolded prod.case]
  have rest: "c = [] \<longleftrightarrow> (\<forall>kv\<in>set all. fst kv \<notin> set STRUCTURAL_REQUIRES_KEYS \<longrightarrow> meets ms track all kv)"
  proof -
    have "check_metric ms kv = Inr [] \<longleftrightarrow> (fst kv \<notin> set STRUCTURAL_REQUIRES_KEYS \<longrightarrow> meets ms track all kv)" for kv
      using check_metric_meets[of "fst kv" ms "snd kv" track all] structural_free[of "fst kv" ms "snd kv"] by auto
    then show ?thesis using check_all_none[OF c] by simp
  qed
  have days: "a = [] \<longleftrightarrow> (\<forall>kv\<in>set all. fst kv = ''window_days'' \<longrightarrow> meets ms track all kv)"
    unfolding key meets_structural floor_meets[OF a] by auto
  have runs: "b = [] \<longleftrightarrow> (\<forall>kv\<in>set all. fst kv = ''min_runs'' \<longrightarrow> meets ms track all kv)"
    unfolding key meets_structural floor_meets[OF b] by auto
  have published: "check_published ms all track = [] \<longleftrightarrow> (\<forall>kv\<in>set all. fst kv = ''downstream_extra'' \<longrightarrow> meets ms track all kv)"
    unfolding key meets_structural by (auto simp: check_published_def DOWNSTREAM_EXTRA_MIN_PUBLISHED_def not_less)
  have applies: "\<forall>kv\<in>set all. fst kv = ''applies_to'' \<longrightarrow> meets ms track all kv"
    unfolding key meets_structural using assms(3) by simp
  have "(\<forall>kv\<in>set all. meets ms track all kv) \<longleftrightarrow> a = [] \<and> b = [] \<and> c = [] \<and> check_published ms all track = []"
    unfolding rest days runs published using applies
    by (simp add: STRUCTURAL_REQUIRES_KEYS_def) blast
  then show ?thesis by (auto simp: us)
qed

text \<open>C34: A function is promoted exactly when the rule of its level, of which there is one, is met in
every requirement, an upstream-only rule by an upstream class alone; and to the level of that rule.\<close>

theorem promotion_iff_requirements_met:
  assumes "evaluate_promotion level c ms rules = Inr p" and "action_class_track c rules = Inr track"
      and "\<forall>r\<in>set (er_promote rules). distinct (map fst (pr_requires r))"
  shows "(pm_eligible p \<longleftrightarrow> (\<exists>r. List.find (\<lambda>r. pr_from r = level) (er_promote rules) = Some r \<and>
      (\<forall>kv\<in>set (pr_requires r). meets ms track (pr_requires r) kv))) \<and>
    (pm_eligible p \<longleftrightarrow> pm_unmet p = []) \<and> (\<forall>l. pm_to p = Some l \<longrightarrow> pm_eligible p) \<and>
    (\<forall>r. List.find (\<lambda>r. pr_from r = level) (er_promote rules) = Some r \<longrightarrow> pm_eligible p \<longrightarrow> pm_to p = Some (pr_to r))"
proof (cases "List.find (\<lambda>r. pr_from r = level) (er_promote rules)")
  case None
  with assms(1) show ?thesis by (auto simp: evaluate_promotion_def)
next
  case (Some r)
  then have d: "distinct (map fst (pr_requires r))" using assms(3) by (auto simp: find_Some_iff)
  show ?thesis
  proof (cases "map_of (pr_requires r) ''applies_to'' = Some (Txt ''upstream_only'') \<and> track \<noteq> ''upstream''")
    case True
    then have "\<not> meets ms track (pr_requires r) (''applies_to'', Txt ''upstream_only'')" by (simp add: meets_def)
    moreover from True have "(''applies_to'', Txt ''upstream_only'') \<in> set (pr_requires r)" using d by (simp add: map_of_eq_Some_iff)
    moreover have "p = \<lparr>pm_eligible = False, pm_from = level, pm_to = None, pm_unmet = [Upstream_Only]\<rparr>"
      using assms(1,2) Some True by (simp add: evaluate_promotion_def)
    ultimately show ?thesis using Some by auto
  next
    case False
    then obtain us where us: "unmet_requirements ms (pr_requires r) track = Inr us"
      and p: "p = \<lparr>pm_eligible = (us = []), pm_from = level, pm_to = (if us = [] then Some (pr_to r) else None), pm_unmet = us\<rparr>"
      using assms(1,2) Some by (auto simp: evaluate_promotion_def split: sum.splits if_splits)
    from unmet_none[OF us d] False have "us = [] \<longleftrightarrow> (\<forall>kv\<in>set (pr_requires r). meets ms track (pr_requires r) kv)" by auto
    then show ?thesis using Some p by auto
  qed
qed

text \<open>Under the rules of this repository no downstream class reaches level 4 or a default on
timeout.\<close>

lemma downstream_stays_below:
  assumes "c \<in> set (er_downstream EARN_IN_RULES)"
  shows "action_class_track c EARN_IN_RULES = Inr ''downstream''"
    and "default_on_timeout_earned level c windows EARN_IN_RULES = Inr False"
    and "evaluate_promotion level c ms EARN_IN_RULES = Inr p \<Longrightarrow> pm_to p \<noteq> Some 4"
proof -
  show t: "action_class_track c EARN_IN_RULES = Inr ''downstream''"
    using assms by (auto simp: EARN_IN_RULES_def action_class_track_def)
  then show "default_on_timeout_earned level c windows EARN_IN_RULES = Inr False"
    by (simp add: default_on_timeout_earned_def) (simp add: EARN_IN_RULES_def)
  assume "evaluate_promotion level c ms EARN_IN_RULES = Inr p"
  with t show "pm_to p \<noteq> Some 4"
    by (cases "level = 1"; cases "level = 2"; cases "level = 3")
       (auto simp: evaluate_promotion_def EARN_IN_RULES_def split: sum.splits if_splits)
qed

text \<open>The order of severity of the docstring.\<close>

definition severity :: "string \<Rightarrow> nat" where
  "severity action = (if action = ''pause_function'' then 3 else if action = ''drop_to_level_1'' then 2
     else if action = ''drop_one_level_and_pause_until_card'' then 1 else 0)"

lemma demotions_are_rules:
  "(t, a) \<in> set (evaluate_demotion failure signals rules) \<Longrightarrow>
     \<exists>r\<in>set (er_demote rules). dm_trigger r = t \<and> dm_action r = a \<and> trigger_fires failure signals r"
  by (auto simp: evaluate_demotion_def)

end
