(* ===== verification/Decision_Quality.thy ===== *)
theory Decision_Quality
  imports Earn_In Option_Compose
begin

text \<open>Fn 126 (dispatch/handlers/decision_quality.py): scores of the functions that produce option
cards, from the decisions of the last thirty days, and the monthly review that proposes demotions.
A rate is the exact quotient, rounded to four decimals with ties to even; binary floating point is
not modelled.\<close>

section \<open>Metrics\<close>

text \<open>What the metrics read of a row of the decision history; an option is a pair of whether it has
a distinctness axis and evidence.\<close>

record hist_row =
  hr_function :: int
  hr_outcome :: json
  hr_recommended :: bool
  hr_code :: "string option"
  hr_options :: "(bool \<times> bool) list"

definition field :: "(string \<times> json) list \<Rightarrow> string \<Rightarrow> json" where
  "field kvs k = (case jget kvs k of Some v \<Rightarrow> v | None \<Rightarrow> JNull)"

definition read_hist_option :: "json \<Rightarrow> orch_error + bool \<times> bool" where
  "read_hist_option j =
    (case j of JObj kvs \<Rightarrow> Inr (jtruth (field kvs ''distinctness_axis''), jtruth (field kvs ''evidence_refs''))
     | _ \<Rightarrow> Inl (OtherError ''AttributeError''))"

definition read_hist_options :: "json \<Rightarrow> orch_error + (bool \<times> bool) list" where
  "read_hist_options doc =
    (if \<not> jtruth doc then Inr []
     else (case doc of
             JObj kvs \<Rightarrow>
               (if \<not> jtruth (field kvs ''options'') then Inr []
                else (case field kvs ''options'' of
                        JArr xs \<Rightarrow> all_right read_hist_option xs
                      | JStr _ \<Rightarrow> Inl (OtherError ''AttributeError'')
                      | JObj _ \<Rightarrow> Inl (OtherError ''AttributeError'')
                      | _ \<Rightarrow> Inl (OtherError ''TypeError'')))
           | _ \<Rightarrow> Inl (OtherError ''AttributeError'')))"

text \<open>The producing function is an integer column and the rejection code a text column.\<close>

definition read_hist_row :: "json \<Rightarrow> orch_error + hist_row" where
  "read_hist_row j =
    (case j of
       JObj kvs \<Rightarrow>
         (case (jget kvs ''produced_by_function'', field kvs ''rejection_code'', read_hist_options (field kvs ''card'')) of
            (None, _, _) \<Rightarrow> Inl (OtherError ''KeyError'')
          | (_, _, Inl e) \<Rightarrow> Inl e
          | (Some (JInt f), code, Inr os) \<Rightarrow>
              Inr \<lparr>hr_function = f, hr_outcome = field kvs ''outcome'', hr_recommended = jtruth (field kvs ''was_recommended''),
                hr_code = (case code of JStr s \<Rightarrow> Some s | _ \<Rightarrow> None), hr_options = os\<rparr>
          | _ \<Rightarrow> Inl (OtherError ''ValueError''))
     | _ \<Rightarrow> Inl (OtherError ''TypeError''))"

definition round4 :: "rat \<Rightarrow> rat" where
  "round4 q = (let x = q * 10000; f = \<lfloor>x\<rfloor>; r = x - of_int f
     in of_int (if r < 1 / 2 \<or> r = 1 / 2 \<and> even f then f else f + 1) / 10000)"

definition share :: "nat \<Rightarrow> nat \<Rightarrow> rat" where
  "share k n = (if n = 0 then 0 else of_nat k / of_nat n)"

definition count_outcome :: "string \<Rightarrow> hist_row list \<Rightarrow> nat" where
  "count_outcome s rows = length (filter (\<lambda>r. hr_outcome r = JStr s) rows)"

fun count_codes :: "hist_row list \<Rightarrow> (string \<times> nat) list \<Rightarrow> (string \<times> nat) list" where
  "count_codes [] acc = acc"
| "count_codes (r # rs) acc =
    count_codes rs (if truthy (hr_code r)
      then dict_set (the (hr_code r)) (Suc (case map_of acc (the (hr_code r)) of Some n \<Rightarrow> n | None \<Rightarrow> 0)) acc else acc)"

record quality =
  qm_decisions :: nat
  qm_hit_rate :: rat
  qm_rejection_rate :: rat
  qm_timeout_share :: rat
  qm_distinctness :: "rat option"
  qm_evidence :: "rat option"
  qm_codes :: "(string \<times> nat) list"

definition decision_quality_metrics_for :: "hist_row list \<Rightarrow> quality" where
  "decision_quality_metrics_for rows =
    (let chosen = filter (\<lambda>r. hr_outcome r = JStr ''chosen'') rows;
         n = length rows;
         options = concat (map hr_options rows);
         k = length options
     in \<lparr>qm_decisions = n,
         qm_hit_rate = round4 (share (length (filter hr_recommended chosen)) (length chosen)),
         qm_rejection_rate = round4 (share (count_outcome ''rejected_all'' rows) n),
         qm_timeout_share = round4 (share (count_outcome ''timeout_default'' rows) n),
         qm_distinctness = (if k = 0 then None else Some (round4 (share (length (filter fst options)) k))),
         qm_evidence = (if k = 0 then None else Some (round4 (share (length (filter snd options)) k))),
         qm_codes = count_codes rows []\<rparr>)"

section \<open>The nightly score\<close>

text \<open>\<open>qv_number\<close> is the text of a float, \<open>qv_parse\<close> datetime.fromisoformat with a naive time read as
UTC.\<close>

record quality_services =
  qv_oc :: option_services
  qv_rules :: earn_rules
  qv_number :: "rat \<Rightarrow> string"
  qv_parse :: "string \<Rightarrow> instant option"

definition FUNCTION_ID_126 :: string where "FUNCTION_ID_126 = ''126-decision-quality-evaluator''"
definition DECISION_HISTORY_WINDOW_DAYS :: int where "DECISION_HISTORY_WINDOW_DAYS = 30"
definition DECISION_QUALITY_SCORECARD_SIGNAL_TYPE :: string where
  "DECISION_QUALITY_SCORECARD_SIGNAL_TYPE = ''decision_quality_scorecard''"
definition LEVEL_REVIEW_PASS_MARKER_TYPE :: string where
  "LEVEL_REVIEW_PASS_MARKER_TYPE = ''decision_quality_level_review_pass_marker''"
definition LEVEL_REVIEW_PASS_MIN_DAYS :: int where "LEVEL_REVIEW_PASS_MIN_DAYS = 30"
definition LIFECYCLE_SIGNAL_LOOKBACK :: nat where "LIFECYCLE_SIGNAL_LOOKBACK = 500"

definition FUNCTION_ACTION_CLASS :: "(int \<times> string) list" where
  "FUNCTION_ACTION_CLASS = [(116, ''compose_options''), (128, ''mine''), (129, ''configure'')]"

definition REJECTION_CODE_TARGET_FUNCTION :: "(string \<times> int) list" where
  "REJECTION_CODE_TARGET_FUNCTION =
    [(''options_not_distinct'', 102), (''too_generic'', 102), (''off_brand_voice'', 114), (''claim_unsupported'', 48)]"

definition day_length :: int where "day_length = 24 * 3600 * 1000000"

text \<open>by_function, sorted by the function.\<close>

definition by_function :: "hist_row list \<Rightarrow> (int \<times> hist_row list) list" where
  "by_function rows = map (\<lambda>f. (f, filter (\<lambda>r. hr_function r = f) rows)) (sort (remdups (map hr_function rows)))"

definition number :: "quality_services \<Rightarrow> rat \<Rightarrow> json" where "number svc q = JFloat (qv_number svc q)"

definition score_entry :: "quality_services \<Rightarrow> int \<Rightarrow> quality \<Rightarrow> json" where
  "score_entry svc f q =
    JObj ([(''function_id'', JInt f), (''decisions'', JInt (int (qm_decisions q))),
       (''recommendation_hit_rate'', number svc (qm_hit_rate q)), (''rejection_all_rate'', number svc (qm_rejection_rate q)),
       (''timeout_share'', number svc (qm_timeout_share q)),
       (''rejection_codes'', JObj (map (\<lambda>(c, n). (c, JInt (int n))) (qm_codes q)))] @
      (case qm_distinctness q of Some x \<Rightarrow> [(''distinctness_pass_rate'', number svc x)] | None \<Rightarrow> []) @
      (case qm_evidence q of Some x \<Rightarrow> [(''evidence_coverage'', number svc x)] | None \<Rightarrow> []))"

definition quote_mark :: string where "quote_mark = [CHR 0x27]"

definition improvement_briefs :: "int \<Rightarrow> quality \<Rightarrow> json list" where
  "improvement_briefs f q =
    List.map_filter (\<lambda>(code, n). map_option (\<lambda>target.
        JObj [(''target_function'', JInt target), (''rejection_code'', JStr code), (''count'', JInt (int n)),
          (''brief'', JStr (''Fn '' @ int_str f @ '': '' @ nat_str n @ '' '' @ quote_mark @ code @ quote_mark @
             '' rejection(s) in the trailing '' @ int_str DECISION_HISTORY_WINDOW_DAYS @ '' days.''))])
      (map_of REJECTION_CODE_TARGET_FUNCTION code)) (sort_kvs (qm_codes q))"

definition scorecard :: "quality_services \<Rightarrow> string \<Rightarrow> string \<Rightarrow> hist_row list \<Rightarrow> json" where
  "scorecard svc since now rows =
    (let scored = map (\<lambda>(f, rs). (f, decision_quality_metrics_for rs)) (by_function rows)
     in JObj [(''period'', JStr (since @ ''/'' @ now)),
          (''functions'', JArr (map (\<lambda>(f, q). score_entry svc f q) scored)),
          (''improvement_briefs'', JArr (concat (map (\<lambda>(f, q). improvement_briefs f q) scored)))])"

section \<open>Calls\<close>

definition list_decision_history_since :: "qa_env \<Rightarrow> string \<Rightarrow> hist_row list qa" where
  "list_decision_history_since env since =
    qa_bind (vault_list env (''/decision-history?since='' @ since) 2000) (\<lambda>listed.
    case listed of
      JArr rows \<Rightarrow> qa_lift (all_right read_hist_row rows)
    | _ \<Rightarrow> qa_lift (Inl (OtherError ''TypeError'')))"

definition finished_run_body :: "string \<Rightarrow> string \<Rightarrow> string \<Rightarrow> json \<Rightarrow> json \<Rightarrow> json" where
  "finished_run_body agent_name campaign function_id input output =
    JObj ([(''agent_name'', JStr agent_name), (''campaign'', JStr campaign), (''status'', JStr ''succeeded''),
      (''input'', input), (''output'', output)] @
      filter (\<lambda>kv. fst kv \<noteq> ''campaign'') (taxonomy (JStr campaign) function_id))"

text \<open>create_agent_run_idempotent for a run that is recorded as succeeded at once.\<close>

definition record_finished_run :: "qa_env \<Rightarrow> tid \<Rightarrow> json \<Rightarrow> json qa" where
  "record_finished_run env t body =
    qa_bind next_ordinal (\<lambda>n.
    qa_bind (ledgered (ordinal_key t n)) (\<lambda>existing.
    case existing of
      Some run \<Rightarrow> vault_get env (''/agent-runs/'' @ uuid_str run)
    | None \<Rightarrow>
        qa_bind (vault_post env ''/agent-runs'' body) (\<lambda>created.
        qa_bind (qa_lift (item_of created ''id'')) (\<lambda>i.
        qa_bind (qa_need (OtherError ''DataError'') (py_uuid (str_of (qe_str env) i))) (\<lambda>run.
        qa_bind (qa_txn (record_ledgered_agent_run (ordinal_key t n) t run)) (\<lambda>_.
        qa_return created))))))"

definition create_signal :: "qa_env \<Rightarrow> string \<Rightarrow> string \<Rightarrow> json \<Rightarrow> string \<Rightarrow> string \<Rightarrow> json qa" where
  "create_signal env source signal_type payload campaign function_id =
    vault_post env ''/signals''
      (JObj ([(''source'', JStr source), (''signal_type'', JStr signal_type), (''payload'', payload)] @
        taxonomy (JStr campaign) function_id))"

definition clock :: "quality_services \<Rightarrow> instant qa" where
  "clock svc st = (Inr (oc_clock (qv_oc svc) (qs_calls st)), st)"

definition window_start :: "quality_services \<Rightarrow> instant \<Rightarrow> string" where
  "window_start svc now = oc_stamp (qv_oc svc) (now - DECISION_HISTORY_WINDOW_DAYS * day_length)"

definition decision_quality_evaluate_handler :: "quality_services \<Rightarrow> tid \<Rightarrow> task_envelope \<Rightarrow> unit qa" where
  "decision_quality_evaluate_handler svc t e =
    (let env = oc_qa (qv_oc svc) in
    qa_bind (clock svc) (\<lambda>now. let since = window_start svc now in
    qa_bind open_vault (\<lambda>_.
    qa_bind (get_or_create_campaign env (campaign_name e) FUNCTION_ID_126) (\<lambda>campaign.
    qa_bind (list_decision_history_since env since) (\<lambda>rows.
    let out = scorecard svc since (oc_stamp (qv_oc svc) now) rows in
    qa_bind (if qe_output_ok env FUNCTION_ID_126 out then qa_return ()
             else qa_lift (Inl (DispatchError (FUNCTION_ID_126 @ '': model output failed schema.json validation'')))) (\<lambda>_.
    qa_bind (record_finished_run env t (finished_run_body (agent_name_of ''decision-quality-evaluator'' e) campaign FUNCTION_ID_126
      (JObj [(''window_days'', JInt DECISION_HISTORY_WINDOW_DAYS), (''decision_count'', JInt (int (length rows)))]) out)) (\<lambda>agent_run.
    qa_bind (create_signal env (''function-'' @ FUNCTION_ID_126) DECISION_QUALITY_SCORECARD_SIGNAL_TYPE out campaign FUNCTION_ID_126) (\<lambda>signal.
    qa_bind (qa_lift (item_of signal ''id'')) (\<lambda>signal_id.
    qa_bind (qa_lift (item_of agent_run ''id'')) (\<lambda>run.
    settle_completed t (JObj [(''status'', JStr ''scored''), (''vault_signal_id'', signal_id), (''agent_run_id'', run),
      (''function_count'', JInt (int (length (by_function rows)))),
      (''improvement_brief_count'', JInt (int (length (concat (map (\<lambda>(f, rs). improvement_briefs f (decision_quality_metrics_for rs)) (by_function rows)))))),
      (''campaign_id'', JStr campaign)])))))))))))"

section \<open>The monthly review\<close>

text \<open>The latest marker among the newest signals.\<close>

definition marker_time :: "quality_services \<Rightarrow> json \<Rightarrow> orch_error + instant option" where
  "marker_time svc row =
    (case row of
       JObj kvs \<Rightarrow>
         Inr (if field kvs ''signal_type'' = JStr LEVEL_REVIEW_PASS_MARKER_TYPE
              then (case field kvs ''received_at'' of JStr s \<Rightarrow> if s = [] then None else qv_parse svc s | _ \<Rightarrow> None) else None)
     | _ \<Rightarrow> Inl (OtherError ''AttributeError''))"

definition latest :: "instant option list \<Rightarrow> instant option" where
  "latest ts = fold (\<lambda>t acc. case (t, acc) of (Some x, Some y) \<Rightarrow> Some (max x y) | (Some x, None) \<Rightarrow> Some x | (None, _) \<Rightarrow> acc) ts None"

definition last_pass_at :: "quality_services \<Rightarrow> json \<Rightarrow> orch_error + instant option" where
  "last_pass_at svc listed =
    (case listed of JArr rows \<Rightarrow> map_sum id latest (all_right (marker_time svc) rows) | _ \<Rightarrow> Inl (OtherError ''TypeError''))"

definition review_signals :: "quality \<Rightarrow> metrics" where
  "review_signals q =
    [(''recommendation_hit_rate'', qm_hit_rate q), (''rejection_all_rate'', qm_rejection_rate q),
     (''decision_count'', of_nat (qm_decisions q)), (''run_count'', of_nat (qm_decisions q))]"

definition review_evidence :: "quality_services \<Rightarrow> int \<Rightarrow> string \<Rightarrow> quality \<Rightarrow> string \<times> string \<Rightarrow> string" where
  "review_evidence svc f action_class q fired =
    ''Fn '' @ int_str f @ '' ('' @ action_class @ '') over the trailing '' @ int_str DECISION_HISTORY_WINDOW_DAYS @
    '' days: recommendation_hit_rate='' @ qv_number svc (qm_hit_rate q) @ '', rejection_all_rate='' @
    qv_number svc (qm_rejection_rate q) @ '', decisions='' @ nat_str (qm_decisions q) @
    ''. Triggered: '' @ fst fired @ '' -> '' @ snd fired @ ''.''"

definition review_option :: "string \<Rightarrow> string \<Rightarrow> string \<Rightarrow> string \<Rightarrow> string \<Rightarrow> string \<Rightarrow> card_option" where
  "review_option i label summary run_ref evidence outcome =
    \<lparr>co_id = i, co_label = label, co_summary = take 400 summary, co_payload = run_ref,
     co_evidence = [\<lparr>ev_type = ''vault_asset'', ev_ref = run_ref, ev_quote = Some (take 300 evidence), ev_authority = ''primary''\<rparr>],
     co_outcome = outcome, co_risks = [], co_axis = None\<rparr>"

text \<open>The card proposes the first action that fired.\<close>

definition demotion_proposal ::
    "quality_services \<Rightarrow> tid \<Rightarrow> int \<Rightarrow> string \<Rightarrow> quality \<Rightarrow> json \<Rightarrow> string \<times> string \<Rightarrow> proposal" where
  "demotion_proposal svc t f action_class q run fired =
    (let evidence = review_evidence svc f action_class q fired;
         run_ref = ''vault://agent-run/'' @ str_of (qe_str (oc_qa (qv_oc svc))) run
     in \<lparr>pp_kind = ''system.autonomy_level_change'', pp_level = 0,
         pp_title = take 120 (''Fn '' @ int_str f @ '': demote per '' @ fst fired),
         pp_question = ''Apply '' @ snd fired @ '' to function '' @ int_str f @ ''?'',
         pp_options =
           [review_option ''A'' ''Apply'' (snd fired @ '' for function '' @ int_str f @ ''.'') run_ref evidence
              (''Function'' @ quote_mark @ ''s autonomy level is reduced per the fired trigger.''),
            review_option ''B'' ''Hold'' (''Do not change function '' @ int_str f @ quote_mark @ ''s level yet.'') run_ref evidence
              ''No change; re-evaluated next monthly pass.''],
         pp_recommended = ''A'',
         pp_evidence = [\<lparr>ev_type = ''vault_asset'', ev_ref = run_ref, ev_quote = None, ev_authority = ''primary''\<rparr>],
         pp_function = 126, pp_prompt = ''0.1.0'', pp_rows = [''H14'', ''H26''], pp_rationale = evidence, pp_context = [],
         pp_novel = False, pp_lineage = [(''agent_run_id'', run), (''source_task_id'', JStr (uuid_str t))],
         pp_hours = None, pp_earned = False\<rparr>)"

definition review_function ::
    "quality_services \<Rightarrow> tid \<Rightarrow> task_envelope \<Rightarrow> string \<Rightarrow> hist_row list \<Rightarrow> int \<times> string \<Rightarrow> json list qa" where
  "review_function svc t e campaign rows fc =
    (let env = oc_qa (qv_oc svc); (f, action_class) = fc;
         q = decision_quality_metrics_for (filter (\<lambda>r. hr_function r = f) rows)
     in case evaluate_demotion False (review_signals q) (qv_rules svc) of
          [] \<Rightarrow> qa_return []
        | fired # others \<Rightarrow>
            qa_bind (record_finished_run env t (finished_run_body (agent_name_of ''decision-quality-evaluator'' e) campaign FUNCTION_ID_126
              (JObj [(''function_id'', JInt f), (''action_class'', JStr action_class)])
              (JObj [(''fired'', JArr (map (\<lambda>(tr, ac). JObj [(''trigger'', JStr tr), (''action'', JStr ac)]) (fired # others)))]))) (\<lambda>agent_run.
            qa_bind (qa_lift (item_of agent_run ''id'')) (\<lambda>run.
            qa_bind (made_card (qv_oc svc) (demotion_proposal svc t f action_class q run fired)) (\<lambda>c.
            qa_bind (vault_post env ''/option-cards'' (card_body (qv_oc svc) run 126 c)) (\<lambda>created.
            qa_bind (qa_lift (item_of created ''card_id'')) (\<lambda>card_id.
            qa_return [JObj [(''function_id'', JInt f), (''card_id'', card_id), (''trigger'', JStr (fst fired))]]))))))"

fun review_functions ::
    "quality_services \<Rightarrow> tid \<Rightarrow> task_envelope \<Rightarrow> string \<Rightarrow> hist_row list \<Rightarrow> (int \<times> string) list \<Rightarrow> json list qa" where
  "review_functions svc t e campaign rows [] = qa_return []"
| "review_functions svc t e campaign rows (fc # fcs) =
    qa_bind (review_function svc t e campaign rows fc) (\<lambda>demoted.
    qa_bind (review_functions svc t e campaign rows fcs) (\<lambda>others. qa_return (demoted @ others)))"

definition review_pass :: "quality_services \<Rightarrow> tid \<Rightarrow> task_envelope \<Rightarrow> string \<Rightarrow> instant \<Rightarrow> unit qa" where
  "review_pass svc t e campaign now =
    (let env = oc_qa (qv_oc svc) in
    qa_bind (list_decision_history_since env (window_start svc now)) (\<lambda>rows.
    qa_bind (review_functions svc t e campaign rows FUNCTION_ACTION_CLASS) (\<lambda>demoted.
    qa_bind (create_signal env (''function-'' @ FUNCTION_ID_126) LEVEL_REVIEW_PASS_MARKER_TYPE
      (JObj [(''demoted_count'', JInt (int (length demoted)))]) campaign FUNCTION_ID_126) (\<lambda>_.
    settle_completed t (JObj [(''status'', JStr ''review_pass_complete''), (''demoted'', JArr demoted), (''campaign_id'', JStr campaign)])))))"

definition decision_quality_level_review_monthly_handler :: "quality_services \<Rightarrow> tid \<Rightarrow> task_envelope \<Rightarrow> unit qa" where
  "decision_quality_level_review_monthly_handler svc t e =
    (let env = oc_qa (qv_oc svc) in
    qa_bind (clock svc) (\<lambda>now.
    qa_bind open_vault (\<lambda>_.
    qa_bind (get_or_create_campaign env (campaign_name e) FUNCTION_ID_126) (\<lambda>campaign.
    qa_bind (vault_list env ''/signals'' LIFECYCLE_SIGNAL_LOOKBACK) (\<lambda>listed.
    qa_bind (qa_lift (last_pass_at svc listed)) (\<lambda>last.
    case last of
      Some pass_time \<Rightarrow>
        (if (now - pass_time) div day_length < LEVEL_REVIEW_PASS_MIN_DAYS
         then settle_completed t (JObj [(''status'', JStr ''not_due''),
                (''next_due_in_days'', JInt (LEVEL_REVIEW_PASS_MIN_DAYS - (now - pass_time) div day_length)), (''campaign_id'', JStr campaign)])
         else review_pass svc t e campaign now)
    | None \<Rightarrow> review_pass svc t e campaign now))))))"

end
