(* ===== verification/Quality_Props.thy ===== *)
theory Quality_Props
  imports Decision_Quality
begin

text \<open>What the scores promise, and the action that the monthly review proposes.\<close>

section \<open>Bounds\<close>

lemma round4_bounds: "0 \<le> q \<Longrightarrow> q \<le> 1 \<Longrightarrow> 0 \<le> round4 q \<and> round4 q \<le> 1"
proof -
  assume q: "0 \<le> q" "q \<le> 1"
  define f where "f = \<lfloor>q * 10000\<rfloor>"
  define up where "up \<longleftrightarrow> \<not> (q * 10000 - of_int f < 1 / 2 \<or> q * 10000 - of_int f = 1 / 2 \<and> even f)"
  have f: "0 \<le> f" "f \<le> 10000" using q by (simp_all add: f_def floor_le_iff)
  have "\<not> up" if "f = 10000" using q that by (simp add: up_def)
  then have k: "0 \<le> (if up then f + 1 else f)" "(if up then f + 1 else f) \<le> 10000" using f by (cases up; simp; cases "f = 10000"; simp)+
  have "round4 q = of_int (if up then f + 1 else f) / 10000"
    unfolding round4_def Let_def f_def[symmetric] by (cases up) (simp_all only: up_def not_not if_True if_False simp_thms)
  moreover have "(0 :: rat) \<le> of_int (if up then f + 1 else f)" "of_int (if up then f + 1 else f) \<le> (10000 :: rat)"
    using k by (simp_all only: of_int_0_le_iff of_int_le_numeral_iff)
  ultimately show ?thesis by (simp only: zero_le_divide_iff divide_le_eq_1) simp
qed

lemma share_bounds: "k \<le> n \<Longrightarrow> 0 \<le> share k n \<and> share k n \<le> 1"
  by (simp add: share_def divide_le_eq)

lemma rate_bounds: "k \<le> n \<Longrightarrow> 0 \<le> round4 (share k n) \<and> round4 (share k n) \<le> 1"
  using share_bounds round4_bounds by blast

lemma map_of_dict_set [simp]: "map_of (dict_set k v d) = (map_of d)(k \<mapsto> v)"
  by (induction k v d rule: dict_set.induct) (auto simp: fun_eq_iff)

lemma count_codes_get:
  "(case map_of (count_codes rows acc) c of Some n \<Rightarrow> n | None \<Rightarrow> 0) =
   (case map_of acc c of Some n \<Rightarrow> n | None \<Rightarrow> 0) + length (filter (\<lambda>r. truthy (hr_code r) \<and> hr_code r = Some c) rows)"
proof (induction rows acc rule: count_codes.induct)
  case (2 r rs acc)
  then show ?case by (cases "hr_code r") (auto split: option.splits if_splits)
qed simp

text \<open>The scores are within their bounds: every rate lies between 0 and 1, and the histogram
counts, for each code, exactly the decisions that were rejected with it.\<close>

lemma quality_metrics_are_bounded:
  "let q = decision_quality_metrics_for rows
   in qm_decisions q = length rows \<and> 0 \<le> qm_hit_rate q \<and> qm_hit_rate q \<le> 1 \<and>
     0 \<le> qm_rejection_rate q \<and> qm_rejection_rate q \<le> 1 \<and> 0 \<le> qm_timeout_share q \<and> qm_timeout_share q \<le> 1 \<and>
     pred_option (\<lambda>x. 0 \<le> x \<and> x \<le> 1) (qm_distinctness q) \<and> pred_option (\<lambda>x. 0 \<le> x \<and> x \<le> 1) (qm_evidence q) \<and>
     (case map_of (qm_codes q) code of Some n \<Rightarrow> n | None \<Rightarrow> 0) = length (filter (\<lambda>r. truthy (hr_code r) \<and> hr_code r = Some code) rows)"
proof -
  have outcomes: "count_outcome s rows \<le> length rows" for s by (simp add: count_outcome_def)
  have "pred_option (\<lambda>x. 0 \<le> x \<and> x \<le> 1) (if n = 0 then None else Some (round4 (share (length (filter P xs)) n)))"
    if "n = length xs" for n P and xs :: "(bool \<times> bool) list"
    using rate_bounds[OF length_filter_le, of P xs] that by (simp only: option.pred_inject split: if_split) simp
  note part = this
  show ?thesis
    unfolding Let_def decision_quality_metrics_for_def quality.select_convs
    using rate_bounds[OF length_filter_le, of hr_recommended] rate_bounds[OF outcomes] part count_codes_get[of rows "[]" code]
    by (simp only: map_of.simps option.case add_0) blast
qed

section \<open>The proposal\<close>

lemma all_rejected_metrics:
  assumes "\<forall>r\<in>set rows. hr_outcome r = JStr ''rejected_all''" and "rows \<noteq> []"
  shows "qm_hit_rate (decision_quality_metrics_for rows) = 0" "qm_rejection_rate (decision_quality_metrics_for rows) = 1"
    "qm_decisions (decision_quality_metrics_for rows) = length rows"
proof -
  have "filter (\<lambda>r. hr_outcome r = JStr ''chosen'') rows = []" using assms(1) by (auto simp: filter_empty_conv)
  then show "qm_hit_rate (decision_quality_metrics_for rows) = 0"
    by (simp add: decision_quality_metrics_for_def Let_def share_def round4_def)
  have "filter (\<lambda>r. hr_outcome r = JStr ''rejected_all'') rows = rows" using assms(1) by (simp add: filter_id_conv)
  then show "qm_rejection_rate (decision_quality_metrics_for rows) = 1"
    using assms(2) by (simp add: decision_quality_metrics_for_def Let_def share_def round4_def count_outcome_def)
  show "qm_decisions (decision_quality_metrics_for rows) = length rows"
    by (simp add: decision_quality_metrics_for_def Let_def)
qed


end
