(* ===== verification/Option_Witness.thy ===== *)
theory Option_Witness
  imports Option_Link Option_Scene Governance_Witness Quality_Props
begin

text \<open>The theorems on option cards at concrete inputs.\<close>

section \<open>A card\<close>

definition card_choice :: "string \<Rightarrow> string \<Rightarrow> card_option" where
  "card_choice i s = \<lparr>co_id = i, co_label = ''l'', co_summary = s, co_payload = ''p'',
     co_evidence = [\<lparr>ev_type = ''vault_asset'', ev_ref = ''r'', ev_quote = None, ev_authority = ''primary''\<rparr>],
     co_outcome = ''o'', co_risks = [], co_axis = None\<rparr>"

definition demo_proposal :: "string \<Rightarrow> proposal" where
  "demo_proposal kind = \<lparr>pp_kind = kind, pp_level = 2, pp_title = ''t'', pp_question = ''q'',
     pp_options = [card_choice ''A'' ''red'', card_choice ''B'' ''blue''], pp_recommended = ''A'', pp_evidence = [],
     pp_function = 116, pp_prompt = ''0'', pp_rows = [''H9''], pp_rationale = [], pp_context = [], pp_novel = False,
     pp_lineage = [], pp_hours = None, pp_earned = True\<rparr>"

lemma demo_keys: "summary_key (card_choice i ''red'') = ''red''" "summary_key (card_choice i ''blue'') = ''blue''"
  by (simp_all add: summary_key_def card_choice_def py_strip_def py_space_def py_lower_def lower_char_def)

lemma card_choice_sel [simp]: "co_id (card_choice i s) = i" "co_evidence (card_choice i s) \<noteq> []"
  by (simp_all add: card_choice_def)

lemma demo_proposal_sel [simp]: "pp_kind (demo_proposal kind) = kind" "pp_level (demo_proposal kind) = 2"
  "pp_options (demo_proposal kind) = [card_choice ''A'' ''red'', card_choice ''B'' ''blue'']"
  "pp_recommended (demo_proposal kind) = ''A''" "pp_earned (demo_proposal kind)" "pp_hours (demo_proposal kind) = None"
  "pp_evidence (demo_proposal kind) = []" "pp_novel (demo_proposal kind) = False"
  by (simp_all add: demo_proposal_def)

lemma demo_kinds: "''content.reply'' \<notin> set (mx_kinds AUTONOMY_MATRIX)" "''content.publish'' \<in> set (mx_kinds AUTONOMY_MATRIX)"
  by (simp_all add: AUTONOMY_MATRIX_def)

lemma demo_levels_of: "map_of (mx_levels AUTONOMY_MATRIX) 2 = Some (True, Some 48)" "mx_global AUTONOMY_MATRIX = False"
  by (simp_all add: AUTONOMY_MATRIX_def)

lemma card_rules:
  "card_policy AUTONOMY_MATRIX (demo_proposal ''content.reply'') = Inr (''low'', ''digest'', Some ''A'', 48)"
  "card_policy AUTONOMY_MATRIX (demo_proposal ''content.publish'') = Inr (''non_negotiable'', ''realtime'', None, 72)"
  by (simp_all add: card_policy_def demo_kinds demo_levels_of RISK_TIERS_def hours_or_def)

lemma demo_built:
  assumes "card_policy AUTONOMY_MATRIX (demo_proposal kind) = Inr (tier, budget, dflt, h)"
    and "kind \<in> set (mx_kinds AUTONOMY_MATRIX) \<Longrightarrow> dflt = None \<and> budget = ''realtime''" and "dflt = None \<or> dflt = Some ''A''"
  obtains c where "build_card AUTONOMY_MATRIX (\<lambda>_. True) None (demo_proposal kind) i now = Inr c"
    "ocd_default c = dflt" "ocd_budget c = budget" "ocd_expires c = now + hours h"
proof -
  have d: "distinct [''A'', ''B'']" "distinct [''red'', ''blue'']" "''A'' \<in> set [''A'', ''B'']" by simp_all
  have "\<exists>c. build_card AUTONOMY_MATRIX (\<lambda>_. True) None (demo_proposal kind) i now = Inr c"
    using assms(2,3) d by (auto simp: build_card_def assms(1) validate_card_def Let_def unresolved_def demo_keys)
  then obtain c where c: "build_card AUTONOMY_MATRIX (\<lambda>_. True) None (demo_proposal kind) i now = Inr c" by blast
  with assms(1) have "ocd_default c = dflt" "ocd_budget c = budget" "ocd_expires c = now + hours h" by (auto elim!: build_cardE)
  with c that show thesis by blast
qed

definition reply_card :: ocard where
  "reply_card = projr (build_card AUTONOMY_MATRIX (\<lambda>_. True) None (demo_proposal ''content.reply'') ''u'' 0)"

definition publish_card :: ocard where
  "publish_card = projr (build_card AUTONOMY_MATRIX (\<lambda>_. True) None (demo_proposal ''content.publish'') ''u'' 0)"

lemma reply_card_built: "build_card AUTONOMY_MATRIX (\<lambda>_. True) None (demo_proposal ''content.reply'') ''u'' 0 = Inr reply_card"
proof -
  have "''content.reply'' \<in> set (mx_kinds AUTONOMY_MATRIX) \<Longrightarrow> Some ''A'' = None \<and> ''digest'' = ''realtime''" using demo_kinds(1) by (rule notE)
  from demo_built[OF card_rules(1) this] obtain c where
    "build_card AUTONOMY_MATRIX (\<lambda>_. True) None (demo_proposal ''content.reply'') ''u'' 0 = Inr c" by (metis (no_types))
  then show ?thesis by (simp add: reply_card_def)
qed

lemma publish_card_built: "build_card AUTONOMY_MATRIX (\<lambda>_. True) None (demo_proposal ''content.publish'') ''u'' 0 = Inr publish_card"
proof -
  from demo_built[OF card_rules(2)] obtain c where
    "build_card AUTONOMY_MATRIX (\<lambda>_. True) None (demo_proposal ''content.publish'') ''u'' 0 = Inr c" by (metis (no_types))
  then show ?thesis by (simp add: publish_card_def)
qed

lemma reply_card_sel: "ocd_default reply_card = Some ''A''" "ocd_created reply_card = 0" "ocd_expires reply_card = hours 48"
  "map co_id (ocd_options reply_card) = [''A'', ''B'']"
proof -
  from reply_card_built obtain tier budget dflt h where "card_policy AUTONOMY_MATRIX (demo_proposal ''content.reply'') = Inr (tier, budget, dflt, h)"
    and c: "ocd_options reply_card = pp_options (demo_proposal ''content.reply'')" "ocd_default reply_card = dflt"
      "ocd_created reply_card = 0" "ocd_expires reply_card = 0 + hours h" by (rule build_cardE)
  then have "dflt = Some ''A''" "h = 48" by (simp_all add: card_rules(1))
  with c show "ocd_default reply_card = Some ''A''" "ocd_created reply_card = 0" "ocd_expires reply_card = hours 48"
    "map co_id (ocd_options reply_card) = [''A'', ''B'']" by simp_all
qed


section \<open>Routing\<close>

lemma routing_partitions_cards_witness:
  "let r = route AUTONOMY_MATRIX [reply_card, publish_card] [] 5 0 (\<lambda>_. 0 :: nat) []
   in mset (rr_sent r @ map fst (rr_auto r) @ rr_timeouts r @ rr_expired r @ rr_overflow r @ rr_escalations r) = mset [reply_card, publish_card]"
  using routing_partitions_cards[OF refl, of AUTONOMY_MATRIX "[reply_card, publish_card]" "[]" 5 0 "\<lambda>_. 0 :: nat" "[]"] by (simp add: Let_def)

lemma non_negotiable_needs_human_witness:
  "publish_card \<notin> set (rr_sent (route AUTONOMY_MATRIX [publish_card] [] 5 0 (\<lambda>_. 0 :: nat) [])) \<and>
   publish_card \<notin> set (rr_timeouts (route AUTONOMY_MATRIX [publish_card] [] 5 0 (\<lambda>_. 0 :: nat) []))"
proof -
  have "pp_kind (demo_proposal ''content.publish'') \<in> set (mx_kinds AUTONOMY_MATRIX)" by (simp add: demo_kinds)
  moreover have "publish_card \<in> set [publish_card]" by simp
  ultimately show ?thesis
    using non_negotiable_needs_human[OF publish_card_built _ _ refl, of "[publish_card]" "[]" 5 0 "\<lambda>_. 0 :: nat" "[]"] by blast
qed

section \<open>The card as JSON\<close>

definition unary :: "int \<Rightarrow> string" where
  "unary t = (if t < 0 then CHR ''-'' # replicate (nat (- t)) (CHR ''1'') else replicate (nat t) (CHR ''1''))"

definition of_unary :: "string \<Rightarrow> int option" where
  "of_unary s = (case s of CHR ''-'' # r \<Rightarrow> Some (- int (length r)) | _ \<Rightarrow> Some (int (length s)))"

lemma unary_inverts: "of_unary (unary t) = Some t"
proof (cases "t < 0")
  case True
  then show ?thesis by (simp add: of_unary_def unary_def)
next
  case False
  then show ?thesis by (cases "nat t") (simp_all add: of_unary_def unary_def)
qed

lemma card_doc_round_trip_witness: "read_card of_unary (card_doc unary reply_card) = Some reply_card"
  by (rule card_doc_round_trip[OF unary_inverts])

section \<open>A decision\<close>

text \<open>A row of the Vault for a card, and a key pair whose signature is empty.\<close>

definition demo_card_row :: "ocard \<Rightarrow> card_row" where
  "demo_card_row c = \<lparr>oq_id = 7, oq_run = None, oq_fields = [(''card'', card_doc unary c)],
     oq_created = ocd_created c, oq_expires = ocd_expires c\<rparr>"

definition demo_vault :: "ocard \<Rightarrow> vault_state" where
  "demo_vault c = empty_vault\<lparr>vs_db := (vs_db empty_vault)\<lparr>vd_cards := [demo_card_row c]\<rparr>\<rparr>"

definition link_env :: option_env where
  "link_env = \<lparr>op_sign = (\<lambda>_. []), op_verify = (\<lambda>s _. s = []), op_uuid = py_uuid, op_iso = unary\<rparr>"

lemma demo_pair: "key_pair link_env"
  by (simp add: key_pair_def link_env_def)

lemma link_uuid: "op_uuid link_env (uuid_str 7) = Some 7"
  by (simp add: link_env_def)

lemma demo_at: "card_at 7 (vs_db (demo_vault c)) = Some (demo_card_row c)"
  by (simp add: card_at_def demo_vault_def demo_card_row_def)

lemma demo_undecided: "fetch_decision i (vs_db (demo_vault c)) = None" "vd_decided (vs_db (demo_vault c)) = []"
  by (simp_all add: fetch_decision_def demo_vault_def empty_vault_def)

lemma card_of_row: "card_json (demo_card_row c) = card_doc unary c"
  by (simp add: card_json_def demo_card_row_def)

lemma option_ids_doc: "option_ids (card_doc stamp c) = Inr (map (\<lambda>o'. JStr (co_id o')) (ocd_options c))"
proof -
  have "option_ids_of (map option_json os) = Inr (map (\<lambda>o'. JStr (co_id o')) os)" for os
    by (induction os) (simp_all add: option_json_def)
  then show ?thesis by (simp add: option_ids_def card_doc_def)
qed

lemma demo_offers:
  assumes "map co_id (ocd_options c) = [''A'', ''B'']"
  shows "offers (demo_card_row c) [''A'', ''B'']"
proof -
  have "map (\<lambda>o'. JStr (co_id o')) (ocd_options c) = map JStr (map co_id (ocd_options c))" by simp
  then show ?thesis by (simp add: offers_def card_of_row option_ids_doc assms) (simp add: card_doc_def)
qed



section \<open>A timeout\<close>

definition demo_digest :: digest_services where
  "demo_digest = \<lparr>dg_qa = silent_env, dg_matrix = AUTONOMY_MATRIX, dg_parse = of_unary, dg_stamp = unary, dg_day = unary,
     dg_clock = (\<lambda>_. 0), dg_base = None, dg_sign = (\<lambda>_ _. None)\<rparr>"

lemma timeout_is_never_applied_witness:
  "ocd_default reply_card = Some ''A'' \<and> ocd_expires reply_card = hours 48 \<and>
     snd (decide link_env demo_headers (card_link link_env 7 (Some ''A'')) (hours 49) 0 (vs_db (demo_vault reply_card))) = vs_db (demo_vault reply_card) \<and>
     list_option_cards True 500 0 (hours 49) (demo_vault reply_card) = Inr [] \<and>
     rr_timeouts (digest_routing demo_digest [] (hours 50)) = []"
proof -
  have late: "oq_expires (demo_card_row reply_card) \<le> hours 49" by (simp add: demo_card_row_def reply_card_sel hours_def)
  have q: "op_uuid link_env (dq_card (card_link link_env 7 (Some ''A''))) = Some 7" by (simp add: card_link_def link_uuid)
  have rows: "list_option_cards True 500 0 (hours 49) (demo_vault reply_card) = Inr []"
    using late by (simp add: list_option_cards_def demo_vault_def empty_vault_def)
  have "snd (decide link_env demo_headers (card_link link_env 7 (Some ''A'')) (hours 49) 0 (vs_db (demo_vault reply_card))) = vs_db (demo_vault reply_card)"
    using timeout_is_never_applied[OF demo_at late q rows _ refl, where svc = demo_digest and cs = "[]" and now = "hours 50" and hs = demo_headers and made = 0] by simp
  moreover have "rr_timeouts (digest_routing demo_digest [] (hours 50)) = []" by (simp add: digest_routing_def route_def Let_def)
  ultimately show ?thesis using rows reply_card_sel(1,3) by blast
qed


section \<open>Earn-in and decision quality\<close>

text \<open>The theorems on the earn-in rules and the decision quality at concrete inputs.\<close>

definition good_metrics :: metrics where
  "good_metrics = [(''window_days'', 30), (''run_count'', 40), (''gate_pass_rate'', 8 / 10), (''recommendation_hit_rate'', 6 / 10),
     (''fabricated_proof_point_events'', 0), (''material_failures'', 0)]"

lemma good_promotion: "evaluate_promotion 1 ''draft'' good_metrics EARN_IN_RULES =
    Inr \<lparr>pm_eligible = True, pm_from = 1, pm_to = Some 2, pm_unmet = []\<rparr>"
  by (simp add: evaluate_promotion_def EARN_IN_RULES_def action_class_track_def Let_def unmet_requirements_def check_floor_def
      check_metric_def check_published_def good_metrics_def or_zero_def ends_with_def without_def STRUCTURAL_REQUIRES_KEYS_def)

lemma promotion_iff_requirements_met_witness:
  "\<exists>r. List.find (\<lambda>r. pr_from r = 1) (er_promote EARN_IN_RULES) = Some r \<and>
     list_all (meets good_metrics ''upstream'' (pr_requires r)) (pr_requires r)"
proof -
  have "action_class_track ''draft'' EARN_IN_RULES = Inr ''upstream''"
    by (simp add: action_class_track_def EARN_IN_RULES_def)
  moreover have "\<forall>r\<in>set (er_promote EARN_IN_RULES). distinct (map fst (pr_requires r))"
    by (simp add: EARN_IN_RULES_def)
  ultimately show ?thesis
    using promotion_iff_requirements_met[OF good_promotion] by (simp add: list_all_iff)
qed

text \<open>Twenty rejections of every option.\<close>

definition refused_row :: hist_row where
  "refused_row = \<lparr>hr_function = 116, hr_outcome = JStr ''rejected_all'', hr_recommended = False,
     hr_code = Some ''other'', hr_options = []\<rparr>"

definition quality_scene :: quality_services where
  "quality_scene = \<lparr>qv_oc = refusing_services, qv_rules = EARN_IN_RULES, qv_number = (\<lambda>_. []), qv_parse = (\<lambda>_. None)\<rparr>"


end
