(* ===== verification/Mcp_Server.thy ===== *)
theory Mcp_Server
  imports Py_Bytes Completion_Policy Brand_Rules
begin

text \<open>What the tool servers share (mcp/common): resolution of secrets with the override per request
(credentials.py), the log of tool calls (logging.py) and the JSON-RPC endpoint (protocol.py). The
tools of a server are the argument \<open>dispatch\<close>, a function over the state of that server.\<close>

section \<open>Environment\<close>

text \<open>\<open>me_var\<close> is os.environ, \<open>me_vault\<close> the lookup in the Key Vault, None when it fails or has no
value; \<open>me_str\<close> is str() of a value that is not a text, \<open>me_float\<close> the text of a float.\<close>

record mcp_env =
  me_var :: "string \<Rightarrow> string option"
  me_vault :: "string \<Rightarrow> string option"
  me_str :: "json \<Rightarrow> string"
  me_float :: "string \<Rightarrow> string"

text \<open>An exception with its class and its str().\<close>

datatype mcp_exn = Exn string string

fun exn_class :: "mcp_exn \<Rightarrow> string" where "exn_class (Exn c m) = c"
fun exn_text :: "mcp_exn \<Rightarrow> string" where "exn_text (Exn c m) = m"

section \<open>Credentials\<close>

text \<open>\<open>forced\<close> is the override of the request, force_fixture_mode.\<close>

definition resolve_secret :: "mcp_env \<Rightarrow> bool \<Rightarrow> string \<Rightarrow> string option \<Rightarrow> string option" where
  "resolve_secret env forced var secret =
    (if forced then None
     else if truthy (me_var env var) then me_var env var
     else if \<not> truthy secret \<or> \<not> truthy (me_var env ''KEY_VAULT_URI'') then None
     else me_vault env (the secret))"

definition is_live_mode :: "mcp_env \<Rightarrow> bool \<Rightarrow> string \<Rightarrow> string option \<Rightarrow> bool" where
  "is_live_mode env forced var secret \<longleftrightarrow> resolve_secret env forced var secret \<noteq> None"

definition ON_VALUES :: "string list" where "ON_VALUES = [''1'', ''true'', ''yes'', ''on'']"

definition var_or :: "mcp_env \<Rightarrow> string \<Rightarrow> string \<Rightarrow> string" where
  "var_or env var d = (case me_var env var of Some v \<Rightarrow> v | None \<Rightarrow> d)"

definition flag_enabled :: "mcp_env \<Rightarrow> bool \<Rightarrow> string \<Rightarrow> bool" where
  "flag_enabled env forced var \<longleftrightarrow> \<not> forced \<and> py_lower (py_strip (var_or env var [])) \<in> set ON_VALUES"

section \<open>The log\<close>

record tool_row =
  tl_server :: string
  tl_tool :: string
  tl_caller :: string
  tl_hash :: string
  tl_outcome :: string

definition OUTCOMES :: "string list" where "OUTCOMES = [''success'', ''error'', ''rejected'', ''rate_limited'']"

definition hash_arguments :: "mcp_env \<Rightarrow> json \<Rightarrow> string" where
  "hash_arguments env arguments = sha256_hexdigest (utf8_encode (dump_spaced (me_float env) (sort_deep arguments)))"

definition log_tool_call :: "mcp_env \<Rightarrow> string \<Rightarrow> string \<Rightarrow> string \<Rightarrow> json \<Rightarrow> string \<Rightarrow> tool_row list \<Rightarrow> mcp_exn + tool_row list" where
  "log_tool_call env server tool caller arguments outcome rows =
    (if outcome \<notin> set OUTCOMES then Inl (Exn ''ValueError'' ''outcome must be one of the outcomes'')
     else Inr (rows @ [\<lparr>tl_server = server, tl_tool = tool, tl_caller = caller, tl_hash = hash_arguments env arguments, tl_outcome = outcome\<rparr>]))"

text \<open>_log_best_effort; \<open>up\<close> tells whether the pool gives a connection and the insert commits.\<close>

definition log_best_effort :: "mcp_env \<Rightarrow> bool \<Rightarrow> string \<Rightarrow> string \<Rightarrow> json \<Rightarrow> string \<Rightarrow> tool_row list \<Rightarrow> tool_row list" where
  "log_best_effort env up server tool arguments outcome rows =
    (if \<not> up then rows
     else (case log_tool_call env server tool (var_or env ''MCP_CALLER_IDENTITY'' ''unknown'') arguments outcome rows of
             Inl _ \<Rightarrow> rows
           | Inr rows' \<Rightarrow> rows'))"

section \<open>Values\<close>

text \<open>str() of a value, and the .get of a value that need not be an object.\<close>

fun str_value :: "mcp_env \<Rightarrow> json \<Rightarrow> string" where
  "str_value env (JStr s) = s"
| "str_value env (JInt i) = int_str i"
| "str_value env (JBool b) = (if b then ''True'' else ''False'')"
| "str_value env JNull = ''None''"
| "str_value env j = me_str env j"

fun type_name :: "json \<Rightarrow> string" where
  "type_name JNull = ''NoneType''"
| "type_name (JBool b) = ''bool''"
| "type_name (JInt i) = ''int''"
| "type_name (JFloat f) = ''float''"
| "type_name (JStr s) = ''str''"
| "type_name (JArr xs) = ''list''"
| "type_name (JObj kvs) = ''dict''"

definition quoted :: "string \<Rightarrow> string" where "quoted s = [CHR 0x27] @ s @ [CHR 0x27]"

definition no_attribute :: "json \<Rightarrow> string \<Rightarrow> mcp_exn" where
  "no_attribute j name = Exn ''AttributeError'' (quoted (type_name j) @ '' object has no attribute '' @ quoted name)"

fun as_dict :: "json \<Rightarrow> mcp_exn + (string \<times> json) list" where
  "as_dict (JObj kvs) = Inr kvs"
| "as_dict j = Inl (no_attribute j ''get'')"

definition get_or :: "(string \<times> json) list \<Rightarrow> string \<Rightarrow> json \<Rightarrow> json" where
  "get_or kvs k d = (case jget kvs k of Some v \<Rightarrow> v | None \<Rightarrow> d)"

text \<open>A dict display with ** entries: later keys win and keep their first place.\<close>

definition merged :: "(string \<times> json) list \<Rightarrow> (string \<times> json) list \<Rightarrow> (string \<times> json) list" where
  "merged kvs extra = fold (\<lambda>(k, v). dict_set k v) extra kvs"

section \<open>The endpoint\<close>

record tool_definition =
  td_name :: string
  td_description :: string
  td_schema :: json

text \<open>The long dash of some descriptions, a character beyond those of the model.\<close>

definition long_dash :: string where "long_dash = ''--''"

record rpc_request =
  rq_id :: json
  rq_method :: string
  rq_params :: "(string \<times> json) list"

record rpc_response =
  rs_id :: json
  rs_result :: "json option"
  rs_error :: "json option"

definition handle_initialize :: "string \<Rightarrow> string \<Rightarrow> json" where
  "handle_initialize name version =
    JObj [(''protocolVersion'', JStr ''2024-11-05''),
      (''serverInfo'', JObj [(''name'', JStr name), (''version'', JStr version)]),
      (''capabilities'', JObj [(''tools'', JObj [])])]"

definition handle_tools_list :: "tool_definition list \<Rightarrow> json" where
  "handle_tools_list tools =
    JObj [(''tools'', JArr (map (\<lambda>t. JObj [(''name'', JStr (td_name t)), (''description'', JStr (td_description t)),
      (''inputSchema'', td_schema t)]) tools))]"

text \<open>A list or an object is unhashable, so the test against the set of names raises.\<close>

definition handle_tools_call ::
    "mcp_env \<Rightarrow> tool_definition list \<Rightarrow> (string \<Rightarrow> json \<Rightarrow> 's \<Rightarrow> (mcp_exn + (string \<times> json) list) \<times> 's) \<Rightarrow>
     (string \<times> json) list \<Rightarrow> 's \<Rightarrow> (mcp_exn + json) \<times> 's" where
  "handle_tools_call env tools dispatch params st =
    (let name = get_or params ''name'' JNull;
         given = get_or params ''arguments'' JNull;
         arguments = (if jtruth given then given else JObj [])
     in case name of
          JStr n \<Rightarrow>
            (if n \<notin> set (map td_name tools) then (Inl (Exn ''ValueError'' (''unknown tool: '' @ n)), st)
             else (case dispatch n arguments st of
                     (Inl e, st') \<Rightarrow> (Inl e, st')
                   | (Inr result, st') \<Rightarrow>
                       (Inr (JObj [(''content'', JArr [JObj [(''type'', JStr ''text''),
                            (''text'', JStr (dump_spaced (me_float env) (JObj result)))]]),
                          (''isError'', JBool False), (''structuredContent'', JObj result)]), st')))
        | JArr _ \<Rightarrow> (Inl (Exn ''TypeError'' (''unhashable type: '' @ quoted ''list'')), st)
        | JObj _ \<Rightarrow> (Inl (Exn ''TypeError'' (''unhashable type: '' @ quoted ''dict'')), st)
        | v \<Rightarrow> (Inl (Exn ''ValueError'' (''unknown tool: '' @ str_value env v)), st))"

definition rpc_error :: "int \<Rightarrow> string \<Rightarrow> json" where
  "rpc_error code message = JObj [(''code'', JInt code), (''message'', JStr message)]"

definition rpc_handle ::
    "mcp_env \<Rightarrow> string \<Rightarrow> string \<Rightarrow> tool_definition list \<Rightarrow> (string \<Rightarrow> json \<Rightarrow> 's \<Rightarrow> (mcp_exn + (string \<times> json) list) \<times> 's) \<Rightarrow>
     rpc_request \<Rightarrow> 's \<Rightarrow> rpc_response \<times> 's" where
  "rpc_handle env name version tools dispatch rq st =
    (let ok = (\<lambda>v. \<lparr>rs_id = rq_id rq, rs_result = Some v, rs_error = None\<rparr>);
         bad = (\<lambda>code m. \<lparr>rs_id = rq_id rq, rs_result = None, rs_error = Some (rpc_error code m)\<rparr>)
     in if rq_method rq = ''initialize'' then (ok (handle_initialize name version), st)
        else if rq_method rq = ''tools/list'' then (ok (handle_tools_list tools), st)
        else if rq_method rq = ''tools/call'' then
          (case handle_tools_call env tools dispatch (rq_params rq) st of
             (Inl e, st') \<Rightarrow> (bad (- 32000) (exn_text e), st')
           | (Inr v, st') \<Rightarrow> (ok v, st'))
        else (bad (- 32601) (''method not found: '' @ rq_method rq), st))"

text \<open>POST /mcp: the header sets the override for this request alone.\<close>

definition forces_fixture :: "string option \<Rightarrow> bool" where
  "forces_fixture header \<longleftrightarrow> py_lower (py_strip (case header of Some v \<Rightarrow> v | None \<Rightarrow> [])) \<in> set ON_VALUES"

definition mcp_endpoint ::
    "mcp_env \<Rightarrow> string \<Rightarrow> string \<Rightarrow> tool_definition list \<Rightarrow>
     (bool \<Rightarrow> string \<Rightarrow> json \<Rightarrow> 's \<Rightarrow> (mcp_exn + (string \<times> json) list) \<times> 's) \<Rightarrow>
     string option \<Rightarrow> rpc_request \<Rightarrow> 's \<Rightarrow> rpc_response \<times> 's" where
  "mcp_endpoint env name version tools dispatch header rq st =
    rpc_handle env name version tools (dispatch (forces_fixture header)) rq st"

text \<open>The answer as the JSON document of the HTTP response.\<close>

definition response_json :: "rpc_response \<Rightarrow> json" where
  "response_json r = JObj [(''jsonrpc'', JStr ''2.0''), (''id'', rs_id r),
     (''result'', case rs_result r of Some v \<Rightarrow> v | None \<Rightarrow> JNull),
     (''error'', case rs_error r of Some v \<Rightarrow> v | None \<Rightarrow> JNull)]"

section \<open>A request as a change of the server\<close>

text \<open>A relation that the tools keep, and that no tool leaves the state in, is kept by a request.\<close>

lemma endpoint_effect:
  assumes "R st st" and "\<And>n arguments r st'. n \<in> set (map td_name tools) \<Longrightarrow>
      dispatch (forces_fixture header) n arguments st = (r, st') \<Longrightarrow> R st st'"
  shows "R st (snd (mcp_endpoint env name version tools dispatch header rq st))"
  using assms
  by (auto simp: mcp_endpoint_def rpc_handle_def handle_tools_call_def Let_def split: json.splits prod.splits sum.splits)

lemma forced_resolves_nothing: "resolve_secret env True var secret = None" "\<not> is_live_mode env True var secret" "\<not> flag_enabled env True var"
  by (simp_all add: resolve_secret_def is_live_mode_def flag_enabled_def)

end
