(* ===== verification/Mcp_Buffer.thy ===== *)
theory Mcp_Buffer
  imports Mcp_Server Publish_Route
begin

text \<open>mcp-buffer (mcp/mcp-buffer/app): three tools over Buffer's GraphQL interface, of which one
writes. \<open>bf_reply\<close> is the answer to a POST after the calls so far: None when the request itself fails,
Some None when the body is no JSON.\<close>

section \<open>State\<close>

text \<open>A POST to BUFFER_API_URL: the query, its variables and the Authorization header.\<close>

record graphql_post =
  gq_query :: string
  gq_vars :: "(string \<times> json) list"
  gq_auth :: string

record buffer_env =
  bf_env :: mcp_env
  bf_reply :: "graphql_post list \<Rightarrow> graphql_post \<Rightarrow> json option option"
  bf_log_up :: "tool_row list \<Rightarrow> bool"

record buffer_state =
  bs_posts :: "graphql_post list"
  bs_log :: "tool_row list"

section \<open>Calls\<close>

definition BUFFER_ORG_ID :: string where "BUFFER_ORG_ID = ''68e5f2187fe9a5263a3509ab''"

definition buffer_org :: "buffer_env \<Rightarrow> string" where "buffer_org env = var_or (bf_env env) ''BUFFER_ORG_ID'' BUFFER_ORG_ID"

definition buffer_live :: "buffer_env \<Rightarrow> bool \<Rightarrow> bool" where
  "buffer_live env forced \<longleftrightarrow> is_live_mode (bf_env env) forced ''BUFFER_API_KEY'' (Some ''buffer-api-key'')"

text \<open>f-string of an optional text.\<close>

definition shown_opt :: "string option \<Rightarrow> string" where "shown_opt v = (case v of Some s \<Rightarrow> s | None \<Rightarrow> ''None'')"

definition graphql_request ::
    "buffer_env \<Rightarrow> string \<Rightarrow> (string \<times> json) list \<Rightarrow> buffer_state \<Rightarrow> (mcp_exn + json) \<times> buffer_state" where
  "graphql_request env query vars st =
    (let c = \<lparr>gq_query = query, gq_vars = vars, gq_auth = ''Bearer '' @ shown_opt (me_var (bf_env env) ''BUFFER_API_KEY'')\<rparr>;
         st' = st\<lparr>bs_posts := bs_posts st @ [c]\<rparr>
     in case bf_reply env (bs_posts st) c of
          None \<Rightarrow> (Inl (Exn ''HTTPError'' ''request failed''), st')
        | Some None \<Rightarrow> (Inl (Exn ''JSONDecodeError'' ''no JSON''), st')
        | Some (Some j) \<Rightarrow> (Inr j, st'))"

text \<open>The documents, with a blank for each line end and its indentation.\<close>

definition LIST_QUEUE_QUERY :: string where
  "LIST_QUEUE_QUERY = ''query ListQueue($organizationId: ID!, $channelId: ID) { posts(organizationId: $organizationId, channelId: $channelId, status: QUEUE) { id text channelId dueAt status } }''"

definition GET_POST_QUERY :: string where
  "GET_POST_QUERY = ''query GetPost($postId: ID!) { post(id: $postId) { id text channelId dueAt status } }''"

definition CREATE_DRAFT_MUTATION :: string where
  "CREATE_DRAFT_MUTATION = ''mutation CreateDraft($organizationId: ID!, $channelId: ID!, $text: String!, $status: PostStatus!) { createPost(organizationId: $organizationId, channelId: $channelId, text: $text, status: $status) { id status } }''"

definition CREATE_DRAFT_STATUS :: string where "CREATE_DRAFT_STATUS = ''draft''"

section \<open>Fixtures\<close>

text \<open>The files of mcp-buffer/fixtures.\<close>

definition synthetic_post :: "string \<Rightarrow> json" where
  "synthetic_post text = JObj [(''id'', JStr ''SYNTH-POST-0001''), (''text'', JStr text), (''channelId'', JStr ''SYNTH-CHANNEL-0001''),
     (''dueAt'', JStr ''2026-08-01T09:00:00Z''), (''status'', JStr ''QUEUE'')]"

definition list_queue_fixture :: "(string \<times> json) list" where
  "list_queue_fixture = [(''_synthetic'', JBool True), (''posts'', JArr
     [synthetic_post ''SYNTHETIC-TEST-DATA: example queued post text for fixture-mode testing.''])]"

definition get_post_fixture :: "(string \<times> json) list" where
  "get_post_fixture = [(''_synthetic'', JBool True), (''post'',
     synthetic_post ''SYNTHETIC-TEST-DATA: example post body for fixture-mode testing.'')]"

definition create_draft_fixture :: "(string \<times> json) list" where
  "create_draft_fixture = [(''_synthetic'', JBool True),
     (''post'', JObj [(''id'', JStr ''SYNTH-POST-0002''), (''status'', JStr ''draft'')])]"

section \<open>Tools\<close>

definition from_fixture :: "(string \<times> json) list \<Rightarrow> (string \<times> json) list" where
  "from_fixture fixture = merged [(''source'', JStr ''fixture'')] fixture"

definition from_live :: "json \<Rightarrow> (string \<times> json) list" where
  "from_live data = [(''source'', JStr ''live''), (''result'', data)]"

type_synonym tool_result = "(mcp_exn + (string \<times> json) list) \<times> buffer_state"

definition tool_list_queue :: "buffer_env \<Rightarrow> bool \<Rightarrow> json \<Rightarrow> buffer_state \<Rightarrow> tool_result" where
  "tool_list_queue env forced arguments st =
    (case as_dict arguments of
       Inl e \<Rightarrow> (Inl e, st)
     | Inr kvs \<Rightarrow>
         (if \<not> buffer_live env forced then (Inr (from_fixture list_queue_fixture), st)
          else (case graphql_request env LIST_QUEUE_QUERY
                   [(''organizationId'', JStr (buffer_org env)), (''channelId'', get_or kvs ''channel_id'' JNull)] st of
                  (Inl e, st') \<Rightarrow> (Inl e, st')
                | (Inr data, st') \<Rightarrow> (Inr (from_live data), st'))))"

definition tool_get_post :: "buffer_env \<Rightarrow> bool \<Rightarrow> json \<Rightarrow> buffer_state \<Rightarrow> tool_result" where
  "tool_get_post env forced arguments st =
    (case as_dict arguments of
       Inl e \<Rightarrow> (Inl e, st)
     | Inr kvs \<Rightarrow>
         (if \<not> buffer_live env forced then (Inr (from_fixture get_post_fixture), st)
          else (case graphql_request env GET_POST_QUERY [(''postId'', get_or kvs ''post_id'' JNull)] st of
                  (Inl e, st') \<Rightarrow> (Inl e, st')
                | (Inr data, st') \<Rightarrow> (Inr (from_live data), st'))))"

definition attribution :: "(string \<times> json) list \<Rightarrow> (string \<times> json) list" where
  "attribution kvs = filter (\<lambda>(k, v). jtruth v) (map (\<lambda>k. (k, get_or kvs k JNull)) [''utm_campaign'', ''post_archetype''])"

definition tool_create_draft :: "buffer_env \<Rightarrow> bool \<Rightarrow> json \<Rightarrow> buffer_state \<Rightarrow> tool_result" where
  "tool_create_draft env forced arguments st =
    (case as_dict arguments of
       Inl e \<Rightarrow> (Inl e, st)
     | Inr kvs \<Rightarrow>
         (if \<not> buffer_live env forced then (Inr (merged (from_fixture create_draft_fixture) (attribution kvs)), st)
          else (case graphql_request env CREATE_DRAFT_MUTATION
                   [(''organizationId'', JStr (buffer_org env)), (''channelId'', get_or kvs ''channel_id'' JNull),
                    (''text'', get_or kvs ''text'' (JStr [])), (''status'', JStr CREATE_DRAFT_STATUS)] st of
                  (Inl e, st') \<Rightarrow> (Inl e, st')
                | (Inr data, st') \<Rightarrow> (Inr (merged (from_live data) (attribution kvs)), st'))))"

section \<open>Dispatch\<close>

definition BUFFER_TABLE :: "(string \<times> (buffer_env \<Rightarrow> bool \<Rightarrow> json \<Rightarrow> buffer_state \<Rightarrow> tool_result)) list" where
  "BUFFER_TABLE = [(''list_queue'', tool_list_queue), (''get_post'', tool_get_post), (''create_draft'', tool_create_draft)]"

definition buffer_log :: "buffer_env \<Rightarrow> string \<Rightarrow> json \<Rightarrow> string \<Rightarrow> buffer_state \<Rightarrow> buffer_state" where
  "buffer_log env tool arguments outcome st =
    st\<lparr>bs_log := log_best_effort (bf_env env) (bf_log_up env (bs_log st)) ''mcp-buffer'' tool arguments outcome (bs_log st)\<rparr>"

definition buffer_dispatch :: "buffer_env \<Rightarrow> bool \<Rightarrow> string \<Rightarrow> json \<Rightarrow> buffer_state \<Rightarrow> tool_result" where
  "buffer_dispatch env forced tool arguments st =
    (case map_of BUFFER_TABLE tool of
       None \<Rightarrow> (Inl (Exn ''ValueError'' (''unknown tool: '' @ tool)), buffer_log env tool arguments ''error'' st)
     | Some f \<Rightarrow>
         (case f env forced arguments st of
            (Inl e, st') \<Rightarrow> (Inl e, buffer_log env tool arguments ''error'' st')
          | (Inr result, st') \<Rightarrow> (Inr result, buffer_log env tool arguments ''success'' st')))"

definition text_schema :: "string list \<Rightarrow> string list \<Rightarrow> json" where
  "text_schema properties required =
    JObj [(''type'', JStr ''object''), (''properties'', JObj (map (\<lambda>p. (p, JObj [(''type'', JStr ''string'')])) properties)),
      (''required'', JArr (map JStr required))]"

definition BUFFER_TOOLS :: "tool_definition list" where
  "BUFFER_TOOLS =
    [\<lparr>td_name = ''list_queue'',
      td_description = ''List posts currently sitting in Buffer'' @ [CHR 0x27] @ ''s queue for a channel. Read-only.'',
      td_schema = text_schema [''channel_id''] []\<rparr>,
     \<lparr>td_name = ''get_post'',
      td_description = ''Read a single Buffer post'' @ [CHR 0x27] @ ''s current recorded state. Read-only.'',
      td_schema = text_schema [''post_id''] [''post_id'']\<rparr>,
     \<lparr>td_name = ''create_draft'',
      td_description = ''Create a new queued item in Buffer as a draft-equivalent item. Always created in a draft state '' @ long_dash @ '' this tool never transitions a post to a scheduled or delivered state, and accepts no status/mode/state argument of any kind.'',
      td_schema = text_schema [''channel_id'', ''text'', ''utm_campaign'', ''post_archetype''] [''channel_id'', ''text'']\<rparr>]"

definition buffer_endpoint :: "buffer_env \<Rightarrow> string option \<Rightarrow> rpc_request \<Rightarrow> buffer_state \<Rightarrow> rpc_response \<times> buffer_state" where
  "buffer_endpoint env = mcp_endpoint (bf_env env) ''mcp-buffer'' ''0.1.0'' BUFFER_TOOLS (buffer_dispatch env)"

end
