(* ===== verification/Mcp_Buffer_Props.thy ===== *)
theory Mcp_Buffer_Props
  imports Mcp_Buffer
begin

text \<open>mcp-buffer never asks Buffer for more than a draft; and the publisher, as its client, counts
answers that created none.\<close>

section \<open>What is sent\<close>

definition draft_only :: "graphql_post \<Rightarrow> bool" where
  "draft_only c \<longleftrightarrow>
    gq_query c = LIST_QUEUE_QUERY \<or> gq_query c = GET_POST_QUERY \<or>
    gq_query c = CREATE_DRAFT_MUTATION \<and> map fst (gq_vars c) = [''organizationId'', ''channelId'', ''text'', ''status''] \<and>
      jget (gq_vars c) ''status'' = Some (JStr ''draft'')"

definition posts_grow :: "bool \<Rightarrow> buffer_state \<Rightarrow> buffer_state \<Rightarrow> bool" where
  "posts_grow forced st st' \<longleftrightarrow>
    (\<exists>new. bs_posts st' = bs_posts st @ new \<and> length new \<le> (if forced then 0 else 1) \<and> (\<forall>c\<in>set new. draft_only c))"

lemma posts_grow_refl: "posts_grow forced st st"
  by (simp add: posts_grow_def)

lemma forced_buffer: "\<not> buffer_live env True"
  by (simp add: buffer_live_def forced_resolves_nothing)

lemma request_grows:
  assumes "graphql_request env q vars st = (r, st')" "draft_only \<lparr>gq_query = q, gq_vars = vars, gq_auth = au\<rparr>" "\<not> forced"
  shows "posts_grow forced st st'"
proof -
  have "draft_only \<lparr>gq_query = q, gq_vars = vars, gq_auth = au'\<rparr>" for au' using assms(2) by (simp add: draft_only_def)
  then show ?thesis using assms(1,3)
    by (auto simp: posts_grow_def graphql_request_def Let_def split: option.splits)
qed

lemma post_grows: "\<not> forced \<Longrightarrow> draft_only \<lparr>gq_query = q, gq_vars = vars, gq_auth = []\<rparr> \<Longrightarrow>
    posts_grow forced st (snd (graphql_request env q vars st))"
  by (rule request_grows[of env q vars st "fst (graphql_request env q vars st)", where au = "[]"]) simp_all

lemma live_unforced: "buffer_live env forced \<Longrightarrow> \<not> forced"
  using forced_buffer by (cases forced) simp_all

lemma tools_grow:
  "posts_grow forced st (snd (tool_list_queue env forced arguments st))"
  "posts_grow forced st (snd (tool_get_post env forced arguments st))"
  "posts_grow forced st (snd (tool_create_draft env forced arguments st))"
proof -
  have step: "posts_grow forced st (snd (case graphql_request env q vars st of (Inl e, st') \<Rightarrow> (Inl e, st') | (Inr data, st') \<Rightarrow> (Inr (g data), st')))"
    if "buffer_live env forced" "draft_only \<lparr>gq_query = q, gq_vars = vars, gq_auth = []\<rparr>" for q vars and g :: "json \<Rightarrow> (string \<times> json) list"
    using post_grows[OF live_unforced[OF that(1)] that(2), of st env]
    by (cases "graphql_request env q vars st" rule: prod.exhaust) (auto split: sum.split)
  show "posts_grow forced st (snd (tool_list_queue env forced arguments st))"
    by (auto simp: tool_list_queue_def posts_grow_refl draft_only_def intro!: step split: sum.split)
  show "posts_grow forced st (snd (tool_get_post env forced arguments st))"
    by (auto simp: tool_get_post_def posts_grow_refl draft_only_def intro!: step split: sum.split)
  show "posts_grow forced st (snd (tool_create_draft env forced arguments st))"
    by (auto simp: tool_create_draft_def posts_grow_refl draft_only_def CREATE_DRAFT_STATUS_def intro!: step split: sum.split)
qed

lemma log_keeps_posts: "bs_posts (buffer_log env tool arguments outcome st) = bs_posts st"
  by (simp add: buffer_log_def)

lemma log_grows: "posts_grow forced st st' \<Longrightarrow> posts_grow forced st (buffer_log env tool arguments outcome st')"
  by (simp add: posts_grow_def log_keeps_posts)

lemma table_grows: "map_of BUFFER_TABLE tool = Some f \<Longrightarrow> posts_grow forced st (snd (f env forced arguments st))"
  by (auto simp: BUFFER_TABLE_def intro: tools_grow split: if_splits)

lemma dispatch_grows: "posts_grow forced st (snd (buffer_dispatch env forced tool arguments st))"
proof (cases "map_of BUFFER_TABLE tool")
  case (Some f)
  obtain r st' where f: "f env forced arguments st = (r, st')" by force
  then have "posts_grow forced st st'" using table_grows[OF Some, of forced st env arguments] by simp
  then show ?thesis by (cases r) (simp_all add: buffer_dispatch_def Some f log_grows)
qed (simp add: buffer_dispatch_def log_grows posts_grow_refl)

lemma endpoint_grows: "posts_grow (forces_fixture header) st (snd (buffer_endpoint env header rq st))"
  unfolding buffer_endpoint_def
  by (rule endpoint_effect[where R = "posts_grow (forces_fixture header)"]) (use posts_grow_refl dispatch_grows in \<open>metis snd_conv\<close>)+

text \<open>The state after a list of requests, each with its header.\<close>

definition buffer_run :: "buffer_env \<Rightarrow> (string option \<times> rpc_request) list \<Rightarrow> buffer_state \<Rightarrow> buffer_state" where
  "buffer_run env rqs st = fold (\<lambda>(header, rq) st. snd (buffer_endpoint env header rq st)) rqs st"

definition unforced :: "(string option \<times> rpc_request) list \<Rightarrow> nat" where
  "unforced rqs = length (filter (\<lambda>(header, rq). \<not> forces_fixture header) rqs)"

lemma run_grows:
  "\<exists>new. bs_posts (buffer_run env rqs st) = bs_posts st @ new \<and> length new \<le> unforced rqs \<and> (\<forall>c\<in>set new. draft_only c)"
proof (induction rqs arbitrary: st)
  case Nil
  then show ?case by (simp add: buffer_run_def)
next
  case (Cons x rqs)
  obtain header rq where x: "x = (header, rq)" by force
  let ?st = "snd (buffer_endpoint env header rq st)"
  from endpoint_grows[of header st env rq] obtain a where a: "bs_posts ?st = bs_posts st @ a"
    "length a \<le> (if forces_fixture header then 0 else 1)" "\<forall>c\<in>set a. draft_only c" by (auto simp: posts_grow_def)
  from Cons.IH[of ?st] obtain b where b: "bs_posts (buffer_run env rqs ?st) = bs_posts ?st @ b" "length b \<le> unforced rqs" "\<forall>c\<in>set b. draft_only c"
    by blast
  have "buffer_run env (x # rqs) st = buffer_run env rqs ?st" by (simp add: buffer_run_def x)
  moreover have "unforced (x # rqs) = unforced rqs + (if forces_fixture header then 0 else 1)" by (simp add: unforced_def x)
  ultimately show ?case using a b by (intro exI[of _ "a @ b"]) auto
qed

text \<open>C36: Whatever requests reach mcp-buffer, it sends Buffer only the two queries and the mutation that
creates a post, with the status draft and no further variable; and no more of them than
there are requests without the fixture header.\<close>

theorem buffer_writes_only_drafts:
  "let posts = bs_posts (buffer_run env rqs \<lparr>bs_posts = [], bs_log = rows\<rparr>)
   in length posts \<le> unforced rqs \<and> list_all draft_only posts"
  using run_grows[of env rqs "\<lparr>bs_posts = [], bs_log = rows\<rparr>"] by (auto simp: Let_def list_all_iff)

section \<open>The publisher as a client\<close>

text \<open>The request that stands for a call of the publisher; characters are below 256 in the model.\<close>

definition tool_request :: "string \<Rightarrow> (string \<times> json) list \<Rightarrow> rpc_request" where
  "tool_request name arguments =
    \<lparr>rq_id = JInt 1, rq_method = ''tools/call'', rq_params = [(''name'', JStr name), (''arguments'', JObj arguments)]\<rparr>"

definition optional_label :: "string \<Rightarrow> string option \<Rightarrow> (string \<times> json) list" where
  "optional_label k v = (case v of Some s \<Rightarrow> [(k, JStr s)] | None \<Rightarrow> [])"

fun request_of :: "ext_call \<Rightarrow> rpc_request" where
  "request_of (BufferListQueue channel) = tool_request ''list_queue'' [(''channel_id'', JStr channel)]"
| "request_of (BufferCreateDraft channel text utm archetype) =
    tool_request ''create_draft'' ([(''channel_id'', JStr channel), (''text'', JStr (map char_of text))] @
      optional_label ''utm_campaign'' utm @ optional_label ''post_archetype'' archetype)"
| "request_of _ = tool_request [] []"

fun to_buffer :: "ext_call \<Rightarrow> bool" where
  "to_buffer (BufferListQueue channel) = True"
| "to_buffer (BufferCreateDraft channel text utm archetype) = True"
| "to_buffer _ = False"

text \<open>The publisher's calls reach this server, in whatever state it is then.\<close>

definition behind :: "pub_env \<Rightarrow> buffer_env \<Rightarrow> bool" where
  "behind env benv \<longleftrightarrow> (\<forall>calls c. to_buffer c \<longrightarrow>
    (\<exists>st. pv_reply env calls c = Reply 200 (Some (response_json (fst (buffer_endpoint benv None (request_of c) st))))))"

text \<open>The server holds no key, or Buffer answers each POST with an object that has no data, as GraphQL
reports errors.\<close>

definition creates_nothing :: "buffer_env \<Rightarrow> bool" where
  "creates_nothing benv \<longleftrightarrow> \<not> buffer_live benv False \<or>
    (\<forall>posts c. \<exists>kvs. bf_reply benv posts c = Some (Some (JObj kvs)) \<and> jget kvs ''data'' = None)"

lemma not_forced: "\<not> forces_fixture None"
  by (simp add: forces_fixture_def ON_VALUES_def py_strip_def py_lower_def)

lemma live_answer:
  assumes "creates_nothing benv" "buffer_live benv False" "graphql_request benv q vars st = (r, st')"
  shows "\<exists>kvs. r = Inr (JObj kvs) \<and> jget kvs ''data'' = None"
  using assms by (auto simp: creates_nothing_def graphql_request_def Let_def split: option.splits) (metis option.inject option.distinct(1))+

lemma endpoint_tool:
  assumes "map_of BUFFER_TABLE n = Some f" "f benv False (JObj arguments) st = (Inr result, st1)" "arguments \<noteq> []"
  shows "fst (buffer_endpoint benv None (tool_request n arguments) st) = \<lparr>rs_id = JInt 1,
    rs_result = Some (JObj [(''content'', JArr [JObj [(''type'', JStr ''text''), (''text'', JStr (dump_spaced (me_float (bf_env benv)) (JObj result)))]]),
      (''isError'', JBool False), (''structuredContent'', JObj result)]), rs_error = None\<rparr>"
proof -
  have "n \<in> set (map td_name BUFFER_TOOLS)"
    using assms(1) by (auto simp: BUFFER_TABLE_def BUFFER_TOOLS_def split: if_splits)
  then show ?thesis
    using assms by (simp add: buffer_endpoint_def mcp_endpoint_def rpc_handle_def handle_tools_call_def tool_request_def get_or_def
        Let_def not_forced buffer_dispatch_def)
qed

lemma call_answered:
  assumes "behind env benv" "to_buffer c" "request_of c = tool_request n arguments" "arguments \<noteq> []"
    and "\<And>st. \<exists>result st1. map_of BUFFER_TABLE n = Some f \<and> f benv False (JObj arguments) st = (Inr result, st1) \<and> P result"
  shows "\<exists>result. call_tool env c calls = (Inr (JObj result), calls @ [c]) \<and> P result"
proof -
  from assms(1,2) obtain st where r: "pv_reply env calls c = Reply 200 (Some (response_json (fst (buffer_endpoint benv None (request_of c) st))))"
    unfolding behind_def by blast
  from assms(5)[of st] obtain result st1 where f: "map_of BUFFER_TABLE n = Some f" "f benv False (JObj arguments) st = (Inr result, st1)" "P result"
    by blast
  have "pv_reply env calls c = Reply 200 (Some (response_json \<lparr>rs_id = JInt 1,
    rs_result = Some (JObj [(''content'', JArr [JObj [(''type'', JStr ''text''), (''text'', JStr (dump_spaced (me_float (bf_env benv)) (JObj result)))]]),
      (''isError'', JBool False), (''structuredContent'', JObj result)]), rs_error = None\<rparr>))"
    using r endpoint_tool[OF f(1,2) assms(4)] assms(3) by simp
  then show ?thesis using f(3) by (simp add: call_tool_def call_ext_def response_json_def truthy_json_def)
qed

lemma queue_answer:
  assumes "behind env benv" "creates_nothing benv"
  shows "\<exists>n. list_queue_count env calls = (Inr n, calls @ [BufferListQueue (pv_channel env)]) \<and> n \<le> 1"
proof -
  have "\<exists>result st1. map_of BUFFER_TABLE ''list_queue'' = Some tool_list_queue \<and>
      tool_list_queue benv False (JObj [(''channel_id'', JStr channel)]) st = (Inr result, st1) \<and> (\<exists>n \<le> 1. queue_length (JObj result) = Some n)"
    for channel st
  proof (cases "buffer_live benv False")
    case True
    obtain r st' where g: "graphql_request benv LIST_QUEUE_QUERY [(''organizationId'', JStr (buffer_org benv)), (''channelId'', JStr channel)] st = (r, st')"
      by force
    then obtain kvs where "r = Inr (JObj kvs)" "jget kvs ''data'' = None" using live_answer[OF assms(2) True] by blast
    then show ?thesis using True g
      by (simp add: tool_list_queue_def BUFFER_TABLE_def get_or_def queue_length_def from_live_def)
  next
    case False
    then show ?thesis
      by (simp add: tool_list_queue_def BUFFER_TABLE_def queue_length_def posts_count_def from_fixture_def list_queue_fixture_def merged_def)
  qed
  from call_answered[OF assms(1) _ _ _ this, of "BufferListQueue (pv_channel env)" "pv_channel env" calls]
  show ?thesis by (auto simp: list_queue_count_def)
qed

lemma draft_answer:
  assumes "behind env benv" "creates_nothing benv"
  shows "\<exists>j. create_draft env text utm archetype calls = (Inr j,
    calls @ [BufferCreateDraft (pv_channel env) text (if truthy utm then utm else None) (if truthy archetype then archetype else None)])"
proof -
  let ?u = "if truthy utm then utm else None" and ?a = "if truthy archetype then archetype else None"
  let ?args = "[(''channel_id'', JStr (pv_channel env)), (''text'', JStr (map char_of text))] @ optional_label ''utm_campaign'' ?u @ optional_label ''post_archetype'' ?a"
  have "\<exists>result st1. map_of BUFFER_TABLE ''create_draft'' = Some tool_create_draft \<and>
      tool_create_draft benv False (JObj ?args) st = (Inr result, st1) \<and> True" for st
  proof (cases "buffer_live benv False")
    case True
    obtain r st' where g: "graphql_request benv CREATE_DRAFT_MUTATION [(''organizationId'', JStr (buffer_org benv)),
        (''channelId'', get_or ?args ''channel_id'' JNull), (''text'', get_or ?args ''text'' (JStr [])), (''status'', JStr CREATE_DRAFT_STATUS)] st = (r, st')"
      by force
    then obtain kvs where "r = Inr (JObj kvs)" using live_answer[OF assms(2) True] by blast
    then show ?thesis using True g by (simp add: tool_create_draft_def BUFFER_TABLE_def)
  qed (simp add: tool_create_draft_def BUFFER_TABLE_def)
  from call_answered[OF assms(1) _ _ _ this, of "BufferCreateDraft (pv_channel env) text ?u ?a" calls]
  show ?thesis by (auto simp: create_draft_def)
qed


text \<open>A listing that Buffer answers is counted: ten posts in the queue refuse the publish.\<close>

lemma full_queue_refuses:
  assumes "pv_reply env calls (BufferListQueue (pv_channel env)) = Reply 200 (Some (response_json (fst (buffer_endpoint benv None (request_of (BufferListQueue (pv_channel env))) bst))))"
    and "buffer_live benv False" "\<And>c. bf_reply benv (bs_posts bst) c = Some (Some (JObj [(''data'', JObj [(''posts'', JArr ps)])]))"
    and "calls = ps_calls st" "truthy (pv_buffer_url env)" "10 \<le> length ps"
  shows "publish_live env b lookup st = refuse (bound_row b (Some (actual_hash b)) ''rejected'' ''buffer_queue_cap_exceeded'')
    (st\<lparr>ps_calls := calls @ [BufferListQueue (pv_channel env)]\<rparr>)"
proof -
  let ?data = "JObj [(''data'', JObj [(''posts'', JArr ps)])]"
  have "\<exists>st1. tool_list_queue benv False (JObj [(''channel_id'', JStr (pv_channel env))]) bst = (Inr (from_live ?data), st1)"
    using assms(2,3) by (simp add: tool_list_queue_def graphql_request_def Let_def)
  then obtain st1 where t: "tool_list_queue benv False (JObj [(''channel_id'', JStr (pv_channel env))]) bst = (Inr (from_live ?data), st1)" by blast
  have "map_of BUFFER_TABLE ''list_queue'' = Some tool_list_queue" by (simp add: BUFFER_TABLE_def)
  then have "fst (buffer_endpoint benv None (request_of (BufferListQueue (pv_channel env))) bst) = \<lparr>rs_id = JInt 1,
    rs_result = Some (JObj [(''content'', JArr [JObj [(''type'', JStr ''text''), (''text'', JStr (dump_spaced (me_float (bf_env benv)) (JObj (from_live ?data))))]]),
      (''isError'', JBool False), (''structuredContent'', JObj (from_live ?data))]), rs_error = None\<rparr>"
    using endpoint_tool[where n = "''list_queue''" and f = tool_list_queue and benv = benv and st = bst, OF _ t] by simp
  with assms(1) have "list_queue_count env calls = (Inr (length ps), calls @ [BufferListQueue (pv_channel env)])"
    by (simp add: list_queue_count_def call_tool_def call_ext_def response_json_def truthy_json_def from_live_def queue_length_def posts_count_def)
  then show ?thesis using assms(4-6) by (simp add: publish_live_def BUFFER_FREE_TIER_QUEUE_CAP_def)
qed

end
