(* ===== verification/Mcp_Web.thy ===== *)
theory Mcp_Web
  imports Mcp_Server
begin

text \<open>mcp-web (mcp/mcp-web/app): a sliding-window rate limiter, the host of a URL as urllib.parse
reads it, the two allow lists, and the tools fetch_url and probe_url.\<close>

section \<open>The rate limiter\<close>

text \<open>rate_limiter.py: a deque of the times of the admitted calls. The check answers whether the
call is admitted. Instants and the window are in the same unit.\<close>

definition expire_calls :: "int \<Rightarrow> instant \<Rightarrow> instant list \<Rightarrow> instant list" where
  "expire_calls window now calls = dropWhile (\<lambda>t. now - t > window) calls"

definition limiter_check :: "int \<Rightarrow> int \<Rightarrow> instant \<Rightarrow> instant list \<Rightarrow> bool \<times> instant list" where
  "limiter_check max_calls window now calls =
    (let kept = expire_calls window now calls
     in if max_calls \<le> int (length kept) then (False, kept) else (True, kept @ [now]))"

section \<open>Text\<close>

text \<open>str.partition and str.rpartition at one character, each as the parts before and after it;
None when the character is absent.\<close>

fun cut :: "char \<Rightarrow> string \<Rightarrow> (string \<times> string) option" where
  "cut c [] = None"
| "cut c (x # xs) = (if x = c then Some ([], xs) else map_option (\<lambda>(a, b). (x # a, b)) (cut c xs))"

definition before :: "char \<Rightarrow> string \<Rightarrow> string" where
  "before c s = (case cut c s of Some (a, b) \<Rightarrow> a | None \<Rightarrow> s)"

definition after_last :: "char \<Rightarrow> string \<Rightarrow> string" where
  "after_last c s = rev (before c (rev s))"

fun split_at :: "char \<Rightarrow> string \<Rightarrow> string list" where
  "split_at c [] = [[]]"
| "split_at c (x # xs) =
    (if x = c then [] # split_at c xs
     else (case split_at c xs of [] \<Rightarrow> [[x]] | y # ys \<Rightarrow> (x # y) # ys))"

text \<open>str.split() without arguments.\<close>

fun split_blank :: "string \<Rightarrow> string \<Rightarrow> string list" where
  "split_blank w [] = (if w = [] then [] else [rev w])"
| "split_blank w (x # xs) =
    (if py_space x then (if w = [] then split_blank [] xs else rev w # split_blank [] xs) else split_blank (x # w) xs)"

text \<open>s[:n], for a negative n too.\<close>

definition py_take :: "int \<Rightarrow> string \<Rightarrow> string" where
  "py_take n s = (if 0 \<le> n then take (nat n) s else take (length s - nat (- n)) s)"

text \<open>int() of a text: blanks around it, a sign, digits with single underscores between them.\<close>

definition digit_value :: "char \<Rightarrow> nat option" where
  "digit_value c = (let n = of_char c in if 48 \<le> n \<and> n \<le> 57 then Some (n - 48) else None)"

fun digits_value :: "nat \<Rightarrow> string \<Rightarrow> nat option" where
  "digits_value n [] = Some n"
| "digits_value n (c # cs) =
    (case digit_value c of
       Some d \<Rightarrow> digits_value (n * 10 + d) cs
     | None \<Rightarrow> (case cs of d # ds \<Rightarrow> if c = CHR ''_'' \<and> digit_value d \<noteq> None then digits_value n cs else None | [] \<Rightarrow> None))"

definition unsigned_value :: "string \<Rightarrow> nat option" where
  "unsigned_value s = (case s of [] \<Rightarrow> None | c # cs \<Rightarrow> if digit_value c = None then None else digits_value 0 s)"

definition py_int :: "string \<Rightarrow> int option" where
  "py_int s =
    (case py_strip s of
       CHR ''-'' # r \<Rightarrow> map_option (\<lambda>n. - int n) (unsigned_value r)
     | CHR ''+'' # r \<Rightarrow> map_option int (unsigned_value r)
     | r \<Rightarrow> map_option int (unsigned_value r))"

section \<open>The host of a URL\<close>

text \<open>urlsplit up to the network location: leading control characters and blanks go, then tabs and
line ends; a scheme is cut off when it is well-formed.\<close>

definition clean_url :: "string \<Rightarrow> string" where
  "clean_url url =
    filter (\<lambda>c. c \<notin> {CHR 0x09, CHR 0x0A, CHR 0x0D}) (dropWhile (\<lambda>c. (of_char c :: nat) \<le> 32) url)"

definition ascii_letter :: "char \<Rightarrow> bool" where
  "ascii_letter c \<longleftrightarrow> (let n = (of_char c :: nat) in 97 \<le> n \<and> n \<le> 122 \<or> 65 \<le> n \<and> n \<le> 90)"

definition scheme_char :: "char \<Rightarrow> bool" where
  "scheme_char c \<longleftrightarrow> ascii_letter c \<or> digit_value c \<noteq> None \<or> c \<in> {CHR ''+'', CHR ''-'', CHR ''.''}"

definition without_scheme :: "string \<Rightarrow> string" where
  "without_scheme url =
    (case cut (CHR '':'') url of
       Some (a, b) \<Rightarrow> if a \<noteq> [] \<and> ascii_letter (hd url) \<and> list_all scheme_char a then b else url
     | None \<Rightarrow> url)"

definition net_location :: "string \<Rightarrow> string" where
  "net_location url =
    (case without_scheme (clean_url url) of
       CHR ''/'' # CHR ''/'' # r \<Rightarrow> takeWhile (\<lambda>c. c \<notin> {CHR ''/'', CHR ''?'', CHR ''#''}) r
     | _ \<Rightarrow> [])"

text \<open>The check of a bracketed host is an argument: it is ipaddress, and varies with the version of
Python.\<close>

definition brackets_ok :: "(string \<Rightarrow> bool) \<Rightarrow> string \<Rightarrow> bool" where
  "brackets_ok bracket_ok loc \<longleftrightarrow>
    (CHR ''['' \<in> set loc \<longleftrightarrow> CHR '']'' \<in> set loc) \<and> (CHR ''['' \<in> set loc \<longrightarrow> bracket_ok loc)"

text \<open>The property hostname, and its lower(): the zone of an address is lowered by the caller.\<close>

definition host_part :: "string \<Rightarrow> string" where
  "host_part loc =
    (let info = after_last (CHR ''@'') loc
     in case cut (CHR ''['') info of
          Some (a, b) \<Rightarrow> before (CHR '']'') b
        | None \<Rightarrow> before (CHR '':'') info)"

definition url_host :: "(string \<Rightarrow> bool) \<Rightarrow> json \<Rightarrow> mcp_exn + string" where
  "url_host bracket_ok url =
    (case url of
       JStr s \<Rightarrow>
         (if \<not> brackets_ok bracket_ok (net_location s) then Inl (Exn ''ValueError'' ''Invalid IPv6 URL'')
          else Inr (py_lower (host_part (net_location s))))
     | v \<Rightarrow> if jtruth v then Inl (no_attribute v ''decode'') else Inr [])"

section \<open>Environment and state\<close>

text \<open>\<open>wb_get\<close> answers a GET after the ones before it, None when the request fails; \<open>wb_unescape\<close> is
html.unescape, \<open>wb_repr\<close> repr of a text.\<close>

record web_response =
  wr_status :: int
  wr_text :: string
  wr_url :: string
  wr_type :: string

record web_env =
  wb_env :: mcp_env
  wb_get :: "string list \<Rightarrow> string \<Rightarrow> web_response option"
  wb_unescape :: "string \<Rightarrow> string"
  wb_repr :: "string \<Rightarrow> string"
  wb_bracket_ok :: "string \<Rightarrow> bool"
  wb_log_up :: "tool_row list \<Rightarrow> bool"
  wb_max :: int
  wb_window :: int

record web_state =
  ws_gets :: "string list"
  ws_calls :: "instant list"
  ws_log :: "tool_row list"

section \<open>The allow lists\<close>

definition DEFAULT_ALLOWLIST :: string where "DEFAULT_ALLOWLIST = ''example.com,api.example.com''"

definition host_list :: "string \<Rightarrow> string list" where
  "host_list raw = map (\<lambda>h. py_lower (py_strip h)) (filter (\<lambda>h. py_strip h \<noteq> []) (split_at (CHR '','') raw))"

definition web_allowlist :: "web_env \<Rightarrow> string list" where
  "web_allowlist env = host_list (var_or (wb_env env) ''MCP_WEB_ALLOWLIST'' DEFAULT_ALLOWLIST)"

definition probe_allowlist :: "web_env \<Rightarrow> string list" where
  "probe_allowlist env = host_list (var_or (wb_env env) ''MCP_WEB_PROBE_ALLOWLIST'' [])"

definition check_list :: "web_env \<Rightarrow> string list \<Rightarrow> string \<Rightarrow> json \<Rightarrow> mcp_exn option" where
  "check_list env hosts message url =
    (case url_host (wb_bracket_ok env) url of
       Inl e \<Rightarrow> Some e
     | Inr host \<Rightarrow> if host \<in> set hosts then None else Some (Exn ''AllowlistViolation'' (message @ wb_repr env host)))"

definition check_allowlist :: "web_env \<Rightarrow> json \<Rightarrow> mcp_exn option" where
  "check_allowlist env = check_list env (web_allowlist env) ''host not allow-listed: ''"

definition check_probe_allowlist :: "web_env \<Rightarrow> json \<Rightarrow> mcp_exn option" where
  "check_probe_allowlist env = check_list env (probe_allowlist env) ''host not probe-allow-listed: ''"

section \<open>Elements of a page\<close>

text \<open>The regular expressions of probe_url, without backtracking: after the name and a word
boundary the first > ends the tag, and the element ends at the first end tag of the same name.\<close>

definition lowered_prefix :: "string \<Rightarrow> string \<Rightarrow> bool" where
  "lowered_prefix name s \<longleftrightarrow> length name \<le> length s \<and> py_lower (take (length name) s) = py_lower name"

definition tag_named :: "string list \<Rightarrow> string \<Rightarrow> (string \<times> string) option" where
  "tag_named names s =
    (case s of
       CHR ''<'' # r \<Rightarrow>
         (case List.find (\<lambda>n. lowered_prefix n r \<and> (case drop (length n) r of [] \<Rightarrow> True | c # cs \<Rightarrow> \<not> word_char c)) names of
            Some n \<Rightarrow> map_option (\<lambda>(a, rest). (n, rest)) (cut (CHR ''>'') (drop (length n) r))
          | None \<Rightarrow> None)
     | _ \<Rightarrow> None)"

fun until_end :: "string \<Rightarrow> string \<Rightarrow> (string \<times> string) option" where
  "until_end name [] = None"
| "until_end name (c # cs) =
    (if lowered_prefix (''</'' @ name @ ''>'') (c # cs) then Some ([], drop (length name + 3) (c # cs))
     else map_option (\<lambda>(a, b). (c # a, b)) (until_end name cs))"

definition element_at :: "string list \<Rightarrow> string \<Rightarrow> (string \<times> string) option" where
  "element_at names s = (case tag_named names s of Some (n, r) \<Rightarrow> until_end n r | None \<Rightarrow> None)"

lemma cut_shorter: "cut c s = Some (a, b) \<Longrightarrow> length b < length s"
  by (induction s arbitrary: a) (auto split: if_splits)

lemma until_end_shorter: "until_end n s = Some (a, b) \<Longrightarrow> length b \<le> length s"
  by (induction s arbitrary: a) (auto split: if_splits)

lemma element_shorter: "element_at names s = Some (block, rest) \<Longrightarrow> length rest < length s"
  by (auto simp: element_at_def tag_named_def dest!: until_end_shorter cut_shorter split: option.splits list.splits if_splits prod.splits char.splits bool.splits)

function find_elements :: "string list \<Rightarrow> string \<Rightarrow> string list" where
  "find_elements names s =
    (case s of
       [] \<Rightarrow> []
     | c # cs \<Rightarrow> (case element_at names s of
         Some (block, rest) \<Rightarrow> block # find_elements names rest
       | None \<Rightarrow> find_elements names cs))"
  by pat_completeness auto
termination
  by (relation "measure (\<lambda>(names, s). length s)") (auto dest: element_shorter)

function blank_elements :: "string list \<Rightarrow> string \<Rightarrow> string" where
  "blank_elements names s =
    (case s of
       [] \<Rightarrow> []
     | c # cs \<Rightarrow> (case element_at names s of
         Some (block, rest) \<Rightarrow> CHR '' '' # blank_elements names rest
       | None \<Rightarrow> c # blank_elements names cs))"
  by pat_completeness auto
termination
  by (relation "measure (\<lambda>(names, s). length s)") (auto dest: element_shorter)

declare find_elements.simps [simp del] blank_elements.simps [simp del]

fun first_element :: "string list \<Rightarrow> string \<Rightarrow> string option" where
  "first_element names s = (case find_elements names s of [] \<Rightarrow> None | block # rest \<Rightarrow> Some block)"

text \<open>The tags of a text become blanks.\<close>

function blank_tags :: "string \<Rightarrow> string" where
  "blank_tags s =
    (case s of
       [] \<Rightarrow> []
     | c # cs \<Rightarrow> (case if c = CHR ''<'' then cut (CHR ''>'') cs else None of
         Some (a, rest) \<Rightarrow> CHR '' '' # blank_tags rest
       | None \<Rightarrow> c # blank_tags cs))"
  by pat_completeness auto
termination
  by (relation "measure length") (auto dest: cut_shorter split: if_splits)

declare blank_tags.simps [simp del]

text \<open>A CDATA section is replaced by what it holds.\<close>

definition CDATA_OPEN :: string where "CDATA_OPEN = ''<![CDATA[''"

fun until_text :: "string \<Rightarrow> string \<Rightarrow> (string \<times> string) option" where
  "until_text mark [] = None"
| "until_text mark (c # cs) =
    (if starts_with mark (c # cs) then Some ([], drop (length mark) (c # cs))
     else map_option (\<lambda>(a, b). (c # a, b)) (until_text mark cs))"

definition cdata_at :: "string \<Rightarrow> (string \<times> string) option" where
  "cdata_at s = (if starts_with CDATA_OPEN s then until_text '']]>'' (drop (length CDATA_OPEN) s) else None)"

lemma until_text_shorter: "until_text m s = Some (a, b) \<Longrightarrow> length b \<le> length s"
  by (induction s arbitrary: a) (auto split: if_splits)

lemma cdata_shorter: "cdata_at s = Some (a, b) \<Longrightarrow> s \<noteq> [] \<Longrightarrow> length b < length s"
  by (cases s) (auto simp: cdata_at_def CDATA_OPEN_def dest!: until_text_shorter split: if_splits)

function open_cdata :: "string \<Rightarrow> string" where
  "open_cdata s =
    (case s of
       [] \<Rightarrow> []
     | c # cs \<Rightarrow> (case cdata_at s of
         Some (a, rest) \<Rightarrow> a @ open_cdata rest
       | None \<Rightarrow> c # open_cdata cs))"
  by pat_completeness auto
termination
  by (relation "measure length") (auto dest: cdata_shorter)

declare open_cdata.simps [simp del]

definition probe_text :: "web_env \<Rightarrow> string \<Rightarrow> string" where
  "probe_text env raw = join_with '' '' (split_blank [] (wb_unescape env (blank_tags (open_cdata raw))))"

section \<open>Tools\<close>

definition PROBE_SAMPLE_TITLES :: nat where "PROBE_SAMPLE_TITLES = 5"
definition PROBE_BODY_LIMIT :: nat where "PROBE_BODY_LIMIT = 200000"
definition DEFAULT_MAX_BODY_CHARS :: int where "DEFAULT_MAX_BODY_CHARS = 16000"

definition max_body_chars :: "web_env \<Rightarrow> mcp_exn + int" where
  "max_body_chars env =
    (case me_var (wb_env env) ''MCP_WEB_MAX_BODY_CHARS'' of
       None \<Rightarrow> Inr DEFAULT_MAX_BODY_CHARS
     | Some raw \<Rightarrow>
         (if raw = [] then Inr DEFAULT_MAX_BODY_CHARS
          else (case py_int raw of
                  Some n \<Rightarrow> Inr n
                | None \<Rightarrow> Inl (Exn ''ValueError'' (''invalid literal for int() with base 10: '' @ wb_repr env raw)))))"

definition web_live :: "web_env \<Rightarrow> bool \<Rightarrow> bool" where
  "web_live env forced \<longleftrightarrow> flag_enabled (wb_env env) forced ''MCP_WEB_LIVE_MODE''"

type_synonym web_result = "(mcp_exn + (string \<times> json) list) \<times> web_state"

definition web_get :: "web_env \<Rightarrow> string \<Rightarrow> web_state \<Rightarrow> (mcp_exn + web_response) \<times> web_state" where
  "web_get env url st =
    (let st' = st\<lparr>ws_gets := ws_gets st @ [url]\<rparr>
     in case wb_get env (ws_gets st) url of
          None \<Rightarrow> (Inl (Exn ''HTTPError'' ''request failed''), st')
        | Some r \<Rightarrow> (Inr r, st'))"

text \<open>Only a text passes the lists, since no list holds the empty host.\<close>

definition url_text :: "json \<Rightarrow> string" where "url_text url = (case url of JStr s \<Rightarrow> s | _ \<Rightarrow> [])"

definition fetch_url_fixture :: "(string \<times> json) list" where
  "fetch_url_fixture = [(''_synthetic'', JBool True), (''status_code'', JInt 200),
     (''body'', JStr (''SYNTHETIC-TEST-DATA: this is a synthetic fixture response body for mcp-web'' @ [CHR 0x27] @
       ''s fetch_url tool. It contains no real personal or client data (POPIA s72 fixture-mode default, AC-7).''))]"

definition fetch_url :: "web_env \<Rightarrow> bool \<Rightarrow> json \<Rightarrow> web_state \<Rightarrow> web_result" where
  "fetch_url env forced arguments st =
    (case as_dict arguments of
       Inl e \<Rightarrow> (Inl e, st)
     | Inr kvs \<Rightarrow>
         (let url = get_or kvs ''url'' (JStr [])
          in if \<not> web_live env forced then (Inr (merged [(''source'', JStr ''fixture''), (''url'', url)] fetch_url_fixture), st)
             else (case check_allowlist env url of
                     Some e \<Rightarrow> (Inl e, st)
                   | None \<Rightarrow>
                       (case web_get env (url_text url) st of
                          (Inl e, st') \<Rightarrow> (Inl e, st')
                        | (Inr r, st') \<Rightarrow>
                            (case max_body_chars env of
                               Inl e \<Rightarrow> (Inl e, st')
                             | Inr n \<Rightarrow> (Inr [(''source'', JStr ''live''), (''url'', url), (''status_code'', JInt (wr_status r)),
                                 (''body'', JStr (py_take n (wr_text r)))], st'))))))"

definition probe_fixture :: "json \<Rightarrow> (string \<times> json) list" where
  "probe_fixture url =
    [(''source'', JStr ''fixture''), (''url'', url), (''status_code'', JInt 200), (''content_type'', JStr ''application/rss+xml''),
     (''is_feed'', JBool True), (''item_count'', JInt 3), (''extractable_chars'', JInt 512),
     (''sample_titles'', JArr [JStr ''SYNTHETIC-TEST-DATA probe sample title'']), (''byte_length'', JInt 1024)]"

definition probe_items :: "string \<Rightarrow> string list" where
  "probe_items body = find_elements [''item'', ''entry''] body"

definition sample_title :: "web_env \<Rightarrow> string \<Rightarrow> string option" where
  "sample_title env block =
    (case first_element [''title''] block of
       None \<Rightarrow> None
     | Some raw \<Rightarrow> (let title = probe_text env raw in if title = [] then None else Some (take 200 title)))"

definition sample_titles :: "web_env \<Rightarrow> string list \<Rightarrow> string list" where
  "sample_titles env items = List.map_filter (sample_title env) (take PROBE_SAMPLE_TITLES items)"

definition extractable :: "web_env \<Rightarrow> string \<Rightarrow> string" where
  "extractable env body =
    (let items = probe_items body
     in if items = [] then probe_text env (blank_elements [''script'', ''style''] body)
        else join_with '' '' (map (probe_text env) items))"

definition probe_report :: "web_env \<Rightarrow> json \<Rightarrow> web_response \<Rightarrow> (string \<times> json) list" where
  "probe_report env url r =
    (let body = take PROBE_BODY_LIMIT (wr_text r); items = probe_items body
     in [(''source'', JStr ''live''), (''url'', url), (''final_url'', JStr (wr_url r)), (''status_code'', JInt (wr_status r)),
         (''content_type'', JStr (wr_type r)), (''is_feed'', JBool (items \<noteq> [])), (''item_count'', JInt (int (length items))),
         (''extractable_chars'', JInt (int (length (extractable env body)))),
         (''sample_titles'', JArr (map JStr (sample_titles env items))), (''byte_length'', JInt (int (length (wr_text r))))])"

definition probe_url :: "web_env \<Rightarrow> bool \<Rightarrow> json \<Rightarrow> web_state \<Rightarrow> web_result" where
  "probe_url env forced arguments st =
    (case as_dict arguments of
       Inl e \<Rightarrow> (Inl e, st)
     | Inr kvs \<Rightarrow>
         (let url = get_or kvs ''url'' (JStr [])
          in if \<not> web_live env forced then (Inr (probe_fixture url), st)
             else (case check_probe_allowlist env url of
                     Some e \<Rightarrow> (Inl e, st)
                   | None \<Rightarrow>
                       (case web_get env (url_text url) st of
                          (Inl e, st') \<Rightarrow> (Inl e, st')
                        | (Inr r, st') \<Rightarrow> (Inr (probe_report env url r), st')))))"

section \<open>Dispatch\<close>

definition web_log :: "web_env \<Rightarrow> string \<Rightarrow> json \<Rightarrow> string \<Rightarrow> web_state \<Rightarrow> web_state" where
  "web_log env tool arguments outcome st =
    st\<lparr>ws_log := log_best_effort (wb_env env) (wb_log_up env (ws_log st)) ''mcp-web'' tool arguments outcome (ws_log st)\<rparr>"

definition run_web_tool :: "web_env \<Rightarrow> bool \<Rightarrow> string \<Rightarrow> json \<Rightarrow> web_state \<Rightarrow> web_result" where
  "run_web_tool env forced tool arguments st =
    (if tool = ''fetch_url'' then fetch_url env forced arguments st
     else if tool = ''probe_url'' then probe_url env forced arguments st
     else (Inl (Exn ''ValueError'' (''unknown tool: '' @ tool)), st))"

text \<open>The message without the two numbers.\<close>

definition rate_limited :: mcp_exn where "rate_limited = Exn ''RateLimitExceeded'' ''rate limit exceeded''"

definition web_dispatch :: "web_env \<Rightarrow> instant \<Rightarrow> bool \<Rightarrow> string \<Rightarrow> json \<Rightarrow> web_state \<Rightarrow> web_result" where
  "web_dispatch env now forced tool arguments st =
    (case limiter_check (wb_max env) (wb_window env) now (ws_calls st) of
       (False, calls) \<Rightarrow> (Inl rate_limited, web_log env tool arguments ''rate_limited'' (st\<lparr>ws_calls := calls\<rparr>))
     | (True, calls) \<Rightarrow>
         (case run_web_tool env forced tool arguments (st\<lparr>ws_calls := calls\<rparr>) of
            (Inl e, st') \<Rightarrow> (Inl e, web_log env tool arguments (if exn_class e = ''AllowlistViolation'' then ''rejected'' else ''error'') st')
          | (Inr result, st') \<Rightarrow> (Inr result, web_log env tool arguments ''success'' st')))"

definition url_schema :: json where
  "url_schema = JObj [(''type'', JStr ''object''), (''properties'', JObj [(''url'', JObj [(''type'', JStr ''string'')])]),
     (''required'', JArr [JStr ''url''])]"

definition WEB_TOOLS :: "tool_definition list" where
  "WEB_TOOLS =
    [\<lparr>td_name = ''fetch_url'',
      td_description = ''Fetch a URL'' @ [CHR 0x27] @ ''s content. Restricted to an egress allow-list; rate-limited.'', td_schema = url_schema\<rparr>,
     \<lparr>td_name = ''probe_url'',
      td_description = ''Report a candidate source'' @ [CHR 0x27] @ ''s SHAPE for the source-promotion review -- status, content type, feed/item counts, extractable text size and up to five item titles. Never returns the body. Gated by MCP_WEB_PROBE_ALLOWLIST, a separate allowance from the production fetch_url egress list.'',
      td_schema = url_schema\<rparr>]"

definition web_endpoint :: "web_env \<Rightarrow> instant \<Rightarrow> string option \<Rightarrow> rpc_request \<Rightarrow> web_state \<Rightarrow> rpc_response \<times> web_state" where
  "web_endpoint env now = mcp_endpoint (wb_env env) ''mcp-web'' ''0.1.0'' WEB_TOOLS (web_dispatch env now)"

end
