(* ===== verification/Mcp_Web_Props.thy ===== *)
theory Mcp_Web_Props
  imports Mcp_Web
begin

text \<open>What mcp-web fetches, how often, and what a probe tells of a page.\<close>

section \<open>The rate limit\<close>

text \<open>The calls that are admitted when calls come at the given times, with the deque beside them.\<close>

definition limiter_step :: "int \<Rightarrow> int \<Rightarrow> instant \<Rightarrow> instant list \<times> instant list \<Rightarrow> instant list \<times> instant list" where
  "limiter_step max_calls window now s =
    (case limiter_check max_calls window now (fst s) of (ok, calls) \<Rightarrow> (calls, if ok then snd s @ [now] else snd s))"

definition limiter_run :: "int \<Rightarrow> int \<Rightarrow> instant list \<Rightarrow> instant list \<times> instant list" where
  "limiter_run max_calls window ts = fold (limiter_step max_calls window) ts ([], [])"

text \<open>The same over the whole history: a call is admitted when fewer than the maximum of the admitted
calls are not older than the window.\<close>

definition reference_step :: "int \<Rightarrow> int \<Rightarrow> instant \<Rightarrow> instant list \<Rightarrow> instant list" where
  "reference_step max_calls window now admitted =
    (if int (length (filter (\<lambda>t. now - t \<le> window) admitted)) < max_calls then admitted @ [now] else admitted)"

definition reference_run :: "int \<Rightarrow> int \<Rightarrow> instant list \<Rightarrow> instant list" where
  "reference_run max_calls window ts = fold (reference_step max_calls window) ts []"

lemma drop_sorted: "sorted xs \<Longrightarrow> dropWhile (\<lambda>t. now - t > window) xs = filter (\<lambda>t. now - t \<le> window) (xs :: int list)"
proof (induction xs)
  case (Cons x xs)
  show ?case
  proof (cases "now - x > window")
    case False
    with Cons.prems have "\<forall>y\<in>set xs. now - y \<le> window" by auto
    with False show ?thesis by simp
  qed (use Cons in auto)
qed simp

definition limiter_inv :: "int \<Rightarrow> instant \<Rightarrow> instant list \<times> instant list \<Rightarrow> bool" where
  "limiter_inv window now s \<longleftrightarrow>
    sorted (snd s) \<and> (\<forall>t\<in>set (snd s). t \<le> now) \<and>
    (\<forall>later \<ge> now. filter (\<lambda>t. later - t \<le> window) (fst s) = filter (\<lambda>t. later - t \<le> window) (snd s)) \<and> sorted (fst s)"

lemma limiter_inv_step:
  assumes "limiter_inv window now s" "now \<le> later"
  shows "limiter_inv window later (limiter_step max_calls window later s) \<and>
    snd (limiter_step max_calls window later s) = reference_step max_calls window later (snd s)"
proof -
  obtain calls admitted where s: "s = (calls, admitted)" by force
  have same: "filter (\<lambda>t. l - t \<le> window) calls = filter (\<lambda>t. l - t \<le> window) admitted" if "later \<le> l" for l
    using assms that by (simp add: limiter_inv_def s)
  have kept: "expire_calls window later calls = filter (\<lambda>t. later - t \<le> window) admitted"
    using assms(1) same[of later] by (simp add: expire_calls_def drop_sorted limiter_inv_def s)
  have again: "filter (\<lambda>t. l - t \<le> window) (filter (\<lambda>t. later - t \<le> window) admitted) = filter (\<lambda>t. l - t \<le> window) admitted"
    if "later \<le> l" for l
    using that by (auto intro!: filter_cong)
  show ?thesis
    using assms again unfolding s limiter_inv_def limiter_step_def limiter_check_def reference_step_def
    by (auto simp: Let_def kept sorted_append intro!: sorted_filter[where f = "\<lambda>x. x", simplified])
qed

lemma limiter_is_reference:
  assumes "sorted ts"
  shows "limiter_inv window (last (0 # ts)) (limiter_run max_calls window ts) \<or> ts = []"
    and "snd (limiter_run max_calls window ts) = reference_run max_calls window ts"
proof -
  have "(ts = [] \<or> limiter_inv window (last ts) (limiter_run max_calls window ts)) \<and>
      snd (limiter_run max_calls window ts) = reference_run max_calls window ts"
    using assms
  proof (induction ts rule: rev_induct)
    case Nil
    then show ?case by (simp add: limiter_run_def reference_run_def)
  next
    case (snoc x xs)
    let ?s = "limiter_run max_calls window xs"
    have inv: "limiter_inv window (if xs = [] then x else last xs) ?s"
      using snoc by (auto simp: sorted_append limiter_run_def limiter_inv_def)
    have le: "(if xs = [] then x else last xs) \<le> x" using snoc.prems by (auto simp: sorted_append)
    from limiter_inv_step[OF inv le, of max_calls] snoc show ?case
      by (simp add: limiter_run_def reference_run_def sorted_append)
  qed
  then show "limiter_inv window (last (0 # ts)) (limiter_run max_calls window ts) \<or> ts = []"
    and "snd (limiter_run max_calls window ts) = reference_run max_calls window ts" by (auto split: if_splits)
qed

lemma reference_snoc: "reference_run m w (ts @ [x]) = reference_step m w x (reference_run m w ts)"
  by (simp add: reference_run_def)

lemma reference_subset: "set (reference_run m w ts) \<subseteq> set ts"
  by (induction ts rule: rev_induct) (auto simp: reference_snoc reference_step_def, simp add: reference_run_def)

lemma reference_bounded:
  assumes "sorted ts" "0 \<le> m"
  shows "int (length (filter (\<lambda>t. from_time \<le> t \<and> t \<le> from_time + w) (reference_run m w ts))) \<le> m"
  using assms(1)
proof (induction ts rule: rev_induct)
  case Nil
  then show ?case using assms(2) by (simp add: reference_run_def)
next
  case (snoc x xs)
  let ?A = "reference_run m w xs"
  from snoc have ih: "int (length (filter (\<lambda>t. from_time \<le> t \<and> t \<le> from_time + w) ?A)) \<le> m" by (simp add: sorted_append)
  show ?case
  proof (cases "int (length (filter (\<lambda>t. x - t \<le> w) ?A)) < m \<and> from_time \<le> x \<and> x \<le> from_time + w")
    case True
    have "\<forall>t\<in>set ?A. from_time \<le> t \<and> t \<le> from_time + w \<longrightarrow> x - t \<le> w" using True by auto
    then have "length (filter (\<lambda>t. from_time \<le> t \<and> t \<le> from_time + w) ?A) \<le> length (filter (\<lambda>t. x - t \<le> w) ?A)"
      by (induction ?A) (auto simp: length_filter_conv_card intro!: card_mono)
    with True show ?thesis by (simp add: reference_snoc reference_step_def)
  next
    case False
    with ih show ?thesis by (auto simp: reference_snoc reference_step_def)
  qed
qed

text \<open>C38: For calls in the order of the clock, the limiter with its deque admits exactly the calls that
the rule over the whole history admits, and no more than its maximum within any closed window.\<close>

theorem rate_limit_is_sliding_window:
  assumes "sorted ts" "0 \<le> max_calls"
  shows "snd (limiter_run max_calls window ts) = reference_run max_calls window ts \<and>
    int (length (filter (\<lambda>t. from_time \<le> t \<and> t \<le> from_time + window) (snd (limiter_run max_calls window ts)))) \<le> max_calls"
  using limiter_is_reference(2)[OF assms(1)] reference_bounded[OF assms] by simp

section \<open>Egress\<close>

definition list_of_tool :: "web_env \<Rightarrow> string \<Rightarrow> string list" where
  "list_of_tool env tool = (if tool = ''fetch_url'' then web_allowlist env else if tool = ''probe_url'' then probe_allowlist env else [])"

text \<open>A change of the server by a request: its GETs stay, or one more went out, in live mode, to a host
on the list of its tool, after the limiter admitted the call.\<close>

definition earned_get :: "web_env \<Rightarrow> instant \<Rightarrow> bool \<Rightarrow> web_state \<Rightarrow> web_state \<Rightarrow> bool" where
  "earned_get env now forced st st' \<longleftrightarrow> ws_gets st' = ws_gets st \<or>
    (\<exists>url tool host. ws_gets st' = ws_gets st @ [url] \<and> \<not> forced \<and> flag_enabled (wb_env env) False ''MCP_WEB_LIVE_MODE'' \<and>
       url_host (wb_bracket_ok env) (JStr url) = Inr host \<and> host \<noteq> [] \<and> host \<in> set (list_of_tool env tool) \<and>
       limiter_check (wb_max env) (wb_window env) now (ws_calls st) = (True, ws_calls st'))"

lemma no_empty_host: "[] \<notin> set (host_list raw)"
  by (auto simp: host_list_def py_lower_def)

lemma listed_text:
  assumes "check_list env hosts m url = None" "[] \<notin> set hosts"
  shows "\<exists>s host. url = JStr s \<and> url_host (wb_bracket_ok env) url = Inr host \<and> host \<in> set hosts \<and> host \<noteq> []"
  using assms by (cases url) (auto simp: check_list_def url_host_def split: if_splits sum.splits)

lemma live_means: "web_live env forced \<Longrightarrow> \<not> forced \<and> flag_enabled (wb_env env) False ''MCP_WEB_LIVE_MODE''"
  by (auto simp: web_live_def flag_enabled_def)

definition tool_effect :: "web_env \<Rightarrow> bool \<Rightarrow> string \<Rightarrow> web_state \<Rightarrow> web_state \<Rightarrow> bool" where
  "tool_effect env forced tool st st' \<longleftrightarrow> ws_calls st' = ws_calls st \<and> (ws_gets st' = ws_gets st \<or>
    (\<exists>url host. ws_gets st' = ws_gets st @ [url] \<and> web_live env forced \<and>
       url_host (wb_bracket_ok env) (JStr url) = Inr host \<and> host \<noteq> [] \<and> host \<in> set (list_of_tool env tool)))"

lemma web_get_effect: "web_get env url st = (r, st') \<Longrightarrow> ws_calls st' = ws_calls st \<and> ws_gets st' = ws_gets st @ [url]"
  by (auto simp: web_get_def Let_def split: option.splits)

lemma fetch_effect: "tool_effect env forced ''fetch_url'' st (snd (fetch_url env forced arguments st))"
proof (cases "as_dict arguments")
  case (Inr kvs)
  let ?url = "get_or kvs ''url'' (JStr [])"
  show ?thesis
  proof (cases "web_live env forced \<and> check_allowlist env ?url = None")
    case True
    then obtain s host where u: "?url = JStr s" "url_host (wb_bracket_ok env) ?url = Inr host" "host \<in> set (web_allowlist env)" "host \<noteq> []"
      using listed_text no_empty_host unfolding check_allowlist_def web_allowlist_def by metis
    obtain r st' where g: "web_get env s st = (r, st')" by force
    from web_get_effect[OF g] u True have "tool_effect env forced ''fetch_url'' st st'"
      by (auto simp: tool_effect_def list_of_tool_def)
    then show ?thesis using True u(1) g by (auto simp: fetch_url_def Inr Let_def url_text_def split: sum.split)
  next
    case False
    then show ?thesis by (auto simp: fetch_url_def Inr Let_def tool_effect_def split: option.split)
  qed
qed (simp add: fetch_url_def tool_effect_def)

lemma probe_effect: "tool_effect env forced ''probe_url'' st (snd (probe_url env forced arguments st))"
proof (cases "as_dict arguments")
  case (Inr kvs)
  let ?url = "get_or kvs ''url'' (JStr [])"
  show ?thesis
  proof (cases "web_live env forced \<and> check_probe_allowlist env ?url = None")
    case True
    then obtain s host where u: "?url = JStr s" "url_host (wb_bracket_ok env) ?url = Inr host" "host \<in> set (probe_allowlist env)" "host \<noteq> []"
      using listed_text no_empty_host unfolding check_probe_allowlist_def probe_allowlist_def by metis
    obtain r st' where g: "web_get env s st = (r, st')" by force
    from web_get_effect[OF g] u True have "tool_effect env forced ''probe_url'' st st'"
      by (auto simp: tool_effect_def list_of_tool_def)
    then show ?thesis using True u(1) g by (auto simp: probe_url_def Inr Let_def url_text_def split: sum.split)
  next
    case False
    then show ?thesis by (auto simp: probe_url_def Inr Let_def tool_effect_def split: option.split)
  qed
qed (simp add: probe_url_def tool_effect_def)

lemma run_effect: "\<exists>tool'. tool_effect env forced tool' st (snd (run_web_tool env forced tool arguments st))"
  using fetch_effect probe_effect by (fastforce simp: run_web_tool_def tool_effect_def)

lemma web_log_sel: "ws_gets (web_log env tool arguments outcome st) = ws_gets st" "ws_calls (web_log env tool arguments outcome st) = ws_calls st"
  by (simp_all add: web_log_def)

lemma dispatch_effect: "earned_get env now forced st (snd (web_dispatch env now forced tool arguments st))"
proof -
  obtain ok calls where l: "limiter_check (wb_max env) (wb_window env) now (ws_calls st) = (ok, calls)" by force
  show ?thesis
  proof (cases ok)
    case True
    let ?st = "st\<lparr>ws_calls := calls\<rparr>"
    obtain r st' where t: "run_web_tool env forced tool arguments ?st = (r, st')" by force
    from run_effect[of env forced ?st tool arguments] t obtain tool' where e: "tool_effect env forced tool' ?st st'" by auto
    then have "earned_get env now forced st st'"
      using l True live_means[of env forced] by (auto simp: tool_effect_def earned_get_def)
    then show ?thesis using l True t by (cases r) (simp_all add: web_dispatch_def earned_get_def web_log_sel)
  qed (use l in \<open>simp add: web_dispatch_def earned_get_def web_log_sel\<close>)
qed


section \<open>A probe\<close>

definition reported_keys :: "string list" where
  "reported_keys = [''source'', ''url'', ''final_url'', ''status_code'', ''content_type'', ''is_feed'', ''item_count'',
     ''extractable_chars'', ''sample_titles'', ''byte_length'']"

text \<open>What of an answer may hold a text of the page.\<close>

fun shape_only :: "json \<Rightarrow> bool" where
  "shape_only (JBool b) = True"
| "shape_only (JInt i) = True"
| "shape_only _ = False"

lemma sample_title_short: "sample_title env block = Some t \<Longrightarrow> length t \<le> 200"
  by (auto simp: sample_title_def Let_def split: option.splits if_splits)

lemma sample_titles_short: "length (sample_titles env items) \<le> 5 \<and> (\<forall>t\<in>set (sample_titles env items). length t \<le> 200)"
proof -
  have "length (List.map_filter f xs) \<le> length xs" for f :: "string \<Rightarrow> string option" and xs
    by (simp add: List.map_filter_def le_trans[OF length_filter_le])
  from this[of "sample_title env" "take PROBE_SAMPLE_TITLES items"]
  have "length (sample_titles env items) \<le> 5" by (simp add: sample_titles_def PROBE_SAMPLE_TITLES_def)
  then show ?thesis using sample_title_short by (auto simp: sample_titles_def List.map_filter_def)
qed

text \<open>C0: A live probe answers with counts, flags, the address and the content type, and of the page
itself with at most five titles of at most 200 characters.\<close>

theorem probe_shows_no_body:
  "map fst (probe_report env url r) = reported_keys \<and>
    (\<exists>titles. jget (probe_report env url r) ''sample_titles'' = Some (JArr (map JStr titles)) \<and> length titles \<le> 5 \<and>
       list_all (\<lambda>t. length t \<le> 200) titles) \<and>
    list_all (\<lambda>k. pred_option shape_only (jget (probe_report env url r) k))
      [''status_code'', ''is_feed'', ''item_count'', ''extractable_chars'', ''byte_length''] \<and>
    jget (probe_report env url r) ''url'' = Some url \<and> jget (probe_report env url r) ''final_url'' = Some (JStr (wr_url r)) \<and>
    jget (probe_report env url r) ''content_type'' = Some (JStr (wr_type r)) \<and> jget (probe_report env url r) ''source'' = Some (JStr ''live'')"
  using sample_titles_short[of env] by (auto simp: probe_report_def reported_keys_def Let_def list_all_iff)

end
