(* ===== verification/Mcp_Canva.thy ===== *)
theory Mcp_Canva
  imports Mcp_Server
begin

text \<open>mcp-canva (mcp/mcp-canva/app): access tokens from a rotating refresh token, autofill jobs of a
brand template, and exports. A tool is a program over the state of the server: the calls so far, the
rotated refresh token of the process, and the log.\<close>

section \<open>State\<close>

text \<open>A call of the Connect API with its Authorization header, or an exchange of a refresh token.\<close>

datatype canva_call =
    Canva_Api string string "json option" string
  | Canva_Token "(string \<times> json) list"

record canva_env =
  cv_env :: mcp_env
  cv_reply :: "canva_call list \<Rightarrow> canva_call \<Rightarrow> json option option"
  cv_log_up :: "tool_row list \<Rightarrow> bool"

record canva_state =
  cs_calls :: "canva_call list"
  cs_rotated :: json
  cs_log :: "tool_row list"

type_synonym 'a canva = "canva_state \<Rightarrow> (mcp_exn + 'a) \<times> canva_state"

definition cv_return :: "'a \<Rightarrow> 'a canva" where "cv_return a st = (Inr a, st)"

definition cv_raise :: "mcp_exn \<Rightarrow> 'a canva" where "cv_raise e st = (Inl e, st)"

definition cv_lift :: "mcp_exn + 'a \<Rightarrow> 'a canva" where "cv_lift r st = (r, st)"

definition cv_bind :: "'a canva \<Rightarrow> ('a \<Rightarrow> 'b canva) \<Rightarrow> 'b canva" where
  "cv_bind m f st = (case m st of (Inl e, st') \<Rightarrow> (Inl e, st') | (Inr a, st') \<Rightarrow> f a st')"

text \<open>try ... except Exception.\<close>

definition cv_try :: "'a canva \<Rightarrow> (mcp_exn + 'a) canva" where
  "cv_try m st = (case m st of (r, st') \<Rightarrow> (Inr r, st'))"

definition cv_call :: "canva_env \<Rightarrow> canva_call \<Rightarrow> json canva" where
  "cv_call env c st =
    (let st' = st\<lparr>cs_calls := cs_calls st @ [c]\<rparr>
     in case cv_reply env (cs_calls st) c of
          None \<Rightarrow> (Inl (Exn ''HTTPError'' ''request failed''), st')
        | Some None \<Rightarrow> (Inl (Exn ''JSONDecodeError'' ''no JSON''), st')
        | Some (Some j) \<Rightarrow> (Inr j, st'))"

section \<open>Tokens\<close>

definition AUTOFILL_POLL_ATTEMPTS :: nat where "AUTOFILL_POLL_ATTEMPTS = 6"

definition opt_text :: "string option \<Rightarrow> json" where
  "opt_text v = (case v of Some s \<Rightarrow> JStr s | None \<Rightarrow> JNull)"

definition client_credentials :: "canva_env \<Rightarrow> bool \<Rightarrow> string option \<times> string option" where
  "client_credentials env forced =
    (resolve_secret (cv_env env) forced ''CANVA_CLIENT_ID'' (Some ''canva-client-id''),
     resolve_secret (cv_env env) forced ''CANVA_CLIENT_SECRET'' (Some ''canva-client-secret''))"

definition refresh_token :: "canva_env \<Rightarrow> bool \<Rightarrow> canva_state \<Rightarrow> json" where
  "refresh_token env forced st =
    (if jtruth (cs_rotated st) then cs_rotated st
     else opt_text (resolve_secret (cv_env env) forced ''CANVA_REFRESH_TOKEN'' (Some ''canva-refresh-token'')))"

text \<open>The exchange; JNull is None. The answer is read outside of the try block.\<close>

definition exchange_refresh_token :: "canva_env \<Rightarrow> bool \<Rightarrow> json canva" where
  "exchange_refresh_token env forced st =
    (let (client_id, client_secret) = client_credentials env forced; token = refresh_token env forced st
     in if \<not> (truthy client_id \<and> truthy client_secret \<and> jtruth token) then (Inr JNull, st)
        else (case cv_call env (Canva_Token [(''grant_type'', JStr ''refresh_token''), (''refresh_token'', token),
                   (''client_id'', opt_text client_id), (''client_secret'', opt_text client_secret)]) st of
                (Inl e, st') \<Rightarrow> (Inr JNull, st')
              | (Inr payload, st') \<Rightarrow>
                  (case as_dict payload of
                     Inl e \<Rightarrow> (Inl e, st')
                   | Inr kvs \<Rightarrow>
                       (if \<not> jtruth (get_or kvs ''access_token'' JNull) then (Inr JNull, st')
                        else (Inr (get_or kvs ''access_token'' JNull),
                              if jtruth (get_or kvs ''refresh_token'' JNull) \<and> get_or kvs ''refresh_token'' JNull \<noteq> token
                              then st'\<lparr>cs_rotated := get_or kvs ''refresh_token'' JNull\<rparr> else st')))))"

definition access_token :: "canva_env \<Rightarrow> bool \<Rightarrow> json canva" where
  "access_token env forced =
    (case me_var (cv_env env) ''CANVA_ACCESS_TOKEN'' of
       Some direct \<Rightarrow> if direct = [] then exchange_refresh_token env forced else cv_return (JStr direct)
     | None \<Rightarrow> exchange_refresh_token env forced)"

definition canva_live :: "canva_env \<Rightarrow> bool \<Rightarrow> bool canva" where
  "canva_live env forced =
    (let (client_id, client_secret) = client_credentials env forced
     in if \<not> (truthy client_id \<and> truthy client_secret) then cv_return False
        else cv_bind (access_token env forced) (\<lambda>t. cv_return (jtruth t)))"

section \<open>The Connect API\<close>

text \<open>\<open>given\<close> is the access token of the caller, JNull when it has none. The path is appended to
CANVA_API_URL.\<close>

definition api_request :: "canva_env \<Rightarrow> bool \<Rightarrow> string \<Rightarrow> string \<Rightarrow> json option \<Rightarrow> json \<Rightarrow> json canva" where
  "api_request env forced verb path body given =
    cv_bind (if given \<noteq> JNull then cv_return given else access_token env forced) (\<lambda>token.
    cv_call env (Canva_Api verb path body (''Bearer '' @ str_value (cv_env env) token)))"

definition FILENAME_SUFFIXES :: "string list" where
  "FILENAME_SUFFIXES = [''.png'', ''.jpg'', ''.jpeg'', ''.gif'', ''.webp'', ''.svg'', ''.pdf'']"

definition text_ends :: "string \<Rightarrow> string \<Rightarrow> bool" where
  "text_ends s suffix \<longleftrightarrow> length suffix \<le> length s \<and> drop (length s - length suffix) s = suffix"

definition looks_like_a_canva_asset_id :: "string \<Rightarrow> bool" where
  "looks_like_a_canva_asset_id v \<longleftrightarrow> \<not> (\<exists>suffix\<in>set FILENAME_SUFFIXES. text_ends (py_lower v) suffix)"

definition IMAGE_COLUMNS :: "string list" where "IMAGE_COLUMNS = [''image_ref'']"
definition MANIFEST_TEMPLATE_COLUMN :: string where "MANIFEST_TEMPLATE_COLUMN = ''brand_template_id''"
definition AUTOFILL_TYPE_BRAND_TEMPLATE :: string where "AUTOFILL_TYPE_BRAND_TEMPLATE = ''create_from_brand_template''"

text \<open>The names of the fields of a template with their types.\<close>

definition field_types :: "json \<Rightarrow> (string \<times> string) list" where
  "field_types dataset =
    (case dataset of
       JObj fs \<Rightarrow> List.map_filter (\<lambda>(name, spec). case spec of
           JObj kvs \<Rightarrow> (case jget kvs ''type'' of Some (JStr ty) \<Rightarrow> Some (name, ty) | _ \<Rightarrow> None)
         | _ \<Rightarrow> None) fs
     | _ \<Rightarrow> [])"

definition dataset_fields :: "canva_env \<Rightarrow> bool \<Rightarrow> json \<Rightarrow> json \<Rightarrow> (string \<times> string) list canva" where
  "dataset_fields env forced template token =
    cv_bind (cv_try (api_request env forced ''GET'' (''/brand-templates/'' @ str_value (cv_env env) template @ ''/dataset'') None token)) (\<lambda>r.
    case r of
      Inl e \<Rightarrow> cv_return []
    | Inr payload \<Rightarrow> cv_bind (cv_lift (as_dict payload)) (\<lambda>kvs. cv_return (field_types (get_or kvs ''dataset'' JNull))))"

text \<open>One row: the typed value of each field that the template declares, and the names of the image
fields that are left out.\<close>

definition is_blank :: "json option \<Rightarrow> bool" where
  "is_blank v = (case v of None \<Rightarrow> True | Some JNull \<Rightarrow> True | Some (JStr []) \<Rightarrow> True | Some _ \<Rightarrow> False)"

fun autofill_data :: "mcp_env \<Rightarrow> (string \<times> json) list \<Rightarrow> (string \<times> string) list \<Rightarrow> (string \<times> json) list \<times> string list" where
  "autofill_data env row [] = ([], [])"
| "autofill_data env row ((name, ty) # fs) =
    (let (data, skipped) = autofill_data env row fs
     in if is_blank (jget row name) then (data, skipped)
        else (let v = str_value env (the (jget row name))
              in if ty = ''image'' \<or> name \<in> set IMAGE_COLUMNS
                 then (if looks_like_a_canva_asset_id v
                       then ((name, JObj [(''type'', JStr ''image''), (''asset_id'', JStr v)]) # data, skipped)
                       else (data, name # skipped))
                 else ((name, JObj [(''type'', JStr ''text''), (''text'', JStr v)]) # data, skipped)))"

text \<open>(job.get("job") or {}).get(k) or job.get(k).\<close>

definition job_entry :: "string \<Rightarrow> json \<Rightarrow> mcp_exn + json" where
  "job_entry k job =
    (case as_dict job of
       Inl e \<Rightarrow> Inl e
     | Inr kvs \<Rightarrow>
         (case as_dict (if jtruth (get_or kvs ''job'' JNull) then get_or kvs ''job'' JNull else JObj []) of
            Inl e \<Rightarrow> Inl e
          | Inr inner \<Rightarrow> Inr (if jtruth (get_or inner k JNull) then get_or inner k JNull else get_or kvs k JNull)))"

fun poll_job :: "canva_env \<Rightarrow> bool \<Rightarrow> json \<Rightarrow> json \<Rightarrow> nat \<Rightarrow> json \<Rightarrow> json canva" where
  "poll_job env forced job_id token 0 latest = cv_return latest"
| "poll_job env forced job_id token (Suc n) latest =
    cv_bind (cv_lift (job_entry ''status'' latest)) (\<lambda>status.
    if status = JStr ''success'' \<or> status = JStr ''failed'' then cv_return latest
    else cv_bind (cv_try (api_request env forced ''GET'' (''/autofills/'' @ str_value (cv_env env) job_id) None token)) (\<lambda>r.
      case r of Inl e \<Rightarrow> cv_return latest | Inr j \<Rightarrow> poll_job env forced job_id token n j))"

definition await_autofill_job :: "canva_env \<Rightarrow> bool \<Rightarrow> json \<Rightarrow> json \<Rightarrow> json canva" where
  "await_autofill_job env forced token job =
    cv_bind (cv_lift (job_entry ''id'' job)) (\<lambda>job_id.
    if \<not> jtruth job_id then cv_return job else poll_job env forced job_id token AUTOFILL_POLL_ATTEMPTS job)"

definition submit_autofill :: "canva_env \<Rightarrow> bool \<Rightarrow> json \<Rightarrow> json \<Rightarrow> (string \<times> json) list \<Rightarrow> json canva" where
  "submit_autofill env forced token template data =
    cv_bind (api_request env forced ''POST'' ''/autofills''
      (Some (JObj [(''type'', JStr AUTOFILL_TYPE_BRAND_TEMPLATE), (''brand_template_id'', template), (''data'', JObj data)])) token)
      (await_autofill_job env forced token)"

section \<open>Tools\<close>

text \<open>The files of mcp-canva/fixtures.\<close>

definition create_fixture :: "(string \<times> json) list" where
  "create_fixture = [(''_synthetic'', JBool True), (''design'', JObj [(''id'', JStr ''SYNTH-DESIGN-0001''),
     (''title'', JStr ''SYNTHETIC-TEST-DATA example design''), (''template_id'', JStr ''SYNTH-TEMPLATE-0001'')])]"

definition bulk_fixture :: "(string \<times> json) list" where
  "bulk_fixture = [(''_synthetic'', JBool True), (''job'', JObj [(''id'', JStr ''SYNTH-BULK-JOB-0001''),
     (''template_id'', JStr ''SYNTH-TEMPLATE-0001''), (''designs_created'', JInt 2)])]"

definition export_fixture :: "(string \<times> json) list" where
  "export_fixture = [(''_synthetic'', JBool True), (''export'', JObj [(''design_id'', JStr ''SYNTH-DESIGN-0001''),
     (''url'', JStr ''https://example.com/SYNTHETIC-TEST-DATA/synth-export.png''), (''format'', JStr ''png'')])]"

definition required_id :: "string \<Rightarrow> (string \<times> json) list \<Rightarrow> mcp_exn + json" where
  "required_id k kvs =
    (let v = get_or kvs k JNull in if jtruth v then Inr v else Inl (Exn ''ValueError'' (k @ '' is required'')))"

definition sorted_names :: "string list \<Rightarrow> json" where
  "sorted_names names = JArr (map (\<lambda>n. JStr (fst n)) (sort_kvs (map (\<lambda>n. (n, ())) (remdups names))))"

definition of_source :: "string \<Rightarrow> (string \<times> json) list \<Rightarrow> (string \<times> json) list" where
  "of_source source entries = merged [(''source'', JStr source)] entries"

definition create_live :: "canva_env \<Rightarrow> bool \<Rightarrow> json \<Rightarrow> (string \<times> json) list \<Rightarrow> (string \<times> json) list canva" where
  "create_live env forced template kvs =
    cv_bind (access_token env forced) (\<lambda>token.
    cv_bind (dataset_fields env forced template token) (\<lambda>fs.
    let row = filter (\<lambda>(k, v). k \<noteq> ''template_id'' \<and> k \<noteq> ''title'') kvs;
        (data, skipped) = (if fs \<noteq> [] then autofill_data (cv_env env) row fs else ([], []))
    in cv_bind (submit_autofill env forced token template data) (\<lambda>result.
       cv_return [(''source'', JStr ''live''), (''result'', result), (''skipped_image_fields'', sorted_names skipped)])))"

definition create_design_from_template :: "canva_env \<Rightarrow> bool \<Rightarrow> json \<Rightarrow> (string \<times> json) list canva" where
  "create_design_from_template env forced arguments =
    cv_bind (cv_lift (as_dict arguments)) (\<lambda>kvs.
    cv_bind (cv_lift (required_id ''template_id'' kvs)) (\<lambda>template.
    cv_bind (canva_live env forced) (\<lambda>live.
    if \<not> live then cv_return (of_source ''fixture'' create_fixture) else create_live env forced template kvs)))"

text \<open>The rows of the loop: what is no object is skipped; a value that cannot be iterated raises.\<close>

definition manifest_rows :: "json \<Rightarrow> mcp_exn + (string \<times> json) list list" where
  "manifest_rows rows =
    (case rows of
       JArr xs \<Rightarrow> Inr (List.map_filter (\<lambda>x. case x of JObj kvs \<Rightarrow> Some kvs | _ \<Rightarrow> None) xs)
     | JStr _ \<Rightarrow> Inr []
     | JObj _ \<Rightarrow> Inr []
     | v \<Rightarrow> Inl (Exn ''TypeError'' (quoted (type_name v) @ '' object is not iterable'')))"

fun submit_rows ::
    "canva_env \<Rightarrow> bool \<Rightarrow> json \<Rightarrow> json \<Rightarrow> (string \<times> string) list \<Rightarrow> (string \<times> json) list list \<Rightarrow> (json list \<times> string list) canva" where
  "submit_rows env forced token template fs [] = cv_return ([], [])"
| "submit_rows env forced token template fs (row # rows) =
    (let (data, skipped) = autofill_data (cv_env env) (filter (\<lambda>(k, v). k \<noteq> MANIFEST_TEMPLATE_COLUMN) row) fs
     in cv_bind (submit_autofill env forced token template data) (\<lambda>job.
        cv_bind (submit_rows env forced token template fs rows) (\<lambda>(jobs, others).
        cv_return (job # jobs, skipped @ others))))"

definition bulk_live :: "canva_env \<Rightarrow> bool \<Rightarrow> json \<Rightarrow> json \<Rightarrow> (string \<times> json) list canva" where
  "bulk_live env forced template rows =
    cv_bind (access_token env forced) (\<lambda>token.
    cv_bind (dataset_fields env forced template token) (\<lambda>fs.
    if fs = [] then cv_raise (Exn ''ValueError'' (''brand template '' @ str_value (cv_env env) template @
      '' exposed no autofill dataset; cannot map manifest columns to Canva data fields''))
    else cv_bind (cv_lift (manifest_rows rows)) (\<lambda>manifest.
      cv_bind (submit_rows env forced token template fs manifest) (\<lambda>(jobs, skipped).
      cv_return [(''source'', JStr ''live''),
        (''result'', JObj [(''jobs'', JArr jobs), (''designs_requested'', JInt (int (length jobs)))]),
        (''skipped_image_fields'', sorted_names skipped)]))))"

definition bulk_create_from_csv :: "canva_env \<Rightarrow> bool \<Rightarrow> json \<Rightarrow> (string \<times> json) list canva" where
  "bulk_create_from_csv env forced arguments =
    cv_bind (cv_lift (as_dict arguments)) (\<lambda>kvs.
    cv_bind (cv_lift (required_id ''template_id'' kvs)) (\<lambda>template.
    cv_bind (canva_live env forced) (\<lambda>live.
    if \<not> live then cv_return (of_source ''fixture'' bulk_fixture)
    else bulk_live env forced template (get_or kvs ''rows'' (JArr [])))))"

definition export_design :: "canva_env \<Rightarrow> bool \<Rightarrow> json \<Rightarrow> (string \<times> json) list canva" where
  "export_design env forced arguments =
    cv_bind (cv_lift (as_dict arguments)) (\<lambda>kvs.
    cv_bind (cv_lift (required_id ''design_id'' kvs)) (\<lambda>design.
    cv_bind (canva_live env forced) (\<lambda>live.
    if \<not> live then cv_return (of_source ''fixture'' export_fixture)
    else cv_bind (api_request env forced ''POST'' (''/designs/'' @ str_value (cv_env env) design @ ''/export'')
           (Some (JObj [(''format'', JObj [(''type'', JStr ''png'')])])) JNull) (\<lambda>data.
         cv_return [(''source'', JStr ''live''), (''result'', data)]))))"

definition smoke_read_check :: "canva_env \<Rightarrow> (string \<times> json) list canva" where
  "smoke_read_check env =
    cv_bind (canva_live env False) (\<lambda>live.
    if \<not> live then cv_return [(''source'', JStr ''fixture''), (''designs'', JArr [])]
    else cv_bind (api_request env False ''GET'' ''/designs'' None JNull) (\<lambda>data.
         cv_return [(''source'', JStr ''live''), (''result'', data)]))"

section \<open>Dispatch\<close>

definition CANVA_TABLE :: "(string \<times> (canva_env \<Rightarrow> bool \<Rightarrow> json \<Rightarrow> (string \<times> json) list canva)) list" where
  "CANVA_TABLE = [(''create_design_from_template'', create_design_from_template), (''bulk_create_from_csv'', bulk_create_from_csv),
     (''export_design'', export_design)]"

definition canva_log :: "canva_env \<Rightarrow> string \<Rightarrow> json \<Rightarrow> string \<Rightarrow> canva_state \<Rightarrow> canva_state" where
  "canva_log env tool arguments outcome st =
    st\<lparr>cs_log := log_best_effort (cv_env env) (cv_log_up env (cs_log st)) ''mcp-canva'' tool arguments outcome (cs_log st)\<rparr>"

definition canva_dispatch :: "canva_env \<Rightarrow> bool \<Rightarrow> string \<Rightarrow> json \<Rightarrow> (string \<times> json) list canva" where
  "canva_dispatch env forced tool arguments st =
    (case map_of CANVA_TABLE tool of
       None \<Rightarrow> (Inl (Exn ''ValueError'' (''unknown tool: '' @ tool)), canva_log env tool arguments ''error'' st)
     | Some f \<Rightarrow>
         (case f env forced arguments st of
            (Inl e, st') \<Rightarrow> (Inl e, canva_log env tool arguments ''error'' st')
          | (Inr result, st') \<Rightarrow> (Inr result, canva_log env tool arguments ''success'' st')))"

definition schema_of :: "(string \<times> json) list \<Rightarrow> string list \<Rightarrow> json" where
  "schema_of properties required =
    JObj [(''type'', JStr ''object''), (''properties'', JObj properties), (''required'', JArr (map JStr required))]"

definition typed_as :: "string \<Rightarrow> json" where "typed_as t = JObj [(''type'', JStr t)]"

definition rows_schema :: json where
  "rows_schema = JObj [(''type'', JStr ''array''), (''items'', typed_as ''object''),
     (''description'', JStr ''One object per CSV row of autofill data.'')]"

definition CANVA_TOOLS :: "tool_definition list" where
  "CANVA_TOOLS =
    [\<lparr>td_name = ''create_design_from_template'',
      td_description = ''Create a new Canva design from a brand template. template_id is always required '' @ long_dash @
        '' no blank/free-form design creation is possible through this tool.'',
      td_schema = schema_of [(''template_id'', typed_as ''string''), (''title'', typed_as ''string'')] [''template_id'']\<rparr>,
     \<lparr>td_name = ''bulk_create_from_csv'',
      td_description = ''Bulk-create designs from a brand template by autofilling one row of CSV-shaped data per design. template_id is always required, same as create_design_from_template.'',
      td_schema = schema_of [(''template_id'', typed_as ''string''), (''rows'', rows_schema)] [''template_id'', ''rows'']\<rparr>,
     \<lparr>td_name = ''export_design'',
      td_description = ''Export an already-created Canva design to a file format (e.g. PNG).'',
      td_schema = schema_of [(''design_id'', typed_as ''string'')] [''design_id'']\<rparr>]"

definition canva_endpoint :: "canva_env \<Rightarrow> string option \<Rightarrow> rpc_request \<Rightarrow> canva_state \<Rightarrow> rpc_response \<times> canva_state" where
  "canva_endpoint env = mcp_endpoint (cv_env env) ''mcp-canva'' ''0.1.0'' CANVA_TOOLS (canva_dispatch env)"

end
