(* ===== verification/Mcp_Canva_Props.thy ===== *)
theory Mcp_Canva_Props
  imports Mcp_Canva
begin

text \<open>The calls that a tool of mcp-canva makes: which they are, and how many.\<close>

section \<open>Programs that add calls\<close>

text \<open>The program adds at most \<open>n\<close> calls, and each of them satisfies \<open>P\<close>.\<close>

definition adds :: "(canva_call \<Rightarrow> bool) \<Rightarrow> nat \<Rightarrow> 'a canva \<Rightarrow> bool" where
  "adds P n m \<longleftrightarrow> (\<forall>st. \<exists>new. cs_calls (snd (m st)) = cs_calls st @ new \<and> length new \<le> n \<and> list_all P new)"

named_theorems adds_rules \<open>how many calls a program adds\<close>

lemma addsE:
  assumes "adds P n m" "m st = (r, st')"
  obtains new where "cs_calls st' = cs_calls st @ new" "length new \<le> n" "list_all P new"
  using assms unfolding adds_def by (metis snd_conv)

lemma adds_pure [adds_rules]: "adds P 0 (cv_return a)" "adds P 0 (cv_raise e)" "adds P 0 (cv_lift x)"
  by (simp_all add: adds_def cv_return_def cv_raise_def cv_lift_def)

lemma adds_bind:
  assumes "adds P n m" and "\<And>a. adds P k (f a)"
  shows "adds P (n + k) (cv_bind m f)"
  unfolding adds_def
proof
  fix st
  obtain r st1 where m: "m st = (r, st1)" by force
  then obtain new where new: "cs_calls st1 = cs_calls st @ new" "length new \<le> n" "list_all P new" by (rule addsE[OF assms(1)])
  show "\<exists>new. cs_calls (snd (cv_bind m f st)) = cs_calls st @ new \<and> length new \<le> n + k \<and> list_all P new"
  proof (cases r)
    case (Inr a)
    obtain r2 st2 where f: "f a st1 = (r2, st2)" by force
    then obtain more where "cs_calls st2 = cs_calls st1 @ more" "length more \<le> k" "list_all P more" by (rule addsE[OF assms(2)])
    with new m Inr f show ?thesis by (intro exI[of _ "new @ more"]) (simp add: cv_bind_def)
  qed (use m new in \<open>auto simp: cv_bind_def\<close>)
qed

lemma adds_weaken: "adds P n m \<Longrightarrow> n \<le> k \<Longrightarrow> adds P k m"
  unfolding adds_def by (meson order_trans)

lemma adds_if: "(b \<Longrightarrow> adds P n m) \<Longrightarrow> (\<not> b \<Longrightarrow> adds P n m') \<Longrightarrow> adds P n (if b then m else m')"
  by simp

lemma adds_try: "adds P n m \<Longrightarrow> adds P n (cv_try m)"
  unfolding adds_def cv_try_def by (simp add: split_beta)

lemma adds_call: "P c \<Longrightarrow> adds P 1 (cv_call env c)"
  by (auto simp: adds_def cv_call_def Let_def split: option.split)

section \<open>The parts\<close>

lemma adds_exchange: "(\<And>kvs. P (Canva_Token kvs)) \<Longrightarrow> adds P 1 (exchange_refresh_token env forced)"
  unfolding adds_def exchange_refresh_token_def cv_call_def
  by (auto simp: Let_def split: prod.split option.split sum.split)

lemma adds_access: "(\<And>kvs. P (Canva_Token kvs)) \<Longrightarrow> adds P 1 (access_token env forced)"
  unfolding access_token_def
  by (cases "me_var (cv_env env) ''CANVA_ACCESS_TOKEN''")
    (simp_all del: One_nat_def add: adds_exchange adds_weaken[OF adds_pure(1)])

lemma adds_live: "(\<And>kvs. P (Canva_Token kvs)) \<Longrightarrow> adds P 1 (canva_live env forced)"
proof -
  assume "\<And>kvs. P (Canva_Token kvs)"
  then have "adds P (1 + 0) (cv_bind (access_token env forced) (\<lambda>t. cv_return (jtruth t)))"
    by (intro adds_bind adds_access adds_pure(1))
  then show ?thesis
    by (simp del: One_nat_def add: canva_live_def adds_weaken[OF adds_pure(1)] split: prod.split)
qed

lemma adds_api:
  assumes "\<And>kvs. P (Canva_Token kvs)" "\<And>auth. P (Canva_Api verb path body auth)"
  shows "adds P 2 (api_request env forced verb path body given)"
proof -
  have "adds P 1 (if given \<noteq> JNull then cv_return given else access_token env forced)"
    by (simp del: One_nat_def add: adds_access[where P = P, OF assms(1)] adds_weaken[OF adds_pure(1)])
  then have "adds P (1 + 1) (api_request env forced verb path body given)"
    unfolding api_request_def by (rule adds_bind) (rule adds_call[where P = P, OF assms(2)])
  then show ?thesis by (rule adds_weaken) simp
qed

lemma adds_dataset:
  assumes "\<And>kvs. P (Canva_Token kvs)" "\<And>path auth. P (Canva_Api ''GET'' path None auth)"
  shows "adds P 2 (dataset_fields env forced template token)"
proof -
  have rest: "adds P 0 (case r of Inl e \<Rightarrow> cv_return [] | Inr payload \<Rightarrow> cv_bind (cv_lift (as_dict payload)) (\<lambda>kvs. cv_return (field_types (get_or kvs ''dataset'' JNull))))"
    for r :: "mcp_exn + json"
    using adds_bind[OF adds_pure(3) adds_pure(1)] by (auto split: sum.split intro: adds_pure)
  have "adds P (2 + 0) (dataset_fields env forced template token)"
    unfolding dataset_fields_def by (rule adds_bind[OF adds_try[OF adds_api[where P = P, OF assms]] rest])
  then show ?thesis by simp
qed

lemma adds_poll:
  assumes "\<And>kvs. P (Canva_Token kvs)" "\<And>path auth. P (Canva_Api ''GET'' path None auth)"
  shows "adds P (2 * n) (poll_job env forced job_id token n latest)"
proof (induction n arbitrary: latest)
  case 0
  then show ?case by (simp add: adds_pure)
next
  case (Suc n)
  have rest: "adds P (2 * n) (case r of Inl e \<Rightarrow> cv_return latest | Inr j \<Rightarrow> poll_job env forced job_id token n j)" for r :: "mcp_exn + json"
    using Suc.IH by (auto split: sum.split intro: adds_weaken[OF adds_pure(1)])
  note step = adds_bind[OF adds_try[OF adds_api[where P = P, OF assms]] rest]
  have "adds P (0 + (2 + 2 * n)) (poll_job env forced job_id token (Suc n) latest)"
    unfolding poll_job.simps
    by (rule adds_bind[OF adds_pure(3)], rule adds_if, rule adds_weaken[OF adds_pure(1)], simp, rule step)
  then show ?case by simp
qed

lemma adds_submit:
  assumes "\<And>kvs. P (Canva_Token kvs)" "\<And>path auth. P (Canva_Api ''GET'' path None auth)"
    and "\<And>auth. P (Canva_Api ''POST'' ''/autofills''
      (Some (JObj [(''type'', JStr AUTOFILL_TYPE_BRAND_TEMPLATE), (''brand_template_id'', template), (''data'', JObj data)])) auth)"
  shows "adds P 14 (submit_autofill env forced token template data)"
proof -
  have await: "adds P (0 + 2 * AUTOFILL_POLL_ATTEMPTS) (await_autofill_job env forced token job)" for job
    unfolding await_autofill_job_def
    by (rule adds_bind[OF adds_pure(3)], rule adds_if, rule adds_weaken[OF adds_pure(1)], simp, rule adds_poll[where P = P, OF assms(1,2)])
  from adds_bind[OF adds_api[where P = P, OF assms(1,3)] await] show ?thesis by (simp add: submit_autofill_def AUTOFILL_POLL_ATTEMPTS_def)
qed

section \<open>Templates\<close>

text \<open>The value of a data field: a text, or the asset of an image, which is no file name.\<close>

definition typed_field :: "string \<times> json \<Rightarrow> bool" where
  "typed_field f \<longleftrightarrow>
    (\<exists>v. snd f = JObj [(''type'', JStr ''text''), (''text'', JStr v)]
      \<or> snd f = JObj [(''type'', JStr ''image''), (''asset_id'', JStr v)] \<and> looks_like_a_canva_asset_id v)"

lemma autofill_data_typed: "list_all typed_field (fst (autofill_data env row fs))"
  by (induction env row fs rule: autofill_data.induct) (auto simp: typed_field_def Let_def split: prod.splits)

definition template_call :: "json \<Rightarrow> canva_call \<Rightarrow> bool" where
  "template_call template c \<longleftrightarrow>
    (case c of
       Canva_Token kvs \<Rightarrow> True
     | Canva_Api verb path body auth \<Rightarrow> verb = ''GET'' \<and> body = None \<or>
         verb = ''POST'' \<and> path = ''/autofills'' \<and> (\<exists>data. list_all typed_field data \<and> body = Some (JObj
           [(''type'', JStr ''create_from_brand_template''), (''brand_template_id'', template), (''data'', JObj data)])))"

lemma template_calls: "template_call template (Canva_Token kvs)" "template_call template (Canva_Api ''GET'' path None auth)"
  by (simp_all add: template_call_def)

lemma template_autofill: "list_all typed_field data \<Longrightarrow> template_call template (Canva_Api ''POST'' ''/autofills''
      (Some (JObj [(''type'', JStr AUTOFILL_TYPE_BRAND_TEMPLATE), (''brand_template_id'', template), (''data'', JObj data)])) auth)"
  by (simp add: template_call_def AUTOFILL_TYPE_BRAND_TEMPLATE_def)

lemma adds_submit_typed:
  "list_all typed_field data \<Longrightarrow> adds (template_call template) 14 (submit_autofill env forced token template data)"
  by (rule adds_submit[where P = "template_call template", OF template_calls template_autofill])

lemma adds_create_live: "adds (template_call template) 17 (create_live env forced template kvs)"
proof -
  have rest: "adds (template_call template) 14 (let row = filter (\<lambda>(k, v). k \<noteq> ''template_id'' \<and> k \<noteq> ''title'') kvs;
        (data, skipped) = (if fs \<noteq> [] then autofill_data (cv_env env) row fs else ([], []))
    in cv_bind (submit_autofill env forced token template data) (\<lambda>result.
       cv_return [(''source'', JStr ''live''), (''result'', result), (''skipped_image_fields'', sorted_names skipped)]))" for fs token
  proof -
    have step: "adds (template_call template) (14 + 0) (cv_bind (submit_autofill env forced token template data) (\<lambda>result.
       cv_return [(''source'', JStr ''live''), (''result'', result), (''skipped_image_fields'', sorted_names skipped)]))"
      if "list_all typed_field data" for data skipped
      by (rule adds_bind[OF adds_submit_typed[OF that] adds_pure(1)])
    show ?thesis
      using step autofill_data_typed[of "cv_env env" "filter (\<lambda>(k, v). k \<noteq> ''template_id'' \<and> k \<noteq> ''title'') kvs" fs]
      by (auto simp: Let_def split: prod.split)
  qed
  from adds_bind[OF adds_access[where P = "template_call template", OF template_calls(1)] adds_bind[OF adds_dataset[where P = "template_call template", OF template_calls(1,2)] rest]]
  show ?thesis by (simp add: create_live_def)
qed

lemma adds_rows: "adds (template_call template) (14 * length rows) (submit_rows env forced token template fs rows)"
proof (induction rows)
  case Nil
  then show ?case by (simp add: adds_pure)
next
  case (Cons row rows)
  have "adds (template_call template) (14 * length rows + 0) (cv_bind (submit_rows env forced token template fs rows) (\<lambda>(jobs, others). cv_return (job # jobs, skipped @ others)))"
    for job skipped
    by (rule adds_bind[OF Cons.IH]) (auto split: prod.split intro: adds_pure)
  from adds_bind[OF adds_submit_typed[OF autofill_data_typed] this] show ?case
    by (simp add: Let_def split_beta)
qed

definition row_count :: "json \<Rightarrow> nat" where
  "row_count rows = (case rows of JArr xs \<Rightarrow> length xs | _ \<Rightarrow> 0)"

lemma manifest_length: "manifest_rows rows = Inr manifest \<Longrightarrow> length manifest \<le> row_count rows"
  by (auto simp: manifest_rows_def row_count_def List.map_filter_def split: json.splits intro: le_trans[OF length_filter_le])

lemma adds_bulk_live: "adds (template_call template) (3 + 14 * row_count rows) (bulk_live env forced template rows)"
proof -
  have inner: "adds (template_call template) (14 * row_count rows) (cv_bind (cv_lift (manifest_rows rows)) (\<lambda>manifest.
      cv_bind (submit_rows env forced token template fs manifest) (\<lambda>(jobs, skipped).
      cv_return [(''source'', JStr ''live''),
        (''result'', JObj [(''jobs'', JArr jobs), (''designs_requested'', JInt (int (length jobs)))]),
        (''skipped_image_fields'', sorted_names skipped)])))" for token fs
  proof (cases "manifest_rows rows")
    case (Inl e)
    then show ?thesis by (simp add: adds_def cv_bind_def cv_lift_def)
  next
    case (Inr manifest)
    have "adds (template_call template) (14 * length manifest + 0) (cv_bind (submit_rows env forced token template fs manifest) (\<lambda>(jobs, skipped).
      cv_return [(''source'', JStr ''live''),
        (''result'', JObj [(''jobs'', JArr jobs), (''designs_requested'', JInt (int (length jobs)))]),
        (''skipped_image_fields'', sorted_names skipped)]))"
      by (rule adds_bind[OF adds_rows]) (auto split: prod.split intro: adds_pure)
    then have "adds (template_call template) (14 * row_count rows) (cv_bind (submit_rows env forced token template fs manifest) (\<lambda>(jobs, skipped).
      cv_return [(''source'', JStr ''live''),
        (''result'', JObj [(''jobs'', JArr jobs), (''designs_requested'', JInt (int (length jobs)))]),
        (''skipped_image_fields'', sorted_names skipped)]))"
      by (rule adds_weaken) (use manifest_length[OF Inr] in simp)
    then show ?thesis by (simp add: Inr adds_def cv_bind_def[of "cv_lift _"] cv_lift_def)
  qed
  have "adds (template_call template) (1 + (2 + 14 * row_count rows)) (bulk_live env forced template rows)"
    unfolding bulk_live_def
    by (rule adds_bind[OF adds_access[where P = "template_call template", OF template_calls(1)]], rule adds_bind[OF adds_dataset[where P = "template_call template", OF template_calls(1,2)]], rule adds_if,
        rule adds_weaken[OF adds_pure(2)], simp, rule inner)
  then show ?thesis by (rule adds_weaken) simp
qed

section \<open>The tools\<close>

definition template_of :: "(string \<times> json) list \<Rightarrow> json" where
  "template_of kvs = get_or kvs ''template_id'' JNull"

lemma adds_lifted: "adds P n (f a) \<Longrightarrow> adds P n (cv_bind (cv_lift (Inr a)) f)"
  by (simp add: adds_def cv_bind_def cv_lift_def)

lemma canva_live_forced: "canva_live env True = cv_return False"
  by (simp add: canva_live_def client_credentials_def forced_resolves_nothing)

lemma no_template: "\<not> jtruth (template_of kvs) \<Longrightarrow> adds P 0 (cv_bind (cv_lift (required_id ''template_id'' kvs)) f)"
  by (simp add: adds_def cv_bind_def cv_lift_def required_id_def Let_def template_of_def)

lemma forced_template:
  "adds P 0 (cv_bind (cv_lift (required_id ''template_id'' kvs)) (\<lambda>t. cv_bind (canva_live env True) (\<lambda>live.
     if \<not> live then cv_return a else f t)))"
  by (simp add: adds_def cv_bind_def cv_lift_def cv_return_def canva_live_forced required_id_def Let_def)

lemma template_tool:
  assumes "adds (template_call (template_of kvs)) n (f (template_of kvs))"
  shows "adds (template_call (template_of kvs)) (1 + n)
    (cv_bind (cv_lift (required_id ''template_id'' kvs)) (\<lambda>t. cv_bind (canva_live env forced) (\<lambda>live.
     if \<not> live then cv_return a else f t)))"
proof (cases "jtruth (template_of kvs)")
  case True
  have "adds (template_call (template_of kvs)) (1 + n) (cv_bind (canva_live env forced) (\<lambda>live.
     if \<not> live then cv_return a else f (template_of kvs)))"
    by (rule adds_bind[OF adds_live[where P = "template_call (template_of kvs)", OF template_calls(1)]],
        rule adds_if, rule adds_weaken[OF adds_pure(1)], simp, simp add: assms)
  moreover have "required_id ''template_id'' kvs = Inr (template_of kvs)"
    using True by (simp add: required_id_def template_of_def Let_def)
  ultimately show ?thesis by (simp add: adds_lifted)
qed (auto intro: adds_weaken[OF no_template])

lemma adds_create:
  "adds (template_call (template_of kvs)) 18 (create_design_from_template env forced (JObj kvs))"
proof -
  have "adds (template_call (template_of kvs)) (1 + 17) (create_design_from_template env forced (JObj kvs))"
    unfolding create_design_from_template_def
    by (simp only: as_dict.simps) (rule adds_lifted, rule template_tool, rule adds_create_live)
  then show ?thesis by simp
qed

lemma adds_bulk:
  "adds (template_call (template_of kvs)) (4 + 14 * row_count (get_or kvs ''rows'' (JArr [])))
     (bulk_create_from_csv env forced (JObj kvs))"
proof -
  have "adds (template_call (template_of kvs)) (1 + (3 + 14 * row_count (get_or kvs ''rows'' (JArr []))))
     (bulk_create_from_csv env forced (JObj kvs))"
    unfolding bulk_create_from_csv_def
    by (simp only: as_dict.simps) (rule adds_lifted, rule template_tool, rule adds_bulk_live)
  then show ?thesis by simp
qed

lemma silent_tools:
  assumes "forced \<or> \<not> jtruth (template_of kvs)"
  shows "adds P 0 (create_design_from_template env forced (JObj kvs))" "adds P 0 (bulk_create_from_csv env forced (JObj kvs))"
  using assms
  by (auto simp: create_design_from_template_def bulk_create_from_csv_def as_dict.simps
      intro!: adds_lifted forced_template intro: no_template)

lemma canva_log_calls: "cs_calls (canva_log env tool arguments outcome st) = cs_calls st"
  by (simp add: canva_log_def)

lemma dispatch_adds:
  assumes "map_of CANVA_TABLE tool = Some f" "adds P n (f env forced arguments)"
  shows "adds P n (canva_dispatch env forced tool arguments)"
  using assms unfolding adds_def canva_dispatch_def
  by (auto simp: canva_log_calls split: prod.split sum.split) (metis snd_conv)+

lemma template_tools_add:
  assumes "tool \<in> {''create_design_from_template'', ''bulk_create_from_csv''}"
  shows "adds (template_call (template_of kvs)) (4 + 14 * max 1 (row_count (get_or kvs ''rows'' (JArr []))))
      (canva_dispatch env forced tool (JObj kvs))"
    and "forced \<or> \<not> jtruth (template_of kvs) \<Longrightarrow> adds P 0 (canva_dispatch env forced tool (JObj kvs))"
proof -
  have table: "map_of CANVA_TABLE ''create_design_from_template'' = Some create_design_from_template"
      "map_of CANVA_TABLE ''bulk_create_from_csv'' = Some bulk_create_from_csv"
    by (simp_all add: CANVA_TABLE_def)
  show "adds (template_call (template_of kvs)) (4 + 14 * max 1 (row_count (get_or kvs ''rows'' (JArr []))))
      (canva_dispatch env forced tool (JObj kvs))"
    using assms
    by (auto intro!: dispatch_adds[OF table(1)] dispatch_adds[OF table(2)] adds_weaken[OF adds_create] adds_weaken[OF adds_bulk])
  show "adds P 0 (canva_dispatch env forced tool (JObj kvs))" if "forced \<or> \<not> jtruth (template_of kvs)"
    using assms dispatch_adds[OF table(1) silent_tools(1)[OF that]] dispatch_adds[OF table(2) silent_tools(2)[OF that]] by auto
qed

text \<open>A request reaches the services only through one of the three tools, and not at all when the
header forces the fixtures.\<close>

lemma forced_request_is_silent:
  "forces_fixture header \<Longrightarrow> cs_calls (snd (canva_endpoint env header rq st)) = cs_calls st"
proof -
  assume f: "forces_fixture header"
  have export: "adds (\<lambda>c. False) 0 (export_design env True arguments)" for arguments
    by (cases arguments) (auto simp: export_design_def adds_def cv_bind_def cv_lift_def cv_return_def canva_live_forced required_id_def Let_def)
  have other: "adds (\<lambda>c. False) 0 (create_design_from_template env True arguments)"
    "adds (\<lambda>c. False) 0 (bulk_create_from_csv env True arguments)" for arguments
    by (cases arguments; use silent_tools[of True] in \<open>simp\<close>;
        simp add: create_design_from_template_def bulk_create_from_csv_def adds_def cv_bind_def cv_lift_def)+
  have "adds (\<lambda>c. False) 0 (canva_dispatch env True n arguments)" for n arguments
  proof (cases "map_of CANVA_TABLE n")
    case (Some g)
    then have "adds (\<lambda>c. False) 0 (g env True arguments)"
      using export other by (auto simp: CANVA_TABLE_def split: if_splits)
    with Some show ?thesis by (rule dispatch_adds)
  qed (simp add: adds_def canva_dispatch_def canva_log_calls)
  then show ?thesis
    unfolding canva_endpoint_def
    by (intro endpoint_effect[where R = "\<lambda>st st'. cs_calls st' = cs_calls st"]) (auto simp: f adds_def, metis append.right_neutral snd_conv)
qed

section \<open>Property\<close>

text \<open>C39: a tool of mcp-canva that makes designs has no free-form path. Whatever a model passes to
create_design_from_template or bulk_create_from_csv, every call it causes is a token exchange, a read,
or an autofill job of exactly the template of the arguments whose data are typed texts and assets that
are no file names; there are at most \<open>4 + 14 * n\<close> of them for \<open>n\<close> rows (polling is bounded); and without
a template, or in a forced fixture run, there is none.\<close>

theorem designs_come_from_templates:
  assumes "tool \<in> {''create_design_from_template'', ''bulk_create_from_csv''}"
    and "canva_dispatch env forced tool (JObj kvs) st = (r, st')"
  shows "\<exists>new. cs_calls st' = cs_calls st @ new
    \<and> list_all (template_call (get_or kvs ''template_id'' JNull)) new
    \<and> length new \<le> 4 + 14 * max 1 (row_count (get_or kvs ''rows'' (JArr [])))
    \<and> (forced \<or> \<not> jtruth (get_or kvs ''template_id'' JNull) \<longrightarrow> new = [])"
proof -
  obtain new where new: "cs_calls st' = cs_calls st @ new" "list_all (template_call (template_of kvs)) new"
      "length new \<le> 4 + 14 * max 1 (row_count (get_or kvs ''rows'' (JArr [])))"
    using addsE[OF template_tools_add(1)[OF assms(1)] assms(2)] by metis
  moreover have "new = []" if "forced \<or> \<not> jtruth (template_of kvs)"
    using addsE[OF template_tools_add(2)[OF assms(1) that] assms(2)] new(1) by (metis le_zero_eq length_0_conv same_append_eq)
  ultimately show ?thesis by (auto simp: template_of_def)
qed

end
