(* ===== verification/Mcp_Witness.thy ===== *)
theory Mcp_Witness
  imports Mcp_Buffer_Props Mcp_Web_Props Mcp_Canva_Props Governance_Witness
begin

text \<open>Concrete runs of the tool servers: a server without a key behind a live publish, five calls
against a limit of two, and a design from a template.\<close>

section \<open>A server without a key\<close>

definition bare_env :: mcp_env where
  "bare_env = \<lparr>me_var = (\<lambda>_. None), me_vault = (\<lambda>_. None), me_str = (\<lambda>_. []), me_float = (\<lambda>l. l)\<rparr>"

definition keyless :: buffer_env where
  "keyless = \<lparr>bf_env = bare_env, bf_reply = (\<lambda>_ _. None), bf_log_up = (\<lambda>_. False)\<rparr>"

lemma keyless_creates_nothing: "creates_nothing keyless"
  by (simp add: creates_nothing_def keyless_def buffer_live_def is_live_mode_def resolve_secret_def bare_env_def)

definition fixture_reply :: "ext_call list \<Rightarrow> ext_call \<Rightarrow> http_reply" where
  "fixture_reply calls c =
    (if to_buffer c then Reply 200 (Some (response_json (fst (buffer_endpoint keyless None (request_of c) \<lparr>bs_posts = [], bs_log = []\<rparr>))))
     else demo_reply 0 calls c)"

definition before_fixture :: pub_env where
  "before_fixture = (demo_pub ''false'' 0 [104, 105])\<lparr>pv_reply := fixture_reply\<rparr>"

lemma before_fixture_behind: "behind before_fixture keyless"
  by (auto simp: behind_def before_fixture_def fixture_reply_def)

lemma before_fixture_write: "\<exists>calls. write_gate_decision before_fixture run f rs src cs = (Inr ''r1'', calls)"
  by (simp add: write_gate_decision_def http_get_def call_ext_def before_fixture_def fixture_reply_def demo_pub_def demo_reply_def
      demo_taxonomy_def TAXONOMY_FIELDS_def truthy_json_def)


section \<open>Two calls a minute\<close>

lemma rate_limit_is_sliding_window_witness:
  "snd (limiter_run 2 60 [0, 10, 20, 65, 75]) = [0, 10, 65, 75] \<and>
   reference_run 2 60 [0, 10, 20, 65, 75] = [0, 10, 65, 75] \<and>
   int (length (filter (\<lambda>t. 10 \<le> t \<and> t \<le> 10 + 60) (snd (limiter_run 2 60 [0, 10, 20, 65, 75])))) \<le> 2"
proof -
  have "snd (limiter_run 2 60 [0, 10, 20, 65, 75]) = [0, 10, 65, 75]"
    by (simp add: limiter_run_def limiter_step_def limiter_check_def expire_calls_def)
  then show ?thesis
    using rate_limit_is_sliding_window[of "[0, 10, 20, 65, 75]" 2 60 10] by simp
qed

section \<open>A design\<close>

definition canva_vars :: "string \<Rightarrow> string option" where
  "canva_vars v = map_of [(''CANVA_CLIENT_ID'', ''id''), (''CANVA_CLIENT_SECRET'', ''secret''), (''CANVA_ACCESS_TOKEN'', ''t'')] v"

definition canva_demo :: canva_env where
  "canva_demo = \<lparr>cv_env = bare_env\<lparr>me_var := canva_vars\<rparr>,
     cv_reply = (\<lambda>_ c. case c of
        Canva_Api verb path body auth \<Rightarrow>
          Some (Some (if verb = ''GET'' then JObj [(''dataset'', JObj [(''headline'', JObj [(''type'', JStr ''text'')])])]
                      else JObj [(''job'', JObj [(''status'', JStr ''success'')])]))
      | Canva_Token kvs \<Rightarrow> None), cv_log_up = (\<lambda>_. False)\<rparr>"

definition canva_start :: canva_state where
  "canva_start = \<lparr>cs_calls = [], cs_rotated = JNull, cs_log = []\<rparr>"

definition design_arguments :: "(string \<times> json) list" where
  "design_arguments = [(''template_id'', JStr ''B1''), (''headline'', JStr ''Hi''), (''stray'', JStr ''x'')]"

lemma designs_come_from_templates_witness:
  "cs_calls (snd (canva_dispatch canva_demo False ''create_design_from_template'' (JObj design_arguments) canva_start)) =
     [Canva_Api ''GET'' ''/brand-templates/B1/dataset'' None ''Bearer t'',
      Canva_Api ''POST'' ''/autofills'' (Some (JObj [(''type'', JStr ''create_from_brand_template''), (''brand_template_id'', JStr ''B1''),
        (''data'', JObj [(''headline'', JObj [(''type'', JStr ''text''), (''text'', JStr ''Hi'')])])])) ''Bearer t''] \<and>
   list_all (template_call (JStr ''B1''))
     (cs_calls (snd (canva_dispatch canva_demo False ''create_design_from_template'' (JObj design_arguments) canva_start)))"
proof -
  obtain r st' where run: "canva_dispatch canva_demo False ''create_design_from_template'' (JObj design_arguments) canva_start = (r, st')"
    by force
  have "cs_calls (snd (canva_dispatch canva_demo False ''create_design_from_template'' (JObj design_arguments) canva_start)) =
     [Canva_Api ''GET'' ''/brand-templates/B1/dataset'' None ''Bearer t'',
      Canva_Api ''POST'' ''/autofills'' (Some (JObj [(''type'', JStr ''create_from_brand_template''), (''brand_template_id'', JStr ''B1''),
        (''data'', JObj [(''headline'', JObj [(''type'', JStr ''text''), (''text'', JStr ''Hi'')])])])) ''Bearer t'']"
    by (simp add: canva_dispatch_def CANVA_TABLE_def create_design_from_template_def create_live_def required_id_def design_arguments_def
        get_or_def cv_bind_def cv_lift_def cv_return_def cv_try_def cv_call_def canva_live_def client_credentials_def resolve_secret_def
        canva_demo_def canva_vars_def access_token_def bare_env_def canva_start_def dataset_fields_def api_request_def field_types_def
        List.map_filter_def is_blank_def IMAGE_COLUMNS_def submit_autofill_def AUTOFILL_TYPE_BRAND_TEMPLATE_def await_autofill_job_def
        job_entry_def canva_log_calls Let_def)
  moreover have "list_all (template_call (JStr ''B1'')) (cs_calls st')"
    using designs_come_from_templates[OF _ run] by (auto simp: design_arguments_def get_or_def canva_start_def)
  ultimately show ?thesis using run by simp
qed

end
