(* ===== verification/Spec2Isabelle.thy ===== *)
theory Spec2Isabelle
  imports Governance_Witness Task_Witness Completion_Witness QA_Witness Vault_Witness Option_Witness Mcp_Witness
begin

text \<open>
A model of the Canvas Marketing OS: Python services that plan, draft, review, approve
and publish marketing content with language models, under human approval. The parts
that decide something are modelled; every definition is a function over explicit state,
and a request handler is one function from the state before to the answer and the state
after.

\<^bold>\<open>The program.\<close> An agent asks the gatekeeper (services/gatekeeper) whether an action may
happen. The gatekeeper reads a policy of autonomy levels and two kill switches, and
either issues a signed gate token, opens an approval request for a human, or refuses;
each outcome is a row of governance.gate_decisions. A human decides a request through
a signed single-use link. The publisher (services/publisher) accepts only a gate token
that is bound to the content hash, spends its jti once, and stages a draft in Buffer.
The orchestrator (services/orchestrator) turns heartbeats into batches of tasks with
depends_on edges, dispatches a task when its dependencies are complete, retries a
failed handler and dead-letters it on the third failure. Handlers call language models
through the model gateway (services/model-gateway), which redacts, meters, enforces a
budget and remembers one response per task_ref.

\<^bold>\<open>Theories, in the order of the program.\<close>

CMOS_Prelude: text helpers of Python, handler outcomes, ORDER BY ... LIMIT 1, keyed rows.
Py_Json, Py_Bytes, Py_Uuid5: what the code uses of json, base64, UTF-8, SHA-256, uuid.UUID
and uuid5, executable, with round trips (loads after dumps, decode after encode).

Governance_Lib: the governance schema (gate decisions, approval
requests and actions, kill-switch rows, spent jtis, publish attempts) and
services/governance-lib: kill-switch reading and the canonical resource claim.

Gatekeeper_Policy (policy_loader.py), Gatekeeper_Auth (auth.py, tokens.py and the link
signature), Gatekeeper_Inbox (approval_inbox.py), Gatekeeper (routers/gate_check.py),
Gatekeeper_Actions (routers/approval_action.py, kill_switch.py, decisions.py and the read
routes). Gatekeeper_Props refines gate_check to a decision table over level, kill switches
and latest approval; Approval_Props is about links, approvers and toggles.

Publisher (verifier.py, jti_ledger.py, hashing.py, vault_lookup.py, vault_adapter.py,
buffer_client.py) and Publish_Route (routers/publish.py); Publisher_Props characterises a
successful publish, the audit row of each branch, dry runs, and two branches that burn a
token. Governance_System composes gatekeeper and publisher into one transition system;
its invariant shows that a published draft has an authority and a token publishes once.
Governance_Witness evaluates all of this on concrete requests.

Task_Store (db.py, models.py), Task_Machine (state_machine.py, dead_letter.py,
dispatch/gating.py, the queues), Task_Worker (worker.py, decompose.py): the task machine.
Task_Inv holds the invariant of the store (each task's history is a path of the state
machine), Task_Handler the contract between the worker and the handlers, as a locale that
is interpreted on the pass-through handler, Task_Failure the retry loop, Task_System the reachable
states of any order of heartbeats, messages and reconciliations, Task_Props the properties,
Loop_Graph is the loop loader (loop_loader.py) with Kahn's check
of acyclicity; Batch_Props follows one batch to completion. Task_Routing
is the reading of a run along depends_on (dispatch/lineage.py, run_state.py,
dead_letter_routing.py and the dead-letter card); Routing_Props proves
the walks against paths of the graph. Task_Witness evaluates all of these.

Completion_Policy (routing.py, budget.py, metering.py, redaction.py), Completion (db.py,
gate_decisions.py, providers/), Completion_Handler (completion.py, the route of main.py) and
Completion_Cache (caching.py, as interleaved steps of requests on a pool of connections)
are the model gateway; Completion_Props and Completion_Witness prove it.

Brand_Rules (brand_rules.py, the register of client permissions), QA_Client (the Vault and
gateway clients, the reading of a model's answer, the cards) and QA_Review (dispatch/handlers/
qa_retry.py, qa_common.py: the two reviews, the regeneration loop, the escalation) model
the draft gates as programs over an explicit log of calls. QA_Calls bounds the calls of each
program and shows which tables it leaves alone, QA_Props holds the bound, the end of the
retry loop and the round trip of a model answer, QA_Earned shows that a passed review task was
judged clean, QA_Repeat that an unchanged draft gets the verdict it had; QA_Scene is a database
with services that always answer, on which QA_Witness runs whole reviews.

Vault_Store (models.py, the schema and migrations, audit.py, storage.py), Vault_Objects
(routers/objects.py, consent.py), Vault_Retention (retention.py and its routes) and Vault_Routes
(rollup.py, option cards, the consent check, auth.py, and all writes as one transition system)
are the vault (services/vault): nine object types with taxonomy, retention, consent links,
audit log and a blob container outside of the database. Vault_Inv splits each write into
seven small changes of the tables; Vault_Props proves the invariants of these, Vault_Sweep and
Vault_Expiry what a sweep loses, keeps and removes, Vault_Reads what is read back,
Vault_Witness runs them on a seeded vault.

Option_Cards (services/options_inbox/cards.py, policy.py and the matrix of policies/autonomy-matrix.yaml)
builds, validates and routes option cards and gives their JSON document; Option_Props
shows what a built card promises and that routing partitions the pending cards. Option_Compose
(dispatch/handlers/options.py, Fn 116) composes a card from a draft and two alternates on the
programs of QA_Review, and Option_Earned shows that each option of a posted card passed its review.
Option_Digest (teams_render.py, Fn 117) routes and renders the pending cards. Option_Decide
(gatekeeper/app/routers/option_decide.py, option_decisions.py) is the click that decides a card, as a
read and a write between which others run; Option_Inbox is the transition system of these
halves and of all routes of the vault, with the invariant of its decisions, Option_Link the click on
a signed link and what becomes of expired cards. Option_Scene and
Option_Witness evaluate them. Earn_In (earn_in.py, policies/earn-in-rules.yaml) decides promotion and
demotion of functions, Decision_Quality (dispatch/handlers/decision_quality.py, Fn 126) scores the
decisions and proposes demotions; Quality_Props proves these.

Mcp_Server (mcp/common: the JSON-RPC endpoint over any tool dispatch, secrets with the fixture override
of one request, the log of tool calls), Mcp_Buffer, Mcp_Web and Mcp_Canva (mcp/mcp-buffer, mcp-web,
mcp-canva) are the tool servers. Mcp_Buffer_Props shows that only drafts are created and puts
the server behind the model of the publisher, Mcp_Web_Props equates the rate limiter with a rule over
the whole history and bounds what is fetched, Mcp_Canva_Props counts and types the calls of the design
tools; Mcp_Witness runs them.

\<^bold>\<open>State.\<close> A table is a list of rows in insertion order, a row a record with the columns the
code reads. An id that the database generates is a fresh natural number, a uuid is its
value, an instant is an integer number of microseconds. Each function of db.py opens one
transaction, so it is one atomic step that either commits or leaves the state; a handler
is the sequence of its transactions and of its calls to other services, which are logged
in order. Errors are values: each raise and early return of the code is a branch.

\<^bold>\<open>Parameters.\<close> What is not in the repository is an argument: answers of HTTP calls (as a
function of the calls so far), signature and token libraries, YAML parsing, compiled
regular expressions of the redaction rules, the provider's completion, the clock. Named
hypotheses on them: \<open>good_table\<close> (each handler of the dispatch table keeps the contract of
Task_Handler: it commits only changes of its own kind and settles its own task before it
returns), \<open>rules_named\<close> (a redaction pattern has a non-empty id). The contract of
Task_Handler is met by the pass-through handler; a QA review that enters its retry loop
also settles the sibling review task and is outside of it. The record \<open>qa_env\<close> holds what the
draft gates get from elsewhere: the answers of the Vault, the gateway and the cards channel,
the rendering of carousels and case studies, difflib's comparison and the clearance text.
\<open>canonical_runs\<close> (a stored run is found by its task_ref) and \<open>task_ref_cached\<close> (the gateway
answers a repeated task_ref with the same response, which Completion_Witness proves of its own
model) are the hypotheses of QA_Repeat. The record \<open>vault_env\<close> holds what the database driver
binds, date parsing, the blob service and the order of rows of a SELECT without ORDER BY, of
which \<open>picks\<close> says that it is a reordering. \<open>key_pair\<close> says that a signature of the signer
verifies. \<open>option_services\<close>, \<open>digest_services\<close> and \<open>quality_services\<close> add to \<open>qa_env\<close> uuid4, the clock, the
ISO text of a time, JSON schema validation and the text of a float. \<open>mcp_env\<close> holds the environment
and the Key Vault of a tool server, \<open>buffer_env\<close>, \<open>web_env\<close> and \<open>canva_env\<close> the answers of Buffer, of
web sites and of Canva; \<open>behind\<close> says that the publisher's calls reach such a server, and
\<open>creates_nothing\<close> that it holds no key or is answered without data.

\<^bold>\<open>Bounds.\<close> The JSON parser takes 2 n + 2 steps of fuel for n characters, which
\<open>parse_dump\<close> shows to be enough for each value that dumps prints. The lineage walks stop after the
code's own 6 and 20 hops, the downstream count at its cap of 500, a message that is not
ready is requeued 20 times; these are the constants of the code. The retry loop of the
worker is a partial function and is proved to return. Kahn's loop and the downstream walk
terminate by a measure. The draft loop makes at most MAX_QA_RETRY_ATTEMPTS = 10 attempts, hence at
most 31 completions for one review task. An autofill job is polled AUTOFILL_POLL_ATTEMPTS = 6 times.

\<^bold>\<open>Not modelled.\<close> Text beyond code point 255, log lines, telemetry and pauses; connection
pooling outside of the response cache; the FastAPI parsing of well-typed requests beyond
the fields the handlers read. Binary floats: the rates of the decision quality are exact rationals.
Two sweeps of the vault at a time. The other content handlers
of the orchestrator, analytics, registry tooling, console and function packages are
listed in the manifest with the reason.\<close>

end
